(* ===== verification/Http.thy ===== *)
theory Http
  imports Prelude
begin

text \<open>
  What the middleware and stores read and write of \<^verbatim>\<open>net/http\<close>: the request's method,
  URL, cookies, headers, address and parsed form, and the response's cookies, headers, status
  and body.  A handler is a function from a request and the response so far to the response
  after it.  Header names are held in canonical form.
\<close>

datatype SameSite = SameSiteDefaultMode | SameSiteLaxMode | SameSiteStrictMode | SameSiteNoneMode

record set_cookie =
  sc_Name :: string
  sc_Value :: string
  sc_Path :: string
  sc_MaxAge :: int
  sc_Expires :: "time option"
  sc_Secure :: bool
  sc_HttpOnly :: bool
  sc_SameSite :: SameSite

record request =
  req_Method :: string
  req_URI :: string
  req_Path :: string
  req_Cookies :: "(string \<times> string) list"
  req_Header :: "(string \<times> string) list"
  req_RemoteAddr :: string
  req_PostForm :: "(string \<times> string) list option"

record response =
  resp_Cookies :: "set_cookie list"
  resp_Header :: "(string \<times> string) list"
  resp_Status :: "nat option"
  resp_Body :: string

definition empty_response :: response where
  "empty_response =
     \<lparr>resp_Cookies = [], resp_Header = [], resp_Status = None, resp_Body = []\<rparr>"

definition get_request :: request where
  "get_request =
     \<lparr>req_Method = ''GET'', req_URI = ''/'', req_Path = ''/'', req_Cookies = [], req_Header = [],
      req_RemoteAddr = ''127.0.0.1:80'', req_PostForm = Some []\<rparr>"

text \<open>\<^verbatim>\<open>r.Cookie(name)\<close>: the first cookie of that name, or the error.\<close>

definition req_Cookie :: "request \<Rightarrow> string \<Rightarrow> string option" where
  "req_Cookie r name = map_of (req_Cookies r) name"

text \<open>\<^verbatim>\<open>r.Header.Get(key)\<close>: the first value, or the empty string.\<close>

definition header_Get :: "request \<Rightarrow> string \<Rightarrow> string" where
  "header_Get r key = (case map_of (req_Header r) key of None \<Rightarrow> [] | Some v \<Rightarrow> v)"

text \<open>\<^verbatim>\<open>r.ParseForm\<close> followed by \<^verbatim>\<open>r.PostFormValue(field)\<close>; a form that does not
  parse is \<^term>\<open>None\<close>.\<close>

definition post_form_value :: "request \<Rightarrow> string \<Rightarrow> string option" where
  "post_form_value r field =
     (case req_PostForm r of
        None \<Rightarrow> None
      | Some form \<Rightarrow> Some (case map_of form field of None \<Rightarrow> [] | Some v \<Rightarrow> v))"

text \<open>\<^verbatim>\<open>http.SetCookie\<close> adds one Set-Cookie header.\<close>

definition http_SetCookie :: "set_cookie \<Rightarrow> response \<Rightarrow> response" where
  "http_SetCookie c w = w\<lparr>resp_Cookies := resp_Cookies w @ [c]\<rparr>"

text \<open>\<^verbatim>\<open>w.Header().Set\<close> replaces the values of a header.\<close>

definition header_Set :: "string \<Rightarrow> string \<Rightarrow> response \<Rightarrow> response" where
  "header_Set k v w =
     w\<lparr>resp_Header := filter (\<lambda>(k', _). k' \<noteq> k) (resp_Header w) @ [(k, v)]\<rparr>"

text \<open>\<^verbatim>\<open>WriteHeader\<close> keeps the first status, and \<^verbatim>\<open>Write\<close> implies status 200.\<close>

definition write_header :: "nat \<Rightarrow> response \<Rightarrow> response" where
  "write_header st w = (case resp_Status w of None \<Rightarrow> w\<lparr>resp_Status := Some st\<rparr> | Some _ \<Rightarrow> w)"

definition write_body :: "string \<Rightarrow> response \<Rightarrow> response" where
  "write_body b w = (let w' = write_header 200 w in w'\<lparr>resp_Body := resp_Body w' @ b\<rparr>)"

text \<open>\<^verbatim>\<open>http.Error\<close> and \<^verbatim>\<open>http.Redirect\<close>, as far as status, location and text go.\<close>

definition http_Error :: "string \<Rightarrow> nat \<Rightarrow> response \<Rightarrow> response" where
  "http_Error msg st w = write_body (msg @ [CHR 0x0A]) (write_header st w)"

definition http_Redirect :: "string \<Rightarrow> nat \<Rightarrow> response \<Rightarrow> response" where
  "http_Redirect url st w = write_header st (header_Set ''Location'' url w)"

text \<open>\<^verbatim>\<open>net.SplitHostPort\<close>, the host part, for the address forms a server sees: a bracketed
  IPv6 host or a host without colons, then a colon and the port; anything else is an error.\<close>

definition split_host_port :: "string \<Rightarrow> string option" where
  "split_host_port a =
     (case cut (CHR '':'') (rev a) of
        (_, _, False) \<Rightarrow> None
      | (rport, rhost, True) \<Rightarrow>
          let host = rev rhost; port = rev rport in
          if CHR ''['' \<in> set port \<or> CHR '']'' \<in> set port then None
          else if host \<noteq> [] \<and> hd host = CHR ''['' then
            (if last host = CHR '']'' \<and> 2 \<le> length host
                \<and> CHR ''['' \<notin> set (butlast (tl host)) \<and> CHR '']'' \<notin> set (butlast (tl host))
             then Some (butlast (tl host)) else None)
          else if CHR '':'' \<in> set host \<or> CHR ''['' \<in> set host \<or> CHR '']'' \<in> set host then None
          else Some host)"

text \<open>The same request with the client's copy of one cookie replaced.\<close>

definition with_cookie :: "string \<Rightarrow> string \<Rightarrow> request \<Rightarrow> request" where
  "with_cookie name v r = r\<lparr>req_Cookies := (name, v) # req_Cookies r\<rparr>"

lemma req_Cookie_with_cookie [simp]: "req_Cookie (with_cookie n v r) n = Some v"
  by (simp add: req_Cookie_def with_cookie_def)

lemma with_cookie_simps [simp]:
  "req_Method (with_cookie n v r) = req_Method r"
  "req_Header (with_cookie n v r) = req_Header r"
  "req_PostForm (with_cookie n v r) = req_PostForm r"
  "req_RemoteAddr (with_cookie n v r) = req_RemoteAddr r"
  "header_Get (with_cookie n v r) k = header_Get r k"
  "post_form_value (with_cookie n v r) f = post_form_value r f"
  by (simp_all add: with_cookie_def header_Get_def post_form_value_def)

lemma resp_Cookies_SetCookie [simp]:
  "resp_Cookies (http_SetCookie c w) = resp_Cookies w @ [c]"
  by (simp add: http_SetCookie_def)

lemma write_header_cookies [simp]: "resp_Cookies (write_header st w) = resp_Cookies w"
  by (simp add: write_header_def split: option.splits)

lemma write_body_cookies [simp]: "resp_Cookies (write_body b w) = resp_Cookies w"
  by (simp add: write_body_def Let_def)

end
