(* ===== verification/Base64.thy ===== *)
theory Base64
  imports Prelude
begin

text \<open>
  Go's \<^verbatim>\<open>encoding/base64\<close> without padding, in its two alphabets:
  \<^verbatim>\<open>RawURLEncoding\<close> (cookies, tokens, session ids, recovery codes, sealed secrets) and
  \<^verbatim>\<open>RawStdEncoding\<close> (password hashes, decoded in strict mode).  Decoding follows the
  package: carriage returns and line feeds in the input are skipped, a last group of one symbol
  is corrupt, and only the strict mode refuses non-zero trailing bits.
\<close>

datatype b64_alphabet = URL_Alphabet | Std_Alphabet

definition alphabet :: "b64_alphabet \<Rightarrow> string" where
  "alphabet a =
     ''ABCDEFGHIJKLMNOPQRSTUVWXYZabcdefghijklmnopqrstuvwxyz0123456789'' @
     (case a of URL_Alphabet \<Rightarrow> ''-_'' | Std_Alphabet \<Rightarrow> ''+/'')"

definition symbol :: "b64_alphabet \<Rightarrow> nat \<Rightarrow> char" where
  "symbol a n = alphabet a ! n"

fun index_of :: "string \<Rightarrow> char \<Rightarrow> nat option" where
  "index_of [] c = None"
| "index_of (x # xs) c = (if x = c then Some 0 else map_option Suc (index_of xs c))"

fun encode_sextets :: "nat list \<Rightarrow> nat list" where
  "encode_sextets (x # y # z # bs) =
     [x div 4, x mod 4 * 16 + y div 16, y mod 16 * 4 + z div 64, z mod 64] @ encode_sextets bs"
| "encode_sextets [x, y] = [x div 4, x mod 4 * 16 + y div 16, y mod 16 * 4]"
| "encode_sextets [x] = [x div 4, x mod 4 * 16]"
| "encode_sextets [] = []"

definition encode :: "b64_alphabet \<Rightarrow> string \<Rightarrow> string" where
  "encode a s = map (symbol a) (encode_sextets (map of_char s))"

fun decode_sextets :: "bool \<Rightarrow> nat list \<Rightarrow> nat list option" where
  "decode_sextets strict (p # q # r # s # ss) =
     map_option (\<lambda>bs. [p * 4 + q div 16, q mod 16 * 16 + r div 4, r mod 4 * 64 + s] @ bs)
       (decode_sextets strict ss)"
| "decode_sextets strict [p, q, r] =
     (if strict \<and> r mod 4 \<noteq> 0 then None
      else Some [p * 4 + q div 16, q mod 16 * 16 + r div 4])"
| "decode_sextets strict [p, q] =
     (if strict \<and> q mod 16 \<noteq> 0 then None else Some [p * 4 + q div 16])"
| "decode_sextets strict [p] = None"
| "decode_sextets strict [] = Some []"

definition decode_gen :: "bool \<Rightarrow> b64_alphabet \<Rightarrow> string \<Rightarrow> string option" where
  "decode_gen strict a s =
     (case those (map (index_of (alphabet a))
             (filter (\<lambda>c. c \<noteq> CHR 0x0A \<and> c \<noteq> CHR 0x0D) s)) of
        None \<Rightarrow> None
      | Some ns \<Rightarrow> map_option (map char_of) (decode_sextets strict ns))"

definition decode :: "b64_alphabet \<Rightarrow> string \<Rightarrow> string option" where
  "decode a s = decode_gen False a s"

definition decode_strict :: "b64_alphabet \<Rightarrow> string \<Rightarrow> string option" where
  "decode_strict a s = decode_gen True a s"

section \<open>The alphabet\<close>

lemma length_alphabet: "length (alphabet a) = 64"
  by (cases a) (simp_all add: alphabet_def)

lemma distinct_alphabet: "distinct (alphabet a)"
  by (cases a) (simp_all add: alphabet_def)

lemma alphabet_excludes:
  "CHR ''.'' \<notin> set (alphabet a)" "CHR ''|'' \<notin> set (alphabet a)"
  "CHR ''$'' \<notin> set (alphabet a)" "CHR 0x0A \<notin> set (alphabet a)"
  "CHR 0x0D \<notin> set (alphabet a)" "CHR '' '' \<notin> set (alphabet a)"
  by (cases a; simp add: alphabet_def)+

lemma index_of_nth:
  "distinct xs \<Longrightarrow> n < length xs \<Longrightarrow> index_of xs (xs ! n) = Some n"
proof (induction xs arbitrary: n)
  case (Cons x xs)
  then show ?case by (cases n) auto
qed simp

lemma index_of_symbol [simp]: "n < 64 \<Longrightarrow> index_of (alphabet a) (symbol a n) = Some n"
  unfolding symbol_def by (rule index_of_nth) (simp_all add: distinct_alphabet length_alphabet)

lemma symbol_in_alphabet: "n < 64 \<Longrightarrow> symbol a n \<in> set (alphabet a)"
  unfolding symbol_def by (rule nth_mem) (simp add: length_alphabet)

section \<open>Sextets\<close>

lemma sextet_bounds:
  fixes x y z :: nat
  shows "x < 256 \<Longrightarrow> x div 4 < 64" and "x mod 4 * 16 < 64" and "x mod 16 * 4 < 64"
    and "y < 256 \<Longrightarrow> x mod 4 * 16 + y div 16 < 64"
    and "z < 256 \<Longrightarrow> y mod 16 * 4 + z div 64 < 64"
proof -
  show "x < 256 \<Longrightarrow> x div 4 < 64" by simp
  have m: "x mod 4 < 4" "x mod 16 < 16" "y mod 16 < 16" by simp_all
  then show "x mod 4 * 16 < 64" "x mod 16 * 4 < 64" by linarith+
  show "x mod 4 * 16 + y div 16 < 64" if "y < 256"
  proof -
    from that have "y div 16 < 16" by simp
    with m show ?thesis by linarith
  qed
  show "y mod 16 * 4 + z div 64 < 64" if "z < 256"
  proof -
    from that have "z div 64 < 4" by simp
    with m show ?thesis by linarith
  qed
qed

lemma encode_sextets_bound:
  "(\<And>b. b \<in> set bs \<Longrightarrow> b < 256) \<Longrightarrow> \<forall>n \<in> set (encode_sextets bs). n < 64"
  by (induction bs rule: encode_sextets.induct) (simp_all add: sextet_bounds)

lemma regroup_bytes:
  fixes x y z :: nat
  shows "y < 256 \<Longrightarrow> x div 4 * 4 + (x mod 4 * 16 + y div 16) div 16 = x"
    and "y < 256 \<Longrightarrow> z < 256 \<Longrightarrow>
         (x mod 4 * 16 + y div 16) mod 16 * 16 + (y mod 16 * 4 + z div 64) div 4 = y"
    and "z < 256 \<Longrightarrow> (y mod 16 * 4 + z div 64) mod 4 * 64 + z mod 64 = z"
proof -
  show "x div 4 * 4 + (x mod 4 * 16 + y div 16) div 16 = x" if "y < 256"
  proof -
    from that have "y div 16 < 16" by simp
    then have "(x mod 4 * 16 + y div 16) div 16 = x mod 4" by simp
    then show ?thesis by simp
  qed
  assume z: "z < 256"
  then have q: "z div 64 < 4" by simp
  from q show "(y mod 16 * 4 + z div 64) mod 4 * 64 + z mod 64 = z" by simp
  assume "y < 256"
  then have "y div 16 < 16" by simp
  then have "(x mod 4 * 16 + y div 16) mod 16 = y div 16" by simp
  moreover from q have "(y mod 16 * 4 + z div 64) div 4 = y mod 16" by simp
  ultimately show "(x mod 4 * 16 + y div 16) mod 16 * 16 + (y mod 16 * 4 + z div 64) div 4 = y"
    by simp
qed

lemma decode_encode_sextets:
  "(\<And>b. b \<in> set bs \<Longrightarrow> b < 256) \<Longrightarrow> decode_sextets strict (encode_sextets bs) = Some bs"
proof (induction bs rule: encode_sextets.induct)
  case (1 x y z bs)
  then have "x < 256" "y < 256" "z < 256" by auto
  moreover from 1 have "decode_sextets strict (encode_sextets bs) = Some bs" by simp
  ultimately show ?case by (simp add: regroup_bytes)
next
  case (2 x y)
  then have "x < 256" "y < 256" by auto
  then show ?case using regroup_bytes(1) [of y x] regroup_bytes(2) [of y 0 x] by simp
next
  case (3 x)
  then show ?case by simp
qed simp

section \<open>Strings\<close>

lemma map_of_char_bound: "b \<in> set (map of_char (s :: string)) \<Longrightarrow> (b :: nat) < 256"
  by auto

lemma encode_string_bound: "n \<in> set (encode_sextets (map of_char s)) \<Longrightarrow> n < 64"
  by (rule bspec [OF encode_sextets_bound]) (rule map_of_char_bound)

lemma encode_set: "set (encode a s) \<subseteq> set (alphabet a)"
proof
  fix c assume "c \<in> set (encode a s)"
  then obtain n where n: "n \<in> set (encode_sextets (map of_char s))" and c: "c = symbol a n"
    by (auto simp: encode_def)
  have "n < 64" using n by (rule encode_string_bound)
  with c show "c \<in> set (alphabet a)" by (simp add: symbol_in_alphabet)
qed

lemma encode_excludes [simp]:
  "CHR ''.'' \<notin> set (encode a s)" "CHR ''|'' \<notin> set (encode a s)"
  "CHR ''$'' \<notin> set (encode a s)" "CHR 0x0A \<notin> set (encode a s)"
  "CHR 0x0D \<notin> set (encode a s)" "CHR '' '' \<notin> set (encode a s)"
  using encode_set [of a s] alphabet_excludes [of a] by blast+

lemma those_map_index:
  "(\<And>n. n \<in> set ns \<Longrightarrow> n < 64) \<Longrightarrow>
   those (map (index_of (alphabet a)) (map (symbol a) ns)) = Some ns"
  by (induction ns) auto

lemma decode_gen_encode: "decode_gen strict a (encode a s) = Some s"
proof -
  have "filter (\<lambda>c. c \<noteq> CHR 0x0A \<and> c \<noteq> CHR 0x0D) (encode a s) = encode a s"
    by (rule filter_id_set) (metis encode_excludes(4,5))
  moreover have "those (map (index_of (alphabet a)) (encode a s))
      = Some (encode_sextets (map of_char s))"
    unfolding encode_def
    by (rule those_map_index) (rule encode_string_bound)
  moreover have "decode_sextets strict (encode_sextets (map of_char s))
      = Some (map of_char s)"
    by (rule decode_encode_sextets) (rule map_of_char_bound)
  ultimately show ?thesis
    by (simp add: decode_gen_def o_def)
qed

lemma decode_encode [simp]: "decode a (encode a s) = Some s"
  by (simp add: decode_def decode_gen_encode)

lemma decode_strict_encode [simp]: "decode_strict a (encode a s) = Some s"
  by (simp add: decode_strict_def decode_gen_encode)

lemma encode_inj: "encode a s = encode a t \<longleftrightarrow> s = t"
  by (metis decode_encode option.inject)

lemma encode_eq_Nil [simp]: "encode a s = [] \<longleftrightarrow> s = []"
  by (metis encode_inj encode_def encode_sextets.simps(4) list.map(1))

lemma encode_not_space: "c \<in> set (encode a s) \<Longrightarrow> \<not> is_space c"
proof -
  assume "c \<in> set (encode a s)"
  then have "c \<in> set (alphabet a)" using encode_set by blast
  then show ?thesis by (cases a) (auto simp: alphabet_def is_space_def)
qed

end
