(* ===== verification/Cookie.thy ===== *)
theory Cookie
  imports Http Base64
begin

text \<open>
  The signed cookies of \<^verbatim>\<open>cookie/cookie.go\<close>.  A \<^verbatim>\<open>Jar\<close> appends to the base64
  form of a value the MAC of the cookie's name and that form; reading cuts at the first dot,
  compares the MAC and decodes.  HMAC-SHA256 of \<^verbatim>\<open>crypto/hmac\<close> is the parameter
  \<open>hmac\<close> of the definitions, a function of the key and the message; no law is asked of it.
\<close>

datatype cookie_error = Cookie_ErrNotFound | Cookie_ErrInvalid

record Jar =
  jar_key :: string
  jar_Secure :: bool
  jar_Path :: string
  jar_SameSite :: SameSite

record cookie_Options =
  opt_MaxAge :: int
  opt_HTTPOnly :: "bool option"

definition cookie_New :: "string \<Rightarrow> bool \<Rightarrow> Jar" where
  "cookie_New key secure =
     \<lparr>jar_key = key, jar_Secure = secure, jar_Path = ''/'', jar_SameSite = SameSiteLaxMode\<rparr>"

definition jar_path :: "Jar \<Rightarrow> string" where
  "jar_path j = (if jar_Path j = [] then ''/'' else jar_Path j)"

definition jar_mac :: "(string \<Rightarrow> string \<Rightarrow> string) \<Rightarrow> Jar \<Rightarrow> string \<Rightarrow> string \<Rightarrow> string" where
  "jar_mac hmac j name payload =
     encode URL_Alphabet (hmac (jar_key j) (name @ ''|'' @ payload))"

definition jar_sign :: "(string \<Rightarrow> string \<Rightarrow> string) \<Rightarrow> Jar \<Rightarrow> string \<Rightarrow> string \<Rightarrow> string" where
  "jar_sign hmac j name value =
     (let payload = encode URL_Alphabet value
      in payload @ ''.'' @ jar_mac hmac j name payload)"

definition jar_verify ::
  "(string \<Rightarrow> string \<Rightarrow> string) \<Rightarrow> Jar \<Rightarrow> string \<Rightarrow> string \<Rightarrow> (cookie_error, string) result" where
  "jar_verify hmac j name signed =
     (case cut (CHR ''.'') signed of
        (payload, sig, found) \<Rightarrow>
          if \<not> found then Inl Cookie_ErrInvalid
          else if sig \<noteq> jar_mac hmac j name payload then Inl Cookie_ErrInvalid
          else (case decode URL_Alphabet payload of
                  None \<Rightarrow> Inl Cookie_ErrInvalid
                | Some raw \<Rightarrow> Inr raw))"

definition jar_Set ::
  "(string \<Rightarrow> string \<Rightarrow> string) \<Rightarrow> Jar \<Rightarrow> response \<Rightarrow> string \<Rightarrow> string \<Rightarrow> cookie_Options \<Rightarrow> response" where
  "jar_Set hmac j w name value opts =
     (let httpOnly = (case opt_HTTPOnly opts of None \<Rightarrow> True | Some b \<Rightarrow> b)
      in http_SetCookie
           \<lparr>sc_Name = name, sc_Value = jar_sign hmac j name value, sc_Path = jar_path j,
            sc_MaxAge = opt_MaxAge opts, sc_Expires = None, sc_Secure = jar_Secure j,
            sc_HttpOnly = httpOnly, sc_SameSite = jar_SameSite j\<rparr> w)"

definition jar_Get ::
  "(string \<Rightarrow> string \<Rightarrow> string) \<Rightarrow> Jar \<Rightarrow> request \<Rightarrow> string \<Rightarrow> (cookie_error, string) result" where
  "jar_Get hmac j r name =
     (case req_Cookie r name of
        None \<Rightarrow> Inl Cookie_ErrNotFound
      | Some v \<Rightarrow> jar_verify hmac j name v)"

definition jar_Delete :: "Jar \<Rightarrow> response \<Rightarrow> string \<Rightarrow> response" where
  "jar_Delete j w name =
     http_SetCookie
       \<lparr>sc_Name = name, sc_Value = [], sc_Path = jar_path j, sc_MaxAge = - 1,
        sc_Expires = Some (unix_offset * Second), sc_Secure = jar_Secure j,
        sc_HttpOnly = True, sc_SameSite = jar_SameSite j\<rparr> w"

section \<open>Signing and verifying\<close>

lemma jar_verify_iff:
  "jar_verify hmac j name signed = Inr v \<longleftrightarrow>
   (\<exists>payload. CHR ''.'' \<notin> set payload
      \<and> signed = payload @ ''.'' @ jar_mac hmac j name payload
      \<and> decode URL_Alphabet payload = Some v)"
  (is "?L \<longleftrightarrow> ?R")
proof
  assume ?L
  then obtain payload sig where c: "cut (CHR ''.'') signed = (payload, sig, True)"
    and sig: "sig = jar_mac hmac j name payload"
    and d: "decode URL_Alphabet payload = Some v"
    by (auto simp: jar_verify_def split: prod.splits if_splits option.splits)
  from cut_foundD [OF c] sig d show ?R by (intro exI [of _ payload]) simp
qed (auto simp: jar_verify_def)

lemma jar_verify_sign [simp]: "jar_verify hmac j name (jar_sign hmac j name v) = Inr v"
  unfolding jar_verify_iff jar_sign_def Let_def
  by (rule exI [of _ "encode URL_Alphabet v"]) simp

lemma jar_verify_Inl: "jar_verify hmac j name s = Inl e \<Longrightarrow> e = Cookie_ErrInvalid"
  by (auto simp: jar_verify_def split: prod.splits if_splits option.splits)

lemma jar_verify_other_sign:
  assumes "jar_verify hmac j n2 (jar_sign hmac j' n1 v) = Inr v'"
  shows "v' = v \<and> hmac (jar_key j) (n2 @ ''|'' @ encode URL_Alphabet v)
           = hmac (jar_key j') (n1 @ ''|'' @ encode URL_Alphabet v)"
proof -
  let ?p = "encode URL_Alphabet v"
  from assms obtain payload where nd: "CHR ''.'' \<notin> set payload"
    and eq: "jar_sign hmac j' n1 v = payload @ ''.'' @ jar_mac hmac j n2 payload"
    and d: "decode URL_Alphabet payload = Some v'"
    unfolding jar_verify_iff by blast
  have "cut (CHR ''.'') (jar_sign hmac j' n1 v) = (?p, jar_mac hmac j' n1 ?p, True)"
    by (simp add: jar_sign_def Let_def)
  moreover have "cut (CHR ''.'') (jar_sign hmac j' n1 v)
      = (payload, jar_mac hmac j n2 payload, True)"
    unfolding eq using nd by simp
  ultimately have "payload = ?p" and "jar_mac hmac j' n1 ?p = jar_mac hmac j n2 ?p"
    by auto
  with d show ?thesis by (simp add: jar_mac_def encode_inj)
qed

lemma jar_Get_with_cookie [simp]:
  "jar_Get hmac j (with_cookie n s r) n = jar_verify hmac j n s"
  by (simp add: jar_Get_def)

lemma jar_Get_InrD:
  "jar_Get hmac j r name = Inr v \<Longrightarrow>
   \<exists>raw. req_Cookie r name = Some raw \<and> jar_verify hmac j name raw = Inr v"
  by (auto simp: jar_Get_def split: option.splits)

lemma jar_Set_cookies:
  "resp_Cookies (jar_Set hmac j w name v opts) =
   resp_Cookies w @
     [\<lparr>sc_Name = name, sc_Value = jar_sign hmac j name v, sc_Path = jar_path j,
       sc_MaxAge = opt_MaxAge opts, sc_Expires = None, sc_Secure = jar_Secure j,
       sc_HttpOnly = (case opt_HTTPOnly opts of None \<Rightarrow> True | Some b \<Rightarrow> b),
       sc_SameSite = jar_SameSite j\<rparr>]"
  by (simp add: jar_Set_def Let_def)

section \<open>Properties\<close>

text \<open>A request that carries back the cookie that \<^verbatim>\<open>Jar.Set\<close> wrote, whatever its
  value, name and options, reads exactly the value that was set.\<close>

theorem cookie_set_get_roundtrip:
  "jar_Get hmac j
     (with_cookie name (sc_Value (last (resp_Cookies (jar_Set hmac j w name v opts)))) r) name
   = Inr v"
  by (simp add: jar_Set_cookies)


text \<open>Name binding: a value lifted out of one cookie and replayed under another name is
  accepted only where the HMAC has a collision on two different messages.\<close>

theorem cookie_replay_needs_collision:
  assumes "n1 \<noteq> n2"
    and "jar_verify hmac j n2 (jar_sign hmac j n1 v) = Inr v'"
  shows "\<exists>m1 m2. m1 \<noteq> m2 \<and> hmac (jar_key j) m1 = hmac (jar_key j) m2"
proof -
  let ?m = "\<lambda>n. n @ ''|'' @ encode URL_Alphabet v"
  have "?m n1 \<noteq> ?m n2" using assms(1) by simp
  moreover have "hmac (jar_key j) (?m n1) = hmac (jar_key j) (?m n2)"
    using jar_verify_other_sign [OF assms(2)] by simp
  ultimately show ?thesis by blast
qed

theorem cookie_replay_needs_collision_witness:
  "jar_verify (\<lambda>k m. take 1 m) (cookie_New ''key'' True) ''ab''
     (jar_sign (\<lambda>k m. take 1 m) (cookie_New ''key'' True) ''aa'' ''x'') = Inr ''x''
   \<and> (\<exists>(m1::string) m2. m1 \<noteq> m2 \<and> take 1 m1 = take 1 m2)"
proof -
  let ?h = "\<lambda>(k::string) (m::string). take 1 m"
  let ?j = "cookie_New ''key'' True"
  have v: "jar_verify ?h ?j ''ab'' (jar_sign ?h ?j ''aa'' ''x'') = Inr ''x''"
    by code_simp
  have "\<exists>(m1::string) m2. m1 \<noteq> m2 \<and> take 1 m1 = take 1 m2"
    using cookie_replay_needs_collision [OF _ v] by simp
  with v show ?thesis by blast
qed

end
