(* ===== verification/Strconv.thy ===== *)
theory Strconv
  imports Prelude
begin

text \<open>
  The conversions of Go's \<^verbatim>\<open>strconv\<close> package that the sources call, with their
  round trips: decimal integers (\<^verbatim>\<open>Itoa\<close>, \<^verbatim>\<open>Atoi\<close>, \<^verbatim>\<open>FormatInt\<close>,
  \<^verbatim>\<open>FormatUint\<close>, \<^verbatim>\<open>ParseInt\<close>, \<^verbatim>\<open>ParseUint\<close>) and booleans.  A parse that
  returns an error is \<^term>\<open>None\<close>.  The bit size of a parse is its width argument, so the
  range errors are kept.
\<close>

fun format_nat :: "nat \<Rightarrow> string" where
  "format_nat n =
     (if n < 10 then [char_of (48 + n)]
      else format_nat (n div 10) @ [char_of (48 + n mod 10)])"

declare format_nat.simps [simp del]

definition format_int :: "int \<Rightarrow> string" where
  "format_int i = (if i < 0 then CHR ''-'' # format_nat (nat (- i)) else format_nat (nat i))"

definition digit_val :: "char \<Rightarrow> nat" where
  "digit_val c = of_char c - 48"

definition digits_val :: "string \<Rightarrow> nat" where
  "digits_val s = foldl (\<lambda>n c. 10 * n + digit_val c) 0 s"

text \<open>\<^verbatim>\<open>ParseUint(s, 10, bits)\<close>: digits only, no sign, in range.\<close>

definition parse_uint :: "string \<Rightarrow> nat \<Rightarrow> nat option" where
  "parse_uint s bits =
     (if s = [] \<or> \<not> list_all is_digit s then None
      else if digits_val s < 2 ^ bits then Some (digits_val s) else None)"

text \<open>\<^verbatim>\<open>ParseInt(s, 10, bits)\<close>: an optional sign, digits, in the signed range.\<close>

definition parse_int :: "string \<Rightarrow> nat \<Rightarrow> int option" where
  "parse_int s bits =
     (let neg = (s \<noteq> [] \<and> hd s = CHR ''-'');
          ds = (if s \<noteq> [] \<and> (hd s = CHR ''-'' \<or> hd s = CHR ''+'') then tl s else s)
      in if ds = [] \<or> \<not> list_all is_digit ds then None
         else let n = int (digits_val ds)
              in if neg then (if n \<le> 2 ^ (bits - 1) then Some (- n) else None)
                 else (if n < 2 ^ (bits - 1) then Some n else None))"

text \<open>\<^verbatim>\<open>Atoi\<close> is \<^verbatim>\<open>ParseInt\<close> at the width of \<^verbatim>\<open>int\<close>, 64 bits.\<close>

definition atoi :: "string \<Rightarrow> int option" where
  "atoi s = parse_int s 64"

definition format_bool :: "bool \<Rightarrow> string" where
  "format_bool b = (if b then ''true'' else ''false'')"

definition parse_bool :: "string \<Rightarrow> bool option" where
  "parse_bool s =
     (if s \<in> {''1'', ''t'', ''T'', ''TRUE'', ''true'', ''True''} then Some True
      else if s \<in> {''0'', ''f'', ''F'', ''FALSE'', ''false'', ''False''} then Some False
      else None)"

section \<open>Digits\<close>

lemma of_char_digit: "n < 10 \<Longrightarrow> of_char (char_of (48 + n) :: char) = (48 + n :: nat)"
  by simp

lemma is_digit_char_of: "(n::nat) < 10 \<Longrightarrow> is_digit (char_of (48 + n))"
  by (simp add: is_digit_def char_between_def)

lemma digit_val_char_of: "(n::nat) < 10 \<Longrightarrow> digit_val (char_of (48 + n)) = n"
  by (simp add: digit_val_def)

lemma format_nat_digits: "list_all is_digit (format_nat n)"
proof (induction n rule: format_nat.induct)
  case (1 n)
  then show ?case by (subst format_nat.simps) (auto simp: is_digit_char_of)
qed

lemma format_nat_not_Nil [simp]: "format_nat n \<noteq> []"
  by (subst format_nat.simps) simp

lemma digits_val_snoc: "digits_val (s @ [c]) = 10 * digits_val s + digit_val c"
  by (simp add: digits_val_def)

lemma digits_val_format_nat [simp]: "digits_val (format_nat n) = n"
proof (induction n rule: format_nat.induct)
  case (1 n)
  show ?case
  proof (cases "n < 10")
    case True
    then show ?thesis
      by (subst format_nat.simps) (simp add: digits_val_def digit_val_char_of)
  next
    case False
    with 1 show ?thesis
      by (subst format_nat.simps) (simp add: digits_val_snoc digit_val_char_of)
  qed
qed

lemma is_digit_not_sign: "is_digit c \<Longrightarrow> c \<noteq> CHR ''-'' \<and> c \<noteq> CHR ''+''"
  by (auto simp: is_digit_def char_between_def)

lemma is_digit_not_dot: "is_digit c \<Longrightarrow> c \<noteq> CHR ''.''"
  by (auto simp: is_digit_def char_between_def)

lemma format_nat_hd_digit: "is_digit (hd (format_nat n))"
  using format_nat_digits [of n] format_nat_not_Nil [of n]
  by (metis hd_in_set list_all_iff)

lemma format_int_no_dot: "CHR ''.'' \<notin> set (format_int i)"
  using format_nat_digits
  by (auto simp: format_int_def list_all_iff dest: is_digit_not_dot)

section \<open>Round trips\<close>

lemma parse_uint_format_nat: "n < 2 ^ bits \<Longrightarrow> parse_uint (format_nat n) bits = Some n"
  by (simp add: parse_uint_def format_nat_digits)

lemma parse_uint_bound: "parse_uint s bits = Some n \<Longrightarrow> n < 2 ^ bits"
  by (auto simp: parse_uint_def split: if_splits)

lemma parse_int_format_int:
  assumes "- (2 ^ (bits - 1)) \<le> i" and "i < 2 ^ (bits - 1)"
  shows "parse_int (format_int i) bits = Some i"
proof (cases "i < 0")
  case True
  with assms show ?thesis
    by (auto simp: parse_int_def format_int_def format_nat_digits Let_def)
next
  case False
  with assms is_digit_not_sign [OF format_nat_hd_digit [of "nat i"]] show ?thesis
    by (auto simp: parse_int_def format_int_def format_nat_digits Let_def)
qed

lemma atoi_format_int: "- (2 ^ 63) \<le> i \<Longrightarrow> i < 2 ^ 63 \<Longrightarrow> atoi (format_int i) = Some i"
  unfolding atoi_def by (rule parse_int_format_int) simp_all

lemma parse_int_bounds:
  assumes "parse_int s bits = Some i"
  shows "- (2 ^ (bits - 1)) \<le> i \<and> i < 2 ^ (bits - 1)"
proof -
  have pos: "0 < (2::int) ^ (bits - 1)" by simp
  obtain n where "(i = - int n \<and> int n \<le> 2 ^ (bits - 1)) \<or> (i = int n \<and> int n < 2 ^ (bits - 1))"
    using assms unfolding parse_int_def Let_def by (metis option.distinct(1) option.inject)
  with pos show ?thesis by linarith
qed

lemma parse_bool_format_bool [simp]: "parse_bool (format_bool b) = Some b"
  by (simp add: parse_bool_def format_bool_def)

end
