(* ===== verification/Session.thy ===== *)
theory Session
  imports Cookie Strconv
begin

text \<open>
  The package \<^verbatim>\<open>session\<close>: the \<^verbatim>\<open>Session\<close> value of \<^verbatim>\<open>session.go\<close>, the cookie store
  of \<^verbatim>\<open>store.go\<close>, the database store of \<^verbatim>\<open>db_store.go\<close> and the middleware with its
  response-writer wrapper of \<^verbatim>\<open>middleware.go\<close>.

  The clock is an argument \<open>now\<close>, the random source an argument that is \<^term>\<open>None\<close> where
  reading it fails, and each call of the database has a fault flag that is true where the call
  returns an error.  JSON encoding and decoding are the parameters \<open>marshal\<close> and
  \<open>unmarshal\<close>; the contract of a store asks for their round trip on the session at hand
  through its predicate of storable sessions.
\<close>

datatype panic = Panic string

type_synonym entropy = "string option"
type_synonym fault = bool

record Session =
  sess_ID :: string
  sess_Data :: "(string, string) fmap"
  sess_ExpiresAt :: time
  sess_dirty :: bool
  sess_fresh :: bool

definition session_CookieName :: string where "session_CookieName = ''ryla_session''"

definition session_NewID :: "entropy \<Rightarrow> (panic, string) result" where
  "session_NewID rnd =
     (case rnd of
        None \<Rightarrow> Inl (Panic ''session: could not read random bytes'')
      | Some b \<Rightarrow> Inr (encode URL_Alphabet b))"

definition session_New :: "entropy \<Rightarrow> time \<Rightarrow> duration \<Rightarrow> (panic, Session) result" where
  "session_New rnd now lifetime =
     (case session_NewID rnd of
        Inl p \<Rightarrow> Inl p
      | Inr i \<Rightarrow> Inr \<lparr>sess_ID = i, sess_Data = fmempty, sess_ExpiresAt = now + lifetime,
                      sess_dirty = False, sess_fresh = True\<rparr>)"

definition session_Get :: "Session \<Rightarrow> string \<Rightarrow> string" where
  "session_Get s key = (case fmlookup (sess_Data s) key of None \<Rightarrow> [] | Some v \<Rightarrow> v)"

definition session_Has :: "Session \<Rightarrow> string \<Rightarrow> bool" where
  "session_Has s key = (fmlookup (sess_Data s) key \<noteq> None)"

definition session_Put :: "string \<Rightarrow> string \<Rightarrow> Session \<Rightarrow> Session" where
  "session_Put key value s =
     (if fmlookup (sess_Data s) key = Some value then s
      else s\<lparr>sess_Data := fmupd key value (sess_Data s), sess_dirty := True\<rparr>)"

definition session_Forget :: "string \<Rightarrow> Session \<Rightarrow> Session" where
  "session_Forget key s =
     (if fmlookup (sess_Data s) key = None then s
      else s\<lparr>sess_Data := fmdrop key (sess_Data s), sess_dirty := True\<rparr>)"

definition session_Pull :: "string \<Rightarrow> Session \<Rightarrow> string \<times> Session" where
  "session_Pull key s = (session_Get s key, session_Forget key s)"

definition session_Clear :: "Session \<Rightarrow> Session" where
  "session_Clear s =
     (if fcard (fmdom (sess_Data s)) = 0 then s
      else s\<lparr>sess_Data := fmempty, sess_dirty := True\<rparr>)"

definition session_GetInt :: "Session \<Rightarrow> string \<Rightarrow> int \<Rightarrow> int" where
  "session_GetInt s key def = (case atoi (session_Get s key) of None \<Rightarrow> def | Some n \<Rightarrow> n)"

definition session_PutInt :: "string \<Rightarrow> int \<Rightarrow> Session \<Rightarrow> Session" where
  "session_PutInt key value s = session_Put key (format_int value) s"

definition session_GetBool :: "Session \<Rightarrow> string \<Rightarrow> bool" where
  "session_GetBool s key = (parse_bool (session_Get s key) = Some True)"

definition session_PutBool :: "string \<Rightarrow> bool \<Rightarrow> Session \<Rightarrow> Session" where
  "session_PutBool key value s = session_Put key (format_bool value) s"

definition session_Regenerate :: "entropy \<Rightarrow> Session \<Rightarrow> (panic, Session) result" where
  "session_Regenerate rnd s =
     (case session_NewID rnd of
        Inl p \<Rightarrow> Inl p
      | Inr i \<Rightarrow> Inr (s\<lparr>sess_ID := i, sess_fresh := True, sess_dirty := True\<rparr>))"

definition session_Invalidate :: "entropy \<Rightarrow> Session \<Rightarrow> (panic, Session) result" where
  "session_Invalidate rnd s = session_Regenerate rnd (s\<lparr>sess_Data := fmempty\<rparr>)"

definition session_Touch :: "time \<Rightarrow> duration \<Rightarrow> Session \<Rightarrow> Session" where
  "session_Touch now lifetime s =
     (let next = now + lifetime
      in if next - sess_ExpiresAt s > Minute
         then s\<lparr>sess_ExpiresAt := next, sess_dirty := True\<rparr> else s)"

definition session_Expired :: "time \<Rightarrow> Session \<Rightarrow> bool" where
  "session_Expired now s = (now > sess_ExpiresAt s)"

definition session_markSaved :: "Session \<Rightarrow> Session" where
  "session_markSaved s = s\<lparr>sess_dirty := False, sess_fresh := False\<rparr>"

section \<open>Stores\<close>

datatype session_error = Sess_ErrNotFound | Sess_TooLarge | Sess_Encode | Sess_Store

text \<open>\<^verbatim>\<open>int(time.Until(t).Seconds())\<close>: whole seconds, rounded towards zero.\<close>

definition until_seconds :: "time \<Rightarrow> time \<Rightarrow> int" where
  "until_seconds now t = sgn (t - now) * (\<bar>t - now\<bar> div Second)"

subsection \<open>The cookie store\<close>

record CookieStore =
  cs_Jar :: Jar
  cs_TTL :: duration
  cs_MaxBytes :: int

definition NewCookieStore :: "Jar \<Rightarrow> duration \<Rightarrow> CookieStore" where
  "NewCookieStore jar ttl = \<lparr>cs_Jar = jar, cs_TTL = ttl, cs_MaxBytes = 3800\<rparr>"

record cookiePayload =
  cp_ID :: string
  cp_Data :: "(string, string) fmap option"
  cp_ExpiresAt :: time

definition cookiestore_Load ::
  "(string \<Rightarrow> string \<Rightarrow> string) \<Rightarrow> (string \<Rightarrow> cookiePayload option) \<Rightarrow> CookieStore \<Rightarrow> time \<Rightarrow> request
     \<Rightarrow> (session_error, Session) result" where
  "cookiestore_Load hmac unmarshal s now r =
     (case jar_Get hmac (cs_Jar s) r session_CookieName of
        Inl _ \<Rightarrow> Inl Sess_ErrNotFound
      | Inr raw \<Rightarrow>
          (case unmarshal raw of
             None \<Rightarrow> Inl Sess_ErrNotFound
           | Some p \<Rightarrow>
               let sess = \<lparr>sess_ID = cp_ID p,
                           sess_Data = (case cp_Data p of None \<Rightarrow> fmempty | Some d \<Rightarrow> d),
                           sess_ExpiresAt = cp_ExpiresAt p,
                           sess_dirty = False, sess_fresh = False\<rparr>
               in if session_Expired now sess then Inl Sess_ErrNotFound else Inr sess))"

definition cookiestore_Save ::
  "(string \<Rightarrow> string \<Rightarrow> string) \<Rightarrow> (cookiePayload \<Rightarrow> string option) \<Rightarrow> CookieStore \<Rightarrow> time \<Rightarrow> response
     \<Rightarrow> Session \<Rightarrow> (session_error, Session \<times> response) result" where
  "cookiestore_Save hmac marshal s now w sess =
     (case marshal \<lparr>cp_ID = sess_ID sess, cp_Data = Some (sess_Data sess),
                    cp_ExpiresAt = sess_ExpiresAt sess\<rparr> of
        None \<Rightarrow> Inl Sess_Encode
      | Some raw \<Rightarrow>
          if cs_MaxBytes s > 0 \<and> int (length raw) > cs_MaxBytes s then Inl Sess_TooLarge
          else Inr (session_markSaved sess,
                    jar_Set hmac (cs_Jar s) w session_CookieName raw
                      \<lparr>opt_MaxAge = until_seconds now (sess_ExpiresAt sess), opt_HTTPOnly = None\<rparr>))"

definition cookiestore_Destroy :: "CookieStore \<Rightarrow> response \<Rightarrow> response" where
  "cookiestore_Destroy s w = jar_Delete (cs_Jar s) w session_CookieName"

subsection \<open>The database store\<close>

record sess_Record =
  row_ID :: string
  row_Data :: string
  row_UserID :: string
  row_IP :: string
  row_UserAgent :: string
  row_ExpiresAt :: time
  row_UpdatedAt :: time

text \<open>The sessions table, keyed by its primary key.\<close>

type_synonym sess_table = "(string, sess_Record) fmap"

definition UserIDKey :: string where "UserIDKey = ''auth_user_id''"

record DBStore =
  dbs_Jar :: Jar
  dbs_TTL :: duration

definition session_clientIP :: "request \<Rightarrow> string" where
  "session_clientIP r =
     (let fwd = header_Get r ''X-Forwarded-For''
      in if fwd \<noteq> [] then truncate_str (trim_space (fst (cut (CHR '','') fwd))) 45
         else (case split_host_port (req_RemoteAddr r) of
                 Some host \<Rightarrow> truncate_str host 45
               | None \<Rightarrow> truncate_str (req_RemoteAddr r) 45))"

definition dbstore_Load ::
  "(string \<Rightarrow> string \<Rightarrow> string) \<Rightarrow> (string \<Rightarrow> (string, string) fmap option) \<Rightarrow> fault \<Rightarrow> fault \<Rightarrow> DBStore
     \<Rightarrow> time \<Rightarrow> request \<Rightarrow> sess_table \<Rightarrow> (session_error, Session) result \<times> sess_table" where
  "dbstore_Load hmac unmarshal f_first f_delete s now r tab =
     (case jar_Get hmac (dbs_Jar s) r session_CookieName of
        Inl _ \<Rightarrow> (Inl Sess_ErrNotFound, tab)
      | Inr i \<Rightarrow>
          if i = [] then (Inl Sess_ErrNotFound, tab)
          else if f_first then (Inl Sess_Store, tab)
          else (case fmlookup tab i of
                  None \<Rightarrow> (Inl Sess_ErrNotFound, tab)
                | Some row \<Rightarrow>
                    if now > row_ExpiresAt row
                    then (Inl Sess_ErrNotFound, if f_delete then tab else fmdrop i tab)
                    else (case (if row_Data row = [] then Some fmempty else unmarshal (row_Data row)) of
                            None \<Rightarrow> (Inl Sess_ErrNotFound, tab)
                          | Some data \<Rightarrow>
                              (Inr \<lparr>sess_ID = row_ID row, sess_Data = data,
                                    sess_ExpiresAt = row_ExpiresAt row,
                                    sess_dirty = False, sess_fresh = False\<rparr>, tab))))"

definition dbstore_Save ::
  "(string \<Rightarrow> string \<Rightarrow> string) \<Rightarrow> ((string, string) fmap \<Rightarrow> string option) \<Rightarrow> fault \<Rightarrow> DBStore \<Rightarrow> time
     \<Rightarrow> request \<Rightarrow> response \<Rightarrow> Session \<Rightarrow> sess_table
     \<Rightarrow> (session_error, Session \<times> response \<times> sess_table) result" where
  "dbstore_Save hmac marshal f_save s now r w sess tab =
     (case marshal (sess_Data sess) of
        None \<Rightarrow> Inl Sess_Encode
      | Some raw \<Rightarrow>
          let row = \<lparr>row_ID = sess_ID sess, row_Data = raw,
                     row_UserID = session_Get sess UserIDKey,
                     row_IP = session_clientIP r,
                     row_UserAgent = truncate_str (header_Get r ''User-Agent'') 255,
                     row_ExpiresAt = sess_ExpiresAt sess, row_UpdatedAt = now\<rparr>
          in if f_save then Inl Sess_Store
             else Inr (session_markSaved sess,
                       jar_Set hmac (dbs_Jar s) w session_CookieName (sess_ID sess)
                         \<lparr>opt_MaxAge = until_seconds now (sess_ExpiresAt sess), opt_HTTPOnly = None\<rparr>,
                       fmupd (sess_ID sess) row tab))"

definition dbstore_Destroy ::
  "fault \<Rightarrow> DBStore \<Rightarrow> response \<Rightarrow> Session option \<Rightarrow> sess_table
     \<Rightarrow> response \<times> (session_error, sess_table) result" where
  "dbstore_Destroy f_delete s w sess tab =
     (let w' = jar_Delete (dbs_Jar s) w session_CookieName
      in case sess of
           None \<Rightarrow> (w', Inr tab)
         | Some se \<Rightarrow>
             if sess_ID se = [] then (w', Inr tab)
             else if f_delete then (w', Inl Sess_Store)
             else (w', Inr (fmdrop (sess_ID se) tab)))"

definition dbstore_DestroyForUser ::
  "fault \<Rightarrow> string \<Rightarrow> sess_table \<Rightarrow> (session_error, sess_table) result" where
  "dbstore_DestroyForUser f_delete userID tab =
     (if f_delete then Inl Sess_Store
      else Inr (fmfilter (\<lambda>i. case fmlookup tab i of None \<Rightarrow> True | Some row \<Rightarrow> row_UserID row \<noteq> userID) tab))"

definition dbstore_Prune ::
  "fault \<Rightarrow> time \<Rightarrow> sess_table \<Rightarrow> (session_error, nat \<times> sess_table) result" where
  "dbstore_Prune f_delete now tab =
     (if f_delete then Inl Sess_Store
      else let kept = fmfilter (\<lambda>i. case fmlookup tab i of None \<Rightarrow> True
                                      | Some row \<Rightarrow> \<not> row_ExpiresAt row < now) tab
           in Inr (fcard (fmdom tab) - fcard (fmdom kept), kept))"

section \<open>The middleware\<close>

text \<open>
  What a handler does to the session and the response, in order: it may mutate the session it
  got from the context, write the status, or write to the body.
\<close>

datatype hstep = Mutate "Session \<Rightarrow> Session" | WriteHeader nat | Write string

text \<open>The wrapper around the response writer, with the state of the store it saves to.\<close>

record 'st saver =
  sv_w :: response
  sv_session :: Session
  sv_saved :: bool
  sv_store :: 'st

type_synonym 'st save_op =
  "response \<Rightarrow> Session \<Rightarrow> 'st \<Rightarrow> (session_error, Session \<times> response \<times> 'st) result"

text \<open>\<^verbatim>\<open>saver.save\<close>: at most once, and only for a session that changed; an error is logged.\<close>

definition saver_save :: "'st save_op \<Rightarrow> 'st saver \<Rightarrow> 'st saver" where
  "saver_save save sv =
     (if sv_saved sv then sv
      else let sv' = sv\<lparr>sv_saved := True\<rparr>
           in if \<not> sess_dirty (sv_session sv') then sv'
              else (case save (sv_w sv') (sv_session sv') (sv_store sv') of
                      Inl _ \<Rightarrow> sv'
                    | Inr (se, w, st) \<Rightarrow> sv'\<lparr>sv_w := w, sv_session := se, sv_store := st\<rparr>))"

definition saver_WriteHeader :: "'st save_op \<Rightarrow> nat \<Rightarrow> 'st saver \<Rightarrow> 'st saver" where
  "saver_WriteHeader save st sv =
     (let sv' = saver_save save sv in sv'\<lparr>sv_w := write_header st (sv_w sv')\<rparr>)"

definition saver_Write :: "'st save_op \<Rightarrow> string \<Rightarrow> 'st saver \<Rightarrow> 'st saver" where
  "saver_Write save b sv =
     (let sv' = saver_save save sv in sv'\<lparr>sv_w := write_body b (sv_w sv')\<rparr>)"

fun saver_step :: "'st save_op \<Rightarrow> hstep \<Rightarrow> 'st saver \<Rightarrow> 'st saver" where
  "saver_step save (Mutate f) sv = sv\<lparr>sv_session := f (sv_session sv)\<rparr>"
| "saver_step save (WriteHeader st) sv = saver_WriteHeader save st sv"
| "saver_step save (Write b) sv = saver_Write save b sv"

text \<open>The session that the middleware puts on the context.\<close>

definition middleware_session ::
  "entropy \<Rightarrow> time \<Rightarrow> duration \<Rightarrow> (session_error, Session) result \<Rightarrow> (panic, Session) result" where
  "middleware_session rnd now lifetime loaded =
     (case loaded of
        Inl _ \<Rightarrow> session_New rnd now lifetime
      | Inr sess \<Rightarrow> Inr (session_Touch now lifetime sess))"

definition session_Middleware ::
  "'st save_op \<Rightarrow> entropy \<Rightarrow> time \<Rightarrow> duration \<Rightarrow> (session_error, Session) result \<times> 'st \<Rightarrow> response
     \<Rightarrow> hstep list \<Rightarrow> (panic, 'st saver) result" where
  "session_Middleware save rnd now lifetime loaded w steps =
     (case middleware_session rnd now lifetime (fst loaded) of
        Inl p \<Rightarrow> Inl p
      | Inr sess \<Rightarrow>
          Inr (saver_save save
                 (fold (saver_step save) steps
                    \<lparr>sv_w = w, sv_session = sess, sv_saved = False, sv_store = snd loaded\<rparr>)))"

definition session_From :: "entropy \<Rightarrow> time \<Rightarrow> Session option \<Rightarrow> (panic, Session) result" where
  "session_From rnd now ctx = (case ctx of Some s \<Rightarrow> Inr s | None \<Rightarrow> session_New rnd now 0)"

lemmas session_defs [go_simps] =
  session_Get_def session_Has_def session_Put_def session_Forget_def session_Pull_def
  session_Clear_def session_Regenerate_def session_Invalidate_def session_Touch_def
  session_NewID_def session_New_def session_markSaved_def

end
