(* ===== verification/SessionProps.thy ===== *)
theory SessionProps
  imports Session
begin

text \<open>
  Facts about \<^verbatim>\<open>session\<close>: the laws of the session value, the contract of a store as the
  locale \<open>session_store\<close> with the cookie and the database store as its two interpretations,
  the write-once behaviour of the middleware, and revocation in the database store.
\<close>

section \<open>The session value\<close>

lemma session_Get_Put [simp]:
  "session_Get (session_Put k v s) k' = (if k' = k then v else session_Get s k')"
  by (simp add: session_Get_def session_Put_def)

lemma session_Get_Forget [simp]:
  "session_Get (session_Forget k s) k' = (if k' = k then [] else session_Get s k')"
  by (simp add: session_Get_def session_Forget_def)

lemma session_Put_fields [simp]:
  "sess_ID (session_Put k v s) = sess_ID s"
  "sess_ExpiresAt (session_Put k v s) = sess_ExpiresAt s"
  "sess_fresh (session_Put k v s) = sess_fresh s"
  by (simp_all add: session_Put_def)

lemma session_Forget_fields [simp]:
  "sess_ID (session_Forget k s) = sess_ID s"
  "sess_ExpiresAt (session_Forget k s) = sess_ExpiresAt s"
  by (simp_all add: session_Forget_def)

lemma session_Regenerate_InrD:
  "session_Regenerate rnd s = Inr s' \<Longrightarrow>
   \<exists>b. rnd = Some b
     \<and> s' = s\<lparr>sess_ID := encode URL_Alphabet b, sess_fresh := True, sess_dirty := True\<rparr>"
  by (auto simp: session_Regenerate_def session_NewID_def split: option.splits)

lemma session_markSaved_fields [simp]:
  "sess_ID (session_markSaved s) = sess_ID s"
  "sess_Data (session_markSaved s) = sess_Data s"
  "sess_ExpiresAt (session_markSaved s) = sess_ExpiresAt s"
  "\<not> sess_dirty (session_markSaved s)"
  "session_Get (session_markSaved s) k = session_Get s k"
  by (simp_all add: session_markSaved_def session_Get_def)

lemma session_markSaved_eq:
  "session_markSaved s =
   \<lparr>sess_ID = sess_ID s, sess_Data = sess_Data s, sess_ExpiresAt = sess_ExpiresAt s,
    sess_dirty = False, sess_fresh = False\<rparr>"
  by (simp add: session_markSaved_def)

section \<open>The wrapper saves once\<close>

lemma saver_save_saved [simp]: "sv_saved (saver_save save sv)"
  by (auto simp: saver_save_def Let_def split: sum.splits)

lemma saver_save_idem: "sv_saved sv \<Longrightarrow> saver_save save sv = sv"
  by (simp add: saver_save_def)

lemma saver_step_saved:
  assumes "sv_saved sv"
  shows "sv_saved (saver_step save x sv) \<and> sv_store (saver_step save x sv) = sv_store sv
     \<and> resp_Cookies (sv_w (saver_step save x sv)) = resp_Cookies (sv_w sv)"
  using assms
  by (cases x) (auto simp: saver_WriteHeader_def saver_Write_def saver_save_idem Let_def)

lemma fold_saver_saved:
  "sv_saved sv \<Longrightarrow>
   sv_saved (fold (saver_step save) xs sv)
   \<and> sv_store (fold (saver_step save) xs sv) = sv_store sv
   \<and> resp_Cookies (sv_w (fold (saver_step save) xs sv)) = resp_Cookies (sv_w sv)"
proof (induction xs arbitrary: sv)
  case (Cons x xs)
  then show ?case using saver_step_saved [of sv save x] by simp
qed simp

definition is_write :: "hstep \<Rightarrow> bool" where
  "is_write x = (case x of Mutate _ \<Rightarrow> False | _ \<Rightarrow> True)"

lemma saver_step_write: "is_write x \<Longrightarrow> sv_saved (saver_step save x sv)"
  by (cases x) (simp_all add: is_write_def saver_WriteHeader_def saver_Write_def Let_def)

lemma saver_step_write_store:
  "is_write x \<Longrightarrow> sv_store (saver_step save x sv) = sv_store (saver_save save sv)
     \<and> resp_Cookies (sv_w (saver_step save x sv)) = resp_Cookies (sv_w (saver_save save sv))"
  by (cases x) (simp_all add: is_write_def saver_WriteHeader_def saver_Write_def Let_def)

lemma fold_mutations:
  "fold (saver_step save) (map Mutate fs) sv = sv\<lparr>sv_session := fold (\<lambda>f s. f s) fs (sv_session sv)\<rparr>"
  by (induction fs arbitrary: sv) simp_all

text \<open>The run of the middleware after mutations \<open>fs\<close> and a first write.\<close>

lemma middleware_first_write:
  assumes "middleware_session rnd now lifetime (fst loaded) = Inr sess" and "is_write x"
  obtains sv sv' where
    "session_Middleware save rnd now lifetime loaded w (map Mutate fs @ x # rest) = Inr sv"
    "sv' = saver_save save
       \<lparr>sv_w = w, sv_session = fold (\<lambda>f s. f s) fs sess, sv_saved = False, sv_store = snd loaded\<rparr>"
    "sv_store sv = sv_store sv'" "resp_Cookies (sv_w sv) = resp_Cookies (sv_w sv')"
proof -
  let ?init = "\<lparr>sv_w = w, sv_session = fold (\<lambda>f s. f s) fs sess, sv_saved = False,
               sv_store = snd loaded\<rparr>"
  let ?first = "saver_step save x ?init"
  let ?final = "fold (saver_step save) rest ?first"
  have saved: "sv_saved ?first" using assms(2) by (rule saver_step_write)
  have keep: "sv_saved ?final" "sv_store ?final = sv_store ?first"
    "resp_Cookies (sv_w ?final) = resp_Cookies (sv_w ?first)"
    using fold_saver_saved [OF saved, of save rest] by simp_all
  show thesis
  proof (rule that [of ?final "saver_save save ?init"])
    show "session_Middleware save rnd now lifetime loaded w (map Mutate fs @ x # rest) = Inr ?final"
      using assms(1) keep(1)
      by (simp add: session_Middleware_def fold_mutations saver_save_idem)
  qed (use keep saver_step_write_store [OF assms(2), of save ?init] in simp_all)
qed

section \<open>The contract of a store\<close>

text \<open>
  What a client of a session store relies on: a session that was saved is what a later request
  carrying the cookie loads, until it expires.  A store may keep the expiry at its own
  resolution, \<open>kept\<close>.
\<close>

locale session_store =
  fixes save :: "time \<Rightarrow> request \<Rightarrow> 'st save_op"
    and load :: "time \<Rightarrow> request \<Rightarrow> 'st \<Rightarrow> (session_error, Session) result"
    and storable :: "Session \<Rightarrow> bool"
    and kept :: "time \<Rightarrow> time"
  assumes save_load:
      "storable s \<Longrightarrow> save now r w s st = Inr (s', w', st') \<Longrightarrow> now' \<le> kept (sess_ExpiresAt s) \<Longrightarrow>
       load now' (with_cookie session_CookieName (sc_Value (last (resp_Cookies w'))) r') st'
         = Inr ((session_markSaved s)\<lparr>sess_ExpiresAt := kept (sess_ExpiresAt s)\<rparr>)"
begin

lemma middleware_persists:
  assumes run: "session_Middleware (save now r) rnd now lifetime loaded w (map Mutate fs @ x # rest)
      = Inr sv"
    and sess: "middleware_session rnd now lifetime (fst loaded) = Inr sess"
    and final: "s = fold (\<lambda>f s. f s) fs sess"
    and dirty: "sess_dirty s" and ok: "storable s" and live: "now' \<le> kept (sess_ExpiresAt s)"
    and saved: "save now r w s (snd loaded) = Inr (s', w', st')"
    and x: "is_write x"
  shows "load now' (with_cookie session_CookieName (sc_Value (last (resp_Cookies (sv_w sv)))) r')
           (sv_store sv) = Inr ((session_markSaved s)\<lparr>sess_ExpiresAt := kept (sess_ExpiresAt s)\<rparr>)"
proof -
  obtain sv1 sv' where "session_Middleware (save now r) rnd now lifetime loaded w
        (map Mutate fs @ x # rest) = Inr sv1"
    and sv': "sv' = saver_save (save now r)
       \<lparr>sv_w = w, sv_session = fold (\<lambda>f s. f s) fs sess, sv_saved = False, sv_store = snd loaded\<rparr>"
    and st: "sv_store sv1 = sv_store sv'"
    and co: "resp_Cookies (sv_w sv1) = resp_Cookies (sv_w sv')"
    by (rule middleware_first_write [OF sess x])
  with run have "sv1 = sv" by simp
  moreover have "sv_store sv' = st'" "sv_w sv' = w'"
    using sv' dirty saved by (simp_all add: saver_save_def final)
  ultimately show ?thesis using save_load [OF ok saved live] st co by simp
qed

end

text \<open>The database store, with the database answering.\<close>

definition db_storable ::
  "((string, string) fmap \<Rightarrow> string option) \<Rightarrow> (string \<Rightarrow> (string, string) fmap option) \<Rightarrow> Session \<Rightarrow> bool"
where
  "db_storable marshal unmarshal s =
     (sess_ID s \<noteq> [] \<and>
      (case marshal (sess_Data s) of
         None \<Rightarrow> False
       | Some raw \<Rightarrow> (if raw = [] then Some fmempty else unmarshal raw) = Some (sess_Data s)))"

lemma dbstore_Save_InrD:
  assumes "dbstore_Save hmac marshal f s now r w sess tab = Inr (s', w', tab')"
  obtains raw row where "marshal (sess_Data sess) = Some raw" "\<not> f"
    "row_ID row = sess_ID sess" "row_Data row = raw" "row_UserID row = session_Get sess UserIDKey"
    "row_ExpiresAt row = sess_ExpiresAt sess"
    "s' = session_markSaved sess" "tab' = fmupd (sess_ID sess) row tab"
    "sc_Value (last (resp_Cookies w')) = jar_sign hmac (dbs_Jar s) session_CookieName (sess_ID sess)"
proof -
  from assms obtain raw where m: "marshal (sess_Data sess) = Some raw" and f: "\<not> f"
    by (auto simp: dbstore_Save_def Let_def split: option.splits if_splits)
  show thesis
    by (rule that [of raw
          "\<lparr>row_ID = sess_ID sess, row_Data = raw, row_UserID = session_Get sess UserIDKey,
            row_IP = session_clientIP r,
            row_UserAgent = truncate_str (header_Get r ''User-Agent'') 255,
            row_ExpiresAt = sess_ExpiresAt sess, row_UpdatedAt = now\<rparr>"])
       (use assms m f in \<open>auto simp: dbstore_Save_def Let_def jar_Set_cookies\<close>)
qed

interpretation dbstore: session_store
  "\<lambda>now r. dbstore_Save hmac marshal False s now r"
  "\<lambda>now r tab. fst (dbstore_Load hmac unmarshal False f_delete s now r tab)"
  "db_storable marshal unmarshal" "\<lambda>t. t"
  for hmac marshal unmarshal s f_delete
proof
  fix se now r w tab se' w' tab' now' r'
  assume ok: "db_storable marshal unmarshal se"
    and sv: "dbstore_Save hmac marshal False s now r w se tab = Inr (se', w', tab')"
    and live: "now' \<le> sess_ExpiresAt se"
  from sv obtain raw row where "marshal (sess_Data se) = Some raw"
    and row: "row_ID row = sess_ID se" "row_Data row = raw" "row_ExpiresAt row = sess_ExpiresAt se"
    and tab': "tab' = fmupd (sess_ID se) row tab"
    and c: "sc_Value (last (resp_Cookies w'))
      = jar_sign hmac (dbs_Jar s) session_CookieName (sess_ID se)"
    by (rule dbstore_Save_InrD)
  with ok live show "fst (dbstore_Load hmac unmarshal False f_delete s now'
      (with_cookie session_CookieName (sc_Value (last (resp_Cookies w'))) r') tab')
      = Inr ((session_markSaved se)\<lparr>sess_ExpiresAt := sess_ExpiresAt se\<rparr>)"
    by (auto simp: db_storable_def dbstore_Load_def session_markSaved_eq split: if_splits)
qed

text \<open>The cookie store, which has no state of its own.\<close>

definition cookie_storable ::
  "(cookiePayload \<Rightarrow> string option) \<Rightarrow> (string \<Rightarrow> cookiePayload option) \<Rightarrow> Session \<Rightarrow> bool"
where
  "cookie_storable marshal unmarshal s =
     (let p = \<lparr>cp_ID = sess_ID s, cp_Data = Some (sess_Data s), cp_ExpiresAt = sess_ExpiresAt s\<rparr>
      in case marshal p of None \<Rightarrow> False | Some raw \<Rightarrow> unmarshal raw = Some p)"

definition cookiestore_save_unit ::
  "(string \<Rightarrow> string \<Rightarrow> string) \<Rightarrow> (cookiePayload \<Rightarrow> string option) \<Rightarrow> CookieStore \<Rightarrow> time \<Rightarrow> unit save_op"
where
  "cookiestore_save_unit hmac marshal s now w sess st =
     (case cookiestore_Save hmac marshal s now w sess of
        Inl e \<Rightarrow> Inl e | Inr (se, w') \<Rightarrow> Inr (se, w', st))"

interpretation cookiestore: session_store
  "\<lambda>now r. cookiestore_save_unit hmac marshal s now"
  "\<lambda>now r u. cookiestore_Load hmac unmarshal s now r"
  "cookie_storable marshal unmarshal" "\<lambda>t. t"
  for hmac marshal unmarshal s
  by unfold_locales
     (auto simp: cookiestore_save_unit_def cookiestore_Save_def cookiestore_Load_def
        cookie_storable_def session_Expired_def session_markSaved_eq jar_Set_cookies Let_def
        split: option.splits if_splits sum.splits)

section \<open>The sessions table\<close>

text \<open>
  Invariant of the table: a row is stored under its own id, and its user column mirrors the
  user id of the data it holds.
\<close>

definition row_data ::
  "(string \<Rightarrow> (string, string) fmap option) \<Rightarrow> sess_Record \<Rightarrow> (string, string) fmap option" where
  "row_data unmarshal row = (if row_Data row = [] then Some fmempty else unmarshal (row_Data row))"

definition table_inv :: "(string \<Rightarrow> (string, string) fmap option) \<Rightarrow> sess_table \<Rightarrow> bool" where
  "table_inv unmarshal tab =
     (\<forall>i row. fmlookup tab i = Some row \<longrightarrow>
        row_ID row = i \<and>
        (\<forall>d. row_data unmarshal row = Some d \<longrightarrow>
           row_UserID row = (case fmlookup d UserIDKey of None \<Rightarrow> [] | Some u \<Rightarrow> u)))"

lemma table_inv_empty: "table_inv unmarshal fmempty"
  by (simp add: table_inv_def)

lemma table_inv_fmdrop: "table_inv unmarshal tab \<Longrightarrow> table_inv unmarshal (fmdrop i tab)"
  by (auto simp: table_inv_def split: if_splits)

lemma table_inv_fmfilter: "table_inv unmarshal tab \<Longrightarrow> table_inv unmarshal (fmfilter P tab)"
  by (auto simp: table_inv_def split: if_splits)

lemma table_inv_Save:
  assumes "table_inv unmarshal tab" and "db_storable marshal unmarshal se"
    and "dbstore_Save hmac marshal f s now r w se tab = Inr (se', w', tab')"
  shows "table_inv unmarshal tab'"
proof -
  from assms(3) obtain raw row where m: "marshal (sess_Data se) = Some raw"
    and row: "row_ID row = sess_ID se" "row_Data row = raw"
      "row_UserID row = session_Get se UserIDKey"
    and tab': "tab' = fmupd (sess_ID se) row tab"
    by (rule dbstore_Save_InrD)
  have "row_data unmarshal row = Some (sess_Data se)"
    using assms(2) m row by (auto simp: db_storable_def row_data_def split: if_splits)
  with row have "row_ID row = sess_ID se"
    and "\<And>d. row_data unmarshal row = Some d \<Longrightarrow>
        row_UserID row = (case fmlookup d UserIDKey of None \<Rightarrow> [] | Some u \<Rightarrow> u)"
    by (simp_all add: session_Get_def)
  with assms(1) show ?thesis unfolding tab' table_inv_def by auto
qed

lemma dbstore_Load_table:
  "snd (dbstore_Load hmac unmarshal f1 f2 s now r tab) = tab \<or>
   (\<exists>i. snd (dbstore_Load hmac unmarshal f1 f2 s now r tab) = fmdrop i tab)"
  by (auto simp: dbstore_Load_def split: sum.splits option.splits)

lemma dbstore_Load_InrD:
  assumes "fst (dbstore_Load hmac unmarshal f1 f2 s now r tab) = Inr se"
  obtains i row where "fmlookup tab i = Some row" "now \<le> row_ExpiresAt row"
    "row_data unmarshal row = Some (sess_Data se)" "sess_ID se = row_ID row"
    "jar_Get hmac (dbs_Jar s) r session_CookieName = Inr i"
  using assms
  by (auto simp: dbstore_Load_def row_data_def split: sum.splits option.splits if_splits)

text \<open>The tables that the operations of the store can produce, starting from an empty one.\<close>

inductive table_reachable ::
  "(string \<Rightarrow> string \<Rightarrow> string) \<Rightarrow> ((string, string) fmap \<Rightarrow> string option)
     \<Rightarrow> (string \<Rightarrow> (string, string) fmap option) \<Rightarrow> DBStore \<Rightarrow> sess_table \<Rightarrow> bool"
  for hmac marshal unmarshal s where
  start: "table_reachable hmac marshal unmarshal s fmempty"
| save: "table_reachable hmac marshal unmarshal s tab \<Longrightarrow> db_storable marshal unmarshal se \<Longrightarrow>
     dbstore_Save hmac marshal f s now r w se tab = Inr (se', w', tab') \<Longrightarrow>
     table_reachable hmac marshal unmarshal s tab'"
| load: "table_reachable hmac marshal unmarshal s tab \<Longrightarrow>
     table_reachable hmac marshal unmarshal s
       (snd (dbstore_Load hmac unmarshal f1 f2 s now r tab))"
| destroy: "table_reachable hmac marshal unmarshal s tab \<Longrightarrow>
     snd (dbstore_Destroy f s w so tab) = Inr tab' \<Longrightarrow>
     table_reachable hmac marshal unmarshal s tab'"
| destroy_user: "table_reachable hmac marshal unmarshal s tab \<Longrightarrow>
     dbstore_DestroyForUser f u tab = Inr tab' \<Longrightarrow>
     table_reachable hmac marshal unmarshal s tab'"
| prune: "table_reachable hmac marshal unmarshal s tab \<Longrightarrow>
     dbstore_Prune f now tab = Inr (n, tab') \<Longrightarrow>
     table_reachable hmac marshal unmarshal s tab'"

lemma table_reachable_inv:
  "table_reachable hmac marshal unmarshal s tab \<Longrightarrow> table_inv unmarshal tab"
proof (induction rule: table_reachable.induct)
  case (load tab f1 f2 now r)
  then show ?case
    using dbstore_Load_table [of hmac unmarshal f1 f2 s now r tab] table_inv_fmdrop by metis
next
  case (destroy tab f w so tab')
  then show ?case
    by (auto simp: dbstore_Destroy_def Let_def intro: table_inv_fmdrop
        split: option.splits if_splits)
next
  case (destroy_user tab f u tab')
  then show ?case
    by (auto simp: dbstore_DestroyForUser_def intro: table_inv_fmfilter split: if_splits)
next
  case (prune tab f now n tab')
  then show ?case
    by (auto simp: dbstore_Prune_def Let_def intro: table_inv_fmfilter split: if_splits)
qed (auto intro: table_inv_empty table_inv_Save)

section \<open>Properties\<close>

text \<open>C5. A value put into the session before a redirect reaches the next request: with the
  database store, the middleware saves on the first write, and a request that carries the cookie
  it set loads a session that holds the value, at any time up to the session's expiry and
  whatever the handler does after the redirect.\<close>

theorem session_put_survives_redirect:
  assumes "middleware_session rnd now lifetime (fst loaded) = Inr sess"
    and "fmlookup (sess_Data sess) k \<noteq> Some v"
    and "db_storable marshal unmarshal (session_Put k v sess)"
    and "now' \<le> sess_ExpiresAt sess"
  shows "\<exists>sv se. session_Middleware (dbstore_Save hmac marshal False s now r) rnd now lifetime loaded w
            (Mutate (session_Put k v) # WriteHeader 303 # rest) = Inr sv
         \<and> fst (dbstore_Load hmac unmarshal False f_delete s now'
              (with_cookie session_CookieName (sc_Value (last (resp_Cookies (sv_w sv)))) r')
              (sv_store sv)) = Inr se
         \<and> session_Get se k = v"
proof -
  let ?s = "session_Put k v sess"
  have steps: "Mutate (session_Put k v) # WriteHeader 303 # rest
      = map Mutate [session_Put k v] @ WriteHeader 303 # rest" by simp
  obtain sv where run: "session_Middleware (dbstore_Save hmac marshal False s now r) rnd now
      lifetime loaded w (map Mutate [session_Put k v] @ WriteHeader 303 # rest) = Inr sv"
    using assms(1) by (simp add: session_Middleware_def)
  have "sess_dirty ?s" using assms(2) by (simp add: session_Put_def)
  moreover obtain s' w' st' where
    "dbstore_Save hmac marshal False s now r w ?s (snd loaded) = Inr (s', w', st')"
    using assms(3) by (auto simp: db_storable_def dbstore_Save_def Let_def split: option.splits)
  ultimately have "fst (dbstore_Load hmac unmarshal False f_delete s now'
      (with_cookie session_CookieName (sc_Value (last (resp_Cookies (sv_w sv)))) r') (sv_store sv))
      = Inr (session_markSaved ?s)"
    using dbstore.middleware_persists [OF run assms(1), of ?s] assms(3,4)
    by (simp add: is_write_def)
  with run show ?thesis unfolding steps by auto
qed

theorem session_put_survives_redirect_witness:
  "\<exists>sv se. session_Middleware (dbstore_Save (\<lambda>k m. m) (\<lambda>d. Some ''x'') False
              \<lparr>dbs_Jar = cookie_New ''key'' True, dbs_TTL = Hour\<rparr> 5 get_request) (Some ''r'') 5 Hour
            (Inl Sess_ErrNotFound, fmempty) empty_response
            (Mutate (session_Put ''k'' ''v'') # WriteHeader 303 # []) = Inr sv
         \<and> fst (dbstore_Load (\<lambda>k m. m) (\<lambda>t. Some (fmupd ''k'' ''v'' fmempty)) False False
              \<lparr>dbs_Jar = cookie_New ''key'' True, dbs_TTL = Hour\<rparr> 6
              (with_cookie session_CookieName (sc_Value (last (resp_Cookies (sv_w sv)))) get_request)
              (sv_store sv)) = Inr se
         \<and> session_Get se ''k'' = ''v''"
proof (rule session_put_survives_redirect)
  let ?se = "\<lparr>sess_ID = encode URL_Alphabet ''r'', sess_Data = fmempty, sess_ExpiresAt = 5 + Hour,
              sess_dirty = False, sess_fresh = True\<rparr>"
  show "middleware_session (Some ''r'') 5 Hour
      (fst (Inl Sess_ErrNotFound, fmempty :: sess_table)) = Inr ?se"
    by (simp add: middleware_session_def session_New_def session_NewID_def)
  show "fmlookup (sess_Data ?se) ''k'' \<noteq> Some ''v''" by simp
  show "db_storable (\<lambda>d. Some ''x'') (\<lambda>t. Some (fmupd ''k'' ''v'' fmempty))
      (session_Put ''k'' ''v'' ?se)"
    by (simp add: db_storable_def session_Put_def)
  show "6 \<le> sess_ExpiresAt ?se" by (simp add: Hour_def)
qed

text \<open>The session is written at most once per request, at the first write of the response:
  whatever a handler does after it has written its status changes neither the store nor the
  cookies of the response.\<close>

theorem session_saved_at_first_write:
  "map_sum id (\<lambda>sv. (sv_store sv, resp_Cookies (sv_w sv)))
     (session_Middleware save rnd now lifetime loaded w (pre @ WriteHeader st # rest)) =
   map_sum id (\<lambda>sv. (sv_store sv, resp_Cookies (sv_w sv)))
     (session_Middleware save rnd now lifetime loaded w (pre @ [WriteHeader st]))"
proof (cases "middleware_session rnd now lifetime (fst loaded)")
  case (Inr sess)
  let ?init = "\<lparr>sv_w = w, sv_session = sess, sv_saved = False, sv_store = snd loaded\<rparr>"
  let ?first = "saver_step save (WriteHeader st) (fold (saver_step save) pre ?init)"
  have saved: "sv_saved ?first" by (rule saver_step_write) (simp add: is_write_def)
  show ?thesis
    using fold_saver_saved [OF saved, of save rest] Inr saved
    by (simp add: session_Middleware_def saver_save_idem del: saver_step.simps)
qed (simp add: session_Middleware_def)

text \<open>A visitor for whom nothing is stored costs nothing: a request without a session whose
  handler only writes its response leaves the store as it was and sets no cookie.\<close>

theorem session_anonymous_costs_nothing:
  assumes "fst loaded = Inl e" and "list_all is_write steps" and "rnd = Some b"
  shows "\<exists>sv. session_Middleware save rnd now lifetime loaded w steps = Inr sv
         \<and> sv_store sv = snd loaded \<and> resp_Cookies (sv_w sv) = resp_Cookies w"
proof -
  have clean: "sv_store (fold (saver_step save) steps sv) = sv_store sv
      \<and> resp_Cookies (sv_w (fold (saver_step save) steps sv)) = resp_Cookies (sv_w sv)
      \<and> \<not> sess_dirty (sv_session (fold (saver_step save) steps sv))"
    if "\<not> sess_dirty (sv_session sv)" for sv
    using assms(2) that
  proof (induction steps arbitrary: sv)
    case (Cons x xs)
    from Cons.prems have "\<not> sess_dirty (sv_session (saver_step save x sv))
        \<and> sv_store (saver_step save x sv) = sv_store sv
        \<and> resp_Cookies (sv_w (saver_step save x sv)) = resp_Cookies (sv_w sv)"
      by (cases x) (simp_all add: is_write_def saver_WriteHeader_def saver_Write_def
          saver_save_def Let_def)
    with Cons show ?case by simp
  qed simp
  let ?se = "\<lparr>sess_ID = encode URL_Alphabet b, sess_Data = fmempty, sess_ExpiresAt = now + lifetime,
              sess_dirty = False, sess_fresh = True\<rparr>"
  have "middleware_session rnd now lifetime (fst loaded) = Inr ?se"
    using assms by (simp add: middleware_session_def session_New_def session_NewID_def)
  then show ?thesis
    using clean [of "\<lparr>sv_w = w, sv_session = ?se, sv_saved = False, sv_store = snd loaded\<rparr>"]
    by (simp add: session_Middleware_def saver_save_def Let_def)
qed

theorem session_anonymous_costs_nothing_witness:
  "\<exists>sv. session_Middleware (\<lambda>w se st. Inr (session_markSaved se, w, Suc st)) (Some ''r'') 1 Hour
       (Inl Sess_ErrNotFound, 0) empty_response [Write ''hello''] = Inr sv
     \<and> sv_store sv = snd (Inl Sess_ErrNotFound :: (session_error, Session) result, 0)
     \<and> resp_Cookies (sv_w sv) = resp_Cookies empty_response"
  by (rule session_anonymous_costs_nothing [where e = Sess_ErrNotFound and b = "''r''"])
     (simp_all add: is_write_def)

text \<open>Log out everywhere: in every table the store can produce, once the sessions of a user
  have been destroyed no request, whatever cookie it carries, loads a session that identifies
  that user.\<close>

theorem dbstore_logout_everywhere:
  assumes "table_reachable hmac marshal unmarshal s tab"
    and "dbstore_DestroyForUser False u tab = Inr tab'"
    and "fst (dbstore_Load hmac unmarshal f1 f2 s now r tab') = Inr se"
  shows "session_Get se UserIDKey \<noteq> u"
proof -
  from assms(3) obtain i row where row: "fmlookup tab' i = Some row"
    and data: "row_data unmarshal row = Some (sess_Data se)"
    by (rule dbstore_Load_InrD)
  from assms(2) row have "fmlookup tab i = Some row" and "row_UserID row \<noteq> u"
    by (auto simp: dbstore_DestroyForUser_def split: if_splits)
  moreover from this data table_reachable_inv [OF assms(1)]
  have "row_UserID row = session_Get se UserIDKey"
    by (simp add: table_inv_def session_Get_def)
  ultimately show ?thesis by simp
qed

text \<open>A saved session of a user, for the witness: its row and its data.\<close>

theorem dbstore_logout_everywhere_witness:
  "session_Get \<lparr>sess_ID = ''b'', sess_Data = fmupd UserIDKey ''8'' fmempty, sess_ExpiresAt = 10,
     sess_dirty = False, sess_fresh = False\<rparr> UserIDKey \<noteq> ''7''"
proof -
  let ?h = "\<lambda>(k::string) (m::string). m"
  let ?m = "\<lambda>d. fmlookup d UserIDKey"
  let ?u = "\<lambda>t. Some (fmupd UserIDKey t fmempty)"
  let ?s = "\<lparr>dbs_Jar = cookie_New ''key'' True, dbs_TTL = Hour\<rparr>"
  let ?se = "\<lambda>i u. \<lparr>sess_ID = i, sess_Data = fmupd UserIDKey u fmempty, sess_ExpiresAt = 10,
     sess_dirty = False, sess_fresh = False\<rparr>"
  let ?row = "\<lambda>i u. \<lparr>row_ID = i, row_Data = u, row_UserID = u,
     row_IP = session_clientIP get_request,
     row_UserAgent = truncate_str (header_Get get_request ''User-Agent'') 255,
     row_ExpiresAt = 10, row_UpdatedAt = 1\<rparr>"
  let ?tab = "fmupd ''b'' (?row ''b'' ''8'') (fmupd ''a'' (?row ''a'' ''7'') fmempty)"
  have st: "db_storable ?m ?u (?se i u)" if "i \<noteq> []" "u \<noteq> []" for i u
    using that by (simp add: db_storable_def)
  have sv: "\<exists>w'. dbstore_Save ?h ?m False ?s 1 get_request empty_response (?se i u) tab
      = Inr (session_markSaved (?se i u), w', fmupd i (?row i u) tab)" for i u tab
    by (simp add: dbstore_Save_def Let_def session_Get_def)
  have one: "table_reachable ?h ?m ?u ?s (fmupd ''a'' (?row ''a'' ''7'') fmempty)"
    using sv table_reachable.save [OF table_reachable.start st] by (metis list.distinct(1))
  have reach: "table_reachable ?h ?m ?u ?s ?tab"
    using sv table_reachable.save [OF one st] by (metis list.distinct(1))
  let ?tab' = "fmfilter (\<lambda>i. case fmlookup ?tab i of None \<Rightarrow> True
      | Some row \<Rightarrow> row_UserID row \<noteq> ''7'') ?tab"
  have d: "dbstore_DestroyForUser False ''7'' ?tab = Inr ?tab'"
    by (simp add: dbstore_DestroyForUser_def)
  have l: "fst (dbstore_Load ?h ?u False False ?s 2
      (with_cookie session_CookieName (jar_sign ?h (dbs_Jar ?s) session_CookieName ''b'') get_request)
      ?tab') = Inr (?se ''b'' ''8'')"
    by (simp add: dbstore_Load_def)
  show ?thesis by (rule dbstore_logout_everywhere [OF reach d l])
qed

end
