(* ===== verification/Auth.thy ===== *)
theory Auth
  imports SessionProps
begin

text \<open>
  The package \<^verbatim>\<open>auth\<close>, without its password hashing: signing a session in and out and the
  two guards of \<^verbatim>\<open>auth.go\<close>, and the signed tokens of \<^verbatim>\<open>token.go\<close>.  A guard either
  calls the next handler or answers the request itself.  HMAC-SHA256 is the parameter
  \<open>hmac\<close>, as in the theory of cookies.
\<close>

definition auth_Login :: "entropy \<Rightarrow> Session \<Rightarrow> string \<Rightarrow> (panic, Session) result" where
  "auth_Login rnd s userID =
     (case session_Regenerate rnd s of
        Inl p \<Rightarrow> Inl p
      | Inr s' \<Rightarrow> Inr (session_Put UserIDKey userID s'))"

definition auth_LoginID :: "entropy \<Rightarrow> Session \<Rightarrow> nat \<Rightarrow> (panic, Session) result" where
  "auth_LoginID rnd s userID = auth_Login rnd s (format_nat userID)"

definition auth_Logout :: "entropy \<Rightarrow> Session \<Rightarrow> (panic, Session) result" where
  "auth_Logout rnd s = session_Invalidate rnd s"

definition auth_ID :: "Session \<Rightarrow> string" where
  "auth_ID s = session_Get s UserIDKey"

definition auth_UintID :: "Session \<Rightarrow> nat \<times> bool" where
  "auth_UintID s =
     (let raw = auth_ID s
      in if raw = [] then (0, False)
         else (case parse_uint raw 64 of None \<Rightarrow> (0, False) | Some n \<Rightarrow> (n, True)))"

definition auth_Check :: "Session \<Rightarrow> bool" where
  "auth_Check s = (auth_ID s \<noteq> [])"

definition IntendedKey :: string where "IntendedKey = ''auth_intended''"

datatype guard = Next | Answer Session response

definition auth_RequireAuth :: "string \<Rightarrow> request \<Rightarrow> Session \<Rightarrow> response \<Rightarrow> guard" where
  "auth_RequireAuth loginPath r s w =
     (if auth_Check s then Next
      else let s' = (if req_Method r = ''GET'' then session_Put IntendedKey (req_URI r) s else s)
           in Answer s' (http_Redirect loginPath 303 w))"

definition auth_RequireGuest :: "string \<Rightarrow> Session \<Rightarrow> response \<Rightarrow> guard" where
  "auth_RequireGuest homePath s w =
     (if auth_Check s then Answer s (http_Redirect homePath 303 w) else Next)"

definition auth_Intended :: "Session \<Rightarrow> string \<Rightarrow> string \<times> Session" where
  "auth_Intended s fallback =
     (case session_Pull IntendedKey s of
        (target, s') \<Rightarrow> (if target \<noteq> [] then target else fallback, s'))"

section \<open>Signed tokens\<close>

datatype token_error = ErrTokenInvalid | ErrTokenExpired

record Signer =
  signer_key :: string

definition PurposeVerifyEmail :: string where "PurposeVerifyEmail = ''verify-email''"
definition PurposeResetPassword :: string where "PurposeResetPassword = ''reset-password''"

definition NewSigner :: "string \<Rightarrow> Signer" where
  "NewSigner key = \<lparr>signer_key = key\<rparr>"

definition signer_mac ::
  "(string \<Rightarrow> string \<Rightarrow> string) \<Rightarrow> Signer \<Rightarrow> string \<Rightarrow> string \<Rightarrow> string" where
  "signer_mac hmac s purpose payload =
     encode URL_Alphabet (hmac (signer_key s) (purpose @ ''|'' @ payload))"

definition signer_Sign ::
  "(string \<Rightarrow> string \<Rightarrow> string) \<Rightarrow> Signer \<Rightarrow> time \<Rightarrow> string \<Rightarrow> string \<Rightarrow> duration \<Rightarrow> string" where
  "signer_Sign hmac s now purpose subject ttl =
     (let expires = unix (now + ttl);
          payload = encode URL_Alphabet subject @ ''.'' @ format_int expires
      in payload @ ''.'' @ signer_mac hmac s purpose payload)"

definition signer_Verify ::
  "(string \<Rightarrow> string \<Rightarrow> string) \<Rightarrow> Signer \<Rightarrow> time \<Rightarrow> string \<Rightarrow> string \<Rightarrow> (token_error, string) result"
where
  "signer_Verify hmac s now purpose token =
     (case cut (CHR ''.'') token of (subjectPart, rest, ok1) \<Rightarrow>
        if \<not> ok1 then Inl ErrTokenInvalid
        else (case cut (CHR ''.'') rest of (expiresPart, sig, ok2) \<Rightarrow>
          if \<not> ok2 then Inl ErrTokenInvalid
          else let payload = subjectPart @ ''.'' @ expiresPart
               in if sig \<noteq> signer_mac hmac s purpose payload then Inl ErrTokenInvalid
                  else (case parse_int expiresPart 64 of
                          None \<Rightarrow> Inl ErrTokenInvalid
                        | Some expires \<Rightarrow>
                            if unix now > expires then Inl ErrTokenExpired
                            else (case decode URL_Alphabet subjectPart of
                                    None \<Rightarrow> Inl ErrTokenInvalid
                                  | Some subject \<Rightarrow> Inr subject))))"

section \<open>Lemmas\<close>

lemma auth_Login_InrD:
  assumes "auth_Login rnd s u = Inr s'"
  obtains b where "rnd = Some b" "sess_ID s' = encode URL_Alphabet b" "auth_ID s' = u"
    "\<And>k. k \<noteq> UserIDKey \<Longrightarrow> session_Get s' k = session_Get s k" "sess_dirty s'"
proof -
  from assms obtain b where b: "rnd = Some b" and s': "s' = session_Put UserIDKey u
      (s\<lparr>sess_ID := encode URL_Alphabet b, sess_fresh := True, sess_dirty := True\<rparr>)"
    by (auto simp: auth_Login_def session_Regenerate_def session_NewID_def
        split: sum.splits option.splits)
  show thesis
    by (rule that [of b]) (use b s' in \<open>auto simp: auth_ID_def session_Get_def session_Put_def\<close>)
qed

lemma auth_Logout_InrD:
  assumes "auth_Logout rnd s = Inr s'"
  obtains b where "rnd = Some b" "sess_ID s' = encode URL_Alphabet b" "sess_Data s' = fmempty"
    "sess_dirty s'"
  using assms
  by (auto simp: auth_Logout_def session_Invalidate_def dest!: session_Regenerate_InrD)

lemma UserIDKey_neq_IntendedKey [simp]: "UserIDKey \<noteq> IntendedKey" "IntendedKey \<noteq> UserIDKey"
  by (simp_all add: UserIDKey_def IntendedKey_def)

text \<open>Saving under a new id leaves what the old id loads as it was.\<close>

lemma dbstore_Load_other_id:
  assumes "jar_Get hmac (dbs_Jar s) r session_CookieName = Inr i" and "j \<noteq> i"
  shows "fst (dbstore_Load hmac unmarshal f1 f2 s now r (fmupd j row tab))
       = fst (dbstore_Load hmac unmarshal f1 f2 s now r tab)"
  using assms by (simp add: dbstore_Load_def split: option.splits)

lemma signer_Verify_Sign:
  assumes "unix (now + ttl) < 2 ^ 63" and "- (2 ^ 63) \<le> unix (now + ttl)"
  shows "signer_Verify hmac s now' purpose (signer_Sign hmac s now purpose subject ttl)
       = (if unix now' > unix (now + ttl) then Inl ErrTokenExpired else Inr subject)"
proof -
  have "parse_int (format_int (unix (now + ttl))) 64 = Some (unix (now + ttl))"
    by (rule parse_int_format_int) (use assms in simp_all)
  then show ?thesis
    by (simp add: signer_Verify_def signer_Sign_def Let_def format_int_no_dot)
qed

lemma signer_Verify_other:
  assumes "signer_Verify hmac s now' p2 (signer_Sign hmac s' now p1 subject ttl) = Inr x"
  defines "payload \<equiv> encode URL_Alphabet subject @ ''.'' @ format_int (unix (now + ttl))"
  shows "hmac (signer_key s) (p2 @ ''|'' @ payload) = hmac (signer_key s') (p1 @ ''|'' @ payload)"
  using assms
  by (auto simp: signer_Verify_def signer_Sign_def Let_def format_int_no_dot signer_mac_def
      encode_inj split: if_splits)

section \<open>Properties\<close>

text \<open>C6. Session fixation: after a login whose session is saved to the database store under a
  new id, a request with the id from before the login loads exactly what it loaded before, so
  an id planted beforehand gains nothing; and the saved row identifies the user.\<close>

theorem login_defeats_fixation:
  assumes "auth_Login (Some b) sess u = Inr sess'"
    and "dbstore_Save hmac marshal False s now r w sess' tab = Inr (sess'', w', tab')"
    and "jar_Get hmac (dbs_Jar s) old session_CookieName = Inr (sess_ID sess)"
    and "encode URL_Alphabet b \<noteq> sess_ID sess"
  shows "fst (dbstore_Load hmac unmarshal f1 f2 s now' old tab')
           = fst (dbstore_Load hmac unmarshal f1 f2 s now' old tab)
       \<and> map_option row_UserID (fmlookup tab' (encode URL_Alphabet b)) = Some u"
proof -
  obtain b' where "Some b = Some b'" and i: "sess_ID sess' = encode URL_Alphabet b'"
    and u: "auth_ID sess' = u"
    using assms(1) by (rule auth_Login_InrD)
  then have i: "sess_ID sess' = encode URL_Alphabet b" by simp
  obtain row where "row_UserID row = session_Get sess' UserIDKey"
    and tab': "tab' = fmupd (sess_ID sess') row tab"
    using assms(2) by (rule dbstore_Save_InrD)
  with u i have "map_option row_UserID (fmlookup tab' (encode URL_Alphabet b)) = Some u"
    by (simp add: auth_ID_def)
  moreover have "fst (dbstore_Load hmac unmarshal f1 f2 s now' old tab')
      = fst (dbstore_Load hmac unmarshal f1 f2 s now' old tab)"
    unfolding tab' by (rule dbstore_Load_other_id [OF assms(3)]) (use assms(4) i in simp)
  ultimately show ?thesis by blast
qed

text \<open>Signing out revokes the old id only through the store: \<^verbatim>\<open>auth.Logout\<close> empties the
  session, but when the emptied session is then saved, a request with the id from before the
  logout still loads what it loaded before; destroying the old record first, as the generated
  handler does for the database store, makes that request find no session.\<close>

theorem logout_revokes_only_with_destroy:
  assumes "auth_Logout (Some b) sess = Inr sess'"
    and "jar_Get hmac (dbs_Jar s) old session_CookieName = Inr (sess_ID sess)"
    and "encode URL_Alphabet b \<noteq> sess_ID sess" and "sess_ID sess \<noteq> []"
    and "dbstore_Save hmac marshal False s now r w sess' tab = Inr (x1, w1, tab1)"
    and "snd (dbstore_Destroy False s w (Some sess) tab) = Inr tab0"
    and "dbstore_Save hmac marshal False s now r w sess' tab0 = Inr (x2, w2, tab2)"
  shows "auth_ID sess' = []
       \<and> fst (dbstore_Load hmac unmarshal f1 f2 s now' old tab1)
           = fst (dbstore_Load hmac unmarshal f1 f2 s now' old tab)
       \<and> fst (dbstore_Load hmac unmarshal False f2 s now' old tab2) = Inl Sess_ErrNotFound"
proof -
  obtain b' where "Some b = Some b'" and i: "sess_ID sess' = encode URL_Alphabet b'"
    and empty: "sess_Data sess' = fmempty"
    using assms(1) by (rule auth_Logout_InrD)
  then have i: "sess_ID sess' \<noteq> sess_ID sess" using assms(3) by simp
  obtain row1 where tab1: "tab1 = fmupd (sess_ID sess') row1 tab"
    using assms(5) by (rule dbstore_Save_InrD)
  obtain row2 where tab2: "tab2 = fmupd (sess_ID sess') row2 tab0"
    using assms(7) by (rule dbstore_Save_InrD)
  have "tab0 = fmdrop (sess_ID sess) tab"
    using assms(4,6) by (simp add: dbstore_Destroy_def Let_def)
  then have "fst (dbstore_Load hmac unmarshal False f2 s now' old tab2) = Inl Sess_ErrNotFound"
    using assms(2,4) i by (simp add: tab2 dbstore_Load_def)
  moreover have "auth_ID sess' = []" using empty by (simp add: auth_ID_def session_Get_def)
  ultimately show ?thesis
    unfolding tab1 using dbstore_Load_other_id [OF assms(2) i] by simp
qed

text \<open>A signed-in session and the store it was saved to, for the witnesses.\<close>

definition demo_hmac :: "string \<Rightarrow> string \<Rightarrow> string" where
  "demo_hmac k m = take 2 m"

definition demo_store :: DBStore where
  "demo_store = \<lparr>dbs_Jar = cookie_New ''key'' True, dbs_TTL = Hour\<rparr>"

definition demo_session :: Session where
  "demo_session = \<lparr>sess_ID = ''old'', sess_Data = fmupd ''cart'' ''3'' fmempty,
     sess_ExpiresAt = Hour, sess_dirty = False, sess_fresh = False\<rparr>"

definition demo_request :: request where
  "demo_request = with_cookie session_CookieName
     (jar_sign demo_hmac (dbs_Jar demo_store) session_CookieName ''old'') get_request"

lemma demo_cookie:
  "jar_Get demo_hmac (dbs_Jar demo_store) demo_request session_CookieName
     = Inr (sess_ID demo_session)"
  by (simp add: demo_request_def demo_session_def)

lemma demo_fresh: "encode URL_Alphabet ''new'' \<noteq> sess_ID demo_session"
proof -
  have "encode URL_Alphabet ''new'' \<noteq> ''old''" by code_simp
  then show ?thesis by (simp add: demo_session_def)
qed

theorem login_defeats_fixation_witness:
  "\<exists>sess' w' tab'.
     auth_Login (Some ''new'') demo_session ''7'' = Inr sess'
   \<and> dbstore_Save demo_hmac (\<lambda>d. Some ''x'') False demo_store 5 demo_request empty_response
       sess' fmempty = Inr (session_markSaved sess', w', tab')
   \<and> fst (dbstore_Load demo_hmac (\<lambda>t. Some fmempty) False False demo_store 6 demo_request tab')
       = fst (dbstore_Load demo_hmac (\<lambda>t. Some fmempty) False False demo_store 6 demo_request fmempty)
   \<and> map_option row_UserID (fmlookup tab' (encode URL_Alphabet ''new'')) = Some ''7''"
proof -
  obtain sess' where l: "auth_Login (Some ''new'') demo_session ''7'' = Inr sess'"
    by (simp add: auth_Login_def session_Regenerate_def session_NewID_def)
  obtain w' tab' where sv: "dbstore_Save demo_hmac (\<lambda>d. Some ''x'') False demo_store 5 demo_request
      empty_response sess' fmempty = Inr (session_markSaved sess', w', tab')"
    by (simp add: dbstore_Save_def Let_def)
  from login_defeats_fixation [OF l sv demo_cookie demo_fresh] l sv show ?thesis by blast
qed

theorem logout_revokes_only_with_destroy_witness:
  "\<exists>sess' tab1 tab2.
     auth_Logout (Some ''new'') demo_session = Inr sess' \<and> auth_ID sess' = []
   \<and> fst (dbstore_Load demo_hmac (\<lambda>t. Some fmempty) False False demo_store 6 demo_request tab1)
       = fst (dbstore_Load demo_hmac (\<lambda>t. Some fmempty) False False demo_store 6 demo_request fmempty)
   \<and> fst (dbstore_Load demo_hmac (\<lambda>t. Some fmempty) False False demo_store 6 demo_request tab2)
       = Inl Sess_ErrNotFound"
proof -
  obtain sess' where l: "auth_Logout (Some ''new'') demo_session = Inr sess'"
    by (simp add: auth_Logout_def session_Invalidate_def session_Regenerate_def session_NewID_def)
  have sv: "\<exists>w' tab'. dbstore_Save demo_hmac (\<lambda>d. Some ''x'') False demo_store 5 demo_request
      empty_response sess' tab = Inr (session_markSaved sess', w', tab')" for tab
    by (simp add: dbstore_Save_def Let_def)
  obtain tab0 where d: "snd (dbstore_Destroy False demo_store empty_response (Some demo_session)
      fmempty) = Inr tab0"
    by (simp add: dbstore_Destroy_def demo_session_def Let_def)
  have ne: "sess_ID demo_session \<noteq> []" by (simp add: demo_session_def)
  obtain w1 tab1 where s1: "dbstore_Save demo_hmac (\<lambda>d. Some ''x'') False demo_store 5 demo_request
      empty_response sess' fmempty = Inr (session_markSaved sess', w1, tab1)"
    using sv by blast
  obtain w2 tab2 where s2: "dbstore_Save demo_hmac (\<lambda>d. Some ''x'') False demo_store 5 demo_request
      empty_response sess' tab0 = Inr (session_markSaved sess', w2, tab2)"
    using sv by blast
  from logout_revokes_only_with_destroy [OF l demo_cookie demo_fresh ne s1 d s2] l
  show ?thesis by blast
qed

text \<open>The detour through the login page: a guest who asks for a page with GET is sent to the
  login page with status 303 and, once logged in with the session the guard left, is sent back
  to the page asked for, once; the second time the fallback is used.\<close>

theorem require_auth_returns_to_intended:
  assumes "auth_ID s = []" and "req_Method r = ''GET''" and "req_URI r \<noteq> []"
    and "auth_RequireAuth loginPath r s empty_response = Answer s1 w1"
    and "auth_Login rnd s1 u = Inr s2" and "u \<noteq> []"
  shows "resp_Status w1 = Some 303 \<and> resp_Header w1 = [(''Location'', loginPath)]
       \<and> auth_RequireAuth loginPath r s2 empty_response = Next
       \<and> fst (auth_Intended s2 fallback) = req_URI r
       \<and> fst (auth_Intended (snd (auth_Intended s2 fallback)) fallback) = fallback"
proof -
  have s1: "s1 = session_Put IntendedKey (req_URI r) s"
    and w1: "w1 = http_Redirect loginPath 303 empty_response"
    using assms by (auto simp: auth_RequireAuth_def auth_Check_def)
  have "auth_ID s2 = u" and "session_Get s2 IntendedKey = session_Get s1 IntendedKey"
    using assms(5) by (auto elim!: auth_Login_InrD)
  then show ?thesis
    using assms(3,6) w1 s1
    by (simp add: auth_RequireAuth_def auth_Check_def auth_Intended_def session_Pull_def
        http_Redirect_def header_Set_def empty_response_def write_header_def)
qed

theorem require_auth_returns_to_intended_witness:
  "\<exists>s1 w1 s2. auth_RequireAuth ''/login'' get_request demo_session empty_response = Answer s1 w1
     \<and> auth_Login (Some ''new'') s1 ''7'' = Inr s2
     \<and> resp_Status w1 = Some 303
     \<and> fst (auth_Intended s2 ''/home'') = ''/''
     \<and> fst (auth_Intended (snd (auth_Intended s2 ''/home'')) ''/home'') = ''/home''"
proof -
  have g: "auth_ID demo_session = []"
    by (simp add: auth_ID_def session_Get_def demo_session_def UserIDKey_def)
  then obtain s1 w1 where a: "auth_RequireAuth ''/login'' get_request demo_session empty_response
      = Answer s1 w1"
    by (simp add: auth_RequireAuth_def auth_Check_def Let_def)
  obtain s2 where l: "auth_Login (Some ''new'') s1 ''7'' = Inr s2"
    by (simp add: auth_Login_def session_Regenerate_def session_NewID_def)
  from require_auth_returns_to_intended [OF g _ _ a l, of "''/home''"] a l show ?thesis
    by (simp add: get_request_def)
qed

text \<open>Signed tokens: a token verifies for its own purpose with its own subject through the
  second its expiry names and is \<^verbatim>\<open>ErrTokenExpired\<close> from the next second on.\<close>

theorem token_roundtrip_until_expiry:
  assumes "- (2 ^ 63) \<le> unix (now + ttl)" and "unix (now + ttl) < 2 ^ 63"
  shows "signer_Verify hmac s now' purpose (signer_Sign hmac s now purpose subject ttl)
       = (if unix now' \<le> unix (now + ttl) then Inr subject else Inl ErrTokenExpired)"
  using signer_Verify_Sign [OF assms(2,1)] by simp

theorem token_roundtrip_until_expiry_witness:
  "signer_Verify demo_hmac (NewSigner ''key'') 4000000000 PurposeVerifyEmail
     (signer_Sign demo_hmac (NewSigner ''key'') 1 PurposeVerifyEmail ''user 7'' (3 * Second))
   = Inl ErrTokenExpired
   \<and> signer_Verify demo_hmac (NewSigner ''key'') 3000000000 PurposeVerifyEmail
     (signer_Sign demo_hmac (NewSigner ''key'') 1 PurposeVerifyEmail ''user 7'' (3 * Second))
   = Inr ''user 7''"
proof -
  have b: "- (2 ^ 63) \<le> unix (1 + 3 * Second)" "unix (1 + 3 * Second) < 2 ^ 63"
    by (simp_all add: unix_def time_defs unix_offset_def)
  show ?thesis
    unfolding token_roundtrip_until_expiry [OF b] by (simp add: unix_def time_defs)
qed

text \<open>Purpose binding: a token issued for one purpose is accepted for another only where the
  HMAC has a collision on two different messages, so a verification link does not reset a
  password.\<close>

theorem token_purpose_needs_collision:
  assumes "p1 \<noteq> p2"
    and "signer_Verify hmac s now' p2 (signer_Sign hmac s now p1 subject ttl) = Inr x"
  shows "\<exists>m1 m2. m1 \<noteq> m2 \<and> hmac (signer_key s) m1 = hmac (signer_key s) m2"
proof -
  let ?m = "\<lambda>p. p @ ''|'' @ encode URL_Alphabet subject @ ''.'' @ format_int (unix (now + ttl))"
  have "?m p1 \<noteq> ?m p2" using assms(1) by simp
  moreover have "hmac (signer_key s) (?m p1) = hmac (signer_key s) (?m p2)"
    using signer_Verify_other [OF assms(2)] by simp
  ultimately show ?thesis by blast
qed

theorem token_purpose_needs_collision_witness:
  "signer_Verify demo_hmac (NewSigner ''key'') 1 ''verify''
     (signer_Sign demo_hmac (NewSigner ''key'') 1 ''vendor'' ''7'' Second) = Inr ''7''
   \<and> (\<exists>m1 m2. m1 \<noteq> m2 \<and> demo_hmac ''key'' m1 = demo_hmac ''key'' m2)"
proof -
  let ?s = "NewSigner ''key''"
  have v: "signer_Verify demo_hmac ?s 1 ''verify'' (signer_Sign demo_hmac ?s 1 ''vendor'' ''7'' Second)
      = Inr ''7''"
  proof -
    have "signer_Sign demo_hmac ?s 1 ''vendor'' ''7'' Second
        = signer_Sign demo_hmac ?s 1 ''verify'' ''7'' Second"
      by (simp add: signer_Sign_def signer_mac_def demo_hmac_def Let_def)
    then show ?thesis
      by (simp add: signer_Verify_Sign unix_def unix_offset_def time_defs)
  qed
  have "\<exists>m1 m2. m1 \<noteq> m2 \<and> demo_hmac (signer_key ?s) m1 = demo_hmac (signer_key ?s) m2"
    by (rule token_purpose_needs_collision [OF _ v]) simp
  with v show ?thesis by (simp add: NewSigner_def)
qed

end
