(* ===== verification/SessionStores.thy ===== *)
theory SessionStores
  imports SessionProps
begin

text \<open>
  The session stores for Redis (\<^verbatim>\<open>session/redis/redis.go\<close>) and MongoDB
  (\<^verbatim>\<open>session/mongo/mongo.go\<close>), with the server answering.  A Redis key has a deadline after
  which no command sees it; the sets that index the sessions of a user have one too.  MongoDB
  keeps dates to the millisecond.  Neither store can mark a session saved: the field belongs to
  package \<^verbatim>\<open>session\<close>.
\<close>

section \<open>Redis\<close>

record rs_Store =
  rs_Jar :: Jar
  rs_TTL :: duration
  rs_Prefix :: string

record rs_payload =
  rp_Data :: "(string, string) fmap option"
  rp_ExpiresAt :: time

record rs_state =
  rs_keys :: "(string, string \<times> time option) fmap"
  rs_sets :: "(string, string fset \<times> time option) fmap"

definition rs_New :: "Jar \<Rightarrow> duration \<Rightarrow> string \<Rightarrow> rs_Store" where
  "rs_New jar ttl prefix =
     \<lparr>rs_Jar = jar, rs_TTL = ttl, rs_Prefix = (if prefix = [] then ''session'' else prefix)\<rparr>"

definition rs_key :: "rs_Store \<Rightarrow> string \<Rightarrow> string" where
  "rs_key s i = rs_Prefix s @ '':'' @ i"

definition rs_userKey :: "rs_Store \<Rightarrow> string \<Rightarrow> string" where
  "rs_userKey s userID = rs_Prefix s @ '':user:'' @ userID"

text \<open>A value with a deadline, as a command at time \<open>now\<close> sees it.\<close>

definition alive :: "time \<Rightarrow> ('a \<times> time option) option \<Rightarrow> 'a option" where
  "alive now x =
     (case x of None \<Rightarrow> None
      | Some (v, None) \<Rightarrow> Some v
      | Some (v, Some deadline) \<Rightarrow> if now > deadline then None else Some v)"

definition rs_Load ::
  "(string \<Rightarrow> string \<Rightarrow> string) \<Rightarrow> (string \<Rightarrow> rs_payload option) \<Rightarrow> rs_Store \<Rightarrow> time \<Rightarrow> request \<Rightarrow> rs_state
     \<Rightarrow> (session_error, Session) result" where
  "rs_Load hmac unmarshal s now r st =
     (case jar_Get hmac (rs_Jar s) r session_CookieName of
        Inl _ \<Rightarrow> Inl Sess_ErrNotFound
      | Inr i \<Rightarrow>
          if i = [] then Inl Sess_ErrNotFound
          else (case alive now (fmlookup (rs_keys st) (rs_key s i)) of
                  None \<Rightarrow> Inl Sess_ErrNotFound
                | Some raw \<Rightarrow>
                    (case unmarshal raw of
                       None \<Rightarrow> Inl Sess_ErrNotFound
                     | Some p \<Rightarrow>
                         let sess = \<lparr>sess_ID = i,
                                     sess_Data = (case rp_Data p of None \<Rightarrow> fmempty | Some d \<Rightarrow> d),
                                     sess_ExpiresAt = rp_ExpiresAt p, sess_dirty = False, sess_fresh = False\<rparr>
                         in if session_Expired now sess then Inl Sess_ErrNotFound else Inr sess)))"

definition rs_ttl :: "rs_Store \<Rightarrow> time \<Rightarrow> Session \<Rightarrow> duration" where
  "rs_ttl s now sess = (let ttl = sess_ExpiresAt sess - now in if ttl \<le> 0 then rs_TTL s else ttl)"

text \<open>\<^verbatim>\<open>SADD\<close> followed by \<^verbatim>\<open>EXPIRE\<close>, which replaces the deadline.\<close>

definition rs_index :: "rs_Store \<Rightarrow> time \<Rightarrow> string \<Rightarrow> string \<Rightarrow> duration \<Rightarrow> rs_state \<Rightarrow> rs_state" where
  "rs_index s now userID i ttl st =
     (let k = rs_userKey s userID;
          members = (case alive now (fmlookup (rs_sets st) k) of None \<Rightarrow> {||} | Some m \<Rightarrow> m)
      in st\<lparr>rs_sets := fmupd k (finsert i members, Some (now + (ttl + Hour))) (rs_sets st)\<rparr>)"

definition rs_Save ::
  "(string \<Rightarrow> string \<Rightarrow> string) \<Rightarrow> (rs_payload \<Rightarrow> string option) \<Rightarrow> rs_Store \<Rightarrow> time \<Rightarrow> request
     \<Rightarrow> rs_state save_op" where
  "rs_Save hmac marshal s now r w sess st =
     (case marshal \<lparr>rp_Data = Some (sess_Data sess), rp_ExpiresAt = sess_ExpiresAt sess\<rparr> of
        None \<Rightarrow> Inl Sess_Encode
      | Some raw \<Rightarrow>
          let ttl = rs_ttl s now sess;
              st1 = st\<lparr>rs_keys := fmupd (rs_key s (sess_ID sess))
                        (raw, if ttl > 0 then Some (now + ttl) else None) (rs_keys st)\<rparr>;
              userID = session_Get sess UserIDKey;
              st2 = (if userID \<noteq> [] then rs_index s now userID (sess_ID sess) ttl st1 else st1)
          in Inr (sess, jar_Set hmac (rs_Jar s) w session_CookieName (sess_ID sess)
                    \<lparr>opt_MaxAge = until_seconds 0 ttl, opt_HTTPOnly = None\<rparr>, st2))"

definition rs_Destroy :: "rs_Store \<Rightarrow> time \<Rightarrow> response \<Rightarrow> Session option \<Rightarrow> rs_state \<Rightarrow> response \<times> rs_state" where
  "rs_Destroy s now w sess st =
     (let w' = jar_Delete (rs_Jar s) w session_CookieName
      in case sess of
           None \<Rightarrow> (w', st)
         | Some se \<Rightarrow>
             if sess_ID se = [] then (w', st)
             else let userID = session_Get se UserIDKey; k = rs_userKey s userID;
                      st1 = (if userID = [] then st
                             else (case fmlookup (rs_sets st) k of
                                     None \<Rightarrow> st
                                   | Some (m, d) \<Rightarrow> st\<lparr>rs_sets := fmupd k (m |-| {|sess_ID se|}, d) (rs_sets st)\<rparr>))
                  in (w', st1\<lparr>rs_keys := fmdrop (rs_key s (sess_ID se)) (rs_keys st1)\<rparr>))"

definition rs_DestroyForUser :: "rs_Store \<Rightarrow> time \<Rightarrow> string \<Rightarrow> rs_state \<Rightarrow> rs_state" where
  "rs_DestroyForUser s now userID st =
     (let k = rs_userKey s userID;
          ids = (case alive now (fmlookup (rs_sets st) k) of None \<Rightarrow> {||} | Some m \<Rightarrow> m)
      in st\<lparr>rs_keys := fmfilter (\<lambda>key. key |\<notin>| rs_key s |`| ids) (rs_keys st),
            rs_sets := fmdrop k (rs_sets st)\<rparr>)"

section \<open>MongoDB\<close>

definition ms_time :: "time \<Rightarrow> time" where
  "ms_time t = (t div Millisecond) * Millisecond"

record ms_Store =
  ms_Jar :: Jar
  ms_TTL :: duration

record ms_Document =
  md_Data :: "(string, string) fmap"
  md_UserID :: "string option"
  md_ExpiresAt :: time
  md_UpdatedAt :: time

type_synonym ms_docs = "(string, ms_Document) fmap"

definition ms_Load ::
  "(string \<Rightarrow> string \<Rightarrow> string) \<Rightarrow> ms_Store \<Rightarrow> time \<Rightarrow> request \<Rightarrow> ms_docs
     \<Rightarrow> (session_error, Session) result \<times> ms_docs" where
  "ms_Load hmac s now r docs =
     (case jar_Get hmac (ms_Jar s) r session_CookieName of
        Inl _ \<Rightarrow> (Inl Sess_ErrNotFound, docs)
      | Inr i \<Rightarrow>
          if i = [] then (Inl Sess_ErrNotFound, docs)
          else (case fmlookup docs i of
                  None \<Rightarrow> (Inl Sess_ErrNotFound, docs)
                | Some doc \<Rightarrow>
                    if now > md_ExpiresAt doc then (Inl Sess_ErrNotFound, fmdrop i docs)
                    else (Inr \<lparr>sess_ID = i, sess_Data = md_Data doc, sess_ExpiresAt = md_ExpiresAt doc,
                               sess_dirty = False, sess_fresh = False\<rparr>, docs)))"

definition ms_Save ::
  "(string \<Rightarrow> string \<Rightarrow> string) \<Rightarrow> ms_Store \<Rightarrow> time \<Rightarrow> request \<Rightarrow> ms_docs save_op" where
  "ms_Save hmac s now r w sess docs =
     (let ttl = (let ttl = sess_ExpiresAt sess - now in if ttl \<le> 0 then ms_TTL s else ttl);
          userID = session_Get sess UserIDKey;
          doc = \<lparr>md_Data = sess_Data sess, md_UserID = (if userID \<noteq> [] then Some userID else None),
                 md_ExpiresAt = ms_time (sess_ExpiresAt sess), md_UpdatedAt = ms_time now\<rparr>
      in Inr (sess, jar_Set hmac (ms_Jar s) w session_CookieName (sess_ID sess)
                \<lparr>opt_MaxAge = until_seconds 0 ttl, opt_HTTPOnly = None\<rparr>,
              fmupd (sess_ID sess) doc docs))"

definition ms_Destroy :: "ms_Store \<Rightarrow> response \<Rightarrow> Session option \<Rightarrow> ms_docs \<Rightarrow> response \<times> ms_docs" where
  "ms_Destroy s w sess docs =
     (let w' = jar_Delete (ms_Jar s) w session_CookieName
      in case sess of
           None \<Rightarrow> (w', docs)
         | Some se \<Rightarrow> if sess_ID se = [] then (w', docs) else (w', fmdrop (sess_ID se) docs))"

definition ms_DestroyForUser :: "string \<Rightarrow> ms_docs \<Rightarrow> (session_error, ms_docs) result" where
  "ms_DestroyForUser userID docs =
     (if userID = [] then Inl Sess_Store
      else Inr (fmfilter (\<lambda>i. case fmlookup docs i of None \<Rightarrow> True | Some d \<Rightarrow> md_UserID d \<noteq> Some userID) docs))"

section \<open>Both keep the contract of a store\<close>

definition rs_storable :: "(rs_payload \<Rightarrow> string option) \<Rightarrow> (string \<Rightarrow> rs_payload option) \<Rightarrow> Session \<Rightarrow> bool" where
  "rs_storable marshal unmarshal s =
     (sess_ID s \<noteq> [] \<and>
      (let p = \<lparr>rp_Data = Some (sess_Data s), rp_ExpiresAt = sess_ExpiresAt s\<rparr>
       in case marshal p of None \<Rightarrow> False | Some raw \<Rightarrow> unmarshal raw = Some p))"

lemma rs_index_keys [simp]: "rs_keys (rs_index s now u i ttl st) = rs_keys st"
  by (simp add: rs_index_def Let_def)

lemma rs_ttl_covers:
  "now' \<le> sess_ExpiresAt se \<Longrightarrow> 0 < rs_ttl s now se \<Longrightarrow> now' \<le> now + rs_ttl s now se"
  by (auto simp: rs_ttl_def Let_def split: if_splits)

interpretation rs: session_store "rs_Save hmac marshal s" "rs_Load hmac unmarshal s"
  "rs_storable marshal unmarshal" "\<lambda>t. t"
  for hmac marshal unmarshal s
proof
  fix se now r w st se' w' st' now' r'
  assume ok: "rs_storable marshal unmarshal se" and live: "now' \<le> sess_ExpiresAt se"
    and sv: "rs_Save hmac marshal s now r w se st = Inr (se', w', st')"
  let ?p = "\<lparr>rp_Data = Some (sess_Data se), rp_ExpiresAt = sess_ExpiresAt se\<rparr>"
  obtain raw where m: "marshal ?p = Some raw" "unmarshal raw = Some ?p" "sess_ID se \<noteq> []"
    using ok by (auto simp: rs_storable_def Let_def split: option.splits)
  have "fmlookup (rs_keys st') (rs_key s (sess_ID se)) =
      Some (raw, if rs_ttl s now se > 0 then Some (now + rs_ttl s now se) else None)"
    using sv m(1) by (auto simp: rs_Save_def Let_def split: if_splits)
  then have "alive now' (fmlookup (rs_keys st') (rs_key s (sess_ID se))) = Some raw"
    using rs_ttl_covers [OF live, of s now] by (auto simp: alive_def)
  moreover have "sc_Value (last (resp_Cookies w')) = jar_sign hmac (rs_Jar s) session_CookieName (sess_ID se)"
    using sv m(1) by (auto simp: rs_Save_def Let_def jar_Set_cookies)
  ultimately show "rs_Load hmac unmarshal s now' (with_cookie session_CookieName (sc_Value (last (resp_Cookies w'))) r') st'
      = Inr ((session_markSaved se)\<lparr>sess_ExpiresAt := sess_ExpiresAt se\<rparr>)"
    using m live by (simp add: rs_Load_def session_Expired_def session_markSaved_eq)
qed

interpretation ms: session_store "ms_Save hmac s" "\<lambda>now r docs. fst (ms_Load hmac s now r docs)"
  "\<lambda>se. sess_ID se \<noteq> []" ms_time
  for hmac s
  by unfold_locales
     (auto simp: ms_Save_def ms_Load_def Let_def jar_Set_cookies session_markSaved_eq)

section \<open>Properties\<close>

lemma rs_Save_parts:
  assumes "marshal \<lparr>rp_Data = Some (sess_Data se), rp_ExpiresAt = sess_ExpiresAt se\<rparr> = Some raw"
    and "now < sess_ExpiresAt se" and "rs_Save hmac marshal s now r w se st = Inr (se', w', st')"
  shows "rs_keys st' = fmupd (rs_key s (sess_ID se)) (raw, Some (sess_ExpiresAt se)) (rs_keys st)"
    and "sc_Value (last (resp_Cookies w')) = jar_sign hmac (rs_Jar s) session_CookieName (sess_ID se)"
    and "session_Get se UserIDKey = u \<Longrightarrow> u \<noteq> [] \<Longrightarrow>
      \<exists>ids. fmlookup (rs_sets st') (rs_userKey s u) = Some (ids, Some (sess_ExpiresAt se + Hour))"
  using assms by (auto simp: rs_Save_def rs_ttl_def rs_index_def Let_def jar_Set_cookies)

text \<open>Logging out everywhere can miss a session kept in Redis: saving a session of a user moves
  the deadline of the user's index to one hour after that session's own expiry, even backwards.
  When the session \<open>a\<close> that was saved last expires more than an hour before \<open>b\<close>, ending all
  sessions of the user after that hour leaves \<open>b\<close> logged in.\<close>

theorem rs_logout_everywhere_misses_session:
  assumes "rs_storable marshal unmarshal a" and "rs_storable marshal unmarshal b"
    and "session_Get a UserIDKey = u" and "session_Get b UserIDKey = u" and "u \<noteq> []"
    and "sess_ID a \<noteq> sess_ID b" and "t1 < sess_ExpiresAt b" and "t2 < sess_ExpiresAt a"
    and "rs_Save hmac marshal s t1 r1 w1 b st = Inr (b', w1', st1)"
    and "rs_Save hmac marshal s t2 r2 w2 a st1 = Inr (a', w2', st2)"
    and "sess_ExpiresAt a + Hour < t3" and "t3 \<le> sess_ExpiresAt b"
  shows "rs_Load hmac unmarshal s t3
      (with_cookie session_CookieName (sc_Value (last (resp_Cookies w1'))) r) (rs_DestroyForUser s t3 u st2)
    = Inr (session_markSaved b)"
proof -
  let ?p = "\<lparr>rp_Data = Some (sess_Data b), rp_ExpiresAt = sess_ExpiresAt b\<rparr>"
  obtain raw where m: "marshal ?p = Some raw" "unmarshal raw = Some ?p" "sess_ID b \<noteq> []"
    using assms(2) by (auto simp: rs_storable_def Let_def split: option.splits)
  obtain raw' where m': "marshal \<lparr>rp_Data = Some (sess_Data a), rp_ExpiresAt = sess_ExpiresAt a\<rparr> = Some raw'"
    using assms(1) by (auto simp: rs_storable_def Let_def split: option.splits)
  note b = rs_Save_parts [OF m(1) assms(7) assms(9)] and a = rs_Save_parts [OF m' assms(8) assms(10)]
  have "fmlookup (rs_keys st2) (rs_key s (sess_ID b)) = Some (raw, Some (sess_ExpiresAt b))"
    using assms(6) by (simp add: a(1) b(1) rs_key_def)
  moreover have "alive t3 (fmlookup (rs_sets st2) (rs_userKey s u)) = None"
    using a(3) [OF assms(3,5)] assms(11) by (auto simp: alive_def)
  ultimately have "fmlookup (rs_keys (rs_DestroyForUser s t3 u st2)) (rs_key s (sess_ID b)) =
      Some (raw, Some (sess_ExpiresAt b))"
    by (simp add: rs_DestroyForUser_def Let_def)
  then show ?thesis
    using m assms(12) b(2)
    by (simp add: rs_Load_def alive_def session_Expired_def session_markSaved_eq)
qed

definition two_sessions :: "string \<Rightarrow> time \<Rightarrow> Session" where
  "two_sessions i e = \<lparr>sess_ID = i, sess_Data = fmupd UserIDKey ''7'' fmempty, sess_ExpiresAt = e,
     sess_dirty = True, sess_fresh = False\<rparr>"

definition demo_marshal :: "rs_payload \<Rightarrow> string option" where
  "demo_marshal p = Some (format_int (rp_ExpiresAt p))"

definition demo_unmarshal :: "string \<Rightarrow> rs_payload option" where
  "demo_unmarshal t = map_option (\<lambda>e. \<lparr>rp_Data = Some (fmupd UserIDKey ''7'' fmempty), rp_ExpiresAt = e\<rparr>) (atoi t)"

lemma two_sessions_storable:
  "i \<noteq> [] \<Longrightarrow> 0 \<le> e \<Longrightarrow> e < 2 ^ 63 \<Longrightarrow> rs_storable demo_marshal demo_unmarshal (two_sessions i e)"
  by (simp add: rs_storable_def demo_marshal_def demo_unmarshal_def two_sessions_def atoi_format_int)

theorem rs_logout_everywhere_misses_session_witness:
  "\<exists>(w1' :: response) (st2 :: rs_state). rs_Load (\<lambda>k m. m) demo_unmarshal (rs_New (cookie_New ''key'' True) Hour []) (12 * Hour)
      (with_cookie session_CookieName (sc_Value (last (resp_Cookies w1'))) get_request)
      (rs_DestroyForUser (rs_New (cookie_New ''key'' True) Hour []) (12 * Hour) ''7'' st2)
    = Inr (session_markSaved (two_sessions ''b'' (14 * Hour)))"
proof -
  let ?s = "rs_New (cookie_New ''key'' True) Hour []"
  let ?a = "two_sessions ''a'' (10 * Hour)" and ?b = "two_sessions ''b'' (14 * Hour)"
  have ok: "rs_storable demo_marshal demo_unmarshal ?a" "rs_storable demo_marshal demo_unmarshal ?b"
    by (rule two_sessions_storable; simp add: Hour_def)+
  obtain b' w1' st1 where sb: "rs_Save (\<lambda>k m. m) demo_marshal ?s (4 * Hour) get_request empty_response ?b
      \<lparr>rs_keys = fmempty, rs_sets = fmempty\<rparr> = Inr (b', w1', st1)"
    by (simp add: rs_Save_def demo_marshal_def Let_def)
  obtain a' w2' st2 where sa: "rs_Save (\<lambda>k m. m) demo_marshal ?s (5 * Hour) get_request empty_response ?a st1
      = Inr (a', w2', st2)"
    by (simp add: rs_Save_def demo_marshal_def Let_def)
  have "rs_Load (\<lambda>k m. m) demo_unmarshal ?s (12 * Hour)
      (with_cookie session_CookieName (sc_Value (last (resp_Cookies w1'))) get_request)
      (rs_DestroyForUser ?s (12 * Hour) ''7'' st2) = Inr (session_markSaved ?b)"
    by (rule rs_logout_everywhere_misses_session [OF ok _ _ _ _ _ _ sb sa])
       (simp_all add: two_sessions_def session_Get_def Hour_def)
  then show ?thesis by (intro exI)
qed

text \<open>Sessions in Redis and MongoDB outlive the redirect as well: with either store, a value put
  into a session before a redirect is what the next request with the cookie reads, as long as the
  session has not expired.\<close>

theorem redis_and_mongo_put_survives_redirect:
  assumes "middleware_session rnd now lifetime (fst loaded) = Inr sess"
    and "fmlookup (sess_Data sess) k \<noteq> Some v"
    and "rs_storable marshal unmarshal (session_Put k v sess)"
    and "now' \<le> sess_ExpiresAt sess"
    and "middleware_session rnd now lifetime (fst loaded') = Inr sess"
    and "now' \<le> ms_time (sess_ExpiresAt sess)"
  shows "(\<exists>sv se. session_Middleware (rs_Save hmac marshal s now r) rnd now lifetime loaded w
            (Mutate (session_Put k v) # WriteHeader 303 # rest) = Inr sv
         \<and> rs_Load hmac unmarshal s now'
              (with_cookie session_CookieName (sc_Value (last (resp_Cookies (sv_w sv)))) r') (sv_store sv) = Inr se
         \<and> session_Get se k = v)
    \<and> (\<exists>sv se. session_Middleware (ms_Save hmac ms now r) rnd now lifetime loaded' w
            (Mutate (session_Put k v) # WriteHeader 303 # rest) = Inr sv
         \<and> fst (ms_Load hmac ms now'
              (with_cookie session_CookieName (sc_Value (last (resp_Cookies (sv_w sv)))) r') (sv_store sv)) = Inr se
         \<and> session_Get se k = v)"
proof -
  let ?s = "session_Put k v sess"
  have steps: "Mutate (session_Put k v) # WriteHeader 303 # rest
      = map Mutate [session_Put k v] @ WriteHeader 303 # rest" by simp
  have id: "sess_ID ?s \<noteq> []" and dirty: "sess_dirty ?s" and w: "is_write (WriteHeader 303)"
    using assms(2,3) by (simp_all add: rs_storable_def session_Put_def is_write_def)
  obtain sv where run: "session_Middleware (rs_Save hmac marshal s now r) rnd now
      lifetime loaded w (map Mutate [session_Put k v] @ WriteHeader 303 # rest) = Inr sv"
    using assms(1) by (simp add: session_Middleware_def)
  obtain se' w' st' where "rs_Save hmac marshal s now r w ?s (snd loaded) = Inr (se', w', st')"
    using assms(3) by (auto simp: rs_storable_def rs_Save_def Let_def split: option.splits)
  from rs.middleware_persists [OF run assms(1) _ dirty assms(3) _ this w] assms(4)
  have rs: "rs_Load hmac unmarshal s now'
      (with_cookie session_CookieName (sc_Value (last (resp_Cookies (sv_w sv)))) r') (sv_store sv)
      = Inr ((session_markSaved ?s)\<lparr>sess_ExpiresAt := sess_ExpiresAt ?s\<rparr>)" by simp
  obtain sm where runm: "session_Middleware (ms_Save hmac ms now r) rnd now
      lifetime loaded' w (map Mutate [session_Put k v] @ WriteHeader 303 # rest) = Inr sm"
    using assms(5) by (simp add: session_Middleware_def)
  obtain se1 w1 st1 where "ms_Save hmac ms now r w ?s (snd loaded') = Inr (se1, w1, st1)"
    by (simp add: ms_Save_def Let_def)
  from ms.middleware_persists [OF runm assms(5) _ dirty id _ this w] assms(6)
  have "fst (ms_Load hmac ms now'
      (with_cookie session_CookieName (sc_Value (last (resp_Cookies (sv_w sm)))) r') (sv_store sm))
      = Inr ((session_markSaved ?s)\<lparr>sess_ExpiresAt := ms_time (sess_ExpiresAt ?s)\<rparr>)" by simp
  moreover have "session_Get ((session_markSaved ?s)\<lparr>sess_ExpiresAt := t\<rparr>) k = v" for t
    by (simp add: session_Get_def session_markSaved_eq session_Put_def)
  ultimately show ?thesis using rs run runm unfolding steps by blast
qed

theorem redis_and_mongo_put_survives_redirect_witness:
  "\<exists>sv se. session_Middleware (ms_Save (\<lambda>k m. m) \<lparr>ms_Jar = cookie_New ''key'' True, ms_TTL = Hour\<rparr> 0 get_request)
        (Some ''r'') 0 Hour (Inl Sess_ErrNotFound, fmempty) empty_response
        (Mutate (session_Put UserIDKey ''7'') # WriteHeader 303 # []) = Inr sv
     \<and> fst (ms_Load (\<lambda>k m. m) \<lparr>ms_Jar = cookie_New ''key'' True, ms_TTL = Hour\<rparr> 6
          (with_cookie session_CookieName (sc_Value (last (resp_Cookies (sv_w sv)))) get_request) (sv_store sv)) = Inr se
     \<and> session_Get se UserIDKey = ''7''"
proof -
  let ?se = "\<lparr>sess_ID = encode URL_Alphabet ''r'', sess_Data = fmempty, sess_ExpiresAt = Hour,
              sess_dirty = False, sess_fresh = True\<rparr>"
  have m: "middleware_session (Some ''r'') 0 Hour (Inl Sess_ErrNotFound) = Inr ?se"
    by (simp add: middleware_session_def session_New_def session_NewID_def)
  have st: "rs_storable demo_marshal demo_unmarshal (session_Put UserIDKey ''7'' ?se)"
    by (simp add: rs_storable_def demo_marshal_def demo_unmarshal_def session_Put_def atoi_format_int Hour_def)
  have t: "6 \<le> ms_time (sess_ExpiresAt ?se)" "6 \<le> sess_ExpiresAt ?se"
    by (simp_all add: ms_time_def Hour_def Millisecond_def)
  show ?thesis
    by (rule conjunct2 [OF redis_and_mongo_put_survives_redirect
          [where loaded = "(Inl Sess_ErrNotFound, \<lparr>rs_keys = fmempty, rs_sets = fmempty\<rparr>)" and sess = ?se
             and now' = 6 and s = "rs_New (cookie_New ''key'' True) Hour []", OF _ _ st t(2) _ t(1)]])
       (simp_all add: m)
qed

end
