(* ===== verification/Csrf.thy ===== *)
theory Csrf
  imports Cookie Session
begin

text \<open>
  The double-submit protection of \<^verbatim>\<open>csrf/csrf.go\<close>.  \<^verbatim>\<open>Protect\<close> is modelled as one
  function of a request: it settles the token (from the cookie, or a new one that it sets) and
  either passes the request on with that token on its context or denies it.  The \<^verbatim>\<open>Skip\<close>
  callback is a predicate on requests; the configuration without one is the predicate that is
  always false.
\<close>

definition csrf_CookieName :: string where "csrf_CookieName = ''ryla_csrf''"
definition csrf_FieldName :: string where "csrf_FieldName = ''_csrf''"
definition csrf_HeaderName :: string where "csrf_HeaderName = ''X-CSRF-Token''"

datatype csrf_outcome = Csrf_Next | Csrf_Deny

definition csrf_safe :: "string \<Rightarrow> bool" where
  "csrf_safe m = (m \<in> {''GET'', ''HEAD'', ''OPTIONS'', ''TRACE''})"

definition csrf_submitted :: "request \<Rightarrow> string" where
  "csrf_submitted r =
     (let h = header_Get r csrf_HeaderName
      in if h \<noteq> [] then h
         else (case post_form_value r csrf_FieldName of None \<Rightarrow> [] | Some v \<Rightarrow> v))"

definition csrf_valid :: "request \<Rightarrow> string \<Rightarrow> string \<Rightarrow> bool" where
  "csrf_valid r expected signed =
     (let submitted = csrf_submitted r
      in if submitted = [] then False
         else if submitted = expected then True
         else if signed = [] then False
         else submitted = signed)"

definition csrf_newToken :: "entropy \<Rightarrow> (panic, string) result" where
  "csrf_newToken rnd =
     (case rnd of
        None \<Rightarrow> Inl (Panic ''csrf: could not read random bytes'')
      | Some b \<Rightarrow> Inr (encode URL_Alphabet b))"

text \<open>The token, the verified cookie value and the response after the cookie step.\<close>

definition csrf_token_step ::
  "(string \<Rightarrow> string \<Rightarrow> string) \<Rightarrow> Jar \<Rightarrow> entropy \<Rightarrow> request \<Rightarrow> response
     \<Rightarrow> (panic, string \<times> string \<times> response) result" where
  "csrf_token_step hmac jar rnd r w =
     (let got = jar_Get hmac jar r csrf_CookieName
      in if (case got of Inl _ \<Rightarrow> True | Inr t \<Rightarrow> t = [])
         then (case csrf_newToken rnd of
                 Inl p \<Rightarrow> Inl p
               | Inr token \<Rightarrow>
                   Inr (token, [], jar_Set hmac jar w csrf_CookieName token
                                     \<lparr>opt_MaxAge = 0, opt_HTTPOnly = Some False\<rparr>))
         else Inr (case got of Inl _ \<Rightarrow> [] | Inr t \<Rightarrow> t,
                   case req_Cookie r csrf_CookieName of None \<Rightarrow> [] | Some v \<Rightarrow> v, w))"

definition csrf_Protect ::
  "(string \<Rightarrow> string \<Rightarrow> string) \<Rightarrow> Jar \<Rightarrow> (request \<Rightarrow> bool) \<Rightarrow> entropy \<Rightarrow> request \<Rightarrow> response
     \<Rightarrow> (panic, csrf_outcome \<times> string \<times> response) result" where
  "csrf_Protect hmac jar skip rnd r w =
     (case csrf_token_step hmac jar rnd r w of
        Inl p \<Rightarrow> Inl p
      | Inr (token, signed, w') \<Rightarrow>
          if csrf_safe (req_Method r) \<or> skip r then Inr (Csrf_Next, token, w')
          else if \<not> csrf_valid r token signed
               then Inr (Csrf_Deny, token, http_Error ''Invalid or missing CSRF token'' 403 w')
               else Inr (Csrf_Next, token, w'))"

section \<open>Lemmas\<close>

lemma csrf_valid_iff:
  "csrf_valid r expected signed \<longleftrightarrow>
   csrf_submitted r \<noteq> [] \<and> (csrf_submitted r = expected \<or> csrf_submitted r = signed)"
  by (auto simp: csrf_valid_def Let_def)

lemma csrf_token_step_verified:
  assumes "jar_Get hmac jar r csrf_CookieName = Inr t" and "t \<noteq> []"
  obtains raw where "req_Cookie r csrf_CookieName = Some raw"
    "jar_verify hmac jar csrf_CookieName raw = Inr t"
    "csrf_token_step hmac jar rnd r w = Inr (t, raw, w)"
  using jar_Get_InrD [OF assms(1)] assms
  by (auto simp: csrf_token_step_def Let_def)

lemma csrf_token_step_new:
  assumes "\<not> (\<exists>t. jar_Get hmac jar r csrf_CookieName = Inr t \<and> t \<noteq> [])"
  shows "csrf_token_step hmac jar (Some b) r w =
     Inr (encode URL_Alphabet b, [],
          jar_Set hmac jar w csrf_CookieName (encode URL_Alphabet b)
            \<lparr>opt_MaxAge = 0, opt_HTTPOnly = Some False\<rparr>)"
  using assms
  by (cases "jar_Get hmac jar r csrf_CookieName")
     (simp_all add: csrf_token_step_def csrf_newToken_def)

lemma csrf_submitted_field:
  "header_Get r csrf_HeaderName = [] \<Longrightarrow> req_PostForm r = Some ((csrf_FieldName, v) # form) \<Longrightarrow>
   csrf_submitted r = v"
  by (simp add: csrf_submitted_def post_form_value_def)

section \<open>Properties\<close>

text \<open>C7. Forged requests are denied: a state-changing request that is not skipped is passed on
  only if it submits, in the header or the form, a value that is its verified cookie token or
  that cookie's own signed text; a request without a cookie signed by this application can only
  pass by submitting the token that was drawn for it after it arrived.\<close>

theorem csrf_pass_requires_cookie_value:
  assumes "csrf_Protect hmac jar skip (Some b) r w = Inr (Csrf_Next, token, w')"
    and "\<not> csrf_safe (req_Method r)" and "\<not> skip r"
  shows "csrf_submitted r \<noteq> [] \<and>
    ((\<exists>raw. req_Cookie r csrf_CookieName = Some raw
        \<and> jar_verify hmac jar csrf_CookieName raw = Inr token
        \<and> (csrf_submitted r = token \<or> csrf_submitted r = raw))
     \<or> ((\<nexists>t. jar_Get hmac jar r csrf_CookieName = Inr t \<and> t \<noteq> [])
        \<and> csrf_submitted r = encode URL_Alphabet b))"
proof (cases "\<exists>t. jar_Get hmac jar r csrf_CookieName = Inr t \<and> t \<noteq> []")
  case True
  then obtain t where "jar_Get hmac jar r csrf_CookieName = Inr t" "t \<noteq> []" by blast
  then obtain raw where "req_Cookie r csrf_CookieName = Some raw"
    "jar_verify hmac jar csrf_CookieName raw = Inr t"
    "csrf_token_step hmac jar (Some b) r w = Inr (t, raw, w)"
    by (rule csrf_token_step_verified)
  with assms show ?thesis
    by (auto simp: csrf_Protect_def csrf_valid_iff split: if_splits)
next
  case False
  from csrf_token_step_new [OF False, of b w] assms False show ?thesis
    by (auto simp: csrf_Protect_def csrf_valid_iff split: if_splits)
qed

text \<open>Genuine forms are accepted: a page fetched by a visitor without a cookie sets one, and
  a later post that carries that cookie and, in its form field, the token of the page (or, in
  the header, the cookie's own text) is passed on.\<close>

theorem csrf_form_roundtrip:
  assumes "csrf_Protect hmac jar skip (Some b) page w = Inr (Csrf_Next, token, w1)"
    and "jar_Get hmac jar page csrf_CookieName = Inl e" and "b \<noteq> []"
    and "post' = with_cookie csrf_CookieName (sc_Value (last (resp_Cookies w1))) post"
    and "(header_Get post csrf_HeaderName = [] \<and> req_PostForm post = Some ((csrf_FieldName, token) # form))
       \<or> header_Get post csrf_HeaderName = sc_Value (last (resp_Cookies w1))"
  shows "csrf_Protect hmac jar skip rnd post' w2 = Inr (Csrf_Next, token, w2)"
proof -
  have no: "\<not> (\<exists>t. jar_Get hmac jar page csrf_CookieName = Inr t \<and> t \<noteq> [])"
    using assms(2) by simp
  have step: "csrf_token_step hmac jar (Some b) page w = Inr (encode URL_Alphabet b, [],
      jar_Set hmac jar w csrf_CookieName (encode URL_Alphabet b)
        \<lparr>opt_MaxAge = 0, opt_HTTPOnly = Some False\<rparr>)"
    by (rule csrf_token_step_new [OF no])
  have token: "token = encode URL_Alphabet b"
    and w1: "w1 = jar_Set hmac jar w csrf_CookieName token
        \<lparr>opt_MaxAge = 0, opt_HTTPOnly = Some False\<rparr>"
    using assms(1) step by (auto simp: csrf_Protect_def split: if_splits)
  define raw where "raw = jar_sign hmac jar csrf_CookieName token"
  have raw: "sc_Value (last (resp_Cookies w1)) = raw"
    by (simp add: w1 jar_Set_cookies raw_def)
  have get: "jar_Get hmac jar post' csrf_CookieName = Inr token"
    by (simp add: assms(4) raw raw_def)
  have nonempty: "token \<noteq> []" using assms(3) by (simp add: token)
  have step2: "csrf_token_step hmac jar rnd post' w2 = Inr (token, raw, w2)"
    using get nonempty by (simp add: csrf_token_step_def assms(4) raw)
  have "raw \<noteq> []" by (simp add: raw_def jar_sign_def Let_def)
  then have "csrf_submitted post' \<noteq> [] \<and> (csrf_submitted post' = token \<or> csrf_submitted post' = raw)"
    using assms(5) nonempty
    by (auto simp: csrf_submitted_def assms(4) raw post_form_value_def)
  then have "csrf_valid post' token raw" by (simp add: csrf_valid_iff)
  then show ?thesis by (simp add: csrf_Protect_def step2)
qed

text \<open>The page and the post of the witnesses.\<close>

definition demo_post :: "string \<Rightarrow> request" where
  "demo_post token = get_request\<lparr>req_Method := ''POST'', req_PostForm := Some [(''_csrf'', token)]\<rparr>"

theorem csrf_pass_requires_cookie_value_witness:
  "\<exists>token w'. csrf_Protect (\<lambda>k m. m) (cookie_New ''k'' True) (\<lambda>_. False) (Some ''b'')
       (demo_post (encode URL_Alphabet ''b'')) empty_response = Inr (Csrf_Next, token, w')
     \<and> csrf_submitted (demo_post (encode URL_Alphabet ''b'')) \<noteq> []"
proof -
  let ?j = "cookie_New ''k'' True"
  let ?r = "demo_post (encode URL_Alphabet ''b'')"
  have sub: "csrf_submitted ?r = encode URL_Alphabet ''b''"
    by (rule csrf_submitted_field [where form = "[]"])
       (simp_all add: demo_post_def get_request_def header_Get_def csrf_FieldName_def)
  have un: "\<not> csrf_safe (req_Method ?r)" by (simp add: demo_post_def csrf_safe_def)
  have no: "\<not> (\<exists>t. jar_Get (\<lambda>k m. m) ?j ?r csrf_CookieName = Inr t \<and> t \<noteq> [])"
    by (simp add: jar_Get_def req_Cookie_def demo_post_def get_request_def)
  obtain token w' where p: "csrf_Protect (\<lambda>k m. m) ?j (\<lambda>_. False) (Some ''b'') ?r empty_response
      = Inr (Csrf_Next, token, w')"
    using csrf_token_step_new [OF no, of "''b''" empty_response] un sub
    by (simp add: csrf_Protect_def csrf_valid_iff)
  from csrf_pass_requires_cookie_value [OF p un] p show ?thesis by auto
qed

theorem csrf_form_roundtrip_witness:
  "\<exists>token w1. csrf_Protect (\<lambda>k m. m) (cookie_New ''k'' True) (\<lambda>_. False) (Some ''b'') get_request
        empty_response = Inr (Csrf_Next, token, w1)
     \<and> csrf_Protect (\<lambda>k m. m) (cookie_New ''k'' True) (\<lambda>_. False) None
        (with_cookie csrf_CookieName (sc_Value (last (resp_Cookies w1))) (demo_post token))
        empty_response = Inr (Csrf_Next, token, empty_response)"
proof -
  let ?j = "cookie_New ''k'' True"
  have e: "jar_Get (\<lambda>k m. m) ?j get_request csrf_CookieName = Inl Cookie_ErrNotFound"
    by (simp add: jar_Get_def req_Cookie_def get_request_def)
  then have no: "\<not> (\<exists>t. jar_Get (\<lambda>k m. m) ?j get_request csrf_CookieName = Inr t \<and> t \<noteq> [])"
    by simp
  obtain token w1 where p: "csrf_Protect (\<lambda>k m. m) ?j (\<lambda>_. False) (Some ''b'') get_request
      empty_response = Inr (Csrf_Next, token, w1)"
    using csrf_token_step_new [OF no, of "''b''" empty_response]
    by (simp add: csrf_Protect_def csrf_safe_def get_request_def)
  have "header_Get (demo_post token) csrf_HeaderName = []
      \<and> req_PostForm (demo_post token) = Some ((csrf_FieldName, token) # [])"
    by (simp add: demo_post_def get_request_def header_Get_def csrf_FieldName_def)
  with csrf_form_roundtrip [OF p e _ refl] p show ?thesis by blast
qed

section \<open>The hidden field\<close>

text \<open>\<^verbatim>\<open>Field\<close> from the token in the context of the request.\<close>

definition csrf_Field :: "string \<Rightarrow> string" where
  "csrf_Field token = ''<input type=\"hidden\" name=\"'' @ csrf_FieldName @ ''\" value=\"'' @ token @ ''\">''"

text \<open>A fresh token cannot end the attribute it stands in.\<close>

lemma csrf_newToken_inert:
  assumes "csrf_newToken (Some b) = Inr token"
  shows "set token \<inter> set ''\"<>&'' = {}"
proof -
  have "token = encode URL_Alphabet b" using assms by (simp add: csrf_newToken_def)
  moreover have "set (alphabet URL_Alphabet) \<inter> set ''\"<>&'' = {}" by (simp add: alphabet_def)
  ultimately show ?thesis using encode_set [of URL_Alphabet b] by blast
qed

end
