(* ===== verification/Flash.thy ===== *)
theory Flash
  imports Cookie
begin

text \<open>
  The one-request messages of \<^verbatim>\<open>flash/flash.go\<close>: \<^verbatim>\<open>Add\<close> appends to the messages that
  arrived with the request and writes them into a signed cookie, \<^verbatim>\<open>Pull\<close> returns them and
  deletes the cookie.  JSON is the pair of parameters \<open>marshal\<close> and \<open>unmarshal\<close>.
\<close>

definition flash_CookieName :: string where "flash_CookieName = ''ryla_flash''"

datatype Kind = Success | Info | Warning | Error

record Message =
  msg_Kind :: Kind
  msg_Text :: string

definition flash_peek ::
  "(string \<Rightarrow> string \<Rightarrow> string) \<Rightarrow> (string \<Rightarrow> Message list option) \<Rightarrow> Jar \<Rightarrow> request \<Rightarrow> Message list"
where
  "flash_peek hmac unmarshal jar r =
     (case jar_Get hmac jar r flash_CookieName of
        Inl _ \<Rightarrow> []
      | Inr raw \<Rightarrow>
          if raw = [] then []
          else (case unmarshal raw of None \<Rightarrow> [] | Some messages \<Rightarrow> messages))"

definition flash_Add ::
  "(string \<Rightarrow> string \<Rightarrow> string) \<Rightarrow> (Message list \<Rightarrow> string option) \<Rightarrow> (string \<Rightarrow> Message list option)
     \<Rightarrow> Jar \<Rightarrow> response \<Rightarrow> request \<Rightarrow> Kind \<Rightarrow> string \<Rightarrow> response" where
  "flash_Add hmac marshal unmarshal jar w r kind text =
     (let messages = flash_peek hmac unmarshal jar r @ [\<lparr>msg_Kind = kind, msg_Text = text\<rparr>]
      in case marshal messages of
           None \<Rightarrow> w
         | Some raw \<Rightarrow> jar_Set hmac jar w flash_CookieName raw \<lparr>opt_MaxAge = 0, opt_HTTPOnly = None\<rparr>)"

definition flash_Pull ::
  "(string \<Rightarrow> string \<Rightarrow> string) \<Rightarrow> (string \<Rightarrow> Message list option) \<Rightarrow> Jar \<Rightarrow> response \<Rightarrow> request
     \<Rightarrow> Message list \<times> response" where
  "flash_Pull hmac unmarshal jar w r =
     (let messages = flash_peek hmac unmarshal jar r
      in (messages, if length messages > 0 then jar_Delete jar w flash_CookieName else w))"

lemma flash_peek_with_cookie:
  assumes "unmarshal raw = Some ms" and "raw \<noteq> []"
  shows "flash_peek hmac unmarshal jar
     (with_cookie flash_CookieName (jar_sign hmac jar flash_CookieName raw) r) = ms"
  using assms by (simp add: flash_peek_def)

section \<open>Properties\<close>

text \<open>A flash survives the redirect: the request that carries back the cookie \<^verbatim>\<open>Add\<close> wrote
  pulls the earlier pending messages followed by the new one, and the response to that pull
  deletes the cookie under the path it was set with.\<close>

theorem flash_add_then_pull:
  assumes "marshal (flash_peek hmac unmarshal jar r @ [\<lparr>msg_Kind = kind, msg_Text = text\<rparr>]) = Some raw"
    and "unmarshal raw = Some (flash_peek hmac unmarshal jar r @ [\<lparr>msg_Kind = kind, msg_Text = text\<rparr>])"
    and "raw \<noteq> []"
    and "written = last (resp_Cookies (flash_Add hmac marshal unmarshal jar w r kind text))"
    and "follow = with_cookie flash_CookieName (sc_Value written) r'"
  shows "fst (flash_Pull hmac unmarshal jar w' follow)
           = flash_peek hmac unmarshal jar r @ [\<lparr>msg_Kind = kind, msg_Text = text\<rparr>]
       \<and> (\<exists>c. resp_Cookies (snd (flash_Pull hmac unmarshal jar w' follow)) = resp_Cookies w' @ [c]
            \<and> sc_Name c = sc_Name written \<and> sc_Path c = sc_Path written \<and> sc_MaxAge c < 0)"
proof -
  have add: "flash_Add hmac marshal unmarshal jar w r kind text =
      jar_Set hmac jar w flash_CookieName raw \<lparr>opt_MaxAge = 0, opt_HTTPOnly = None\<rparr>"
    by (simp add: flash_Add_def assms(1))
  have "flash_peek hmac unmarshal jar follow
      = flash_peek hmac unmarshal jar r @ [\<lparr>msg_Kind = kind, msg_Text = text\<rparr>]"
    unfolding assms(4,5) add jar_Set_cookies
    using flash_peek_with_cookie [where unmarshal = unmarshal, OF assms(2,3)] by simp
  then show ?thesis
    by (simp add: flash_Pull_def assms(4) add jar_Set_cookies jar_Delete_def)
qed

theorem flash_add_then_pull_witness:
  "fst (flash_Pull (\<lambda>k m. m) (\<lambda>t. Some [\<lparr>msg_Kind = Info, msg_Text = ''Saved''\<rparr>])
      (cookie_New ''k'' True) empty_response
      (with_cookie flash_CookieName (sc_Value (last (resp_Cookies
         (flash_Add (\<lambda>k m. m) (\<lambda>ms. Some ''x'') (\<lambda>t. Some [\<lparr>msg_Kind = Info, msg_Text = ''Saved''\<rparr>])
            (cookie_New ''k'' True) empty_response get_request Info ''Saved'')))) get_request))
   = [\<lparr>msg_Kind = Info, msg_Text = ''Saved''\<rparr>]"
proof -
  let ?u = "\<lambda>t::string. Some [\<lparr>msg_Kind = Info, msg_Text = ''Saved''\<rparr>]"
  have none: "flash_peek (\<lambda>k m. m) ?u (cookie_New ''k'' True) get_request = []"
    by (simp add: flash_peek_def jar_Get_def req_Cookie_def get_request_def)
  show ?thesis
    using flash_add_then_pull [of "\<lambda>ms. Some ''x''" "\<lambda>k m. m" ?u "cookie_New ''k'' True" get_request
        Info "''Saved''" "''x''" _ empty_response _ get_request empty_response]
    by (simp add: none)
qed

section \<open>The kinds\<close>

definition flash_Success where "flash_Success hmac marshal unmarshal jar w r text = flash_Add hmac marshal unmarshal jar w r Success text"
definition flash_Error where "flash_Error hmac marshal unmarshal jar w r text = flash_Add hmac marshal unmarshal jar w r Error text"
definition flash_Info where "flash_Info hmac marshal unmarshal jar w r text = flash_Add hmac marshal unmarshal jar w r Info text"
definition flash_Warning where "flash_Warning hmac marshal unmarshal jar w r text = flash_Add hmac marshal unmarshal jar w r Warning text"

text \<open>Two messages in one response: \<^verbatim>\<open>Add\<close> reads the pending messages of the request and not of the cookie an earlier
  \<^verbatim>\<open>Add\<close> wrote, so the cookie of the second replaces that of the first and the first message is not shown.\<close>

theorem flash_second_add_replaces:
  assumes "marshal (flash_peek hmac unmarshal jar r @ [\<lparr>msg_Kind = k2, msg_Text = t2\<rparr>]) = Some raw"
    and "unmarshal raw = Some (flash_peek hmac unmarshal jar r @ [\<lparr>msg_Kind = k2, msg_Text = t2\<rparr>])" and "raw \<noteq> []"
    and "both = flash_Add hmac marshal unmarshal jar (flash_Add hmac marshal unmarshal jar w r k1 t1) r k2 t2"
  shows "flash_peek hmac unmarshal jar (with_cookie flash_CookieName (sc_Value (last (resp_Cookies both))) r')
     = flash_peek hmac unmarshal jar r @ [\<lparr>msg_Kind = k2, msg_Text = t2\<rparr>]"
proof -
  have "both = jar_Set hmac jar (flash_Add hmac marshal unmarshal jar w r k1 t1) flash_CookieName raw \<lparr>opt_MaxAge = 0, opt_HTTPOnly = None\<rparr>"
    using assms(1,4) by (simp add: flash_Add_def [of _ _ _ _ _ _ k2])
  then show ?thesis
    using flash_peek_with_cookie [where unmarshal = unmarshal, OF assms(2,3)] by (simp add: jar_Set_cookies)
qed

theorem flash_second_add_replaces_witness:
  "flash_peek (\<lambda>k m. m) (\<lambda>t. Some [\<lparr>msg_Kind = Error, msg_Text = ''b''\<rparr>]) (cookie_New ''k'' True)
     (with_cookie flash_CookieName (sc_Value (last (resp_Cookies
        (flash_Add (\<lambda>k m. m) (\<lambda>ms. Some ''x'') (\<lambda>t. Some [\<lparr>msg_Kind = Error, msg_Text = ''b''\<rparr>]) (cookie_New ''k'' True)
           (flash_Add (\<lambda>k m. m) (\<lambda>ms. Some ''x'') (\<lambda>t. Some [\<lparr>msg_Kind = Error, msg_Text = ''b''\<rparr>]) (cookie_New ''k'' True)
              empty_response get_request Info ''a'') get_request Error ''b'')))) get_request)
   = [\<lparr>msg_Kind = Error, msg_Text = ''b''\<rparr>]"
proof -
  let ?u = "\<lambda>t::string. Some [\<lparr>msg_Kind = Error, msg_Text = ''b''\<rparr>]"
  have none: "flash_peek (\<lambda>k m. m) ?u (cookie_New ''k'' True) get_request = []"
    by (simp add: flash_peek_def jar_Get_def req_Cookie_def get_request_def)
  show ?thesis
    using flash_second_add_replaces [of "\<lambda>ms. Some ''x''" "\<lambda>k m. m" ?u "cookie_New ''k'' True" get_request
        Error "''b''" "''x''" _ empty_response Info "''a''" get_request]
    by (simp add: none)
qed

end
