(* ===== verification/Ratelimit.thy ===== *)
theory Ratelimit
  imports Http Strconv Complex_Main
begin

text \<open>
  The token bucket of \<^verbatim>\<open>ratelimit/ratelimit.go\<close>, its middleware and the choice of the
  client address.  Token counts are \<^verbatim>\<open>float64\<close> in the source: here they are rationals and
  every floating-point operation is the exact one followed by the rounding \<open>fl\<close>, a parameter.
  The bounds on the tokens hold for every monotone rounding that is exact on the integers up to
  $2^{53}$, which is what IEEE 754 guarantees; the statements that count requests are about exact
  arithmetic, where \<open>fl\<close> is the identity.
\<close>

record bucket =
  bk_tokens :: rat
  bk_seen :: time

record Limiter =
  lim_limit :: int
  lim_window :: duration
  lim_burst :: int
  lim_buckets :: "(string, bucket) fmap"
  lim_lastSweep :: time

definition NewWithBurst :: "int \<Rightarrow> duration \<Rightarrow> int \<Rightarrow> Limiter" where
  "NewWithBurst limit window burst =
     \<lparr>lim_limit = (if limit < 1 then 1 else limit),
      lim_window = (if window \<le> 0 then Minute else window),
      lim_burst = (if burst < 1 then 1 else burst),
      lim_buckets = fmempty, lim_lastSweep = zero_time\<rparr>"

definition ratelimit_New :: "int \<Rightarrow> duration \<Rightarrow> Limiter" where
  "ratelimit_New limit window = NewWithBurst limit window limit"

text \<open>\<^verbatim>\<open>Duration.Seconds\<close> of a duration that is not negative.\<close>

definition secs :: "(rat \<Rightarrow> rat) \<Rightarrow> duration \<Rightarrow> rat" where
  "secs fl d = fl (fl (of_int (d div Second)) + fl (of_int (d mod Second) / of_int Second))"

definition lim_rate :: "(rat \<Rightarrow> rat) \<Rightarrow> Limiter \<Rightarrow> rat" where
  "lim_rate fl l = fl (of_int (lim_limit l) / secs fl (lim_window l))"

definition lim_sweep :: "time \<Rightarrow> Limiter \<Rightarrow> Limiter" where
  "lim_sweep now l =
     (if now - lim_lastSweep l < lim_window l then l
      else l\<lparr>lim_lastSweep := now,
             lim_buckets := fmfilter (\<lambda>k. case fmlookup (lim_buckets l) k of
                 None \<Rightarrow> True | Some b \<Rightarrow> \<not> now - bk_seen b > lim_window l * 2) (lim_buckets l)\<rparr>)"

text \<open>The bucket of a key when it is asked for: a new one is full, an old one is refilled.\<close>

definition lim_refill :: "(rat \<Rightarrow> rat) \<Rightarrow> time \<Rightarrow> string \<Rightarrow> Limiter \<Rightarrow> rat" where
  "lim_refill fl now key l =
     (case fmlookup (lim_buckets l) key of
        None \<Rightarrow> of_int (lim_burst l)
      | Some b \<Rightarrow> min (of_int (lim_burst l))
                    (fl (bk_tokens b + fl (secs fl (now - bk_seen b) * lim_rate fl l))))"

definition lim_Allow ::
  "(rat \<Rightarrow> rat) \<Rightarrow> time \<Rightarrow> string \<Rightarrow> Limiter \<Rightarrow> (bool \<times> duration) \<times> Limiter" where
  "lim_Allow fl now key l0 =
     (let l = lim_sweep now l0;
          rate = lim_rate fl l0;
          tokens = lim_refill fl now key l
      in if tokens < 1
         then ((False, \<lfloor>fl (fl (fl (1 - tokens) / rate) * of_int Second)\<rfloor>),
               l\<lparr>lim_buckets := fmupd key \<lparr>bk_tokens = tokens, bk_seen = now\<rparr> (lim_buckets l)\<rparr>)
         else ((True, 0),
               l\<lparr>lim_buckets := fmupd key \<lparr>bk_tokens = fl (tokens - 1), bk_seen = now\<rparr> (lim_buckets l)\<rparr>))"

definition lim_Reset :: "string \<Rightarrow> Limiter \<Rightarrow> Limiter" where
  "lim_Reset key l = l\<lparr>lim_buckets := fmdrop key (lim_buckets l)\<rparr>"

definition lim_Len :: "Limiter \<Rightarrow> nat" where
  "lim_Len l = fcard (fmdom (lim_buckets l))"

section \<open>Middleware\<close>

definition ratelimit_ClientIP :: "request \<Rightarrow> bool \<Rightarrow> string" where
  "ratelimit_ClientIP r trustProxy =
     (let fwd = header_Get r ''X-Forwarded-For'';
          ip = trim_space (fst (cut (CHR '','') fwd));
          real = trim_space (header_Get r ''X-Real-Ip'');
          direct = (case split_host_port (req_RemoteAddr r) of
                      None \<Rightarrow> req_RemoteAddr r | Some host \<Rightarrow> host)
      in if trustProxy \<and> fwd \<noteq> [] \<and> ip \<noteq> [] then ip
         else if trustProxy \<and> real \<noteq> [] then real
         else direct)"

text \<open>The number of seconds of the Retry-After header.\<close>

definition retry_after_seconds :: "(rat \<Rightarrow> rat) \<Rightarrow> duration \<Rightarrow> int" where
  "retry_after_seconds fl wait = (let s = \<lceil>secs fl wait\<rceil> in if s < 1 then 1 else s)"

text \<open>The middleware of a configuration with a limiter (without one the constructor panics):
  \<^term>\<open>None\<close> is a call of the next handler.\<close>

definition ratelimit_Middleware ::
  "(rat \<Rightarrow> rat) \<Rightarrow> (request \<Rightarrow> string) option \<Rightarrow> (request \<Rightarrow> response \<Rightarrow> response) option \<Rightarrow> time \<Rightarrow> request \<Rightarrow> response \<Rightarrow> Limiter
     \<Rightarrow> response option \<times> Limiter" where
  "ratelimit_Middleware fl keyFunc onLimited now r w l =
     (let key = (case keyFunc of None \<Rightarrow> ratelimit_ClientIP r False | Some f \<Rightarrow> f r)
      in case lim_Allow fl now key l of
           ((ok, wait), l') \<Rightarrow>
             if ok then (None, l')
             else let w1 = header_Set ''Retry-After'' (format_int (retry_after_seconds fl wait)) w
                  in (Some (case onLimited of
                        None \<Rightarrow> http_Error ''Too many requests. Try again shortly.'' 429 w1
                      | Some h \<Rightarrow> h r w1), l'))"

section \<open>Roundings\<close>

text \<open>What the code relies on of float64: monotone, and exact on integers up to $2^{53}$.\<close>

definition rounding :: "(rat \<Rightarrow> rat) \<Rightarrow> bool" where
  "rounding fl = (mono fl \<and> (\<forall>n. \<bar>n\<bar> \<le> 2 ^ 53 \<longrightarrow> fl (of_int n) = of_int n))"

abbreviation (input) exact :: "rat \<Rightarrow> rat" where "exact \<equiv> (\<lambda>x. x)"

lemma rounding_exact: "rounding exact"
  by (simp add: rounding_def mono_def)

lemma rounding_0 [simp]: "rounding fl \<Longrightarrow> fl 0 = 0"
  unfolding rounding_def by (metis abs_zero of_int_0 zero_le_numeral zero_le_power)

lemma rounding_nonneg: "rounding fl \<Longrightarrow> 0 \<le> x \<Longrightarrow> 0 \<le> fl x"
  using rounding_0 [of fl] unfolding rounding_def mono_def by metis

lemma rounding_le_int: "rounding fl \<Longrightarrow> \<bar>n\<bar> \<le> 2 ^ 53 \<Longrightarrow> x \<le> of_int n \<Longrightarrow> fl x \<le> of_int n"
  unfolding rounding_def mono_def by metis

lemma secs_nonneg:
  assumes "rounding fl" and "0 \<le> d"
  shows "0 \<le> secs fl d"
proof -
  have "0 \<le> d div Second" "0 \<le> d mod Second" using assms(2) by (simp_all add: Second_def)
  then have "0 \<le> fl (of_int (d div Second))" "0 \<le> fl (of_int (d mod Second) / of_int Second)"
    by (simp_all add: rounding_nonneg [OF assms(1)] Second_def)
  then show ?thesis by (simp add: secs_def rounding_nonneg [OF assms(1)])
qed

lemma lim_rate_nonneg:
  assumes "rounding fl" and "1 \<le> lim_limit l" and "0 < lim_window l"
  shows "0 \<le> lim_rate fl l"
  using secs_nonneg [OF assms(1), of "lim_window l"] assms(2,3)
  by (simp add: lim_rate_def rounding_nonneg [OF assms(1)])

lemma secs_exact: "secs exact d = of_int d / of_int Second"
proof -
  have "d = Second * (d div Second) + d mod Second" by simp
  then have "(of_int d :: rat) = of_int Second * of_int (d div Second) + of_int (d mod Second)"
    by (metis of_int_add of_int_mult)
  then show ?thesis by (simp add: secs_def Second_def field_simps)
qed

section \<open>Well-formed limiters\<close>

definition lim_wf :: "Limiter \<Rightarrow> bool" where
  "lim_wf l = (1 \<le> lim_limit l \<and> 0 < lim_window l \<and> 1 \<le> lim_burst l \<and> lim_burst l \<le> 2 ^ 53 \<and>
     (\<forall>k b. fmlookup (lim_buckets l) k = Some b \<longrightarrow>
        0 \<le> bk_tokens b \<and> bk_tokens b \<le> of_int (lim_burst l)))"

definition lim_before :: "time \<Rightarrow> Limiter \<Rightarrow> bool" where
  "lim_before now l = (\<forall>k b. fmlookup (lim_buckets l) k = Some b \<longrightarrow> bk_seen b \<le> now)"

lemma lim_wf_New: "burst \<le> 2 ^ 53 \<Longrightarrow> lim_wf (NewWithBurst limit window burst)"
  by (auto simp: lim_wf_def NewWithBurst_def Minute_def)

lemma lim_sweep_simps [simp]:
  "lim_limit (lim_sweep now l) = lim_limit l" "lim_window (lim_sweep now l) = lim_window l"
  "lim_burst (lim_sweep now l) = lim_burst l" "lim_rate fl (lim_sweep now l) = lim_rate fl l"
  by (simp_all add: lim_sweep_def lim_rate_def)

lemma lim_sweep_lookup:
  "fmlookup (lim_buckets (lim_sweep now l)) k = Some b \<Longrightarrow> fmlookup (lim_buckets l) k = Some b"
  by (auto simp: lim_sweep_def split: if_splits)

lemma lim_wf_sweep: "lim_wf l \<Longrightarrow> lim_wf (lim_sweep now l)"
  unfolding lim_wf_def by (auto dest: lim_sweep_lookup)

lemma lim_before_sweep: "lim_before t l \<Longrightarrow> lim_before t (lim_sweep now l)"
  unfolding lim_before_def by (auto dest: lim_sweep_lookup)

lemma lim_wf_Reset: "lim_wf l \<Longrightarrow> lim_wf (lim_Reset k l)"
  by (auto simp: lim_wf_def lim_Reset_def split: if_splits)

lemma lim_refill_bounds:
  assumes "rounding fl" and "lim_wf l" and "lim_before now l"
  shows "0 \<le> lim_refill fl now key l \<and> lim_refill fl now key l \<le> of_int (lim_burst l)"
proof (cases "fmlookup (lim_buckets l) key")
  case None
  with assms show ?thesis by (simp add: lim_refill_def lim_wf_def)
next
  case (Some b)
  have "0 \<le> secs fl (now - bk_seen b)" "0 \<le> lim_rate fl l"
    using assms Some by (simp_all add: secs_nonneg lim_rate_nonneg lim_before_def lim_wf_def)
  then have "0 \<le> fl (secs fl (now - bk_seen b) * lim_rate fl l)"
    using assms(1) by (simp add: rounding_nonneg)
  moreover have "0 \<le> bk_tokens b" using assms(2) Some by (auto simp: lim_wf_def)
  ultimately have "0 \<le> fl (bk_tokens b + fl (secs fl (now - bk_seen b) * lim_rate fl l))"
    using assms(1) by (simp add: rounding_nonneg)
  with Some assms(2) show ?thesis by (simp add: lim_refill_def lim_wf_def)
qed

lemma lim_Allow_wf:
  assumes "rounding fl" and "lim_wf l" and "lim_before now l"
    and "lim_Allow fl now key l = (res, l')"
  shows "lim_wf l' \<and> lim_before now l'"
proof -
  let ?s = "lim_sweep now l"
  let ?t = "lim_refill fl now key ?s"
  have wf: "lim_wf ?s" and bf: "lim_before now ?s"
    using assms by (simp_all add: lim_wf_sweep lim_before_sweep)
  have t: "0 \<le> ?t" "?t \<le> of_int (lim_burst l)"
    using lim_refill_bounds [OF assms(1) wf bf] by simp_all
  have burst: "\<bar>lim_burst l\<bar> \<le> 2 ^ 53" using assms(2) by (simp add: lim_wf_def)
  have "0 \<le> fl (?t - 1) \<and> fl (?t - 1) \<le> of_int (lim_burst l)" if "\<not> ?t < 1"
    using that t assms(1) rounding_le_int [OF assms(1) burst, of "?t - 1"]
    by (simp add: rounding_nonneg)
  with t assms(4) wf bf show ?thesis
    by (auto simp: lim_Allow_def Let_def lim_wf_def lim_before_def split: if_splits)
qed

section \<open>Runs\<close>

text \<open>Requests arrive at a limiter one after the other, each with its time and key; between them
  a successful login may reset a key.\<close>

datatype lim_event = Ask time string | Clear_Key string

fun lim_step :: "(rat \<Rightarrow> rat) \<Rightarrow> lim_event \<Rightarrow> Limiter \<Rightarrow> bool option \<times> Limiter" where
  "lim_step fl (Ask t k) l = (Some (fst (fst (lim_Allow fl t k l))), snd (lim_Allow fl t k l))"
| "lim_step fl (Clear_Key k) l = (None, lim_Reset k l)"

fun lim_run :: "(rat \<Rightarrow> rat) \<Rightarrow> lim_event list \<Rightarrow> Limiter \<Rightarrow> Limiter" where
  "lim_run fl [] l = l"
| "lim_run fl (e # es) l = lim_run fl es (snd (lim_step fl e l))"

text \<open>How often a key was allowed along a run of requests.\<close>

fun lim_allowed :: "(rat \<Rightarrow> rat) \<Rightarrow> string \<Rightarrow> (time \<times> string) list \<Rightarrow> Limiter \<Rightarrow> nat" where
  "lim_allowed fl key [] l = 0"
| "lim_allowed fl key ((t, k) # es) l =
     (if k = key \<and> fst (fst (lim_Allow fl t k l)) then 1 else 0)
     + lim_allowed fl key es (snd (lim_Allow fl t k l))"

fun event_times :: "lim_event list \<Rightarrow> time list" where
  "event_times [] = []"
| "event_times (Ask t k # es) = t # event_times es"
| "event_times (Clear_Key k # es) = event_times es"

lemma lim_before_mono: "lim_before t l \<Longrightarrow> t \<le> t' \<Longrightarrow> lim_before t' l"
  by (force simp: lim_before_def)

lemma lim_run_wf:
  assumes "rounding fl" and "lim_wf l" and "lim_before t0 l" and "sorted (t0 # event_times es)"
  shows "lim_wf (lim_run fl es l)"
  using assms(2-)
proof (induction es arbitrary: l t0)
  case (Cons e es)
  show ?case
  proof (cases e)
    case (Ask t k)
    with Cons.prems have le: "t0 \<le> t" and s: "sorted (t # event_times es)" by auto
    have "lim_wf (snd (lim_Allow fl t k l)) \<and> lim_before t (snd (lim_Allow fl t k l))"
      by (rule lim_Allow_wf [OF assms(1) Cons.prems(1)])
         (use Cons.prems(2) le lim_before_mono in \<open>auto intro: prod.collapse [symmetric]\<close>)
    then show ?thesis using Ask Cons.IH [OF _ _ s] by simp
  next
    case (Clear_Key k)
    have "lim_before t0 (lim_Reset k l)"
      using Cons.prems(2) by (auto simp: lim_before_def lim_Reset_def split: if_splits)
    with Clear_Key Cons show ?thesis by (simp add: lim_wf_Reset)
  qed
qed simp

section \<open>Exact arithmetic\<close>

lemma lim_rate_exact: "lim_rate exact l = of_int (lim_limit l) * of_int Second / of_int (lim_window l)"
  by (simp add: lim_rate_def secs_exact)

lemma secs_rate_exact:
  "secs exact d * lim_rate exact l = of_int d * of_int (lim_limit l) / of_int (lim_window l)"
  by (simp add: lim_rate_exact secs_exact Second_def)

lemma lim_refill_exact:
  "lim_refill exact now key l =
   (case fmlookup (lim_buckets l) key of
      None \<Rightarrow> of_int (lim_burst l)
    | Some b \<Rightarrow> min (of_int (lim_burst l))
        (bk_tokens b + of_int (now - bk_seen b) * of_int (lim_limit l) / of_int (lim_window l)))"
  by (simp add: lim_refill_def secs_rate_exact split: option.split)

lemma swept_bucket_full:
  fixes w :: int
  assumes "0 < w" and "d > w * 2" and "1 \<le> limit" and "burst \<le> 2 * limit" and "0 \<le> tok"
  shows "(of_int burst :: rat) \<le> tok + of_int d * of_int limit / of_int w"
proof -
  have "burst * w \<le> 2 * limit * w" using assms(1,4) by simp
  also have "\<dots> = (w * 2) * limit" by simp
  also have "\<dots> \<le> d * limit" using assms(2,3) by (intro mult_right_mono) simp_all
  finally have "(of_int (burst * w) :: rat) \<le> of_int (d * limit)" by (simp only: of_int_le_iff)
  then have "(of_int burst :: rat) * of_int w \<le> of_int d * of_int limit" by simp
  then have "(of_int burst :: rat) \<le> of_int d * of_int limit / of_int w"
    using assms(1) by (simp add: pos_le_divide_eq)
  with assms(5) show ?thesis by simp
qed

lemma lim_sweep_cases:
  obtains "fmlookup (lim_buckets (lim_sweep now l)) key = fmlookup (lim_buckets l) key"
  | b where "fmlookup (lim_buckets l) key = Some b" "now - bk_seen b > lim_window l * 2"
      "fmlookup (lim_buckets (lim_sweep now l)) key = None"
proof (cases "now - lim_lastSweep l < lim_window l")
  case True
  then show ?thesis using that(1) by (simp add: lim_sweep_def)
next
  case False
  show ?thesis
  proof (cases "fmlookup (lim_buckets l) key")
    case None
    with False show ?thesis using that(1) by (simp add: lim_sweep_def)
  next
    case (Some b)
    with False show ?thesis
      using that by (cases "now - bk_seen b > lim_window l * 2") (simp_all add: lim_sweep_def)
  qed
qed

lemma lim_refill_cong:
  assumes "fmlookup (lim_buckets l) key = fmlookup (lim_buckets l') key"
    and "lim_limit l = lim_limit l'" "lim_window l = lim_window l'" "lim_burst l = lim_burst l'"
  shows "lim_refill fl now key l = lim_refill fl now key l'"
  using assms by (simp add: lim_refill_def lim_rate_def split: option.split)

lemma lim_refill_sweep:
  assumes "lim_wf l" and "lim_burst l \<le> 2 * lim_limit l"
  shows "lim_refill exact now key (lim_sweep now l) = lim_refill exact now key l"
proof (cases rule: lim_sweep_cases [of now l key])
  case 1
  then show ?thesis by (rule lim_refill_cong) simp_all
next
  case (2 b)
  then have "(of_int (lim_burst l) :: rat) \<le> bk_tokens b
      + of_int (now - bk_seen b) * of_int (lim_limit l) / of_int (lim_window l)"
    using assms by (intro swept_bucket_full) (auto simp: lim_wf_def)
  with 2 show ?thesis by (simp add: lim_refill_exact)
qed

lemma lim_refill_advance:
  assumes "lim_wf l" and "t0 \<le> t"
  shows "lim_refill exact t key l \<le> lim_refill exact t0 key l
     + of_int (t - t0) * of_int (lim_limit l) / of_int (lim_window l)"
proof -
  let ?e = "of_int (t - t0) * of_int (lim_limit l) / of_int (lim_window l) :: rat"
  have e: "0 \<le> ?e" using assms by (simp add: lim_wf_def)
  show ?thesis
  proof (cases "fmlookup (lim_buckets l) key")
    case None
    with e show ?thesis by (simp add: lim_refill_exact)
  next
    case (Some b)
    have "bk_tokens b + of_int (t - bk_seen b) * of_int (lim_limit l) / of_int (lim_window l)
        = (bk_tokens b + of_int (t0 - bk_seen b) * of_int (lim_limit l) / of_int (lim_window l)) + ?e"
      by (simp add: algebra_simps add_divide_distrib diff_divide_distrib)
    with Some e show ?thesis by (simp add: lim_refill_exact min_def)
  qed
qed

text \<open>What a key has left right after it was asked for.\<close>

lemma lim_Allow_refill:
  assumes wf: "lim_wf l" and burst: "lim_burst l \<le> 2 * lim_limit l" and bf: "lim_before t l"
    and r_def: "r = lim_Allow exact t k l"
  shows "lim_refill exact t key (snd r) + (if k = key \<and> fst (fst r) then 1 else 0)
       = lim_refill exact t key l"
proof -
  let ?T = "lim_refill exact t k (lim_sweep t l)"
  have T: "0 \<le> ?T" "?T \<le> of_int (lim_burst l)"
    using lim_refill_bounds [OF rounding_exact lim_wf_sweep [OF wf] lim_before_sweep [OF bf]] by simp_all
  show ?thesis
  proof (cases "k = key")
    case True
    then show ?thesis
      using T lim_refill_sweep [OF wf burst, of t key]
      by (simp add: r_def lim_Allow_def Let_def lim_refill_exact [of _ _ "_\<lparr>lim_buckets := _\<rparr>"])
  next
    case False
    then have "lim_refill exact t key (snd r) = lim_refill exact t key (lim_sweep t l)"
      by (intro lim_refill_cong) (simp_all add: r_def lim_Allow_def Let_def)
    with False show ?thesis using lim_refill_sweep [OF wf burst] by simp
  qed
qed

lemma lim_Allow_params:
  "lim_limit (snd (lim_Allow fl t k l)) = lim_limit l"
  "lim_window (snd (lim_Allow fl t k l)) = lim_window l"
  "lim_burst (snd (lim_Allow fl t k l)) = lim_burst l"
  by (simp_all add: lim_Allow_def Let_def)

lemma lim_burst_step: "lim_burst (snd (lim_step fl e l)) = lim_burst l"
  by (cases e) (simp_all add: lim_Allow_params lim_Reset_def)

lemma lim_burst_run: "lim_burst (lim_run fl es l) = lim_burst l"
  by (induction es arbitrary: l) (simp_all add: lim_burst_step)

lemma lim_allowed_bound:
  assumes "lim_wf l" and "lim_burst l \<le> 2 * lim_limit l" and "lim_before t0 l"
    and "sorted (t0 # map fst es)"
  shows "of_nat (lim_allowed exact key es l) \<le> lim_refill exact t0 key l
     + of_int (last (t0 # map fst es) - t0) * of_int (lim_limit l) / of_int (lim_window l)"
  using assms
proof (induction es arbitrary: l t0)
  case Nil
  then show ?case using lim_refill_bounds [OF rounding_exact] by simp
next
  case (Cons e es)
  obtain t k where e: "e = (t, k)" by fastforce
  from Cons.prems e have le: "t0 \<le> t" and sorted: "sorted (t # map fst es)" by auto
  have bf: "lim_before t l" using Cons.prems(3) le by (rule lim_before_mono)
  define r where "r = lim_Allow exact t k l"
  let ?tl = "last (t # map fst es)"
  let ?c = "of_int (lim_limit l) / of_int (lim_window l) :: rat"
  have wf: "lim_wf (snd r)" "lim_before t (snd r)"
    using lim_Allow_wf [OF rounding_exact Cons.prems(1) bf, of k "fst r" "snd r"]
    by (simp_all add: r_def)
  have "of_nat (lim_allowed exact key es (snd r)) \<le> lim_refill exact t key (snd r)
      + of_int (?tl - t) * of_int (lim_limit (snd r)) / of_int (lim_window (snd r))"
    by (rule Cons.IH [OF wf(1) _ wf(2) sorted])
       (use Cons.prems(2) in \<open>simp add: r_def lim_Allow_params\<close>)
  moreover have "lim_refill exact t key (snd r) + (if k = key \<and> fst (fst r) then 1 else 0)
      = lim_refill exact t key l"
    by (rule lim_Allow_refill [OF Cons.prems(1,2) bf r_def])
  moreover have "lim_refill exact t key l \<le> lim_refill exact t0 key l + of_int (t - t0) * ?c"
    using lim_refill_advance [OF Cons.prems(1) le] by simp
  moreover have "of_nat (lim_allowed exact key (e # es) l)
      = (if k = key \<and> fst (fst r) then 1 else 0) + (of_nat (lim_allowed exact key es (snd r)) :: rat)"
    by (cases "k = key") (simp_all add: e r_def)
  moreover have "of_int (?tl - t0) * ?c = of_int (?tl - t) * ?c + of_int (t - t0) * ?c"
    by (simp only: distrib_right [symmetric] of_int_add [symmetric]) simp
  ultimately show ?case
    by (simp add: e r_def lim_Allow_params)
qed

section \<open>Properties\<close>

text \<open>Bounds of the buckets, for every rounding of the floating-point operations that is
  monotone and exact on integers: however requests and resets follow each other, as long as time
  does not run backwards, every bucket holds between 0 and burst tokens.\<close>

theorem limiter_tokens_bounded:
  assumes "rounding fl" and "burst \<le> 2 ^ 53" and "sorted (event_times es)"
    and "fmlookup (lim_buckets (lim_run fl es (NewWithBurst limit window burst))) k = Some b"
  shows "0 \<le> bk_tokens b \<and> bk_tokens b \<le> of_int (max 1 burst)"
proof -
  let ?l = "NewWithBurst limit window burst"
  obtain t0 where t0: "sorted (t0 # event_times es)"
    using assms(3) by (cases "event_times es") auto
  have "lim_wf (lim_run fl es ?l)"
    by (rule lim_run_wf [OF assms(1) lim_wf_New [OF assms(2)] _ t0])
       (simp add: lim_before_def NewWithBurst_def)
  with assms(4) have "0 \<le> bk_tokens b \<and> bk_tokens b \<le> of_int (lim_burst (lim_run fl es ?l))"
    by (auto simp: lim_wf_def)
  then show ?thesis by (simp add: lim_burst_run NewWithBurst_def max_def split: if_splits)
qed

theorem limiter_tokens_bounded_witness:
  "\<exists>b. fmlookup (lim_buckets (lim_run exact [Ask 7 ''k''] (NewWithBurst 5 Minute 5))) ''k'' = Some b
     \<and> 0 \<le> bk_tokens b \<and> bk_tokens b \<le> of_int (max 1 5)"
proof -
  obtain b where b: "fmlookup (lim_buckets (lim_run exact [Ask 7 ''k''] (NewWithBurst 5 Minute 5)))
      ''k'' = Some b"
    by (cases "lim_refill exact 7 ''k'' (lim_sweep 7 (NewWithBurst 5 Minute 5)) < 1")
       (simp_all add: lim_Allow_def Let_def)
  have "0 \<le> bk_tokens b \<and> bk_tokens b \<le> of_int (max 1 5)"
    by (rule limiter_tokens_bounded [OF rounding_exact _ _ b]) simp_all
  with b show ?thesis by blast
qed



text \<open>Sweeping is invisible when burst is at most twice the limit, as it is for \<^verbatim>\<open>New\<close>: the
  answer to a request, wait included, is the one computed from the bucket as it was before the
  sweep.\<close>

theorem limiter_sweep_invisible:
  assumes "lim_wf l" and "lim_burst l \<le> 2 * lim_limit l"
  shows "fst (lim_Allow exact now key l) =
    (let tokens = lim_refill exact now key l
     in if tokens < 1 then (False, \<lfloor>(1 - tokens) / lim_rate exact l * of_int Second\<rfloor>) else (True, 0))"
  using lim_refill_sweep [OF assms] by (simp add: lim_Allow_def Let_def)

theorem limiter_sweep_invisible_witness:
  "fst (lim_Allow exact 9 ''k'' (NewWithBurst 5 Minute 10)) = (True, 0)"
proof -
  let ?l = "NewWithBurst 5 Minute 10"
  have "lim_wf ?l" by (rule lim_wf_New) simp
  moreover have "lim_burst ?l \<le> 2 * lim_limit ?l" by (simp add: NewWithBurst_def)
  ultimately show ?thesis
    using limiter_sweep_invisible [of ?l 9 "''k''"]
    by (simp add: lim_refill_def NewWithBurst_def Let_def)
qed

text \<open>With a burst of more than twice the limit the sweep is not invisible: a key that has
  spent its burst of 10 at a limit of 1 per minute has, two minutes and a nanosecond later,
  refilled to just over 2 tokens, and the sweep hands it a full burst of 10 again.\<close>

theorem limiter_sweep_refills_large_burst:
  "lim_refill exact (3 * Minute + 1) ''k''
       (lim_run exact (replicate 10 (Ask Minute ''k'')) (NewWithBurst 1 Minute 10)) < 3
   \<and> lim_allowed exact ''k'' (replicate 10 (Minute, ''k'') @ replicate 10 (3 * Minute + 1, ''k''))
       (NewWithBurst 1 Minute 10) = 20"
  by code_simp

text \<open>A refused caller gets in after the advertised wait: if a request of a key is refused
  and the next one of that key arrives later than the seconds of the Retry-After header, it is
  allowed.\<close>

theorem limiter_retry_after_suffices:
  assumes "lim_wf l" and "lim_Allow exact now key l = ((False, wait), l')"
    and "now + retry_after_seconds exact wait * Second < now'"
  shows "fst (lim_Allow exact now' key l') = (True, 0)"
proof -
  define T where "T = lim_refill exact now key (lim_sweep now l)"
  define rate where "rate = lim_rate exact l"
  have p: "1 \<le> lim_limit l" "0 < lim_window l" "1 \<le> lim_burst l" using assms(1) by (simp_all add: lim_wf_def)
  have T: "T < 1" and wait: "wait = \<lfloor>(1 - T) / rate * of_int Second\<rfloor>"
    and l': "l' = (lim_sweep now l)\<lparr>lim_buckets :=
        fmupd key \<lparr>bk_tokens = T, bk_seen = now\<rparr> (lim_buckets (lim_sweep now l))\<rparr>"
    using assms(2) by (auto simp: lim_Allow_def Let_def T_def rate_def split: if_splits)
  have rate: "0 < rate" using p by (simp add: rate_def lim_rate_exact Second_def)
  have "of_int wait / of_int Second \<le> (of_int (retry_after_seconds exact wait) :: rat)"
    using le_of_int_ceiling [of "of_int wait / of_int Second :: rat"]
    by (auto simp: retry_after_seconds_def secs_exact Let_def intro: order_trans)
  then have "(of_int wait :: rat) \<le> of_int (retry_after_seconds exact wait * Second)"
    by (simp add: field_simps Second_def)
  then have "wait \<le> retry_after_seconds exact wait * Second" by (simp only: of_int_le_iff)
  with assms(3) have "wait + 1 \<le> now' - now" by linarith
  then have "(of_int (wait + 1) :: rat) \<le> of_int (now' - now)" by (simp only: of_int_le_iff)
  moreover have "(1 - T) / rate * of_int Second < of_int (wait + 1)"
    unfolding wait using floor_correct [of "(1 - T) / rate * of_int Second"] by simp
  ultimately have "(1 - T) / rate * of_int Second < of_int (now' - now)" by linarith
  then have "1 - T < of_int (now' - now) / of_int Second * rate"
    using rate by (simp add: field_simps Second_def)
  then have enough: "1 \<le> T + secs exact (now' - now) * rate" by (simp add: secs_exact)
  have "1 \<le> lim_refill exact now' key (lim_sweep now' l')"
  proof (cases rule: lim_sweep_cases [of now' l' key])
    case 1
    with enough p show ?thesis
      by (simp add: lim_refill_def l' rate_def lim_rate_def)
  next
    case (2 b)
    with p show ?thesis by (simp add: lim_refill_def l')
  qed
  then show ?thesis by (simp add: lim_Allow_def Let_def)
qed

theorem limiter_retry_after_suffices_witness:
  "\<exists>wait l'. lim_Allow exact 5 ''k'' (snd (lim_Allow exact 5 ''k'' (NewWithBurst 1 Minute 1))) = ((False, wait), l')
     \<and> fst (lim_Allow exact (6 + 60 * Second) ''k'' l') = (True, 0)"
proof -
  let ?l = "snd (lim_Allow exact 5 ''k'' (NewWithBurst 1 Minute 1))"
  have wf: "lim_wf (NewWithBurst 1 Minute 1)" by (rule lim_wf_New) simp
  have "lim_before 5 (NewWithBurst 1 Minute 1)" by (simp add: lim_before_def NewWithBurst_def)
  then have "lim_wf ?l"
    using lim_Allow_wf [OF rounding_exact wf _ prod.collapse [symmetric], of 5 "''k''"] by simp
  moreover have "fst (lim_Allow exact 5 ''k'' ?l) = (False, 60 * Second)" by code_simp
  then obtain l' where a: "lim_Allow exact 5 ''k'' ?l = ((False, 60 * Second), l')"
    by (metis prod.collapse)
  moreover have "5 + retry_after_seconds exact (60 * Second) * Second < 6 + 60 * Second"
    by (simp add: retry_after_seconds_def secs_exact Second_def)
  ultimately have "fst (lim_Allow exact (6 + 60 * Second) ''k'' l') = (True, 0)"
    by (rule limiter_retry_after_suffices)
  with a show ?thesis by blast
qed

text \<open>Without a trusted proxy the key of a caller does not depend on any header: two requests
  from the same address are counted together whatever they claim in X-Forwarded-For.\<close>

theorem client_ip_ignores_headers:
  "ratelimit_ClientIP (r\<lparr>req_Header := h1\<rparr>) False = ratelimit_ClientIP (r\<lparr>req_Header := h2\<rparr>) False"
  by (simp add: ratelimit_ClientIP_def Let_def split: option.split)

end
