(* ===== verification/Queue.thy ===== *)
theory Queue
  imports Strconv "HOL-Library.Product_Lexorder"
begin

text \<open>
  The core of package \<^verbatim>\<open>queue\<close>: jobs and the registry of job types
  (\<^verbatim>\<open>queue/queue.go\<close>), the stored records, the driver interface and the dispatcher
  (\<^verbatim>\<open>queue/driver.go\<close>).  A job type belongs to the application, so its fields are a type
  variable, its optional methods are optional functions of the fields, and the JSON form of its
  fields is given by two parameters, \<open>marshal\<close> and \<open>unmarshal\<close>.  The interface
  \<^verbatim>\<open>Driver\<close> is a record of operations on the driver's own state, and the promises its
  comments make are the locales at the end: the client lemmas are proved there once and each
  driver of the repository interprets them.
\<close>

section \<open>Jobs\<close>

definition queue_Default :: string where "queue_Default = ''default''"

definition DefaultMaxAttempts :: int where "DefaultMaxAttempts = 3"

record 'p Job =
  job_Name :: string
  job_Fields :: 'p
  job_MaxAttempts :: "('p \<Rightarrow> int) option"
  job_Backoff :: "('p \<Rightarrow> int \<Rightarrow> duration) option"
  job_Queue :: "('p \<Rightarrow> string) option"

datatype queue_error =
    Err_NilJob
  | ErrUnknownJob string
  | Err_Encode string
  | Err_Decode string
  | Err_Driver string

definition DefaultBackoff :: "int \<Rightarrow> duration" where
  "DefaultBackoff attempt0 =
     (let attempt = max attempt0 1
      in min (wrap64 (wrap64 (wrap64 (attempt * attempt) * 10) * Second)) (10 * Minute))"

type_synonym 'p job_registry = "(string, 'p Job) fmap"

text \<open>\<^verbatim>\<open>Register\<close>: a factory is what it returns, a job with zero fields; \<^term>\<open>None\<close> is a
  factory that returns nil.  The result is the new registry or the panic.\<close>

definition queue_Register :: "'p Job option \<Rightarrow> 'p job_registry \<Rightarrow> (string, 'p job_registry) result" where
  "queue_Register sample registry =
     (case sample of
        None \<Rightarrow> Inl ''queue: factory returned nil''
      | Some j \<Rightarrow>
          if job_Name j = [] then Inl ''queue: returned an empty Name''
          else if fmlookup registry (job_Name j) \<noteq> None then Inl ''queue: duplicate job name''
          else Inr (fmupd (job_Name j) j registry))"

definition queue_New :: "'p job_registry \<Rightarrow> string \<Rightarrow> (queue_error, 'p Job) result" where
  "queue_New registry name =
     (case fmlookup registry name of None \<Rightarrow> Inl (ErrUnknownJob name) | Some j \<Rightarrow> Inr j)"

definition queue_Registered :: "'p job_registry \<Rightarrow> string list" where
  "queue_Registered registry = sorted_list_of_fset (fmdom registry)"

definition maxAttemptsOf :: "'p Job \<Rightarrow> int" where
  "maxAttemptsOf j =
     (case job_MaxAttempts j of
        None \<Rightarrow> DefaultMaxAttempts
      | Some f \<Rightarrow> (let n = f (job_Fields j) in if n > 0 then n else DefaultMaxAttempts))"

definition backoffOf :: "'p Job \<Rightarrow> int \<Rightarrow> duration" where
  "backoffOf j attempt =
     (case job_Backoff j of None \<Rightarrow> DefaultBackoff attempt | Some b \<Rightarrow> b (job_Fields j) attempt)"

definition queueOf :: "'p Job \<Rightarrow> string" where
  "queueOf j =
     (case job_Queue j of
        None \<Rightarrow> queue_Default
      | Some q \<Rightarrow> (let name = q (job_Fields j) in if name \<noteq> [] then name else queue_Default))"

section \<open>Stored jobs and drivers\<close>

record Record =
  rec_ID :: nat
  rec_Queue :: string
  rec_Name :: string
  rec_Payload :: string
  rec_Attempts :: int
  rec_MaxAttempts :: int
  rec_AvailableAt :: time
  rec_ReservedAt :: "time option"
  rec_LastError :: string
  rec_CreatedAt :: time

record FailedRecord =
  fr_ID :: nat
  fr_Queue :: string
  fr_Name :: string
  fr_Payload :: string
  fr_Attempts :: int
  fr_LastError :: string
  fr_FailedAt :: time

text \<open>The interface \<^verbatim>\<open>Driver\<close>.  Operations that read the clock take the time; a push returns
  the record with the id it got.\<close>

record 'd Driver =
  drv_Push :: "time \<Rightarrow> Record \<Rightarrow> 'd \<Rightarrow> (queue_error, Record) result \<times> 'd"
  drv_Claim :: "time \<Rightarrow> string \<Rightarrow> 'd \<Rightarrow> (queue_error, Record option) result \<times> 'd"
  drv_Complete :: "Record \<Rightarrow> 'd \<Rightarrow> queue_error option \<times> 'd"
  drv_Release :: "Record \<Rightarrow> time \<Rightarrow> string \<Rightarrow> 'd \<Rightarrow> queue_error option \<times> 'd"
  drv_Fail :: "time \<Rightarrow> Record \<Rightarrow> string \<Rightarrow> 'd \<Rightarrow> queue_error option \<times> 'd"
  drv_Pending :: "string \<Rightarrow> 'd \<Rightarrow> (queue_error, nat) result"

section \<open>Dispatching and decoding\<close>

definition DispatchAt ::
  "('p \<Rightarrow> string option) \<Rightarrow> 'd Driver \<Rightarrow> 'p job_registry \<Rightarrow> time \<Rightarrow> 'p Job option \<Rightarrow> time
     \<Rightarrow> 'd \<Rightarrow> queue_error option \<times> 'd" where
  "DispatchAt marshal D registry now job at d =
     (case job of
        None \<Rightarrow> (Some Err_NilJob, d)
      | Some j \<Rightarrow>
          (case queue_New registry (job_Name j) of
             Inl e \<Rightarrow> (Some e, d)
           | Inr _ \<Rightarrow>
               (case marshal (job_Fields j) of
                  None \<Rightarrow> (Some (Err_Encode (job_Name j)), d)
                | Some payload \<Rightarrow>
                    (case drv_Push D now
                       \<lparr>rec_ID = 0, rec_Queue = queueOf j, rec_Name = job_Name j,
                        rec_Payload = payload, rec_Attempts = 0,
                        rec_MaxAttempts = maxAttemptsOf j, rec_AvailableAt = at,
                        rec_ReservedAt = None, rec_LastError = [], rec_CreatedAt = now\<rparr> d of
                       (Inl e, d') \<Rightarrow> (Some e, d') | (Inr _, d') \<Rightarrow> (None, d')))))"

definition Dispatch ::
  "('p \<Rightarrow> string option) \<Rightarrow> 'd Driver \<Rightarrow> 'p job_registry \<Rightarrow> time \<Rightarrow> 'p Job option
     \<Rightarrow> 'd \<Rightarrow> queue_error option \<times> 'd" where
  "Dispatch marshal D registry now job d = DispatchAt marshal D registry now job now d"

definition DispatchIn ::
  "('p \<Rightarrow> string option) \<Rightarrow> 'd Driver \<Rightarrow> 'p job_registry \<Rightarrow> time \<Rightarrow> 'p Job option \<Rightarrow> duration
     \<Rightarrow> 'd \<Rightarrow> queue_error option \<times> 'd" where
  "DispatchIn marshal D registry now job delay d =
     DispatchAt marshal D registry now job (now + delay) d"

definition queue_decode ::
  "(string \<Rightarrow> 'p \<Rightarrow> 'p option) \<Rightarrow> 'p job_registry \<Rightarrow> Record \<Rightarrow> (queue_error, 'p Job) result" where
  "queue_decode unmarshal registry rec =
     (case queue_New registry (rec_Name rec) of
        Inl e \<Rightarrow> Inl e
      | Inr j \<Rightarrow>
          if rec_Payload rec = [] then Inr j
          else (case unmarshal (rec_Payload rec) (job_Fields j) of
                  None \<Rightarrow> Inl (Err_Decode (rec_Name rec))
                | Some v \<Rightarrow> Inr (j\<lparr>job_Fields := v\<rparr>)))"

section \<open>Sequences of driver operations\<close>

text \<open>Whatever workers and dispatchers do, in the order the store sees it.\<close>

datatype drv_event =
    E_Push time Record
  | E_Claim time string
  | E_Complete Record
  | E_Release Record time string
  | E_Fail time Record string

fun drv_step :: "'d Driver \<Rightarrow> drv_event \<Rightarrow> 'd \<Rightarrow> Record option \<times> 'd" where
  "drv_step D (E_Push now r) d = (None, snd (drv_Push D now r d))"
| "drv_step D (E_Claim now q) d =
     (case drv_Claim D now q d of (Inr x, d') \<Rightarrow> (x, d') | (Inl _, d') \<Rightarrow> (None, d'))"
| "drv_step D (E_Complete r) d = (None, snd (drv_Complete D r d))"
| "drv_step D (E_Release r at reason) d = (None, snd (drv_Release D r at reason d))"
| "drv_step D (E_Fail now r reason) d = (None, snd (drv_Fail D now r reason d))"

text \<open>The jobs handed out along a run, each by its queue and its id there.\<close>

fun drv_handed :: "'d Driver \<Rightarrow> drv_event list \<Rightarrow> 'd \<Rightarrow> (string \<times> nat) list" where
  "drv_handed D [] d = []"
| "drv_handed D (e # es) d =
     (case drv_step D e d of
        (None, d') \<Rightarrow> drv_handed D es d'
      | (Some r, d') \<Rightarrow> (rec_Queue r, rec_ID r) # drv_handed D es d')"

text \<open>An event that is no end of job \<open>i\<close>, claims nothing later than \<open>limit\<close> and names only
  records the store knows.\<close>

fun event_within :: "nat \<Rightarrow> time \<Rightarrow> (nat \<Rightarrow> bool) \<Rightarrow> drv_event \<Rightarrow> bool" where
  "event_within i limit known (E_Push now r) = (rec_ID r = 0)"
| "event_within i limit known (E_Claim now q) = (now \<le> limit)"
| "event_within i limit known (E_Complete r) = (rec_ID r \<noteq> i \<and> known (rec_ID r))"
| "event_within i limit known (E_Release r at reason) = (rec_ID r \<noteq> i \<and> known (rec_ID r))"
| "event_within i limit known (E_Fail now r reason) = (rec_ID r \<noteq> i \<and> known (rec_ID r))"

text \<open>Claiming at one time until the driver says there is nothing, at most \<open>n\<close> times.\<close>

fun drv_drain :: "'d Driver \<Rightarrow> time \<Rightarrow> string \<Rightarrow> nat \<Rightarrow> 'd \<Rightarrow> nat list \<times> 'd" where
  "drv_drain D now q 0 d = ([], d)"
| "drv_drain D now q (Suc n) d =
     (case drv_Claim D now q d of
        (Inr (Some r), d') \<Rightarrow> (case drv_drain D now q n d' of (is, d2) \<Rightarrow> (rec_ID r # is, d2))
      | (_, d') \<Rightarrow> ([], d'))"

section \<open>What a driver promises\<close>

text \<open>
  Safety of the interface, in terms of the ids of queue \<open>q\<close> that a claim at time \<open>t\<close> may hand
  out, \<open>claimable d t q\<close>.  A claim hands out one of them, which then cannot be claimed again
  while \<open>hold\<close> lasts; claims, and operations on other jobs, give nobody a second copy; a pushed
  job gets an id that no queued job has.
\<close>

locale queue_driver =
  fixes D :: "'d Driver"
    and inv :: "'d \<Rightarrow> bool"
    and issued :: "'d \<Rightarrow> nat \<Rightarrow> bool"
    and claimable :: "'d \<Rightarrow> time \<Rightarrow> string \<Rightarrow> nat set"
    and hold :: duration
  assumes claimable_issued: "inv d \<Longrightarrow> i \<in> claimable d t q \<Longrightarrow> issued d i"
    and claim_inv: "inv d \<Longrightarrow> drv_Claim D now q d = (cres, d') \<Longrightarrow> inv d' \<and> issued d' = issued d"
    and claim_total: "inv d \<Longrightarrow> \<exists>x d'. drv_Claim D now q d = (Inr x, d')"
    and claim_some: "inv d \<Longrightarrow> drv_Claim D now q d = (Inr (Some r), d') \<Longrightarrow>
          rec_ID r \<in> claimable d now q \<and> rec_Queue r = q
          \<and> claimable d now q - {rec_ID r} \<subseteq> claimable d' now q"
    and claim_hold: "inv d \<Longrightarrow> drv_Claim D now q d = (Inr (Some r), d') \<Longrightarrow>
          t \<le> now + hold \<Longrightarrow> rec_ID r \<notin> claimable d' t q"
    and claim_shrinks: "inv d \<Longrightarrow> drv_Claim D now q d = (cres, d') \<Longrightarrow>
          claimable d' t q' \<subseteq> claimable d t q'"
    and push_inv: "inv d \<Longrightarrow> drv_Push D now r d = (pres, d') \<Longrightarrow>
          inv d' \<and> (\<forall>i. issued d i \<longrightarrow> issued d' i)"
    and push_others: "inv d \<Longrightarrow> drv_Push D now r d = (pres, d') \<Longrightarrow> rec_ID r = 0 \<Longrightarrow> issued d i \<Longrightarrow>
          i \<in> claimable d' t q' \<Longrightarrow> i \<in> claimable d t q'"
    and complete_others: "inv d \<Longrightarrow> issued d (rec_ID r) \<Longrightarrow> drv_Complete D r d = (res, d') \<Longrightarrow>
          inv d' \<and> issued d' = issued d \<and>
          (\<forall>i t q'. i \<noteq> rec_ID r \<longrightarrow> i \<in> claimable d' t q' \<longrightarrow> i \<in> claimable d t q')"
    and release_others: "inv d \<Longrightarrow> issued d (rec_ID r) \<Longrightarrow> drv_Release D r at reason d = (res, d') \<Longrightarrow>
          inv d' \<and> issued d' = issued d \<and>
          (\<forall>i t q'. i \<noteq> rec_ID r \<longrightarrow> i \<in> claimable d' t q' \<longrightarrow> i \<in> claimable d t q')"
    and fail_others: "inv d \<Longrightarrow> issued d (rec_ID r) \<Longrightarrow> drv_Fail D now r reason d = (res, d') \<Longrightarrow>
          inv d' \<and> issued d' = issued d \<and>
          (\<forall>i t q'. i \<noteq> rec_ID r \<longrightarrow> i \<in> claimable d' t q' \<longrightarrow> i \<in> claimable d t q')"

begin

lemma others_keep:
  assumes "inv d' \<and> issued d' = issued d \<and>
      (\<forall>i t q'. i \<noteq> j \<longrightarrow> i \<in> claimable d' t q' \<longrightarrow> i \<in> claimable d t q')"
    and "j \<noteq> i" and "issued d i" and "\<forall>j. known j \<longrightarrow> issued d j"
    and "\<forall>t. t \<le> limit \<longrightarrow> i \<notin> claimable d t qi"
  shows "inv d' \<and> issued d' i \<and> (\<forall>j. known j \<longrightarrow> issued d' j)
    \<and> (\<forall>t. t \<le> limit \<longrightarrow> i \<notin> claimable d' t qi)"
  using assms by metis

lemma step_keeps:
  assumes inv: "inv d" and known: "issued d i" "\<forall>j. known j \<longrightarrow> issued d j"
    and e: "event_within i limit known e" and step: "drv_step D e d = (x, d')"
    and safe: "\<forall>t. t \<le> limit \<longrightarrow> i \<notin> claimable d t qi"
  shows "inv d' \<and> issued d' i \<and> (\<forall>j. known j \<longrightarrow> issued d' j)
    \<and> (\<forall>t. t \<le> limit \<longrightarrow> i \<notin> claimable d' t qi) \<and> (\<forall>r. x = Some r \<longrightarrow> (rec_Queue r, rec_ID r) \<noteq> (qi, i))"
proof (cases e)
  case (E_Push now r)
  obtain pres where p: "drv_Push D now r d = (pres, d')" and x: "x = None"
    using step E_Push by (metis drv_step.simps(1) prod.collapse prod.inject)
  have "\<forall>t. t \<le> limit \<longrightarrow> i \<notin> claimable d' t qi"
    using push_others [OF inv p _ known(1)] safe e E_Push by (metis event_within.simps(1))
  with push_inv [OF inv p] known x show ?thesis by simp
next
  case (E_Claim now q)
  obtain c d1 where c: "drv_Claim D now q d = (Inr c, d1)" using claim_total [OF inv] by blast
  with step E_Claim have eq: "x = c" "d' = d1" by simp_all
  have "(rec_Queue r, rec_ID r) \<noteq> (qi, i)" if "c = Some r" for r
    using claim_some [OF inv c [unfolded that]] safe e E_Claim by auto
  moreover have "inv d1 \<and> issued d1 = issued d" using claim_inv [OF inv c] .
  moreover have "\<forall>t. t \<le> limit \<longrightarrow> i \<notin> claimable d1 t qi" using claim_shrinks [OF inv c] safe by blast
  ultimately show ?thesis using eq known by simp
next
  case (E_Complete r)
  then obtain res where c: "drv_Complete D r d = (res, d')" and x: "x = None"
    using step by (metis drv_step.simps(3) prod.collapse prod.inject)
  have e': "rec_ID r \<noteq> i" "issued d (rec_ID r)" using e E_Complete known(2) by auto
  show ?thesis using others_keep [OF complete_others [OF inv e'(2) c] e'(1) known safe] x by simp
next
  case (E_Release r at reason)
  then obtain res where c: "drv_Release D r at reason d = (res, d')" and x: "x = None"
    using step by (metis drv_step.simps(4) prod.collapse prod.inject)
  have e': "rec_ID r \<noteq> i" "issued d (rec_ID r)" using e E_Release known(2) by auto
  show ?thesis using others_keep [OF release_others [OF inv e'(2) c] e'(1) known safe] x by simp
next
  case (E_Fail now r reason)
  then obtain res where c: "drv_Fail D now r reason d = (res, d')" and x: "x = None"
    using step by (metis drv_step.simps(5) prod.collapse prod.inject)
  have e': "rec_ID r \<noteq> i" "issued d (rec_ID r)" using e E_Fail known(2) by auto
  show ?thesis using others_keep [OF fail_others [OF inv e'(2) c] e'(1) known safe] x by simp
qed

lemma handed_keeps:
  assumes "inv d" and "issued d i" and "\<forall>j. known j \<longrightarrow> issued d j"
    and "\<forall>e \<in> set es. event_within i limit known e"
    and "\<forall>t. t \<le> limit \<longrightarrow> i \<notin> claimable d t qi"
  shows "(qi, i) \<notin> set (drv_handed D es d)"
  using assms
proof (induction es arbitrary: d)
  case (Cons e es)
  obtain x d' where step: "drv_step D e d = (x, d')" by fastforce
  have e: "event_within i limit known e" using Cons.prems(4) by simp
  note k = step_keeps [OF Cons.prems(1,2,3) e step Cons.prems(5)]
  then have "(qi, i) \<notin> set (drv_handed D es d')" using Cons.IH Cons.prems(4) by auto
  with k step show ?case by (cases x) auto
qed simp

lemma exclusive:
  assumes inv: "inv d" and c: "drv_Claim D now q d = (Inr (Some r), d')"
    and es: "\<forall>e \<in> set es. event_within (rec_ID r) (now + hold) (issued d) e"
  shows "(q, rec_ID r) \<notin> set (drv_handed D es d')"
proof (rule handed_keeps [OF _ _ _ es])
  show "inv d'" "\<forall>j. issued d j \<longrightarrow> issued d' j" using claim_inv [OF inv c] by auto
  show "issued d' (rec_ID r)"
    using claim_inv [OF inv c] claim_some [OF inv c] claimable_issued [OF inv] by auto
  show "\<forall>t. t \<le> now + hold \<longrightarrow> rec_ID r \<notin> claimable d' t q"
    using claim_hold [OF inv c] by blast
qed

end

text \<open>A driver that answers nil only when nothing is claimable.\<close>

locale draining_driver = queue_driver +
  assumes hold_nonneg: "0 \<le> hold"
    and finite_claimable: "finite (claimable d t q)"
    and claim_none: "inv d \<Longrightarrow> drv_Claim D now q d = (Inr None, d') \<Longrightarrow> claimable d now q = {}"
begin

lemma claim_removes:
  assumes inv: "inv d" and c: "drv_Claim D now q d = (Inr (Some r), d')"
  shows "rec_ID r \<in> claimable d now q" "claimable d' now q = claimable d now q - {rec_ID r}"
  using claim_some [OF inv c] claim_hold [OF inv c, of now] claim_shrinks [OF inv c, of now q] hold_nonneg
  by auto

lemma drain_all:
  assumes "inv d" and "card (claimable d now q) \<le> n" and "drv_drain D now q n d = (is, d')"
  shows "distinct is \<and> set is = claimable d now q"
  using assms
proof (induction n arbitrary: d d' "is")
  case 0
  then show ?case using finite_claimable by auto
next
  case (Suc n)
  obtain c d1 where c: "drv_Claim D now q d = (Inr c, d1)" using claim_total [OF Suc.prems(1)] by blast
  show ?case
  proof (cases c)
    case None
    with c Suc.prems claim_none show ?thesis by auto
  next
    case (Some r)
    obtain js d2 where js: "drv_drain D now q n d1 = (js, d2)" by fastforce
    note s = claim_removes [OF Suc.prems(1) c [unfolded Some]]
    have "card (claimable d1 now q) \<le> n"
      using s Suc.prems(2) card_Diff_singleton finite_claimable by (simp add: card_Diff_singleton)
    then have "distinct js \<and> set js = claimable d1 now q"
      using Suc.IH [OF _ _ js] claim_inv [OF Suc.prems(1) c] by simp
    moreover have "is = rec_ID r # js" using Suc.prems(3) c Some js by simp
    ultimately show ?thesis using s by auto
  qed
qed

end

end
