(* ===== verification/QueueDB.thy ===== *)
theory QueueDB
  imports Queue
begin

text \<open>
  The database driver, \<^verbatim>\<open>queue/db_driver.go\<close>.  The tables \<^verbatim>\<open>jobs\<close> and
  \<^verbatim>\<open>failed_jobs\<close> are lists of rows with the auto-increment counter of each; a query with a
  WHERE clause is a filter, \<^verbatim>\<open>First\<close> with an ORDER BY is \<^const>\<open>first_by\<close>.  Claim is the
  composition of the SELECT and the guarded UPDATE of its transaction; the two are separate
  definitions so that transactions of several workers can be interleaved between them.
\<close>

record qdb =
  q_jobs :: "Record list"
  q_failed :: "FailedRecord list"
  q_seq :: nat
  q_fseq :: nat

definition ReservationTimeout :: duration where "ReservationTimeout = 15 * Minute"

definition dbq_timeout :: "duration \<Rightarrow> duration" where
  "dbq_timeout Timeout = (if Timeout > 0 then Timeout else ReservationTimeout)"

text \<open>GORM's \<^verbatim>\<open>Create\<close>: a zero key is assigned from the counter, another key must be new.\<close>

definition dbq_Push :: "time \<Rightarrow> Record \<Rightarrow> qdb \<Rightarrow> (queue_error, Record) result \<times> qdb" where
  "dbq_Push now r db =
     (let r1 = (if rec_CreatedAt r = zero_time then r\<lparr>rec_CreatedAt := now\<rparr> else r) in
      if rec_ID r1 = 0
      then let r2 = r1\<lparr>rec_ID := q_seq db + 1\<rparr>
           in (Inr r2, db\<lparr>q_jobs := q_jobs db @ [r2], q_seq := q_seq db + 1\<rparr>)
      else if rec_ID r1 \<in> rec_ID ` set (q_jobs db) then (Inl (Err_Driver ''duplicate key''), db)
      else (Inr r1, db\<lparr>q_jobs := q_jobs db @ [r1], q_seq := max (q_seq db) (rec_ID r1)\<rparr>))"

text \<open>The condition \<^verbatim>\<open>reserved_at IS NULL OR reserved_at < ?\<close>.\<close>

definition unreserved :: "time \<Rightarrow> Record \<Rightarrow> bool" where
  "unreserved staleBefore r = (case rec_ReservedAt r of None \<Rightarrow> True | Some t \<Rightarrow> t < staleBefore)"

definition dbq_due :: "time \<Rightarrow> time \<Rightarrow> string \<Rightarrow> Record \<Rightarrow> bool" where
  "dbq_due now staleBefore queue r =
     (rec_Queue r = queue \<and> rec_AvailableAt r \<le> now \<and> unreserved staleBefore r)"

definition dbq_select :: "time \<Rightarrow> time \<Rightarrow> string \<Rightarrow> qdb \<Rightarrow> Record option" where
  "dbq_select now staleBefore queue db =
     first_by (\<lambda>r. (rec_AvailableAt r, rec_ID r)) (filter (dbq_due now staleBefore queue) (q_jobs db))"

definition dbq_reserve :: "time \<Rightarrow> time \<Rightarrow> Record \<Rightarrow> qdb \<Rightarrow> Record option \<times> qdb" where
  "dbq_reserve now staleBefore r db =
     (let hit = (\<lambda>row. rec_ID row = rec_ID r \<and> unreserved staleBefore row)
      in if list_ex hit (q_jobs db)
         then (Some (r\<lparr>rec_ReservedAt := Some now, rec_Attempts := rec_Attempts r + 1\<rparr>),
               db\<lparr>q_jobs := map (\<lambda>row. if hit row
                    then row\<lparr>rec_ReservedAt := Some now, rec_Attempts := rec_Attempts r + 1\<rparr>
                    else row) (q_jobs db)\<rparr>)
         else (None, db))"

definition dbq_Claim ::
  "duration \<Rightarrow> time \<Rightarrow> string \<Rightarrow> qdb \<Rightarrow> (queue_error, Record option) result \<times> qdb" where
  "dbq_Claim Timeout now queue db =
     (let staleBefore = now - dbq_timeout Timeout
      in case dbq_select now staleBefore queue db of
           None \<Rightarrow> (Inr None, db)
         | Some r \<Rightarrow> (case dbq_reserve now staleBefore r db of (c, db') \<Rightarrow> (Inr c, db')))"

definition dbq_Complete :: "Record \<Rightarrow> qdb \<Rightarrow> queue_error option \<times> qdb" where
  "dbq_Complete r db = (None, db\<lparr>q_jobs := filter (\<lambda>row. rec_ID row \<noteq> rec_ID r) (q_jobs db)\<rparr>)"

definition dbq_Release :: "Record \<Rightarrow> time \<Rightarrow> string \<Rightarrow> qdb \<Rightarrow> queue_error option \<times> qdb" where
  "dbq_Release r at reason db =
     (None, db\<lparr>q_jobs := map (\<lambda>row. if rec_ID row = rec_ID r
        then row\<lparr>rec_ReservedAt := None, rec_AvailableAt := at, rec_LastError := truncate_str reason 4000\<rparr>
        else row) (q_jobs db)\<rparr>)"

definition dbq_Fail :: "time \<Rightarrow> Record \<Rightarrow> string \<Rightarrow> qdb \<Rightarrow> queue_error option \<times> qdb" where
  "dbq_Fail now r reason db =
     (None, db\<lparr>q_failed := q_failed db @
                 [\<lparr>fr_ID = q_fseq db + 1, fr_Queue = rec_Queue r, fr_Name = rec_Name r,
                   fr_Payload = rec_Payload r, fr_Attempts = rec_Attempts r,
                   fr_LastError = truncate_str reason 4000, fr_FailedAt = now\<rparr>],
               q_fseq := q_fseq db + 1,
               q_jobs := filter (\<lambda>row. rec_ID row \<noteq> rec_ID r) (q_jobs db)\<rparr>)"

definition dbq_Pending :: "string \<Rightarrow> qdb \<Rightarrow> (queue_error, nat) result" where
  "dbq_Pending queue db = Inr (length (filter (\<lambda>r. rec_Queue r = queue) (q_jobs db)))"

definition dbq_Failed :: "int \<Rightarrow> qdb \<Rightarrow> FailedRecord list" where
  "dbq_Failed limit db =
     take (nat (if limit \<le> 0 then 50 else limit)) (sort_key (\<lambda>f. - fr_FailedAt f) (q_failed db))"

definition dbq_Retry :: "time \<Rightarrow> nat \<Rightarrow> qdb \<Rightarrow> queue_error option \<times> qdb" where
  "dbq_Retry now i db =
     (case find (\<lambda>f. fr_ID f = i) (q_failed db) of
        None \<Rightarrow> (Some (Err_Driver ''record not found''), db)
      | Some f \<Rightarrow>
          (case dbq_Push now
             \<lparr>rec_ID = 0, rec_Queue = fr_Queue f, rec_Name = fr_Name f, rec_Payload = fr_Payload f,
              rec_Attempts = 0, rec_MaxAttempts = DefaultMaxAttempts, rec_AvailableAt = now,
              rec_ReservedAt = None, rec_LastError = [], rec_CreatedAt = now\<rparr> db of
             (Inl e, _) \<Rightarrow> (Some e, db)
           | (Inr _, db') \<Rightarrow> (None, db'\<lparr>q_failed := filter (\<lambda>f. fr_ID f \<noteq> i) (q_failed db')\<rparr>)))"

definition dbq_Driver :: "duration \<Rightarrow> qdb Driver" where
  "dbq_Driver Timeout =
     \<lparr>drv_Push = dbq_Push, drv_Claim = dbq_Claim Timeout, drv_Complete = dbq_Complete,
      drv_Release = dbq_Release, drv_Fail = dbq_Fail, drv_Pending = dbq_Pending\<rparr>"

definition empty_qdb :: qdb where
  "empty_qdb = \<lparr>q_jobs = [], q_failed = [], q_seq = 0, q_fseq = 0\<rparr>"

section \<open>The driver contract\<close>

definition dbq_inv :: "qdb \<Rightarrow> bool" where
  "dbq_inv db = (distinct (map rec_ID (q_jobs db)) \<and> (\<forall>r \<in> set (q_jobs db). rec_ID r \<le> q_seq db))"

definition dbq_issued :: "qdb \<Rightarrow> nat \<Rightarrow> bool" where
  "dbq_issued db i = (i \<le> q_seq db)"

definition dbq_claimable :: "duration \<Rightarrow> qdb \<Rightarrow> time \<Rightarrow> string \<Rightarrow> nat set" where
  "dbq_claimable Timeout db t q =
     rec_ID ` {r \<in> set (q_jobs db). dbq_due t (t - dbq_timeout Timeout) q r}"

lemma dbq_timeout_pos: "0 < dbq_timeout Timeout"
  by (simp add: dbq_timeout_def ReservationTimeout_def Minute_def)

lemma dbq_select_SomeD:
  "dbq_select now stale q db = Some r \<Longrightarrow> r \<in> set (q_jobs db) \<and> dbq_due now stale q r"
  unfolding dbq_select_def by (drule first_by_SomeD) auto

lemma dbq_select_NoneD:
  "dbq_select now stale q db = None \<Longrightarrow> r \<in> set (q_jobs db) \<Longrightarrow> \<not> dbq_due now stale q r"
  unfolding dbq_select_def by (auto simp: filter_empty_conv)

lemma dbq_row_unique:
  "dbq_inv db \<Longrightarrow> row \<in> set (q_jobs db) \<Longrightarrow> rec_ID row = rec_ID r \<Longrightarrow> r \<in> set (q_jobs db) \<Longrightarrow> row = r"
  by (auto simp: dbq_inv_def distinct_map dest: inj_onD)

text \<open>A claim of one worker alone never loses the row it selected.\<close>

lemma dbq_Claim_cases:
  assumes "dbq_inv db"
  obtains "dbq_Claim Timeout now q db = (Inr None, db)"
      "\<forall>r \<in> set (q_jobs db). \<not> dbq_due now (now - dbq_timeout Timeout) q r"
  | r where "dbq_select now (now - dbq_timeout Timeout) q db = Some r"
      "r \<in> set (q_jobs db)" "dbq_due now (now - dbq_timeout Timeout) q r"
      "dbq_Claim Timeout now q db =
         (Inr (Some (r\<lparr>rec_ReservedAt := Some now, rec_Attempts := rec_Attempts r + 1\<rparr>)),
          db\<lparr>q_jobs := map (\<lambda>row. if rec_ID row = rec_ID r
             then row\<lparr>rec_ReservedAt := Some now, rec_Attempts := rec_Attempts r + 1\<rparr> else row)
             (q_jobs db)\<rparr>)"
proof (cases "dbq_select now (now - dbq_timeout Timeout) q db")
  case None
  then show thesis using that(1) dbq_select_NoneD by (auto simp: dbq_Claim_def Let_def)
next
  case (Some r)
  let ?stale = "now - dbq_timeout Timeout"
  note r = dbq_select_SomeD [OF Some]
  have "row = r" if "row \<in> set (q_jobs db)" "rec_ID row = rec_ID r" for row
    using that dbq_row_unique [OF assms] r by blast
  then have upd: "map (\<lambda>row. if rec_ID row = rec_ID r \<and> unreserved ?stale row
        then row\<lparr>rec_ReservedAt := Some now, rec_Attempts := rec_Attempts r + 1\<rparr> else row) (q_jobs db)
      = map (\<lambda>row. if rec_ID row = rec_ID r
        then row\<lparr>rec_ReservedAt := Some now, rec_Attempts := rec_Attempts r + 1\<rparr> else row) (q_jobs db)"
    using r by (intro map_cong) (auto simp: dbq_due_def)
  have hit: "list_ex (\<lambda>row. rec_ID row = rec_ID r \<and> unreserved ?stale row) (q_jobs db)"
    using r by (auto simp: list_ex_iff dbq_due_def)
  show thesis
    by (rule that(2) [OF Some]) (use r in \<open>simp_all add: dbq_Claim_def dbq_reserve_def Let_def Some hit upd\<close>)
qed

lemma dbq_claimable_map:
  assumes "dbq_inv db" and "r \<in> set (q_jobs db)" and "\<forall>row. rec_ID (f row) = rec_ID row"
    and "\<not> dbq_due t (t - dbq_timeout Timeout) q (f r)"
  shows "dbq_claimable Timeout (db\<lparr>q_jobs := map (\<lambda>row. if rec_ID row = rec_ID r then f row else row)
           (q_jobs db)\<rparr>) t q = dbq_claimable Timeout db t q - {rec_ID r}"
proof -
  have "row = r" if "row \<in> set (q_jobs db)" "rec_ID row = rec_ID r" for row
    using that dbq_row_unique [OF assms(1)] assms(2) by blast
  with assms(3,4) show ?thesis by (auto simp: dbq_claimable_def image_iff split: if_splits)
qed

lemma dbq_inv_map:
  assumes "\<forall>row. rec_ID (f row) = rec_ID row"
  shows "dbq_inv (db\<lparr>q_jobs := map f (q_jobs db)\<rparr>) = dbq_inv db"
proof -
  have "rec_ID \<circ> f = rec_ID" using assms by auto
  with assms show ?thesis by (auto simp: dbq_inv_def)
qed

lemma dbq_inv_filter: "dbq_inv db \<Longrightarrow> dbq_inv (db\<lparr>q_jobs := filter P (q_jobs db)\<rparr>)"
  by (auto simp: dbq_inv_def distinct_map_filterI)

lemma dbq_Claim_inv:
  assumes inv: "dbq_inv d" and c: "dbq_Claim Timeout now q d = (cres, d')"
  shows "dbq_inv d' \<and> dbq_issued d' = dbq_issued d"
  using c inv by (cases rule: dbq_Claim_cases [OF inv, of Timeout now q])
    (auto simp: dbq_inv_map dbq_issued_def)

lemma dbq_Claim_shrinks:
  assumes inv: "dbq_inv d" and c: "dbq_Claim Timeout now q d = (cres, d')"
  shows "dbq_claimable Timeout d' t q' \<subseteq> dbq_claimable Timeout d t q'"
proof (cases rule: dbq_Claim_cases [OF inv, of Timeout now q])
  case 1
  with c show ?thesis by simp
next
  case (2 r)
  let ?f = "\<lambda>row. row\<lparr>rec_ReservedAt := Some now, rec_Attempts := rec_Attempts r + 1\<rparr>"
  have eq: "row = r" if "row \<in> set (q_jobs d)" "rec_ID row = rec_ID r" for row
    using that 2(2) by (rule dbq_row_unique [OF inv])
  have due: "dbq_due t (t - dbq_timeout Timeout) q' r" if "dbq_due t (t - dbq_timeout Timeout) q' (?f r)"
    using that 2(3) dbq_timeout_pos [of Timeout]
    by (auto simp: dbq_due_def unreserved_def split: option.splits)
  show ?thesis
  proof
    fix i assume "i \<in> dbq_claimable Timeout d' t q'"
    then obtain x where x: "x \<in> set (q_jobs d)" "i = rec_ID x"
      "dbq_due t (t - dbq_timeout Timeout) q' (if rec_ID x = rec_ID r then ?f x else x)"
      using c 2(4) by (auto simp: dbq_claimable_def split: if_splits)
    then have "dbq_due t (t - dbq_timeout Timeout) q' x"
      using eq [of x] due by (cases "rec_ID x = rec_ID r") auto
    with x show "i \<in> dbq_claimable Timeout d t q'" by (auto simp: dbq_claimable_def)
  qed
qed

lemma dbq_Claim_None:
  assumes inv: "dbq_inv d" and c: "dbq_Claim Timeout now q d = (Inr None, d')"
  shows "dbq_claimable Timeout d now q = {}"
  using c by (cases rule: dbq_Claim_cases [OF inv, of Timeout now q]) (auto simp: dbq_claimable_def)

lemma dbq_Claim_Some:
  assumes inv: "dbq_inv d" and c: "dbq_Claim Timeout now q d = (Inr (Some r), d')"
  shows "rec_ID r \<in> dbq_claimable Timeout d now q" "rec_Queue r = q"
    "t \<le> now + dbq_timeout Timeout \<Longrightarrow>
       dbq_claimable Timeout d' t q' = dbq_claimable Timeout d t q' - {rec_ID r}"
proof -
  let ?f = "\<lambda>row. row\<lparr>rec_ReservedAt := Some now, rec_Attempts := rec_Attempts r\<rparr>"
  obtain r0 where r0: "r0 \<in> set (q_jobs d)" "dbq_due now (now - dbq_timeout Timeout) q r0"
    and r: "r = r0\<lparr>rec_ReservedAt := Some now, rec_Attempts := rec_Attempts r0 + 1\<rparr>"
    and d': "d' = d\<lparr>q_jobs := map (\<lambda>row. if rec_ID row = rec_ID r0 then ?f row else row) (q_jobs d)\<rparr>"
    using c by (cases rule: dbq_Claim_cases [OF inv, of Timeout now q]) auto
  show "rec_ID r \<in> dbq_claimable Timeout d now q" "rec_Queue r = q"
    using r0 by (auto simp: r dbq_claimable_def dbq_due_def)
  show "dbq_claimable Timeout d' t q' = dbq_claimable Timeout d t q' - {rec_ID r}"
    if "t \<le> now + dbq_timeout Timeout"
    unfolding d' using dbq_claimable_map [OF inv r0(1), of ?f] that
    by (simp add: r dbq_due_def unreserved_def)
qed

lemma dbq_Push_inv:
  assumes "dbq_inv d" and "dbq_Push now r d = (pres, d')"
  shows "dbq_inv d' \<and> (\<forall>i. dbq_issued d i \<longrightarrow> dbq_issued d' i)"
  using assms
  by (fastforce simp: dbq_Push_def Let_def dbq_inv_def dbq_issued_def split: if_splits)

lemma dbq_Push_others:
  assumes "dbq_Push now r d = (pres, d')" and "rec_ID r = 0" and "dbq_issued d i"
    and "i \<in> dbq_claimable Timeout d' t q"
  shows "i \<in> dbq_claimable Timeout d t q"
  using assms
  by (auto simp: dbq_Push_def Let_def dbq_claimable_def dbq_issued_def split: if_splits)

lemma dbq_delete_others:
  assumes "dbq_inv d" and "q_jobs d' = filter (\<lambda>row. rec_ID row \<noteq> rec_ID r) (q_jobs d)"
    and "q_seq d' = q_seq d"
  shows "dbq_inv d' \<and> dbq_issued d' = dbq_issued d \<and>
    (\<forall>i t q. i \<noteq> rec_ID r \<longrightarrow> i \<in> dbq_claimable Timeout d' t q \<longrightarrow> i \<in> dbq_claimable Timeout d t q)"
  using assms by (auto simp: dbq_inv_def dbq_issued_def dbq_claimable_def distinct_map_filterI)

lemma dbq_Release_others:
  assumes "dbq_inv d" and "dbq_Release r at reason d = (eres, d')"
  shows "dbq_inv d' \<and> dbq_issued d' = dbq_issued d \<and>
    (\<forall>i t q. i \<noteq> rec_ID r \<longrightarrow> i \<in> dbq_claimable Timeout d' t q \<longrightarrow> i \<in> dbq_claimable Timeout d t q)"
  using assms
  by (auto simp: dbq_Release_def dbq_inv_map dbq_issued_def dbq_claimable_def split: if_splits)

text \<open>The database driver keeps the contract: it hands out one of the claimable rows, holds it for
  its timeout, and says there is nothing only when there is nothing.\<close>

interpretation dbq: draining_driver "dbq_Driver Timeout" dbq_inv dbq_issued "dbq_claimable Timeout"
    "dbq_timeout Timeout"
proof (unfold_locales, unfold dbq_Driver_def Driver.simps, goal_cases)
  case (1 d i t q)
  then show ?case by (auto simp: dbq_claimable_def dbq_inv_def dbq_issued_def)
next
  case (2 d now q cres d')
  then show ?case by (rule dbq_Claim_inv)
next
  case (3 d now q)
  then show ?case by (rule dbq_Claim_cases) blast+
next
  case (4 d now q r d')
  then show ?case using dbq_Claim_Some [OF 4] dbq_timeout_pos [of Timeout] by simp
next
  case (5 d now q r d' t)
  then show ?case using dbq_Claim_Some(3) by simp
next
  case (6 d now q cres d' t q')
  then show ?case by (rule dbq_Claim_shrinks)
next
  case (7 d now r pres d')
  then show ?case by (rule dbq_Push_inv)
next
  case (8 d now r pres d' i t q')
  from 8(2-) show ?case by (rule dbq_Push_others)
next
  case (9 d r res d')
  from 9(1) show ?case
    by (rule dbq_delete_others) (use 9(3) in \<open>auto simp: dbq_Complete_def\<close>)
next
  case (10 d r at reason res d')
  from 10(1,3) show ?case by (rule dbq_Release_others)
next
  case (11 d r now reason res d')
  from 11(1) show ?case
    by (rule dbq_delete_others) (use 11(3) in \<open>auto simp: dbq_Fail_def\<close>)
next
  case 12
  show ?case using dbq_timeout_pos [of Timeout] by simp
next
  case (13 d t q)
  show ?case by (simp add: dbq_claimable_def)
next
  case (14 d now q d')
  then show ?case by (rule dbq_Claim_None)
qed

section \<open>Racing transactions\<close>

text \<open>
  Several workers run the transaction of Claim at once, each SELECT and each UPDATE seeing the
  rows as they are at that moment (read committed).  A worker has nothing, has selected a row, or
  holds a job.
\<close>

datatype claim_phase = Ready | Selected time Record | Holding Record

type_synonym race_state = "qdb \<times> (nat \<Rightarrow> claim_phase)"

inductive race_step :: "duration \<Rightarrow> time \<Rightarrow> time \<Rightarrow> race_state \<Rightarrow> race_state \<Rightarrow> bool"
  for Timeout :: duration and t0 :: time and t1 :: time where
  select: "\<lbrakk> ph w = Ready; t0 \<le> now; now \<le> t1;
      dbq_select now (now - dbq_timeout Timeout) q db = Some r \<rbrakk>
    \<Longrightarrow> race_step Timeout t0 t1 (db, ph) (db, ph(w := Selected now r))"
| reserve: "\<lbrakk> ph w = Selected now r;
      dbq_reserve now (now - dbq_timeout Timeout) r db = (Some r', db') \<rbrakk>
    \<Longrightarrow> race_step Timeout t0 t1 (db, ph) (db', ph(w := Holding r'))"
| lost: "\<lbrakk> ph w = Selected now r;
      dbq_reserve now (now - dbq_timeout Timeout) r db = (None, db') \<rbrakk>
    \<Longrightarrow> race_step Timeout t0 t1 (db, ph) (db', ph(w := Ready))"
| push: "dbq_Push now r db = (res, db') \<Longrightarrow> rec_ID r = 0 \<Longrightarrow> race_step Timeout t0 t1 (db, ph) (db', ph)"

definition race_inv :: "duration \<Rightarrow> time \<Rightarrow> time \<Rightarrow> race_state \<Rightarrow> bool" where
  "race_inv Timeout t0 t1 s = (case s of (db, ph) \<Rightarrow>
     dbq_inv db
     \<and> (\<forall>w now r. ph w = Selected now r \<longrightarrow> t0 \<le> now \<and> now \<le> t1 \<and> rec_ID r \<le> q_seq db)
     \<and> (\<forall>w r. ph w = Holding r \<longrightarrow> rec_ID r \<le> q_seq db \<and>
          (\<forall>row \<in> set (q_jobs db). rec_ID row = rec_ID r \<longrightarrow> \<not> unreserved t0 row))
     \<and> (\<forall>w w' r r'. ph w = Holding r \<longrightarrow> ph w' = Holding r' \<longrightarrow> rec_ID r = rec_ID r' \<longrightarrow> w = w'))"

lemma unreserved_mono: "unreserved s r \<Longrightarrow> s \<le> s' \<Longrightarrow> unreserved s' r"
  by (auto simp: unreserved_def split: option.splits)

lemma dbq_reserve_SomeD:
  assumes "dbq_reserve now stale r db = (Some r', db')"
  shows "rec_ID r' = rec_ID r" "q_seq db' = q_seq db" "map rec_ID (q_jobs db') = map rec_ID (q_jobs db)"
    "\<exists>row \<in> set (q_jobs db). rec_ID row = rec_ID r \<and> unreserved stale row"
    "\<And>row. row \<in> set (q_jobs db') \<Longrightarrow> row \<in> set (q_jobs db) \<and> (rec_ID row = rec_ID r \<longrightarrow> \<not> unreserved stale row)
       \<or> rec_ID row = rec_ID r \<and> rec_ReservedAt row = Some now"
  using assms by (auto simp: dbq_reserve_def Let_def list_ex_iff split: if_splits)

lemma dbq_reserve_NoneD: "dbq_reserve now stale r db = (None, db') \<Longrightarrow> db' = db"
  by (auto simp: dbq_reserve_def Let_def split: if_splits)

lemma race_inv_reserve:
  assumes inv: "race_inv Timeout t0 t1 (db, ph)" and t1: "t1 \<le> t0 + dbq_timeout Timeout"
    and w: "ph w = Selected now r"
    and res: "dbq_reserve now (now - dbq_timeout Timeout) r db = (Some r', db')"
  shows "race_inv Timeout t0 t1 (db', ph(w := Holding r'))"
proof -
  let ?stale = "now - dbq_timeout Timeout"
  note R = dbq_reserve_SomeD [OF res]
  have now: "t0 \<le> now" "now \<le> t1" and seq: "rec_ID r \<le> q_seq db"
    using inv w by (auto simp: race_inv_def)
  have stale: "?stale \<le> t0" using now t1 by simp
  have others: "rec_ID h \<noteq> rec_ID r" if "ph v = Holding h" for v h
    using that inv R(4) unreserved_mono [OF _ stale] by (fastforce simp: race_inv_def)
  have ids: "rec_ID ` set (q_jobs db') = rec_ID ` set (q_jobs db)"
    using R(3) by (metis set_map)
  have dinv: "dbq_inv db'"
  proof -
    have "\<forall>i \<in> rec_ID ` set (q_jobs db). i \<le> q_seq db" "distinct (map rec_ID (q_jobs db))"
      using inv by (auto simp: race_inv_def dbq_inv_def)
    then have "\<forall>i \<in> rec_ID ` set (q_jobs db'). i \<le> q_seq db'" "distinct (map rec_ID (q_jobs db'))"
      by (simp_all only: ids R(2,3))
    then show ?thesis by (simp add: dbq_inv_def)
  qed
  have fresh: "\<not> unreserved t0 row" if row: "row \<in> set (q_jobs db')" "rec_ID row = rec_ID r" for row
  proof -
    obtain hit where hit: "hit \<in> set (q_jobs db)" "rec_ID hit = rec_ID r" "unreserved ?stale hit"
      using R(4) by blast
    have "rec_ReservedAt row = Some now"
      using R(5) [OF row(1)] row(2) hit dbq_row_unique [of db row hit] inv by (auto simp: race_inv_def)
    with now show ?thesis by (simp add: unreserved_def)
  qed
  have keep: "\<not> unreserved t0 row"
    if "ph v = Holding h" "row \<in> set (q_jobs db')" "rec_ID row = rec_ID h" for v h row
    using R(5) [OF that(2)] that inv others [OF that(1)] by (auto simp: race_inv_def)
  show ?thesis
    unfolding race_inv_def
    using inv dinv fresh keep R(1,2) seq by (auto simp: race_inv_def dest: others)
qed

lemma race_inv_push:
  assumes "race_inv Timeout t0 t1 (db, ph)" and "dbq_Push now r db = (res, db')" and "rec_ID r = 0"
  shows "race_inv Timeout t0 t1 (db', ph)"
proof -
  have "dbq_inv db'" using dbq_Push_inv assms by (auto simp: race_inv_def)
  moreover obtain r' where "q_jobs db' = q_jobs db @ [r']" "rec_ID r' = q_seq db + 1" "q_seq db' = q_seq db + 1"
    using assms(2,3) by (auto simp: dbq_Push_def Let_def split: if_splits)
  ultimately show ?thesis using assms(1) by (fastforce simp: race_inv_def)
qed

lemma race_inv_select:
  assumes "race_inv Timeout t0 t1 (db, ph)" and "dbq_select now stale q db = Some r"
    and "t0 \<le> now" and "now \<le> t1"
  shows "race_inv Timeout t0 t1 (db, ph(w := Selected now r))"
proof -
  have "rec_ID r \<le> q_seq db"
    using dbq_select_SomeD [OF assms(2)] assms(1) by (auto simp: race_inv_def dbq_inv_def)
  with assms show ?thesis by (auto simp: race_inv_def)
qed

lemma race_inv_lost:
  assumes "race_inv Timeout t0 t1 (db, ph)" and "dbq_reserve now stale r db = (None, db')"
  shows "race_inv Timeout t0 t1 (db', ph(w := Ready))"
  using assms dbq_reserve_NoneD [OF assms(2)] by (auto simp: race_inv_def)

lemma race_inv_step:
  assumes "race_step Timeout t0 t1 s s'" and "race_inv Timeout t0 t1 s"
    and "t1 \<le> t0 + dbq_timeout Timeout"
  shows "race_inv Timeout t0 t1 s'"
  using assms
  by (cases rule: race_step.cases)
     (auto intro: race_inv_select race_inv_reserve race_inv_lost race_inv_push)

lemma race_inv_reachable:
  assumes "(race_step Timeout t0 t1)\<^sup>*\<^sup>* s s'" and "race_inv Timeout t0 t1 s"
    and "t1 \<le> t0 + dbq_timeout Timeout"
  shows "race_inv Timeout t0 t1 s'"
  using assms(1,2)
proof (induction rule: rtranclp_induct)
  case (step s1 s2)
  then show ?case using race_inv_step assms(3) by blast
qed simp

section \<open>Properties\<close>

text \<open>Claim takes the oldest due job: it answers nil, changing nothing, only when no row of the
  queue is due and free; otherwise it takes the due and free row that comes first by availability
  and then id, stamps it reserved now with one more attempt, and changes no other row.\<close>

theorem dbq_claim_takes_oldest_due:
  assumes "dbq_inv db"
  shows "case dbq_Claim Timeout now q db of
      (Inr None, db') \<Rightarrow> db' = db \<and> (\<forall>r \<in> set (q_jobs db). \<not> dbq_due now (now - dbq_timeout Timeout) q r)
    | (Inr (Some c), db') \<Rightarrow>
        (\<exists>r \<in> set (q_jobs db). dbq_due now (now - dbq_timeout Timeout) q r
           \<and> (\<forall>r' \<in> set (q_jobs db). dbq_due now (now - dbq_timeout Timeout) q r' \<longrightarrow>
                (rec_AvailableAt r, rec_ID r) \<le> (rec_AvailableAt r', rec_ID r'))
           \<and> c = r\<lparr>rec_ReservedAt := Some now, rec_Attempts := rec_Attempts r + 1\<rparr>
           \<and> db' = db\<lparr>q_jobs := map (\<lambda>row. if rec_ID row = rec_ID r then c else row) (q_jobs db)\<rparr>)
    | _ \<Rightarrow> False"
proof (cases rule: dbq_Claim_cases [OF assms, of Timeout now q])
  case 1
  then show ?thesis by simp
next
  case (2 r)
  have upd: "map (\<lambda>row. if rec_ID row = rec_ID r
        then row\<lparr>rec_ReservedAt := Some now, rec_Attempts := rec_Attempts r + 1\<rparr> else row) (q_jobs db)
      = map (\<lambda>row. if rec_ID row = rec_ID r
        then r\<lparr>rec_ReservedAt := Some now, rec_Attempts := rec_Attempts r + 1\<rparr> else row) (q_jobs db)"
    using dbq_row_unique [OF assms _ _ 2(2)] by (intro map_cong) auto
  have oldest: "\<forall>r' \<in> set (q_jobs db). dbq_due now (now - dbq_timeout Timeout) q r' \<longrightarrow>
      (rec_AvailableAt r, rec_ID r) \<le> (rec_AvailableAt r', rec_ID r')"
    using first_by_SomeD [OF 2(1) [unfolded dbq_select_def]] by simp
  show ?thesis
    unfolding 2(4) upd prod.case sum.case option.case
    by (rule bexI [OF _ 2(2)]) (use 2(3) oldest in blast)
qed

definition sample_record :: "time \<Rightarrow> Record" where
  "sample_record at =
     \<lparr>rec_ID = 0, rec_Queue = ''default'', rec_Name = ''mail'', rec_Payload = ''{}'', rec_Attempts = 0,
      rec_MaxAttempts = 3, rec_AvailableAt = at, rec_ReservedAt = None, rec_LastError = [],
      rec_CreatedAt = 1\<rparr>"

definition sample_qdb :: qdb where
  "sample_qdb = snd (dbq_Push 5 (sample_record 3) (snd (dbq_Push 5 (sample_record 4) empty_qdb)))"

lemma sample_qdb_eq:
  "sample_qdb = \<lparr>q_jobs = [(sample_record 4)\<lparr>rec_ID := 1\<rparr>, (sample_record 3)\<lparr>rec_ID := 2\<rparr>],
     q_failed = [], q_seq = 2, q_fseq = 0\<rparr>"
  by (simp add: sample_qdb_def dbq_Push_def empty_qdb_def sample_record_def Let_def zero_time_def)

lemma sample_qdb_inv: "dbq_inv sample_qdb"
  by (simp add: sample_qdb_eq dbq_inv_def)

lemma sample_qdb_claim:
  "dbq_Claim 0 7 ''default'' sample_qdb =
     (Inr (Some ((sample_record 3)\<lparr>rec_ID := 2, rec_ReservedAt := Some 7, rec_Attempts := 1\<rparr>)),
      \<lparr>q_jobs = [(sample_record 4)\<lparr>rec_ID := 1\<rparr>,
         (sample_record 3)\<lparr>rec_ID := 2, rec_ReservedAt := Some 7, rec_Attempts := 1\<rparr>],
       q_failed = [], q_seq = 2, q_fseq = 0\<rparr>)"
  by (simp add: sample_qdb_eq dbq_Claim_def dbq_select_def dbq_reserve_def dbq_due_def unreserved_def
      sample_record_def first_by_def Let_def)

theorem dbq_claim_takes_oldest_due_witness:
  "\<exists>r \<in> set (q_jobs sample_qdb). dbq_due 7 (7 - dbq_timeout 0) ''default'' r
     \<and> (\<forall>r' \<in> set (q_jobs sample_qdb). dbq_due 7 (7 - dbq_timeout 0) ''default'' r' \<longrightarrow>
          (rec_AvailableAt r, rec_ID r) \<le> (rec_AvailableAt r', rec_ID r'))"
  using dbq_claim_takes_oldest_due [OF sample_qdb_inv, where Timeout = 0 and now = 7 and q = "''default''"]
  unfolding sample_qdb_claim prod.case sum.case option.case by blast

text \<open>C1. Exactly one worker: once a claim has handed a job out, no sequence of pushes, claims at times
  within the reservation timeout, and completions, releases and failures of other jobs hands
  the same job out again.\<close>

theorem dbq_claim_exclusive:
  assumes "dbq_inv db" and "dbq_Claim Timeout now q db = (Inr (Some r), db')"
    and "\<forall>e \<in> set es. event_within (rec_ID r) (now + dbq_timeout Timeout) (dbq_issued db) e"
  shows "(q, rec_ID r) \<notin> set (drv_handed (dbq_Driver Timeout) es db')"
  using dbq.exclusive [of db Timeout now q r db' es] assms by (simp add: dbq_Driver_def)

theorem dbq_claim_exclusive_witness:
  "(''default'', 2) \<notin> set (drv_handed (dbq_Driver 0)
     [E_Claim 8 ''default'', E_Push 9 (sample_record 1), E_Claim 9 ''default'', E_Claim (10 * Minute) ''default'']
     (snd (dbq_Claim 0 7 ''default'' sample_qdb)))"
  using dbq_claim_exclusive [OF sample_qdb_inv sample_qdb_claim,
      of "[E_Claim 8 ''default'', E_Push 9 (sample_record 1), E_Claim 9 ''default'', E_Claim (10 * Minute) ''default'']"]
  by (simp add: sample_record_def dbq_timeout_def ReservationTimeout_def Minute_def sample_qdb_claim)

text \<open>C3. Nothing due is left behind: a worker that keeps claiming at one time until it is told there
  is nothing gets every due job of the queue that is free or whose reservation has lapsed, the
  jobs of workers that died included, each exactly once.\<close>

theorem dbq_drain_hands_out_every_due_job:
  assumes "dbq_inv db" and "length (q_jobs db) \<le> n"
    and "drv_drain (dbq_Driver Timeout) now q n db = (is, db')"
  shows "distinct is \<and>
    set is = rec_ID ` {r \<in> set (q_jobs db). rec_Queue r = q \<and> rec_AvailableAt r \<le> now \<and>
      (case rec_ReservedAt r of None \<Rightarrow> True | Some t \<Rightarrow> t + dbq_timeout Timeout < now)}"
proof -
  have "card (dbq_claimable Timeout db now q) \<le> card (rec_ID ` set (q_jobs db))"
    by (rule card_mono) (auto simp: dbq_claimable_def)
  also have "\<dots> \<le> n"
    using assms(2) card_image_le [of "set (q_jobs db)" rec_ID] card_length [of "q_jobs db"] by simp
  finally have "distinct is \<and> set is = dbq_claimable Timeout db now q"
    using dbq.drain_all [OF assms(1) _ assms(3)] by simp
  moreover have "dbq_due now (now - dbq_timeout Timeout) q r \<longleftrightarrow> rec_Queue r = q \<and> rec_AvailableAt r \<le> now \<and>
      (case rec_ReservedAt r of None \<Rightarrow> True | Some t \<Rightarrow> t + dbq_timeout Timeout < now)" for r
    by (auto simp: dbq_due_def unreserved_def split: option.splits)
  ultimately show ?thesis by (simp add: dbq_claimable_def)
qed

theorem dbq_drain_hands_out_every_due_job_witness:
  "\<exists>is db'. drv_drain (dbq_Driver 0) 7 ''default'' 2 sample_qdb = (is, db') \<and> set is = {1, 2}"
proof -
  obtain "is" db' where d: "drv_drain (dbq_Driver 0) 7 ''default'' 2 sample_qdb = (is, db')" by fastforce
  have "length (q_jobs sample_qdb) \<le> 2" by (simp add: sample_qdb_eq)
  from conjunct2 [OF dbq_drain_hands_out_every_due_job [OF sample_qdb_inv this d]]
  have "set is = set (map rec_ID (filter (\<lambda>r. rec_Queue r = ''default'' \<and> rec_AvailableAt r \<le> 7 \<and>
      (case rec_ReservedAt r of None \<Rightarrow> True | Some t \<Rightarrow> t + dbq_timeout 0 < 7)) (q_jobs sample_qdb)))"
    by (simp only: set_map set_filter)
  also have "\<dots> = {1, 2}" by (simp add: sample_qdb_eq sample_record_def)
  finally have "set is = {1, 2}" .
  with d show ?thesis by blast
qed

text \<open>C2. Two workers racing produce one winner: whatever the interleaving of the SELECT and UPDATE
  statements of any number of workers whose transactions start within one reservation timeout of
  each other, no two workers hold the same job.\<close>

theorem dbq_race_one_winner:
  assumes "dbq_inv db" and "t1 \<le> t0 + dbq_timeout Timeout"
    and "(race_step Timeout t0 t1)\<^sup>*\<^sup>* (db, \<lambda>_. Ready) (db', ph)"
    and "ph w = Holding r" and "ph w' = Holding r'" and "rec_ID r = rec_ID r'"
  shows "w = w'"
proof -
  have "race_inv Timeout t0 t1 (db, \<lambda>_. Ready)" using assms(1) by (simp add: race_inv_def)
  from race_inv_reachable [OF assms(3) this assms(2)] assms(4-) show ?thesis
    unfolding race_inv_def by auto
qed

theorem dbq_race_one_winner_witness:
  "\<exists>db' ph. (race_step 0 7 9)\<^sup>*\<^sup>* (sample_qdb, \<lambda>_. Ready) (db', ph) \<and> (\<exists>r. ph 0 = Holding r)
     \<and> (\<forall>w r r'. ph w = Holding r \<longrightarrow> ph 0 = Holding r' \<longrightarrow> rec_ID r = rec_ID r' \<longrightarrow> w = 0)"
proof -
  let ?r = "(sample_record 3)\<lparr>rec_ID := 2\<rparr>"
  let ?p1 = "(\<lambda>_. Ready)(0 := Selected 7 ?r)"
  let ?p2 = "?p1(1 := Selected 8 ?r)"
  let ?db = "snd (dbq_Claim 0 7 ''default'' sample_qdb)"
  have sel: "dbq_select t (t - dbq_timeout 0) ''default'' sample_qdb = Some ?r" if "4 \<le> t" for t
    using that by (simp add: dbq_select_def dbq_due_def unreserved_def sample_qdb_eq sample_record_def first_by_def)
  have res: "dbq_reserve 7 (7 - dbq_timeout 0) ?r sample_qdb = (Some (?r\<lparr>rec_ReservedAt := Some 7, rec_Attempts := 1\<rparr>), ?db)"
    unfolding sample_qdb_claim snd_conv
    by (simp add: dbq_reserve_def sample_qdb_eq unreserved_def sample_record_def)
  have s1: "race_step 0 7 9 (sample_qdb, \<lambda>_. Ready) (sample_qdb, ?p1)"
    by (rule race_step.select [where q = "''default''"]) (simp_all add: sel)
  have s2: "race_step 0 7 9 (sample_qdb, ?p1) (sample_qdb, ?p2)"
    by (rule race_step.select [where q = "''default''"]) (simp_all add: sel)
  have s3: "race_step 0 7 9 (sample_qdb, ?p2) (?db, ?p2(0 := Holding (?r\<lparr>rec_ReservedAt := Some 7, rec_Attempts := 1\<rparr>)))"
    by (rule race_step.reserve [OF _ res]) simp
  have run: "(race_step 0 7 9)\<^sup>*\<^sup>* (sample_qdb, \<lambda>_. Ready)
      (?db, ?p2(0 := Holding (?r\<lparr>rec_ReservedAt := Some 7, rec_Attempts := 1\<rparr>)))"
    using s1 s2 s3 by (meson rtranclp.rtrancl_into_rtrancl rtranclp.rtrancl_refl)
  have "(9::int) \<le> 7 + dbq_timeout 0" by (simp add: dbq_timeout_def ReservationTimeout_def Minute_def)
  note one = dbq_race_one_winner [OF sample_qdb_inv this run]
  show ?thesis
    by (rule exI, rule exI, rule conjI [OF run], intro conjI allI impI)
       (rule exI, rule fun_upd_same, erule (2) one)
qed

text \<open>A failed job is neither lost nor duplicated: Fail removes the claimed job from the queue and
  records its queue, name, payload and attempts with the reason cut to 4000 bytes; a Retry of
  that record takes it off the failed list again and queues the same work once, with no attempts
  spent and the default attempt limit, whatever limit the job had.\<close>

theorem dbq_fail_then_retry:
  assumes "dbq_inv db" and "\<forall>f \<in> set (q_failed db). fr_ID f \<le> q_fseq db" and "now' \<noteq> zero_time"
    and "dbq_Fail now r reason db = (None, db1)"
    and "dbq_Retry now' (q_fseq db + 1) db1 = (e, db2)"
  shows "rec_ID r \<notin> rec_ID ` set (q_jobs db1)
    \<and> q_failed db1 = q_failed db @
        [\<lparr>fr_ID = q_fseq db + 1, fr_Queue = rec_Queue r, fr_Name = rec_Name r, fr_Payload = rec_Payload r,
          fr_Attempts = rec_Attempts r, fr_LastError = take 4000 reason, fr_FailedAt = now\<rparr>]
    \<and> e = None \<and> q_failed db2 = q_failed db
    \<and> q_jobs db2 = filter (\<lambda>row. rec_ID row \<noteq> rec_ID r) (q_jobs db) @
        [\<lparr>rec_ID = q_seq db + 1, rec_Queue = rec_Queue r, rec_Name = rec_Name r,
          rec_Payload = rec_Payload r, rec_Attempts = 0, rec_MaxAttempts = DefaultMaxAttempts,
          rec_AvailableAt = now', rec_ReservedAt = None, rec_LastError = [], rec_CreatedAt = now'\<rparr>]"
proof -
  let ?f = "\<lparr>fr_ID = q_fseq db + 1, fr_Queue = rec_Queue r, fr_Name = rec_Name r, fr_Payload = rec_Payload r,
          fr_Attempts = rec_Attempts r, fr_LastError = truncate_str reason 4000, fr_FailedAt = now\<rparr>"
  have db1: "q_failed db1 = q_failed db @ [?f]" "q_seq db1 = q_seq db"
    "q_jobs db1 = filter (\<lambda>row. rec_ID row \<noteq> rec_ID r) (q_jobs db)"
    using assms(4) by (auto simp: dbq_Fail_def)
  have old: "fr_ID f \<noteq> Suc (q_fseq db)" if "f \<in> set (q_failed db)" for f
    using assms(2) that by fastforce
  then have "find (\<lambda>f. fr_ID f = Suc (q_fseq db)) (q_failed db @ [?f]) = Some ?f"
    by (intro find_snoc_new) simp_all
  moreover have "filter (\<lambda>f. fr_ID f \<noteq> Suc (q_fseq db)) (q_failed db) = q_failed db"
    using old by (simp add: filter_id_set)
  ultimately have "e = None \<and> q_failed db2 = q_failed db \<and> q_jobs db2 = q_jobs db1 @
        [\<lparr>rec_ID = q_seq db + 1, rec_Queue = rec_Queue r, rec_Name = rec_Name r,
          rec_Payload = rec_Payload r, rec_Attempts = 0, rec_MaxAttempts = DefaultMaxAttempts,
          rec_AvailableAt = now', rec_ReservedAt = None, rec_LastError = [], rec_CreatedAt = now'\<rparr>]"
    using assms(3,5) by (clarsimp simp: dbq_Retry_def dbq_Push_def Let_def db1)
  moreover have "rec_ID r \<notin> rec_ID ` set (q_jobs db1)" by (auto simp: db1)
  ultimately show ?thesis by (simp add: db1 truncate_str_def)
qed

theorem dbq_fail_then_retry_witness:
  "\<exists>db1 e db2. dbq_Fail 8 ((sample_record 3)\<lparr>rec_ID := 2\<rparr>) ''boom'' sample_qdb = (None, db1)
     \<and> dbq_Retry 9 (q_fseq sample_qdb + 1) db1 = (e, db2) \<and> e = None
     \<and> rec_ID ` set (q_jobs db2) = {1, 3} \<and> q_failed db2 = []"
proof -
  let ?r = "(sample_record 3)\<lparr>rec_ID := 2\<rparr>"
  obtain db1 where f: "dbq_Fail 8 ?r ''boom'' sample_qdb = (None, db1)" by (simp add: dbq_Fail_def)
  obtain e db2 where r: "dbq_Retry 9 (q_fseq sample_qdb + 1) db1 = (e, db2)" by fastforce
  have "\<forall>x \<in> set (q_failed sample_qdb). fr_ID x \<le> q_fseq sample_qdb" "(9::int) \<noteq> zero_time"
    by (simp_all add: sample_qdb_eq zero_time_def)
  note facts = dbq_fail_then_retry [OF sample_qdb_inv this f r]
  then have "rec_ID ` set (q_jobs db2) = {1, 3}" "q_failed db2 = []"
    by (simp_all add: sample_qdb_eq sample_record_def)
  with f r facts show ?thesis by blast
qed


end
