(* ===== verification/Worker.thy ===== *)
theory Worker
  imports QueueDB
begin

text \<open>
  The worker of \<^verbatim>\<open>queue/worker.go\<close>.  Running a job is the application's code: its outcome, an
  error, a panic or success, is a parameter of each processing step.  \<^verbatim>\<open>process\<close> is a function
  on the driver's state; the loop of \<^verbatim>\<open>Run\<close> with its goroutines is a step relation on the jobs in
  flight, the record just claimed, and whether the context was cancelled.
\<close>

datatype run_result = Run_Ok | Run_Error string | Run_Panic string

definition worker_run :: "('p Job \<Rightarrow> run_result) \<Rightarrow> string \<Rightarrow> 'p Job \<Rightarrow> string option" where
  "worker_run exec stack job =
     (case exec job of
        Run_Ok \<Rightarrow> None
      | Run_Error e \<Rightarrow> Some e
      | Run_Panic p \<Rightarrow> Some (''panic: '' @ p @ [CHR 0x0A] @ stack))"

text \<open>The text of an error of this package, as \<^verbatim>\<open>Error()\<close> gives it; the detail of a JSON error is
  not kept.\<close>

fun error_text :: "queue_error \<Rightarrow> string" where
  "error_text Err_NilJob = ''queue: cannot dispatch a nil job''"
| "error_text (ErrUnknownJob name) = ''queue: unknown job: '' @ name"
| "error_text (Err_Encode name) = ''queue: encode '' @ name"
| "error_text (Err_Decode name) = ''queue: decode '' @ name"
| "error_text (Err_Driver msg) = msg"

text \<open>What became of a job, for the log and for the theorems below.\<close>

datatype job_outcome = Undecodable | Done | Failed_For_Good | Retry_At time

definition worker_process ::
  "(string \<Rightarrow> 'p \<Rightarrow> 'p option) \<Rightarrow> 'p job_registry \<Rightarrow> 'd Driver \<Rightarrow> ('p Job \<Rightarrow> run_result) \<Rightarrow> string
     \<Rightarrow> time \<Rightarrow> Record \<Rightarrow> 'd \<Rightarrow> job_outcome \<times> 'd" where
  "worker_process unmarshal registry D exec stack now rec d =
     (case queue_decode unmarshal registry rec of
        Inl err \<Rightarrow> (Undecodable, snd (drv_Fail D now rec (error_text err) d))
      | Inr job \<Rightarrow>
          (case worker_run exec stack job of
             None \<Rightarrow> (Done, snd (drv_Complete D rec d))
           | Some err \<Rightarrow>
               if rec_Attempts rec \<ge> rec_MaxAttempts rec
               then (Failed_For_Good, snd (drv_Fail D now rec err d))
               else let retryAt = now + backoffOf job (rec_Attempts rec)
                    in (Retry_At retryAt, snd (drv_Release D rec retryAt err d))))"

section \<open>The loop\<close>

record Worker =
  wk_Queue :: string
  wk_Concurrency :: int
  wk_PollInterval :: duration
  wk_ShutdownTimeout :: duration

definition wk_queue :: "Worker \<Rightarrow> string" where
  "wk_queue w = (if wk_Queue w = [] then queue_Default else wk_Queue w)"

definition wk_slots :: "Worker \<Rightarrow> nat" where
  "wk_slots w = nat (if wk_Concurrency w < 1 then 1 else wk_Concurrency w)"

definition wk_poll :: "Worker \<Rightarrow> duration" where
  "wk_poll w = (if wk_PollInterval w \<le> 0 then Second else wk_PollInterval w)"

definition wk_timeout :: "Worker \<Rightarrow> duration" where
  "wk_timeout w = (if wk_ShutdownTimeout w \<le> 0 then 30 * Second else wk_ShutdownTimeout w)"

text \<open>Where the loop is: at its top, sleeping, waiting for a slot with a claimed job, waiting for
  the jobs in flight after the context was cancelled, or returned.\<close>

datatype loop_at = Top | Sleeping | Want_Slot Record | Draining | Returned bool

record 'd wk_state =
  ws_at :: loop_at
  ws_flight :: "Record list"
  ws_cancelled :: bool
  ws_driver :: 'd

text \<open>One step of the loop, of a goroutine that runs a job, or of the context.  \<open>fin\<close> says what
  processing a record does to the driver: \<^const>\<open>worker_process\<close> with some outcome of the job.\<close>

inductive wk_step :: "Worker \<Rightarrow> 'd Driver \<Rightarrow> (Record \<Rightarrow> 'd \<Rightarrow> 'd \<Rightarrow> bool) \<Rightarrow> 'd wk_state \<Rightarrow> 'd wk_state \<Rightarrow> bool"
  for w :: Worker and D :: "'d Driver" and fin :: "Record \<Rightarrow> 'd \<Rightarrow> 'd \<Rightarrow> bool" where
  cancel: "wk_step w D fin s (s\<lparr>ws_cancelled := True\<rparr>)"
| stop: "ws_at s = Top \<Longrightarrow> ws_cancelled s \<Longrightarrow> wk_step w D fin s (s\<lparr>ws_at := Draining\<rparr>)"
| stopped: "ws_at s = Draining \<Longrightarrow> ws_flight s = [] \<Longrightarrow> wk_step w D fin s (s\<lparr>ws_at := Returned True\<rparr>)"
| timed_out: "ws_at s = Draining \<Longrightarrow> wk_step w D fin s (s\<lparr>ws_at := Returned False\<rparr>)"
| claimed: "ws_at s = Top \<Longrightarrow> \<not> ws_cancelled s \<Longrightarrow>
    drv_Claim D now (wk_queue w) (ws_driver s) = (Inr (Some r), d') \<Longrightarrow>
    wk_step w D fin s (s\<lparr>ws_at := Want_Slot r, ws_driver := d'\<rparr>)"
| nothing: "ws_at s = Top \<Longrightarrow> \<not> ws_cancelled s \<Longrightarrow>
    drv_Claim D now (wk_queue w) (ws_driver s) = (Inr None, d') \<Longrightarrow>
    wk_step w D fin s (s\<lparr>ws_at := Sleeping, ws_driver := d'\<rparr>)"
| claim_error: "ws_at s = Top \<Longrightarrow> \<not> ws_cancelled s \<Longrightarrow> wk_step w D fin s (s\<lparr>ws_at := Sleeping\<rparr>)"
| wake: "ws_at s = Sleeping \<Longrightarrow> wk_step w D fin s (s\<lparr>ws_at := Top\<rparr>)"
| start: "ws_at s = Want_Slot r \<Longrightarrow> length (ws_flight s) < wk_slots w \<Longrightarrow>
    wk_step w D fin s (s\<lparr>ws_at := Top, ws_flight := ws_flight s @ [r]\<rparr>)"
| hand_back: "ws_at s = Want_Slot r \<Longrightarrow> ws_cancelled s \<Longrightarrow>
    drv_Release D r now ''worker shutting down'' (ws_driver s) = (e, d') \<Longrightarrow>
    wk_step w D fin s (s\<lparr>ws_at := Top, ws_driver := d'\<rparr>)"
| finish: "ws_flight s = xs @ r # ys \<Longrightarrow> fin r (ws_driver s) d' \<Longrightarrow>
    wk_step w D fin s (s\<lparr>ws_flight := xs @ ys, ws_driver := d'\<rparr>)"

definition wk_init :: "'d \<Rightarrow> 'd wk_state" where
  "wk_init d = \<lparr>ws_at = Top, ws_flight = [], ws_cancelled = False, ws_driver = d\<rparr>"

text \<open>Everything the worker is responsible for.\<close>

definition wk_held :: "'d wk_state \<Rightarrow> Record list" where
  "wk_held s = (case ws_at s of Want_Slot r \<Rightarrow> [r] | _ \<Rightarrow> []) @ ws_flight s"

lemma wk_flight_bound:
  assumes "(wk_step w D fin)\<^sup>*\<^sup>* (wk_init d) s"
  shows "length (ws_flight s) \<le> wk_slots w \<and> (ws_at s = Returned True \<longrightarrow> ws_flight s = [])
    \<and> ((ws_at s = Draining \<or> (\<exists>b. ws_at s = Returned b)) \<longrightarrow> ws_cancelled s)"
  using assms
proof (induction rule: rtranclp_induct)
  case base
  then show ?case by (simp add: wk_init_def)
next
  case (step s s')
  from step.hyps(2) step.IH show ?case
    by (cases rule: wk_step.cases) (auto simp: Suc_le_eq)
qed

section \<open>One round: a claim and what becomes of it\<close>

definition worker_round ::
  "(string \<Rightarrow> 'p \<Rightarrow> 'p option) \<Rightarrow> 'p job_registry \<Rightarrow> duration \<Rightarrow> ('p Job \<Rightarrow> run_result) \<Rightarrow> string
     \<Rightarrow> string \<Rightarrow> qdb \<Rightarrow> time \<Rightarrow> qdb" where
  "worker_round unmarshal registry Timeout exec stack q db now =
     (case dbq_Claim Timeout now q db of
        (Inr (Some rec), db') \<Rightarrow>
          snd (worker_process unmarshal registry (dbq_Driver Timeout) exec stack now rec db')
      | (_, db') \<Rightarrow> db')"

lemma queue_decode_cong:
  "rec_Name r = rec_Name r' \<Longrightarrow> rec_Payload r = rec_Payload r' \<Longrightarrow>
   queue_decode unmarshal registry r = queue_decode unmarshal registry r'"
  by (simp add: queue_decode_def split: sum.split option.split)

lemma dbq_Claim_single:
  assumes "q_jobs db = [r]" and "rec_Queue r = q" and "rec_AvailableAt r \<le> now" and "rec_ReservedAt r = None"
  shows "dbq_Claim Timeout now q db =
    (Inr (Some (r\<lparr>rec_ReservedAt := Some now, rec_Attempts := rec_Attempts r + 1\<rparr>)),
     db\<lparr>q_jobs := [r\<lparr>rec_ReservedAt := Some now, rec_Attempts := rec_Attempts r + 1\<rparr>]\<rparr>)"
  using assms
  by (simp add: dbq_Claim_def dbq_select_def dbq_reserve_def dbq_due_def unreserved_def first_by_def Let_def)

lemma worker_round_failing:
  assumes "q_jobs db = [r]" and "rec_Queue r = q" and "rec_AvailableAt r \<le> now" and "rec_ReservedAt r = None"
    and dec: "queue_decode unmarshal registry r = Inr job" and err: "worker_run exec stack job = Some e"
  shows "worker_round unmarshal registry Timeout exec stack q db now =
    (if rec_Attempts r + 1 < rec_MaxAttempts r
     then db\<lparr>q_jobs := [r\<lparr>rec_Attempts := rec_Attempts r + 1, rec_LastError := truncate_str e 4000,
                  rec_AvailableAt := now + backoffOf job (rec_Attempts r + 1)\<rparr>]\<rparr>
     else db\<lparr>q_jobs := [], q_fseq := q_fseq db + 1, q_failed := q_failed db @
            [\<lparr>fr_ID = q_fseq db + 1, fr_Queue = q, fr_Name = rec_Name r, fr_Payload = rec_Payload r,
              fr_Attempts = rec_Attempts r + 1, fr_LastError = truncate_str e 4000, fr_FailedAt = now\<rparr>]\<rparr>)"
proof -
  let ?c = "r\<lparr>rec_ReservedAt := Some now, rec_Attempts := rec_Attempts r + 1\<rparr>"
  have "queue_decode unmarshal registry ?c = Inr job"
    using dec queue_decode_cong [of ?c r unmarshal registry] by simp
  with assms show ?thesis
    by (simp add: worker_round_def dbq_Claim_single worker_process_def Let_def dbq_Driver_def
        dbq_Fail_def dbq_Release_def)
qed

lemma worker_round_failing_times:
  assumes jobs: "q_jobs db = [r]" and r: "rec_Queue r = q" "rec_AvailableAt r \<le> ts ! 0" "rec_ReservedAt r = None"
      "rec_Attempts r = 0"
    and dec: "queue_decode unmarshal registry r = Inr job" and err: "worker_run exec stack job = Some e"
    and spaced: "\<forall>k. Suc k < length ts \<longrightarrow> ts ! k + backoffOf job (int k + 1) \<le> ts ! Suc k"
    and k: "k \<le> length ts" "int k < rec_MaxAttempts r"
  shows "\<exists>r'. foldl (worker_round unmarshal registry Timeout exec stack q) db (take k ts) = db\<lparr>q_jobs := [r']\<rparr>
    \<and> rec_Queue r' = q \<and> rec_Name r' = rec_Name r \<and> rec_Payload r' = rec_Payload r
    \<and> rec_MaxAttempts r' = rec_MaxAttempts r \<and> rec_ReservedAt r' = None \<and> rec_Attempts r' = int k
    \<and> (k < length ts \<longrightarrow> rec_AvailableAt r' \<le> ts ! k)"
  using k
proof (induction k)
  case 0
  have "db = db\<lparr>q_jobs := [r]\<rparr>" using jobs by (cases db) simp
  with r show ?case by (intro exI [of _ r]) simp
next
  case (Suc k)
  then obtain r' where IH: "foldl (worker_round unmarshal registry Timeout exec stack q) db (take k ts) = db\<lparr>q_jobs := [r']\<rparr>"
    and r': "rec_Queue r' = q" "rec_Name r' = rec_Name r" "rec_Payload r' = rec_Payload r"
      "rec_MaxAttempts r' = rec_MaxAttempts r" "rec_ReservedAt r' = None" "rec_Attempts r' = int k"
      "rec_AvailableAt r' \<le> ts ! k" by auto
  have dec': "queue_decode unmarshal registry r' = Inr job"
    using dec r' queue_decode_cong [of r' r unmarshal registry] by simp
  have "take (Suc k) ts = take k ts @ [ts ! k]" using Suc.prems by (simp add: take_Suc_conv_app_nth)
  with IH r' Suc.prems spaced
  show ?case
    by (intro exI [of _ "r'\<lparr>rec_Attempts := rec_Attempts r' + 1, rec_LastError := truncate_str e 4000,
          rec_AvailableAt := ts ! k + backoffOf job (rec_Attempts r' + 1)\<rparr>"])
       (simp add: worker_round_failing [of _ r' q "ts ! k", OF _ _ _ _ dec' err] algebra_simps)
qed

section \<open>A sample application\<close>

definition sample_job :: "string Job" where
  "sample_job = \<lparr>job_Name = ''mail'', job_Fields = [], job_MaxAttempts = Some (\<lambda>_. 2), job_Backoff = None,
     job_Queue = None\<rparr>"

definition sample_registry :: "string job_registry" where
  "sample_registry = fmupd ''mail'' sample_job fmempty"

definition sample_marshal :: "string \<Rightarrow> string option" where
  "sample_marshal x = Some (CHR ''!'' # x)"

definition sample_unmarshal :: "string \<Rightarrow> string \<Rightarrow> string option" where
  "sample_unmarshal s z = Some (tl s)"

definition sample_row :: Record where
  "sample_row = \<lparr>rec_ID = 1, rec_Queue = ''default'', rec_Name = ''mail'', rec_Payload = ''!ann'',
     rec_Attempts = 0, rec_MaxAttempts = 2, rec_AvailableAt = 4, rec_ReservedAt = None,
     rec_LastError = [], rec_CreatedAt = 4\<rparr>"

lemmas sample_app = sample_job_def sample_registry_def sample_marshal_def sample_unmarshal_def sample_row_def

section \<open>Properties\<close>



text \<open>Dispatching is faithful: a job of a registered type that is dispatched reaches the queue it
  chose, once, with its attempt limit and its time, and a worker that decodes the stored row gets
  the job back with the fields it had.\<close>

theorem dispatch_decode_roundtrip:
  assumes "fmlookup registry (job_Name z) = Some z" and "j = z\<lparr>job_Fields := x\<rparr>"
    and "marshal x = Some payload" and "payload \<noteq> []" and "unmarshal payload (job_Fields z) = Some x"
    and "now \<noteq> zero_time"
  shows "\<exists>r. DispatchAt marshal (dbq_Driver Timeout) registry now (Some j) at db =
      (None, db\<lparr>q_jobs := q_jobs db @ [r], q_seq := q_seq db + 1\<rparr>)
    \<and> queue_decode unmarshal registry r = Inr j
    \<and> rec_Queue r = queueOf j \<and> rec_AvailableAt r = at \<and> rec_Attempts r = 0
    \<and> rec_MaxAttempts r = maxAttemptsOf j \<and> 0 < rec_MaxAttempts r \<and> rec_Queue r \<noteq> []"
proof -
  have "0 < maxAttemptsOf j" by (simp add: maxAttemptsOf_def DefaultMaxAttempts_def Let_def split: option.split)
  moreover have "queueOf j \<noteq> []" by (simp add: queueOf_def queue_Default_def Let_def split: option.split)
  ultimately show ?thesis
    using assms
    by (intro exI [of _ "\<lparr>rec_ID = q_seq db + 1, rec_Queue = queueOf j, rec_Name = job_Name z,
          rec_Payload = payload, rec_Attempts = 0, rec_MaxAttempts = maxAttemptsOf j,
          rec_AvailableAt = at, rec_ReservedAt = None, rec_LastError = [], rec_CreatedAt = now\<rparr>"])
       (simp add: DispatchAt_def queue_New_def dbq_Driver_def dbq_Push_def Let_def queue_decode_def)
qed

theorem dispatch_decode_roundtrip_witness:
  "\<exists>r. DispatchAt sample_marshal (dbq_Driver 0) sample_registry 9 (Some (sample_job\<lparr>job_Fields := ''bob''\<rparr>)) 11 empty_qdb
       = (None, empty_qdb\<lparr>q_jobs := [r], q_seq := 1\<rparr>)
     \<and> queue_decode sample_unmarshal sample_registry r = Inr (sample_job\<lparr>job_Fields := ''bob''\<rparr>)"
proof -
  have reg: "fmlookup sample_registry (job_Name sample_job) = Some sample_job"
    and m: "sample_marshal ''bob'' = Some ''!bob''"
    and u: "sample_unmarshal ''!bob'' (job_Fields sample_job) = Some ''bob''"
    by (simp_all add: sample_app)
  show ?thesis
    using dispatch_decode_roundtrip [where registry = sample_registry and z = sample_job
        and marshal = sample_marshal and unmarshal = sample_unmarshal and x = "''bob''"
        and payload = "''!bob''" and now = 9 and Timeout = 0 and at = 11 and db = empty_qdb, OF reg refl m _ u]
    by (auto simp: empty_qdb_def zero_time_def)
qed

text \<open>The backoff before a retry: for up to 30370 attempts it is ten seconds times the square of
  the attempt, capped at ten minutes, as Go's 64-bit arithmetic does not overflow there; at
  attempt 30371 the product wraps around and the delay is negative.\<close>

theorem default_backoff_quadratic:
  "(n \<le> 30370 \<longrightarrow> DefaultBackoff n = min (max n 1 * max n 1 * 10 * Second) (10 * Minute))
   \<and> DefaultBackoff 30371 < 0"
proof -
  have "DefaultBackoff n = min (max n 1 * max n 1 * 10 * Second) (10 * Minute)" if "n \<le> 30370"
  proof -
    define m where "m = max n 1"
    have m: "1 \<le> m" "m \<le> 30370" using that by (simp_all add: m_def)
    then have "m * m \<le> 30370 * 30370" by (intro mult_mono) simp_all
    moreover have "0 \<le> m * m" by simp
    moreover have "wrap64 (k * c) = k * c" if "0 \<le> k" "k \<le> 922336900" "0 \<le> c" "c \<le> 10000000000" for k c
    proof -
      define p where "p = k * c"
      have "0 \<le> p" using that by (simp add: p_def)
      moreover have "p \<le> 922336900 * 10000000000" unfolding p_def using that by (intro mult_mono) simp_all
      ultimately have "wrap64 p = p" by (intro wrap64_id) simp_all
      then show ?thesis by (simp add: p_def)
    qed
    note this [of "m * m" 1] this [of "m * m" 10] this [of "m * m" "10 * Second"]
    ultimately have "wrap64 (m * m) = m * m" "wrap64 (m * m * 10) = m * m * 10"
      "wrap64 (m * m * 10 * Second) = m * m * 10 * Second"
      by (simp_all add: Second_def mult.assoc)
    then show ?thesis by (simp add: DefaultBackoff_def Let_def m_def [symmetric])
  qed
  moreover have "DefaultBackoff 30371 < 0"
    by (simp add: DefaultBackoff_def wrap64_def Second_def Minute_def)
  ultimately show ?thesis by blast
qed

theorem default_backoff_quadratic_witness:
  "DefaultBackoff 2 = 40 * Second \<and> DefaultBackoff 9 = 10 * Minute"
  using default_backoff_quadratic [of 2] default_backoff_quadratic [of 9]
  by (simp add: Second_def Minute_def)

text \<open>C14. The worker never runs more jobs at once than its concurrency, and when Run reports a clean
  stop the context was cancelled and nothing is left in flight.\<close>

theorem worker_bounded_concurrency:
  assumes "(wk_step w D fin)\<^sup>*\<^sup>* (wk_init d) s"
  shows "int (length (ws_flight s)) \<le> max 1 (wk_Concurrency w)
    \<and> length (wk_held s) \<le> length (ws_flight s) + 1
    \<and> (ws_at s = Returned True \<longrightarrow> ws_flight s = [] \<and> wk_held s = [] \<and> ws_cancelled s)"
  using wk_flight_bound [OF assms]
  by (auto simp: wk_slots_def wk_held_def split: loop_at.splits if_splits)

theorem worker_bounded_concurrency_witness:
  "\<exists>s. (wk_step \<lparr>wk_Queue = [], wk_Concurrency = 0, wk_PollInterval = 0, wk_ShutdownTimeout = 0\<rparr>
        (dbq_Driver 0) (\<lambda>r d d'. d' = snd (dbq_Complete r d)))\<^sup>*\<^sup>* (wk_init sample_qdb) s
     \<and> length (ws_flight s) = 1 \<and> int (length (ws_flight s)) \<le> max 1 0"
proof -
  let ?w = "\<lparr>wk_Queue = [], wk_Concurrency = 0, wk_PollInterval = 0, wk_ShutdownTimeout = 0\<rparr>"
  let ?fin = "\<lambda>r d d'. d' = snd (dbq_Complete r d)"
  obtain r d' where c: "drv_Claim (dbq_Driver 0) 7 (wk_queue ?w) sample_qdb = (Inr (Some r), d')"
    by (simp add: dbq_Driver_def wk_queue_def queue_Default_def sample_qdb_claim)
  let ?s1 = "(wk_init sample_qdb)\<lparr>ws_at := Want_Slot r, ws_driver := d'\<rparr>"
  let ?s2 = "?s1\<lparr>ws_at := Top, ws_flight := ws_flight ?s1 @ [r]\<rparr>"
  have s1: "wk_step ?w (dbq_Driver 0) ?fin (wk_init sample_qdb) ?s1"
    using c by (intro wk_step.claimed) (simp_all add: wk_init_def)
  have s2: "wk_step ?w (dbq_Driver 0) ?fin ?s1 ?s2"
    by (rule wk_step.start) (simp_all add: wk_slots_def wk_init_def)
  have run: "(wk_step ?w (dbq_Driver 0) ?fin)\<^sup>*\<^sup>* (wk_init sample_qdb) ?s2"
    using s1 s2 by (meson rtranclp.rtrancl_into_rtrancl rtranclp.rtrancl_refl)
  have "int (length (ws_flight ?s2)) \<le> max 1 0" using worker_bounded_concurrency [OF run] by simp
  moreover have "length (ws_flight ?s2) = 1" by (simp add: wk_init_def)
  ultimately show ?thesis using run by blast
qed

end
