(* ===== verification/QueueRedis.thy ===== *)
theory QueueRedis
  imports QueueDB
begin

text \<open>
  The Redis driver, \<^verbatim>\<open>queue/redis/redis.go\<close>.  Redis is modelled by the structures the
  driver keeps there, one of each kind per key: sorted sets of ids with integer scores (Unix
  milliseconds, exact in the double Redis stores), the hashes of encoded records and of attempt
  counts, the list of failures, the id counter.  The Lua script of Claim runs atomically, as do
  the \<^verbatim>\<open>MULTI\<close> pipelines of the other operations.  A record in JSON is the record itself.
\<close>

record rq_stored =
  st_ID :: string
  st_Queue :: string
  st_Name :: string
  st_Payload :: string
  st_MaxAttempts :: int
  st_AvailableAt :: time
  st_CreatedAt :: time
  st_LastError :: string
  st_Attempts :: int

section \<open>Redis commands\<close>

type_synonym zset = "(string \<times> int) list"

definition zrem :: "string \<Rightarrow> zset \<Rightarrow> zset" where
  "zrem m z = filter (\<lambda>(m', _). m' \<noteq> m) z"

definition zadd :: "string \<Rightarrow> int \<Rightarrow> zset \<Rightarrow> zset" where
  "zadd m sc z = (m, sc) # zrem m z"

text \<open>\<^verbatim>\<open>ZRANGEBYSCORE key -inf hi\<close>: by score, equal scores by member.\<close>

definition zrangebyscore :: "zset \<Rightarrow> int \<Rightarrow> string list" where
  "zrangebyscore z hi = map snd (sort (map (\<lambda>(m, sc). (sc, m)) (filter (\<lambda>(_, sc). sc \<le> hi) z)))"

record redis =
  rd_pending :: "string \<Rightarrow> zset"
  rd_reserved :: "string \<Rightarrow> zset"
  rd_jobs :: "string \<Rightarrow> (string, rq_stored) fmap"
  rd_attempts :: "string \<Rightarrow> (string, int) fmap"
  rd_failed :: "rq_stored list"
  rd_seq :: nat

definition empty_redis :: redis where
  "empty_redis = \<lparr>rd_pending = (\<lambda>_. []), rd_reserved = (\<lambda>_. []), rd_jobs = (\<lambda>_. fmempty),
     rd_attempts = (\<lambda>_. fmempty), rd_failed = [], rd_seq = 0\<rparr>"

section \<open>The driver\<close>

record rq_Config =
  rq_Prefix :: string
  rq_Timeout :: duration

definition rq_New :: "string \<Rightarrow> rq_Config" where
  "rq_New prefix = \<lparr>rq_Prefix = (if prefix = [] then ''queue'' else prefix), rq_Timeout = ReservationTimeout\<rparr>"

definition rq_timeout :: "rq_Config \<Rightarrow> duration" where
  "rq_timeout c = (if rq_Timeout c > 0 then rq_Timeout c else ReservationTimeout)"

definition pendingKey :: "rq_Config \<Rightarrow> string \<Rightarrow> string" where
  "pendingKey c q = rq_Prefix c @ '':'' @ q @ '':pending''"

definition reservedKey :: "rq_Config \<Rightarrow> string \<Rightarrow> string" where
  "reservedKey c q = rq_Prefix c @ '':'' @ q @ '':reserved''"

definition jobsKey :: "rq_Config \<Rightarrow> string \<Rightarrow> string" where
  "jobsKey c q = rq_Prefix c @ '':'' @ q @ '':jobs''"

definition attemptsKey :: "rq_Config \<Rightarrow> string \<Rightarrow> string" where
  "attemptsKey c q = rq_Prefix c @ '':'' @ q @ '':attempts''"

text \<open>The loop of the script that hands lapsed reservations back.\<close>

definition requeue :: "int \<Rightarrow> string list \<Rightarrow> zset \<times> zset \<Rightarrow> zset \<times> zset" where
  "requeue now ids pr = foldl (\<lambda>(p, r) i. (zadd i now p, zrem i r)) pr ids"

definition claimScript ::
  "string \<Rightarrow> string \<Rightarrow> string \<Rightarrow> string \<Rightarrow> int \<Rightarrow> int \<Rightarrow> redis
     \<Rightarrow> (string \<times> rq_stored \<times> int) option \<times> redis" where
  "claimScript pending reserved jobs attempts now expires d =
     (case requeue now (zrangebyscore (rd_reserved d reserved) now) (rd_pending d pending, rd_reserved d reserved) of
        (p, r) \<Rightarrow>
          (case zrangebyscore p now of
             [] \<Rightarrow> (None, d\<lparr>rd_pending := (rd_pending d)(pending := p), rd_reserved := (rd_reserved d)(reserved := r)\<rparr>)
           | i # _ \<Rightarrow>
               let p' = zrem i p; r' = zadd i expires r in
               (case fmlookup (rd_jobs d jobs) i of
                  None \<Rightarrow> (None, d\<lparr>rd_pending := (rd_pending d)(pending := p'),
                                  rd_reserved := (rd_reserved d)(reserved := zrem i r')\<rparr>)
                | Some rec \<Rightarrow>
                    let count = (case fmlookup (rd_attempts d attempts) i of None \<Rightarrow> 0 | Some n \<Rightarrow> n) + 1
                    in (Some (i, rec, count),
                        d\<lparr>rd_pending := (rd_pending d)(pending := p'), rd_reserved := (rd_reserved d)(reserved := r'),
                          rd_attempts := (rd_attempts d)(attempts := fmupd i count (rd_attempts d attempts))\<rparr>))))"

definition rq_Push ::
  "rq_Config \<Rightarrow> time \<Rightarrow> Record \<Rightarrow> redis \<Rightarrow> (queue_error, Record) result \<times> redis" where
  "rq_Push c now rec d =
     (if rd_seq d + 1 \<ge> 2 ^ 63 then (Inl (Err_Driver ''queue/redis: mint id''), d)
      else let jobID = format_nat (rd_seq d + 1);
               raw = \<lparr>st_ID = jobID, st_Queue = rec_Queue rec, st_Name = rec_Name rec,
                      st_Payload = rec_Payload rec, st_MaxAttempts = rec_MaxAttempts rec,
                      st_AvailableAt = rec_AvailableAt rec, st_CreatedAt = rec_CreatedAt rec,
                      st_LastError = [], st_Attempts = 0\<rparr>;
               jk = jobsKey c (rec_Queue rec); pk = pendingKey c (rec_Queue rec)
           in (Inr rec,
               d\<lparr>rd_seq := rd_seq d + 1,
                 rd_jobs := (rd_jobs d)(jk := fmupd jobID raw (rd_jobs d jk)),
                 rd_pending := (rd_pending d)(pk := zadd jobID (unix_milli (rec_AvailableAt rec)) (rd_pending d pk))\<rparr>))"

definition toRecord :: "rq_stored \<Rightarrow> int \<Rightarrow> Record" where
  "toRecord st attempts =
     \<lparr>rec_ID = (case parse_uint (st_ID st) 64 of None \<Rightarrow> 0 | Some i \<Rightarrow> i), rec_Queue = st_Queue st,
      rec_Name = st_Name st, rec_Payload = st_Payload st, rec_Attempts = attempts,
      rec_MaxAttempts = st_MaxAttempts st, rec_AvailableAt = st_AvailableAt st, rec_ReservedAt = None,
      rec_LastError = st_LastError st, rec_CreatedAt = st_CreatedAt st\<rparr>"

definition rq_Claim ::
  "rq_Config \<Rightarrow> time \<Rightarrow> string \<Rightarrow> redis \<Rightarrow> (queue_error, Record option) result \<times> redis" where
  "rq_Claim c now q d =
     (case claimScript (pendingKey c q) (reservedKey c q) (jobsKey c q) (attemptsKey c q)
             (unix_milli now) (unix_milli (now + rq_timeout c)) d of
        (None, d') \<Rightarrow> (Inr None, d')
      | (Some (_, st, attempts), d') \<Rightarrow> (Inr (Some (toRecord st attempts)), d'))"

definition rq_jobID :: "Record \<Rightarrow> string" where
  "rq_jobID rec = format_nat (rec_ID rec)"

definition rq_forget :: "rq_Config \<Rightarrow> Record \<Rightarrow> redis \<Rightarrow> redis" where
  "rq_forget c rec d =
     (let i = rq_jobID rec; rk = reservedKey c (rec_Queue rec); jk = jobsKey c (rec_Queue rec);
          ak = attemptsKey c (rec_Queue rec)
      in d\<lparr>rd_reserved := (rd_reserved d)(rk := zrem i (rd_reserved d rk)),
           rd_jobs := (rd_jobs d)(jk := fmdrop i (rd_jobs d jk)),
           rd_attempts := (rd_attempts d)(ak := fmdrop i (rd_attempts d ak))\<rparr>)"

definition rq_Complete :: "rq_Config \<Rightarrow> Record \<Rightarrow> redis \<Rightarrow> queue_error option \<times> redis" where
  "rq_Complete c rec d = (None, rq_forget c rec d)"

definition rq_Release ::
  "rq_Config \<Rightarrow> Record \<Rightarrow> time \<Rightarrow> string \<Rightarrow> redis \<Rightarrow> queue_error option \<times> redis" where
  "rq_Release c rec at reason d =
     (let i = rq_jobID rec; rk = reservedKey c (rec_Queue rec); jk = jobsKey c (rec_Queue rec);
          pk = pendingKey c (rec_Queue rec);
          raw = \<lparr>st_ID = i, st_Queue = rec_Queue rec, st_Name = rec_Name rec,
                 st_Payload = rec_Payload rec, st_MaxAttempts = rec_MaxAttempts rec,
                 st_AvailableAt = at, st_CreatedAt = rec_CreatedAt rec,
                 st_LastError = truncate_str reason 4000, st_Attempts = 0\<rparr>
      in (None, d\<lparr>rd_jobs := (rd_jobs d)(jk := fmupd i raw (rd_jobs d jk)),
                  rd_reserved := (rd_reserved d)(rk := zrem i (rd_reserved d rk)),
                  rd_pending := (rd_pending d)(pk := zadd i (unix_milli at) (rd_pending d pk))\<rparr>))"

definition rq_Fail ::
  "rq_Config \<Rightarrow> time \<Rightarrow> Record \<Rightarrow> string \<Rightarrow> redis \<Rightarrow> queue_error option \<times> redis" where
  "rq_Fail c now rec reason d =
     (let raw = \<lparr>st_ID = rq_jobID rec, st_Queue = rec_Queue rec, st_Name = rec_Name rec,
                 st_Payload = rec_Payload rec, st_MaxAttempts = rec_MaxAttempts rec,
                 st_AvailableAt = zero_time, st_CreatedAt = rec_CreatedAt rec,
                 st_LastError = truncate_str reason 4000, st_Attempts = rec_Attempts rec\<rparr>
      in (None, rq_forget c rec (d\<lparr>rd_failed := take 1000 (raw # rd_failed d)\<rparr>)))"

definition rq_Pending :: "rq_Config \<Rightarrow> string \<Rightarrow> redis \<Rightarrow> (queue_error, nat) result" where
  "rq_Pending c q d = Inr (length (rd_pending d (pendingKey c q)))"

definition rq_Failed :: "int \<Rightarrow> redis \<Rightarrow> FailedRecord list" where
  "rq_Failed limit d =
     map (\<lambda>st. \<lparr>fr_ID = (case parse_uint (st_ID st) 64 of None \<Rightarrow> 0 | Some i \<Rightarrow> i),
                 fr_Queue = st_Queue st, fr_Name = st_Name st, fr_Payload = st_Payload st,
                 fr_Attempts = st_Attempts st, fr_LastError = st_LastError st,
                 fr_FailedAt = st_CreatedAt st\<rparr>)
       (take (nat (if limit \<le> 0 then 50 else limit)) (rd_failed d))"

definition rq_Retry :: "rq_Config \<Rightarrow> time \<Rightarrow> nat \<Rightarrow> redis \<Rightarrow> queue_error option \<times> redis" where
  "rq_Retry c now i d =
     (case find (\<lambda>st. st_ID st = format_nat i) (rd_failed d) of
        None \<Rightarrow> (Some (Err_Driver ''queue/redis: no failed job with id''), d)
      | Some st \<Rightarrow>
          (case rq_Push c now
             \<lparr>rec_ID = 0, rec_Queue = st_Queue st, rec_Name = st_Name st, rec_Payload = st_Payload st,
              rec_Attempts = 0, rec_MaxAttempts = st_MaxAttempts st, rec_AvailableAt = now,
              rec_ReservedAt = None, rec_LastError = [], rec_CreatedAt = now\<rparr> d of
             (Inl e, d') \<Rightarrow> (Some e, d')
           | (Inr _, d') \<Rightarrow> (None, d'\<lparr>rd_failed := remove1 st (rd_failed d')\<rparr>)))"

definition rq_Driver :: "rq_Config \<Rightarrow> redis Driver" where
  "rq_Driver c =
     \<lparr>drv_Push = rq_Push c, drv_Claim = rq_Claim c, drv_Complete = rq_Complete c,
      drv_Release = rq_Release c, drv_Fail = rq_Fail c, drv_Pending = rq_Pending c\<rparr>"

section \<open>Sorted sets\<close>

definition due_in :: "zset \<Rightarrow> string \<Rightarrow> int \<Rightarrow> bool" where
  "due_in z i ms = (\<exists>sc. (i, sc) \<in> set z \<and> sc \<le> ms)"

lemma due_in_zrem [simp]: "due_in (zrem m z) i ms \<longleftrightarrow> i \<noteq> m \<and> due_in z i ms"
  by (auto simp: due_in_def zrem_def)

lemma due_in_zadd [simp]: "due_in (zadd m sc z) i ms \<longleftrightarrow> (if i = m then sc \<le> ms else due_in z i ms)"
  by (auto simp: due_in_def zadd_def zrem_def)

lemma set_zrangebyscore: "i \<in> set (zrangebyscore z ms) \<longleftrightarrow> due_in z i ms"
  by (force simp: zrangebyscore_def due_in_def)

lemma due_in_mono: "due_in z i ms \<Longrightarrow> ms \<le> ms' \<Longrightarrow> due_in z i ms'"
  by (auto simp: due_in_def)

lemma requeue_due:
  assumes "requeue now ids (p, r) = (p', r')"
  shows "due_in p' i ms \<longleftrightarrow> (if i \<in> set ids then now \<le> ms else due_in p i ms)"
    and "due_in r' i ms \<longleftrightarrow> i \<notin> set ids \<and> due_in r i ms"
  using assms unfolding requeue_def
  by (induction ids arbitrary: p r) auto

text \<open>Handing lapsed reservations back makes no job claimable that was not, and keeps those that
  were.\<close>

lemma requeue_claimable:
  assumes "requeue now (zrangebyscore r now) (p, r) = (p', r')"
  shows "due_in p' i ms \<or> due_in r' i ms \<Longrightarrow> due_in p i ms \<or> due_in r i ms"
    and "due_in p i now \<or> due_in r i now \<longleftrightarrow> due_in p' i now"
  using requeue_due [OF assms] set_zrangebyscore [of _ r now]
  by (auto split: if_splits intro: due_in_mono)

section \<open>The driver contract\<close>

definition rq_inv :: "rq_Config \<Rightarrow> redis \<Rightarrow> bool" where
  "rq_inv c d = (rd_seq d < 2 ^ 63 \<and>
     (\<forall>q i st. fmlookup (rd_jobs d (jobsKey c q)) i = Some st \<longrightarrow>
        st_ID st = i \<and> st_Queue st = q \<and> (\<exists>n \<le> rd_seq d. i = format_nat n)))"

definition rq_issued :: "redis \<Rightarrow> nat \<Rightarrow> bool" where
  "rq_issued d i = (i \<le> rd_seq d)"

definition rq_claimable :: "rq_Config \<Rightarrow> redis \<Rightarrow> time \<Rightarrow> string \<Rightarrow> nat set" where
  "rq_claimable c d t q =
     {n. fmlookup (rd_jobs d (jobsKey c q)) (format_nat n) \<noteq> None
       \<and> (due_in (rd_pending d (pendingKey c q)) (format_nat n) (unix_milli t)
          \<or> due_in (rd_reserved d (reservedKey c q)) (format_nat n) (unix_milli t))}"

lemma rq_keys [simp]:
  "jobsKey c q = jobsKey c q' \<longleftrightarrow> q = q'" "pendingKey c q = pendingKey c q' \<longleftrightarrow> q = q'"
  "reservedKey c q = reservedKey c q' \<longleftrightarrow> q = q'" "attemptsKey c q = attemptsKey c q' \<longleftrightarrow> q = q'"
  by (simp_all add: jobsKey_def pendingKey_def reservedKey_def attemptsKey_def)

lemma format_nat_eq [simp]: "format_nat m = format_nat n \<longleftrightarrow> m = n"
  by (metis digits_val_format_nat)

lemma rq_timeout_pos: "0 < rq_timeout c"
  by (simp add: rq_timeout_def ReservationTimeout_def Minute_def)

lemma rq_claimable_id: "rq_inv c d \<Longrightarrow> n \<in> rq_claimable c d t q \<Longrightarrow> n \<le> rd_seq d"
  by (fastforce simp: rq_inv_def rq_claimable_def)

lemma unix_milli_mono: "t \<le> t' \<Longrightarrow> unix_milli t \<le> unix_milli t'"
  by (simp add: unix_milli_def zdiv_mono1 Millisecond_def)

lemma unix_milli_hold: "t \<le> now + (d - Millisecond) \<Longrightarrow> unix_milli t < unix_milli (now + d)"
proof -
  assume "t \<le> now + (d - Millisecond)"
  then have "unix_milli (t + Millisecond) \<le> unix_milli (now + d)" by (intro unix_milli_mono) simp
  then show ?thesis by (simp add: unix_milli_def Millisecond_def)
qed

text \<open>The three ways a claim can go.\<close>

lemma rq_Claim_cases:
  obtains p r where
      "requeue (unix_milli now) (zrangebyscore (rd_reserved d (reservedKey c q)) (unix_milli now))
         (rd_pending d (pendingKey c q), rd_reserved d (reservedKey c q)) = (p, r)"
      "zrangebyscore p (unix_milli now) = []"
      "rq_Claim c now q d = (Inr None, d\<lparr>rd_pending := (rd_pending d)(pendingKey c q := p),
         rd_reserved := (rd_reserved d)(reservedKey c q := r)\<rparr>)"
  | p r i where
      "requeue (unix_milli now) (zrangebyscore (rd_reserved d (reservedKey c q)) (unix_milli now))
         (rd_pending d (pendingKey c q), rd_reserved d (reservedKey c q)) = (p, r)"
      "due_in p i (unix_milli now)" "fmlookup (rd_jobs d (jobsKey c q)) i = None"
      "rq_Claim c now q d = (Inr None, d\<lparr>rd_pending := (rd_pending d)(pendingKey c q := zrem i p),
         rd_reserved := (rd_reserved d)(reservedKey c q := zrem i (zadd i (unix_milli (now + rq_timeout c)) r))\<rparr>)"
  | p r i st count where
      "requeue (unix_milli now) (zrangebyscore (rd_reserved d (reservedKey c q)) (unix_milli now))
         (rd_pending d (pendingKey c q), rd_reserved d (reservedKey c q)) = (p, r)"
      "due_in p i (unix_milli now)" "fmlookup (rd_jobs d (jobsKey c q)) i = Some st"
      "rq_Claim c now q d = (Inr (Some (toRecord st count)),
         d\<lparr>rd_pending := (rd_pending d)(pendingKey c q := zrem i p),
           rd_reserved := (rd_reserved d)(reservedKey c q := zadd i (unix_milli (now + rq_timeout c)) r),
           rd_attempts := (rd_attempts d)(attemptsKey c q := fmupd i count (rd_attempts d (attemptsKey c q)))\<rparr>)"
proof -
  obtain p r where pr: "requeue (unix_milli now) (zrangebyscore (rd_reserved d (reservedKey c q)) (unix_milli now))
         (rd_pending d (pendingKey c q), rd_reserved d (reservedKey c q)) = (p, r)" by fastforce
  show thesis
  proof (cases "zrangebyscore p (unix_milli now)")
    case Nil
    then show thesis using that(1) [OF pr] by (simp add: rq_Claim_def claimScript_def pr)
  next
    case (Cons i xs)
    then have due: "due_in p i (unix_milli now)" using set_zrangebyscore [of i p "unix_milli now"] by simp
    show thesis
    proof (cases "fmlookup (rd_jobs d (jobsKey c q)) i")
      case None
      then show thesis
        using that(2) [OF pr due None] by (simp add: rq_Claim_def claimScript_def pr Cons Let_def)
    next
      case (Some st)
      show thesis
        by (rule that(3) [OF pr due Some]) (simp add: rq_Claim_def claimScript_def pr Cons Some Let_def)
    qed
  qed
qed

lemma rq_Claim_inv:
  assumes inv: "rq_inv c d" and cl: "rq_Claim c now q d = (cres, d')"
  shows "rq_inv c d' \<and> rq_issued d' = rq_issued d"
  using cl inv by (cases rule: rq_Claim_cases [of now d c q]) (auto simp: rq_inv_def rq_issued_def)

lemma rq_claimable_subI:
  assumes sub: "\<And>i. due_in p' i (unix_milli t) \<or> due_in r' i (unix_milli t) \<Longrightarrow>
      due_in (rd_pending d (pendingKey c q)) i (unix_milli t)
      \<or> due_in (rd_reserved d (reservedKey c q)) i (unix_milli t)"
    and "rd_jobs d' = rd_jobs d" and "rd_pending d' = (rd_pending d)(pendingKey c q := p')"
    and "rd_reserved d' = (rd_reserved d)(reservedKey c q := r')"
  shows "rq_claimable c d' t q' \<subseteq> rq_claimable c d t q'"
  using assms(2-) sub by (cases "q' = q") (auto simp: rq_claimable_def)

lemma rq_Claim_shrinks:
  assumes cl: "rq_Claim c now q d = (cres, d')"
  shows "rq_claimable c d' t q' \<subseteq> rq_claimable c d t q'"
proof (cases rule: rq_Claim_cases [of now d c q])
  case (1 p r)
  show ?thesis
    by (rule rq_claimable_subI [OF requeue_claimable(1) [OF 1(1)]]) (use cl 1(3) in auto)
next
  case (2 p r i)
  have d': "d' = d\<lparr>rd_pending := (rd_pending d)(pendingKey c q := zrem i p),
      rd_reserved := (rd_reserved d)(reservedKey c q := zrem i (zadd i (unix_milli (now + rq_timeout c)) r))\<rparr>"
    using cl 2(4) by simp
  show ?thesis
    unfolding d'
    by (rule rq_claimable_subI [OF requeue_claimable(1) [OF 2(1)]]) (auto split: if_splits)
next
  case (3 p r i st count)
  have d': "d' = d\<lparr>rd_pending := (rd_pending d)(pendingKey c q := zrem i p),
      rd_reserved := (rd_reserved d)(reservedKey c q := zadd i (unix_milli (now + rq_timeout c)) r),
      rd_attempts := (rd_attempts d)(attemptsKey c q := fmupd i count (rd_attempts d (attemptsKey c q)))\<rparr>"
    using cl 3(4) by simp
  have "unix_milli now \<le> unix_milli (now + rq_timeout c)"
    using rq_timeout_pos [of c] by (intro unix_milli_mono) simp
  then have "due_in p i (unix_milli t)" if "unix_milli (now + rq_timeout c) \<le> unix_milli t"
    using 3(2) that by (auto intro: due_in_mono)
  then show ?thesis
    unfolding d'
    by (intro rq_claimable_subI [OF requeue_claimable(1) [OF 3(1)]]) (auto split: if_splits)
qed

lemma rq_Claim_Some:
  assumes inv: "rq_inv c d" and cl: "rq_Claim c now q d = (Inr (Some rec), d')"
  shows "rec_ID rec \<in> rq_claimable c d now q" "rec_Queue rec = q"
    "rq_claimable c d now q - {rec_ID rec} \<subseteq> rq_claimable c d' now q"
    "t \<le> now + (rq_timeout c - Millisecond) \<Longrightarrow> rec_ID rec \<notin> rq_claimable c d' t q"
proof -
  obtain p r i st count where
    pr: "requeue (unix_milli now) (zrangebyscore (rd_reserved d (reservedKey c q)) (unix_milli now))
         (rd_pending d (pendingKey c q), rd_reserved d (reservedKey c q)) = (p, r)"
    and due: "due_in p i (unix_milli now)" and st: "fmlookup (rd_jobs d (jobsKey c q)) i = Some st"
    and rec: "rec = toRecord st count"
    and d': "d' = d\<lparr>rd_pending := (rd_pending d)(pendingKey c q := zrem i p),
           rd_reserved := (rd_reserved d)(reservedKey c q := zadd i (unix_milli (now + rq_timeout c)) r),
           rd_attempts := (rd_attempts d)(attemptsKey c q := fmupd i count (rd_attempts d (attemptsKey c q)))\<rparr>"
    using cl by (cases rule: rq_Claim_cases [of now d c q]) auto
  obtain n where n: "i = format_nat n" "n < 2 ^ 63" and st': "st_ID st = i" "st_Queue st = q"
    using inv st by (fastforce simp: rq_inv_def)
  have "n < 2 ^ 64" using n(2) by simp
  then have id: "rec_ID rec = n" by (simp add: rec toRecord_def st' n parse_uint_format_nat)
  note rq = requeue_claimable [OF pr]
  show "rec_ID rec \<in> rq_claimable c d now q"
    using rq(2) due st by (auto simp: rq_claimable_def id n)
  show "rec_Queue rec = q" by (simp add: rec toRecord_def st')
  show "rq_claimable c d now q - {rec_ID rec} \<subseteq> rq_claimable c d' now q"
    using rq(2) by (auto simp: rq_claimable_def id n d')
  show "rec_ID rec \<notin> rq_claimable c d' t q" if "t \<le> now + (rq_timeout c - Millisecond)"
    using unix_milli_hold [OF that] by (simp add: rq_claimable_def id n d')
qed

lemma rq_inv_upd:
  assumes inv: "rq_inv c d" and "rd_seq d \<le> rd_seq d'" and "rd_seq d' < 2 ^ 63"
    and "rd_jobs d' = (rd_jobs d)(jobsKey c q := fmupd (format_nat n) st (rd_jobs d (jobsKey c q)))"
    and "st_ID st = format_nat n" and "st_Queue st = q" and "n \<le> rd_seq d'"
  shows "rq_inv c d'"
  unfolding rq_inv_def
proof (intro conjI allI impI)
  fix q' i st'
  assume look: "fmlookup (rd_jobs d' (jobsKey c q')) i = Some st'"
  have old: "st_ID st' = i \<and> st_Queue st' = q' \<and> (\<exists>n \<le> rd_seq d'. i = format_nat n)"
    if prev: "fmlookup (rd_jobs d (jobsKey c q')) i = Some st'"
  proof -
    obtain n where "st_ID st' = i" "st_Queue st' = q'" "n \<le> rd_seq d" "i = format_nat n"
      using inv prev unfolding rq_inv_def by blast
    then show ?thesis using assms(2) le_trans by blast
  qed
  show "st_ID st' = i" "st_Queue st' = q'" "\<exists>n \<le> rd_seq d'. i = format_nat n"
    using look old assms(4-) by (auto split: if_splits)
qed (rule assms(3))

lemma rq_Push_inv:
  assumes "rq_inv c d" and "rq_Push c now rec d = (pres, d')"
  shows "rq_inv c d' \<and> (\<forall>i. rq_issued d i \<longrightarrow> rq_issued d' i)"
proof (cases "rd_seq d + 1 \<ge> 2 ^ 63")
  case True
  with assms show ?thesis by (simp add: rq_Push_def)
next
  case False
  with assms(2) have d': "rd_seq d' = rd_seq d + 1"
    and j: "\<exists>st. rd_jobs d' = (rd_jobs d)(jobsKey c (rec_Queue rec) :=
        fmupd (format_nat (rd_seq d + 1)) st (rd_jobs d (jobsKey c (rec_Queue rec))))
      \<and> st_ID st = format_nat (rd_seq d + 1) \<and> st_Queue st = rec_Queue rec"
    by (auto simp: rq_Push_def Let_def)
  from j obtain st where st: "rd_jobs d' = (rd_jobs d)(jobsKey c (rec_Queue rec) :=
        fmupd (format_nat (rd_seq d + 1)) st (rd_jobs d (jobsKey c (rec_Queue rec))))"
      "st_ID st = format_nat (rd_seq d + 1)" "st_Queue st = rec_Queue rec" by blast
  have "rq_inv c d'"
    by (rule rq_inv_upd [OF assms(1) _ _ st]) (use False d' in simp_all)
  with d' show ?thesis by (simp add: rq_issued_def)
qed

lemma rq_Push_others:
  assumes "rq_Push c now rec d = (pres, d')" and "rq_issued d i" and "i \<in> rq_claimable c d' t q"
  shows "i \<in> rq_claimable c d t q"
  using assms
  by (auto simp: rq_Push_def rq_issued_def rq_claimable_def Let_def split: if_splits)

lemma rq_forget_others:
  assumes "rq_inv c d" and "rd_seq d0 = rd_seq d" "rd_jobs d0 = rd_jobs d" "rd_pending d0 = rd_pending d"
    "rd_reserved d0 = rd_reserved d" and "d' = rq_forget c rec d0"
  shows "rq_inv c d' \<and> rq_issued d' = rq_issued d \<and>
    (\<forall>i t q. i \<noteq> rec_ID rec \<longrightarrow> i \<in> rq_claimable c d' t q \<longrightarrow> i \<in> rq_claimable c d t q)"
  using assms
  by (auto simp: rq_forget_def rq_inv_def rq_issued_def rq_claimable_def Let_def split: if_splits)

lemma rq_Release_others:
  assumes "rq_inv c d" and "rq_issued d (rec_ID rec)" and "rq_Release c rec at reason d = (eres, d')"
  shows "rq_inv c d' \<and> rq_issued d' = rq_issued d \<and>
    (\<forall>i t q. i \<noteq> rec_ID rec \<longrightarrow> i \<in> rq_claimable c d' t q \<longrightarrow> i \<in> rq_claimable c d t q)"
  using assms
  by (auto simp: rq_Release_def rq_jobID_def rq_inv_def rq_issued_def rq_claimable_def Let_def split: if_splits)

text \<open>The Redis driver keeps the safety contract; a reservation holds to within a millisecond.\<close>

interpretation rq: queue_driver "rq_Driver c" "rq_inv c" rq_issued "rq_claimable c"
    "rq_timeout c - Millisecond"
proof (unfold_locales, unfold rq_Driver_def Driver.simps, goal_cases)
  case (1 d i t q)
  then show ?case by (simp add: rq_issued_def rq_claimable_id)
next
  case (2 d now q cres d')
  then show ?case by (rule rq_Claim_inv)
next
  case (3 d now q)
  show ?case by (rule rq_Claim_cases [of now d c q]) blast+
next
  case (4 d now q r d')
  then show ?case using rq_Claim_Some [OF 4] by simp
next
  case (5 d now q r d' t)
  then show ?case by (rule rq_Claim_Some(4))
next
  case (6 d now q cres d' t q')
  from 6(2) show ?case by (rule rq_Claim_shrinks)
next
  case (7 d now r pres d')
  then show ?case by (rule rq_Push_inv)
next
  case (8 d now r pres d' i t q')
  from 8(2,4,5) show ?case by (rule rq_Push_others)
next
  case (9 d r res d')
  from 9(1) show ?case
    by (rule rq_forget_others) (use 9(3) in \<open>auto simp: rq_Complete_def\<close>)
next
  case (10 d r at reason res d')
  then show ?case by (rule rq_Release_others)
next
  case (11 d r now reason res d')
  obtain fs where "d' = rq_forget c r (d\<lparr>rd_failed := fs\<rparr>)" using 11(3) by (auto simp: rq_Fail_def Let_def)
  then show ?case by (intro rq_forget_others [OF 11(1)]) simp_all
qed

section \<open>Properties\<close>

text \<open>C11. Exactly one worker, with Redis: once a claim has handed a job out, no sequence of pushes,
  claims at times that end a millisecond before the reservation lapses, and completions, releases
  and failures of other jobs hands the same job out again.\<close>

theorem rq_claim_exclusive:
  assumes "rq_inv c d" and "rq_Claim c now q d = (Inr (Some r), d')"
    and "\<forall>e \<in> set es. event_within (rec_ID r) (now + (rq_timeout c - Millisecond)) (rq_issued d) e"
  shows "(q, rec_ID r) \<notin> set (drv_handed (rq_Driver c) es d')"
  using rq.exclusive [of c d now q r d' es] assms by (simp add: rq_Driver_def)

definition sample_redis :: redis where
  "sample_redis = snd (rq_Push (rq_New []) 5 (sample_record 4) empty_redis)"

lemma sample_redis_inv: "rq_inv (rq_New []) sample_redis"
proof -
  have "rq_inv (rq_New []) empty_redis" by (simp add: rq_inv_def empty_redis_def)
  from rq_Push_inv [OF this prod.collapse [symmetric]] show ?thesis
    unfolding sample_redis_def by blast
qed

lemma format_nat_one: "format_nat (Suc 0) = ''1''"
  by code_simp

lemma sample_redis_claim:
  "fst (rq_Claim (rq_New []) 7 ''default'' sample_redis) =
     Inr (Some ((sample_record 4)\<lparr>rec_ID := 1, rec_Attempts := 1\<rparr>))"
proof -
  have "parse_uint ''1'' 64 = Some 1" using parse_uint_format_nat [of 1 64] by (simp add: format_nat_one)
  moreover have "unix_milli 4 = unix_milli 7" by (simp add: unix_milli_def Millisecond_def)
  ultimately show ?thesis
    by (simp add: sample_redis_def rq_Push_def empty_redis_def sample_record_def Let_def format_nat_one rq_Claim_def
        claimScript_def requeue_def zrangebyscore_def zadd_def zrem_def toRecord_def)
qed

theorem rq_claim_exclusive_witness:
  "\<exists>r d'. rq_Claim (rq_New []) 7 ''default'' sample_redis = (Inr (Some r), d') \<and> rec_ID r = 1
     \<and> (''default'', 1) \<notin> set (drv_handed (rq_Driver (rq_New [])) [E_Claim 8 ''default'', E_Claim Minute ''default''] d')"
proof -
  obtain d' where c: "rq_Claim (rq_New []) 7 ''default'' sample_redis =
      (Inr (Some ((sample_record 4)\<lparr>rec_ID := 1, rec_Attempts := 1\<rparr>)), d')"
    using sample_redis_claim by (metis prod.collapse)
  have "Minute \<le> 7 + (rq_timeout (rq_New []) - Millisecond)" "8 \<le> 7 + (rq_timeout (rq_New []) - Millisecond)"
    by (simp_all add: rq_timeout_def rq_New_def ReservationTimeout_def Minute_def Millisecond_def)
  then have es: "\<forall>e \<in> set [E_Claim 8 ''default'', E_Claim Minute ''default''].
      event_within (rec_ID ((sample_record 4)\<lparr>rec_ID := 1, rec_Attempts := 1\<rparr>))
        (7 + (rq_timeout (rq_New []) - Millisecond)) (rq_issued sample_redis) e"
    by simp
  have "(''default'', rec_ID ((sample_record 4)\<lparr>rec_ID := 1, rec_Attempts := 1\<rparr>)) \<notin>
      set (drv_handed (rq_Driver (rq_New [])) [E_Claim 8 ''default'', E_Claim Minute ''default''] d')"
    by (rule rq_claim_exclusive [OF sample_redis_inv c es])
  then show ?thesis by (intro exI conjI) (rule c, simp_all)
qed

text \<open>Claim can answer nil while a job is due: when a worker completes a job whose lapsed
  reservation had already been handed back to the pending set, the id stays there without a
  record, and the next claim spends itself on that id, however many other jobs are due.\<close>

theorem rq_nil_while_jobs_due:
  assumes "zrangebyscore (rd_reserved d (reservedKey c q)) (unix_milli now) = []"
    and "zrangebyscore (rd_pending d (pendingKey c q)) (unix_milli now) = rq_jobID rec # others"
    and "rec_Queue rec = q"
  shows "fst (rq_Claim c now q (snd (rq_Complete c rec d))) = Inr None"
proof -
  have "zrangebyscore (zrem i (rd_reserved d (reservedKey c q))) (unix_milli now) = []" for i
    using assms(1) set_zrangebyscore [of _ "rd_reserved d (reservedKey c q)" "unix_milli now"]
      set_zrangebyscore [of _ "zrem i (rd_reserved d (reservedKey c q))" "unix_milli now"]
    by (metis due_in_zrem empty_iff list.set(1) set_empty subsetI subset_empty)
  then show ?thesis
    using assms(2,3)
    by (simp add: rq_Complete_def rq_forget_def rq_Claim_def claimScript_def requeue_def Let_def)
qed

text \<open>Jobs 1 and 2 are pending, job 1 again after its reservation lapsed.\<close>

definition ghost_redis :: redis where
  "ghost_redis = empty_redis\<lparr>rd_pending := (\<lambda>_. [(''1'', 0), (''2'', 0)]),
     rd_jobs := (\<lambda>_. fmupd ''1'' \<lparr>st_ID = ''1'', st_Queue = ''default'', st_Name = ''mail'', st_Payload = ''{}'',
         st_MaxAttempts = 3, st_AvailableAt = 4, st_CreatedAt = 4, st_LastError = [], st_Attempts = 0\<rparr>
       (fmupd ''2'' \<lparr>st_ID = ''2'', st_Queue = ''default'', st_Name = ''mail'', st_Payload = ''{}'',
         st_MaxAttempts = 3, st_AvailableAt = 4, st_CreatedAt = 4, st_LastError = [], st_Attempts = 0\<rparr> fmempty))\<rparr>"

theorem rq_nil_while_jobs_due_witness:
  "fst (rq_Claim (rq_New []) (70000000000 * Second) ''default''
     (snd (rq_Complete (rq_New []) ((sample_record 4)\<lparr>rec_ID := 1\<rparr>) ghost_redis))) = Inr None"
proof (rule rq_nil_while_jobs_due)
  have "(0::int) \<le> unix_milli (70000000000 * Second)"
    by (simp add: unix_milli_def Millisecond_def Second_def unix_offset_def)
  then show "zrangebyscore (rd_pending ghost_redis (pendingKey (rq_New []) ''default'')) (unix_milli (70000000000 * Second))
      = rq_jobID ((sample_record 4)\<lparr>rec_ID := 1\<rparr>) # [''2'']"
    by (simp add: ghost_redis_def zrangebyscore_def rq_jobID_def format_nat_one)
  show "zrangebyscore (rd_reserved ghost_redis (reservedKey (rq_New []) ''default'')) (unix_milli (70000000000 * Second)) = []"
    by (simp add: ghost_redis_def empty_redis_def zrangebyscore_def)
qed (simp add: sample_record_def)

end
