(* ===== verification/QueueMongo.thy ===== *)
theory QueueMongo
  imports QueueDB
begin

text \<open>
  The MongoDB driver, \<^verbatim>\<open>queue/mongo/mongo.go\<close>.  The collections are lists of documents and the
  counter document is a number.  MongoDB keeps dates to the millisecond, so every time that is
  stored or compared goes through \<open>bson_time\<close>.  \<^verbatim>\<open>FindOneAndUpdate\<close> is atomic: Claim is one step.
  The two writes of Fail, and of Retry, are separate definitions, since a crash may fall between
  them.
\<close>

definition bson_time :: "time \<Rightarrow> time" where
  "bson_time t = (t div Millisecond) * Millisecond"

record mqdb =
  m_jobs :: "Record list"
  m_failed :: "FailedRecord list"
  m_seq :: nat

definition mq_Push :: "time \<Rightarrow> Record \<Rightarrow> mqdb \<Rightarrow> (queue_error, Record) result \<times> mqdb" where
  "mq_Push now r m =
     (if m_seq m + 1 \<ge> 2 ^ 63 then (Inl (Err_Driver ''queue/mongo: mint id''), m)
      else let i = m_seq m + 1; m' = m\<lparr>m_seq := i\<rparr>;
               created = (if rec_CreatedAt r = zero_time then now else rec_CreatedAt r);
               doc = \<lparr>rec_ID = i, rec_Queue = rec_Queue r, rec_Name = rec_Name r, rec_Payload = rec_Payload r,
                      rec_Attempts = rec_Attempts r, rec_MaxAttempts = rec_MaxAttempts r,
                      rec_AvailableAt = bson_time (rec_AvailableAt r), rec_ReservedAt = None,
                      rec_LastError = [], rec_CreatedAt = bson_time created\<rparr>
           in if i \<in> rec_ID ` set (m_jobs m) then (Inl (Err_Driver ''queue/mongo: push''), m')
              else (Inr (r\<lparr>rec_ID := i\<rparr>), m'\<lparr>m_jobs := m_jobs m @ [doc]\<rparr>))"

definition mq_Claim ::
  "duration \<Rightarrow> time \<Rightarrow> string \<Rightarrow> mqdb \<Rightarrow> (queue_error, Record option) result \<times> mqdb" where
  "mq_Claim Timeout now q m =
     (case first_by (\<lambda>r. (rec_AvailableAt r, rec_ID r))
             (filter (dbq_due (bson_time now) (bson_time (now - dbq_timeout Timeout)) q) (m_jobs m)) of
        None \<Rightarrow> (Inr None, m)
      | Some doc \<Rightarrow>
          let doc' = doc\<lparr>rec_ReservedAt := Some (bson_time now), rec_Attempts := rec_Attempts doc + 1\<rparr>
          in (Inr (Some doc'),
              m\<lparr>m_jobs := map (\<lambda>d. if rec_ID d = rec_ID doc then doc' else d) (m_jobs m)\<rparr>))"

definition mq_delete_job :: "nat \<Rightarrow> mqdb \<Rightarrow> mqdb" where
  "mq_delete_job i m = m\<lparr>m_jobs := filter (\<lambda>d. rec_ID d \<noteq> i) (m_jobs m)\<rparr>"

definition mq_Complete :: "Record \<Rightarrow> mqdb \<Rightarrow> queue_error option \<times> mqdb" where
  "mq_Complete r m = (None, mq_delete_job (rec_ID r) m)"

definition mq_Release :: "Record \<Rightarrow> time \<Rightarrow> string \<Rightarrow> mqdb \<Rightarrow> queue_error option \<times> mqdb" where
  "mq_Release r at reason m =
     (None, m\<lparr>m_jobs := map (\<lambda>d. if rec_ID d = rec_ID r
        then d\<lparr>rec_ReservedAt := None, rec_AvailableAt := bson_time at, rec_LastError := truncate_str reason 4000\<rparr>
        else d) (m_jobs m)\<rparr>)"

text \<open>\<^verbatim>\<open>ReplaceOne\<close> with upsert of the failure record.\<close>

definition mq_record_failure :: "time \<Rightarrow> Record \<Rightarrow> string \<Rightarrow> mqdb \<Rightarrow> mqdb" where
  "mq_record_failure now r reason m =
     (let doc = \<lparr>fr_ID = rec_ID r, fr_Queue = rec_Queue r, fr_Name = rec_Name r, fr_Payload = rec_Payload r,
                 fr_Attempts = rec_Attempts r, fr_LastError = truncate_str reason 4000,
                 fr_FailedAt = bson_time now\<rparr>
      in m\<lparr>m_failed := (if fr_ID doc \<in> fr_ID ` set (m_failed m)
             then map (\<lambda>f. if fr_ID f = fr_ID doc then doc else f) (m_failed m)
             else m_failed m @ [doc])\<rparr>)"

definition mq_Fail :: "time \<Rightarrow> Record \<Rightarrow> string \<Rightarrow> mqdb \<Rightarrow> queue_error option \<times> mqdb" where
  "mq_Fail now r reason m = (None, mq_delete_job (rec_ID r) (mq_record_failure now r reason m))"

definition mq_Pending :: "string \<Rightarrow> mqdb \<Rightarrow> (queue_error, nat) result" where
  "mq_Pending q m = Inr (length (filter (\<lambda>r. rec_Queue r = q) (m_jobs m)))"

definition mq_Failed :: "int \<Rightarrow> mqdb \<Rightarrow> FailedRecord list" where
  "mq_Failed limit m =
     take (nat (if limit \<le> 0 then 50 else limit)) (sort_key (\<lambda>f. - fr_FailedAt f) (m_failed m))"

definition mq_Retry :: "time \<Rightarrow> nat \<Rightarrow> mqdb \<Rightarrow> queue_error option \<times> mqdb" where
  "mq_Retry now i m =
     (case find (\<lambda>f. fr_ID f = i) (m_failed m) of
        None \<Rightarrow> (Some (Err_Driver ''queue/mongo: no failed job with id''), m)
      | Some f \<Rightarrow>
          (case mq_Push now
             \<lparr>rec_ID = 0, rec_Queue = fr_Queue f, rec_Name = fr_Name f, rec_Payload = fr_Payload f,
              rec_Attempts = 0, rec_MaxAttempts = DefaultMaxAttempts, rec_AvailableAt = now,
              rec_ReservedAt = None, rec_LastError = [], rec_CreatedAt = now\<rparr> m of
             (Inl e, m') \<Rightarrow> (Some e, m')
           | (Inr _, m') \<Rightarrow> (None, m'\<lparr>m_failed := filter (\<lambda>f. fr_ID f \<noteq> i) (m_failed m')\<rparr>)))"

definition mq_Driver :: "duration \<Rightarrow> mqdb Driver" where
  "mq_Driver Timeout =
     \<lparr>drv_Push = mq_Push, drv_Claim = mq_Claim Timeout, drv_Complete = mq_Complete,
      drv_Release = mq_Release, drv_Fail = mq_Fail, drv_Pending = mq_Pending\<rparr>"

section \<open>The driver contract\<close>

definition mq_inv :: "mqdb \<Rightarrow> bool" where
  "mq_inv m = (distinct (map rec_ID (m_jobs m)) \<and> (\<forall>r \<in> set (m_jobs m). rec_ID r \<le> m_seq m))"

definition mq_issued :: "mqdb \<Rightarrow> nat \<Rightarrow> bool" where
  "mq_issued m i = (i \<le> m_seq m)"

definition mq_claimable :: "duration \<Rightarrow> mqdb \<Rightarrow> time \<Rightarrow> string \<Rightarrow> nat set" where
  "mq_claimable Timeout m t q =
     rec_ID ` {r \<in> set (m_jobs m). dbq_due (bson_time t) (bson_time (t - dbq_timeout Timeout)) q r}"

lemma bson_time_mono: "t \<le> t' \<Longrightarrow> bson_time t \<le> bson_time t'"
  by (simp add: bson_time_def zdiv_mono1 Millisecond_def)

lemma bson_time_less: "bson_time t < bson_time t' \<Longrightarrow> t < t'"
  using bson_time_mono by (meson linorder_not_less)

lemma mq_row_unique:
  "mq_inv m \<Longrightarrow> x \<in> set (m_jobs m) \<Longrightarrow> rec_ID x = rec_ID r \<Longrightarrow> r \<in> set (m_jobs m) \<Longrightarrow> x = r"
  by (auto simp: mq_inv_def distinct_map dest: inj_onD)

lemma mq_Claim_cases:
  obtains "mq_Claim Timeout now q m = (Inr None, m)"
      "\<forall>r \<in> set (m_jobs m). \<not> dbq_due (bson_time now) (bson_time (now - dbq_timeout Timeout)) q r"
  | r r' where "r \<in> set (m_jobs m)" "dbq_due (bson_time now) (bson_time (now - dbq_timeout Timeout)) q r"
      "r' = r\<lparr>rec_ReservedAt := Some (bson_time now), rec_Attempts := rec_Attempts r + 1\<rparr>"
      "mq_Claim Timeout now q m =
         (Inr (Some r'), m\<lparr>m_jobs := map (\<lambda>d. if rec_ID d = rec_ID r then r' else d) (m_jobs m)\<rparr>)"
proof (cases "first_by (\<lambda>r. (rec_AvailableAt r, rec_ID r))
    (filter (dbq_due (bson_time now) (bson_time (now - dbq_timeout Timeout)) q) (m_jobs m))")
  case None
  then show thesis using that(1) by (simp add: mq_Claim_def filter_empty_conv)
next
  case (Some r)
  then show thesis using that(2) [of r] first_by_SomeD [OF Some] by (simp add: mq_Claim_def Let_def)
qed

lemma mq_inv_ids:
  assumes "mq_inv m" and "map rec_ID (m_jobs m') = map rec_ID (m_jobs m)" and "m_seq m' = m_seq m"
  shows "mq_inv m' \<and> mq_issued m' = mq_issued m"
proof -
  have "mq_inv x \<longleftrightarrow> distinct (map rec_ID (m_jobs x)) \<and> (\<forall>i \<in> set (map rec_ID (m_jobs x)). i \<le> m_seq x)" for x
    by (auto simp: mq_inv_def)
  with assms have "mq_inv m'" by (simp only:) blast
  with assms(3) show ?thesis by (auto simp: mq_issued_def)
qed

lemma mq_Claim_inv:
  assumes "mq_inv m" and "mq_Claim Timeout now q m = (cres, m')"
  shows "mq_inv m' \<and> mq_issued m' = mq_issued m"
proof (cases rule: mq_Claim_cases [of Timeout now q m])
  case 1
  with assms show ?thesis by simp
next
  case (2 r r')
  have "map rec_ID (map (\<lambda>d. if rec_ID d = rec_ID r then r' else d) (m_jobs m)) = map rec_ID (m_jobs m)"
    using 2(3) by (auto simp: o_def)
  moreover have "m' = m\<lparr>m_jobs := map (\<lambda>d. if rec_ID d = rec_ID r then r' else d) (m_jobs m)\<rparr>"
    using 2(4) assms(2) by simp
  ultimately show ?thesis using mq_inv_ids [OF assms(1), of m'] by simp
qed

lemma mq_Claim_shrinks:
  assumes inv: "mq_inv m" and c: "mq_Claim Timeout now q m = (cres, m')"
  shows "mq_claimable Timeout m' t q' \<subseteq> mq_claimable Timeout m t q'"
proof (cases rule: mq_Claim_cases [of Timeout now q m])
  case 1
  with c show ?thesis by simp
next
  case (2 r r')
  have "dbq_due (bson_time t) (bson_time (t - dbq_timeout Timeout)) q' r"
    if "dbq_due (bson_time t) (bson_time (t - dbq_timeout Timeout)) q' r'"
  proof -
    have "now < t - dbq_timeout Timeout"
      using that 2(3) by (auto simp: dbq_due_def unreserved_def intro: bson_time_less)
    then have "bson_time (now - dbq_timeout Timeout) \<le> bson_time (t - dbq_timeout Timeout)"
      using dbq_timeout_pos [of Timeout] by (intro bson_time_mono) simp
    then show ?thesis using 2(2,3) that by (auto simp: dbq_due_def intro: unreserved_mono)
  qed
  with 2 c show ?thesis by (auto simp: mq_claimable_def split: if_splits)
qed

lemma mq_Claim_Some:
  assumes inv: "mq_inv m" and c: "mq_Claim Timeout now q m = (Inr (Some c), m')"
  shows "rec_ID c \<in> mq_claimable Timeout m now q" "rec_Queue c = q"
    "mq_claimable Timeout m now q - {rec_ID c} \<subseteq> mq_claimable Timeout m' now q"
    "t \<le> now + dbq_timeout Timeout \<Longrightarrow> rec_ID c \<notin> mq_claimable Timeout m' t q"
proof -
  obtain r where r: "r \<in> set (m_jobs m)" "dbq_due (bson_time now) (bson_time (now - dbq_timeout Timeout)) q r"
    and cr: "c = r\<lparr>rec_ReservedAt := Some (bson_time now), rec_Attempts := rec_Attempts r + 1\<rparr>"
    and m': "m_jobs m' = map (\<lambda>d. if rec_ID d = rec_ID r then c else d) (m_jobs m)"
    using c by (cases rule: mq_Claim_cases [of Timeout now q m]) auto
  show "rec_ID c \<in> mq_claimable Timeout m now q" "rec_Queue c = q"
    using r by (auto simp: cr mq_claimable_def dbq_due_def)
  show "mq_claimable Timeout m now q - {rec_ID c} \<subseteq> mq_claimable Timeout m' now q"
    by (auto simp: mq_claimable_def m' cr)
  show "rec_ID c \<notin> mq_claimable Timeout m' t q" if "t \<le> now + dbq_timeout Timeout"
  proof -
    have "bson_time (t - dbq_timeout Timeout) \<le> bson_time now" using that by (intro bson_time_mono) simp
    then have "\<not> unreserved (bson_time (t - dbq_timeout Timeout)) c" by (simp add: cr unreserved_def)
    then show ?thesis by (auto simp: mq_claimable_def m' dbq_due_def cr)
  qed
qed

lemma mq_Push_inv:
  assumes "mq_inv m" and "mq_Push now r m = (pres, m')"
  shows "mq_inv m' \<and> (\<forall>i. mq_issued m i \<longrightarrow> mq_issued m' i)"
  using assms
  by (fastforce simp: mq_Push_def Let_def mq_inv_def mq_issued_def split: if_splits)

lemma mq_Push_others:
  assumes "mq_Push now r m = (pres, m')" and "mq_issued m i" and "i \<in> mq_claimable Timeout m' t q"
  shows "i \<in> mq_claimable Timeout m t q"
  using assms by (auto simp: mq_Push_def Let_def mq_claimable_def mq_issued_def split: if_splits)

lemma mq_delete_others:
  assumes "mq_inv m" and "m_jobs m0 = m_jobs m" and "m_seq m0 = m_seq m" and "m' = mq_delete_job (rec_ID r) m0"
  shows "mq_inv m' \<and> mq_issued m' = mq_issued m \<and>
    (\<forall>i t q. i \<noteq> rec_ID r \<longrightarrow> i \<in> mq_claimable Timeout m' t q \<longrightarrow> i \<in> mq_claimable Timeout m t q)"
  using assms by (auto simp: mq_delete_job_def mq_inv_def mq_issued_def mq_claimable_def distinct_map_filterI)

lemma mq_Release_others:
  assumes "mq_inv m" and "mq_Release r at reason m = (eres, m')"
  shows "mq_inv m' \<and> mq_issued m' = mq_issued m \<and>
    (\<forall>i t q. i \<noteq> rec_ID r \<longrightarrow> i \<in> mq_claimable Timeout m' t q \<longrightarrow> i \<in> mq_claimable Timeout m t q)"
proof -
  let ?f = "\<lambda>d. if rec_ID d = rec_ID r
    then d\<lparr>rec_ReservedAt := None, rec_AvailableAt := bson_time at, rec_LastError := truncate_str reason 4000\<rparr> else d"
  have "rec_ID \<circ> ?f = rec_ID" by auto
  then have "map rec_ID (map ?f (m_jobs m)) = map rec_ID (m_jobs m)" by simp
  moreover have m': "m' = m\<lparr>m_jobs := map ?f (m_jobs m)\<rparr>" using assms(2) by (simp add: mq_Release_def)
  ultimately have "mq_inv m' \<and> mq_issued m' = mq_issued m"
    using mq_inv_ids [OF assms(1), of m'] by simp
  then show ?thesis by (auto simp: m' mq_claimable_def split: if_splits)
qed

text \<open>The MongoDB driver keeps the whole contract.\<close>

interpretation mq: draining_driver "mq_Driver Timeout" mq_inv mq_issued "mq_claimable Timeout"
    "dbq_timeout Timeout"
proof (unfold_locales, unfold mq_Driver_def Driver.simps, goal_cases)
  case (1 m i t q)
  then show ?case by (auto simp: mq_claimable_def mq_inv_def mq_issued_def)
next
  case (2 m now q cres m')
  then show ?case by (rule mq_Claim_inv)
next
  case (3 m now q)
  show ?case by (rule mq_Claim_cases [of Timeout now q m]) blast+
next
  case (4 m now q r m')
  then show ?case using mq_Claim_Some [OF 4] by simp
next
  case (5 m now q r m' t)
  then show ?case by (rule mq_Claim_Some(4))
next
  case (6 m now q cres m' t q')
  then show ?case by (rule mq_Claim_shrinks)
next
  case (7 m now r pres m')
  then show ?case by (rule mq_Push_inv)
next
  case (8 m now r pres m' i t q')
  from 8(2,4,5) show ?case by (rule mq_Push_others)
next
  case (9 m r res m')
  from 9(1) show ?case
    by (rule mq_delete_others [where m0 = m]) (use 9(3) in \<open>auto simp: mq_Complete_def\<close>)
next
  case (10 m r at reason res m')
  from 10(1,3) show ?case by (rule mq_Release_others)
next
  case (11 m r now reason res m')
  have "m' = mq_delete_job (rec_ID r) (mq_record_failure now r reason m)"
    using 11(3) by (simp add: mq_Fail_def)
  then show ?case by (intro mq_delete_others [OF 11(1)]) (simp_all add: mq_record_failure_def Let_def)
next
  case 12
  show ?case using dbq_timeout_pos [of Timeout] by simp
next
  case (13 m t q)
  show ?case by (simp add: mq_claimable_def)
next
  case (14 m now q m')
  then show ?case by (cases rule: mq_Claim_cases [of Timeout now q m]) (auto simp: mq_claimable_def)
qed

lemma mq_record_failure_iff:
  "f \<in> set (m_failed (mq_record_failure now r reason m)) \<and> fr_ID f = rec_ID r \<longleftrightarrow>
   f = \<lparr>fr_ID = rec_ID r, fr_Queue = rec_Queue r, fr_Name = rec_Name r, fr_Payload = rec_Payload r,
        fr_Attempts = rec_Attempts r, fr_LastError = truncate_str reason 4000, fr_FailedAt = bson_time now\<rparr>"
  (is "_ \<longleftrightarrow> f = ?doc")
proof (cases "rec_ID r \<in> fr_ID ` set (m_failed m)")
  case True
  then obtain x where x: "x \<in> set (m_failed m)" "fr_ID x = rec_ID r" by force
  have "?doc \<in> (\<lambda>f. if fr_ID f = rec_ID r then ?doc else f) ` set (m_failed m)"
    using x by (intro image_eqI [of _ _ x]) simp_all
  moreover have "set (m_failed (mq_record_failure now r reason m)) =
      (\<lambda>f. if fr_ID f = rec_ID r then ?doc else f) ` set (m_failed m)"
    using True by (simp add: mq_record_failure_def Let_def)
  ultimately show ?thesis by (auto split: if_splits)
next
  case False
  then have "f \<in> set (m_failed m) \<Longrightarrow> fr_ID f \<noteq> rec_ID r" by (metis imageI)
  with False show ?thesis by (auto simp: mq_record_failure_def Let_def)
qed

lemma mq_record_failure_others:
  "filter (\<lambda>f. fr_ID f \<noteq> rec_ID r) (m_failed (mq_record_failure now r reason m)) =
   filter (\<lambda>f. fr_ID f \<noteq> rec_ID r) (m_failed m)"
proof -
  have "filter (\<lambda>f. fr_ID f \<noteq> i) (map (\<lambda>f. if fr_ID f = i then d else f) xs) = filter (\<lambda>f. fr_ID f \<noteq> i) xs"
    if "fr_ID d = i" for i and d :: FailedRecord and xs
    using that by (induction xs) auto
  then show ?thesis by (simp add: mq_record_failure_def Let_def)
qed

section \<open>Properties\<close>

text \<open>The MongoDB driver loses no job to a crash between the two writes of Fail: after the first
  write the job is on the failed list and still queued, and doing the whole Fail again, as the
  next worker that claims it would, leaves exactly one failure record of that id and no job.\<close>

theorem mq_fail_crash_safe:
  assumes "r \<in> set (m_jobs m)"
    and "m1 = mq_record_failure now r reason m" and "mq_Fail now' r reason' m1 = (e, m2)"
  shows "r \<in> set (m_jobs m1)
    \<and> (\<exists>f \<in> set (m_failed m1). fr_ID f = rec_ID r \<and> fr_Name f = rec_Name r \<and> fr_Payload f = rec_Payload r)
    \<and> rec_ID r \<notin> rec_ID ` set (m_jobs m2)
    \<and> (\<exists>!f. f \<in> set (m_failed m2) \<and> fr_ID f = rec_ID r)
    \<and> filter (\<lambda>f. fr_ID f \<noteq> rec_ID r) (m_failed m2) = filter (\<lambda>f. fr_ID f \<noteq> rec_ID r) (m_failed m)"
proof -
  have m2: "m2 = mq_delete_job (rec_ID r) (mq_record_failure now' r reason' m1)"
    using assms(3) by (simp add: mq_Fail_def)
  have "r \<in> set (m_jobs m1)" using assms(1,2) by (simp add: mq_record_failure_def Let_def)
  moreover have f1: "\<exists>f \<in> set (m_failed m1). fr_ID f = rec_ID r \<and> fr_Name f = rec_Name r \<and> fr_Payload f = rec_Payload r"
    unfolding assms(2) by (rule bexI [OF _ conjunct1 [OF iffD2 [OF mq_record_failure_iff refl]]]) simp
  moreover have "rec_ID r \<notin> rec_ID ` set (m_jobs m2)" by (auto simp: m2 mq_delete_job_def)
  moreover have "\<exists>!f. f \<in> set (m_failed m2) \<and> fr_ID f = rec_ID r"
    using mq_record_failure_iff [of _ now' r reason' m1] by (simp add: m2 mq_delete_job_def)
  moreover have "filter (\<lambda>f. fr_ID f \<noteq> rec_ID r) (m_failed m2) = filter (\<lambda>f. fr_ID f \<noteq> rec_ID r) (m_failed m)"
    by (simp add: m2 mq_delete_job_def mq_record_failure_others assms(2))
  ultimately show ?thesis by blast
qed

theorem mq_fail_crash_safe_witness:
  "\<exists>m1 e m2. m1 = mq_record_failure 7 ((sample_record 4)\<lparr>rec_ID := 1\<rparr>) ''boom''
       \<lparr>m_jobs = [(sample_record 4)\<lparr>rec_ID := 1\<rparr>], m_failed = [], m_seq = 1\<rparr>
     \<and> mq_Fail 8 ((sample_record 4)\<lparr>rec_ID := 1\<rparr>) ''boom'' m1 = (e, m2) \<and> m_jobs m1 \<noteq> []
     \<and> (\<exists>!f. f \<in> set (m_failed m2) \<and> fr_ID f = 1)"
proof -
  let ?r = "(sample_record 4)\<lparr>rec_ID := 1\<rparr>"
  let ?m = "\<lparr>m_jobs = [?r], m_failed = [], m_seq = 1\<rparr>"
  obtain m1 where m1: "m1 = mq_record_failure 7 ?r ''boom'' ?m" by blast
  obtain e m2 where m2: "mq_Fail 8 ?r ''boom'' m1 = (e, m2)" by fastforce
  have "?r \<in> set (m_jobs ?m)" by simp
  note facts = mq_fail_crash_safe [OF this m1 m2]
  then have "m_jobs m1 \<noteq> []" by auto
  moreover have "\<exists>!f. f \<in> set (m_failed m2) \<and> fr_ID f = 1" using facts by simp
  ultimately show ?thesis using m1 m2 by blast
qed

end
