(* ===== verification/Cache.thy ===== *)
theory Cache
  imports Prelude Complex_Main
begin

text \<open>
  Package \<^verbatim>\<open>cache\<close>: the interface \<^verbatim>\<open>Store\<close> and the helpers over it (\<^verbatim>\<open>cache/cache.go\<close>), and its
  four stores: memory (\<^verbatim>\<open>cache/memory.go\<close>), database (\<^verbatim>\<open>cache/db.go\<close>), Redis
  (\<^verbatim>\<open>cache/redis/redis.go\<close>) and MongoDB (\<^verbatim>\<open>cache/mongo/mongo.go\<close>).  The abstract
  specification is a map from keys to a value and a deadline; a store may forget an entry but
  never invents one, and the three stores without a size limit forget nothing.  The order in
  which Go walks a map is the parameter \<open>order\<close>, the keys in some order.
\<close>

type_synonym bytes = string

text \<open>The interface \<^verbatim>\<open>Store\<close>; a Get that fails, misses or hits is \<^term>\<open>Inl e\<close>, \<^term>\<open>Inr None\<close> or
  \<^term>\<open>Inr (Some v)\<close>.\<close>

record 's Store =
  cs_Get :: "time \<Rightarrow> string \<Rightarrow> 's \<Rightarrow> (string, bytes option) result \<times> 's"
  cs_Set :: "time \<Rightarrow> string \<Rightarrow> bytes \<Rightarrow> duration \<Rightarrow> 's \<Rightarrow> string option \<times> 's"
  cs_Delete :: "string \<Rightarrow> 's \<Rightarrow> string option \<times> 's"
  cs_Clear :: "'s \<Rightarrow> string option \<times> 's"

section \<open>Helpers over a store\<close>

definition GetJSON ::
  "(bytes \<Rightarrow> 'v option) \<Rightarrow> 's Store \<Rightarrow> time \<Rightarrow> string \<Rightarrow> 's \<Rightarrow> (string, 'v option) result \<times> 's" where
  "GetJSON unmarshal S now key s =
     (case cs_Get S now key s of
        (Inl e, s1) \<Rightarrow> (Inl e, s1)
      | (Inr None, s1) \<Rightarrow> (Inr None, s1)
      | (Inr (Some raw), s1) \<Rightarrow>
          (case unmarshal raw of
             None \<Rightarrow> (Inr None, snd (cs_Delete S key s1))
           | Some v \<Rightarrow> (Inr (Some v), s1)))"

definition SetJSON ::
  "('v \<Rightarrow> bytes option) \<Rightarrow> 's Store \<Rightarrow> time \<Rightarrow> string \<Rightarrow> 'v \<Rightarrow> duration \<Rightarrow> 's \<Rightarrow> string option \<times> 's" where
  "SetJSON marshal S now key v ttl s =
     (case marshal v of
        None \<Rightarrow> (Some (''cache: encode '' @ key), s)
      | Some raw \<Rightarrow> cs_Set S now key raw ttl s)"

text \<open>\<^verbatim>\<open>Remember\<close> for one caller: the second lookup is the one inside the single-flight group.
  \<open>computed\<close> is what the callback returns; the last component says whether it was called.\<close>

definition Remember ::
  "('v \<Rightarrow> bytes option) \<Rightarrow> (bytes \<Rightarrow> 'v option) \<Rightarrow> 's Store \<Rightarrow> time \<Rightarrow> string \<Rightarrow> duration
     \<Rightarrow> (string, 'v) result \<Rightarrow> 's \<Rightarrow> (string, 'v) result \<times> 's \<times> bool" where
  "Remember marshal unmarshal S now key ttl computed s =
     (case GetJSON unmarshal S now key s of
        (Inr (Some v), s1) \<Rightarrow> (Inr v, s1, False)
      | (_, s1) \<Rightarrow>
          (case GetJSON unmarshal S now key s1 of
             (Inr (Some v), s2) \<Rightarrow> (Inr v, s2, False)
           | (_, s2) \<Rightarrow>
               (case computed of
                  Inl e \<Rightarrow> (Inl e, s2, True)
                | Inr v \<Rightarrow> (Inr v, snd (SetJSON marshal S now key v ttl s2), True))))"

text \<open>\<^verbatim>\<open>Jitter\<close> with the random number \<open>u\<close> between 0 and 1; the conversion truncates.\<close>

definition Jitter :: "rat \<Rightarrow> duration \<Rightarrow> rat \<Rightarrow> duration" where
  "Jitter u ttl fraction =
     (if ttl \<le> 0 \<or> fraction \<le> 0 then ttl else ttl + \<lfloor>u * (of_int ttl * fraction)\<rfloor>)"

section \<open>The memory store\<close>

definition DefaultMaxEntries :: nat where "DefaultMaxEntries = 10000"

record entry =
  ent_value :: bytes
  ent_expiresAt :: time
  ent_touched :: time

definition ent_expired :: "time \<Rightarrow> entry \<Rightarrow> bool" where
  "ent_expired now e = (ent_expiresAt e \<noteq> zero_time \<and> now > ent_expiresAt e)"

record Memory =
  mem_MaxEntries :: int
  mem_entries :: "(string, entry) fmap"

definition NewMemory :: Memory where
  "NewMemory = \<lparr>mem_MaxEntries = 0, mem_entries = fmempty\<rparr>"

definition mem_limit :: "Memory \<Rightarrow> nat" where
  "mem_limit m = (if mem_MaxEntries m > 0 then nat (mem_MaxEntries m) else DefaultMaxEntries)"

definition mem_Len :: "Memory \<Rightarrow> nat" where
  "mem_Len m = fcard (fmdom (mem_entries m))"

definition mem_Get :: "time \<Rightarrow> string \<Rightarrow> Memory \<Rightarrow> (string, bytes option) result \<times> Memory" where
  "mem_Get now key m =
     (case fmlookup (mem_entries m) key of
        None \<Rightarrow> (Inr None, m)
      | Some e \<Rightarrow>
          if ent_expired now e then (Inr None, m\<lparr>mem_entries := fmdrop key (mem_entries m)\<rparr>)
          else (Inr (Some (ent_value e)),
                m\<lparr>mem_entries := fmupd key (e\<lparr>ent_touched := now\<rparr>) (mem_entries m)\<rparr>))"

text \<open>The inner loop of evict: the zero time marks that no candidate was seen.\<close>

fun mem_oldest :: "(string, entry) fmap \<Rightarrow> string list \<Rightarrow> string \<times> time \<Rightarrow> string \<times> time" where
  "mem_oldest es [] best = best"
| "mem_oldest es (k # ks) best =
     (case fmlookup es k of
        None \<Rightarrow> mem_oldest es ks best
      | Some e \<Rightarrow> mem_oldest es ks
          (if snd best = zero_time \<or> ent_touched e < snd best then (k, ent_touched e) else best))"

text \<open>The outer loop; each round removes an entry, so as many rounds as there are entries are
  enough.\<close>

fun mem_evict_loop ::
  "((string, entry) fmap \<Rightarrow> string list) \<Rightarrow> nat \<Rightarrow> nat \<Rightarrow> (string, entry) fmap \<Rightarrow> (string, entry) fmap" where
  "mem_evict_loop order limit 0 es = es"
| "mem_evict_loop order limit (Suc fuel) es =
     (if fcard (fmdom es) \<le> limit then es
      else let k = fst (mem_oldest es (order es) ([], zero_time))
           in if k = [] then es else mem_evict_loop order limit fuel (fmdrop k es))"

definition mem_evict :: "((string, entry) fmap \<Rightarrow> string list) \<Rightarrow> time \<Rightarrow> Memory \<Rightarrow> Memory" where
  "mem_evict order now m =
     (if mem_Len m \<le> mem_limit m then m
      else let es = fmfilter (\<lambda>k. case fmlookup (mem_entries m) k of
                       None \<Rightarrow> True | Some e \<Rightarrow> \<not> ent_expired now e) (mem_entries m)
           in m\<lparr>mem_entries := mem_evict_loop order (mem_limit m) (fcard (fmdom es)) es\<rparr>)"

definition mem_Set ::
  "((string, entry) fmap \<Rightarrow> string list) \<Rightarrow> time \<Rightarrow> string \<Rightarrow> bytes \<Rightarrow> duration \<Rightarrow> Memory
     \<Rightarrow> string option \<times> Memory" where
  "mem_Set order now key v ttl m =
     (None, mem_evict order now
        (m\<lparr>mem_entries := fmupd key
             \<lparr>ent_value = v, ent_expiresAt = (if ttl > 0 then now + ttl else zero_time), ent_touched = now\<rparr>
             (mem_entries m)\<rparr>))"

definition mem_Delete :: "string \<Rightarrow> Memory \<Rightarrow> string option \<times> Memory" where
  "mem_Delete key m = (None, m\<lparr>mem_entries := fmdrop key (mem_entries m)\<rparr>)"

definition mem_Clear :: "Memory \<Rightarrow> string option \<times> Memory" where
  "mem_Clear m = (None, m\<lparr>mem_entries := fmempty\<rparr>)"

definition mem_Store :: "((string, entry) fmap \<Rightarrow> string list) \<Rightarrow> Memory Store" where
  "mem_Store order = \<lparr>cs_Get = mem_Get, cs_Set = mem_Set order, cs_Delete = mem_Delete, cs_Clear = mem_Clear\<rparr>"

section \<open>The database store\<close>

record cache_Record =
  cr_Value :: bytes
  cr_ExpiresAt :: "time option"

type_synonym cache_table = "(string, cache_Record) fmap"

definition cr_expired :: "time \<Rightarrow> cache_Record \<Rightarrow> bool" where
  "cr_expired now r = (case cr_ExpiresAt r of None \<Rightarrow> False | Some t \<Rightarrow> now > t)"

definition cdb_Get :: "time \<Rightarrow> string \<Rightarrow> cache_table \<Rightarrow> (string, bytes option) result \<times> cache_table" where
  "cdb_Get now key db =
     (case fmlookup db key of
        None \<Rightarrow> (Inr None, db)
      | Some r \<Rightarrow> if cr_expired now r then (Inr None, fmdrop key db) else (Inr (Some (cr_Value r)), db))"

definition cdb_Set ::
  "time \<Rightarrow> string \<Rightarrow> bytes \<Rightarrow> duration \<Rightarrow> cache_table \<Rightarrow> string option \<times> cache_table" where
  "cdb_Set now key v ttl db =
     (None, fmupd key \<lparr>cr_Value = v, cr_ExpiresAt = (if ttl > 0 then Some (now + ttl) else None)\<rparr> db)"

definition cdb_Delete :: "string \<Rightarrow> cache_table \<Rightarrow> string option \<times> cache_table" where
  "cdb_Delete key db = (None, fmdrop key db)"

definition cdb_Clear :: "cache_table \<Rightarrow> string option \<times> cache_table" where
  "cdb_Clear db = (None, fmempty)"

definition cdb_Prune :: "time \<Rightarrow> cache_table \<Rightarrow> nat \<times> cache_table" where
  "cdb_Prune now db =
     (let db' = fmfilter (\<lambda>k. case fmlookup db k of
                  Some r \<Rightarrow> (case cr_ExpiresAt r of Some t \<Rightarrow> \<not> t < now | None \<Rightarrow> True) | None \<Rightarrow> True) db
      in (fcard (fmdom db) - fcard (fmdom db'), db'))"

definition cdb_Store :: "cache_table Store" where
  "cdb_Store = \<lparr>cs_Get = cdb_Get, cs_Set = cdb_Set, cs_Delete = cdb_Delete, cs_Clear = cdb_Clear\<rparr>"

section \<open>The Redis and MongoDB stores\<close>

text \<open>Both share a server with other data, so their keys are prefixed and Clear removes the keys
  with the prefix.\<close>

definition prefixed :: "string \<Rightarrow> string \<Rightarrow> string" where
  "prefixed prefix k = (if prefix = [] then k else prefix @ '':'' @ k)"

text \<open>A key with its deadline in Redis, which drops it by itself: a command at a later time does
  not see it.\<close>

definition crd_Get ::
  "string \<Rightarrow> time \<Rightarrow> string \<Rightarrow> cache_table \<Rightarrow> (string, bytes option) result \<times> cache_table" where
  "crd_Get prefix now key rd =
     (case fmlookup rd (prefixed prefix key) of
        None \<Rightarrow> (Inr None, rd)
      | Some r \<Rightarrow> if cr_expired now r then (Inr None, rd) else (Inr (Some (cr_Value r)), rd))"

definition crd_Set ::
  "string \<Rightarrow> time \<Rightarrow> string \<Rightarrow> bytes \<Rightarrow> duration \<Rightarrow> cache_table \<Rightarrow> string option \<times> cache_table" where
  "crd_Set prefix now key v ttl rd =
     (None, fmupd (prefixed prefix key)
        \<lparr>cr_Value = v, cr_ExpiresAt = (if ttl > 0 then Some (now + ttl) else None)\<rparr> rd)"

definition crd_Delete :: "string \<Rightarrow> string \<Rightarrow> cache_table \<Rightarrow> string option \<times> cache_table" where
  "crd_Delete prefix key rd = (None, fmdrop (prefixed prefix key) rd)"

text \<open>The pattern of SCAN for a prefix without glob characters; without a prefix it matches every
  key of the server.\<close>

definition crd_Clear :: "string \<Rightarrow> cache_table \<Rightarrow> string option \<times> cache_table" where
  "crd_Clear prefix rd =
     (None, fmfilter (\<lambda>k. \<not> (prefix = [] \<or> has_prefix k (prefix @ '':''))) rd)"

definition crd_Store :: "string \<Rightarrow> cache_table Store" where
  "crd_Store prefix = \<lparr>cs_Get = crd_Get prefix, cs_Set = crd_Set prefix, cs_Delete = crd_Delete prefix,
     cs_Clear = crd_Clear prefix\<rparr>"

text \<open>MongoDB: the deadline is checked on reading and the expired document deleted; the unique
  index makes the collection a map; times are kept to the millisecond.\<close>

definition cmg_Get ::
  "string \<Rightarrow> time \<Rightarrow> string \<Rightarrow> cache_table \<Rightarrow> (string, bytes option) result \<times> cache_table" where
  "cmg_Get prefix now key docs =
     (case fmlookup docs (prefixed prefix key) of
        None \<Rightarrow> (Inr None, docs)
      | Some r \<Rightarrow> if cr_expired now r then (Inr None, fmdrop (prefixed prefix key) docs)
                  else (Inr (Some (cr_Value r)), docs))"

definition cmg_Set ::
  "string \<Rightarrow> time \<Rightarrow> string \<Rightarrow> bytes \<Rightarrow> duration \<Rightarrow> cache_table \<Rightarrow> string option \<times> cache_table" where
  "cmg_Set prefix now key v ttl docs =
     (None, fmupd (prefixed prefix key)
        \<lparr>cr_Value = v, cr_ExpiresAt = (if ttl > 0 then Some (((now + ttl) div Millisecond) * Millisecond) else None)\<rparr> docs)"

definition cmg_Delete :: "string \<Rightarrow> string \<Rightarrow> cache_table \<Rightarrow> string option \<times> cache_table" where
  "cmg_Delete prefix key docs = (None, fmdrop (prefixed prefix key) docs)"

definition cmg_Clear :: "string \<Rightarrow> cache_table \<Rightarrow> string option \<times> cache_table" where
  "cmg_Clear prefix docs =
     (None, fmfilter (\<lambda>k. \<not> (prefix = [] \<or> has_prefix k (prefix @ '':''))) docs)"

definition cmg_Store :: "string \<Rightarrow> cache_table Store" where
  "cmg_Store prefix = \<lparr>cs_Get = cmg_Get prefix, cs_Set = cmg_Set prefix, cs_Delete = cmg_Delete prefix,
     cs_Clear = cmg_Clear prefix\<rparr>"

end
