(* ===== verification/CacheProps.thy ===== *)
theory CacheProps
  imports Cache
begin

text \<open>
  What the stores of package \<^verbatim>\<open>cache\<close> promise.  The specification is a map from keys to a value
  and an optional deadline.  The locale \<open>cache_store\<close> says that a store answers nothing the
  specification would not answer, \<open>lossless_store\<close> that it answers everything the
  specification does.  All four stores interpret the first, the database and Redis stores the
  second.
\<close>

section \<open>The specification\<close>

datatype cache_op =
    C_Get time string
  | C_Set time string bytes duration
  | C_Delete time string
  | C_Clear time

fun op_time :: "cache_op \<Rightarrow> time" where
  "op_time (C_Get t k) = t"
| "op_time (C_Set t k v ttl) = t"
| "op_time (C_Delete t k) = t"
| "op_time (C_Clear t) = t"

type_synonym cache_spec = "string \<Rightarrow> (bytes \<times> time option) option"

fun spec_step :: "cache_op \<Rightarrow> cache_spec \<Rightarrow> cache_spec" where
  "spec_step (C_Get t k) m = m"
| "spec_step (C_Set t k v ttl) m = m(k \<mapsto> (v, if ttl > 0 then Some (t + ttl) else None))"
| "spec_step (C_Delete t k) m = m(k := None)"
| "spec_step (C_Clear t) m = (\<lambda>_. None)"

definition spec_run :: "cache_op list \<Rightarrow> cache_spec" where
  "spec_run ops = foldl (\<lambda>m e. spec_step e m) (\<lambda>_. None) ops"

definition spec_get :: "cache_spec \<Rightarrow> time \<Rightarrow> string \<Rightarrow> bytes option" where
  "spec_get m t k =
     (case m k of
        None \<Rightarrow> None
      | Some (v, None) \<Rightarrow> Some v
      | Some (v, Some deadline) \<Rightarrow> if t > deadline then None else Some v)"

fun store_step :: "'s Store \<Rightarrow> cache_op \<Rightarrow> 's \<Rightarrow> 's" where
  "store_step S (C_Get t k) s = snd (cs_Get S t k s)"
| "store_step S (C_Set t k v ttl) s = snd (cs_Set S t k v ttl s)"
| "store_step S (C_Delete t k) s = snd (cs_Delete S k s)"
| "store_step S (C_Clear t) s = snd (cs_Clear S s)"

definition store_run :: "'s Store \<Rightarrow> cache_op list \<Rightarrow> 's \<Rightarrow> 's" where
  "store_run S ops s = foldl (\<lambda>s e. store_step S e s) s ops"

lemma spec_get_set:
  "spec_get (spec_step (C_Set t0 k v ttl) m) t k' =
     (if k' = k then if ttl \<le> 0 \<or> t \<le> t0 + ttl then Some v else None else spec_get m t k')"
  by (simp add: spec_get_def)

lemma spec_get_delete: "spec_get (spec_step (C_Delete t0 k) m) t k' = (if k' = k then None else spec_get m t k')"
  by (simp add: spec_get_def)

lemma spec_get_clear: "spec_get (spec_step (C_Clear t0) m) t k' = None"
  by (simp add: spec_get_def)

lemmas spec_get_simps = spec_get_set spec_get_delete spec_get_clear

lemma spec_get_empty [simp]: "spec_get (\<lambda>_. None) t k = None"
  by (simp add: spec_get_def)

section \<open>Stores that never invent\<close>

locale cache_store =
  fixes S :: "'s Store"
    and peek :: "'s \<Rightarrow> time \<Rightarrow> string \<Rightarrow> bytes option"
  assumes get_peek: "0 < now \<Longrightarrow> fst (cs_Get S now k s) = Inr (peek s now k)"
    and get_keeps: "0 < now \<Longrightarrow> now \<le> t \<Longrightarrow> peek (snd (cs_Get S now k s)) t k' = peek s t k'"
    and set_own: "0 < now \<Longrightarrow> peek (snd (cs_Set S now k v ttl s)) t k = Some x \<Longrightarrow>
          x = v \<and> (ttl \<le> 0 \<or> t \<le> now + ttl)"
    and set_other: "0 < now \<Longrightarrow> k' \<noteq> k \<Longrightarrow> peek (snd (cs_Set S now k v ttl s)) t k' = Some x \<Longrightarrow>
          peek s t k' = Some x"
    and delete_peek: "peek (snd (cs_Delete S k s)) t k' = (if k' = k then None else peek s t k')"
    and clear_peek: "peek (snd (cs_Clear S s)) t k = None"
begin

lemma step_sound:
  assumes R: "\<forall>t k x. T \<le> t \<longrightarrow> peek s t k = Some x \<longrightarrow> spec_get m t k = Some x"
    and "0 < op_time e" and "T \<le> op_time e"
  shows "\<forall>t k x. op_time e \<le> t \<longrightarrow> peek (store_step S e s) t k = Some x \<longrightarrow> spec_get (spec_step e m) t k = Some x"
proof (intro allI impI)
  fix t k x
  assume t: "op_time e \<le> t" and p: "peek (store_step S e s) t k = Some x"
  have old: "peek s t k = Some x \<Longrightarrow> spec_get m t k = Some x" using R t assms(3) by fastforce
  show "spec_get (spec_step e m) t k = Some x"
  proof (cases e)
    case (C_Get t0 k0)
    with p t old assms(2) show ?thesis by (simp add: get_keeps)
  next
    case (C_Set t0 k0 v ttl)
    then show ?thesis
      using p assms(2) old set_own [of t0 k0 v ttl s t x] set_other [of t0 k k0 v ttl s t x]
      by (cases "k = k0") (auto simp: spec_get_set simp del: spec_step.simps)
  next
    case (C_Delete t0 k0)
    with p old show ?thesis by (simp add: delete_peek spec_get_delete del: spec_step.simps split: if_splits)
  next
    case (C_Clear t0)
    with p show ?thesis by (simp add: clear_peek)
  qed
qed

lemma run_sound_from:
  assumes "\<forall>t k x. T \<le> t \<longrightarrow> peek s t k = Some x \<longrightarrow> spec_get m t k = Some x"
    and "\<forall>e \<in> set ops. 0 < op_time e" and "sorted (T # map op_time ops)"
    and "last (T # map op_time ops) \<le> t" and "peek (store_run S ops s) t k = Some x"
  shows "spec_get (foldl (\<lambda>m e. spec_step e m) m ops) t k = Some x"
  using assms
proof (induction ops arbitrary: s m T)
  case Nil
  then show ?case by (simp add: store_run_def)
next
  case (Cons e ops)
  have e: "0 < op_time e" "T \<le> op_time e" using Cons.prems(2,3) by auto
  have "spec_get (foldl (\<lambda>m e. spec_step e m) (spec_step e m) ops) t k = Some x"
    by (rule Cons.IH [OF step_sound [OF Cons.prems(1) e]])
       (use Cons.prems in \<open>auto simp: store_run_def\<close>)
  then show ?case by simp
qed

lemma run_sound:
  assumes "\<And>t k. peek s t k = None" and "\<forall>e \<in> set ops. 0 < op_time e" and "sorted (map op_time ops)"
    and "\<forall>e \<in> set ops. op_time e \<le> now" and "0 < now"
    and "cs_Get S now k (store_run S ops s) = (Inr (Some x), s')"
  shows "spec_get (spec_run ops) now k = Some x"
proof -
  have p: "peek (store_run S ops s) now k = Some x" using get_peek [OF assms(5)] assms(6) by (metis fst_conv sum.inject(2))
  show ?thesis
    unfolding spec_run_def
  proof (rule run_sound_from [of 0 s])
    show "sorted (0 # map op_time ops)" using assms(2,3) by auto
    show "last (0 # map op_time ops) \<le> now"
      using assms(4,5) by (cases "ops = []") (simp_all add: last_map)
  qed (use assms p in auto)
qed

end

section \<open>Stores that forget nothing\<close>

locale lossless_store = cache_store +
  assumes set_kept: "0 < now \<Longrightarrow> peek (snd (cs_Set S now k v ttl s)) t k =
        (if ttl \<le> 0 \<or> t \<le> now + ttl then Some v else None)"
    and others_kept: "0 < now \<Longrightarrow> k' \<noteq> k \<Longrightarrow> peek (snd (cs_Set S now k v ttl s)) t k' = peek s t k'"
begin

lemma step_exact:
  assumes "\<forall>t k. T \<le> t \<longrightarrow> peek s t k = spec_get m t k" and "0 < op_time e" and "T \<le> op_time e"
    and "op_time e \<le> t"
  shows "peek (store_step S e s) t k = spec_get (spec_step e m) t k"
proof (cases e)
  case (C_Get t0 k0)
  with assms show ?thesis by (simp add: get_keeps)
next
  case (C_Set t0 k0 v ttl)
  with assms show ?thesis
    by (cases "k = k0") (simp_all add: set_kept others_kept spec_get_set del: spec_step.simps)
next
  case (C_Delete t0 k0)
  with assms show ?thesis by (simp add: delete_peek spec_get_delete del: spec_step.simps)
next
  case (C_Clear t0)
  then show ?thesis by (simp add: clear_peek)
qed

lemma run_exact_from:
  assumes "\<forall>t k. T \<le> t \<longrightarrow> peek s t k = spec_get m t k"
    and "\<forall>e \<in> set ops. 0 < op_time e" and "sorted (T # map op_time ops)"
    and "last (T # map op_time ops) \<le> t"
  shows "peek (store_run S ops s) t k = spec_get (foldl (\<lambda>m e. spec_step e m) m ops) t k"
  using assms
proof (induction ops arbitrary: s m T)
  case (Cons e ops)
  have e: "0 < op_time e" "T \<le> op_time e" using Cons.prems(2,3) by auto
  have "peek (store_run S ops (store_step S e s)) t k =
      spec_get (foldl (\<lambda>m e. spec_step e m) (spec_step e m) ops) t k"
    by (rule Cons.IH [of "op_time e"]) (use Cons.prems step_exact [OF Cons.prems(1) e] in auto)
  then show ?case by (simp add: store_run_def)
qed (simp add: store_run_def)

lemma run_exact:
  assumes "\<And>t k. peek s t k = None" and "\<forall>e \<in> set ops. 0 < op_time e" and "sorted (map op_time ops)"
    and "\<forall>e \<in> set ops. op_time e \<le> now" and "0 < now"
  shows "fst (cs_Get S now k (store_run S ops s)) = Inr (spec_get (spec_run ops) now k)"
proof -
  have "peek (store_run S ops s) now k = spec_get (spec_run ops) now k"
    unfolding spec_run_def
  proof (rule run_exact_from [of 0])
    show "sorted (0 # map op_time ops)" using assms(2,3) by auto
    show "last (0 # map op_time ops) \<le> now"
      using assms(4,5) by (cases "ops = []") (simp_all add: last_map)
  qed (use assms in auto)
  with get_peek [OF assms(5)] show ?thesis by simp
qed

lemma GetJSON_peek:
  assumes "0 < now" and "\<And>raw. peek s now k = Some raw \<Longrightarrow> unmarshal raw = Some (f raw)"
  shows "GetJSON unmarshal S now k s = (Inr (map_option f (peek s now k)), snd (cs_Get S now k s))"
  using get_peek [OF assms(1), of k s] assms(2)
  by (cases "cs_Get S now k s"; cases "peek s now k") (auto simp: GetJSON_def)

lemma remember_once:
  assumes t: "0 < now" "now \<le> t" "ttl \<le> 0 \<or> t \<le> now + ttl"
    and m: "marshal v = Some raw" "unmarshal raw = Some v"
    and miss: "peek s now k = None"
    and r: "Remember marshal unmarshal S now k ttl (Inr v) s = (res, s', called)"
  shows "res = Inr v \<and> called \<and>
    (\<forall>computed. \<exists>s''. Remember marshal unmarshal S t k ttl computed s' = (Inr v, s'', False))"
proof -
  let ?s1 = "snd (cs_Get S now k s)"
  have p1: "peek ?s1 now k = None" using get_keeps [OF t(1) order_refl] miss by simp
  have g: "GetJSON unmarshal S now k s = (Inr None, ?s1)" using GetJSON_peek [OF t(1), of s k unmarshal "\<lambda>_. v"] miss by simp
  have g1: "GetJSON unmarshal S now k ?s1 = (Inr None, snd (cs_Get S now k ?s1))"
    using GetJSON_peek [OF t(1), of ?s1 k unmarshal "\<lambda>_. v"] p1 by simp
  have r': "res = Inr v" "called" and s': "s' = snd (cs_Set S now k raw ttl (snd (cs_Get S now k ?s1)))"
    using r by (auto simp: Remember_def g g1 SetJSON_def m)
  have "peek s' t k = Some raw" using t by (simp add: s' set_kept)
  then have "GetJSON unmarshal S t k s' = (Inr (Some v), snd (cs_Get S t k s'))"
    using GetJSON_peek [of t s' k unmarshal "\<lambda>_. v"] t m by simp
  then show ?thesis using r' by (simp add: Remember_def)
qed

end

section \<open>The stores of the repository\<close>

definition mem_peek :: "Memory \<Rightarrow> time \<Rightarrow> string \<Rightarrow> bytes option" where
  "mem_peek m t k =
     (case fmlookup (mem_entries m) k of
        None \<Rightarrow> None | Some e \<Rightarrow> if ent_expired t e then None else Some (ent_value e))"

definition table_peek :: "(string \<Rightarrow> string) \<Rightarrow> cache_table \<Rightarrow> time \<Rightarrow> string \<Rightarrow> bytes option" where
  "table_peek f db t k =
     (case fmlookup db (f k) of None \<Rightarrow> None | Some r \<Rightarrow> if cr_expired t r then None else Some (cr_Value r))"

lemma mem_evict_loop_sub:
  "fmlookup (mem_evict_loop order limit fuel es) k = Some e \<Longrightarrow> fmlookup es k = Some e"
  by (induction order limit fuel es rule: mem_evict_loop.induct) (auto simp: Let_def split: if_splits)

lemma mem_evict_sub:
  "fmlookup (mem_entries (mem_evict order now m)) k = Some e \<Longrightarrow> fmlookup (mem_entries m) k = Some e"
  by (auto simp: mem_evict_def Let_def dest!: mem_evict_loop_sub split: if_splits)

lemma mem_Set_lookup:
  "fmlookup (mem_entries (snd (mem_Set order now k v ttl m))) k' = Some e \<Longrightarrow>
   (if k' = k then e = \<lparr>ent_value = v, ent_expiresAt = (if ttl > 0 then now + ttl else zero_time), ent_touched = now\<rparr>
    else fmlookup (mem_entries m) k' = Some e)"
  by (auto simp: mem_Set_def dest!: mem_evict_sub split: if_splits)

interpretation mem: cache_store "mem_Store order" mem_peek
proof (unfold_locales, unfold mem_Store_def Store.simps, goal_cases)
  case (1 now k s)
  show ?case by (simp add: mem_Get_def mem_peek_def split: option.split)
next
  case (2 now t k s k')
  then show ?case
    by (auto simp: mem_Get_def mem_peek_def ent_expired_def split: option.splits)
next
  case (3 now k v ttl s t x)
  then show ?case
    by (auto simp: mem_peek_def ent_expired_def zero_time_def dest!: mem_Set_lookup split: option.splits if_splits)
next
  case (4 now k' k v ttl s t x)
  then show ?case
    by (auto simp: mem_peek_def dest!: mem_Set_lookup split: option.splits if_splits)
next
  case (5 k s t k')
  show ?case by (simp add: mem_Delete_def mem_peek_def)
next
  case (6 s t k)
  show ?case by (simp add: mem_Clear_def mem_peek_def)
qed

interpretation cdb: lossless_store cdb_Store "table_peek (\<lambda>k. k)"
proof (unfold_locales, unfold cdb_Store_def Store.simps, goal_cases)
  case (1 now k s)
  show ?case by (simp add: cdb_Get_def table_peek_def split: option.split)
next
  case (2 now t k s k')
  then show ?case by (auto simp: cdb_Get_def table_peek_def cr_expired_def split: option.splits)
qed (auto simp: cdb_Set_def cdb_Delete_def cdb_Clear_def table_peek_def cr_expired_def split: if_splits)

lemma prefixed_eq [simp]: "prefixed p k = prefixed p k' \<longleftrightarrow> k = k'"
  by (simp add: prefixed_def)

lemma has_prefix_prefixed [simp]: "p \<noteq> [] \<Longrightarrow> has_prefix (prefixed p k) (p @ '':'')"
  by (simp add: prefixed_def has_prefix_def)

interpretation crd: lossless_store "crd_Store prefix" "table_peek (prefixed prefix)"
proof (unfold_locales, unfold crd_Store_def Store.simps, goal_cases)
  case (1 now k s)
  show ?case by (simp add: crd_Get_def table_peek_def split: option.split)
next
  case (2 now t k s k')
  then show ?case by (auto simp: crd_Get_def table_peek_def split: option.splits)
qed (auto simp: crd_Set_def crd_Delete_def crd_Clear_def table_peek_def cr_expired_def split: if_splits)

interpretation cmg: cache_store "cmg_Store prefix" "table_peek (prefixed prefix)"
proof (unfold_locales, unfold cmg_Store_def Store.simps, goal_cases)
  case (1 now k s)
  show ?case by (simp add: cmg_Get_def table_peek_def split: option.split)
next
  case (2 now t k s k')
  then show ?case by (auto simp: cmg_Get_def table_peek_def cr_expired_def split: option.splits)
next
  case (3 now k v ttl s t x)
  have "(now + ttl) div Millisecond * Millisecond \<le> now + ttl"
    using minus_mod_eq_div_mult [of "now + ttl" Millisecond] by (simp add: Millisecond_def)
  with 3 show ?case by (auto simp: cmg_Set_def table_peek_def cr_expired_def split: if_splits)
qed (auto simp: cmg_Set_def cmg_Delete_def cmg_Clear_def table_peek_def cr_expired_def split: if_splits)

section \<open>Eviction\<close>

definition enumerates :: "((string, entry) fmap \<Rightarrow> string list) \<Rightarrow> bool" where
  "enumerates order = (\<forall>es. set (order es) = fset (fmdom es))"

definition touched_pos :: "(string, entry) fmap \<Rightarrow> bool" where
  "touched_pos es = (\<forall>k e. fmlookup es k = Some e \<longrightarrow> zero_time < ent_touched e)"

lemma mem_oldest_min:
  assumes "touched_pos es"
    and "snd best = zero_time \<or> (\<exists>e. fmlookup es (fst best) = Some e \<and> ent_touched e = snd best \<and> zero_time < snd best)"
    and "snd best \<noteq> zero_time \<or> (\<exists>k \<in> set ks. fmlookup es k \<noteq> None)"
  shows "\<exists>e. fmlookup es (fst (mem_oldest es ks best)) = Some e \<and> ent_touched e = snd (mem_oldest es ks best)
    \<and> (snd best \<noteq> zero_time \<longrightarrow> snd (mem_oldest es ks best) \<le> snd best)
    \<and> (\<forall>k \<in> set ks. \<forall>e'. fmlookup es k = Some e' \<longrightarrow> snd (mem_oldest es ks best) \<le> ent_touched e')"
  using assms(2-)
proof (induction ks arbitrary: best)
  case Nil
  then show ?case by auto
next
  case (Cons k ks)
  show ?case
  proof (cases "fmlookup es k")
    case None
    with Cons show ?thesis by auto
  next
    case (Some e)
    then have pos: "zero_time < ent_touched e" using assms(1) by (auto simp: touched_pos_def)
    let ?b = "if snd best = zero_time \<or> ent_touched e < snd best then (k, ent_touched e) else best"
    let ?r = "mem_oldest es ks ?b"
    have b: "snd ?b \<noteq> zero_time" "snd ?b \<le> ent_touched e" "snd best \<noteq> zero_time \<longrightarrow> snd ?b \<le> snd best"
      "\<exists>e. fmlookup es (fst ?b) = Some e \<and> ent_touched e = snd ?b \<and> zero_time < snd ?b"
      using Some pos Cons.prems(1) by auto
    obtain e1 where "fmlookup es (fst ?r) = Some e1" "ent_touched e1 = snd ?r" "snd ?r \<le> snd ?b"
      "\<forall>k \<in> set ks. \<forall>e'. fmlookup es k = Some e' \<longrightarrow> snd ?r \<le> ent_touched e'"
      using Cons.IH [of ?b] b(1,4) by blast
    moreover have "mem_oldest es (k # ks) best = ?r" using Some by simp
    ultimately show ?thesis using b(2,3) Some by (intro exI [of _ e1]) (simp only:, force)
  qed
qed

lemma mem_oldest_least:
  assumes "touched_pos es" and "enumerates order" and "es \<noteq> fmempty"
  obtains e where "fmlookup es (fst (mem_oldest es (order es) ([], zero_time))) = Some e"
    "\<forall>k e'. fmlookup es k = Some e' \<longrightarrow> ent_touched e \<le> ent_touched e'"
proof -
  have keys: "k \<in> set (order es) \<longleftrightarrow> fmlookup es k \<noteq> None" for k
    using assms(2) by (simp add: enumerates_def fmlookup_dom_iff)
  have "\<exists>k \<in> set (order es). fmlookup es k \<noteq> None"
    using assms(3) keys by (metis fmap_ext fmempty_lookup)
  with mem_oldest_min [OF assms(1), of "([], zero_time)" "order es"] keys that show ?thesis by fastforce
qed

lemma fcard_fmdom_drop:
  "fmlookup es k \<noteq> None \<Longrightarrow> fcard (fmdom (fmdrop k es)) = fcard (fmdom es) - 1"
  by (simp add: fcard.rep_eq card_Diff_singleton fmlookup_dom_iff)

lemma mem_evict_loop_lru:
  assumes "touched_pos es" and "enumerates order" and "fmlookup es [] = None" and "fcard (fmdom es) \<le> limit + fuel"
  shows "fcard (fmdom (mem_evict_loop order limit fuel es)) \<le> limit
    \<and> (\<forall>k e k' e'. fmlookup es k = Some e \<longrightarrow> fmlookup (mem_evict_loop order limit fuel es) k = None \<longrightarrow>
         fmlookup (mem_evict_loop order limit fuel es) k' = Some e' \<longrightarrow> ent_touched e \<le> ent_touched e')"
  using assms
proof (induction fuel arbitrary: es)
  case 0
  then show ?case by auto
next
  case (Suc fuel)
  show ?case
  proof (cases "fcard (fmdom es) \<le> limit")
    case True
    then show ?thesis by simp
  next
    case False
    then have "es \<noteq> fmempty" by (auto simp: fcard.rep_eq)
    then obtain e where e: "fmlookup es (fst (mem_oldest es (order es) ([], zero_time))) = Some e"
      and least: "\<forall>k e'. fmlookup es k = Some e' \<longrightarrow> ent_touched e \<le> ent_touched e'"
      using mem_oldest_least [OF Suc.prems(1,2)] by blast
    define k0 where "k0 = fst (mem_oldest es (order es) ([], zero_time))"
    have k0: "k0 \<noteq> []" "fmlookup es k0 = Some e" using e Suc.prems(3) by (auto simp: k0_def)
    have loop: "mem_evict_loop order limit (Suc fuel) es = mem_evict_loop order limit fuel (fmdrop k0 es)"
      using False k0 by (simp add: k0_def [symmetric] Let_def)
    have "touched_pos (fmdrop k0 es)" "fmlookup (fmdrop k0 es) [] = None"
      "fcard (fmdom (fmdrop k0 es)) \<le> limit + fuel"
      using Suc.prems k0 fcard_fmdom_drop [of es k0] by (auto simp: touched_pos_def)
    note IH = Suc.IH [OF this(1) Suc.prems(2) this(2,3)]
    show ?thesis
      unfolding loop
    proof (intro conjI allI impI)
      fix k e1 k' e'
      assume a: "fmlookup es k = Some e1" "fmlookup (mem_evict_loop order limit fuel (fmdrop k0 es)) k = None"
        "fmlookup (mem_evict_loop order limit fuel (fmdrop k0 es)) k' = Some e'"
      show "ent_touched e1 \<le> ent_touched e'"
      proof (cases "k = k0")
        case True
        then show ?thesis using a k0 least mem_evict_loop_sub [OF a(3)] by (auto split: if_splits)
      next
        case False
        then have "fmlookup (fmdrop k0 es) k = Some e1" using a(1) by simp
        then show ?thesis using IH a(2,3) by blast
      qed
    qed (use IH in blast)
  qed
qed

section \<open>Properties\<close>

text \<open>C9. The memory cache never lies: after any sequence of reads, writes, deletions and clears at
  times that do not run backwards, a value that Get returns is the value of the last write of
  that key, which was not deleted or cleared since and whose time to live has not passed,
  whatever eviction threw away and in whatever order maps are walked.\<close>

theorem mem_cache_sound:
  assumes "\<forall>e \<in> set ops. 0 < op_time e \<and> op_time e \<le> now" and "sorted (map op_time ops)" and "0 < now"
    and "mem_Get now k (store_run (mem_Store order) ops NewMemory) = (Inr (Some x), m)"
  shows "spec_get (spec_run ops) now k = Some x"
  by (rule mem.run_sound [where order = order and s = NewMemory])
     (use assms in \<open>auto simp: mem_peek_def NewMemory_def mem_Store_def\<close>)

definition demo_ops :: "cache_op list" where
  "demo_ops = [C_Set 5 ''a'' ''1'' 10, C_Set 6 ''b'' ''2'' 0, C_Get 7 ''a'', C_Set 8 ''a'' ''3'' 4, C_Delete 9 ''b'']"

theorem mem_cache_sound_witness:
  "\<exists>m. mem_Get 12 ''a'' (store_run (mem_Store (\<lambda>_. [])) [C_Set 8 ''a'' ''3'' 4] NewMemory) = (Inr (Some ''3''), m)
     \<and> spec_get (spec_run [C_Set 8 ''a'' ''3'' 4]) 12 ''a'' = Some ''3''"
proof -
  let ?e = "\<lparr>ent_value = ''3'', ent_expiresAt = 12, ent_touched = 8\<rparr>"
  have "store_run (mem_Store (\<lambda>_. [])) [C_Set 8 ''a'' ''3'' 4] NewMemory = NewMemory\<lparr>mem_entries := fmupd ''a'' ?e fmempty\<rparr>"
    by (simp add: store_run_def mem_Store_def mem_Set_def mem_evict_def mem_Len_def mem_limit_def
        DefaultMaxEntries_def NewMemory_def fcard_finsert_if fcard_fempty)
  then have m: "mem_Get 12 ''a'' (store_run (mem_Store (\<lambda>_. [])) [C_Set 8 ''a'' ''3'' 4] NewMemory) =
      (Inr (Some ''3''), NewMemory\<lparr>mem_entries := fmupd ''a'' (?e\<lparr>ent_touched := 12\<rparr>) (fmupd ''a'' ?e fmempty)\<rparr>)"
    by (simp add: mem_Get_def ent_expired_def NewMemory_def)
  have "spec_get (spec_run [C_Set 8 ''a'' ''3'' 4]) 12 ''a'' = Some ''3''"
    by (rule mem_cache_sound [OF _ _ _ m]) simp_all
  with m show ?thesis by blast
qed

text \<open>C12. The database cache refines the specification exactly: after any such sequence a Get answers
  what the map of values and deadlines answers, hit or miss.\<close>

theorem db_cache_refines_spec:
  assumes "\<forall>e \<in> set ops. 0 < op_time e \<and> op_time e \<le> now" and "sorted (map op_time ops)" and "0 < now"
  shows "fst (cdb_Get now k (store_run cdb_Store ops fmempty)) = Inr (spec_get (spec_run ops) now k)"
  using cdb.run_exact [of fmempty ops now k] assms by (simp add: table_peek_def cdb_Store_def)

theorem db_cache_refines_spec_witness:
  "fst (cdb_Get 12 ''a'' (store_run cdb_Store demo_ops fmempty)) = Inr (spec_get (spec_run demo_ops) 12 ''a'')"
  by (rule db_cache_refines_spec) (simp_all add: demo_ops_def)

text \<open>Remember computes once: over the Redis store, if the key is missing and the computation
  gives a value that survives its JSON form, the caller gets it, and every Remember of the key
  until its time to live has passed returns the same value without computing.\<close>

theorem remember_computes_once:
  assumes "0 < now" and "now \<le> t" and "ttl \<le> 0 \<or> t \<le> now + ttl"
    and "marshal v = Some raw" and "unmarshal raw = Some v"
    and "fst (crd_Get prefix now k rd) = Inr None"
    and "Remember marshal unmarshal (crd_Store prefix) now k ttl (Inr v) rd = (res, rd', called)"
  shows "res = Inr v \<and> called \<and>
    (\<forall>computed. \<exists>rd''. Remember marshal unmarshal (crd_Store prefix) t k ttl computed rd' = (Inr v, rd'', False))"
proof (rule crd.remember_once [OF assms(1-5) _ assms(7)])
  have "fst (cs_Get (crd_Store prefix) now k rd) = Inr (table_peek (prefixed prefix) rd now k)"
    by (rule crd.get_peek [OF assms(1)])
  then show "table_peek (prefixed prefix) rd now k = None" using assms(6) by (simp add: crd_Store_def)
qed

theorem remember_computes_once_witness:
  "\<exists>rd' rd''. Remember (\<lambda>v. Some (''q'' @ v)) (\<lambda>r. Some (tl r)) (crd_Store ''app'') 5 ''k'' 10 (Inr ''v'') fmempty
       = (Inr ''v'', rd', True)
     \<and> Remember (\<lambda>v. Some (''q'' @ v)) (\<lambda>r. Some (tl r)) (crd_Store ''app'') 15 ''k'' 10 (Inl ''down'') rd'
       = (Inr ''v'', rd'', False)"
proof -
  obtain res rd' called where r: "Remember (\<lambda>v. Some (''q'' @ v)) (\<lambda>r. Some (tl r)) (crd_Store ''app'') 5 ''k'' 10
      (Inr ''v'') fmempty = (res, rd', called)" by (metis prod_cases3)
  have "res = Inr ''v'' \<and> called \<and> (\<forall>computed. \<exists>rd''. Remember (\<lambda>v. Some (''q'' @ v)) (\<lambda>r. Some (tl r))
      (crd_Store ''app'') 15 ''k'' 10 computed rd' = (Inr ''v'', rd'', False))"
    by (rule remember_computes_once [OF _ _ _ _ _ _ r, where raw = "''qv''"]) (simp_all add: crd_Get_def)
  then have f: "res = Inr ''v''" "called" and g: "\<exists>rd''. Remember (\<lambda>v. Some (''q'' @ v)) (\<lambda>r. Some (tl r))
      (crd_Store ''app'') 15 ''k'' 10 (Inl ''down'') rd' = (Inr ''v'', rd'', False)" by simp_all
  from r f have "Remember (\<lambda>v. Some (''q'' @ v)) (\<lambda>r. Some (tl r)) (crd_Store ''app'') 5 ''k'' 10
      (Inr ''v'') fmempty = (Inr ''v'', rd', True)" by (simp only:)
  with g show ?thesis by blast
qed

text \<open>The memory cache is bounded and evicts the least recently used: as long as the empty key is
  not used, after a Set the store holds no more entries than its limit, and no entry that is kept
  was used less recently than an unexpired one that was thrown away.\<close>

theorem mem_set_bounded_lru:
  assumes "enumerates order" and "touched_pos (mem_entries m)" and "0 < now"
    and "fmlookup (mem_entries m) [] = None" and "k0 \<noteq> []"
    and "mem_Set order now k0 v ttl m = (err, m')"
  shows "mem_Len m' \<le> mem_limit m'
    \<and> (\<forall>k e k' e'. fmlookup (mem_entries m) k = Some e \<longrightarrow> k \<noteq> k0 \<longrightarrow> \<not> ent_expired now e \<longrightarrow>
         fmlookup (mem_entries m') k = None \<longrightarrow> fmlookup (mem_entries m') k' = Some e' \<longrightarrow>
         ent_touched e \<le> ent_touched e')"
proof -
  define e0 where "e0 = \<lparr>ent_value = v, ent_expiresAt = (if ttl > 0 then now + ttl else zero_time), ent_touched = now\<rparr>"
  define m1 where "m1 = m\<lparr>mem_entries := fmupd k0 e0 (mem_entries m)\<rparr>"
  have m': "m' = mem_evict order now m1" using assms(6) by (simp add: mem_Set_def m1_def e0_def)
  have lim: "mem_limit m' = mem_limit m1" by (simp add: m' mem_evict_def mem_limit_def Let_def)
  show ?thesis
  proof (cases "mem_Len m1 \<le> mem_limit m1")
    case True
    then have "m' = m1" by (simp add: m' mem_evict_def)
    with True show ?thesis by (auto simp: m1_def)
  next
    case False
    define es where "es = fmfilter (\<lambda>k. case fmlookup (mem_entries m1) k of
        None \<Rightarrow> True | Some e \<Rightarrow> \<not> ent_expired now e) (mem_entries m1)"
    have ent: "mem_entries m' = mem_evict_loop order (mem_limit m1) (fcard (fmdom es)) es"
      using False by (simp add: m' mem_evict_def es_def Let_def)
    have "touched_pos es"
      using assms(2,3) by (auto simp: touched_pos_def es_def m1_def e0_def zero_time_def split: if_splits)
    moreover have "fmlookup es [] = None" using assms(4,5) by (simp add: es_def m1_def)
    ultimately have lru: "fcard (fmdom (mem_entries m')) \<le> mem_limit m1
      \<and> (\<forall>k e k' e'. fmlookup es k = Some e \<longrightarrow> fmlookup (mem_entries m') k = None \<longrightarrow>
         fmlookup (mem_entries m') k' = Some e' \<longrightarrow> ent_touched e \<le> ent_touched e')"
      unfolding ent by (intro mem_evict_loop_lru assms(1)) simp_all
    have "fmlookup es k = Some e" if "fmlookup (mem_entries m) k = Some e" "k \<noteq> k0" "\<not> ent_expired now e" for k e
      using that by (simp add: es_def m1_def)
    with lru lim show ?thesis unfolding mem_Len_def by metis
  qed
qed

theorem mem_set_bounded_lru_witness:
  "\<exists>m'. mem_Set (\<lambda>es. sorted_list_of_fset (fmdom es)) 9 ''k'' ''v'' 0
       \<lparr>mem_MaxEntries = 1, mem_entries = fmupd ''a'' \<lparr>ent_value = ''1'', ent_expiresAt = 0, ent_touched = 3\<rparr> fmempty\<rparr>
     = (None, m') \<and> mem_Len m' \<le> 1"
proof -
  let ?order = "\<lambda>es::(string, entry) fmap. sorted_list_of_fset (fmdom es)"
  let ?m = "\<lparr>mem_MaxEntries = 1, mem_entries = fmupd ''a'' \<lparr>ent_value = ''1'', ent_expiresAt = 0, ent_touched = 3\<rparr> fmempty\<rparr>"
  have enum: "enumerates ?order" by (simp add: enumerates_def)
  obtain err m' where s: "mem_Set ?order 9 ''k'' ''v'' 0 ?m = (err, m')" by fastforce
  have "mem_Len m' \<le> mem_limit m'"
    using mem_set_bounded_lru [OF enum _ _ _ _ s] by (simp add: touched_pos_def zero_time_def split: if_splits)
  moreover have "mem_limit m' = 1" "err = None"
    using s by (auto simp: mem_Set_def mem_evict_def mem_limit_def Let_def split: if_splits)
  ultimately show ?thesis using s by auto
qed

text \<open>The empty key escapes eviction: with a limit of one entry and the empty key as the least
  recently used, Set leaves two entries in the store.\<close>

theorem mem_empty_key_defeats_limit:
  "mem_Len (snd (mem_Set (\<lambda>es. [[], ''b'']) 9 ''b'' ''2'' 0
     (snd (mem_Set (\<lambda>es. [[], ''b'']) 5 [] ''1'' 0 (NewMemory\<lparr>mem_MaxEntries := 1\<rparr>))))) = 2
   \<and> mem_limit (NewMemory\<lparr>mem_MaxEntries := 1\<rparr>) = 1"
  by (simp add: mem_Set_def mem_evict_def mem_Len_def mem_limit_def NewMemory_def Let_def fcard_finsert_if fcard_fempty
      ent_expired_def zero_time_def eval_nat_numeral)

end
