(* ===== verification/Bearer.thy ===== *)
theory Bearer
  imports Auth "HOL-Library.Product_Lexorder"
begin

text \<open>
  The package \<^verbatim>\<open>bearer\<close>: personal access tokens (\<^verbatim>\<open>bearer.go\<close>), the database
  store that issues, verifies and revokes them (\<^verbatim>\<open>store.go\<close>) and the middleware that
  turns an Authorization header into a session (\<^verbatim>\<open>middleware.go\<close>).

  SHA-256 is the parameter \<open>sha\<close>, of which no law is asked; the random source and the
  faults of the database are arguments, as in the theory of sessions.  The table is a list of
  rows with its auto-increment counter and the unique index on the digest.  Log output is left
  out.
\<close>

datatype bearer_error =
    ErrInvalidToken | ErrExpired | ErrTokenNotFound
  | Err_UserID | Err_Scope string | Err_Random | Err_Database

definition Prefix :: string where "Prefix = ''ryla_pat_''"

record Token =
  tok_ID :: nat
  tok_UserID :: string
  tok_Name :: string
  tok_Digest :: string
  tok_Scopes :: string
  tok_LastUsedAt :: "time option"
  tok_ExpiresAt :: "time option"
  tok_CreatedAt :: time

definition tok_Expired :: "time \<Rightarrow> Token \<Rightarrow> bool" where
  "tok_Expired now t = (case tok_ExpiresAt t of None \<Rightarrow> False | Some e \<Rightarrow> e < now)"

definition ScopeList :: "Token \<Rightarrow> string list" where
  "ScopeList t = (if tok_Scopes t = [] then [] else split_on (CHR '','') (tok_Scopes t))"

definition token_Can :: "Token \<Rightarrow> string \<Rightarrow> bool" where
  "token_Can t scope =
     (if tok_Scopes t = [] then True else list_ex (\<lambda>s. s = scope \<or> s = ''*'') (ScopeList t))"

record bearer_Options =
  bo_ExpiresIn :: duration
  bo_Scopes :: "string list"

record Created =
  cr_Token :: Token
  cr_Plaintext :: string

definition generate :: "entropy \<Rightarrow> (bearer_error, string) result" where
  "generate rnd =
     (case rnd of None \<Rightarrow> Inl Err_Random | Some b \<Rightarrow> Inr (Prefix @ encode URL_Alphabet b))"

text \<open>\<^verbatim>\<open>hex.EncodeToString\<close>.\<close>

definition hex_digit :: "nat \<Rightarrow> char" where
  "hex_digit n = ''0123456789abcdef'' ! n"

definition hex_encode :: "string \<Rightarrow> string" where
  "hex_encode s = concat (map (\<lambda>c. [hex_digit (of_char c div 16), hex_digit (of_char c mod 16)]) s)"

definition digest :: "(string \<Rightarrow> string) \<Rightarrow> string \<Rightarrow> string" where
  "digest sha plaintext = hex_encode (sha plaintext)"

text \<open>The loop of \<^verbatim>\<open>joinScopes\<close>, which collects the cleaned scopes.\<close>

fun clean_scopes :: "string list \<Rightarrow> string list \<Rightarrow> (bearer_error, string list) result" where
  "clean_scopes cleaned [] = Inr cleaned"
| "clean_scopes cleaned (x # xs) =
     (let s = trim_space x in
      if s = [] then clean_scopes cleaned xs
      else if CHR '','' \<in> set s then Inl (Err_Scope s)
      else clean_scopes (cleaned @ [s]) xs)"

definition joinScopes :: "string list \<Rightarrow> (bearer_error, string) result" where
  "joinScopes scopes =
     (case clean_scopes [] scopes of Inl e \<Rightarrow> Inl e | Inr cleaned \<Rightarrow> Inr (join '','' cleaned))"

section \<open>The store\<close>

definition DefaultTouchInterval :: duration where "DefaultTouchInterval = Minute"

record bearer_Store =
  bst_TouchInterval :: duration

definition bearer_New :: bearer_Store where
  "bearer_New = \<lparr>bst_TouchInterval = DefaultTouchInterval\<rparr>"

record bearer_db =
  bt_rows :: "Token list"
  bt_seq :: nat

definition bearer_Create ::
  "(string \<Rightarrow> string) \<Rightarrow> entropy \<Rightarrow> fault \<Rightarrow> time \<Rightarrow> string \<Rightarrow> string \<Rightarrow> bearer_Options \<Rightarrow> bearer_db
     \<Rightarrow> (bearer_error, Created) result \<times> bearer_db" where
  "bearer_Create sha rnd fault now userID name opts db =
     (if userID = [] then (Inl Err_UserID, db)
      else case joinScopes (bo_Scopes opts) of
        Inl e \<Rightarrow> (Inl e, db)
      | Inr scopes \<Rightarrow>
          (case generate rnd of
             Inl e \<Rightarrow> (Inl e, db)
           | Inr plaintext \<Rightarrow>
               let tok = \<lparr>tok_ID = bt_seq db + 1, tok_UserID = userID, tok_Name = name,
                          tok_Digest = digest sha plaintext, tok_Scopes = scopes,
                          tok_LastUsedAt = None,
                          tok_ExpiresAt = (if bo_ExpiresIn opts > 0 then Some (now + bo_ExpiresIn opts) else None),
                          tok_CreatedAt = now\<rparr>
               in if fault \<or> tok_Digest tok \<in> tok_Digest ` set (bt_rows db) then (Inl Err_Database, db)
                  else (Inr \<lparr>cr_Token = tok, cr_Plaintext = plaintext\<rparr>,
                        \<lparr>bt_rows = bt_rows db @ [tok], bt_seq = bt_seq db + 1\<rparr>)))"

definition bearer_List :: "fault \<Rightarrow> string \<Rightarrow> bearer_db \<Rightarrow> (bearer_error, Token list) result" where
  "bearer_List fault userID db =
     (if fault then Inl Err_Database
      else Inr (rev (sort_key (\<lambda>t. (tok_CreatedAt t, tok_ID t)) (filter (\<lambda>t. tok_UserID t = userID) (bt_rows db)))))"

definition bearer_Revoke ::
  "fault \<Rightarrow> string \<Rightarrow> nat \<Rightarrow> bearer_db \<Rightarrow> bearer_error option \<times> bearer_db" where
  "bearer_Revoke fault userID i db =
     (let hit = (\<lambda>t. tok_ID t = i \<and> tok_UserID t = userID) in
      if fault then (Some Err_Database, db)
      else (if list_ex hit (bt_rows db) then None else Some ErrTokenNotFound,
            db\<lparr>bt_rows := filter (\<lambda>t. \<not> hit t) (bt_rows db)\<rparr>))"

definition bearer_RevokeAll ::
  "fault \<Rightarrow> string \<Rightarrow> bearer_db \<Rightarrow> (bearer_error, nat) result \<times> bearer_db" where
  "bearer_RevokeAll fault userID db =
     (if fault then (Inl Err_Database, db)
      else (Inr (length (filter (\<lambda>t. tok_UserID t = userID) (bt_rows db))),
            db\<lparr>bt_rows := filter (\<lambda>t. tok_UserID t \<noteq> userID) (bt_rows db)\<rparr>))"

definition bearer_touch ::
  "bearer_Store \<Rightarrow> fault \<Rightarrow> time \<Rightarrow> Token \<Rightarrow> bearer_db \<Rightarrow> Token \<times> bearer_db" where
  "bearer_touch s fault now tok db =
     (let interval = (if bst_TouchInterval s \<le> 0 then DefaultTouchInterval else bst_TouchInterval s)
      in if (case tok_LastUsedAt tok of None \<Rightarrow> False | Some t \<Rightarrow> now - t < interval) then (tok, db)
         else if fault then (tok, db)
         else (tok\<lparr>tok_LastUsedAt := Some now\<rparr>,
               db\<lparr>bt_rows := map (\<lambda>row. if tok_ID row = tok_ID tok
                                        then row\<lparr>tok_LastUsedAt := Some now\<rparr> else row) (bt_rows db)\<rparr>))"

definition bearer_Verify ::
  "(string \<Rightarrow> string) \<Rightarrow> bearer_Store \<Rightarrow> fault \<Rightarrow> fault \<Rightarrow> time \<Rightarrow> string \<Rightarrow> bearer_db
     \<Rightarrow> (bearer_error, Token) result \<times> bearer_db" where
  "bearer_Verify sha s fault touch_fault now plaintext db =
     (if \<not> has_prefix plaintext Prefix then (Inl ErrInvalidToken, db)
      else if fault then (Inl Err_Database, db)
      else case first_by tok_ID (filter (\<lambda>t. tok_Digest t = digest sha plaintext) (bt_rows db)) of
        None \<Rightarrow> (Inl ErrInvalidToken, db)
      | Some tok \<Rightarrow>
          if tok_Expired now tok then (Inl ErrExpired, db)
          else (case bearer_touch s touch_fault now tok db of (tok', db') \<Rightarrow> (Inr tok', db')))"

definition bearer_Prune :: "fault \<Rightarrow> time \<Rightarrow> bearer_db \<Rightarrow> (bearer_error, nat) result \<times> bearer_db" where
  "bearer_Prune fault now db =
     (if fault then (Inl Err_Database, db)
      else (Inr (length (filter (tok_Expired now) (bt_rows db))),
            db\<lparr>bt_rows := filter (\<lambda>t. \<not> tok_Expired now t) (bt_rows db)\<rparr>))"

section \<open>The middleware\<close>

definition bearer_HeaderName :: string where "bearer_HeaderName = ''Authorization''"
definition Scheme :: string where "Scheme = ''Bearer''"

definition credential :: "request \<Rightarrow> string option" where
  "credential r =
     (case cut (CHR '' '') (header_Get r bearer_HeaderName) of
        (scheme, v, found) \<Rightarrow>
          if \<not> found \<or> \<not> equal_fold scheme Scheme then None
          else let v' = trim_space v in if v' \<noteq> [] then Some v' else None)"

definition denyRequest :: "bearer_error \<Rightarrow> response \<Rightarrow> response" where
  "denyRequest e w =
     (let description = (if e = ErrExpired then ''The access token has expired.''
                         else ''The access token is invalid.'');
          w1 = header_Set ''WWW-Authenticate''
                 (''Bearer error=\"invalid_token\", error_description=\"'' @ description @ ''\"'') w;
          w2 = header_Set ''Content-Type'' ''application/json; charset=utf-8'' w1
      in write_body (''{\"error\":\"invalid_token\",\"message\":\"'' @ description @ ''\"}'') (write_header 401 w2))"

text \<open>\<^verbatim>\<open>bridge\<close>, the session store that a verified token stands in for.\<close>

definition bridge_Load ::
  "entropy \<Rightarrow> time \<Rightarrow> Token option \<Rightarrow> (panic, (session_error, Session) result) result" where
  "bridge_Load rnd now ctx =
     (case ctx of
        None \<Rightarrow> Inr (Inl Sess_ErrNotFound)
      | Some tok \<Rightarrow>
          (case session_New rnd now 0 of
             Inl p \<Rightarrow> Inl p
           | Inr s \<Rightarrow> Inr (Inr (session_Put UserIDKey (tok_UserID tok) s))))"

definition bridge_Save :: "unit save_op" where
  "bridge_Save w s st = Inr (s, w, st)"

definition bridge_Lifetime :: duration where "bridge_Lifetime = 0"

record bearer_Config =
  bcf_Store :: "bearer_Store option"
  bcf_ErrorHandler :: "(bearer_error \<Rightarrow> response \<Rightarrow> response) option"

text \<open>What a request comes to: the next handler on the request as it came, the error handler,
  or the next handler behind the session middleware with the token on the context.\<close>

datatype outcome = PassThrough | Denied bearer_error response | Authenticated Token "unit saver"

definition bearer_Authenticate ::
  "(string \<Rightarrow> string) \<Rightarrow> entropy \<Rightarrow> fault \<Rightarrow> fault \<Rightarrow> time \<Rightarrow> bearer_Config \<Rightarrow> request \<Rightarrow> response
     \<Rightarrow> hstep list \<Rightarrow> bearer_db \<Rightarrow> (panic, outcome) result \<times> bearer_db" where
  "bearer_Authenticate sha rnd fault touch_fault now cfg r w steps db =
     (case bcf_Store cfg of
        None \<Rightarrow> (Inl (Panic ''bearer: Config.Store is required''), db)
      | Some s \<Rightarrow>
          let deny = (case bcf_ErrorHandler cfg of None \<Rightarrow> denyRequest | Some h \<Rightarrow> h) in
          (case credential r of
             None \<Rightarrow> (Inr PassThrough, db)
           | Some raw \<Rightarrow>
               (case bearer_Verify sha s fault touch_fault now raw db of
                  (Inl e, db') \<Rightarrow> (Inr (Denied e (deny e w)), db')
                | (Inr tok, db') \<Rightarrow>
                    (case bridge_Load rnd now (Some tok) of
                       Inl p \<Rightarrow> (Inl p, db')
                     | Inr loaded \<Rightarrow>
                         (case session_Middleware bridge_Save rnd now bridge_Lifetime (loaded, ()) w steps of
                            Inl p \<Rightarrow> (Inl p, db')
                          | Inr sv \<Rightarrow> (Inr (Authenticated tok sv), db'))))))"

definition bearer_Can :: "Token option \<Rightarrow> string \<Rightarrow> bool" where
  "bearer_Can ctx scope = (case ctx of None \<Rightarrow> False | Some t \<Rightarrow> token_Can t scope)"

lemmas bearer_defs =
  bearer_Create_def bearer_Revoke_def bearer_RevokeAll_def bearer_Prune_def

end
