(* ===== verification/BearerProps.thy ===== *)
theory BearerProps
  imports Bearer
begin

text \<open>
  What the bearer tokens promise: a token verifies as its owner from the moment it is issued
  until it expires or is revoked, a revoked one never does again whatever happens later, scopes
  come back as they were given, and the middleware neither falls back to a cookie session nor
  sets a cookie.
\<close>

section \<open>The store as a machine\<close>

datatype bearer_event =
    EvCreate entropy fault time string string bearer_Options
  | EvRevoke fault string nat
  | EvRevokeAll fault string
  | EvPrune fault time
  | EvVerify fault fault time string

fun bearer_step :: "(string \<Rightarrow> string) \<Rightarrow> bearer_Store \<Rightarrow> bearer_event \<Rightarrow> bearer_db \<Rightarrow> bearer_db" where
  "bearer_step sha s (EvCreate rnd f now u n opts) db = snd (bearer_Create sha rnd f now u n opts db)"
| "bearer_step sha s (EvRevoke f u i) db = snd (bearer_Revoke f u i db)"
| "bearer_step sha s (EvRevokeAll f u) db = snd (bearer_RevokeAll f u db)"
| "bearer_step sha s (EvPrune f now) db = snd (bearer_Prune f now db)"
| "bearer_step sha s (EvVerify f tf now p) db = snd (bearer_Verify sha s f tf now p db)"

definition bearer_run ::
  "(string \<Rightarrow> string) \<Rightarrow> bearer_Store \<Rightarrow> bearer_event list \<Rightarrow> bearer_db \<Rightarrow> bearer_db" where
  "bearer_run sha s evs db = fold (bearer_step sha s) evs db"

text \<open>The invariant of the table: keys and digests are unique and the counter is past every key.\<close>

definition bearer_wf :: "bearer_db \<Rightarrow> bool" where
  "bearer_wf db =
     (distinct (map tok_ID (bt_rows db)) \<and> distinct (map tok_Digest (bt_rows db))
      \<and> (\<forall>t \<in> set (bt_rows db). tok_ID t \<le> bt_seq db))"

text \<open>How each step changes the table: a filter, a new row with a new key and a new digest, or
  a new date of last use.\<close>

definition used :: "nat \<Rightarrow> time \<Rightarrow> Token \<Rightarrow> Token" where
  "used i now t = (if tok_ID t = i then t\<lparr>tok_LastUsedAt := Some now\<rparr> else t)"

lemma used_simps [simp]:
  "tok_ID (used i now t) = tok_ID t" "tok_UserID (used i now t) = tok_UserID t"
  "tok_Digest (used i now t) = tok_Digest t" "tok_Scopes (used i now t) = tok_Scopes t"
  "tok_ExpiresAt (used i now t) = tok_ExpiresAt t"
  "(used i now t)\<lparr>tok_LastUsedAt := x\<rparr> = t\<lparr>tok_LastUsedAt := x\<rparr>"
  by (simp_all add: used_def)

lemma bearer_step_cases:
  obtains (filter) P where "bearer_step sha s e db = db\<lparr>bt_rows := filter P (bt_rows db)\<rparr>"
      "\<And>t. t \<in> set (bt_rows db) \<Longrightarrow> \<not> P t \<Longrightarrow>
         (\<exists>f. e = EvRevoke f (tok_UserID t) (tok_ID t)) \<or> (\<exists>f. e = EvRevokeAll f (tok_UserID t))
         \<or> (\<exists>f now. e = EvPrune f now \<and> tok_Expired now t)"
  | (create) t rnd f now n opts where "e = EvCreate rnd f now (tok_UserID t) n opts"
      "bearer_step sha s e db = \<lparr>bt_rows = bt_rows db @ [t], bt_seq = bt_seq db + 1\<rparr>"
      "tok_ID t = bt_seq db + 1" "tok_Digest t \<notin> tok_Digest ` set (bt_rows db)"
  | (used) i now where "bearer_step sha s e db = db\<lparr>bt_rows := map (used i now) (bt_rows db)\<rparr>"
proof -
  have same: thesis if "bearer_step sha s e db = db"
    using filter [of "\<lambda>_. True"] that by simp
  show thesis
  proof (cases e)
    case (EvCreate rnd f now u n opts)
    show ?thesis
    proof (cases "fst (bearer_Create sha rnd f now u n opts db)")
      case (Inl a)
      then show ?thesis
        using same EvCreate by (auto simp: bearer_Create_def Let_def split: if_splits sum.splits)
    next
      case (Inr c)
      then show ?thesis
        using create [of rnd f now "cr_Token c" n opts] EvCreate
        by (auto simp: bearer_Create_def Let_def split: if_splits sum.splits)
    qed
  next
    case (EvRevoke f u i)
    then show ?thesis
      using same filter [of "\<lambda>t. \<not> (tok_ID t = i \<and> tok_UserID t = u)"]
      by (cases f) (auto simp: bearer_Revoke_def Let_def)
  next
    case (EvRevokeAll f u)
    then show ?thesis
      using same filter [of "\<lambda>t. tok_UserID t \<noteq> u"] by (cases f) (auto simp: bearer_RevokeAll_def)
  next
    case (EvPrune f now)
    then show ?thesis
      using same filter [of "\<lambda>t. \<not> tok_Expired now t"] by (cases f) (auto simp: bearer_Prune_def)
  next
    case (EvVerify f tf now p)
    then have "bearer_step sha s e db = db
        \<or> (\<exists>i. bearer_step sha s e db = db\<lparr>bt_rows := map (used i now) (bt_rows db)\<rparr>)"
      by (auto simp: bearer_Verify_def bearer_touch_def Let_def used_def [abs_def] split: option.splits)
    then show ?thesis
      using same used [of _ now] by blast
  qed
qed

lemma bearer_wf_step: "bearer_wf db \<Longrightarrow> bearer_wf (bearer_step sha s e db)"
  by (cases rule: bearer_step_cases [of sha s e db])
     (auto simp: bearer_wf_def comp_def distinct_map_filterI)

lemma bearer_wf_run: "bearer_wf db \<Longrightarrow> bearer_wf (bearer_run sha s evs db)"
  unfolding bearer_run_def by (induction evs arbitrary: db) (simp_all add: bearer_wf_step)

text \<open>With unique digests a verification finds the row of the digest, or none.\<close>

lemma unique_row:
  "bearer_wf db \<Longrightarrow> t \<in> set (bt_rows db) \<Longrightarrow> t' \<in> set (bt_rows db) \<Longrightarrow> tok_Digest t = tok_Digest t' \<Longrightarrow> t = t'"
  by (auto simp: bearer_wf_def distinct_map inj_on_def)

lemma bearer_Verify_found:
  assumes "bearer_wf db" and "t \<in> set (bt_rows db)" and "tok_Digest t = digest sha p"
  shows "first_by tok_ID (filter (\<lambda>t. tok_Digest t = digest sha p) (bt_rows db)) = Some t"
proof (cases "first_by tok_ID (filter (\<lambda>t. tok_Digest t = digest sha p) (bt_rows db))")
  case None
  then show ?thesis using assms(2,3) by (auto simp: filter_empty_conv)
next
  case (Some t')
  then show ?thesis
    using first_by_SomeD [OF Some] unique_row [OF assms(1) _ assms(2), of t'] assms(3) by auto
qed

lemma bearer_Verify_InrD:
  assumes "bearer_Verify sha s f tf now p db = (Inr tok, db')"
  obtains t where "t \<in> set (bt_rows db)" "tok_Digest t = digest sha p" "\<not> tok_Expired now t"
    "tok\<lparr>tok_LastUsedAt := None\<rparr> = t\<lparr>tok_LastUsedAt := None\<rparr>"
proof -
  obtain t where t: "first_by tok_ID (filter (\<lambda>t. tok_Digest t = digest sha p) (bt_rows db)) = Some t"
      "\<not> tok_Expired now t" "fst (bearer_touch s tf now t db) = tok"
    using assms by (auto simp: bearer_Verify_def split: if_splits option.splits prod.splits)
  then show thesis
    using that [of t] first_by_SomeD [OF t(1)]
    by (auto simp: bearer_touch_def Let_def split: if_splits option.splits)
qed

lemma same_but_used:
  "t\<lparr>tok_LastUsedAt := None\<rparr> = t'\<lparr>tok_LastUsedAt := None\<rparr> \<Longrightarrow>
     tok_ID t = tok_ID t' \<and> tok_UserID t = tok_UserID t' \<and> tok_Digest t = tok_Digest t'
     \<and> tok_Scopes t = tok_Scopes t' \<and> tok_ExpiresAt t = tok_ExpiresAt t'"
  by (cases t; cases t') simp

section \<open>Scopes\<close>

lemma clean_scopes_eq:
  "clean_scopes acc xs = Inr ys \<Longrightarrow>
     ys = acc @ filter (\<lambda>s. s \<noteq> []) (map trim_space xs) \<and> (\<forall>s \<in> set ys - set acc. CHR '','' \<notin> set s)"
  by (induction acc xs rule: clean_scopes.induct) (auto simp: Let_def split: if_splits)

lemma join_eq_Nil: "[] \<notin> set xs \<Longrightarrow> join sep xs = [] \<longleftrightarrow> xs = []"
  by (induction sep xs rule: join.induct) auto

lemma joinScopes_ScopeList:
  assumes "joinScopes scopes = Inr col"
  shows "(if col = [] then [] else split_on (CHR '','') col) = filter (\<lambda>s. s \<noteq> []) (map trim_space scopes)"
proof -
  obtain ys where ys: "clean_scopes [] scopes = Inr ys" and col: "col = join '','' ys"
    using assms by (auto simp: joinScopes_def split: sum.splits)
  have c: "ys = filter (\<lambda>s. s \<noteq> []) (map trim_space scopes)" "\<forall>s \<in> set ys. CHR '','' \<notin> set s"
    using clean_scopes_eq [OF ys] by auto
  then have "col = [] \<longleftrightarrow> ys = []"
    using join_eq_Nil [of ys "'',''"] col by auto
  moreover have "ys \<noteq> [] \<Longrightarrow> split_on (CHR '','') col = ys"
    using split_on_join [of ys "CHR '',''"] c(2) col by simp
  ultimately show ?thesis using c(1) by simp
qed

lemma token_Can_iff:
  "token_Can t scope \<longleftrightarrow> ScopeList t = [] \<or> scope \<in> set (ScopeList t) \<or> ''*'' \<in> set (ScopeList t)"
  by (auto simp: token_Can_def ScopeList_def list_ex_iff)

section \<open>Properties\<close>

text \<open>The events that end the life of a token.\<close>

fun ends_token :: "Token \<Rightarrow> bearer_event \<Rightarrow> bool" where
  "ends_token t (EvRevoke f u i) = (u = tok_UserID t \<and> i = tok_ID t)"
| "ends_token t (EvRevokeAll f u) = (u = tok_UserID t)"
| "ends_token t (EvPrune f now) = tok_Expired now t"
| "ends_token t (EvCreate rnd f now u n opts) = False"
| "ends_token t (EvVerify f tf now p) = False"

lemma token_kept_step:
  assumes "t \<in> set (bt_rows db)" and "\<not> ends_token t e"
  shows "\<exists>t' \<in> set (bt_rows (bearer_step sha s e db)).
    t'\<lparr>tok_LastUsedAt := None\<rparr> = t\<lparr>tok_LastUsedAt := None\<rparr>"
proof (cases rule: bearer_step_cases [of sha s e db])
  case (filter P)
  have "P t" by (rule ccontr) (use filter(2) [OF assms(1)] assms(2) in auto)
  then show ?thesis using assms(1) filter(1) by auto
qed (use assms in auto)

lemma token_kept_run:
  assumes "t \<in> set (bt_rows db)" and "\<And>e. e \<in> set evs \<Longrightarrow> \<not> ends_token t e"
  shows "\<exists>t' \<in> set (bt_rows (bearer_run sha s evs db)).
    t'\<lparr>tok_LastUsedAt := None\<rparr> = t\<lparr>tok_LastUsedAt := None\<rparr>"
  using assms
proof (induction evs arbitrary: db t)
  case (Cons e evs)
  then obtain t' where t': "t' \<in> set (bt_rows (bearer_step sha s e db))"
      "t'\<lparr>tok_LastUsedAt := None\<rparr> = t\<lparr>tok_LastUsedAt := None\<rparr>"
    using token_kept_step [of t db e sha s] by auto
  have "ends_token t' = ends_token t"
  proof
    fix x show "ends_token t' x = ends_token t x"
      using same_but_used [OF t'(2)] by (cases x) (auto simp: tok_Expired_def)
  qed
  then show ?case
    using Cons.IH [OF t'(1)] Cons.prems(2) t'(2) by (simp add: bearer_run_def)
qed (auto simp: bearer_run_def)

lemma bearer_Create_InrD:
  assumes "bearer_Create sha rnd f now u n opts db = (Inr c, db1)"
  shows "cr_Token c \<in> set (bt_rows db1)" "tok_Digest (cr_Token c) = digest sha (cr_Plaintext c)"
    "has_prefix (cr_Plaintext c) Prefix" "tok_UserID (cr_Token c) = u"
    "joinScopes (bo_Scopes opts) = Inr (tok_Scopes (cr_Token c))"
    "tok_ExpiresAt (cr_Token c) = (if bo_ExpiresIn opts > 0 then Some (now + bo_ExpiresIn opts) else None)"
  using assms by (auto simp: bearer_Create_def generate_def Let_def split: if_splits sum.splits option.splits)

text \<open>C16. A token works from the moment it is issued until it is revoked or expires.  After
  Create returned a plaintext, and after any sequence of other calls on the store that does not
  revoke this token or prune it once expired, Verify of that plaintext answers ErrExpired when
  its deadline has passed and otherwise returns the row of its owner, with its key and scopes.\<close>

theorem bearer_token_lifecycle:
  assumes "bearer_wf db"
    and "bearer_Create sha rnd f now u n opts db = (Inr c, db1)"
    and "\<And>e. e \<in> set evs \<Longrightarrow> \<not> ends_token (cr_Token c) e"
  shows "case fst (bearer_Verify sha s False tf now' (cr_Plaintext c) (bearer_run sha s evs db1)) of
      Inl err \<Rightarrow> err = ErrExpired \<and> bo_ExpiresIn opts > 0 \<and> now + bo_ExpiresIn opts < now'
    | Inr tok \<Rightarrow> tok_UserID tok = u \<and> tok_ID tok = tok_ID (cr_Token c)
        \<and> tok_Scopes tok = tok_Scopes (cr_Token c)
        \<and> (bo_ExpiresIn opts > 0 \<longrightarrow> now' \<le> now + bo_ExpiresIn opts)"
proof -
  let ?db = "bearer_run sha s evs db1"
  note c = bearer_Create_InrD [OF assms(2)]
  have "bearer_wf db1"
    using bearer_wf_step [OF assms(1), of sha s "EvCreate rnd f now u n opts"] assms(2) by simp
  then have wf: "bearer_wf ?db" by (rule bearer_wf_run)
  obtain t where t: "t \<in> set (bt_rows ?db)"
      "t\<lparr>tok_LastUsedAt := None\<rparr> = (cr_Token c)\<lparr>tok_LastUsedAt := None\<rparr>"
    using token_kept_run [OF c(1) assms(3)] by blast
  have found: "first_by tok_ID (filter (\<lambda>t. tok_Digest t = digest sha (cr_Plaintext c)) (bt_rows ?db)) = Some t"
    using bearer_Verify_found [OF wf t(1)] same_but_used [OF t(2)] c(2) by simp
  show ?thesis
    using found same_but_used [OF t(2)] c
    by (auto simp: bearer_Verify_def bearer_touch_def Let_def tok_Expired_def split: option.splits if_splits)
qed

definition no_tokens :: bearer_db where "no_tokens = \<lparr>bt_rows = [], bt_seq = 0\<rparr>"

definition hour_token :: bearer_Options where
  "hour_token = \<lparr>bo_ExpiresIn = Hour, bo_Scopes = [''read'', '' '', '' write '']\<rparr>"

lemma bearer_wf_no_tokens: "bearer_wf no_tokens"
  by (simp add: bearer_wf_def no_tokens_def)

lemma hour_token_created:
  obtains c db1 where "bearer_Create sha (Some ''seed'') False 0 ''7'' ''ci'' hour_token no_tokens = (Inr c, db1)"
    "tok_ID (cr_Token c) = 1" "tok_Scopes (cr_Token c) = ''read,write''"
    "cr_Plaintext c = Prefix @ encode URL_Alphabet ''seed''" "tok_ExpiresAt (cr_Token c) = Some Hour"
    "bt_rows db1 = [cr_Token c]" "bt_seq db1 = 1" "tok_UserID (cr_Token c) = ''7''"
proof -
  have "joinScopes [''read'', '' '', '' write ''] = Inr ''read,write''" by code_simp
  then have "\<exists>c db1. bearer_Create sha (Some ''seed'') False 0 ''7'' ''ci'' hour_token no_tokens = (Inr c, db1)
    \<and> tok_ID (cr_Token c) = 1 \<and> tok_Scopes (cr_Token c) = ''read,write''
    \<and> cr_Plaintext c = Prefix @ encode URL_Alphabet ''seed'' \<and> tok_ExpiresAt (cr_Token c) = Some Hour
    \<and> bt_rows db1 = [cr_Token c] \<and> bt_seq db1 = 1 \<and> tok_UserID (cr_Token c) = ''7''"
    by (auto simp: bearer_Create_def hour_token_def no_tokens_def generate_def Hour_def Let_def)
  then show thesis using that by blast
qed

theorem bearer_token_lifecycle_witness:
  "\<exists>c db1 tok. bearer_Create (\<lambda>x. x) (Some ''seed'') False 0 ''7'' ''ci'' hour_token no_tokens = (Inr c, db1)
     \<and> fst (bearer_Verify (\<lambda>x. x) bearer_New False False Minute (cr_Plaintext c) (bearer_run (\<lambda>x. x) bearer_New
         [EvRevokeAll False ''8'', EvRevoke False ''8'' 1, EvPrune False Second] db1)) = Inr tok
     \<and> tok_UserID tok = ''7''"
proof -
  obtain c db1 where c: "bearer_Create (\<lambda>x. x) (Some ''seed'') False 0 ''7'' ''ci'' hour_token no_tokens = (Inr c, db1)"
      "tok_ExpiresAt (cr_Token c) = Some Hour" "tok_UserID (cr_Token c) = ''7''"
    using hour_token_created [of "\<lambda>x. x"] by blast
  let ?evs = "[EvRevokeAll False ''8'', EvRevoke False ''8'' 1, EvPrune False Second]"
  have "\<not> ends_token (cr_Token c) e" if "e \<in> set ?evs" for e
    using that c by (auto simp: tok_Expired_def time_defs)
  from bearer_token_lifecycle [where evs = ?evs, OF bearer_wf_no_tokens c(1) this, where s = bearer_New and tf = False and now' = Minute]
  obtain tok where "fst (bearer_Verify (\<lambda>x. x) bearer_New False False Minute (cr_Plaintext c)
      (bearer_run (\<lambda>x. x) bearer_New ?evs db1)) = Inr tok" "tok_UserID tok = ''7''"
    by (cases "fst (bearer_Verify (\<lambda>x. x) bearer_New False False Minute (cr_Plaintext c)
      (bearer_run (\<lambda>x. x) bearer_New ?evs db1))") (simp_all add: hour_token_def Hour_def Minute_def)
  with c(1) show ?thesis by (intro exI conjI)
qed

lemma no_user_run:
  assumes "\<And>t. t \<in> set (bt_rows db) \<Longrightarrow> tok_UserID t \<noteq> u"
    and "\<And>rnd f now n opts. EvCreate rnd f now u n opts \<notin> set evs"
  shows "t \<in> set (bt_rows (bearer_run sha s evs db)) \<Longrightarrow> tok_UserID t \<noteq> u"
  using assms
proof (induction evs arbitrary: db)
  case (Cons e evs)
  have new: "e \<noteq> EvCreate rnd f now u n opts" for rnd f now n opts
    using Cons.prems(3) [of rnd f now n opts] by auto
  have "tok_UserID t \<noteq> u" if mem: "t \<in> set (bt_rows (bearer_step sha s e db))" for t
  proof (cases rule: bearer_step_cases [of sha s e db])
    case (create t' rnd f now n opts)
    then show ?thesis using that Cons.prems(2) new [of rnd f now n opts] by auto
  next
    case (used i now)
    then obtain t0 where "t0 \<in> set (bt_rows db)" "t = used i now t0" using mem by auto
    then show ?thesis using Cons.prems(2) [of t0] by simp
  qed (use that Cons.prems(2) in auto)
  then show ?case using Cons by (auto simp: bearer_run_def)
qed (simp add: bearer_run_def)

lemma id_gone_run:
  assumes "i \<le> bt_seq db" and "i \<notin> tok_ID ` set (bt_rows db)"
  shows "i \<notin> tok_ID ` set (bt_rows (bearer_run sha s evs db))"
  using assms
proof (induction evs arbitrary: db)
  case (Cons e evs)
  have "i \<le> bt_seq (bearer_step sha s e db) \<and> i \<notin> tok_ID ` set (bt_rows (bearer_step sha s e db))"
    by (cases rule: bearer_step_cases [of sha s e db]) (use Cons.prems in auto)
  then show ?case using Cons.IH by (simp add: bearer_run_def)
qed (simp add: bearer_run_def)

text \<open>Revocation is immediate and final.  Once RevokeAll ran for a user, no string
  whatever verifies as that user until a new token is issued to them; and once Revoke removed a
  token by owner and id, no later sequence of calls, new tokens included, makes Verify return
  that token again.\<close>

theorem bearer_revocation_is_final:
  assumes "bearer_wf db"
    and "\<And>rnd f now n opts. EvCreate rnd f now u n opts \<notin> set evs"
    and "fst (bearer_Verify sha s f tf now p
      (bearer_run sha s evs (snd (bearer_RevokeAll False u db)))) = Inr tok"
    and "fst (bearer_Revoke False u' i db) = None"
    and "fst (bearer_Verify sha s f tf now p'
      (bearer_run sha s evs' (snd (bearer_Revoke False u' i db)))) = Inr tok'"
  shows "tok_UserID tok \<noteq> u \<and> tok_ID tok' \<noteq> i"
proof
  let ?a = "bearer_run sha s evs (snd (bearer_RevokeAll False u db))"
  obtain t where "t \<in> set (bt_rows ?a)" "tok\<lparr>tok_LastUsedAt := None\<rparr> = t\<lparr>tok_LastUsedAt := None\<rparr>"
    using assms(3) by (metis bearer_Verify_InrD prod.collapse)
  moreover have "tok_UserID t \<noteq> u" if "t \<in> set (bt_rows ?a)" for t
    using no_user_run [OF _ assms(2) that] by (simp add: bearer_RevokeAll_def)
  ultimately show "tok_UserID tok \<noteq> u" using same_but_used by metis
  let ?b = "snd (bearer_Revoke False u' i db)"
  have "i \<le> bt_seq ?b \<and> i \<notin> tok_ID ` set (bt_rows ?b)"
    using assms(1,4)
    by (auto simp: bearer_Revoke_def bearer_wf_def Let_def list_ex_iff distinct_map inj_on_def split: if_splits)
  then have "i \<notin> tok_ID ` set (bt_rows (bearer_run sha s evs' ?b))"
    using id_gone_run by blast
  then show "tok_ID tok' \<noteq> i"
    using assms(5) by (metis bearer_Verify_InrD prod.collapse imageI same_but_used)
qed

theorem bearer_revocation_is_final_witness:
  "\<exists>c1 db1 c2 db2 tok tok'.
     bearer_Create (\<lambda>x. x) (Some ''seed'') False 0 ''7'' ''ci'' hour_token no_tokens = (Inr c1, db1)
   \<and> bearer_Create (\<lambda>x. x) (Some ''more'') False 0 ''8'' ''ci'' hour_token db1 = (Inr c2, db2)
   \<and> fst (bearer_Verify (\<lambda>x. x) bearer_New False False Minute (cr_Plaintext c2)
       (bearer_run (\<lambda>x. x) bearer_New [] (snd (bearer_RevokeAll False ''7'' db2)))) = Inr tok
   \<and> fst (bearer_Verify (\<lambda>x. x) bearer_New False False Minute (cr_Plaintext c2)
       (bearer_run (\<lambda>x. x) bearer_New [] (snd (bearer_Revoke False ''7'' 1 db2)))) = Inr tok'
   \<and> tok_UserID tok \<noteq> ''7'' \<and> tok_ID tok' \<noteq> 1"
proof -
  have js: "joinScopes [''read'', '' '', '' write ''] = Inr ''read,write''"
    and d: "digest (\<lambda>x. x) (Prefix @ encode URL_Alphabet ''seed'') \<noteq> digest (\<lambda>x. x) (Prefix @ encode URL_Alphabet ''more'')"
    and p: "has_prefix (Prefix @ encode URL_Alphabet ''more'') Prefix"
    by code_simp+
  obtain c1 db1 c2 db2 tok tok' where
      c1: "bearer_Create (\<lambda>x. x) (Some ''seed'') False 0 ''7'' ''ci'' hour_token no_tokens = (Inr c1, db1)"
    and c2: "bearer_Create (\<lambda>x. x) (Some ''more'') False 0 ''8'' ''ci'' hour_token db1 = (Inr c2, db2)"
    and v: "fst (bearer_Verify (\<lambda>x. x) bearer_New False False Minute (cr_Plaintext c2)
       (bearer_run (\<lambda>x. x) bearer_New [] (snd (bearer_RevokeAll False ''7'' db2)))) = Inr tok"
    and v': "fst (bearer_Verify (\<lambda>x. x) bearer_New False False Minute (cr_Plaintext c2)
       (bearer_run (\<lambda>x. x) bearer_New [] (snd (bearer_Revoke False ''7'' 1 db2)))) = Inr tok'"
    and r: "fst (bearer_Revoke False ''7'' 1 db2) = None"
    using js d p
    by (simp add: bearer_Create_def hour_token_def no_tokens_def generate_def Let_def bearer_RevokeAll_def
        bearer_Revoke_def bearer_run_def bearer_Verify_def bearer_touch_def first_by_def tok_Expired_def
        time_defs)
  have wf: "bearer_wf db2"
    using bearer_wf_run [OF bearer_wf_no_tokens, of "\<lambda>x. x" bearer_New
        "[EvCreate (Some ''seed'') False 0 ''7'' ''ci'' hour_token, EvCreate (Some ''more'') False 0 ''8'' ''ci'' hour_token]"]
      c1 c2 by (simp add: bearer_run_def)
  have "tok_UserID tok \<noteq> ''7'' \<and> tok_ID tok' \<noteq> 1"
    by (rule bearer_revocation_is_final [OF wf _ v r v']) simp
  with c1 c2 v v' show ?thesis by (intro exI conjI) auto
qed

text \<open>Scopes mean what they say, blanks apart.  The token that Create issues for a list of
  scopes carries a scope exactly when that scope, or a star, is among the trimmed non-blank
  scopes of the list, or when the list has no such scope: a list of blank scopes, which a caller
  may have meant as a restriction, makes an unrestricted token.  A scope with a comma inside is
  refused and nothing is stored.\<close>

theorem bearer_scopes_as_given:
  "case bearer_Create sha rnd f now u n opts db of
     (Inr c, db1) \<Rightarrow>
       token_Can (cr_Token c) scope =
         (let cleaned = filter (\<lambda>s. s \<noteq> []) (map trim_space (bo_Scopes opts))
          in cleaned = [] \<or> scope \<in> set cleaned \<or> ''*'' \<in> set cleaned)
   | (Inl (Err_Scope s), db1) \<Rightarrow> s \<in> trim_space ` set (bo_Scopes opts) \<and> CHR '','' \<in> set s \<and> db1 = db
   | (Inl _, db1) \<Rightarrow> db1 = db"
proof -
  have bad: "s \<in> trim_space ` set xs \<and> CHR '','' \<in> set s" if "clean_scopes acc xs = Inl (Err_Scope s)" for acc xs s
    using that by (induction acc xs rule: clean_scopes.induct) (auto simp: Let_def split: if_splits)
  show ?thesis
  proof (cases "bearer_Create sha rnd f now u n opts db")
    case (Pair res db1)
    show ?thesis
    proof (cases res)
      case (Inl e)
      with Pair bad show ?thesis
        by (auto simp: bearer_Create_def generate_def joinScopes_def Let_def
            split: if_splits sum.splits option.splits bearer_error.splits)
    next
      case (Inr c)
      have j: "joinScopes (bo_Scopes opts) = Inr (tok_Scopes (cr_Token c))"
        using bearer_Create_InrD(5) Pair Inr by blast
      have "ScopeList (cr_Token c) = filter (\<lambda>s. s \<noteq> []) (map trim_space (bo_Scopes opts))"
        using joinScopes_ScopeList [OF j] by (simp only: ScopeList_def)
      then show ?thesis using Pair Inr by (simp only: token_Can_iff Let_def prod.case sum.case)
    qed
  qed
qed

lemma bridge_saver_cookies:
  "resp_Cookies (sv_w (saver_save bridge_Save sv)) = resp_Cookies (sv_w sv)"
  "resp_Cookies (sv_w (fold (saver_step bridge_Save) steps sv)) = resp_Cookies (sv_w sv)"
proof -
  show save: "resp_Cookies (sv_w (saver_save bridge_Save sv)) = resp_Cookies (sv_w sv)" for sv
    by (simp add: saver_save_def bridge_Save_def Let_def)
  have step: "resp_Cookies (sv_w (saver_step bridge_Save e sv)) = resp_Cookies (sv_w sv)" for e sv
    by (cases e) (simp_all add: saver_WriteHeader_def saver_Write_def Let_def save)
  show "resp_Cookies (sv_w (fold (saver_step bridge_Save) steps sv)) = resp_Cookies (sv_w sv)"
    by (induction steps arbitrary: sv) (simp_all add: step)
qed

text \<open>C17. A request that presents a bearer credential is never served as anybody else.  If the
  credential does not verify, the next handler does not run and the default answer is a 401
  with a WWW-Authenticate header; if it does, the session that the handlers see carries the
  user id of the token and no other data, the response gains no cookie from the middleware, and
  the session cookie of the request plays no part.  Only a request without a bearer credential
  passes through.\<close>

theorem bearer_never_falls_back:
  assumes "bcf_Store cfg = Some s" and "bcf_ErrorHandler cfg = None" and "resp_Status w = None"
  shows "case fst (bearer_Authenticate sha (Some b) f tf now cfg r w steps db) of
      Inl p \<Rightarrow> False
    | Inr PassThrough \<Rightarrow> credential r = None
    | Inr (Denied e w') \<Rightarrow>
        (\<exists>raw. credential r = Some raw \<and> fst (bearer_Verify sha s f tf now raw db) = Inl e)
        \<and> resp_Status w' = Some 401 \<and> ''WWW-Authenticate'' \<in> fst ` set (resp_Header w')
        \<and> resp_Cookies w' = resp_Cookies w
    | Inr (Authenticated tok sv) \<Rightarrow>
        (\<exists>raw. credential r = Some raw \<and> fst (bearer_Verify sha s f tf now raw db) = Inr tok)
        \<and> resp_Cookies (sv_w sv) = resp_Cookies w
        \<and> (\<exists>sess. bridge_Load (Some b) now (Some tok) = Inr (Inr sess)
             \<and> sess_Data (session_Touch now bridge_Lifetime sess) = fmupd UserIDKey (tok_UserID tok) fmempty
             \<and> auth_ID (session_Touch now bridge_Lifetime sess) = tok_UserID tok
             \<and> sv = saver_save bridge_Save (fold (saver_step bridge_Save) steps
                 \<lparr>sv_w = w, sv_session = session_Touch now bridge_Lifetime sess, sv_saved = False, sv_store = ()\<rparr>))"
proof -
  obtain i where new: "session_New (Some b) now 0 = Inr \<lparr>sess_ID = i, sess_Data = fmempty,
      sess_ExpiresAt = now + 0, sess_dirty = False, sess_fresh = True\<rparr>"
    by (simp add: session_New_def session_NewID_def)
  show ?thesis
  proof (cases "credential r")
    case None
    then show ?thesis using assms by (simp add: bearer_Authenticate_def Let_def)
  next
    case (Some raw)
    obtain res db' where v: "bearer_Verify sha s f tf now raw db = (res, db')" by fastforce
    show ?thesis
    proof (cases res)
      case (Inl e)
      then show ?thesis using assms Some v
        by (simp add: bearer_Authenticate_def Let_def denyRequest_def header_Set_def write_header_def write_body_def)
    next
      case (Inr tok)
      then show ?thesis using assms Some v new
        by (simp add: bearer_Authenticate_def Let_def bridge_Load_def session_Middleware_def
            middleware_session_def bridge_saver_cookies session_Put_def session_Touch_def auth_ID_def session_Get_def)
    qed
  qed
qed

definition api_config :: bearer_Config where
  "api_config = \<lparr>bcf_Store = Some bearer_New, bcf_ErrorHandler = None\<rparr>"

definition api_request :: "string \<Rightarrow> request" where
  "api_request tok = get_request\<lparr>req_Cookies := [(session_CookieName, ''cookie'')],
     req_Header := [(bearer_HeaderName, ''bearer '' @ tok)]\<rparr>"

theorem bearer_never_falls_back_witness:
  "\<exists>w' e. fst (bearer_Authenticate (\<lambda>x. x) (Some ''id'') False False 0 api_config
      (api_request ''ryla_pat_gone'') empty_response [Write ''secret''] no_tokens) = Inr (Denied e w')
    \<and> resp_Status w' = Some 401"
proof -
  have c: "credential (api_request ''ryla_pat_gone'') = Some ''ryla_pat_gone''"
    by code_simp
  have d: "\<exists>w' e. fst (bearer_Authenticate (\<lambda>x. x) (Some ''id'') False False 0 api_config
      (api_request ''ryla_pat_gone'') empty_response [Write ''secret''] no_tokens) = Inr (Denied e w')"
    by (simp add: bearer_Authenticate_def api_config_def c bearer_Verify_def no_tokens_def Let_def)
  show ?thesis
    using bearer_never_falls_back [where cfg = api_config and s = bearer_New and w = empty_response
        and sha = "\<lambda>x. x" and b = "''id''" and f = False and tf = False and now = 0
        and r = "api_request ''ryla_pat_gone''" and steps = "[Write ''secret'']" and db = no_tokens] d
    by (auto simp: api_config_def empty_response_def)
qed

end
