(* ===== verification/Twofactor.thy ===== *)
theory Twofactor
  imports SessionProps Ratelimit
begin

text \<open>
  The package \<^verbatim>\<open>twofactor\<close>: its options and the checking of codes
  (\<^verbatim>\<open>twofactor.go\<close>), recovery codes (\<^verbatim>\<open>recovery.go\<close>), the vault that seals secrets
  (\<^verbatim>\<open>vault.go\<close>), the session keys of the challenge (\<^verbatim>\<open>challenge.go\<close>) and the
  throttled verifier (\<^verbatim>\<open>verifier.go\<close>).

  The TOTP library is a third-party package: its \<^verbatim>\<open>ValidateCustom\<close>,
  \<^verbatim>\<open>GenerateCodeCustom\<close> and \<^verbatim>\<open>Generate\<close> are parameters, whose result is
  \<^term>\<open>None\<close> where they return an error.  SHA-256, the key derivation and AES-GCM are
  parameters too.  The QR code and the rebuilding of an otpauth URI are not modelled.
\<close>

section \<open>Options and codes\<close>

definition DefaultPeriod :: duration where "DefaultPeriod = 30 * Second"
definition DefaultDigits :: int where "DefaultDigits = 6"
definition DefaultSkew :: int where "DefaultSkew = 1"

record tf_Options =
  o_Issuer :: string
  o_Period :: duration
  o_Digits :: int
  o_Skew :: int

definition withDefaults :: "tf_Options \<Rightarrow> tf_Options" where
  "withDefaults o0 =
     (let o1 = (if o_Period o0 \<le> 0 then o0\<lparr>o_Period := DefaultPeriod\<rparr> else o0);
          o2 = (if o_Digits o1 \<noteq> 8 then o1\<lparr>o_Digits := DefaultDigits\<rparr> else o1);
          o3 = (if o_Skew o2 = 0 then o2\<lparr>o_Skew := DefaultSkew\<rparr> else o2)
      in if o_Skew o3 < 0 then o3\<lparr>o_Skew := 0\<rparr> else o3)"

definition tf_digits :: "tf_Options \<Rightarrow> nat" where
  "tf_digits o0 = (if o_Digits o0 = 8 then 8 else 6)"

text \<open>The conversions to \<^verbatim>\<open>uint\<close> are those of 64 bits; the period has been made positive
  before.\<close>

definition periodSeconds :: "tf_Options \<Rightarrow> nat" where
  "periodSeconds o0 =
     (let s = nat ((o_Period o0 div Second) mod 2 ^ 64)
      in if s = 0 then nat (DefaultPeriod div Second) else s)"

record ValidateOpts =
  vo_Period :: nat
  vo_Skew :: nat
  vo_Digits :: nat

definition validateOpts :: "tf_Options \<Rightarrow> ValidateOpts" where
  "validateOpts o0 =
     \<lparr>vo_Period = periodSeconds o0, vo_Skew = nat (o_Skew o0 mod 2 ^ 64), vo_Digits = tf_digits o0\<rparr>"

record Secret =
  sec_Base32 :: string
  sec_URI :: string

datatype tf_error = Err_Issuer | Err_Account | Err_Generate | Err_Rand | ErrNoKey | ErrSealed | Err_Cipher

definition NewSecret ::
  "(string \<Rightarrow> string \<Rightarrow> nat \<Rightarrow> nat \<Rightarrow> Secret option) \<Rightarrow> string \<Rightarrow> tf_Options \<Rightarrow> (tf_error, Secret) result" where
  "NewSecret totp_Generate account opts =
     (let o1 = withDefaults opts in
      if trim_space (o_Issuer o1) = [] then Inl Err_Issuer
      else if trim_space account = [] then Inl Err_Account
      else case totp_Generate (o_Issuer o1) account (periodSeconds o1) (tf_digits o1) of
             None \<Rightarrow> Inl Err_Generate
           | Some k \<Rightarrow> Inr k)"

definition normalizeCode :: "string \<Rightarrow> string" where
  "normalizeCode code = filter is_digit code"

type_synonym validate_fn = "string \<Rightarrow> string \<Rightarrow> time \<Rightarrow> ValidateOpts \<Rightarrow> bool option"
type_synonym generate_fn = "string \<Rightarrow> time \<Rightarrow> ValidateOpts \<Rightarrow> string option"

definition tf_VerifyAt :: "validate_fn \<Rightarrow> string \<Rightarrow> string \<Rightarrow> time \<Rightarrow> tf_Options \<Rightarrow> bool" where
  "tf_VerifyAt validate secret code t opts =
     (let o1 = withDefaults opts; code' = normalizeCode code
      in if code' = [] then False
         else (case validate code' secret t (validateOpts o1) of None \<Rightarrow> False | Some ok \<Rightarrow> ok))"

definition tf_CodeAt :: "generate_fn \<Rightarrow> string \<Rightarrow> time \<Rightarrow> tf_Options \<Rightarrow> string option" where
  "tf_CodeAt gen secret t opts = gen secret t (validateOpts (withDefaults opts))"

section \<open>Recovery codes\<close>

definition DefaultRecoveryCodes :: int where "DefaultRecoveryCodes = 8"
definition recoveryAlphabet :: string where "recoveryAlphabet = ''0123456789ABCDEFGHJKMNPQRSTVWXYZ''"
definition recoveryCodeLength :: nat where "recoveryCodeLength = 10"
definition recoveryGroup :: nat where "recoveryGroup = 5"

text \<open>One code from its random bytes; the loop index is the second argument.\<close>

fun recovery_chars :: "string \<Rightarrow> nat \<Rightarrow> string" where
  "recovery_chars [] i = []"
| "recovery_chars (v # raw) i =
     (if i > 0 \<and> i mod recoveryGroup = 0 then ''-'' else [])
     @ recoveryAlphabet ! (of_char v mod 32) # recovery_chars raw (Suc i)"

text \<open>\<^verbatim>\<open>rand\<close> has one reading of the random source per code, each of
  \<^const>\<open>recoveryCodeLength\<close> bytes.\<close>

fun recovery_loop :: "nat \<Rightarrow> (nat \<Rightarrow> string option) \<Rightarrow> string list \<Rightarrow> (tf_error, string list) result" where
  "recovery_loop 0 rand codes = Inr codes"
| "recovery_loop (Suc n) rand codes =
     (case rand (length codes) of
        None \<Rightarrow> Inl Err_Rand
      | Some raw \<Rightarrow> recovery_loop n rand (codes @ [recovery_chars raw 0]))"

definition GenerateRecoveryCodes :: "(nat \<Rightarrow> string option) \<Rightarrow> int \<Rightarrow> (tf_error, string list) result" where
  "GenerateRecoveryCodes rand n = recovery_loop (nat (if n < 1 then DefaultRecoveryCodes else n)) rand []"

definition normalizeRecoveryCode :: "string \<Rightarrow> string" where
  "normalizeRecoveryCode code = filter (\<lambda>r. r \<in> set recoveryAlphabet) (to_upper code)"

definition hashRecoveryCode :: "(string \<Rightarrow> string) \<Rightarrow> string \<Rightarrow> string" where
  "hashRecoveryCode sha normalized = encode URL_Alphabet (sha normalized)"

definition newline :: string where "newline = [CHR 0x0A]"

definition HashRecoveryCodes :: "(string \<Rightarrow> string) \<Rightarrow> string list \<Rightarrow> string" where
  "HashRecoveryCodes sha codes =
     join newline (map (hashRecoveryCode sha) (filter (\<lambda>c. c \<noteq> []) (map normalizeRecoveryCode codes)))"

definition splitRecoveryCodes :: "string \<Rightarrow> string list" where
  "splitRecoveryCodes stored = filter (\<lambda>l. l \<noteq> []) (map trim_space (split_on (CHR 0x0A) stored))"

text \<open>The loop of \<^verbatim>\<open>ConsumeRecoveryCode\<close>: what is kept so far and whether one matched.\<close>

fun consume_loop :: "string \<Rightarrow> string list \<Rightarrow> string list \<Rightarrow> bool \<Rightarrow> string list \<times> bool" where
  "consume_loop want [] kept ok = (kept, ok)"
| "consume_loop want (hash # hs) kept ok =
     (if hash = want \<and> \<not> ok then consume_loop want hs kept True
      else consume_loop want hs (kept @ [hash]) ok)"

definition ConsumeRecoveryCode :: "(string \<Rightarrow> string) \<Rightarrow> string \<Rightarrow> string \<Rightarrow> string \<times> bool" where
  "ConsumeRecoveryCode sha stored code =
     (let normalized = normalizeRecoveryCode code in
      if normalized = [] \<or> stored = [] then (stored, False)
      else let want = hashRecoveryCode sha normalized in
        case consume_loop want (splitRecoveryCodes stored) [] False of
          (kept, ok) \<Rightarrow> if \<not> ok then (stored, False) else (join newline kept, True))"

definition CountRecoveryCodes :: "string \<Rightarrow> nat" where
  "CountRecoveryCodes stored = length (splitRecoveryCodes stored)"

section \<open>The vault\<close>

definition sealPrefix :: string where "sealPrefix = ''v1.''"

text \<open>AES-256-GCM under one key: the size of its nonces, sealing and opening.\<close>

record aead =
  NonceSize :: nat
  aead_Seal :: "string \<Rightarrow> string \<Rightarrow> string"
  aead_Open :: "string \<Rightarrow> string \<Rightarrow> string option"

record Vault =
  v_aead :: aead

definition NewVault ::
  "(string \<Rightarrow> string \<Rightarrow> nat \<Rightarrow> string option) \<Rightarrow> (string \<Rightarrow> aead option) \<Rightarrow> string \<Rightarrow> (tf_error, Vault) result" where
  "NewVault hkdf_Key gcm appKey =
     (if trim_space appKey = [] then Inl ErrNoKey
      else case hkdf_Key appKey ''ryla twofactor secret v1'' 32 of
        None \<Rightarrow> Inl Err_Cipher
      | Some key \<Rightarrow> (case gcm key of None \<Rightarrow> Inl Err_Cipher | Some a \<Rightarrow> Inr \<lparr>v_aead = a\<rparr>))"

definition vault_Seal :: "entropy \<Rightarrow> Vault \<Rightarrow> string \<Rightarrow> (tf_error, string) result" where
  "vault_Seal rnd v secret =
     (if secret = [] then Inr []
      else case rnd of
        None \<Rightarrow> Inl Err_Rand
      | Some nonce \<Rightarrow>
          let sealed = nonce @ aead_Seal (v_aead v) nonce secret
          in Inr (sealPrefix @ encode URL_Alphabet sealed))"

definition vault_Open :: "Vault \<Rightarrow> string \<Rightarrow> (tf_error, string) result" where
  "vault_Open v sealed =
     (if sealed = [] then Inr []
      else case cut_prefix sealed sealPrefix of
        None \<Rightarrow> Inl ErrSealed
      | Some body \<Rightarrow>
          (case decode URL_Alphabet body of
             None \<Rightarrow> Inl ErrSealed
           | Some raw \<Rightarrow>
               if length raw < NonceSize (v_aead v) then Inl ErrSealed
               else (case aead_Open (v_aead v) (take (NonceSize (v_aead v)) raw) (drop (NonceSize (v_aead v)) raw) of
                       None \<Rightarrow> Inl ErrSealed
                     | Some plain \<Rightarrow> Inr plain)))"

section \<open>The challenge\<close>

definition PassedKey :: string where "PassedKey = ''two_factor_passed''"
definition PendingSecretKey :: string where "PendingSecretKey = ''two_factor_pending''"

text \<open>A nil session is \<^term>\<open>None\<close>; the functions leave it alone.\<close>

definition MarkPassed :: "entropy \<Rightarrow> Session option \<Rightarrow> (panic, Session option) result" where
  "MarkPassed rnd s =
     (case s of
        None \<Rightarrow> Inr None
      | Some s0 \<Rightarrow>
          (case session_Regenerate rnd s0 of
             Inl p \<Rightarrow> Inl p
           | Inr s1 \<Rightarrow> Inr (Some (session_Forget PendingSecretKey (session_PutBool PassedKey True s1)))))"

definition Passed :: "Session option \<Rightarrow> bool" where
  "Passed s = (case s of None \<Rightarrow> False | Some s' \<Rightarrow> session_GetBool s' PassedKey)"

definition PutPendingSecret :: "string \<Rightarrow> Session option \<Rightarrow> Session option" where
  "PutPendingSecret sealed s = map_option (session_Put PendingSecretKey sealed) s"

definition PendingSecret :: "Session option \<Rightarrow> string" where
  "PendingSecret s = (case s of None \<Rightarrow> [] | Some s' \<Rightarrow> session_Get s' PendingSecretKey)"

definition ForgetPendingSecret :: "Session option \<Rightarrow> Session option" where
  "ForgetPendingSecret s = map_option (session_Forget PendingSecretKey) s"

section \<open>The verifier\<close>

definition DefaultAttempts :: int where "DefaultAttempts = 5"
definition DefaultWindow :: duration where "DefaultWindow = 15 * Minute"

record Verifier =
  vf_opts :: tf_Options
  vf_attempts :: Limiter

definition NewVerifierWithLimit :: "tf_Options \<Rightarrow> int \<Rightarrow> duration \<Rightarrow> Verifier" where
  "NewVerifierWithLimit opts attempts window =
     \<lparr>vf_opts = withDefaults opts, vf_attempts = ratelimit_New attempts window\<rparr>"

definition NewVerifier :: "tf_Options \<Rightarrow> Verifier" where
  "NewVerifier opts = NewVerifierWithLimit opts DefaultAttempts DefaultWindow"

text \<open>The clock of the limiter is \<open>now\<close>, the time of the code is \<open>t\<close>; \<open>fl\<close> is the
  rounding of the limiter's floating-point arithmetic.\<close>

definition vf_VerifyAt ::
  "(rat \<Rightarrow> rat) \<Rightarrow> validate_fn \<Rightarrow> time \<Rightarrow> string \<Rightarrow> string \<Rightarrow> string \<Rightarrow> time \<Rightarrow> Verifier
     \<Rightarrow> (bool \<times> duration) \<times> Verifier" where
  "vf_VerifyAt fl validate now subject secret code t v =
     (case lim_Allow fl now subject (vf_attempts v) of
        ((allowed, wait), l) \<Rightarrow>
          if \<not> allowed then ((False, wait), v\<lparr>vf_attempts := l\<rparr>)
          else if \<not> tf_VerifyAt validate secret code t (vf_opts v) then ((False, 0), v\<lparr>vf_attempts := l\<rparr>)
          else ((True, 0), v\<lparr>vf_attempts := lim_Reset subject l\<rparr>))"

definition vf_VerifyRecovery ::
  "(rat \<Rightarrow> rat) \<Rightarrow> (string \<Rightarrow> string) \<Rightarrow> time \<Rightarrow> string \<Rightarrow> string \<Rightarrow> string \<Rightarrow> Verifier
     \<Rightarrow> (string \<times> bool \<times> duration) \<times> Verifier" where
  "vf_VerifyRecovery fl sha now subject stored code v =
     (case lim_Allow fl now subject (vf_attempts v) of
        ((allowed, wait), l) \<Rightarrow>
          if \<not> allowed then ((stored, False, wait), v\<lparr>vf_attempts := l\<rparr>)
          else (case ConsumeRecoveryCode sha stored code of
                  (remaining, ok) \<Rightarrow>
                    if \<not> ok then ((stored, False, 0), v\<lparr>vf_attempts := l\<rparr>)
                    else ((remaining, True, 0), v\<lparr>vf_attempts := lim_Reset subject l\<rparr>)))"

definition vf_Reset :: "string \<Rightarrow> Verifier \<Rightarrow> Verifier" where
  "vf_Reset subject v = v\<lparr>vf_attempts := lim_Reset subject (vf_attempts v)\<rparr>"

section \<open>Enrolment of an existing secret\<close>

text \<open>\<^verbatim>\<open>URI\<close>: the decoder of base 32 and the library that builds the address are arguments.\<close>

datatype uri_error = URI_Issuer | URI_Decode | URI_Generate

definition tf_URI ::
  "(string \<Rightarrow> string option) \<Rightarrow> (string \<Rightarrow> string \<Rightarrow> nat \<Rightarrow> nat \<Rightarrow> string \<Rightarrow> string option)
     \<Rightarrow> string \<Rightarrow> string \<Rightarrow> tf_Options \<Rightarrow> (uri_error, string) result" where
  "tf_URI base32 totp_Generate account secret opts =
     (let o1 = withDefaults opts in
      if trim_space (o_Issuer o1) = [] then Inl URI_Issuer
      else case base32 (to_upper (trim_space secret)) of
             None \<Rightarrow> Inl URI_Decode
           | Some raw \<Rightarrow>
               (case totp_Generate (o_Issuer o1) account (periodSeconds o1) (tf_digits o1) raw of
                  None \<Rightarrow> Inl URI_Generate
                | Some u \<Rightarrow> Inr u))"

text \<open>\<^verbatim>\<open>QRCodePNG\<close>: the scheme of a parsed address, the reader of keys, the drawing and its encoding are arguments.\<close>

datatype qr_error = QR_NotOtpauth string | QR_Key | QR_Image | QR_Encode

definition QRCodePNG ::
  "(string \<Rightarrow> string option) \<Rightarrow> (string \<Rightarrow> 'k option) \<Rightarrow> ('k \<Rightarrow> int \<Rightarrow> 'i option) \<Rightarrow> ('i \<Rightarrow> string option)
     \<Rightarrow> string \<Rightarrow> int \<Rightarrow> (qr_error, string) result" where
  "QRCodePNG scheme newKey draw png uri pixels =
     (let n = (if pixels \<le> 0 then 240 else pixels) in
      if scheme (trim_space uri) \<noteq> Some ''otpauth'' then Inl (QR_NotOtpauth uri)
      else case newKey uri of
             None \<Rightarrow> Inl QR_Key
           | Some k \<Rightarrow> (case draw k n of None \<Rightarrow> Inl QR_Image | Some i \<Rightarrow> (case png i of None \<Rightarrow> Inl QR_Encode | Some b \<Rightarrow> Inr b)))"

text \<open>The functions that take the time from the clock.\<close>

definition tf_Verify :: "validate_fn \<Rightarrow> time \<Rightarrow> string \<Rightarrow> string \<Rightarrow> tf_Options \<Rightarrow> bool" where
  "tf_Verify validate now secret code opts = tf_VerifyAt validate secret code now opts"

definition tf_Code :: "generate_fn \<Rightarrow> time \<Rightarrow> string \<Rightarrow> tf_Options \<Rightarrow> string option" where
  "tf_Code gen now secret opts = tf_CodeAt gen secret now opts"

definition vf_Verify ::
  "(rat \<Rightarrow> rat) \<Rightarrow> validate_fn \<Rightarrow> time \<Rightarrow> string \<Rightarrow> string \<Rightarrow> string \<Rightarrow> Verifier \<Rightarrow> (bool \<times> duration) \<times> Verifier" where
  "vf_Verify fl validate now subject secret code v = vf_VerifyAt fl validate now subject secret code now v"

end
