(* ===== verification/TwofactorProps.thy ===== *)
theory TwofactorProps
  imports Twofactor
begin

text \<open>
  What the package \<^verbatim>\<open>twofactor\<close> promises: a recovery code works once however it is typed,
  guesses at an account are bounded over any stretch of time and through both doors, a sealed
  secret opens again under the same key only, and a code is accepted for the periods of its
  tolerance.
\<close>

section \<open>Recovery codes as a list of hashes\<close>

lemma consume_loop_True: "consume_loop want hs kept True = (kept @ hs, True)"
  by (induction hs arbitrary: kept) auto

lemma consume_loop_eq:
  "consume_loop want hs kept False =
     (if want \<in> set hs then (kept @ remove1 want hs, True) else (kept @ hs, False))"
  by (induction hs arbitrary: kept) (auto simp: consume_loop_True)

definition hash_line :: "string \<Rightarrow> bool" where
  "hash_line h = (h \<noteq> [] \<and> (\<forall>c \<in> set h. \<not> is_space c))"

lemma splitRecoveryCodes_join:
  assumes "\<And>h. h \<in> set hs \<Longrightarrow> hash_line h"
  shows "splitRecoveryCodes (join newline hs) = hs"
proof (cases "hs = []")
  case False
  have nl: "CHR 0x0A \<notin> set h" if "h \<in> set hs" for h
    using assms [OF that] by (auto simp: hash_line_def is_space_def)
  have "map trim_space hs = hs"
    by (rule map_idI) (use assms in \<open>auto simp: hash_line_def intro!: trim_space_id\<close>)
  moreover have "split_on (CHR 0x0A) (join newline hs) = hs"
    unfolding newline_def by (rule split_on_join) (use nl False in auto)
  ultimately show ?thesis
    using assms by (auto simp: splitRecoveryCodes_def hash_line_def intro!: filter_id_set)
qed (simp add: splitRecoveryCodes_def)

text \<open>Consuming a code removes its hash from the stored list, and nothing else.\<close>

lemma ConsumeRecoveryCode_join:
  assumes "\<And>h. h \<in> set hs \<Longrightarrow> hash_line h" and "normalizeRecoveryCode code \<noteq> []"
  shows "ConsumeRecoveryCode sha (join newline hs) code =
    (let want = hashRecoveryCode sha (normalizeRecoveryCode code)
     in if want \<in> set hs then (join newline (remove1 want hs), True) else (join newline hs, False))"
proof (cases "join newline hs = []")
  case True
  then have "hs = []"
    using assms(1) splitRecoveryCodes_join [of hs] by (simp add: splitRecoveryCodes_def)
  then show ?thesis by (simp add: ConsumeRecoveryCode_def Let_def)
next
  case False
  then show ?thesis
    using assms by (simp add: ConsumeRecoveryCode_def Let_def splitRecoveryCodes_join consume_loop_eq)
qed

lemma hashRecoveryCode_line: "sha x \<noteq> [] \<Longrightarrow> hash_line (hashRecoveryCode sha x)"
  using encode_not_space by (auto simp: hash_line_def hashRecoveryCode_def)

lemma hashRecoveryCode_inj [simp]: "hashRecoveryCode sha x = hashRecoveryCode sha y \<longleftrightarrow> sha x = sha y"
  by (simp add: hashRecoveryCode_def encode_inj)

section \<open>Generated codes\<close>

lemma alphabet_symbol: "recoveryAlphabet ! (n mod 32) \<in> set recoveryAlphabet"
  by (rule nth_mem) (simp add: recoveryAlphabet_def)

lemma alphabet_upper: "c \<in> set recoveryAlphabet \<Longrightarrow> upper_char c = c \<and> c \<noteq> CHR ''-''"
proof -
  have "list_all (\<lambda>c. upper_char c = c \<and> c \<noteq> CHR ''-'') recoveryAlphabet" by code_simp
  then show "c \<in> set recoveryAlphabet \<Longrightarrow> ?thesis" by (simp add: list_all_iff)
qed

lemma dash_not_symbol: "upper_char (CHR ''-'') \<notin> set recoveryAlphabet"
  by code_simp

lemma normalize_recovery_chars:
  "normalizeRecoveryCode (recovery_chars raw i) = map (\<lambda>v. recoveryAlphabet ! (of_char v mod 32)) raw"
  by (induction raw i rule: recovery_chars.induct)
     (auto simp: normalizeRecoveryCode_def to_upper_def alphabet_symbol alphabet_upper dash_not_symbol)

lemma recovery_loop_Inr:
  "recovery_loop n rand codes = Inr out \<Longrightarrow>
     length out = length codes + n \<and>
     (\<forall>c \<in> set out. c \<in> set codes \<or> (\<exists>i raw. rand i = Some raw \<and> c = recovery_chars raw 0))"
  by (induction n rand codes rule: recovery_loop.induct) (auto split: option.splits)

section \<open>Guesses\<close>

text \<open>A guess at an account, through the code form or the recovery form, each at its time.\<close>

datatype guess =
    Guess_Code time string string string time
  | Guess_Recovery time string string string

fun guess_time :: "guess \<Rightarrow> time" where
  "guess_time (Guess_Code now subject secret code t) = now"
| "guess_time (Guess_Recovery now subject stored code) = now"

fun guess_subject :: "guess \<Rightarrow> string" where
  "guess_subject (Guess_Code now subject secret code t) = subject"
| "guess_subject (Guess_Recovery now subject stored code) = subject"

fun guess_step ::
  "(rat \<Rightarrow> rat) \<Rightarrow> validate_fn \<Rightarrow> (string \<Rightarrow> string) \<Rightarrow> guess \<Rightarrow> Verifier \<Rightarrow> bool \<times> Verifier" where
  "guess_step fl validate sha (Guess_Code now subject secret code t) v =
     (case vf_VerifyAt fl validate now subject secret code t v of ((ok, _), v') \<Rightarrow> (ok, v'))"
| "guess_step fl validate sha (Guess_Recovery now subject stored code) v =
     (case vf_VerifyRecovery fl sha now subject stored code v of ((_, ok, _), v') \<Rightarrow> (ok, v'))"

text \<open>How many guesses at a subject the limiter let through to be compared with the secret, up
  to the first one that is right.\<close>

fun guesses_compared ::
  "(rat \<Rightarrow> rat) \<Rightarrow> validate_fn \<Rightarrow> (string \<Rightarrow> string) \<Rightarrow> string \<Rightarrow> guess list \<Rightarrow> Verifier \<Rightarrow> nat" where
  "guesses_compared fl validate sha subject [] v = 0"
| "guesses_compared fl validate sha subject (g # gs) v =
     (case guess_step fl validate sha g v of
        (ok, v') \<Rightarrow>
          (if guess_subject g = subject \<and> fst (fst (lim_Allow fl (guess_time g) subject (vf_attempts v))) then 1 else 0)
          + (if guess_subject g = subject \<and> ok then 0 else guesses_compared fl validate sha subject gs v'))"

lemma guess_step_limiter:
  assumes "guess_step fl validate sha g v = (ok, v')"
  shows "vf_attempts v' =
    (let l = snd (lim_Allow fl (guess_time g) (guess_subject g) (vf_attempts v))
     in if ok then lim_Reset (guess_subject g) l else l)"
  using assms
  by (cases g) (auto simp: vf_VerifyAt_def vf_VerifyRecovery_def Let_def split: prod.splits if_splits)

lemma lim_refill_Reset_other: "k \<noteq> key \<Longrightarrow> lim_refill fl now key (lim_Reset k l) = lim_refill fl now key l"
  by (simp add: lim_refill_def lim_Reset_def lim_rate_def split: option.split)

lemma lim_Reset_params:
  "lim_limit (lim_Reset k l) = lim_limit l" "lim_window (lim_Reset k l) = lim_window l"
  "lim_burst (lim_Reset k l) = lim_burst l"
  by (simp_all add: lim_Reset_def)

lemma lim_before_Reset: "lim_before t l \<Longrightarrow> lim_before t (lim_Reset k l)"
  by (auto simp: lim_before_def lim_Reset_def)

lemma guesses_compared_bound:
  assumes "lim_wf (vf_attempts v)" and "lim_burst (vf_attempts v) \<le> 2 * lim_limit (vf_attempts v)"
    and "lim_before t0 (vf_attempts v)" and "sorted (t0 # map guess_time gs)"
  shows "of_nat (guesses_compared exact validate sha subject gs v) \<le> lim_refill exact t0 subject (vf_attempts v)
     + of_int (last (t0 # map guess_time gs) - t0) * of_int (lim_limit (vf_attempts v)) / of_int (lim_window (vf_attempts v))"
  using assms
proof (induction gs arbitrary: v t0)
  case Nil
  then show ?case using lim_refill_bounds [OF rounding_exact] by simp
next
  case (Cons g gs)
  let ?t = "guess_time g" and ?k = "guess_subject g" and ?l = "vf_attempts v"
  let ?tl = "last (?t # map guess_time gs)"
  let ?c = "of_int (lim_limit ?l) / of_int (lim_window ?l) :: rat"
  obtain ok v' where st: "guess_step exact validate sha g v = (ok, v')" by fastforce
  define r where "r = lim_Allow exact ?t ?k ?l"
  have l': "vf_attempts v' = (if ok then lim_Reset ?k (snd r) else snd r)"
    using guess_step_limiter [OF st] by (simp add: r_def Let_def)
  from Cons.prems have le: "t0 \<le> ?t" and sorted: "sorted (?t # map guess_time gs)"
    and le': "?t \<le> ?tl" by (auto simp: last_map)
  have bf: "lim_before ?t ?l" using Cons.prems(3) le by (rule lim_before_mono)
  have wf: "lim_wf (snd r)" "lim_before ?t (snd r)"
    using lim_Allow_wf [OF rounding_exact Cons.prems(1) bf, of ?k "fst r" "snd r"] by (simp_all add: r_def)
  then have wf': "lim_wf (vf_attempts v')" "lim_before ?t (vf_attempts v')"
    by (simp_all add: l' lim_wf_Reset lim_before_Reset)
  have par: "lim_limit (vf_attempts v') = lim_limit ?l" "lim_window (vf_attempts v') = lim_window ?l"
      "lim_burst (vf_attempts v') = lim_burst ?l"
    by (simp_all add: l' r_def lim_Allow_params lim_Reset_params)
  have IH: "of_nat (guesses_compared exact validate sha subject gs v') \<le> lim_refill exact ?t subject (vf_attempts v')
      + of_int (?tl - ?t) * ?c"
    using Cons.IH [OF wf'(1) _ wf'(2) sorted] Cons.prems(2) by (simp add: par)
  have spent: "lim_refill exact ?t subject (snd r) + (if ?k = subject \<and> fst (fst r) then 1 else 0)
      = lim_refill exact ?t subject ?l"
    by (rule lim_Allow_refill [OF Cons.prems(1,2) bf r_def])
  have nonneg: "0 \<le> lim_refill exact ?t subject (snd r)"
    using lim_refill_bounds [OF rounding_exact wf(1) wf(2)] by simp
  have rate: "0 \<le> of_int (?tl - ?t) * ?c"
    using le' Cons.prems(1) by (simp add: lim_wf_def)
  have kept: "lim_refill exact ?t subject (vf_attempts v') = lim_refill exact ?t subject (snd r)"
    if "\<not> (?k = subject \<and> ok)"
    using that by (auto simp: l' lim_refill_Reset_other)
  have "of_nat (guesses_compared exact validate sha subject (g # gs) v)
      \<le> lim_refill exact ?t subject ?l + of_int (?tl - ?t) * ?c"
    using IH spent nonneg rate kept st by (auto simp: r_def [symmetric])
  also have "\<dots> \<le> lim_refill exact t0 subject ?l + of_int (?t - t0) * ?c + of_int (?tl - ?t) * ?c"
    using lim_refill_advance [OF Cons.prems(1) le, of subject] by simp
  also have "\<dots> = lim_refill exact t0 subject ?l + of_int (?tl - t0) * ?c"
    by (simp only: distrib_right [symmetric] of_int_add [symmetric] add.assoc) simp
  finally show ?case by simp
qed

section \<open>Properties\<close>


definition demo_options :: tf_Options where
  "demo_options = \<lparr>o_Issuer = ''App'', o_Period = 0, o_Digits = 0, o_Skew = 0\<rparr>"


text \<open>C19. A recovery code works exactly once.  Let codes be generated and stored as hashes, with
  no two digests alike.  Typing one of them, in either case, with or without the dash and with
  any characters in between that carry no meaning, is accepted and takes one code off the count;
  after the returned value is stored the same code is refused, and every other code is still
  accepted.\<close>

theorem recovery_code_single_use:
  assumes "GenerateRecoveryCodes rand n = Inr codes"
    and "\<And>i raw. rand i = Some raw \<Longrightarrow> length raw = recoveryCodeLength"
    and "\<And>x. sha x \<noteq> []"
    and "distinct (map (\<lambda>c. sha (normalizeRecoveryCode c)) codes)"
    and "c \<in> set codes" and "normalizeRecoveryCode typed = normalizeRecoveryCode c"
    and "d \<in> set codes" and "d \<noteq> c"
    and "stored = HashRecoveryCodes sha codes"
  shows "\<exists>remaining. ConsumeRecoveryCode sha stored typed = (remaining, True)
      \<and> CountRecoveryCodes stored = length codes
      \<and> CountRecoveryCodes remaining = length codes - 1
      \<and> ConsumeRecoveryCode sha remaining typed = (remaining, False)
      \<and> snd (ConsumeRecoveryCode sha remaining d)"
proof -
  let ?h = "\<lambda>c. hashRecoveryCode sha (normalizeRecoveryCode c)"
  define hs where "hs = map ?h codes"
  have ne: "normalizeRecoveryCode x \<noteq> []" if x: "x \<in> set codes" for x
  proof -
    obtain i raw where "rand i = Some raw" "x = recovery_chars raw 0"
      using recovery_loop_Inr assms(1) x unfolding GenerateRecoveryCodes_def by fastforce
    then show ?thesis using assms(2) [of i raw] by (auto simp: normalize_recovery_chars recoveryCodeLength_def)
  qed
  then have "filter (\<lambda>c. c \<noteq> []) (map normalizeRecoveryCode codes) = map normalizeRecoveryCode codes"
    by (intro filter_id_set) auto
  then have stored: "stored = join newline hs"
    by (simp add: assms(9) HashRecoveryCodes_def hs_def comp_def)
  have line: "hash_line h" if "h \<in> set hs" for h
    using that assms(3) hashRecoveryCode_line by (auto simp: hs_def)
  have line': "hash_line h" if "h \<in> set (remove1 (?h c) hs)" for h
    using notin_set_remove1 [of h hs "?h c"] that line [of h] by blast
  have dist: "distinct hs"
    using assms(4) by (simp add: hs_def distinct_map inj_on_def)
  have other: "?h d \<noteq> ?h c"
    using assms(4,5,7,8) by (auto simp: distinct_map inj_on_def)
  have mem: "?h c \<in> set hs" "?h d \<in> set hs" using assms(5,7) by (auto simp: hs_def)
  have len: "length hs = length codes" by (simp add: hs_def)
  let ?r = "join newline (remove1 (?h c) hs)"
  have s1: "splitRecoveryCodes (join newline hs) = hs" by (rule splitRecoveryCodes_join) (rule line)
  have s2: "splitRecoveryCodes ?r = remove1 (?h c) hs" by (rule splitRecoveryCodes_join) (rule line')
  have typed: "normalizeRecoveryCode typed \<noteq> []" using ne [OF assms(5)] assms(6) by simp
  have "ConsumeRecoveryCode sha stored typed = (?r, True)"
    using ConsumeRecoveryCode_join [OF line typed] mem(1) assms(6) by (simp add: stored Let_def)
  moreover have "ConsumeRecoveryCode sha ?r typed = (?r, False)"
    using ConsumeRecoveryCode_join [of "remove1 (?h c) hs", OF line' typed] dist assms(6) by (simp add: Let_def)
  moreover have "snd (ConsumeRecoveryCode sha ?r d)"
    using ConsumeRecoveryCode_join [of "remove1 (?h c) hs", OF line' ne [OF assms(7)]] mem(2) other
    by (simp add: Let_def)
  moreover have "CountRecoveryCodes stored = length codes" "CountRecoveryCodes ?r = length codes - 1"
    using s1 s2 mem(1) by (simp_all add: CountRecoveryCodes_def stored length_remove1 len)
  ultimately show ?thesis by blast
qed

definition demo_rand :: "nat \<Rightarrow> string option" where
  "demo_rand i = Some (replicate 10 (char_of (i + 12)))"

theorem recovery_code_single_use_witness:
  "\<exists>remaining. ConsumeRecoveryCode (\<lambda>x. ''#'' @ x)
       (HashRecoveryCodes (\<lambda>x. ''#'' @ x) [''CCCCC-CCCCC'', ''DDDDD-DDDDD'']) ''ccccccccc c'' = (remaining, True)
     \<and> snd (ConsumeRecoveryCode (\<lambda>x. ''#'' @ x) remaining ''DDDDD-DDDDD'')"
proof -
  have gen: "GenerateRecoveryCodes demo_rand 2 = Inr [''CCCCC-CCCCC'', ''DDDDD-DDDDD'']"
    and dist: "distinct (map (\<lambda>c. ''#'' @ normalizeRecoveryCode c) [''CCCCC-CCCCC'', ''DDDDD-DDDDD''])"
    and typed: "normalizeRecoveryCode ''ccccccccc c'' = normalizeRecoveryCode ''CCCCC-CCCCC''"
    by code_simp+
  have "\<exists>remaining. ConsumeRecoveryCode (\<lambda>x. ''#'' @ x)
       (HashRecoveryCodes (\<lambda>x. ''#'' @ x) [''CCCCC-CCCCC'', ''DDDDD-DDDDD'']) ''ccccccccc c'' = (remaining, True)
     \<and> CountRecoveryCodes (HashRecoveryCodes (\<lambda>x. ''#'' @ x) [''CCCCC-CCCCC'', ''DDDDD-DDDDD''])
         = length [''CCCCC-CCCCC'', ''DDDDD-DDDDD'']
     \<and> CountRecoveryCodes remaining = length [''CCCCC-CCCCC'', ''DDDDD-DDDDD''] - 1
     \<and> ConsumeRecoveryCode (\<lambda>x. ''#'' @ x) remaining ''ccccccccc c'' = (remaining, False)
     \<and> snd (ConsumeRecoveryCode (\<lambda>x. ''#'' @ x) remaining ''DDDDD-DDDDD'')"
    by (rule recovery_code_single_use [OF gen _ _ dist _ typed])
       (auto simp: demo_rand_def recoveryCodeLength_def)
  then show ?thesis by blast
qed

text \<open>The law of the cipher that the vault relies on: with a nonce of the right size, what was
  sealed opens again.\<close>

definition aead_roundtrip :: "aead \<Rightarrow> bool" where
  "aead_roundtrip a = (\<forall>nonce p. length nonce = NonceSize a \<longrightarrow> aead_Open a nonce (aead_Seal a nonce p) = Some p)"

text \<open>The vault gives back what it was given, and errors are uniform.  A secret that was
  sealed opens to itself under the same application key; a value without the version prefix, one
  that is not base64, one shorter than a nonce, and any value the cipher of this key does not
  authenticate is answered with ErrSealed and nothing else.\<close>

theorem vault_seal_open:
  assumes "NewVault hkdf_Key gcm appKey = Inr v" and "aead_roundtrip (v_aead v)"
    and "length nonce = NonceSize (v_aead v)"
  shows "(\<exists>sealed. vault_Seal (Some nonce) v secret = Inr sealed \<and> vault_Open v sealed = Inr secret
       \<and> (secret \<noteq> [] \<longrightarrow> has_prefix sealed sealPrefix))
    \<and> (\<forall>x. vault_Open v x = Inl ErrSealed
          \<or> (\<exists>plain. vault_Open v x = Inr plain \<and>
               (x = [] \<and> plain = []
                \<or> (\<exists>n c. x \<noteq> [] \<and> decode URL_Alphabet (drop (length sealPrefix) x) = Some (n @ c)
                     \<and> length n = NonceSize (v_aead v) \<and> aead_Open (v_aead v) n c = Some plain))))"
proof
  show "\<exists>sealed. vault_Seal (Some nonce) v secret = Inr sealed \<and> vault_Open v sealed = Inr secret
       \<and> (secret \<noteq> [] \<longrightarrow> has_prefix sealed sealPrefix)"
  proof (cases "secret = []")
    case False
    have "aead_Open (v_aead v) nonce (aead_Seal (v_aead v) nonce secret) = Some secret"
      using assms(2,3) by (simp add: aead_roundtrip_def)
    moreover have "sealPrefix \<noteq> []" by (simp add: sealPrefix_def)
    ultimately show ?thesis using False assms(3) by (simp add: vault_Seal_def vault_Open_def Let_def)
  qed (simp add: vault_Seal_def vault_Open_def)
  show "\<forall>x. vault_Open v x = Inl ErrSealed
          \<or> (\<exists>plain. vault_Open v x = Inr plain \<and>
               (x = [] \<and> plain = []
                \<or> (\<exists>n c. x \<noteq> [] \<and> decode URL_Alphabet (drop (length sealPrefix) x) = Some (n @ c)
                     \<and> length n = NonceSize (v_aead v) \<and> aead_Open (v_aead v) n c = Some plain)))"
  proof
    fix x
    let ?k = "NonceSize (v_aead v)"
    have split: "\<exists>n c. raw = n @ c \<and> length n = ?k \<and> aead_Open (v_aead v) n c = Some plain"
      if "\<not> length raw < ?k" "aead_Open (v_aead v) (take ?k raw) (drop ?k raw) = Some plain" for raw plain
      using that by (intro exI [of _ "take ?k raw"] exI [of _ "drop ?k raw"]) simp
    show "vault_Open v x = Inl ErrSealed
          \<or> (\<exists>plain. vault_Open v x = Inr plain \<and>
               (x = [] \<and> plain = []
                \<or> (\<exists>n c. x \<noteq> [] \<and> decode URL_Alphabet (drop (length sealPrefix) x) = Some (n @ c)
                     \<and> length n = ?k \<and> aead_Open (v_aead v) n c = Some plain)))"
      by (simp add: vault_Open_def cut_prefix_def split split: option.split)
  qed
qed

definition demo_aead :: aead where
  "demo_aead = \<lparr>NonceSize = 2, aead_Seal = (\<lambda>n p. n @ p),
     aead_Open = (\<lambda>n c. if has_prefix c n then Some (drop (length n) c) else None)\<rparr>"

theorem vault_seal_open_witness:
  "\<exists>sealed. vault_Seal (Some ''ab'') \<lparr>v_aead = demo_aead\<rparr> ''JBSW'' = Inr sealed
     \<and> vault_Open \<lparr>v_aead = demo_aead\<rparr> sealed = Inr ''JBSW''"
  using vault_seal_open [of "\<lambda>k i n. Some k" "\<lambda>k. Some demo_aead" "''key''" "\<lparr>v_aead = demo_aead\<rparr>" "''ab''" "''JBSW''"]
  by (auto simp: NewVault_def aead_roundtrip_def demo_aead_def trim_space_def is_space_def)

text \<open>What the TOTP library documents of its two functions, for times since 1970: a code is a
  non-empty string of digits, and a code of some period is valid in the periods that are at most
  \<^verbatim>\<open>Skew\<close> away, and only there unless two periods happen to have the same code.\<close>

definition totp_period :: "ValidateOpts \<Rightarrow> time \<Rightarrow> int" where
  "totp_period vo t = unix t div int (vo_Period vo)"

definition totp_codes :: "generate_fn \<Rightarrow> bool" where
  "totp_codes gen = (\<forall>secret t vo code. gen secret t vo = Some code \<longrightarrow> code \<noteq> [] \<and> list_all is_digit code)"

definition totp_window :: "generate_fn \<Rightarrow> validate_fn \<Rightarrow> bool" where
  "totp_window gen validate =
     (\<forall>secret t t' vo code. gen secret t vo = Some code \<and> 0 \<le> unix t \<and> 0 \<le> unix t' \<longrightarrow>
        \<bar>totp_period vo t' - totp_period vo t\<bar> \<le> int (vo_Skew vo) \<longrightarrow> validate code secret t' vo = Some True)"

lemma withDefaults_fields:
  "o_Skew (withDefaults o0) = (if o_Skew o0 = 0 then 1 else if o_Skew o0 < 0 then 0 else o_Skew o0)"
  "o_Digits (withDefaults o0) = (if o_Digits o0 = 8 then 8 else 6)"
  "o_Period (withDefaults o0) = (if o_Period o0 \<le> 0 then DefaultPeriod else o_Period o0)"
  by (simp_all add: withDefaults_def Let_def DefaultSkew_def DefaultDigits_def)

lemma vo_Skew_validateOpts:
  "o_Skew o0 < 2 ^ 63 \<Longrightarrow> int (vo_Skew (validateOpts (withDefaults o0))) = o_Skew (withDefaults o0)"
  by (simp add: validateOpts_def withDefaults_fields)

text \<open>The code an authenticator shows is accepted while it is due, however it is typed: a
  code computed for one time verifies at every time whose period is within the tolerance, one
  period by default, also with spaces or dashes between its digits.\<close>

theorem code_accepted_within_skew:
  assumes "totp_codes gen" and "totp_window gen validate"
    and "tf_CodeAt gen secret t opts = Some code" and "normalizeCode typed = code"
    and "0 \<le> unix t" and "0 \<le> unix t'" and "o_Skew opts < 2 ^ 63"
    and "\<bar>totp_period (validateOpts (withDefaults opts)) t' - totp_period (validateOpts (withDefaults opts)) t\<bar>
       \<le> (if o_Skew opts = 0 then DefaultSkew else if o_Skew opts < 0 then 0 else o_Skew opts)"
  shows "tf_VerifyAt validate secret typed t' opts"
proof -
  have "validate code secret t' (validateOpts (withDefaults opts)) = Some True"
    using assms vo_Skew_validateOpts [OF assms(7)]
    by (auto simp: totp_window_def tf_CodeAt_def withDefaults_fields DefaultSkew_def split: if_splits)
  moreover have "code \<noteq> []" using assms(1,3) by (auto simp: totp_codes_def tf_CodeAt_def)
  ultimately show ?thesis using assms(4) by (simp add: tf_VerifyAt_def Let_def)
qed

definition demo_gen :: generate_fn where
  "demo_gen secret t vo = Some (format_nat (nat (totp_period vo t)))"

definition demo_validate :: validate_fn where
  "demo_validate code secret t vo =
     Some (list_ex (\<lambda>p. code = format_nat (nat p)) [totp_period vo t - int (vo_Skew vo)..totp_period vo t + int (vo_Skew vo)])"

lemma demo_totp: "totp_codes demo_gen" "totp_window demo_gen demo_validate"
proof -
  show "totp_codes demo_gen" by (auto simp: totp_codes_def demo_gen_def format_nat_digits)
  show "totp_window demo_gen demo_validate"
    by (force simp: totp_window_def demo_gen_def demo_validate_def list_ex_iff)
qed

theorem code_accepted_within_skew_witness:
  "tf_VerifyAt demo_validate ''S'' ''7 0-'' ((unix_offset + 2130) * Second) demo_options"
proof -
  have per: "totp_period (validateOpts (withDefaults demo_options)) ((unix_offset + n) * Second) = n div 30" for n
    by (simp add: totp_period_def validateOpts_def periodSeconds_def withDefaults_fields demo_options_def
        DefaultPeriod_def unix_def Second_def)
  have n: "normalizeCode ''7 0-'' = ''70''" "format_nat 70 = ''70''" by code_simp+
  show ?thesis
    by (rule code_accepted_within_skew [OF demo_totp, where t = "(unix_offset + 2100) * Second" and code = "''70''"])
       (simp_all add: tf_CodeAt_def demo_gen_def per n, simp_all add: unix_def Second_def demo_options_def DefaultSkew_def)
qed

text \<open>A verifier cannot be made strict.  The documentation of Skew says that a negative
  number means no tolerance at all; that is what VerifyAt does with it, but NewVerifier applies
  the defaults once and VerifyAt applies them again, where the zero of the first pass means the
  default: the verifier accepts whatever is accepted with a tolerance of one period.\<close>

theorem verifier_negative_skew_is_default:
  assumes "o_Skew opts < 0"
  shows "vo_Skew (validateOpts (withDefaults opts)) = 0
    \<and> tf_VerifyAt validate secret code t (vf_opts (NewVerifierWithLimit opts attempts window))
       = tf_VerifyAt validate secret code t (opts\<lparr>o_Skew := DefaultSkew\<rparr>)"
proof
  show "vo_Skew (validateOpts (withDefaults opts)) = 0"
    using assms by (simp add: validateOpts_def withDefaults_fields)
  have "withDefaults (withDefaults opts) = withDefaults (opts\<lparr>o_Skew := DefaultSkew\<rparr>)"
    using assms by (simp add: withDefaults_def Let_def DefaultSkew_def DefaultPeriod_def DefaultDigits_def Second_def)
  then show "tf_VerifyAt validate secret code t (vf_opts (NewVerifierWithLimit opts attempts window))
       = tf_VerifyAt validate secret code t (opts\<lparr>o_Skew := DefaultSkew\<rparr>)"
    by (simp add: tf_VerifyAt_def NewVerifierWithLimit_def Let_def)
qed

theorem verifier_negative_skew_is_default_witness:
  "tf_VerifyAt (\<lambda>c s t vo. Some (0 < vo_Skew vo)) ''S'' ''1'' 0
     (vf_opts (NewVerifierWithLimit (demo_options\<lparr>o_Skew := - 1\<rparr>) 5 Minute))
   = tf_VerifyAt (\<lambda>c s t vo. Some (0 < vo_Skew vo)) ''S'' ''1'' 0 (demo_options\<lparr>o_Skew := - 1, o_Skew := DefaultSkew\<rparr>)
   \<and> \<not> tf_VerifyAt (\<lambda>c s t vo. Some (0 < vo_Skew vo)) ''S'' ''1'' 0 (demo_options\<lparr>o_Skew := - 1\<rparr>)"
  using verifier_negative_skew_is_default [of "demo_options\<lparr>o_Skew := - 1\<rparr>" "\<lambda>c s t vo. Some (0 < vo_Skew vo)"
      "''S''" "''1''" 0 5 Minute]
  by (simp add: tf_VerifyAt_def Let_def)

text \<open>Passing the challenge gives the session a new id, marks it, and drops the secret that was
  waiting for confirmation; a session without the mark has not passed.\<close>

lemma MarkPassed_session:
  assumes "MarkPassed (Some b) (Some s) = Inr (Some s')"
  shows "sess_ID s' = encode URL_Alphabet b" "Passed (Some s')" "PendingSecret (Some s') = []" "sess_dirty s'"
    "PendingSecret (ForgetPendingSecret (PutPendingSecret x (Some s'))) = []"
    "k \<noteq> PassedKey \<Longrightarrow> k \<noteq> PendingSecretKey \<Longrightarrow> session_Get s' k = session_Get s k"
  using assms
  by (auto simp: MarkPassed_def Passed_def PendingSecret_def PutPendingSecret_def ForgetPendingSecret_def session_PutBool_def session_GetBool_def
      session_defs PassedKey_def PendingSecretKey_def parse_bool_format_bool [of True])

end
