(* ===== verification/Migrate.thy ===== *)
theory Migrate
  imports Prelude
begin

text \<open>
  The package \<^verbatim>\<open>migrate\<close>: the registry of migrations (\<^verbatim>\<open>migrate.go\<close>) and the runner
  that applies and undoes them (\<^verbatim>\<open>runner.go\<close>).

  The schema of the application is a type variable; a migration body is a function on it whose
  result is \<^term>\<open>None\<close> where the body returns an error.  A transaction that returns an error
  leaves the database as it was, as in SQLite and Postgres; MySQL commits implicitly on DDL and is
  outside the model.  What the database and the context do to a call is the record of faults:
  whether creating and reading \<^verbatim>\<open>schema_migrations\<close> fails, whether the context is cancelled
  before the i-th migration of the call, whether its write fails, and the time of the write.  Log
  output is left out.
\<close>

type_synonym 's Func = "'s \<Rightarrow> 's option"

record 's Migration =
  mig_ID :: string
  mig_Up :: "'s Func"
  mig_Down :: "'s Func option"

datatype mig_panic = Duplicate_ID string | No_Up string

type_synonym 's mig_registry = "(string, 's Migration) fmap"

definition mig_Register ::
  "string \<Rightarrow> 's Func option \<Rightarrow> 's Func option \<Rightarrow> 's mig_registry \<Rightarrow> (mig_panic, 's mig_registry) result" where
  "mig_Register i up down reg =
     (if fmlookup reg i \<noteq> None then Inl (Duplicate_ID i)
      else case up of
        None \<Rightarrow> Inl (No_Up i)
      | Some u \<Rightarrow> Inr (fmupd i \<lparr>mig_ID = i, mig_Up = u, mig_Down = down\<rparr> reg))"

definition mig_Registered :: "'s mig_registry \<Rightarrow> 's Migration list" where
  "mig_Registered reg = map snd (sorted_list_of_fmap reg)"

record mig_record =
  mr_ID :: string
  mr_Batch :: int
  mr_AppliedAt :: time

record 's mig_db =
  md_schema :: 's
  md_rows :: "mig_record list"

record mig_faults =
  fl_table :: bool
  fl_read :: bool
  fl_cancelled :: "nat \<Rightarrow> bool"
  fl_write :: "nat \<Rightarrow> bool"
  fl_now :: "nat \<Rightarrow> time"

datatype mig_error =
    Err_Table | Err_Read | Err_Context | Err_Migrate string
  | Err_Missing string | Err_NoDown string | Err_Rollback string

section \<open>The runner\<close>

definition ensureTable :: "mig_faults \<Rightarrow> (mig_error, unit) result" where
  "ensureTable f = (if fl_table f then Inl Err_Table else Inr ())"

definition max_batch :: "mig_record list \<Rightarrow> int" where
  "max_batch rows = fold (\<lambda>row mx. if mr_Batch row > mx then mr_Batch row else mx) rows 0"

definition applied :: "mig_faults \<Rightarrow> 's mig_db \<Rightarrow> (mig_error, (string, mig_record) fmap \<times> int) result" where
  "applied f db =
     (if fl_read f then Inl Err_Read
      else let rows = sort_key mr_ID (md_rows db)
           in Inr (fold (\<lambda>row. fmupd (mr_ID row) row) rows fmempty, max_batch rows))"

text \<open>The loop of \<^verbatim>\<open>Up\<close>; the counter is the position in this call.  The insert fails as well
  when the key is already there.\<close>

fun up_loop :: "mig_faults \<Rightarrow> int \<Rightarrow> nat \<Rightarrow> 's Migration list \<Rightarrow> 's mig_db \<Rightarrow> mig_error option \<times> 's mig_db" where
  "up_loop f batch i [] db = (None, db)"
| "up_loop f batch i (m # ms) db =
     (if fl_cancelled f i then (Some Err_Context, db)
      else case mig_Up m (md_schema db) of
        None \<Rightarrow> (Some (Err_Migrate (mig_ID m)), db)
      | Some sch \<Rightarrow>
          if fl_write f i \<or> mig_ID m \<in> mr_ID ` set (md_rows db) then (Some (Err_Migrate (mig_ID m)), db)
          else up_loop f batch (Suc i) ms
                 \<lparr>md_schema = sch,
                  md_rows = md_rows db @ [\<lparr>mr_ID = mig_ID m, mr_Batch = batch, mr_AppliedAt = fl_now f i\<rparr>]\<rparr>)"

definition mig_pending :: "'s mig_registry \<Rightarrow> (string, mig_record) fmap \<Rightarrow> 's Migration list" where
  "mig_pending reg done = filter (\<lambda>m. fmlookup done (mig_ID m) = None) (mig_Registered reg)"

definition mig_Up_run ::
  "'s mig_registry \<Rightarrow> mig_faults \<Rightarrow> int \<Rightarrow> 's mig_db \<Rightarrow> mig_error option \<times> 's mig_db" where
  "mig_Up_run reg f steps db =
     (case ensureTable f of
        Inl e \<Rightarrow> (Some e, db)
      | Inr _ \<Rightarrow>
          (case applied f db of
             Inl e \<Rightarrow> (Some e, db)
           | Inr (done, maxBatch) \<Rightarrow>
               let pending = mig_pending reg done in
               if pending = [] then (None, db)
               else let pending' = (if steps > 0 \<and> steps < int (length pending) then take (nat steps) pending else pending)
                    in up_loop f (maxBatch + 1) 0 pending' db))"

fun rollback_loop ::
  "'s mig_registry \<Rightarrow> mig_faults \<Rightarrow> nat \<Rightarrow> mig_record list \<Rightarrow> 's mig_db \<Rightarrow> mig_error option \<times> 's mig_db" where
  "rollback_loop reg f i [] db = (None, db)"
| "rollback_loop reg f i (row # rows) db =
     (if fl_cancelled f i then (Some Err_Context, db)
      else case fmlookup reg (mr_ID row) of
        None \<Rightarrow> (Some (Err_Missing (mr_ID row)), db)
      | Some m \<Rightarrow>
          (case mig_Down m of
             None \<Rightarrow> (Some (Err_NoDown (mr_ID row)), db)
           | Some down \<Rightarrow>
               (case down (md_schema db) of
                  None \<Rightarrow> (Some (Err_Rollback (mr_ID row)), db)
                | Some sch \<Rightarrow>
                    if fl_write f i then (Some (Err_Rollback (mr_ID row)), db)
                    else rollback_loop reg f (Suc i) rows
                           \<lparr>md_schema = sch, md_rows = filter (\<lambda>r. mr_ID r \<noteq> mr_ID row) (md_rows db)\<rparr>)))"

text \<open>The rows of a rollback come out of a Go map in any order and are then sorted by descending
  id, so their order does not matter.\<close>

definition mig_Rollback ::
  "'s mig_registry \<Rightarrow> mig_faults \<Rightarrow> int \<Rightarrow> 's mig_db \<Rightarrow> mig_error option \<times> 's mig_db" where
  "mig_Rollback reg f batches0 db =
     (case ensureTable f of
        Inl e \<Rightarrow> (Some e, db)
      | Inr _ \<Rightarrow>
          let batches = (if batches0 \<le> 0 then 1 else batches0) in
          (case applied f db of
             Inl e \<Rightarrow> (Some e, db)
           | Inr (done, maxBatch) \<Rightarrow>
               if maxBatch = 0 then (None, db)
               else let lowest = (if maxBatch - batches + 1 < 1 then 1 else maxBatch - batches + 1);
                        targets = filter (\<lambda>row. mr_Batch row \<ge> lowest) (map snd (sorted_list_of_fmap done))
                    in rollback_loop reg f 0 (rev targets) db))"

definition mig_Reset ::
  "'s mig_registry \<Rightarrow> mig_faults \<Rightarrow> 's mig_db \<Rightarrow> mig_error option \<times> 's mig_db" where
  "mig_Reset reg f db =
     (case ensureTable f of
        Inl e \<Rightarrow> (Some e, db)
      | Inr _ \<Rightarrow>
          (case applied f db of
             Inl e \<Rightarrow> (Some e, db)
           | Inr (_, maxBatch) \<Rightarrow> mig_Rollback reg f maxBatch db))"

text \<open>Each of the two halves of a refresh meets faults of its own.\<close>

definition mig_Refresh ::
  "'s mig_registry \<Rightarrow> mig_faults \<Rightarrow> mig_faults \<Rightarrow> 's mig_db \<Rightarrow> mig_error option \<times> 's mig_db" where
  "mig_Refresh reg f f' db =
     (case mig_Reset reg f db of
        (Some e, db') \<Rightarrow> (Some e, db')
      | (None, db') \<Rightarrow> mig_Up_run reg f' 0 db')"

record Status =
  st_ID :: string
  st_Applied :: bool
  st_Batch :: int
  st_AppliedAt :: time
  st_Missing :: bool

definition mig_Status :: "'s mig_registry \<Rightarrow> mig_faults \<Rightarrow> 's mig_db \<Rightarrow> (mig_error, Status list) result" where
  "mig_Status reg f db =
     (case ensureTable f of
        Inl e \<Rightarrow> Inl e
      | Inr _ \<Rightarrow>
          (case applied f db of
             Inl e \<Rightarrow> Inl e
           | Inr (done, _) \<Rightarrow>
               let known = map (\<lambda>m. case fmlookup done (mig_ID m) of
                     Some row \<Rightarrow> \<lparr>st_ID = mig_ID m, st_Applied = True, st_Batch = mr_Batch row,
                                  st_AppliedAt = mr_AppliedAt row, st_Missing = False\<rparr>
                   | None \<Rightarrow> \<lparr>st_ID = mig_ID m, st_Applied = False, st_Batch = 0,
                              st_AppliedAt = zero_time, st_Missing = False\<rparr>) (mig_Registered reg);
                   seen = mig_ID ` set (mig_Registered reg);
                   gone = map (\<lambda>(i, row). \<lparr>st_ID = i, st_Applied = True, st_Batch = mr_Batch row,
                                          st_AppliedAt = mr_AppliedAt row, st_Missing = True\<rparr>)
                            (filter (\<lambda>(i, row). i \<notin> seen) (sorted_list_of_fmap done))
               in Inr (sort_key st_ID (known @ gone))))"

end
