(* ===== verification/MigrateProps.thy ===== *)
theory MigrateProps
  imports Migrate
begin

text \<open>
  What the migration runner promises: a call of Up applies a prefix of the pending migrations in
  the order of their ids and records exactly those, an interrupted call can be resumed with the
  outcome of an uninterrupted one, a rollback of what one call applied restores schema and table,
  and Status lists every migration once.
\<close>

section \<open>The registry and the table as sorted lists\<close>

text \<open>Every migration is registered under its own id.\<close>

definition reg_wf :: "'s mig_registry \<Rightarrow> bool" where
  "reg_wf reg = fmpred (\<lambda>i m. mig_ID m = i) reg"

definition rows_wf :: "'s mig_db \<Rightarrow> bool" where
  "rows_wf db = (distinct (map mr_ID (md_rows db)) \<and> (\<forall>row \<in> set (md_rows db). 1 \<le> mr_Batch row))"

lemma reg_wf_Register: "reg_wf reg \<Longrightarrow> mig_Register i up down reg = Inr reg' \<Longrightarrow> reg_wf reg'"
  by (auto simp: reg_wf_def mig_Register_def split: if_splits option.splits)

lemma reg_wf_empty: "reg_wf fmempty"
  by (simp add: reg_wf_def)

lemma sorted_list_of_fmap_keys: "map fst (sorted_list_of_fmap m) = sorted_list_of_fset (fmdom m)"
  by (simp add: sorted_list_of_fmap_def comp_def)

lemma snd_sorted_list_of_fmap:
  assumes "\<And>i x. fmlookup m i = Some x \<Longrightarrow> key x = i"
  shows "map key (map snd (sorted_list_of_fmap m)) = sorted_list_of_fset (fmdom m)"
    and "set (map snd (sorted_list_of_fmap m)) = {x. fmlookup m (key x) = Some x}"
proof -
  have dom: "i |\<in>| fmdom m \<Longrightarrow> fmlookup m i = Some (the (fmlookup m i))" for i
    by (auto simp: fmlookup_dom_iff)
  show "map key (map snd (sorted_list_of_fmap m)) = sorted_list_of_fset (fmdom m)"
    using assms [OF dom] by (auto simp: sorted_list_of_fmap_def comp_def intro!: map_idI)
  show "set (map snd (sorted_list_of_fmap m)) = {x. fmlookup m (key x) = Some x}"
  proof (rule set_eqI)
    fix x
    have "x \<in> set (map snd (sorted_list_of_fmap m)) \<longleftrightarrow> (\<exists>i. i |\<in>| fmdom m \<and> x = the (fmlookup m i))"
      by (auto simp: sorted_list_of_fmap_def)
    also have "\<dots> \<longleftrightarrow> fmlookup m (key x) = Some x"
      using assms dom by (metis fmdomI option.sel)
    finally show "x \<in> set (map snd (sorted_list_of_fmap m)) \<longleftrightarrow> x \<in> {x. fmlookup m (key x) = Some x}" by simp
  qed
qed

lemma mig_Registered_sorted:
  assumes "reg_wf reg"
  shows "sorted (map mig_ID (mig_Registered reg))" "distinct (map mig_ID (mig_Registered reg))"
    "m \<in> set (mig_Registered reg) \<longleftrightarrow> fmlookup reg (mig_ID m) = Some m"
proof -
  have key: "fmlookup reg i = Some x \<Longrightarrow> mig_ID x = i" for i x
    using assms fmpredD unfolding reg_wf_def by fastforce
  note s = snd_sorted_list_of_fmap [OF key]
  show "sorted (map mig_ID (mig_Registered reg))" "distinct (map mig_ID (mig_Registered reg))"
    unfolding mig_Registered_def by (simp_all only: s(1) sorted_list_of_fset.rep_eq sorted_sorted_list_of_set distinct_sorted_list_of_set)
  show "m \<in> set (mig_Registered reg) \<longleftrightarrow> fmlookup reg (mig_ID m) = Some m"
    unfolding mig_Registered_def by (simp only: s(2) mem_Collect_eq)
qed

lemma mig_Registered_ids:
  assumes "reg_wf reg"
  shows "mig_ID ` set (mig_Registered reg) = fset (fmdom reg)"
proof -
  have key: "fmlookup reg i = Some x \<Longrightarrow> mig_ID x = i" for i x
    using assms fmpredD unfolding reg_wf_def by fastforce
  have "set (map mig_ID (mig_Registered reg)) = set (sorted_list_of_fset (fmdom reg))"
    unfolding mig_Registered_def by (simp only: snd_sorted_list_of_fmap(1) [OF key])
  then show ?thesis by simp
qed

lemma distinct_map_sort_key: "distinct (map f (sort_key g xs)) \<longleftrightarrow> distinct (map f xs)"
  by (simp add: distinct_map)

lemma fmlookup_fold_rows:
  assumes "distinct (map mr_ID rows)"
  shows "fmlookup (fold (\<lambda>row. fmupd (mr_ID row) row) rows m) i =
    (case find (\<lambda>row. mr_ID row = i) rows of Some row \<Rightarrow> Some row | None \<Rightarrow> fmlookup m i)"
  using assms
proof (induction rows arbitrary: m)
  case (Cons row rows)
  then have "find (\<lambda>r. mr_ID r = mr_ID row) rows = None"
    by (metis (mono_tags, lifting) distinct.simps(2) find_None_iff image_eqI list.set_map list.simps(9))
  with Cons show ?case by (auto split: option.splits)
qed simp

lemma max_batch_fold:
  "b \<le> fold (\<lambda>row mx. if mr_Batch row > mx then mr_Batch row else mx) rows b
   \<and> (\<forall>row \<in> set rows. mr_Batch row \<le> fold (\<lambda>row mx. if mr_Batch row > mx then mr_Batch row else mx) rows b)
   \<and> (fold (\<lambda>row mx. if mr_Batch row > mx then mr_Batch row else mx) rows b \<in> insert b (mr_Batch ` set rows))"
proof (induction rows arbitrary: b)
  case (Cons row rows)
  from Cons.IH [of b] Cons.IH [of "mr_Batch row"] show ?case by fastforce
qed simp

lemma max_batch:
  "0 \<le> max_batch rows" "row \<in> set rows \<Longrightarrow> mr_Batch row \<le> max_batch rows"
  "max_batch rows \<in> insert 0 (mr_Batch ` set rows)"
  unfolding max_batch_def using max_batch_fold [of 0 rows] by auto

lemma applied_Inr:
  assumes "rows_wf db" and "applied f db = Inr (done, mx)"
  shows "fmlookup done i = Some row \<longleftrightarrow> row \<in> set (md_rows db) \<and> mr_ID row = i"
    and "fmlookup done i = None \<longleftrightarrow> i \<notin> mr_ID ` set (md_rows db)"
    and "\<And>row. row \<in> set (md_rows db) \<Longrightarrow> mr_Batch row \<le> mx"
    and "0 \<le> mx" and "mx = 0 \<longleftrightarrow> md_rows db = []"
proof -
  let ?rows = "sort_key mr_ID (md_rows db)"
  have d: "distinct (map mr_ID ?rows)"
    using assms(1) by (simp add: rows_wf_def distinct_map)
  have dn: "done = fold (\<lambda>row. fmupd (mr_ID row) row) ?rows fmempty" and mx: "mx = max_batch ?rows"
    using assms(2) by (auto simp: applied_def Let_def split: if_splits)
  have fnd: "find (\<lambda>r. mr_ID r = i) ?rows = Some row \<longleftrightarrow> row \<in> set (md_rows db) \<and> mr_ID row = i" for i row
  proof
    assume "row \<in> set (md_rows db) \<and> mr_ID row = i"
    then show "find (\<lambda>r. mr_ID r = i) ?rows = Some row"
    proof (cases "find (\<lambda>r. mr_ID r = i) ?rows")
      case (Some r)
      then show ?thesis
        using find_Some_set [OF Some] \<open>row \<in> set (md_rows db) \<and> mr_ID row = i\<close> d
        by (auto simp: distinct_map inj_on_def)
    qed (auto simp: find_None_iff)
  qed (use find_Some_set in fastforce)
  show look: "fmlookup done i = Some row \<longleftrightarrow> row \<in> set (md_rows db) \<and> mr_ID row = i" for i row
    unfolding dn fmlookup_fold_rows [OF d] using fnd [of i row]
    by (cases "find (\<lambda>r. mr_ID r = i) ?rows") auto
  show "fmlookup done i = None \<longleftrightarrow> i \<notin> mr_ID ` set (md_rows db)"
    using look by (metis image_iff not_None_eq)
  show "row \<in> set (md_rows db) \<Longrightarrow> mr_Batch row \<le> mx" for row
    using max_batch(2) [of row ?rows] by (simp add: mx)
  show "0 \<le> mx" by (simp add: mx max_batch(1))
  show "mx = 0 \<longleftrightarrow> md_rows db = []"
  proof
    assume "mx = 0"
    then have "mr_Batch row \<le> 0" if "row \<in> set (md_rows db)" for row
      using that max_batch(2) [of row ?rows] by (simp add: mx)
    with assms(1) show "md_rows db = []"
      by (cases "md_rows db") (fastforce simp: rows_wf_def)+
  qed (simp add: mx max_batch_def)
qed

section \<open>Up\<close>

text \<open>The effect of a list of migrations on the schema.\<close>

fun ups :: "'s Migration list \<Rightarrow> 's \<Rightarrow> 's option" where
  "ups [] s = Some s"
| "ups (m # ms) s = Option.bind (mig_Up m s) (ups ms)"

lemma ups_append: "ups (xs @ ys) s = Option.bind (ups xs s) (ups ys)"
  by (induction xs arbitrary: s) (auto split: bind_splits)

lemma up_loop_prefix:
  assumes "up_loop f batch i ms db = (e, db')"
  shows "\<exists>k recs. k \<le> length ms \<and> md_rows db' = md_rows db @ recs
    \<and> map mr_ID recs = map mig_ID (take k ms) \<and> (\<forall>r \<in> set recs. mr_Batch r = batch)
    \<and> ups (take k ms) (md_schema db) = Some (md_schema db')
    \<and> (e = None \<longleftrightarrow> k = length ms)"
  using assms
proof (induction f batch i ms db rule: up_loop.induct)
  case (2 f batch i m ms db)
  show ?case
  proof (cases "fl_cancelled f i \<or> mig_Up m (md_schema db) = None
      \<or> fl_write f i \<or> mig_ID m \<in> mr_ID ` set (md_rows db)")
    case True
    with 2(2) have "e \<noteq> None \<and> db' = db" by (auto split: option.splits if_splits)
    then show ?thesis by (intro exI [of _ 0] exI [of _ "[]"]) simp
  next
    case False
    then obtain sch where sch: "mig_Up m (md_schema db) = Some sch" by auto
    let ?r = "\<lparr>mr_ID = mig_ID m, mr_Batch = batch, mr_AppliedAt = fl_now f i\<rparr>"
    have "up_loop f batch (Suc i) ms \<lparr>md_schema = sch, md_rows = md_rows db @ [?r]\<rparr> = (e, db')"
      using 2(2) False sch by simp
    from 2(1) [OF _ sch _ this] False obtain k recs where
        "k \<le> length ms" "md_rows db' = (md_rows db @ [?r]) @ recs" "map mr_ID recs = map mig_ID (take k ms)"
        "\<forall>r \<in> set recs. mr_Batch r = batch" "ups (take k ms) sch = Some (md_schema db')" "e = None \<longleftrightarrow> k = length ms"
      by auto
    then show ?thesis
      using sch by (intro exI [of _ "Suc k"] exI [of _ "?r # recs"]) auto
  qed
qed auto

text \<open>The pending migrations, as the code's doc comment has them: registered, not recorded, in the
  order of their ids.\<close>

definition pending_list :: "'s mig_registry \<Rightarrow> 's mig_db \<Rightarrow> 's Migration list" where
  "pending_list reg db = filter (\<lambda>m. mig_ID m \<notin> mr_ID ` set (md_rows db)) (mig_Registered reg)"

definition step_bound :: "int \<Rightarrow> nat \<Rightarrow> nat" where
  "step_bound steps n = (if steps > 0 \<and> steps < int n then nat steps else n)"

lemma mig_Up_run_prefix:
  assumes "rows_wf db" and "mig_Up_run reg f steps db = (e, db')"
  shows "\<exists>k recs batch. k \<le> step_bound steps (length (pending_list reg db)) \<and> md_rows db' = md_rows db @ recs
    \<and> map mr_ID recs = map mig_ID (take k (pending_list reg db))
    \<and> (\<forall>r \<in> set recs. mr_Batch r = batch) \<and> 1 \<le> batch \<and> (\<forall>r \<in> set (md_rows db). mr_Batch r < batch)
    \<and> ups (take k (pending_list reg db)) (md_schema db) = Some (md_schema db')
    \<and> (fl_table f \<or> fl_read f \<or> (e = None \<longleftrightarrow> k = step_bound steps (length (pending_list reg db))))
    \<and> (fl_table f \<or> fl_read f \<longrightarrow> e \<noteq> None)"
proof (cases "fl_table f \<or> fl_read f")
  case True
  let ?b = "max_batch (md_rows db) + 1"
  have "1 \<le> ?b" "\<forall>r \<in> set (md_rows db). mr_Batch r < ?b"
    using max_batch(1) [of "md_rows db"] max_batch(2) [of _ "md_rows db"] by fastforce+
  moreover have "e \<noteq> None \<and> db' = db"
    using True assms(2) by (cases "fl_table f") (auto simp: mig_Up_run_def ensureTable_def applied_def)
  ultimately show ?thesis using True by (intro exI [of _ "0::nat"] exI [of _ "[]"] exI [of _ ?b]) auto
next
  case False
  then obtain dn mx where a: "applied f db = Inr (dn, mx)" by (simp add: applied_def Let_def)
  note ai = applied_Inr [OF assms(1) a]
  have p: "mig_pending reg dn = pending_list reg db"
    by (simp add: mig_pending_def pending_list_def ai(2))
  let ?p = "pending_list reg db" and ?n = "step_bound steps (length (pending_list reg db))"
  have "up_loop f (mx + 1) 0 (take ?n ?p) db = (e, db')"
    using assms(2) False a p
    by (auto simp: mig_Up_run_def ensureTable_def Let_def step_bound_def split: if_splits)
  from up_loop_prefix [OF this] obtain k recs where
      "k \<le> length (take ?n ?p)" "md_rows db' = md_rows db @ recs" "map mr_ID recs = map mig_ID (take k (take ?n ?p))"
      "\<forall>r \<in> set recs. mr_Batch r = mx + 1" "ups (take k (take ?n ?p)) (md_schema db) = Some (md_schema db')"
      "e = None \<longleftrightarrow> k = length (take ?n ?p)" by blast
  moreover have "length (take ?n ?p) = ?n" by (auto simp: step_bound_def)
  ultimately show ?thesis
    using ai(3,4) False by (intro exI [of _ k] exI [of _ recs] exI [of _ "mx + 1"]) (auto simp: min_def)
qed

lemma rows_wf_Up:
  assumes "reg_wf reg" and "rows_wf db" and "mig_Up_run reg f steps db = (e, db')"
  shows "rows_wf db'"
proof -
  obtain k recs batch where k: "md_rows db' = md_rows db @ recs"
      "map mr_ID recs = map mig_ID (take k (pending_list reg db))" "\<forall>r \<in> set recs. mr_Batch r = batch" "1 \<le> batch"
    using mig_Up_run_prefix [OF assms(2,3)] by blast
  have "distinct (map mr_ID recs)"
    unfolding k(2) pending_list_def
    using mig_Registered_sorted(2) [OF assms(1)] by (simp add: distinct_map_filterI take_map [symmetric])
  moreover have "set (map mr_ID recs) \<inter> mr_ID ` set (md_rows db) = {}"
    unfolding k(2) by (auto simp: pending_list_def dest: in_set_takeD)
  ultimately show ?thesis using assms(2) k by (auto simp: rows_wf_def)
qed

section \<open>Properties\<close>

text \<open>C20. An interrupted migration resumes where it stopped.  Whatever stops a call of Up, a
  failing migration, a failed write, a cancelled context or a limit on the steps, schema and table
  stay in step: a later call that succeeds leaves the rows of all migrations that were pending
  before the first call, each once and in the order of their ids, and the schema that applying
  them one after the other without interruption gives.\<close>

theorem mig_up_resumes:
  assumes "reg_wf reg" and "rows_wf db"
    and "mig_Up_run reg f steps db = (e, db1)" and "mig_Up_run reg f' 0 db1 = (None, db2)"
  shows "map mr_ID (md_rows db2) = map mr_ID (md_rows db) @ map mig_ID (pending_list reg db)
    \<and> ups (pending_list reg db) (md_schema db) = Some (md_schema db2)
    \<and> pending_list reg db2 = []"
proof -
  let ?p = "pending_list reg db"
  obtain k recs where k: "md_rows db1 = md_rows db @ recs" "map mr_ID recs = map mig_ID (take k ?p)"
      "ups (take k ?p) (md_schema db) = Some (md_schema db1)"
    using mig_Up_run_prefix [OF assms(2,3)] by blast
  have wf1: "rows_wf db1" by (rule rows_wf_Up [OF assms(1-3)])
  have ids: "mr_ID ` set recs = mig_ID ` set (take k ?p)"
    using k(2) by (metis list.set_map)
  have dist: "distinct (map mig_ID ?p)"
    using mig_Registered_sorted(2) [OF assms(1)] by (simp add: pending_list_def distinct_map_filterI)
  have "pending_list reg db1 = filter (\<lambda>m. mig_ID m \<notin> mig_ID ` set (take k ?p)) ?p"
    by (auto simp: pending_list_def k(1) ids image_Un intro: filter_cong)
  also have "\<dots> = filter (\<lambda>m. mig_ID m \<notin> mig_ID ` set (take k ?p)) (take k ?p @ drop k ?p)" by simp
  also have "\<dots> = drop k ?p"
  proof -
    have "mig_ID m \<notin> mig_ID ` set (take k ?p)" if "m \<in> set (drop k ?p)" for m
      using dist that by (metis append_take_drop_id disjoint_iff distinct_append image_eqI list.set_map map_append)
    then show ?thesis unfolding filter_append by (simp add: filter_id_set)
  qed
  finally have rest: "pending_list reg db1 = drop k ?p" .
  obtain k' recs' where k': "md_rows db2 = md_rows db1 @ recs'"
      "map mr_ID recs' = map mig_ID (take k' (drop k ?p))"
      "ups (take k' (drop k ?p)) (md_schema db1) = Some (md_schema db2)" "k' = length (drop k ?p)"
    using mig_Up_run_prefix [OF wf1 assms(4)] unfolding rest by (auto simp: step_bound_def)
  have all: "map mr_ID (md_rows db2) = map mr_ID (md_rows db) @ map mig_ID ?p"
  proof -
    have "map mr_ID (md_rows db2) = map mr_ID (md_rows db) @ map mig_ID (take k ?p) @ map mig_ID (drop k ?p)"
      using k k' by simp
    then show ?thesis by (simp only: map_append [symmetric] append_take_drop_id)
  qed
  moreover have "ups ?p (md_schema db) = Some (md_schema db2)"
    using ups_append [of "take k ?p" "drop k ?p" "md_schema db"] k(3) k'(3,4) by simp
  moreover have "pending_list reg db2 = []"
  proof -
    have "mr_ID ` set (md_rows db2) = mr_ID ` set (md_rows db) \<union> mig_ID ` set ?p"
      using all by (metis list.set_map set_append)
    then show ?thesis by (auto simp: pending_list_def filter_empty_conv)
  qed
  ultimately show ?thesis by blast
qed

definition calm :: mig_faults where
  "calm = \<lparr>fl_table = False, fl_read = False, fl_cancelled = (\<lambda>_. False), fl_write = (\<lambda>_. False), fl_now = (\<lambda>_. 0)\<rparr>"

text \<open>Two migrations on a schema that counts its tables: the first creates one where there is
  none, the second adds another to it; each can be undone where it was applied.\<close>

definition create_users :: "nat Migration" where
  "create_users = \<lparr>mig_ID = ''2_create_users'', mig_Up = (\<lambda>n. if n = 0 then Some 1 else None),
     mig_Down = Some (\<lambda>n. if n = 1 then Some 0 else None)\<rparr>"

definition extend_users :: "string \<Rightarrow> nat Migration" where
  "extend_users i = \<lparr>mig_ID = i, mig_Up = (\<lambda>n. if n = 1 then Some 2 else None),
     mig_Down = Some (\<lambda>n. if n = 2 then Some 1 else None)\<rparr>"

lemma user_migrations [simp]:
  "mig_ID create_users = ''2_create_users''" "mig_Up create_users n = (if n = 0 then Some 1 else None)"
  "mig_Down create_users = Some (\<lambda>n. if n = 1 then Some 0 else None)"
  "mig_ID (extend_users i) = i" "mig_Up (extend_users i) n = (if n = 1 then Some 2 else None)"
  "mig_Down (extend_users i) = Some (\<lambda>n. if n = 2 then Some 1 else None)"
  by (simp_all add: create_users_def extend_users_def)

definition registry_of :: "'s Migration list \<Rightarrow> 's mig_registry" where
  "registry_of ms = fmap_of_list (map (\<lambda>m. (mig_ID m, m)) ms)"

definition fresh_db :: "nat mig_db" where "fresh_db = \<lparr>md_schema = 0, md_rows = []\<rparr>"

lemma reg_wf_registry_of: "reg_wf (registry_of ms)"
  by (auto simp: reg_wf_def registry_of_def fmlookup_of_list dest!: map_of_SomeD)

lemma rows_wf_fresh: "rows_wf fresh_db"
  by (simp add: rows_wf_def fresh_db_def)

theorem mig_up_resumes_witness:
  "\<exists>e db1 db2. mig_Up_run (registry_of [extend_users ''3_extend'', create_users])
      (calm\<lparr>fl_write := (\<lambda>i. i = 1)\<rparr>) 0 fresh_db = (Some e, db1)
    \<and> mig_Up_run (registry_of [extend_users ''3_extend'', create_users]) calm 0 db1 = (None, db2)
    \<and> map mr_ID (md_rows db2) = [''2_create_users'', ''3_extend''] \<and> md_schema db2 = 2"
proof -
  let ?reg = "registry_of [extend_users ''3_extend'', create_users]"
  have reg: "mig_Registered ?reg = [create_users, extend_users ''3_extend'']"
    unfolding registry_of_def mig_Registered_def sorted_list_of_fmap_def
    by (simp add: sorted_list_of_fset.rep_eq fmdom_of_list)
  obtain e db1 db2 where up: "mig_Up_run ?reg (calm\<lparr>fl_write := (\<lambda>i. i = 1)\<rparr>) 0 fresh_db = (Some e, db1)"
      "mig_Up_run ?reg calm 0 db1 = (None, db2)"
    by (simp add: mig_Up_run_def ensureTable_def applied_def calm_def fresh_db_def mig_pending_def reg max_batch_def Let_def)
  moreover have "pending_list ?reg fresh_db = [create_users, extend_users ''3_extend'']"
    by (simp add: pending_list_def reg fresh_db_def)
  ultimately show ?thesis
    using mig_up_resumes [OF reg_wf_registry_of rows_wf_fresh up]
    by (intro exI conjI) (auto simp: fresh_db_def)
qed

text \<open>A migration whose Down undoes its Up.\<close>

definition reversible :: "'s Migration \<Rightarrow> bool" where
  "reversible m = (\<exists>d. mig_Down m = Some d \<and> (\<forall>x y. mig_Up m x = Some y \<longrightarrow> d y = Some x))"

definition quiet :: "mig_faults \<Rightarrow> bool" where
  "quiet f = (\<not> fl_table f \<and> \<not> fl_read f \<and> (\<forall>i. \<not> fl_cancelled f i \<and> \<not> fl_write f i))"

lemma rollback_loop_ups:
  assumes "quiet f" and "map mr_ID recs = map mig_ID ms"
    and "\<And>m. m \<in> set ms \<Longrightarrow> fmlookup reg (mig_ID m) = Some m \<and> reversible m"
    and "distinct (map mr_ID (rows @ recs))" and "ups ms s = Some s'"
  shows "rollback_loop reg f i (rev recs) \<lparr>md_schema = s', md_rows = rows @ recs\<rparr>
    = (None, \<lparr>md_schema = s, md_rows = rows\<rparr>)"
  using assms(2-)
proof (induction ms arbitrary: recs s' i rule: rev_induct)
  case (snoc m ms)
  from snoc.prems(1) obtain recs' r where recs: "recs = recs' @ [r]"
      "map mr_ID recs' = map mig_ID ms" "mr_ID r = mig_ID m"
    by (cases recs rule: rev_cases) auto
  obtain x where x: "ups ms s = Some x" "mig_Up m x = Some s'"
    using snoc.prems(4) by (auto simp: ups_append split: bind_splits)
  obtain d where d: "fmlookup reg (mig_ID m) = Some m" "mig_Down m = Some d" "d s' = Some x"
    using snoc.prems(2) [of m] x(2) by (auto simp: reversible_def)
  have rest: "filter (\<lambda>r'. mr_ID r' \<noteq> mig_ID m) (rows @ recs) = rows @ recs'"
  proof -
    have "mr_ID x \<noteq> mig_ID m" if "x \<in> set (rows @ recs')" for x
      using snoc.prems(3) that unfolding recs(1) by (auto simp: recs(3) [symmetric]) (metis imageI)+
    then have "filter (\<lambda>r'. mr_ID r' \<noteq> mig_ID m) (rows @ recs') = rows @ recs'" by (rule filter_id_set)
    then show ?thesis by (simp add: recs(1,3))
  qed
  have "rollback_loop reg f (Suc i) (rev recs') \<lparr>md_schema = x, md_rows = rows @ recs'\<rparr>
      = (None, \<lparr>md_schema = s, md_rows = rows\<rparr>)"
    by (rule snoc.IH [OF recs(2) _ _ x(1)]) (use snoc.prems recs in auto)
  then show ?case
    using d rest assms(1) by (simp add: recs(1,3) quiet_def)
qed simp

text \<open>Undoing what one call applied restores the database.  After a call of Up that
  succeeded and applied something, a rollback of one batch that meets no fault, by migrations
  whose Down undoes their Up, succeeds and gives back the schema and the rows that were there
  before the call.\<close>

theorem mig_rollback_undoes_up:
  assumes "reg_wf reg" and "rows_wf db" and "mig_Up_run reg f steps db = (None, db1)"
    and "pending_list reg db \<noteq> []" and "\<And>m. m \<in> set (pending_list reg db) \<Longrightarrow> reversible m"
    and "quiet f'"
  shows "mig_Rollback reg f' 1 db1 = (None, db)"
proof -
  let ?p = "pending_list reg db" and ?n = "step_bound steps (length (pending_list reg db))"
  obtain recs b where k: "md_rows db1 = md_rows db @ recs" "map mr_ID recs = map mig_ID (take ?n ?p)"
      "\<forall>r \<in> set recs. mr_Batch r = b" "1 \<le> b" "\<forall>r \<in> set (md_rows db). mr_Batch r < b"
      "ups (take ?n ?p) (md_schema db) = Some (md_schema db1)"
    using mig_Up_run_prefix [OF assms(2,3)] by blast
  have wf1: "rows_wf db1" by (rule rows_wf_Up [OF assms(1-3)])
  obtain dn mx where a: "applied f' db1 = Inr (dn, mx)"
    using assms(6) by (simp add: applied_def quiet_def Let_def)
  note ai = applied_Inr [OF wf1 a]
  have "?n \<noteq> 0" using assms(4) by (auto simp: step_bound_def)
  then have ne: "recs \<noteq> []" using k(2) assms(4) by auto
  have mx: "mx = b"
  proof -
    have "b \<le> mx" using ai(3) [of "hd recs"] k(1,3) ne by simp
    moreover have "mx \<in> insert 0 (mr_Batch ` set (md_rows db1))"
      using a max_batch(3) [of "sort_key mr_ID (md_rows db1)"] by (auto simp: applied_def Let_def split: if_splits)
    ultimately show ?thesis using k by fastforce
  qed
  have key: "fmlookup dn i = Some x \<Longrightarrow> mr_ID x = i" for i x using ai(1) by blast
  note sl = snd_sorted_list_of_fmap [OF key]
  define targets where "targets = filter (\<lambda>row. b \<le> mr_Batch row) (map snd (sorted_list_of_fmap dn))"
  have "targets = recs"
  proof (rule map_sorted_distinct_set_unique [where f = mr_ID])
    have "set targets = {x. x \<in> set (md_rows db1) \<and> b \<le> mr_Batch x}"
      unfolding targets_def by (simp only: set_filter sl(2)) (use ai(1) in auto)
    then show eq: "set targets = set recs" using k by fastforce
    show "inj_on mr_ID (set targets \<union> set recs)"
      using wf1 unfolding eq by (auto simp: rows_wf_def distinct_map inj_on_def k(1))
    have all: "sorted (map mr_ID (map snd (sorted_list_of_fmap dn)))"
        "distinct (map mr_ID (map snd (sorted_list_of_fmap dn)))"
      by (simp_all only: sl(1) sorted_list_of_fset.rep_eq sorted_sorted_list_of_set distinct_sorted_list_of_set)
    show "sorted (map mr_ID targets)" "distinct (map mr_ID targets)"
      unfolding targets_def by (rule sorted_filter [OF all(1)], rule distinct_map_filterI [OF all(2)])
    show "sorted (map mr_ID recs)" "distinct (map mr_ID recs)"
      using mig_Registered_sorted [OF assms(1)]
      by (simp_all add: k(2) pending_list_def take_map [symmetric] sorted_filter distinct_map_filterI)
  qed
  then have roll: "mig_Rollback reg f' 1 db1 = rollback_loop reg f' 0 (rev recs) db1"
    using assms(6) a k(4) mx
    by (simp add: mig_Rollback_def ensureTable_def quiet_def targets_def Let_def)
  have "rollback_loop reg f' 0 (rev recs) \<lparr>md_schema = md_schema db1, md_rows = md_rows db @ recs\<rparr>
      = (None, \<lparr>md_schema = md_schema db, md_rows = md_rows db\<rparr>)"
  proof (rule rollback_loop_ups [OF assms(6) k(2) _ _ k(6)])
    show "fmlookup reg (mig_ID m) = Some m \<and> reversible m" if "m \<in> set (take ?n ?p)" for m
      using in_set_takeD [OF that] assms(5) mig_Registered_sorted(3) [OF assms(1), of m]
      by (auto simp: pending_list_def)
    show "distinct (map mr_ID (md_rows db @ recs))" using wf1 by (simp add: rows_wf_def k(1))
  qed
  moreover have "\<lparr>md_schema = md_schema db1, md_rows = md_rows db @ recs\<rparr> = db1"
      "\<lparr>md_schema = md_schema db, md_rows = md_rows db\<rparr> = db"
    using k(1) by simp_all
  ultimately show ?thesis by (simp only: roll)
qed

lemma reversible_user_migrations: "reversible create_users" "reversible (extend_users i)"
  by (auto simp: reversible_def)

lemma two_registered:
  assumes "x < (y :: string)" and "mig_ID m1 = x" and "mig_ID m2 = y"
  shows "mig_Registered (registry_of [m1, m2]) = [m1, m2]" "mig_Registered (registry_of [m2, m1]) = [m1, m2]"
  using assms
  by (auto simp: registry_of_def mig_Registered_def sorted_list_of_fmap_def sorted_list_of_fset.rep_eq
      fmdom_of_list fmlookup_of_list insort_key.simps)

theorem mig_rollback_undoes_up_witness:
  "\<exists>db1. mig_Up_run (registry_of [create_users, extend_users ''3_extend'']) calm 0 fresh_db = (None, db1)
    \<and> mig_Rollback (registry_of [create_users, extend_users ''3_extend'']) calm 1 db1 = (None, fresh_db)"
proof -
  let ?reg = "registry_of [create_users, extend_users ''3_extend'']"
  have reg: "mig_Registered ?reg = [create_users, extend_users ''3_extend'']"
    by (rule two_registered(1) [of "''2_create_users''" "''3_extend''"]) simp_all
  have pend: "pending_list ?reg fresh_db = [create_users, extend_users ''3_extend'']"
    by (simp add: pending_list_def reg fresh_db_def)
  obtain db1 where up: "mig_Up_run ?reg calm 0 fresh_db = (None, db1)"
    by (simp add: mig_Up_run_def ensureTable_def applied_def calm_def fresh_db_def mig_pending_def reg max_batch_def Let_def)
  have "mig_Rollback ?reg calm 1 db1 = (None, fresh_db)"
    by (rule mig_rollback_undoes_up [OF reg_wf_registry_of rows_wf_fresh up])
       (auto simp: pend reversible_user_migrations quiet_def calm_def)
  with up show ?thesis by (intro exI conjI)
qed

text \<open>Reset does not undo in the order of application.  A comment says that the newest change
  is undone first, and the code sorts by id: when a migration with a smaller id was merged and
  applied after one with a larger id, on which it builds, Reset undoes the older change first and
  fails, although every migration can be undone where it was applied.\<close>

theorem mig_reset_late_merge_fails:
  "\<exists>db1 db2. reversible create_users \<and> reversible (extend_users ''1_extend'')
    \<and> mig_Up_run (registry_of [create_users]) calm 0 fresh_db = (None, db1)
    \<and> mig_Up_run (registry_of [extend_users ''1_extend'', create_users]) calm 0 db1 = (None, db2)
    \<and> mig_Reset (registry_of [extend_users ''1_extend'', create_users]) calm db2
        = (Some (Err_Rollback ''2_create_users''), db2)"
proof -
  let ?reg = "registry_of [extend_users ''1_extend'', create_users]"
  let ?r = "\<lambda>i b. \<lparr>mr_ID = i, mr_Batch = b, mr_AppliedAt = 0\<rparr>"
  let ?db1 = "\<lparr>md_schema = 1, md_rows = [?r ''2_create_users'' 1]\<rparr> :: nat mig_db"
  let ?db2 = "\<lparr>md_schema = 2, md_rows = [?r ''2_create_users'' 1, ?r ''1_extend'' 2]\<rparr> :: nat mig_db"
  have reg: "mig_Registered ?reg = [extend_users ''1_extend'', create_users]"
    by (rule two_registered(1) [of "''1_extend''" "''2_create_users''"]) simp_all
  have reg1: "mig_Registered (registry_of [create_users]) = [create_users]"
    by (simp add: registry_of_def mig_Registered_def sorted_list_of_fmap_def sorted_list_of_fset.rep_eq)
  have "mig_Up_run (registry_of [create_users]) calm 0 fresh_db = (None, ?db1)"
    by (simp add: mig_Up_run_def ensureTable_def applied_def calm_def fresh_db_def mig_pending_def reg1 max_batch_def Let_def)
  moreover have "mig_Up_run ?reg calm 0 ?db1 = (None, ?db2)"
    by (simp add: mig_Up_run_def ensureTable_def applied_def calm_def mig_pending_def reg max_batch_def Let_def)
  moreover have "mig_Reset ?reg calm ?db2 = (Some (Err_Rollback ''2_create_users''), ?db2)"
    by (simp add: mig_Reset_def mig_Rollback_def ensureTable_def applied_def calm_def max_batch_def Let_def
        sorted_list_of_fmap_def sorted_list_of_fset.rep_eq registry_of_def fmlookup_of_list)
  ultimately show ?thesis using reversible_user_migrations by blast
qed

text \<open>Status tells of every migration once.  The list is sorted by id and has one entry for
  each migration that is registered or recorded; it says applied exactly for those with a row, with
  the batch and the time of the row, and missing exactly for those that are not in the code.\<close>

theorem mig_status_complete:
  assumes "reg_wf reg" and "rows_wf db" and "mig_Status reg f db = Inr sts"
  shows "sorted (map st_ID sts) \<and> distinct (map st_ID sts)
    \<and> st_ID ` set sts = fset (fmdom reg) \<union> mr_ID ` set (md_rows db)
    \<and> (\<forall>st \<in> set sts. st_Missing st = (fmlookup reg (st_ID st) = None)
         \<and> st_Applied st = (st_ID st \<in> mr_ID ` set (md_rows db))
         \<and> (\<forall>row \<in> set (md_rows db). mr_ID row = st_ID st \<longrightarrow>
              st_Batch st = mr_Batch row \<and> st_AppliedAt st = mr_AppliedAt row))"
proof -
  obtain dn mx where a: "applied f db = Inr (dn, mx)"
    using assms(3) by (auto simp: mig_Status_def split: sum.splits)
  note ai = applied_Inr [OF assms(2) a]
  define entry where "entry m = (case fmlookup dn (mig_ID m) of
      Some row \<Rightarrow> \<lparr>st_ID = mig_ID m, st_Applied = True, st_Batch = mr_Batch row,
                   st_AppliedAt = mr_AppliedAt row, st_Missing = False\<rparr>
    | None \<Rightarrow> \<lparr>st_ID = mig_ID m, st_Applied = False, st_Batch = 0,
               st_AppliedAt = zero_time, st_Missing = False\<rparr>)" for m :: "'a Migration"
  define gone where "gone = filter (\<lambda>(i, row). i \<notin> mig_ID ` set (mig_Registered reg)) (sorted_list_of_fmap dn)"
  define gentry where "gentry = (\<lambda>(i, row :: mig_record). \<lparr>st_ID = i, st_Applied = True, st_Batch = mr_Batch row,
      st_AppliedAt = mr_AppliedAt row, st_Missing = True\<rparr>)"
  have sts: "sts = sort_key st_ID (map entry (mig_Registered reg) @ map gentry gone)"
    using assms(3) a
    by (auto simp: mig_Status_def Let_def entry_def [abs_def] gone_def gentry_def split: sum.splits)
  have idE: "st_ID (entry m) = mig_ID m" "st_Missing (entry m) = False" for m
    by (simp_all add: entry_def split: option.split)
  have idG: "st_ID (gentry p) = fst p" for p by (cases p) (simp add: gentry_def)
  note reg = mig_Registered_ids [OF assms(1)]
  have setg: "set gone = {(i, row). fmlookup dn i = Some row \<and> i \<notin> fset (fmdom reg)}"
    unfolding gone_def reg by (auto simp: sorted_list_of_fmap_def fmlookup_dom_iff)
  have ids: "st_ID ` set sts = fset (fmdom reg) \<union> mr_ID ` set (md_rows db)"
  proof -
    have "st_ID ` set sts = mig_ID ` set (mig_Registered reg) \<union> fst ` set gone"
      by (simp add: sts image_Un image_image idE(1) idG)
    moreover have "fst ` set gone = mr_ID ` set (md_rows db) - fset (fmdom reg)"
    proof (rule set_eqI)
      fix i
      have "i \<in> fst ` set gone \<longleftrightarrow> fmlookup dn i \<noteq> None \<and> i \<notin> fset (fmdom reg)"
        by (auto simp: setg image_iff)
      then show "i \<in> fst ` set gone \<longleftrightarrow> i \<in> mr_ID ` set (md_rows db) - fset (fmdom reg)"
        using ai(2) [of i] by simp
    qed
    ultimately show ?thesis using reg by auto
  qed
  have dist: "distinct (map st_ID sts)"
  proof -
    have "distinct (map fst gone)"
      unfolding gone_def
      by (rule distinct_map_filterI) (simp add: sorted_list_of_fmap_keys sorted_list_of_fset.rep_eq)
    then have "distinct (map st_ID (map entry (mig_Registered reg) @ map gentry gone))"
      using mig_Registered_sorted(2) [OF assms(1)] reg
      by (auto simp: comp_def idE(1) idG setg)
    then show ?thesis unfolding sts distinct_map_sort_key .
  qed
  have "st_Missing st = (fmlookup reg (st_ID st) = None)
         \<and> st_Applied st = (st_ID st \<in> mr_ID ` set (md_rows db))
         \<and> (\<forall>row \<in> set (md_rows db). mr_ID row = st_ID st \<longrightarrow>
              st_Batch st = mr_Batch row \<and> st_AppliedAt st = mr_AppliedAt row)" if "st \<in> set sts" for st
  proof -
    have look: "row \<in> set (md_rows db) \<Longrightarrow> fmlookup dn (mr_ID row) = Some row" for row using ai(1) by blast
    consider m where "m \<in> set (mig_Registered reg)" "st = entry m" | p where "p \<in> set gone" "st = gentry p"
      using \<open>st \<in> set sts\<close> by (auto simp: sts)
    then show ?thesis
    proof cases
      case 1
      have "fmlookup reg (mig_ID m) \<noteq> None" using mig_Registered_sorted(3) [OF assms(1), of m] 1(1) by simp
      moreover have "st_Applied (entry m) = (mig_ID m \<in> mr_ID ` set (md_rows db))"
        using ai(2) [of "mig_ID m"] by (auto simp: entry_def split: option.splits)
      moreover have "st_Batch (entry m) = mr_Batch row \<and> st_AppliedAt (entry m) = mr_AppliedAt row"
        if "row \<in> set (md_rows db)" "mr_ID row = mig_ID m" for row
        using look [OF that(1)] that(2) by (simp add: entry_def)
      ultimately show ?thesis by (simp add: 1(2) idE)
    next
      case 2
      then obtain i row where p: "p = (i, row)" "fmlookup dn i = Some row" "fmlookup reg i = None"
        by (auto simp: setg fmlookup_dom_iff)
      have st: "st_ID st = i" "st_Missing st" "st_Applied st" "st_Batch st = mr_Batch row"
          "st_AppliedAt st = mr_AppliedAt row"
        by (simp_all add: 2(2) p(1) gentry_def)
      have mem: "i \<in> mr_ID ` set (md_rows db)" using ai(1) [of i row] p(2) by auto
      have uniq: "row' = row" if "row' \<in> set (md_rows db)" "mr_ID row' = i" for row'
        using look [OF that(1)] that(2) p(2) by simp
      have "\<forall>row' \<in> set (md_rows db). mr_ID row' = i \<longrightarrow> mr_Batch row = mr_Batch row' \<and> mr_AppliedAt row = mr_AppliedAt row'"
        using uniq by blast
      then show ?thesis using p(3) mem by (simp only: st simp_thms)
    qed
  qed
  with ids dist show ?thesis by (simp add: sts)
qed

theorem mig_status_complete_witness:
  "\<exists>sts. mig_Status (registry_of [create_users]) calm
      \<lparr>md_schema = 1, md_rows = [\<lparr>mr_ID = ''1_gone'', mr_Batch = 1, mr_AppliedAt = 5\<rparr>]\<rparr> = Inr sts
    \<and> sorted (map st_ID sts) \<and> st_ID ` set sts = {''1_gone'', ''2_create_users''}"
proof -
  let ?db = "\<lparr>md_schema = 1, md_rows = [\<lparr>mr_ID = ''1_gone'', mr_Batch = 1, mr_AppliedAt = 5\<rparr>]\<rparr> :: nat mig_db"
  obtain sts where st: "mig_Status (registry_of [create_users]) calm ?db = Inr sts"
    by (simp add: mig_Status_def ensureTable_def applied_def calm_def Let_def)
  have wf: "rows_wf ?db" by (simp add: rows_wf_def)
  have "fset (fmdom (registry_of [create_users])) = {''2_create_users''}"
    by (simp add: registry_of_def)
  with mig_status_complete [OF reg_wf_registry_of wf st] st show ?thesis
    by (intro exI [of _ sts]) auto
qed

end
