(* ===== verification/Schedule.thy ===== *)
theory Schedule
  imports Strconv
begin

text \<open>
  The package \<^verbatim>\<open>schedule\<close>: tasks and when they are due, the scheduler that spawns them at
  its ticks, and the guard against overlapping runs (\<^verbatim>\<open>schedule.go\<close>).

  The two critical sections of a task, in \<^verbatim>\<open>due\<close> and at the start of \<^verbatim>\<open>run\<close>, are
  separate steps of a relation, because a goroutine that a tick spawned may start after the next
  tick.  The body of a task is a function of its start time that returns an error, returns
  nothing or panics.  The local time zone is a fixed offset from UTC; changes of the offset during
  the year are not modelled.  Log output is left out.
\<close>

datatype body = Returns "string option" | Panics string

record Task =
  ta_Name :: string
  ta_Every :: duration
  ta_At :: string
  ta_Run :: "(time \<Rightarrow> body) option"
  ta_AllowOverlap :: bool
  ta_running :: bool
  ta_last :: time

type_synonym Scheduler = "Task list"

datatype sched_panic = No_Name | Nothing_To_Run string | No_Interval string | Duplicate_Task string

definition sched_Add :: "Task \<Rightarrow> Scheduler \<Rightarrow> (sched_panic, Scheduler) result" where
  "sched_Add t s =
     (if ta_Name t = [] then Inl No_Name
      else if ta_Run t = None then Inl (Nothing_To_Run (ta_Name t))
      else if ta_Every t \<le> 0 then Inl (No_Interval (ta_Name t))
      else if list_ex (\<lambda>e. ta_Name e = ta_Name t) s then Inl (Duplicate_Task (ta_Name t))
      else Inr (s @ [t]))"

definition sched_Every ::
  "duration \<Rightarrow> string \<Rightarrow> (time \<Rightarrow> body) option \<Rightarrow> Scheduler \<Rightarrow> (sched_panic, Scheduler) result" where
  "sched_Every every name run s =
     sched_Add \<lparr>ta_Name = name, ta_Every = every, ta_At = [], ta_Run = run, ta_AllowOverlap = False,
                ta_running = False, ta_last = zero_time\<rparr> s"

definition sched_Daily ::
  "string \<Rightarrow> string \<Rightarrow> (time \<Rightarrow> body) option \<Rightarrow> Scheduler \<Rightarrow> (sched_panic, Scheduler) result" where
  "sched_Daily at name run s =
     sched_Add \<lparr>ta_Name = name, ta_Every = 24 * Hour, ta_At = at, ta_Run = run, ta_AllowOverlap = False,
                ta_running = False, ta_last = zero_time\<rparr> s"

definition sched_Tasks :: "Scheduler \<Rightarrow> Task list" where
  "sched_Tasks s = sort_key ta_Name s"

section \<open>When a task is due\<close>

text \<open>\<^verbatim>\<open>time.Parse\<close> with the layout 15:04: one or two digits below 24, a colon, two digits below
  60 and nothing after them.\<close>

fun getnum :: "bool \<Rightarrow> string \<Rightarrow> (nat \<times> string) option" where
  "getnum fixed [] = None"
| "getnum fixed [c] = (if is_digit c \<and> \<not> fixed then Some (digit_val c, []) else None)"
| "getnum fixed (c # d # s) =
     (if \<not> is_digit c then None
      else if \<not> is_digit d then (if fixed then None else Some (digit_val c, d # s))
      else Some (digit_val c * 10 + digit_val d, s))"

definition parseAt :: "string \<Rightarrow> (nat \<times> nat) option" where
  "parseAt at =
     (case getnum False at of
        None \<Rightarrow> None
      | Some (hour, rest) \<Rightarrow>
          if 24 \<le> hour then None
          else (case rest of
                  [] \<Rightarrow> None
                | c # rest' \<Rightarrow>
                    if c \<noteq> CHR '':'' then None
                    else (case getnum True rest' of
                            None \<Rightarrow> None
                          | Some (minute, extra) \<Rightarrow>
                              if 60 \<le> minute then None
                              else if extra \<noteq> [] then None
                              else Some (hour, minute))))"

text \<open>\<^verbatim>\<open>time.Date\<close> of the day of \<open>now\<close> at a time of day, in the zone with the given offset.\<close>

definition local_day :: "duration \<Rightarrow> time \<Rightarrow> int" where
  "local_day off now = (now + off) div (24 * Hour)"

definition at_time_of_day :: "duration \<Rightarrow> time \<Rightarrow> nat \<Rightarrow> nat \<Rightarrow> time" where
  "at_time_of_day off now hour minute =
     local_day off now * (24 * Hour) + int hour * Hour + int minute * Minute - off"

definition dueAtTimeOfDay :: "duration \<Rightarrow> time \<Rightarrow> Task \<Rightarrow> bool" where
  "dueAtTimeOfDay off now t =
     (case parseAt (ta_At t) of
        None \<Rightarrow> False
      | Some (hour, minute) \<Rightarrow>
          let target = at_time_of_day off now hour minute
          in if now < target then False else ta_last t < target)"

definition task_due :: "duration \<Rightarrow> time \<Rightarrow> Task \<Rightarrow> bool" where
  "task_due off now t =
     (if ta_running t \<and> \<not> ta_AllowOverlap t then False
      else if ta_At t \<noteq> [] \<and> ta_Every t \<ge> 24 * Hour then dueAtTimeOfDay off now t
      else ta_last t = zero_time \<or> now - ta_last t \<ge> ta_Every t)"

section \<open>Running\<close>

definition safely :: "body \<Rightarrow> string option" where
  "safely b = (case b of Returns e \<Rightarrow> e | Panics msg \<Rightarrow> Some (''panic: '' @ msg))"

text \<open>The critical section at the start of \<^verbatim>\<open>run\<close>; \<^term>\<open>None\<close> where the run is dropped.\<close>

definition task_begin :: "time \<Rightarrow> Task \<Rightarrow> Task option" where
  "task_begin now t =
     (if ta_running t \<and> \<not> ta_AllowOverlap t then None
      else Some (t\<lparr>ta_running := True, ta_last := now\<rparr>))"

definition task_end :: "Task \<Rightarrow> Task" where
  "task_end t = t\<lparr>ta_running := False\<rparr>"

definition update_task :: "string \<Rightarrow> (Task \<Rightarrow> Task) \<Rightarrow> Scheduler \<Rightarrow> Scheduler" where
  "update_task n f s = map (\<lambda>t. if ta_Name t = n then f t else t) s"

text \<open>The scheduler at work: its tasks, the goroutines that were spawned and have not reached
  the start of the body, the bodies under way with their start times, the outcomes so far, and
  whether the context was cancelled.\<close>

record sched_state =
  sc_tasks :: Scheduler
  sc_spawned :: "string list"
  sc_active :: "(string \<times> time) list"
  sc_done :: "(string \<times> time \<times> string option) list"
  sc_stopping :: bool

definition sched_Run_start :: "time \<Rightarrow> Scheduler \<Rightarrow> sched_state" where
  "sched_Run_start now s =
     \<lparr>sc_tasks = map (\<lambda>t. t\<lparr>ta_last := now\<rparr>) s, sc_spawned = [], sc_active = [], sc_done = [], sc_stopping = False\<rparr>"

text \<open>One tick of \<^verbatim>\<open>Run\<close>: the names of the tasks that are due, in the order of the names.\<close>

definition sched_tick :: "duration \<Rightarrow> time \<Rightarrow> Scheduler \<Rightarrow> string list" where
  "sched_tick off now s = map ta_Name (filter (task_due off now) (sched_Tasks s))"

text \<open>The steps of \<^verbatim>\<open>Run\<close> and its goroutines: a tick, the cancellation of the context, a
  spawned goroutine that starts or drops its run, and a body that ends.\<close>

inductive sched_step :: "duration \<Rightarrow> time \<Rightarrow> sched_state \<Rightarrow> sched_state \<Rightarrow> bool" for off now where
  Tick: "\<not> sc_stopping st \<Longrightarrow>
     sched_step off now st (st\<lparr>sc_spawned := sc_spawned st @ sched_tick off now (sc_tasks st)\<rparr>)"
| Cancel: "sched_step off now st (st\<lparr>sc_stopping := True\<rparr>)"
| Begin: "sc_spawned st = xs @ n # ys \<Longrightarrow> t \<in> set (sc_tasks st) \<Longrightarrow> ta_Name t = n \<Longrightarrow>
     task_begin now t = Some t' \<Longrightarrow>
     sched_step off now st (st\<lparr>sc_spawned := xs @ ys, sc_active := sc_active st @ [(n, now)],
       sc_tasks := update_task n (\<lambda>_. t') (sc_tasks st)\<rparr>)"
| Drop: "sc_spawned st = xs @ n # ys \<Longrightarrow> t \<in> set (sc_tasks st) \<Longrightarrow> ta_Name t = n \<Longrightarrow>
     task_begin now t = None \<Longrightarrow> sched_step off now st (st\<lparr>sc_spawned := xs @ ys\<rparr>)"
| End: "sc_active st = xs @ (n, start) # ys \<Longrightarrow> t \<in> set (sc_tasks st) \<Longrightarrow> ta_Name t = n \<Longrightarrow>
     ta_Run t = Some run \<Longrightarrow>
     sched_step off now st (st\<lparr>sc_active := xs @ ys,
       sc_done := sc_done st @ [(n, start, safely (run start))],
       sc_tasks := update_task n task_end (sc_tasks st)\<rparr>)"

inductive_cases sched_stepE: "sched_step off now st st'"

text \<open>\<^verbatim>\<open>Run\<close> returns once the context is cancelled and every goroutine has ended.\<close>

definition sched_returned :: "sched_state \<Rightarrow> bool" where
  "sched_returned st = (sc_stopping st \<and> sc_spawned st = [] \<and> sc_active st = [])"

text \<open>\<^verbatim>\<open>RunOnce\<close>: every task counts as never run, those that are due run, and the call waits for
  all of them.  With no two tasks of one name each run starts and ends on its own.\<close>

definition run_once_task :: "duration \<Rightarrow> time \<Rightarrow> Task \<Rightarrow> Task \<times> (string \<times> string option) option" where
  "run_once_task off now t =
     (let t0 = t\<lparr>ta_last := zero_time\<rparr> in
      if \<not> task_due off now t0 then (t0, None)
      else case task_begin now t0 of
        None \<Rightarrow> (t0, None)
      | Some t1 \<Rightarrow>
          (task_end t1, Some (ta_Name t, safely (case ta_Run t of None \<Rightarrow> Panics ''nil'' | Some run \<Rightarrow> run now))))"

definition sched_RunOnce :: "duration \<Rightarrow> time \<Rightarrow> Scheduler \<Rightarrow> Scheduler \<times> (string \<times> string option) list" where
  "sched_RunOnce off now s =
     (map (fst \<circ> run_once_task off now) s,
      List.map_filter (snd \<circ> run_once_task off now) (sched_Tasks s))"

end
