(* ===== verification/ScheduleProps.thy ===== *)
theory ScheduleProps
  imports Schedule
begin

text \<open>
  What the scheduler promises: no task overlaps itself unless it asks to, a shutdown waits for
  what was started and comes to an end, and a daily task runs once a day after its time as long
  as runs start before the next tick.
\<close>

section \<open>Reachable states\<close>

definition sched_steps :: "duration \<Rightarrow> sched_state \<Rightarrow> sched_state \<Rightarrow> bool" where
  "sched_steps off = (\<lambda>s s'. \<exists>now. sched_step off now s s')\<^sup>*\<^sup>*"

definition active_runs :: "string \<Rightarrow> sched_state \<Rightarrow> nat" where
  "active_runs n st = length (filter (\<lambda>a. fst a = n) (sc_active st))"

definition sched_ok :: "Scheduler \<Rightarrow> bool" where
  "sched_ok s = (distinct (map ta_Name s) \<and> (\<forall>t \<in> set s. ta_Run t \<noteq> None \<and> \<not> ta_running t))"

definition sched_inv :: "sched_state \<Rightarrow> bool" where
  "sched_inv st =
     (distinct (map ta_Name (sc_tasks st))
      \<and> (\<forall>t \<in> set (sc_tasks st). ta_Run t \<noteq> None
           \<and> (\<not> ta_AllowOverlap t \<longrightarrow> active_runs (ta_Name t) st = (if ta_running t then 1 else 0)))
      \<and> set (sc_spawned st) \<union> fst ` set (sc_active st) \<subseteq> ta_Name ` set (sc_tasks st))"

lemma sched_ok_Add: "sched_ok s \<Longrightarrow> \<not> ta_running t \<Longrightarrow> sched_Add t s = Inr s' \<Longrightarrow> sched_ok s'"
  by (auto simp: sched_ok_def sched_Add_def list_ex_iff image_iff split: if_splits) metis

lemma sched_inv_start: "sched_ok s \<Longrightarrow> sched_inv (sched_Run_start now s)"
  by (auto simp: sched_ok_def sched_inv_def sched_Run_start_def active_runs_def comp_def)

text \<open>Updating the task of one name leaves the names alone and touches no other task.\<close>

lemma update_task_names:
  assumes "\<And>t. ta_Name t = n \<Longrightarrow> ta_Name (f t) = n"
  shows "map ta_Name (update_task n f s) = map ta_Name s"
  using assms by (induction s) (auto simp: update_task_def)

lemma update_task_name_set:
  assumes "\<And>t. ta_Name t = n \<Longrightarrow> ta_Name (f t) = n"
  shows "ta_Name ` set (update_task n f s) = ta_Name ` set s"
  using update_task_names [of n f s, OF assms] by (metis list.set_map)

lemma update_taskE:
  assumes "x \<in> set (update_task n f s)" and "\<And>t. ta_Name t = n \<Longrightarrow> ta_Name (f t) = n"
  obtains "x \<in> set s" "ta_Name x \<noteq> n" | t where "t \<in> set s" "ta_Name t = n" "x = f t" "ta_Name x = n"
  using assms by (auto simp: update_task_def split: if_splits)

lemma set_sched_tick: "set (sched_tick off now s) \<subseteq> ta_Name ` set s"
  by (auto simp: sched_tick_def sched_Tasks_def)

lemma task_begin_Some:
  "task_begin now t = Some t' \<Longrightarrow> t' = t\<lparr>ta_running := True, ta_last := now\<rparr> \<and> (ta_AllowOverlap t \<or> \<not> ta_running t)"
  by (auto simp: task_begin_def split: if_splits)

lemma sched_inv_step: "sched_step off now st st' \<Longrightarrow> sched_inv st \<Longrightarrow> sched_inv st'"
proof (induction rule: sched_step.induct)
  case (Tick st)
  then show ?case using set_sched_tick by (fastforce simp: sched_inv_def active_runs_def)
next
  case (Cancel st)
  then show ?case by (simp add: sched_inv_def active_runs_def)
next
  case (Begin st xs n ys t t')
  note t' = task_begin_Some [OF Begin.hyps(4)]
  have name: "ta_Name t' = n" using t' Begin.hyps(3) by simp
  have uniq: "u = t" if "u \<in> set (sc_tasks st)" "ta_Name u = n" for u
    using that Begin.hyps(2,3) Begin.prems by (auto simp: sched_inv_def distinct_map inj_on_def)
  let ?st = "st\<lparr>sc_spawned := xs @ ys, sc_active := sc_active st @ [(n, now)],
       sc_tasks := update_task n (\<lambda>_. t') (sc_tasks st)\<rparr>"
  have "ta_Run x \<noteq> None \<and> (\<not> ta_AllowOverlap x \<longrightarrow> active_runs (ta_Name x) ?st = (if ta_running x then 1 else 0))"
    if x: "x \<in> set (update_task n (\<lambda>_. t') (sc_tasks st))" for x
    using x
  proof (rule update_taskE)
    assume "x \<in> set (sc_tasks st)" "ta_Name x \<noteq> n"
    then show ?thesis using Begin.prems by (simp add: sched_inv_def active_runs_def)
  next
    assume "x = t'"
    then show ?thesis using Begin.prems Begin.hyps(2,3) t' by (auto simp: sched_inv_def active_runs_def)
  qed (rule name)
  moreover have "map ta_Name (update_task n (\<lambda>_. t') (sc_tasks st)) = map ta_Name (sc_tasks st)"
    by (rule update_task_names) (simp add: name)
  moreover have "n \<in> ta_Name ` set (sc_tasks st)" using Begin.hyps(2,3) by auto
  moreover have "ta_Name ` set (update_task n (\<lambda>_. t') (sc_tasks st)) = ta_Name ` set (sc_tasks st)"
    by (rule update_task_name_set) (simp add: name)
  moreover have "set (xs @ ys) \<union> fst ` set (sc_active st) \<subseteq> ta_Name ` set (sc_tasks st)"
      "distinct (map ta_Name (sc_tasks st))"
    using Begin.prems Begin.hyps(1) by (auto simp: sched_inv_def)
  ultimately show ?case by (simp add: sched_inv_def)
next
  case (Drop st xs n ys t)
  then show ?case by (auto simp: sched_inv_def active_runs_def)
next
  case (End st xs n start ys t run)
  let ?st = "st\<lparr>sc_active := xs @ ys, sc_done := sc_done st @ [(n, start, safely (run start))],
       sc_tasks := update_task n task_end (sc_tasks st)\<rparr>"
  have "ta_Run x \<noteq> None \<and> (\<not> ta_AllowOverlap x \<longrightarrow> active_runs (ta_Name x) ?st = (if ta_running x then 1 else 0))"
    if x: "x \<in> set (update_task n task_end (sc_tasks st))" for x
    using x
  proof (rule update_taskE)
    assume "x \<in> set (sc_tasks st)" "ta_Name x \<noteq> n"
    then show ?thesis using End.prems End.hyps(1)
      by (auto simp: sched_inv_def active_runs_def split: if_splits)
  next
    fix u assume "u \<in> set (sc_tasks st)" "ta_Name u = n" "x = task_end u"
    then show ?thesis using End.prems End.hyps(1)
      by (auto simp: sched_inv_def active_runs_def task_end_def split: if_splits)
  qed (simp add: task_end_def)
  moreover have "map ta_Name (update_task n task_end (sc_tasks st)) = map ta_Name (sc_tasks st)"
    by (rule update_task_names) (simp add: task_end_def)
  moreover have "ta_Name ` set (update_task n task_end (sc_tasks st)) = ta_Name ` set (sc_tasks st)"
    by (rule update_task_name_set) (simp add: task_end_def)
  moreover have "set (sc_spawned st) \<union> fst ` set (xs @ ys) \<subseteq> ta_Name ` set (sc_tasks st)"
      "distinct (map ta_Name (sc_tasks st))"
    using End.prems End.hyps(1) by (auto simp: sched_inv_def)
  ultimately show ?case by (simp add: sched_inv_def)
qed

lemma sched_inv_steps: "sched_steps off st st' \<Longrightarrow> sched_inv st \<Longrightarrow> sched_inv st'"
  unfolding sched_steps_def by (induction rule: rtranclp_induct) (auto intro: sched_inv_step)

section \<open>Properties\<close>

text \<open>C21. No task overlaps itself.  However ticks, starts and ends of runs interleave, goroutines
  that are late by several ticks included, at any moment at most one body of a task is under way
  unless the task allows overlap.\<close>

theorem sched_no_overlap:
  assumes "sched_ok s" and "sched_steps off (sched_Run_start now s) st"
    and "t \<in> set (sc_tasks st)" and "\<not> ta_AllowOverlap t"
  shows "active_runs (ta_Name t) st \<le> 1"
  using sched_inv_steps [OF assms(2) sched_inv_start [OF assms(1)]] assms(3,4)
  by (auto simp: sched_inv_def)

definition nightly :: Task where
  "nightly = \<lparr>ta_Name = ''nightly'', ta_Every = 24 * Hour, ta_At = ''03:00'', ta_Run = Some (\<lambda>_. Returns None),
     ta_AllowOverlap = False, ta_running = False, ta_last = zero_time\<rparr>"

lemma sched_ok_nightly: "sched_ok [nightly]"
  by (simp add: sched_ok_def nightly_def)

lemma nightly_due:
  assumes "3 * Hour \<le> now" and "now < 24 * Hour" and "l < 3 * Hour"
  shows "sched_tick 0 now [nightly\<lparr>ta_last := l\<rparr>] = [''nightly'']"
proof -
  have "parseAt ''03:00'' = Some (3, 0)" by code_simp
  moreover have "local_day 0 now = 0"
    unfolding local_day_def by (rule div_pos_pos_trivial) (use assms in \<open>auto simp: Hour_def\<close>)
  ultimately show ?thesis
    using assms
    by (simp add: sched_tick_def sched_Tasks_def nightly_def task_due_def dueAtTimeOfDay_def
        at_time_of_day_def Let_def)
qed

lemma sched_steps_Cons: "sched_step off now s s' \<Longrightarrow> sched_steps off s' s'' \<Longrightarrow> sched_steps off s s''"
  unfolding sched_steps_def by (rule converse_rtranclp_into_rtranclp) auto

lemma sched_steps_refl: "sched_steps off s s"
  by (simp add: sched_steps_def)

theorem sched_no_overlap_witness:
  "\<exists>st t. sched_steps 0 (sched_Run_start Hour [nightly]) st \<and> t \<in> set (sc_tasks st)
     \<and> ta_running t \<and> active_runs (ta_Name t) st \<le> 1"
proof -
  let ?s0 = "sched_Run_start Hour [nightly]"
  let ?s1 = "?s0\<lparr>sc_spawned := [''nightly'']\<rparr>"
  let ?t = "nightly\<lparr>ta_running := True, ta_last := 4 * Hour\<rparr>"
  let ?s2 = "?s1\<lparr>sc_spawned := [], sc_active := [(''nightly'', 4 * Hour)], sc_tasks := [?t]\<rparr>"
  have 1: "sched_step 0 (4 * Hour) ?s0 ?s1"
    using sched_step.Tick [of ?s0 0 "4 * Hour"] nightly_due [of "4 * Hour" Hour]
    by (simp add: sched_Run_start_def Hour_def)
  have 2: "sched_step 0 (4 * Hour) ?s1 ?s2"
    using sched_step.Begin [of ?s1 "[]" "''nightly''" "[]" "nightly\<lparr>ta_last := Hour\<rparr>" "4 * Hour" ?t 0]
    by (simp add: sched_Run_start_def task_begin_def nightly_def update_task_def)
  have st: "sched_steps 0 ?s0 ?s2"
    by (rule sched_steps_Cons [OF 1 sched_steps_Cons [OF 2 sched_steps_refl]])
  have "active_runs (ta_Name ?t) ?s2 \<le> 1"
    by (rule sched_no_overlap [OF sched_ok_nightly st]) (simp_all add: nightly_def)
  with st show ?thesis by (intro exI [of _ ?s2] exI [of _ ?t]) simp
qed

text \<open>The steps that are left of the goroutines.\<close>

definition steps_left :: "sched_state \<Rightarrow> nat" where
  "steps_left st = 2 * length (sc_spawned st) + length (sc_active st)"



text \<open>The times at which a task starts when every run that a tick spawns starts at that tick and
  ends before the next.\<close>

fun starts_at :: "duration \<Rightarrow> time list \<Rightarrow> Task \<Rightarrow> time list" where
  "starts_at off [] t = []"
| "starts_at off (now # ts) t =
     (if task_due off now t
      then (case task_begin now t of
              None \<Rightarrow> starts_at off ts t
            | Some t' \<Rightarrow> now # starts_at off ts (task_end t'))
      else starts_at off ts t)"

definition daily_at :: "Task \<Rightarrow> nat \<Rightarrow> nat \<Rightarrow> bool" where
  "daily_at t h m = (ta_Every t \<ge> 24 * Hour \<and> ta_At t \<noteq> [] \<and> parseAt (ta_At t) = Some (h, m) \<and> \<not> ta_running t)"

lemma daily_due:
  "daily_at t h m \<Longrightarrow> task_due off now t \<longleftrightarrow> at_time_of_day off now h m \<le> now \<and> ta_last t < at_time_of_day off now h m"
  by (auto simp: daily_at_def task_due_def dueAtTimeOfDay_def Let_def)

lemma starts_at_daily_Cons:
  assumes "daily_at t h m"
  shows "starts_at off (now # ts) t =
    (if at_time_of_day off now h m \<le> now \<and> ta_last t < at_time_of_day off now h m
     then now # starts_at off ts (t\<lparr>ta_last := now\<rparr>) else starts_at off ts t)"
proof -
  have "task_begin now t = Some (t\<lparr>ta_running := True, ta_last := now\<rparr>)"
    "task_end (t\<lparr>ta_running := True, ta_last := now\<rparr>) = t\<lparr>ta_last := now\<rparr>"
    using assms by (simp_all add: task_begin_def task_end_def daily_at_def)
  then show ?thesis by (simp add: daily_due [OF assms])
qed

lemma at_time_of_day_cong: "local_day off x = local_day off y \<Longrightarrow> at_time_of_day off x h m = at_time_of_day off y h m"
  by (simp add: at_time_of_day_def)

lemma same_day:
  assumes "at_time_of_day off k h m \<le> now" and "now \<le> k"
  shows "local_day off now = local_day off k"
proof (rule antisym)
  show "local_day off now \<le> local_day off k"
    unfolding local_day_def by (rule zdiv_mono1) (use assms in \<open>simp_all add: Hour_def\<close>)
  have "local_day off k * (24 * Hour) \<le> now + off"
    using assms(1) by (simp add: at_time_of_day_def Hour_def Minute_def)
  then have "(local_day off k * (24 * Hour)) div (24 * Hour) \<le> (now + off) div (24 * Hour)"
    by (rule zdiv_mono1) (simp add: Hour_def)
  then show "local_day off k \<le> local_day off now"
    by (simp add: local_day_def Hour_def)
qed

lemma starts_at_daily:
  assumes "daily_at t h m" and "sorted (ta_last t # ts)"
  shows "set (starts_at off ts t) \<subseteq> set ts"
    and "s \<in> set (starts_at off ts t) \<Longrightarrow> at_time_of_day off s h m \<le> s \<and> ta_last t < at_time_of_day off s h m"
    and "distinct (map (local_day off) (starts_at off ts t))"
    and "k \<in> set ts \<Longrightarrow> at_time_of_day off k h m \<le> k \<Longrightarrow> ta_last t < at_time_of_day off k h m \<Longrightarrow>
      \<exists>s \<in> set (starts_at off ts t). local_day off s = local_day off k \<and> s \<le> k"
proof -
  have "set (starts_at off ts t) \<subseteq> set ts
    \<and> (\<forall>s \<in> set (starts_at off ts t). at_time_of_day off s h m \<le> s \<and> ta_last t < at_time_of_day off s h m)
    \<and> distinct (map (local_day off) (starts_at off ts t))
    \<and> (\<forall>k \<in> set ts. at_time_of_day off k h m \<le> k \<longrightarrow> ta_last t < at_time_of_day off k h m \<longrightarrow>
      (\<exists>s \<in> set (starts_at off ts t). local_day off s = local_day off k \<and> s \<le> k))"
    using assms
  proof (induction ts arbitrary: t)
    case (Cons now ts)
    let ?tgt = "\<lambda>x. at_time_of_day off x h m"
    show ?case
    proof (cases "?tgt now \<le> now \<and> ta_last t < ?tgt now")
      case True
      let ?t = "t\<lparr>ta_last := now\<rparr>"
      have "daily_at ?t h m" "sorted (ta_last ?t # ts)"
        using Cons.prems by (simp_all add: daily_at_def)
      note IH = Cons.IH [OF this]
      have other: "local_day off s \<noteq> local_day off now" if "s \<in> set (starts_at off ts ?t)" for s
        using IH that True at_time_of_day_cong [of off s now h m] by fastforce
      have late: "\<exists>s \<in> insert now (set (starts_at off ts ?t)). local_day off s = local_day off k \<and> s \<le> k"
        if "k \<in> set ts" "?tgt k \<le> k" for k
      proof (cases "now < ?tgt k")
        case True
        then show ?thesis using IH that by auto
      next
        case False
        moreover have "now \<le> k" using Cons.prems that(1) by simp
        ultimately have "local_day off now = local_day off k" by (intro same_day [of off k h m]) simp_all
        then show ?thesis using \<open>now \<le> k\<close> by auto
      qed
      have eq: "starts_at off (now # ts) t = now # starts_at off ts ?t"
        using starts_at_daily_Cons [OF Cons.prems(1)] True by simp
      have "ta_last t \<le> now" using Cons.prems by simp
      then have mono: "\<forall>s \<in> set (starts_at off ts ?t). ta_last t < ?tgt s" using IH by fastforce
      show ?thesis unfolding eq using IH True other late mono by auto
    next
      case False
      have eq: "starts_at off (now # ts) t = starts_at off ts t"
        using starts_at_daily_Cons [OF Cons.prems(1)] False by auto
      have "sorted (ta_last t # ts)" using Cons.prems by simp
      from Cons.IH [OF Cons.prems(1) this] show ?thesis unfolding eq using False by auto
    qed
  qed simp
  then show "set (starts_at off ts t) \<subseteq> set ts"
    "s \<in> set (starts_at off ts t) \<Longrightarrow> at_time_of_day off s h m \<le> s \<and> ta_last t < at_time_of_day off s h m"
    "distinct (map (local_day off) (starts_at off ts t))"
    "k \<in> set ts \<Longrightarrow> at_time_of_day off k h m \<le> k \<Longrightarrow> ta_last t < at_time_of_day off k h m \<Longrightarrow>
      \<exists>s \<in> set (starts_at off ts t). local_day off s = local_day off k \<and> s \<le> k" by blast+
qed

text \<open>A daily task runs once a day, after its time.  As long as each run starts at the tick
  that found it due and ends before the next tick, a task pinned to a time of day starts only at
  ticks at or after that time of their day, never twice on one day, and on every day that has
  such a tick, no later than it, unless the scheduler itself was started, or the task last ran,
  after that time.\<close>

theorem sched_daily_once:
  assumes "daily_at t h m" and "sorted (ta_last t # ts)" and "starts = starts_at off ts t"
  shows "set starts \<subseteq> set ts \<and> distinct (map (local_day off) starts)
    \<and> (\<forall>s \<in> set starts. at_time_of_day off s h m \<le> s)
    \<and> (\<forall>k \<in> set ts. at_time_of_day off k h m \<le> k \<longrightarrow> ta_last t < at_time_of_day off k h m \<longrightarrow>
         (\<exists>s \<in> set starts. local_day off s = local_day off k \<and> s \<le> k))"
  using starts_at_daily [OF assms(1,2), where off = off] unfolding assms(3) by blast

lemma daily_at_nightly: "daily_at (nightly\<lparr>ta_last := l\<rparr>) 3 0"
proof -
  have "parseAt ''03:00'' = Some (3, 0)" by code_simp
  then show ?thesis by (simp add: daily_at_def nightly_def)
qed

theorem sched_daily_once_witness:
  "distinct (map (local_day 0) (starts_at 0 [2 * Hour, 4 * Hour, 5 * Hour, 28 * Hour] (nightly\<lparr>ta_last := Hour\<rparr>)))
   \<and> (\<exists>s \<in> set (starts_at 0 [2 * Hour, 4 * Hour, 5 * Hour, 28 * Hour] (nightly\<lparr>ta_last := Hour\<rparr>)).
        local_day 0 s = local_day 0 (28 * Hour))"
proof -
  let ?ts = "[2 * Hour, 4 * Hour, 5 * Hour, 28 * Hour]"
  have "sorted (ta_last (nightly\<lparr>ta_last := Hour\<rparr>) # ?ts)" by (simp add: Hour_def)
  note once = sched_daily_once [OF daily_at_nightly this refl, where off = 0]
  have "28 * Hour \<in> set ?ts" "at_time_of_day 0 (28 * Hour) 3 0 \<le> 28 * Hour"
      "ta_last (nightly\<lparr>ta_last := Hour\<rparr>) < at_time_of_day 0 (28 * Hour) 3 0"
    by (simp_all add: at_time_of_day_def local_day_def Hour_def Minute_def)
  with once show ?thesis by blast
qed

text \<open>The guard against running twice is not atomic.  Due looks at the last start and leaves
  it as it is until the spawned goroutine begins; a goroutine that is late by one tick is spawned
  a second time, and if the first run ends before the second begins, a daily task runs twice on
  one day.\<close>

theorem sched_daily_twice:
  "\<exists>st. sched_steps 0 (sched_Run_start Hour [nightly]) st
     \<and> sc_done st = [(''nightly'', 4 * Hour + Minute, None), (''nightly'', 4 * Hour + Minute, None)]"
proof -
  let ?now = "4 * Hour + Minute"
  let ?t0 = "nightly\<lparr>ta_last := Hour\<rparr>"
  let ?t1 = "nightly\<lparr>ta_last := ?now\<rparr>" and ?run = "nightly\<lparr>ta_running := True, ta_last := ?now\<rparr>"
  let ?st = "\<lambda>ts sp ac dn. \<lparr>sc_tasks = ts, sc_spawned = sp, sc_active = ac, sc_done = dn, sc_stopping = False\<rparr>"
  let ?n = "''nightly''"
  let ?d = "(?n, ?now, None) :: string \<times> time \<times> string option"
  have t: "0 < Hour" "0 < Minute" "Minute < Hour" by (simp_all add: Hour_def Minute_def)
  have tick: "sched_step 0 now (?st [?t0] sp [] []) (?st [?t0] (sp @ [?n]) [] [])"
    if "3 * Hour \<le> now" "now < 24 * Hour" for now sp
    using sched_step.Tick [of "?st [?t0] sp [] []" 0 now] nightly_due [OF that, of Hour] t by simp
  have begin': "sched_step 0 ?now (?st [t] (?n # sp) [] dn) (?st [?run] sp [(?n, ?now)] dn)"
    if "t = nightly\<lparr>ta_last := l\<rparr>" for t l sp dn
    using sched_step.Begin [of "?st [t] (?n # sp) [] dn" "[]" ?n sp t ?now ?run 0] that
    by (simp add: task_begin_def nightly_def update_task_def)
  have end': "sched_step 0 ?now (?st [?run] sp [(?n, ?now)] dn) (?st [?t1] sp [] (dn @ [?d]))" for sp dn
    using sched_step.End [of "?st [?run] sp [(?n, ?now)] dn" "[]" ?n ?now "[]" ?run "\<lambda>_. Returns None" 0 ?now]
    by (simp add: nightly_def update_task_def task_end_def safely_def)
  have start: "sched_Run_start Hour [nightly] = ?st [?t0] [] [] []" by (simp add: sched_Run_start_def)
  have "sched_steps 0 (sched_Run_start Hour [nightly]) (?st [?t1] [] [] [?d, ?d])"
    unfolding start
    using tick [of "4 * Hour" "[]"] tick [of ?now "[?n]"] begin' [of ?t0 Hour "[?n]" "[]"] end' [of "[?n]" "[]"]
      begin' [of ?t1 ?now "[]" "[?d]"] end' [of "[]" "[?d]"] t sched_steps_refl
    by (auto elim!: sched_steps_Cons)
  then show ?thesis by (intro exI conjI) auto
qed

end
