(* ===== verification/Router.thy ===== *)
theory Router
  imports Strconv
begin

text \<open>
  The package \<^verbatim>\<open>router\<close>: the declaration of routes, groups and middleware and their replay
  onto a chi mux (\<^verbatim>\<open>router.go\<close>), and the registry of named routes that builds URLs
  (\<^verbatim>\<open>registry.go\<close>).

  An application declares its routes by calling methods, with closures for groups; here the calls
  are a list of declarations, nested where the code takes a closure, and handlers and middleware
  are type variables.  The mux of chi is a third-party package: what the router does to it is the
  list of calls it makes.  \<^verbatim>\<open>url.Values.Encode\<close> and \<^verbatim>\<open>url.ParseQuery\<close> are modelled.
\<close>

section \<open>Named routes\<close>

record NamedRoute =
  nr_Name :: string
  nr_Method :: string
  nr_Pattern :: string

type_synonym route_registry = "(string, NamedRoute) fmap"

datatype route_panic = Duplicate_Route string NamedRoute string string

definition registry_add ::
  "string \<Rightarrow> string \<Rightarrow> string \<Rightarrow> route_registry \<Rightarrow> (route_panic, route_registry) result" where
  "registry_add name method pattern reg =
     (case fmlookup reg name of
        Some existing \<Rightarrow> Inl (Duplicate_Route name existing method pattern)
      | None \<Rightarrow> Inr (fmupd name \<lparr>nr_Name = name, nr_Method = method, nr_Pattern = pattern\<rparr> reg))"

definition registry_all :: "route_registry \<Rightarrow> NamedRoute list" where
  "registry_all reg = map snd (sorted_list_of_fmap reg)"

definition joinPath :: "string \<Rightarrow> string \<Rightarrow> string" where
  "joinPath prefix pattern =
     (if prefix = [] \<or> prefix = ''/'' then (if pattern = [] then ''/'' else pattern)
      else if pattern = [] \<or> pattern = ''/'' then prefix
      else trim_suffix prefix ''/'' @ ''/'' @ trim_prefix pattern ''/'')"

text \<open>\<^verbatim>\<open>matchBrace\<close> on the part of the pattern from the opening brace on: the index of the brace
  that closes it.\<close>

fun brace_loop :: "string \<Rightarrow> nat \<Rightarrow> int \<Rightarrow> nat option" where
  "brace_loop [] i depth = None"
| "brace_loop (c # s) i depth =
     (if c = CHR ''{'' then brace_loop s (Suc i) (depth + 1)
      else if c = CHR ''}''
      then (if depth - 1 = 0 then Some i else brace_loop s (Suc i) (depth - 1))
      else brace_loop s (Suc i) depth)"

definition matchBrace :: "string \<Rightarrow> nat option" where
  "matchBrace s = brace_loop s 0 0"

datatype route_error =
    Err_NoRoute string | Err_Params nat | Err_NotString nat | Err_Unbalanced | Err_MissingValue string

text \<open>\<^verbatim>\<open>fillPattern\<close>: the rest of the pattern, what was written so far and the values that are
  left.\<close>

function fill_loop :: "string \<Rightarrow> string \<Rightarrow> (string, string) fmap \<Rightarrow> (route_error, string \<times> (string, string) fmap) result" where
  "fill_loop [] b values = Inr (b, values)"
| "fill_loop (c # s) b values =
     (if c \<noteq> CHR ''{'' then fill_loop s (b @ [c]) values
      else case matchBrace (c # s) of
        None \<Rightarrow> Inl Err_Unbalanced
      | Some final \<Rightarrow>
          let key = fst (cut (CHR '':'') (take (final - 1) s)) in
          (case fmlookup values key of
             None \<Rightarrow> Inl (Err_MissingValue key)
           | Some v \<Rightarrow> fill_loop (drop final s) (b @ v) (fmdrop key values)))"
  by pat_completeness auto

termination
  by (relation "measure (\<lambda>(s, _). length s)") auto

definition fillPattern :: "string \<Rightarrow> (string, string) fmap \<Rightarrow> (route_error, string \<times> (string, string) fmap) result" where
  "fillPattern pattern values = fill_loop pattern [] values"

text \<open>Arguments of type \<^verbatim>\<open>any\<close>, and what \<^verbatim>\<open>fmt.Sprint\<close> makes of them; a value of another
  type is given by its text.\<close>

datatype any = Any_String string | Any_Int int | Any_Bool bool | Any_Text string

fun sprint :: "any \<Rightarrow> string" where
  "sprint (Any_String s) = s"
| "sprint (Any_Int i) = format_int i"
| "sprint (Any_Bool b) = format_bool b"
| "sprint (Any_Text s) = s"

fun read_params :: "nat \<Rightarrow> any list \<Rightarrow> (string, string) fmap \<Rightarrow> (route_error, (string, string) fmap) result" where
  "read_params i (k # v # ps) values =
     (case k of
        Any_String key \<Rightarrow> read_params (i + 2) ps (fmupd key (sprint v) values)
      | _ \<Rightarrow> Inl (Err_NotString i))"
| "read_params i _ values = Inr values"

text \<open>\<^verbatim>\<open>url.QueryEscape\<close> and \<^verbatim>\<open>Values.Encode\<close> of a map with one value per key.\<close>

definition upper_hex :: "nat \<Rightarrow> char" where
  "upper_hex n = ''0123456789ABCDEF'' ! n"

definition query_unreserved :: "char \<Rightarrow> bool" where
  "query_unreserved c = (is_lower c \<or> is_upper c \<or> is_digit c \<or> c \<in> {CHR ''-'', CHR ''_'', CHR ''.'', CHR ''~''})"

definition escape_char :: "char \<Rightarrow> string" where
  "escape_char c =
     (if query_unreserved c then [c]
      else if c = CHR '' '' then ''+''
      else [CHR ''%'', upper_hex (of_char c div 16), upper_hex (of_char c mod 16)])"

definition query_escape :: "string \<Rightarrow> string" where
  "query_escape s = concat (map escape_char s)"

definition values_encode :: "(string, string) fmap \<Rightarrow> string" where
  "values_encode q = join ''&'' (map (\<lambda>(k, v). query_escape k @ ''='' @ query_escape v) (sorted_list_of_fmap q))"

definition registry_build :: "route_registry \<Rightarrow> string \<Rightarrow> any list \<Rightarrow> (route_error, string) result" where
  "registry_build reg name params =
     (case fmlookup reg name of
        None \<Rightarrow> Inl (Err_NoRoute name)
      | Some rt \<Rightarrow>
          if length params mod 2 \<noteq> 0 then Inl (Err_Params (length params))
          else (case read_params 0 params fmempty of
                  Inl e \<Rightarrow> Inl e
                | Inr values \<Rightarrow>
                    (case fillPattern (nr_Pattern rt) values of
                       Inl e \<Rightarrow> Inl e
                     | Inr (path, rest) \<Rightarrow>
                         Inr (if rest = fmempty then path else path @ ''?'' @ values_encode rest))))"

section \<open>Declaring routes\<close>

text \<open>The calls of chi's mux.\<close>

datatype ('h, 'm) chi_call =
    Chi_Use 'm
  | Chi_Group "('h, 'm) chi_call list"
  | Chi_Route string "('h, 'm) chi_call list"
  | Chi_Mount string 'h
  | Chi_Method string string 'h
  | Chi_Handle string 'h
  | Chi_NotFound 'h
  | Chi_MethodNotAllowed 'h

text \<open>The calls an application makes on a router; a name is the call of \<^verbatim>\<open>Name\<close> that follows.\<close>

datatype ('h, 'm) decl =
    D_Use "'m list"
  | D_Group "('h, 'm) decl list"
  | D_Route string "('h, 'm) decl list"
  | D_Mount string 'h
  | D_Method string string 'h "string option"
  | D_Static string 'h
  | D_NotFound 'h
  | D_MethodNotAllowed 'h

text \<open>A router: its prefix, its middleware, and the operations it recorded.\<close>

record ('h, 'm) Router =
  ro_prefix :: string
  ro_middleware :: "'m list"
  ro_ops :: "('h, 'm) chi_call list"

definition router_New :: "('h, 'm) Router" where
  "router_New = \<lparr>ro_prefix = [], ro_middleware = [], ro_ops = []\<rparr>"

definition router_record :: "('h, 'm) chi_call \<Rightarrow> ('h, 'm) Router \<Rightarrow> ('h, 'm) Router" where
  "router_record op r = r\<lparr>ro_ops := ro_ops r @ [op]\<rparr>"

definition router_Use :: "'m list \<Rightarrow> ('h, 'm) Router \<Rightarrow> ('h, 'm) Router" where
  "router_Use mw r = r\<lparr>ro_middleware := ro_middleware r @ mw\<rparr>"

definition applyTo :: "('h, 'm) Router \<Rightarrow> ('h, 'm) chi_call list" where
  "applyTo r = map Chi_Use (ro_middleware r) @ ro_ops r"

definition router_Method ::
  "string \<Rightarrow> string \<Rightarrow> 'h \<Rightarrow> string option \<Rightarrow> ('h, 'm) Router \<times> route_registry
     \<Rightarrow> (route_panic, ('h, 'm) Router \<times> route_registry) result" where
  "router_Method method pattern h name rr =
     (case rr of (r, reg) \<Rightarrow>
        let r' = router_record (Chi_Method method pattern h) r in
        (case name of
           None \<Rightarrow> Inr (r', reg)
         | Some n \<Rightarrow>
             (case registry_add n method (joinPath (ro_prefix r) pattern) reg of
                Inl p \<Rightarrow> Inl p
              | Inr reg' \<Rightarrow> Inr (r', reg'))))"

definition router_Static :: "string \<Rightarrow> 'h \<Rightarrow> ('h, 'm) Router \<Rightarrow> ('h, 'm) Router" where
  "router_Static prefix h r =
     (let p = (if \<not> has_suffix prefix ''/'' then prefix @ ''/'' else prefix)
      in router_record (Chi_Handle (p @ ''*'') h) r)"

text \<open>One declaration, and a list of them, on a router and the shared registry.  A sub-router
  is recorded as what \<^const>\<open>applyTo\<close> will replay of it when the mux is built.\<close>

fun declare1 :: "('h, 'm) decl \<Rightarrow> ('h, 'm) Router \<times> route_registry \<Rightarrow> (route_panic, ('h, 'm) Router \<times> route_registry) result"
and declares :: "('h, 'm) decl list \<Rightarrow> ('h, 'm) Router \<times> route_registry \<Rightarrow> (route_panic, ('h, 'm) Router \<times> route_registry) result" where
  "declare1 (D_Use mw) (r, reg) = Inr (router_Use mw r, reg)"
| "declare1 (D_Group ds) (r, reg) =
     (case declares ds (\<lparr>ro_prefix = ro_prefix r, ro_middleware = [], ro_ops = []\<rparr>, reg) of
        Inl p \<Rightarrow> Inl p
      | Inr (sub, reg') \<Rightarrow> Inr (router_record (Chi_Group (applyTo sub)) r, reg'))"
| "declare1 (D_Route prefix ds) (r, reg) =
     (case declares ds (\<lparr>ro_prefix = joinPath (ro_prefix r) prefix, ro_middleware = [], ro_ops = []\<rparr>, reg) of
        Inl p \<Rightarrow> Inl p
      | Inr (sub, reg') \<Rightarrow> Inr (router_record (Chi_Route prefix (applyTo sub)) r, reg'))"
| "declare1 (D_Mount prefix h) (r, reg) = Inr (router_record (Chi_Mount prefix h) r, reg)"
| "declare1 (D_Method method pattern h name) (r, reg) = router_Method method pattern h name (r, reg)"
| "declare1 (D_Static prefix h) (r, reg) = Inr (router_Static prefix h r, reg)"
| "declare1 (D_NotFound h) (r, reg) = Inr (router_record (Chi_NotFound h) r, reg)"
| "declare1 (D_MethodNotAllowed h) (r, reg) = Inr (router_record (Chi_MethodNotAllowed h) r, reg)"
| "declares [] rr = Inr rr"
| "declares (d # ds) rr = (case declare1 d rr of Inl p \<Rightarrow> Inl p | Inr rr' \<Rightarrow> declares ds rr')"

text \<open>The mux that the first request builds.\<close>

definition build_mux :: "('h, 'm) decl list \<Rightarrow> (route_panic, ('h, 'm) chi_call list \<times> route_registry) result" where
  "build_mux ds =
     (case declares ds (router_New, fmempty) of
        Inl p \<Rightarrow> Inl p
      | Inr (r, reg) \<Rightarrow> Inr (applyTo r, reg))"

text \<open>The verbs of the DSL, each a declaration of its HTTP method.\<close>

definition router_Get :: "string \<Rightarrow> 'h \<Rightarrow> string option \<Rightarrow> ('h, 'm) decl" where
  "router_Get = D_Method ''GET''"
definition router_Post :: "string \<Rightarrow> 'h \<Rightarrow> string option \<Rightarrow> ('h, 'm) decl" where
  "router_Post = D_Method ''POST''"
definition router_Put :: "string \<Rightarrow> 'h \<Rightarrow> string option \<Rightarrow> ('h, 'm) decl" where
  "router_Put = D_Method ''PUT''"
definition router_Patch :: "string \<Rightarrow> 'h \<Rightarrow> string option \<Rightarrow> ('h, 'm) decl" where
  "router_Patch = D_Method ''PATCH''"
definition router_Delete :: "string \<Rightarrow> 'h \<Rightarrow> string option \<Rightarrow> ('h, 'm) decl" where
  "router_Delete = D_Method ''DELETE''"
definition router_Options :: "string \<Rightarrow> 'h \<Rightarrow> string option \<Rightarrow> ('h, 'm) decl" where
  "router_Options = D_Method ''OPTIONS''"
definition router_Head :: "string \<Rightarrow> 'h \<Rightarrow> string option \<Rightarrow> ('h, 'm) decl" where
  "router_Head = D_Method ''HEAD''"

definition router_URL :: "route_registry \<Rightarrow> string \<Rightarrow> any list \<Rightarrow> (route_error, string) result" where
  "router_URL names name params = registry_build names name params"

text \<open>\<^verbatim>\<open>MustURL\<close> panics with the error.\<close>

definition router_MustURL :: "route_registry \<Rightarrow> string \<Rightarrow> any list \<Rightarrow> (route_error, string) result" where
  "router_MustURL names name params =
     (case router_URL names name params of Inl e \<Rightarrow> Inl e | Inr u \<Rightarrow> Inr u)"

definition router_Routes :: "route_registry \<Rightarrow> NamedRoute list" where
  "router_Routes names = registry_all names"

end
