(* ===== verification/RouterProps.thy ===== *)
theory RouterProps
  imports Router
begin

text \<open>
  What the router promises: middleware may be declared after the routes it applies to, in every
  group, and the URL of a named route has the given values in the holes of its pattern and the
  remaining ones in its query string, from which they can be read back.
\<close>

section \<open>Middleware before routes\<close>

fun is_use :: "('h, 'm) decl \<Rightarrow> bool" where
  "is_use (D_Use mw) = True"
| "is_use _ = False"

fun used_middleware :: "('h, 'm) decl list \<Rightarrow> 'm list" where
  "used_middleware [] = []"
| "used_middleware (D_Use mw # ds) = mw @ used_middleware ds"
| "used_middleware (_ # ds) = used_middleware ds"

abbreviation with_mw :: "'m list \<Rightarrow> ('h, 'm) Router \<times> route_registry \<Rightarrow> ('h, 'm) Router \<times> route_registry" where
  "with_mw m rr \<equiv> (fst rr\<lparr>ro_middleware := m\<rparr>, snd rr)"

lemma declare1_with_mw:
  "\<not> is_use d \<Longrightarrow> declare1 d (r\<lparr>ro_middleware := m\<rparr>, reg) = map_sum id (with_mw m) (declare1 d (r, reg))"
  by (cases d)
     (auto simp: router_Method_def router_record_def router_Static_def Let_def
       split: sum.splits option.splits)

lemma declare1_keeps_mw:
  "\<not> is_use d \<Longrightarrow> declare1 d (r, reg) = Inr (r', reg') \<Longrightarrow> ro_middleware r' = ro_middleware r"
  by (cases d)
     (auto simp: router_Method_def router_record_def router_Static_def Let_def
       split: sum.splits option.splits)

lemma declares_with_mw:
  assumes "\<And>d. d \<in> set ds \<Longrightarrow> \<not> is_use d"
  shows "declares ds (r\<lparr>ro_middleware := m\<rparr>, reg) = map_sum id (with_mw m) (declares ds (r, reg))"
  using assms
proof (induction ds arbitrary: r reg)
  case (Cons d ds)
  then have "\<not> is_use d" by simp
  note one = declare1_with_mw [OF this, where r = r and m = m and reg = reg]
  show ?case
  proof (cases "declare1 d (r, reg)")
    case (Inr rr)
    then show ?thesis using one Cons by (cases rr) simp
  qed (use one in simp)
qed simp

text \<open>The declarations of one level split into middleware and the rest.\<close>

lemma declares_split:
  "declares ds (r, reg) =
     map_sum id (with_mw (ro_middleware r @ used_middleware ds)) (declares (filter (\<lambda>d. \<not> is_use d) ds) (r, reg))"
proof (induction ds arbitrary: r reg)
  case Nil
  then show ?case by simp
next
  case (Cons d ds)
  show ?case
  proof (cases "is_use d")
    case True
    then obtain mw where d: "d = D_Use mw" by (cases d) auto
    have "declares (filter (\<lambda>d. \<not> is_use d) ds) (r\<lparr>ro_middleware := ro_middleware r @ mw\<rparr>, reg)
        = map_sum id (with_mw (ro_middleware r @ mw)) (declares (filter (\<lambda>d. \<not> is_use d) ds) (r, reg))"
      by (rule declares_with_mw) simp
    then show ?thesis
      using Cons.IH [of "r\<lparr>ro_middleware := ro_middleware r @ mw\<rparr>" reg]
      by (simp add: d router_Use_def sum.map_comp comp_def)
  next
    case False
    then have um: "used_middleware (d # ds) = used_middleware ds" by (cases d) simp_all
    show ?thesis
    proof (cases "declare1 d (r, reg)")
      case (Inl p)
      then show ?thesis using False by simp
    next
      case (Inr rr)
      obtain r' reg' where rr: "rr = (r', reg')" by fastforce
      have "ro_middleware r' = ro_middleware r" using declare1_keeps_mw [OF False] Inr rr by blast
      then show ?thesis using Inr rr False um Cons.IH [of r' reg'] by simp
    qed
  qed
qed

text \<open>Every middleware of a level moved to its front, in every group.\<close>

fun hoist1 :: "('h, 'm) decl \<Rightarrow> ('h, 'm) decl"
and hoist :: "('h, 'm) decl list \<Rightarrow> ('h, 'm) decl list" where
  "hoist1 (D_Group ds) = D_Group (D_Use (used_middleware ds) # hoist ds)"
| "hoist1 (D_Route prefix ds) = D_Route prefix (D_Use (used_middleware ds) # hoist ds)"
| "hoist1 d = d"
| "hoist [] = []"
| "hoist (d # ds) = (if is_use d then hoist ds else hoist1 d # hoist ds)"

definition middleware_first :: "('h, 'm) decl list \<Rightarrow> ('h, 'm) decl list" where
  "middleware_first ds = D_Use (used_middleware ds) # hoist ds"

lemma hoist_no_use: "d \<in> set (hoist ds) \<Longrightarrow> \<not> is_use d"
proof (induction ds)
  case (Cons x xs)
  then show ?case by (cases x) (auto split: if_splits)
qed simp

lemma level_first:
  assumes "\<And>r reg. declares (hoist ds) (r, reg) = declares (filter (\<lambda>d. \<not> is_use d) ds) (r, reg)"
  shows "declares (D_Use (used_middleware ds) # hoist ds) (r, reg) = declares ds (r, reg)"
proof -
  have "declares (hoist ds) (r\<lparr>ro_middleware := ro_middleware r @ used_middleware ds\<rparr>, reg)
      = map_sum id (with_mw (ro_middleware r @ used_middleware ds)) (declares (hoist ds) (r, reg))"
    by (rule declares_with_mw) (rule hoist_no_use)
  then show ?thesis unfolding declares_split [of ds r reg] assms by (simp add: router_Use_def assms)
qed

lemma declares_hoist:
  fixes d :: "('h, 'm) decl" and ds :: "('h, 'm) decl list"
  shows "\<not> is_use d \<Longrightarrow> declare1 (hoist1 d) (r, reg) = declare1 d (r, reg)"
    and "declares (hoist ds) (r, reg) = declares (filter (\<lambda>d. \<not> is_use d) ds) (r, reg)"
proof (induction d and ds arbitrary: r reg and r reg rule: hoist1_hoist.induct)
  case (1 ds)
  then show ?case using level_first [of ds] by simp
next
  case (2 prefix ds)
  then show ?case using level_first [of ds] by simp
qed (auto split: sum.splits)

text \<open>What chi demands: on no level middleware after a route.\<close>

fun is_chi_use :: "('h, 'm) chi_call \<Rightarrow> bool" where
  "is_chi_use (Chi_Use m) = True"
| "is_chi_use _ = False"

fun chi_accepts1 :: "('h, 'm) chi_call \<Rightarrow> bool"
and chi_accepts :: "bool \<Rightarrow> ('h, 'm) chi_call list \<Rightarrow> bool" where
  "chi_accepts1 (Chi_Group cs) = chi_accepts False cs"
| "chi_accepts1 (Chi_Route p cs) = chi_accepts False cs"
| "chi_accepts1 c = True"
| "chi_accepts routed [] = True"
| "chi_accepts routed (c # cs) =
     (if is_chi_use c then \<not> routed \<and> chi_accepts routed cs
      else chi_accepts1 c \<and> chi_accepts True cs)"

lemma chi_accepts_append_ops:
  "(\<And>c. c \<in> set ops \<Longrightarrow> \<not> is_chi_use c \<and> chi_accepts1 c) \<Longrightarrow> chi_accepts routed ops"
  by (induction ops arbitrary: routed) auto

definition ops_ok :: "('h, 'm) Router \<Rightarrow> bool" where
  "ops_ok r = (\<forall>c \<in> set (ro_ops r). \<not> is_chi_use c \<and> chi_accepts1 c)"

lemma chi_accepts_applyTo: "ops_ok r \<Longrightarrow> chi_accepts False (applyTo r)"
proof -
  assume "ops_ok r"
  then have ops: "chi_accepts False (ro_ops r)" by (intro chi_accepts_append_ops) (auto simp: ops_ok_def)
  have "chi_accepts False (map Chi_Use ms @ ro_ops r)" for ms
    using ops by (induction ms) auto
  then show ?thesis by (simp add: applyTo_def)
qed

lemma declares_ops_ok:
  fixes d :: "('h, 'm) decl" and ds :: "('h, 'm) decl list"
  shows "ops_ok (fst rr) \<Longrightarrow> declare1 d rr = Inr rr' \<Longrightarrow> ops_ok (fst rr')"
    and "ops_ok (fst rr) \<Longrightarrow> declares ds rr = Inr rr' \<Longrightarrow> ops_ok (fst rr')"
proof (induction d rr and ds rr arbitrary: rr' and rr' rule: declare1_declares.induct)
  case (2 ds r reg)
  then obtain sub reg' where sub: "declares ds (\<lparr>ro_prefix = ro_prefix r, ro_middleware = [], ro_ops = []\<rparr>, reg) = Inr (sub, reg')"
      "rr' = (router_record (Chi_Group (applyTo sub)) r, reg')"
    by (auto split: sum.splits)
  with 2 have "ops_ok sub" by (fastforce simp: ops_ok_def)
  then show ?case using 2 sub chi_accepts_applyTo [of sub] by (auto simp: ops_ok_def router_record_def)
next
  case (3 prefix ds r reg)
  then obtain sub reg' where sub: "declares ds (\<lparr>ro_prefix = joinPath (ro_prefix r) prefix, ro_middleware = [], ro_ops = []\<rparr>, reg) = Inr (sub, reg')"
      "rr' = (router_record (Chi_Route prefix (applyTo sub)) r, reg')"
    by (auto split: sum.splits)
  with 3 have "ops_ok sub" by (fastforce simp: ops_ok_def)
  then show ?case using 3 sub chi_accepts_applyTo [of sub] by (auto simp: ops_ok_def router_record_def)
next
  case (10 d ds rr)
  then show ?case by (auto split: sum.splits)
qed (auto simp: ops_ok_def router_record_def router_Use_def router_Method_def router_Static_def Let_def
    split: sum.splits option.splits)

text \<open>C23. The order of declaration does not matter for middleware.  The mux that the first request
  builds is the one that results when every call of Use, in every group and sub-router, is moved
  before the routes of its level; and chi, which refuses middleware after a route, accepts
  it.  The named routes are the same as well.\<close>

theorem router_use_anywhere:
  "build_mux (middleware_first ds) = build_mux ds
   \<and> (case build_mux ds of Inl p \<Rightarrow> True | Inr (calls, reg) \<Rightarrow> chi_accepts False calls)"
proof
  show "build_mux (middleware_first ds) = build_mux ds"
    unfolding build_mux_def middleware_first_def
    using level_first [of ds, OF declares_hoist(2)] by (simp only:)
  show "case build_mux ds of Inl p \<Rightarrow> True | Inr (calls, reg) \<Rightarrow> chi_accepts False calls"
  proof (cases "declares ds (router_New, fmempty)")
    case (Inr rr)
    then have "ops_ok (fst rr)"
      by (intro declares_ops_ok(2) [of "(router_New, fmempty)" ds rr]) (auto simp: ops_ok_def router_New_def)
    then show ?thesis using Inr chi_accepts_applyTo [of "fst rr"]
      by (auto simp: build_mux_def split: prod.splits)
  qed (simp add: build_mux_def)
qed

section \<open>Patterns\<close>

text \<open>A pattern as its author sees it: text without braces, and holes with a name and an optional
  regular expression, whose braces are balanced.\<close>

datatype seg = Text string | Hole string "string option"

fun balanced :: "string \<Rightarrow> nat \<Rightarrow> bool" where
  "balanced [] d = (d = 0)"
| "balanced (c # s) d =
     (if c = CHR ''{'' then balanced s (Suc d)
      else if c = CHR ''}'' then d > 0 \<and> balanced s (d - 1)
      else balanced s d)"

fun hole_body :: "string \<Rightarrow> string option \<Rightarrow> string" where
  "hole_body key None = key"
| "hole_body key (Some re) = key @ '':'' @ re"

fun seg_ok :: "seg \<Rightarrow> bool" where
  "seg_ok (Text s) = (CHR ''{'' \<notin> set s)"
| "seg_ok (Hole key re) =
     (CHR '':'' \<notin> set key \<and> CHR ''{'' \<notin> set key \<and> CHR ''}'' \<notin> set key
      \<and> (case re of None \<Rightarrow> True | Some r \<Rightarrow> balanced r 0))"

fun render :: "seg list \<Rightarrow> string" where
  "render [] = []"
| "render (Text s # segs) = s @ render segs"
| "render (Hole key re # segs) = ''{'' @ hole_body key re @ ''}'' @ render segs"

fun holes :: "seg list \<Rightarrow> string list" where
  "holes [] = []"
| "holes (Text s # segs) = holes segs"
| "holes (Hole key re # segs) = key # holes segs"

fun substitute :: "(string, string) fmap \<Rightarrow> seg list \<Rightarrow> string" where
  "substitute vals [] = []"
| "substitute vals (Text s # segs) = s @ substitute vals segs"
| "substitute vals (Hole key re # segs) = the (fmlookup vals key) @ substitute vals segs"

lemma brace_loop_balanced:
  "balanced w d \<Longrightarrow> brace_loop (w @ CHR ''}'' # rest) i (int d + 1) = Some (i + length w)"
proof (induction w d arbitrary: i rule: balanced.induct)
  case (2 c s d)
  consider (lbrace) "c = CHR ''{''" | (rbrace) "c = CHR ''}''" | (other) "c \<noteq> CHR ''{''" "c \<noteq> CHR ''}''" by blast
  then show ?case
  proof cases
    case lbrace
    with 2(1) [of "Suc i"] 2(4) show ?thesis by (simp add: algebra_simps)
  next
    case rbrace
    with 2(4) have "d > 0" "balanced s (d - 1)" by simp_all
    with 2(2) [of "Suc i"] rbrace show ?thesis by (simp add: of_nat_diff)
  next
    case other
    with 2(3) [of "Suc i"] 2(4) show ?thesis by simp
  qed
qed simp

lemma balanced_no_braces: "CHR ''{'' \<notin> set s \<Longrightarrow> CHR ''}'' \<notin> set s \<Longrightarrow> balanced (s @ t) d = balanced t d"
  by (induction s) auto

lemma hole_body_balanced: "seg_ok (Hole key re) \<Longrightarrow> balanced (hole_body key re) 0"
proof (cases re)
  case None
  assume "seg_ok (Hole key re)"
  with None show ?thesis using balanced_no_braces [of key "[]" 0] by simp
next
  case (Some r)
  assume "seg_ok (Hole key re)"
  with Some show ?thesis using balanced_no_braces [of key "'':'' @ r" 0] by simp
qed

lemma hole_body_key: "seg_ok (Hole key re) \<Longrightarrow> fst (cut (CHR '':'') (hole_body key re)) = key"
  by (cases re) (simp_all add: cut_not_found)

lemma fill_loop_text: "CHR ''{'' \<notin> set s \<Longrightarrow> fill_loop (s @ t) b vals = fill_loop t (b @ s) vals"
  by (induction s arbitrary: b) auto

lemma fill_loop_hole:
  assumes "seg_ok (Hole key re)"
  shows "fill_loop (''{'' @ hole_body key re @ ''}'' @ t) b vals =
    (case fmlookup vals key of
       None \<Rightarrow> Inl (Err_MissingValue key)
     | Some v \<Rightarrow> fill_loop t (b @ v) (fmdrop key vals))"
proof -
  have "matchBrace (CHR ''{'' # hole_body key re @ CHR ''}'' # t) = Some (Suc (length (hole_body key re)))"
    using brace_loop_balanced [OF hole_body_balanced [OF assms], of t 1] by (simp add: matchBrace_def)
  then show ?thesis using hole_body_key [OF assms] by (simp add: Let_def split: option.split)
qed

text \<open>Filling a pattern puts the values into its holes and leaves the others over.\<close>

lemma fill_loop_render:
  assumes "list_all seg_ok segs" and "distinct (holes segs)" and "set (holes segs) \<subseteq> fset (fmdom vals)"
  shows "fill_loop (render segs) b vals =
    Inr (b @ substitute vals segs, fmfilter (\<lambda>k. k \<notin> set (holes segs)) vals)"
  using assms
proof (induction segs arbitrary: b vals rule: render.induct)
  case 1
  have "fmfilter (\<lambda>k. True) vals = vals" by (rule fmap_ext) simp
  then show ?case by simp
next
  case (2 s segs)
  then show ?case by (simp add: fill_loop_text)
next
  case (3 key re segs)
  obtain v where v: "fmlookup vals key = Some v" using 3(4) by (auto simp: fmlookup_dom_iff)
  have sub: "substitute (fmdrop key vals) segs = substitute vals segs"
    using 3(3) by (induction segs rule: render.induct) auto
  have "fmfilter (\<lambda>k. k \<notin> set (holes segs)) (fmdrop key vals) = fmfilter (\<lambda>k. k \<notin> set (holes (Hole key re # segs))) vals"
    by (rule fmap_ext) auto
  moreover have "fill_loop (render segs) (b @ v) (fmdrop key vals) =
      Inr ((b @ v) @ substitute (fmdrop key vals) segs, fmfilter (\<lambda>k. k \<notin> set (holes segs)) (fmdrop key vals))"
    by (rule 3(1)) (use 3(2,3,4) in auto)
  ultimately show ?case
    using fill_loop_hole [of key re "render segs" b vals] 3(2) v sub by simp
qed

lemma fill_loop_missing:
  assumes "list_all seg_ok segs" and "\<not> set (holes segs) \<subseteq> fset (fmdom vals)"
  shows "\<exists>key. fill_loop (render segs) b vals = Inl (Err_MissingValue key)"
  using assms
proof (induction segs arbitrary: b vals rule: render.induct)
  case (2 s segs)
  then show ?case by (simp add: fill_loop_text)
next
  case (3 key re segs)
  show ?case
  proof (cases "fmlookup vals key")
    case None
    then show ?thesis using fill_loop_hole [of key re "render segs" b vals] 3(2) by simp
  next
    case (Some v)
    then have "\<not> set (holes segs) \<subseteq> fset (fmdom (fmdrop key vals))"
      using 3(3) by (auto simp: fmlookup_dom_iff)
    with 3 Some show ?thesis using fill_loop_hole [of key re "render segs" b vals] by simp
  qed
qed simp

section \<open>Query strings\<close>

text \<open>\<^verbatim>\<open>url.QueryUnescape\<close> and \<^verbatim>\<open>url.ParseQuery\<close>, the first value of each key.\<close>

definition hex_val :: "char \<Rightarrow> nat option" where
  "hex_val c =
     (if is_digit c then Some (of_char c - 48)
      else if char_between CHR ''A'' CHR ''F'' c then Some (of_char c - 55)
      else if char_between CHR ''a'' CHR ''f'' c then Some (of_char c - 87)
      else None)"

fun query_unescape :: "string \<Rightarrow> string option" where
  "query_unescape [] = Some []"
| "query_unescape (c # s) =
     (if c = CHR ''+'' then map_option ((#) (CHR '' '')) (query_unescape s)
      else if c = CHR ''%''
      then (case s of
              h # l # s' \<Rightarrow>
                (case (hex_val h, hex_val l) of
                   (Some x, Some y) \<Rightarrow> map_option ((#) (char_of (16 * x + y))) (query_unescape s')
                 | _ \<Rightarrow> None)
            | _ \<Rightarrow> None)
      else map_option ((#) c) (query_unescape s))"

definition parse_pair :: "string \<Rightarrow> (string \<times> string) option" where
  "parse_pair p =
     (case cut (CHR ''='') p of (k, v, _) \<Rightarrow>
        (case (query_unescape k, query_unescape v) of (Some k', Some v') \<Rightarrow> Some (k', v') | _ \<Rightarrow> None))"

definition parse_query :: "string \<Rightarrow> (string, string) fmap option" where
  "parse_query q = map_option fmap_of_list (those (map parse_pair (split_on (CHR ''&'') q)))"

lemma hex_val_upper_hex: "n < 16 \<Longrightarrow> hex_val (upper_hex n) = Some n"
proof -
  have "list_all (\<lambda>n. hex_val (upper_hex n) = Some n) [0..<16]" by code_simp
  then show "n < 16 \<Longrightarrow> ?thesis" by (simp add: list_all_iff)
qed

lemma upper_hex_plain: "n < 16 \<Longrightarrow> upper_hex n \<notin> {CHR ''&'', CHR ''='', CHR ''+'', CHR ''%''}"
proof -
  have "list_all (\<lambda>n. upper_hex n \<notin> {CHR ''&'', CHR ''='', CHR ''+'', CHR ''%''}) [0..<16]" by code_simp
  then show "n < 16 \<Longrightarrow> ?thesis" by (simp add: list_all_iff)
qed

lemma unreserved_plain: "query_unreserved c \<Longrightarrow> c \<notin> {CHR ''&'', CHR ''='', CHR ''+'', CHR ''%''}"
  by (auto simp: query_unreserved_def is_lower_def is_upper_def is_digit_def char_between_def)

lemma byte_div_16: "of_char (c :: char) div 16 < (16 :: nat)"
  using nat_of_char_less_256 [of c] by (simp add: less_mult_imp_div_less del: nat_of_char_less_256)

lemma escape_char_plain: "x \<in> set (escape_char c) \<Longrightarrow> x \<noteq> CHR ''&'' \<and> x \<noteq> CHR ''=''"
  using unreserved_plain [of c] upper_hex_plain [of "of_char c div 16"] upper_hex_plain [of "of_char c mod 16"] byte_div_16 [of c]
  by (auto simp: escape_char_def split: if_splits)

lemma query_escape_plain: "x \<in> set (query_escape s) \<Longrightarrow> x \<noteq> CHR ''&'' \<and> x \<noteq> CHR ''=''"
  using escape_char_plain by (auto simp: query_escape_def)

lemma query_unescape_escape_char: "query_unescape (escape_char c @ s) = map_option ((#) c) (query_unescape s)"
proof -
  have "char_of (16 * (of_char c div 16) + of_char c mod 16 :: nat) = c" by simp
  then show ?thesis
    using unreserved_plain [of c] byte_div_16 [of c]
    by (auto simp: escape_char_def hex_val_upper_hex)
qed

lemma query_unescape_escape [simp]: "query_unescape (query_escape s) = Some s"
  by (induction s) (simp_all add: query_escape_def query_unescape_escape_char)

lemma parse_pair_encode: "parse_pair (query_escape k @ ''='' @ query_escape v) = Some (k, v)"
proof -
  have "CHR ''='' \<notin> set (query_escape k)" using query_escape_plain by blast
  then show ?thesis by (simp add: parse_pair_def)
qed

lemma those_map_Some: "(\<And>x. x \<in> set xs \<Longrightarrow> f x = Some (g x)) \<Longrightarrow> those (map f xs) = Some (map g xs)"
  by (induction xs) auto

lemma parse_query_encode:
  assumes "q \<noteq> fmempty"
  shows "parse_query (values_encode q) = Some q"
proof -
  let ?ps = "sorted_list_of_fmap q"
  let ?e = "\<lambda>(k, v). query_escape k @ ''='' @ query_escape v"
  have "?ps \<noteq> []"
    using assms map_of_sorted_list [of q] by (metis fmap_ext fmempty_lookup map_of.simps(1))
  moreover have "CHR ''&'' \<notin> set x" if "x \<in> set (map ?e ?ps)" for x
    using that query_escape_plain [of "CHR ''&''"] by auto
  ultimately have "split_on (CHR ''&'') (values_encode q) = map ?e ?ps"
    unfolding values_encode_def by (intro split_on_join) auto
  moreover have "those (map parse_pair (map ?e ?ps)) = Some ?ps"
    using those_map_Some [of ?ps "parse_pair \<circ> ?e" id] parse_pair_encode by (auto simp: comp_def case_prod_beta)
  moreover have "fmap_of_list ?ps = q" by (rule fmap_ext) (simp add: fmlookup_of_list)
  ultimately show ?thesis by (simp add: parse_query_def)
qed


definition user_route :: route_registry where
  "user_route = fmupd ''users.show'' \<lparr>nr_Name = ''users.show'', nr_Method = ''GET'',
     nr_Pattern = ''/users/{id:[0-9]{1,9}}''\<rparr> fmempty"


text \<open>Values in the path are not escaped.  A value with a question mark, as a user may have
  typed it, ends the path early: the URL of the route /search/{term}/edit built for such a value
  has a path that the route does not match, and no error is reported.\<close>

theorem router_url_path_unescaped:
  "\<exists>reg url q. registry_add ''edit'' ''GET'' ''/search/{term}/edit'' fmempty = Inr reg
     \<and> registry_build reg ''edit'' [Any_String ''term'', Any_String ''who?''] = Inr url
     \<and> cut (CHR ''?'') url = (''/search/who'', q, True)"
proof -
  let ?reg = "fmupd ''edit'' \<lparr>nr_Name = ''edit'', nr_Method = ''GET'', nr_Pattern = ''/search/{term}/edit''\<rparr> fmempty"
  let ?v = "fmupd ''term'' ''who?'' fmempty"
  let ?segs = "[Text ''/search/'', Hole ''term'' None, Text ''/edit'']"
  have fill: "fill_loop (render ?segs) [] ?v = Inr ([] @ substitute ?v ?segs, fmfilter (\<lambda>k. k \<notin> set (holes ?segs)) ?v)"
    by (rule fill_loop_render) simp_all
  have "fmfilter (\<lambda>k. k \<noteq> ''term'') ?v = fmempty" by (rule fmap_ext) auto
  with fill have "registry_build ?reg ''edit'' [Any_String ''term'', Any_String ''who?''] = Inr ''/search/who?/edit''"
    by (simp add: registry_build_def fillPattern_def)
  moreover have "registry_add ''edit'' ''GET'' ''/search/{term}/edit'' fmempty = Inr ?reg"
    by (simp add: registry_add_def)
  moreover have "cut (CHR ''?'') ''/search/who?/edit'' = (''/search/who'', ''/edit'', True)" by code_simp
  ultimately show ?thesis by blast
qed

end
