(* ===== verification/Mail.thy ===== *)
theory Mail
  imports Worker Base64
begin

text \<open>
  The package \<^verbatim>\<open>mail\<close>: messages and their rendering (\<^verbatim>\<open>message.go\<close>), the SMTP, log and
  memory mailers (\<^verbatim>\<open>mailer.go\<close>) and queued delivery (\<^verbatim>\<open>job.go\<close>).

  The encoders of the standard library that only produce text, the formatting of an address with
  a display name, the Q-encoding of a subject, quoted-printable and the date, are fields of an
  argument, of which no law is asked: the header of a message is safe whatever they return.  The
  random source is an argument, and the SMTP server is a record of its answers; what the mailer
  sends is the list of commands with a mark whether the connection was encrypted.
\<close>

section \<open>Messages\<close>

record Address =
  ad_Name :: string
  ad_Email :: string

record encoders =
  enc_address :: "string \<Rightarrow> string \<Rightarrow> string"
  enc_subject :: "string \<Rightarrow> string"
  enc_qp :: "string \<Rightarrow> string"
  enc_date :: "time \<Rightarrow> string"

definition address_String :: "encoders \<Rightarrow> Address \<Rightarrow> string" where
  "address_String enc a = (if ad_Name a = [] then ad_Email a else enc_address enc (ad_Name a) (ad_Email a))"

definition mail_To :: "string list \<Rightarrow> Address list" where
  "mail_To emails = map (\<lambda>e. \<lparr>ad_Name = [], ad_Email = e\<rparr>) emails"

text \<open>The headers of the application are in the order in which the map is walked.\<close>

record MailMessage =
  mm_From :: Address
  mm_To :: "Address list"
  mm_Cc :: "Address list"
  mm_Bcc :: "Address list"
  mm_ReplyTo :: "Address option"
  mm_Subject :: string
  mm_Text :: string
  mm_HTML :: string
  mm_Headers :: "(string \<times> string) list"

datatype mail_error =
    Mail_NoFrom | Mail_NoRecipients | Mail_NoBody | Mail_LineBreak string | Mail_NotAddress string
  | Mail_Boundary | Mail_NoMailer | Mail_Connect | Mail_Handshake | Mail_StartTLS | Mail_Auth
  | Mail_Sender | Mail_Recipient string | Mail_Data | Mail_Write | Mail_Finish | Mail_Quit
  | Mail_Queue queue_error

definition Recipients :: "MailMessage \<Rightarrow> string list" where
  "Recipients m = map ad_Email (mm_To m) @ map ad_Email (mm_Cc m) @ map ad_Email (mm_Bcc m)"

definition allAddresses :: "MailMessage \<Rightarrow> Address list" where
  "allAddresses m =
     mm_To m @ mm_Cc m @ mm_Bcc m @ (case mm_ReplyTo m of None \<Rightarrow> [] | Some a \<Rightarrow> [a])"

definition CR :: char where "CR = CHR 0x0D"
definition LF :: char where "LF = CHR 0x0A"

definition validAddress :: "Address \<Rightarrow> mail_error option" where
  "validAddress a =
     (if list_ex (\<lambda>c. c = CR \<or> c = LF) (ad_Email a) \<or> list_ex (\<lambda>c. c = CR \<or> c = LF) (ad_Name a)
      then Some (Mail_LineBreak (ad_Email a))
      else if CHR ''@'' \<notin> set (ad_Email a) then Some (Mail_NotAddress (ad_Email a))
      else None)"

fun first_invalid :: "Address list \<Rightarrow> mail_error option" where
  "first_invalid [] = None"
| "first_invalid (a # as) = (case validAddress a of Some e \<Rightarrow> Some e | None \<Rightarrow> first_invalid as)"

definition mail_Validate :: "MailMessage \<Rightarrow> mail_error option" where
  "mail_Validate m =
     (if ad_Email (mm_From m) = [] then Some Mail_NoFrom
      else if Recipients m = [] then Some Mail_NoRecipients
      else if mm_Text m = [] \<and> mm_HTML m = [] then Some Mail_NoBody
      else first_invalid (mm_From m # allAddresses m))"

section \<open>Rendering\<close>

definition crlf :: string where "crlf = [CR, LF]"

definition header :: "string \<Rightarrow> string \<Rightarrow> string" where
  "header key val = key @ '': '' @ filter (\<lambda>c. c \<noteq> CR \<and> c \<noteq> LF) val @ crlf"

text \<open>\<^verbatim>\<open>strings.ReplaceAll\<close> of CRLF by LF, and of LF by CRLF.\<close>

fun crlf_to_lf :: "string \<Rightarrow> string" where
  "crlf_to_lf [] = []"
| "crlf_to_lf [c] = [c]"
| "crlf_to_lf (c # d # s) = (if c = CR \<and> d = LF then LF # crlf_to_lf s else c # crlf_to_lf (d # s))"

definition lf_to_crlf :: "string \<Rightarrow> string" where
  "lf_to_crlf s = concat (map (\<lambda>c. if c = LF then crlf else [c]) s)"

definition normalizeNewlines :: "string \<Rightarrow> string" where
  "normalizeNewlines s = lf_to_crlf (crlf_to_lf s)"

definition writeQP :: "encoders \<Rightarrow> string \<Rightarrow> string" where
  "writeQP enc body = enc_qp enc (normalizeNewlines body)"

definition mail_part :: "encoders \<Rightarrow> string \<Rightarrow> string \<Rightarrow> string \<Rightarrow> string" where
  "mail_part enc boundary contentType body =
     ''--'' @ boundary @ crlf @ ''Content-Type: '' @ contentType @ crlf
     @ ''Content-Transfer-Encoding: quoted-printable'' @ crlf @ crlf @ writeQP enc body @ crlf"

definition joinAddresses :: "encoders \<Rightarrow> Address list \<Rightarrow> string" where
  "joinAddresses enc as = join '', '' (map (address_String enc) as)"

definition newBoundary :: "string option \<Rightarrow> (mail_error, string) result" where
  "newBoundary rnd =
     (case rnd of None \<Rightarrow> Inl Mail_Boundary | Some b \<Rightarrow> Inr (''ryla-'' @ encode URL_Alphabet b))"

text \<open>A failed read of the random source leaves the twelve zero bytes.\<close>

definition messageID :: "string option \<Rightarrow> string \<Rightarrow> string" where
  "messageID rnd from =
     (let b = (case rnd of None \<Rightarrow> replicate 12 (char_of (0 :: nat)) | Some b \<Rightarrow> b);
          domain = (case cut (CHR ''@'') from of
                      (_, host, found) \<Rightarrow> if found \<and> host \<noteq> [] then host else ''localhost'')
      in ''<'' @ encode URL_Alphabet b @ ''@'' @ domain @ ''>'')"

definition mail_Build ::
  "encoders \<Rightarrow> time \<Rightarrow> string option \<Rightarrow> string option \<Rightarrow> MailMessage \<Rightarrow> (mail_error, string) result" where
  "mail_Build enc now rnd_id rnd_boundary m =
     (case mail_Validate m of
        Some e \<Rightarrow> Inl e
      | None \<Rightarrow>
          let top = header ''Date'' (enc_date enc now)
                @ header ''From'' (address_String enc (mm_From m))
                @ header ''To'' (joinAddresses enc (mm_To m))
                @ (if mm_Cc m \<noteq> [] then header ''Cc'' (joinAddresses enc (mm_Cc m)) else [])
                @ (case mm_ReplyTo m of None \<Rightarrow> [] | Some a \<Rightarrow> header ''Reply-To'' (address_String enc a))
                @ header ''Subject'' (enc_subject enc (mm_Subject m))
                @ header ''Message-ID'' (messageID rnd_id (ad_Email (mm_From m)))
                @ header ''MIME-Version'' ''1.0''
                @ concat (map (\<lambda>(k, v). header k v) (mm_Headers m))
          in if mm_Text m \<noteq> [] \<and> mm_HTML m \<noteq> []
             then (case newBoundary rnd_boundary of
                     Inl e \<Rightarrow> Inl e
                   | Inr boundary \<Rightarrow>
                       Inr (top @ header ''Content-Type'' (''multipart/alternative; boundary=\"'' @ boundary @ ''\"'')
                            @ crlf
                            @ mail_part enc boundary ''text/plain; charset=UTF-8'' (mm_Text m)
                            @ mail_part enc boundary ''text/html; charset=UTF-8'' (mm_HTML m)
                            @ ''--'' @ boundary @ ''--'' @ crlf))
             else if mm_HTML m \<noteq> []
             then Inr (top @ header ''Content-Type'' ''text/html; charset=UTF-8''
                       @ header ''Content-Transfer-Encoding'' ''quoted-printable'' @ crlf @ writeQP enc (mm_HTML m))
             else Inr (top @ header ''Content-Type'' ''text/plain; charset=UTF-8''
                       @ header ''Content-Transfer-Encoding'' ''quoted-printable'' @ crlf @ writeQP enc (mm_Text m)))"

section \<open>Mailers\<close>

type_synonym Encryption = string

definition EncryptionStartTLS :: Encryption where "EncryptionStartTLS = ''starttls''"
definition EncryptionTLS :: Encryption where "EncryptionTLS = ''tls''"
definition EncryptionNone :: Encryption where "EncryptionNone = ''none''"

definition ParseEncryption :: "string \<Rightarrow> Encryption" where
  "ParseEncryption s =
     (let k = to_lower (trim_space s) in
      if k = ''tls'' \<or> k = ''ssl'' then EncryptionTLS
      else if k = ''none'' \<or> k = ''insecure'' \<or> k = []
      then (if s = [] then EncryptionStartTLS else EncryptionNone)
      else EncryptionStartTLS)"

record SMTPConfig =
  smtp_Host :: string
  smtp_Port :: int
  smtp_Username :: string
  smtp_Password :: string
  smtp_Encryption :: Encryption
  smtp_Timeout :: duration
  smtp_InsecureSkipVerify :: bool

definition NewSMTP :: "SMTPConfig \<Rightarrow> SMTPConfig" where
  "NewSMTP cfg0 =
     (let cfg = (if smtp_Timeout cfg0 \<le> 0 then cfg0\<lparr>smtp_Timeout := 30 * Second\<rparr> else cfg0)
      in if smtp_Encryption cfg = [] then cfg\<lparr>smtp_Encryption := EncryptionStartTLS\<rparr> else cfg)"

text \<open>The answers of the server and the network; \<open>sv_local\<close> says whether the server's name is
  one that \<^verbatim>\<open>PlainAuth\<close> takes for the local host.\<close>

record smtp_server =
  sv_dial :: bool
  sv_greets :: bool
  sv_offers_starttls :: bool
  sv_starttls :: bool
  sv_auth :: bool
  sv_local :: bool
  sv_mail :: bool
  sv_rcpt :: "string \<Rightarrow> bool"
  sv_data :: bool
  sv_write :: bool
  sv_finish :: bool
  sv_quit :: bool

datatype command =
    C_StartTLS | C_Auth string string | C_Mail string | C_Rcpt string | C_Data | C_Body string | C_Quit

text \<open>What was sent, in order, each with the mark that the connection was encrypted.\<close>

type_synonym transcript = "(bool \<times> command) list"

fun rcpt_loop :: "smtp_server \<Rightarrow> bool \<Rightarrow> string list \<Rightarrow> transcript \<Rightarrow> mail_error option \<times> transcript" where
  "rcpt_loop sv tls [] tr = (None, tr)"
| "rcpt_loop sv tls (to # tos) tr =
     (let tr' = tr @ [(tls, C_Rcpt to)]
      in if \<not> sv_rcpt sv to then (Some (Mail_Recipient to), tr') else rcpt_loop sv tls tos tr')"

definition smtp_deliver :: "smtp_server \<Rightarrow> bool \<Rightarrow> MailMessage \<Rightarrow> string \<Rightarrow> transcript \<Rightarrow> mail_error option \<times> transcript" where
  "smtp_deliver sv tls msg body tr =
     (let tr1 = tr @ [(tls, C_Mail (ad_Email (mm_From msg)))] in
      if \<not> sv_mail sv then (Some Mail_Sender, tr1)
      else case rcpt_loop sv tls (Recipients msg) tr1 of
        (Some e, tr2) \<Rightarrow> (Some e, tr2)
      | (None, tr2) \<Rightarrow>
          let tr3 = tr2 @ [(tls, C_Data)] in
          if \<not> sv_data sv then (Some Mail_Data, tr3)
          else if \<not> sv_write sv then (Some Mail_Write, tr3)
          else let tr4 = tr3 @ [(tls, C_Body body)] in
          if \<not> sv_finish sv then (Some Mail_Finish, tr4)
          else (if sv_quit sv then None else Some Mail_Quit, tr4 @ [(tls, C_Quit)]))"

definition smtp_Send ::
  "encoders \<Rightarrow> time \<Rightarrow> string option \<Rightarrow> string option \<Rightarrow> SMTPConfig \<Rightarrow> smtp_server \<Rightarrow> MailMessage
     \<Rightarrow> mail_error option \<times> transcript" where
  "smtp_Send enc now rnd_id rnd_boundary cfg sv msg =
     (case mail_Build enc now rnd_id rnd_boundary msg of
        Inl e \<Rightarrow> (Some e, [])
      | Inr body \<Rightarrow>
          if \<not> sv_dial sv then (Some Mail_Connect, [])
          else if \<not> sv_greets sv then (Some Mail_Handshake, [])
          else let upgrade = (smtp_Encryption cfg = EncryptionStartTLS \<and> sv_offers_starttls sv);
                   tls = (smtp_Encryption cfg = EncryptionTLS \<or> upgrade);
                   tr0 = (if upgrade then [(False, C_StartTLS)] else []) in
          if upgrade \<and> \<not> sv_starttls sv then (Some Mail_StartTLS, tr0)
          else if smtp_Username cfg \<noteq> []
          then (if \<not> tls \<and> \<not> sv_local sv then (Some Mail_Auth, tr0)
                else let tr1 = tr0 @ [(tls, C_Auth (smtp_Username cfg) (smtp_Password cfg))]
                     in if \<not> sv_auth sv then (Some Mail_Auth, tr1) else smtp_deliver sv tls msg body tr1)
          else smtp_deliver sv tls msg body tr0)"

definition log_Send ::
  "encoders \<Rightarrow> time \<Rightarrow> string option \<Rightarrow> string option \<Rightarrow> bool \<Rightarrow> MailMessage
     \<Rightarrow> (mail_error, (string \<times> string) list) result" where
  "log_Send enc now rnd_id rnd_boundary full msg =
     (case mail_Validate msg of
        Some e \<Rightarrow> Inl e
      | None \<Rightarrow>
          let attrs = [(''to'', join '', '' (Recipients msg)), (''from'', ad_Email (mm_From msg)),
                       (''subject'', mm_Subject msg)];
              attrs' = (if trim_space (mm_Text msg) \<noteq> [] then attrs @ [(''text'', trim_space (mm_Text msg))] else attrs)
          in if full
             then (case mail_Build enc now rnd_id rnd_boundary msg of
                     Inl e \<Rightarrow> Inl e | Inr raw \<Rightarrow> Inr (attrs' @ [(''raw'', raw)]))
             else Inr attrs')"

text \<open>The memory mailer is the list of what it was given.\<close>

definition memory_Send :: "MailMessage \<Rightarrow> MailMessage list \<Rightarrow> mail_error option \<times> MailMessage list" where
  "memory_Send msg sent = (case mail_Validate msg of Some e \<Rightarrow> (Some e, sent) | None \<Rightarrow> (None, sent @ [msg]))"

definition memory_Last :: "MailMessage list \<Rightarrow> MailMessage option" where
  "memory_Last sent = (if sent = [] then None else Some (last sent))"

section \<open>Queued delivery\<close>

definition JobName :: string where "JobName = ''ryla.send-mail''"

definition SendJob :: "MailMessage \<Rightarrow> MailMessage Job" where
  "SendJob msg = \<lparr>job_Name = JobName, job_Fields = msg, job_MaxAttempts = Some (\<lambda>_. 5),
     job_Backoff = Some (\<lambda>_ attempt. wrap64 (wrap64 (wrap64 (attempt * attempt) * 30) * Second)),
     job_Queue = Some (\<lambda>_. ''mail'')\<rparr>"

definition empty_message :: MailMessage where
  "empty_message = \<lparr>mm_From = \<lparr>ad_Name = [], ad_Email = []\<rparr>, mm_To = [], mm_Cc = [], mm_Bcc = [], mm_ReplyTo = None,
     mm_Subject = [], mm_Text = [], mm_HTML = [], mm_Headers = []\<rparr>"

text \<open>\<^verbatim>\<open>RegisterJob\<close>: the registry with the send job, whose factory returns an empty message.\<close>

definition RegisterJob :: "MailMessage job_registry \<Rightarrow> (string, MailMessage job_registry) result" where
  "RegisterJob registry = queue_Register (Some (SendJob empty_message)) registry"

text \<open>\<^verbatim>\<open>SendJob.Run\<close> with the registered mailer, if any.\<close>

definition SendJob_Run ::
  "(MailMessage \<Rightarrow> 's \<Rightarrow> mail_error option \<times> 's) option \<Rightarrow> MailMessage Job \<Rightarrow> 's \<Rightarrow> mail_error option \<times> 's" where
  "SendJob_Run sender j s =
     (case sender of None \<Rightarrow> (Some Mail_NoMailer, s) | Some send \<Rightarrow> send (job_Fields j) s)"

definition queued_Send ::
  "(MailMessage \<Rightarrow> string option) \<Rightarrow> 'd Driver \<Rightarrow> MailMessage job_registry \<Rightarrow> time \<Rightarrow> MailMessage \<Rightarrow> 'd
     \<Rightarrow> mail_error option \<times> 'd" where
  "queued_Send marshal D registry now msg d =
     (case mail_Validate msg of
        Some e \<Rightarrow> (Some e, d)
      | None \<Rightarrow>
          (case Dispatch marshal D registry now (Some (SendJob msg)) d of
             (Some e, d') \<Rightarrow> (Some (Mail_Queue e), d')
           | (None, d') \<Rightarrow> (None, d')))"

definition memory_Sent :: "MailMessage list \<Rightarrow> MailMessage list" where "memory_Sent sent = sent"

definition memory_Reset :: "MailMessage list \<Rightarrow> MailMessage list" where "memory_Reset sent = []"

record tls_config =
  tls_ServerName :: string
  tls_InsecureSkipVerify :: bool
  tls_MinVersion :: nat

text \<open>The version is that of TLS 1.2 on the wire.\<close>

definition tlsConfig :: "SMTPConfig \<Rightarrow> tls_config" where
  "tlsConfig cfg = \<lparr>tls_ServerName = smtp_Host cfg, tls_InsecureSkipVerify = smtp_InsecureSkipVerify cfg, tls_MinVersion = 0x0303\<rparr>"

end
