(* ===== verification/MailProps.thy ===== *)
theory MailProps
  imports Mail
begin

text \<open>
  What the mail package promises: the header of a rendered message consists of the lines it is
  meant to have, whatever the values are; credentials are not sent in the clear and a body is sent
  only after every recipient was accepted; and a queued message is delivered as it was.
\<close>

section \<open>Line ends\<close>

lemma CR_neq_LF [simp]: "CR \<noteq> LF" "LF \<noteq> CR"
  by (simp_all add: CR_def LF_def)

lemma crlf_lf_crlf: "crlf_to_lf (lf_to_crlf s) = s"
proof (induction s)
  case (Cons c s)
  show ?case
  proof (cases "c = LF")
    case True
    then show ?thesis using Cons by (cases "lf_to_crlf s") (auto simp: lf_to_crlf_def crlf_def)
  next
    case False
    show ?thesis
    proof (cases "lf_to_crlf s")
      case Nil
      then show ?thesis using Cons False by (cases s) (auto simp: lf_to_crlf_def crlf_def split: if_splits)
    next
      case (Cons d t)
      have "d \<noteq> LF" using Cons by (cases s) (auto simp: lf_to_crlf_def crlf_def split: if_splits)
      then show ?thesis using Cons.IH False Cons by (simp add: lf_to_crlf_def)
    qed
  qed
qed (simp add: lf_to_crlf_def)

lemma normalizeNewlines_idem: "normalizeNewlines (normalizeNewlines s) = normalizeNewlines s"
  by (simp add: normalizeNewlines_def crlf_lf_crlf)

section \<open>Reading a header back\<close>

text \<open>The lines of a message up to the first empty one, as a receiver reads them.\<close>

fun cut_crlf :: "string \<Rightarrow> (string \<times> string) option" where
  "cut_crlf [] = None"
| "cut_crlf [c] = None"
| "cut_crlf (c # d # s) =
     (if c = CR \<and> d = LF then Some ([], s)
      else map_option (\<lambda>(l, r). (c # l, r)) (cut_crlf (d # s)))"

lemma cut_crlf_shorter: "cut_crlf s = Some (l, r) \<Longrightarrow> length r < length s"
  by (induction s arbitrary: l rule: cut_crlf.induct) (fastforce split: if_splits)+

function header_lines :: "string \<Rightarrow> string list" where
  "header_lines s =
     (case cut_crlf s of
        None \<Rightarrow> []
      | Some (l, r) \<Rightarrow> if l = [] then [] else l # header_lines r)"
  by pat_completeness auto

termination
  by (relation "measure length") (auto dest: cut_crlf_shorter)

declare header_lines.simps [simp del]

definition one_line :: "string \<Rightarrow> bool" where
  "one_line s = (CR \<notin> set s \<and> LF \<notin> set s)"

lemma cut_crlf_line: "CR \<notin> set l \<Longrightarrow> cut_crlf (l @ CR # LF # r) = Some (l, r)"
proof (induction l)
  case (Cons c l)
  then show ?case by (cases l) auto
qed simp

definition header_line :: "string \<times> string \<Rightarrow> string" where
  "header_line kv = fst kv @ '': '' @ filter (\<lambda>c. c \<noteq> CR \<and> c \<noteq> LF) (snd kv)"

lemma header_eq: "header k v = header_line (k, v) @ [CR, LF]"
  by (simp add: header_def header_line_def crlf_def)

lemma header_line_one_line: "one_line (fst kv) \<Longrightarrow> CR \<notin> set (header_line kv) \<and> header_line kv \<noteq> []"
  by (auto simp: header_line_def one_line_def CR_def)

lemma header_lines_headers:
  assumes "\<And>kv. kv \<in> set hs \<Longrightarrow> one_line (fst kv)"
  shows "header_lines (concat (map (\<lambda>(k, v). header k v) hs) @ crlf @ body) = map header_line hs"
proof -
  have eq: "(\<lambda>(k, v). header k v) = (\<lambda>kv. header_line kv @ [CR, LF])" by (auto simp: header_eq)
  show ?thesis
    using assms unfolding eq
  proof (induction hs)
    case Nil
    have "cut_crlf (crlf @ body) = Some ([], body)" by (simp add: crlf_def)
    then show ?case by (simp add: header_lines.simps)
  next
    case (Cons kv hs)
    let ?rest = "concat (map (\<lambda>kv. header_line kv @ [CR, LF]) hs) @ crlf @ body"
    have l: "CR \<notin> set (header_line kv)" "header_line kv \<noteq> []"
      using header_line_one_line [of kv] Cons.prems by auto
    have "header_lines (header_line kv @ CR # LF # ?rest) = header_line kv # header_lines ?rest"
      using l(2) by (simp add: header_lines.simps [of "header_line kv @ CR # LF # ?rest"] cut_crlf_line [OF l(1)])
    then show ?case using Cons by simp
  qed
qed

section \<open>Properties\<close>

text \<open>The header that a message is meant to have, before its content fields.\<close>

definition intended_headers ::
  "encoders \<Rightarrow> time \<Rightarrow> string option \<Rightarrow> MailMessage \<Rightarrow> (string \<times> string) list" where
  "intended_headers enc now rnd m =
     [(''Date'', enc_date enc now), (''From'', address_String enc (mm_From m)), (''To'', joinAddresses enc (mm_To m))]
     @ (if mm_Cc m = [] then [] else [(''Cc'', joinAddresses enc (mm_Cc m))])
     @ (case mm_ReplyTo m of None \<Rightarrow> [] | Some a \<Rightarrow> [(''Reply-To'', address_String enc a)])
     @ [(''Subject'', enc_subject enc (mm_Subject m)), (''Message-ID'', messageID rnd (ad_Email (mm_From m))),
        (''MIME-Version'', ''1.0'')]
     @ mm_Headers m"

text \<open>C25. Nothing can be smuggled into the header.  When the names of the application's own headers
  are single lines, the header of a built message read back line by line is exactly the intended
  one, each value with its line breaks removed, followed by the content fields: whatever is in
  the subject, the names or the values adds no line, and the hidden recipients appear nowhere.\<close>

theorem mail_header_injection_free:
  assumes "\<And>kv. kv \<in> set (mm_Headers m) \<Longrightarrow> one_line (fst kv)"
    and "mail_Build enc now rnd_id rnd_boundary m = Inr out"
  shows "\<exists>content. header_lines out = map header_line (intended_headers enc now rnd_id m @ content)
    \<and> map fst content \<in> {[''Content-Type''], [''Content-Type'', ''Content-Transfer-Encoding'']}"
proof -
  let ?hs = "intended_headers enc now rnd_id m"
  let ?top = "concat (map (\<lambda>(k, v). header k v) ?hs)"
  have fixed: "one_line ''Date''" "one_line ''From''" "one_line ''To''" "one_line ''Cc''" "one_line ''Reply-To''"
    "one_line ''Subject''" "one_line ''Message-ID''" "one_line ''MIME-Version''" "one_line ''Content-Type''"
    "one_line ''Content-Transfer-Encoding''"
    by (simp_all add: one_line_def CR_def LF_def)
  have keys: "one_line (fst kv)" if "kv \<in> set ?hs" for kv
  proof (cases "kv \<in> set (mm_Headers m)")
    case True
    then show ?thesis by (rule assms(1))
  next
    case False
    with that fixed show ?thesis by (auto simp: intended_headers_def split: if_splits option.splits)
  qed
  obtain content body where out: "out = ?top @ concat (map (\<lambda>(k, v). header k v) content) @ crlf @ body"
      and c: "map fst content \<in> {[''Content-Type''], [''Content-Type'', ''Content-Transfer-Encoding'']}"
  proof -
    let ?ct = "''Content-Type''" and ?te = "(''Content-Transfer-Encoding'', ''quoted-printable'')"
    have top: "?top = header ''Date'' (enc_date enc now)
                @ header ''From'' (address_String enc (mm_From m))
                @ header ''To'' (joinAddresses enc (mm_To m))
                @ (if mm_Cc m \<noteq> [] then header ''Cc'' (joinAddresses enc (mm_Cc m)) else [])
                @ (case mm_ReplyTo m of None \<Rightarrow> [] | Some a \<Rightarrow> header ''Reply-To'' (address_String enc a))
                @ header ''Subject'' (enc_subject enc (mm_Subject m))
                @ header ''Message-ID'' (messageID rnd_id (ad_Email (mm_From m)))
                @ header ''MIME-Version'' ''1.0''
                @ concat (map (\<lambda>(k, v). header k v) (mm_Headers m))"
      by (simp add: intended_headers_def split: option.split)
    consider (both) boundary where "newBoundary rnd_boundary = Inr boundary"
        "\<exists>body. out = ?top @ header ?ct (''multipart/alternative; boundary=\"'' @ boundary @ ''\"'') @ crlf @ body"
      | (single) ty where "\<exists>body. out = ?top @ header ?ct ty @ header (fst ?te) (snd ?te) @ crlf @ body"
      using assms(2) unfolding mail_Build_def Let_def top [symmetric]
      by (auto simp: top split: option.splits if_splits sum.splits)
    then show thesis
    proof cases
      case (both boundary)
      then show thesis
        using that [of "[(?ct, ''multipart/alternative; boundary=\"'' @ boundary @ ''\"'')]"] by auto
    next
      case (single ty)
      then show thesis using that [of "[(?ct, ty), ?te]"] by auto
    qed
  qed
  have ckeys: "one_line (fst kv)" if "kv \<in> set content" for kv
  proof -
    have "fst kv \<in> set (map fst content)" using that by simp
    then have "fst kv = ''Content-Type'' \<or> fst kv = ''Content-Transfer-Encoding''"
      using c by auto
    then show ?thesis using fixed by metis
  qed
  have "header_lines out = map header_line (?hs @ content)"
  proof -
    have "\<And>kv. kv \<in> set (?hs @ content) \<Longrightarrow> one_line (fst kv)"
      unfolding set_append Un_iff using keys ckeys by metis
    then have "header_lines (concat (map (\<lambda>(k, v). header k v) (?hs @ content)) @ crlf @ body)
        = map header_line (?hs @ content)"
      by (rule header_lines_headers)
    then show ?thesis unfolding out by (simp only: map_append concat_append append_assoc)
  qed
  then show ?thesis using c by (intro exI [of _ content] conjI)
qed

definition plain_encoders :: encoders where
  "plain_encoders = \<lparr>enc_address = (\<lambda>n e. n @ '' <'' @ e @ ''>''), enc_subject = id, enc_qp = id, enc_date = (\<lambda>_. ''now'')\<rparr>"

text \<open>A message whose subject tries to add a recipient.\<close>

definition sample_message :: MailMessage where
  "sample_message = empty_message\<lparr>mm_From := \<lparr>ad_Name = [], ad_Email = ''a@x''\<rparr>, mm_To := mail_To [''b@y''],
     mm_Bcc := mail_To [''c@z''], mm_Subject := ''hi'' @ [CR, LF] @ ''Bcc: e@v'', mm_Text := ''t''\<rparr>"

theorem mail_header_injection_free_witness:
  "\<exists>out. mail_Build plain_encoders 0 (Some ''abc'') (Some ''xyz'') sample_message = Inr out
    \<and> (\<exists>content. header_lines out =
         map header_line (intended_headers plain_encoders 0 (Some ''abc'') sample_message @ content))"
proof -
  obtain out where "mail_Build plain_encoders 0 (Some ''abc'') (Some ''xyz'') sample_message = Inr out"
    by (simp add: mail_Build_def mail_Validate_def sample_message_def empty_message_def Recipients_def mail_To_def
        allAddresses_def validAddress_def Let_def CR_def LF_def)
  moreover from mail_header_injection_free [OF _ this]
  have "\<exists>content. header_lines out =
      map header_line (intended_headers plain_encoders 0 (Some ''abc'') sample_message @ content)"
    by (auto simp: sample_message_def empty_message_def)
  ultimately show ?thesis by blast
qed

section \<open>The SMTP exchange\<close>

lemma rcpt_loop_eq:
  "rcpt_loop sv tls tos tr =
     (case dropWhile (sv_rcpt sv) tos of
        [] \<Rightarrow> (None, tr @ map (\<lambda>to. (tls, C_Rcpt to)) tos)
      | to # _ \<Rightarrow> (Some (Mail_Recipient to), tr @ map (\<lambda>to. (tls, C_Rcpt to)) (takeWhile (sv_rcpt sv) tos @ [to])))"
  by (induction tos arbitrary: tr) (simp_all add: Let_def split: list.split, metis dropWhile_eq_Nil_conv list.distinct(1))

text \<open>Of a transaction: everything it sends, it sends on the connection it was given; it sends no
  credentials; and the body only when the server has taken the sender and every recipient.\<close>

lemma smtp_deliver_sends:
  assumes "smtp_deliver sv tls msg body tr = (e, tr')"
  obtains rest where "tr' = tr @ rest" "\<And>b c. (b, c) \<in> set rest \<Longrightarrow> b = tls"
    "\<And>b u p. (b, C_Auth u p) \<notin> set rest"
    "\<And>b x. (b, C_Body x) \<in> set rest \<Longrightarrow>
       x = body \<and> sv_mail sv \<and> (\<forall>to \<in> set (Recipients msg). sv_rcpt sv to \<and> (tls, C_Rcpt to) \<in> set rest)"
    "e = None \<Longrightarrow> (tls, C_Body body) \<in> set rest \<and> sv_finish sv"
proof -
  note d = assms [unfolded smtp_deliver_def Let_def rcpt_loop_eq]
  show thesis
  proof (cases "sv_mail sv \<and> dropWhile (sv_rcpt sv) (Recipients msg) = []")
    case True
    then have "\<forall>to \<in> set (Recipients msg). sv_rcpt sv to" by (simp add: dropWhile_eq_Nil_conv)
    with d True show thesis
      by (intro that [of "drop (length tr) tr'"]) (auto split: if_splits)
  next
    case False
    with d show thesis
      by (intro that [of "drop (length tr) tr'"]) (auto split: if_splits list.splits)
  qed
qed

text \<open>C26. What the SMTP mailer sends.  Credentials go over the wire only when the connection is
  encrypted or the server is the local host.  A body goes over the wire only if it is the
  rendering of the message and the server has accepted its sender and every recipient, hidden
  ones included.  With implicit TLS every command is encrypted.  A send that reports success has
  handed the body over and the server has accepted it.\<close>

theorem smtp_send_safe:
  assumes "smtp_Send enc now rnd_id rnd_boundary cfg sv msg = (e, tr)"
  shows "((b, C_Auth u p) \<in> set tr \<longrightarrow> b \<or> sv_local sv)
    \<and> ((b, C_Body x) \<in> set tr \<longrightarrow> mail_Build enc now rnd_id rnd_boundary msg = Inr x \<and> sv_mail sv
         \<and> (\<forall>to \<in> set (Recipients msg). sv_rcpt sv to \<and> (b, C_Rcpt to) \<in> set tr))
    \<and> (smtp_Encryption cfg = EncryptionTLS \<and> (b, c) \<in> set tr \<longrightarrow> b)
    \<and> (e = None \<longrightarrow> (\<exists>b x. mail_Build enc now rnd_id rnd_boundary msg = Inr x \<and> (b, C_Body x) \<in> set tr \<and> sv_finish sv))"
proof (cases "mail_Build enc now rnd_id rnd_boundary msg")
  case (Inl err)
  with assms show ?thesis by (auto simp: smtp_Send_def)
next
  case (Inr body)
  let ?up = "smtp_Encryption cfg = EncryptionStartTLS \<and> sv_offers_starttls sv"
  let ?tls = "smtp_Encryption cfg = EncryptionTLS \<or> ?up"
  let ?tr0 = "if ?up then [(False, C_StartTLS)] else []"
  have modes: "smtp_Encryption cfg = EncryptionTLS \<Longrightarrow> \<not> ?up"
    by (simp add: EncryptionTLS_def EncryptionStartTLS_def)
  consider (short) "tr \<in> {[], ?tr0, ?tr0 @ [(?tls, C_Auth (smtp_Username cfg) (smtp_Password cfg))]}" "e \<noteq> None"
      "(b, C_Auth u p) \<in> set tr \<Longrightarrow> ?tls \<or> sv_local sv"
    | (deliver) tr1 where "smtp_deliver sv ?tls msg body tr1 = (e, tr)"
      "tr1 = ?tr0 \<or> (tr1 = ?tr0 @ [(?tls, C_Auth (smtp_Username cfg) (smtp_Password cfg))] \<and> (?tls \<or> sv_local sv))"
    using assms by (auto simp: smtp_Send_def Inr Let_def split: if_splits)
  then show ?thesis
  proof cases
    case short
    then show ?thesis using modes by (auto split: if_splits)
  next
    case deliver
    from smtp_deliver_sends [OF deliver(1)] obtain rest where r: "tr = tr1 @ rest"
      "\<And>b c. (b, c) \<in> set rest \<Longrightarrow> b = ?tls" "\<And>b u p. (b, C_Auth u p) \<notin> set rest"
      "\<And>b x. (b, C_Body x) \<in> set rest \<Longrightarrow>
         x = body \<and> sv_mail sv \<and> (\<forall>to \<in> set (Recipients msg). sv_rcpt sv to \<and> (?tls, C_Rcpt to) \<in> set rest)"
      "e = None \<Longrightarrow> (?tls, C_Body body) \<in> set rest \<and> sv_finish sv"
      by metis
    have tr1: "(b, C_Body x) \<notin> set tr1" "(b, C_Auth u p) \<in> set tr1 \<Longrightarrow> b \<or> sv_local sv"
      "smtp_Encryption cfg = EncryptionTLS \<Longrightarrow> (b, c) \<in> set tr1 \<Longrightarrow> b"
      using deliver(2) modes by (auto split: if_splits)
    show ?thesis
    proof (intro conjI impI)
      assume "(b, C_Auth u p) \<in> set tr" then show "b \<or> sv_local sv" using r(1,3) tr1(2) by auto
    next
      assume "(b, C_Body x) \<in> set tr"
      then have "(b, C_Body x) \<in> set rest" using r(1) tr1(1) by auto
      from r(2) [OF this] r(4) [OF this] Inr r(1)
      show "mail_Build enc now rnd_id rnd_boundary msg = Inr x" "sv_mail sv"
        "\<forall>to \<in> set (Recipients msg). sv_rcpt sv to \<and> (b, C_Rcpt to) \<in> set tr"
        by auto
    next
      assume "smtp_Encryption cfg = EncryptionTLS \<and> (b, c) \<in> set tr"
      then show b using r(1,2) tr1(3) by auto
    next
      assume "e = None"
      with r(5) Inr r(1)
      show "\<exists>b x. mail_Build enc now rnd_id rnd_boundary msg = Inr x \<and> (b, C_Body x) \<in> set tr \<and> sv_finish sv" by auto
    qed
  qed
qed

text \<open>A remote server that answers everything with success and offers no encryption.\<close>

definition open_server :: smtp_server where
  "open_server = \<lparr>sv_dial = True, sv_greets = True, sv_offers_starttls = False, sv_starttls = True, sv_auth = True,
     sv_local = False, sv_mail = True, sv_rcpt = (\<lambda>_. True), sv_data = True, sv_write = True, sv_finish = True, sv_quit = True\<rparr>"

definition tls_config :: SMTPConfig where
  "tls_config = \<lparr>smtp_Host = ''mx'', smtp_Port = 465, smtp_Username = ''u'', smtp_Password = ''p'',
     smtp_Encryption = EncryptionTLS, smtp_Timeout = 0, smtp_InsecureSkipVerify = False\<rparr>"

lemmas sample_mail = sample_message_def empty_message_def mail_To_def plain_encoders_def

lemma sample_message_valid: "mail_Validate sample_message = None"
  by (simp add: mail_Validate_def sample_mail Recipients_def allAddresses_def validAddress_def CR_def LF_def)

lemma sample_message_recipients: "Recipients sample_message = [''b@y'', ''c@z'']"
  by (simp add: Recipients_def sample_mail)

lemma sample_message_builds: "\<exists>out. mail_Build enc now rnd_id rnd_boundary sample_message = Inr out"
  unfolding mail_Build_def sample_message_valid by (simp add: sample_mail Let_def)

theorem smtp_send_safe_witness:
  "\<exists>x tr. smtp_Send plain_encoders 0 None None (NewSMTP tls_config) open_server sample_message = (None, tr)
     \<and> (True, C_Body x) \<in> set tr \<and> (True, C_Rcpt ''c@z'') \<in> set tr \<and> (True, C_Auth ''u'' ''p'') \<in> set tr"
proof -
  let ?send = "smtp_Send plain_encoders 0 None None (NewSMTP tls_config) open_server sample_message"
  obtain x where b: "mail_Build plain_encoders 0 None None sample_message = Inr x"
    using sample_message_builds by blast
  obtain tr where tr: "?send = (None, tr)" "(True, C_Auth ''u'' ''p'') \<in> set tr"
    by (simp add: smtp_Send_def b Let_def NewSMTP_def tls_config_def open_server_def EncryptionTLS_def
        EncryptionStartTLS_def smtp_deliver_def rcpt_loop_eq sample_message_recipients)
  note safe = smtp_send_safe [OF tr(1)]
  from safe obtain c y where y: "(c, C_Body y) \<in> set tr" by blast
  have tls: "smtp_Encryption (NewSMTP tls_config) = EncryptionTLS"
    by (simp add: NewSMTP_def tls_config_def EncryptionTLS_def)
  have "c" using safe [of c _ _ _ "C_Body y"] y tls by blast
  moreover have "(c, C_Rcpt ''c@z'') \<in> set tr"
    using safe [of c _ _ y] y by (simp add: sample_message_recipients)
  ultimately show ?thesis using tr y by (intro exI [of _ y] exI [of _ tr]) simp
qed

text \<open>STARTTLS is opportunistic.  With the default configuration, a server, or whoever stands in
  between, that does not offer STARTTLS gets the whole message in the clear and the send reports
  success; the mode is described as one that connects in the clear and upgrades.\<close>

theorem smtp_starttls_downgrade:
  "\<exists>x tr. smtp_Encryption (NewSMTP (tls_config\<lparr>smtp_Username := [], smtp_Encryption := []\<rparr>)) = EncryptionStartTLS
    \<and> smtp_Send plain_encoders 0 None None (NewSMTP (tls_config\<lparr>smtp_Username := [], smtp_Encryption := []\<rparr>))
        open_server sample_message = (None, tr)
    \<and> mail_Build plain_encoders 0 None None sample_message = Inr x \<and> (False, C_Body x) \<in> set tr"
proof -
  obtain x where b: "mail_Build plain_encoders 0 None None sample_message = Inr x"
    using sample_message_builds by blast
  show ?thesis
    by (simp add: smtp_Send_def b Let_def NewSMTP_def tls_config_def open_server_def EncryptionTLS_def
        EncryptionStartTLS_def smtp_deliver_def rcpt_loop_eq sample_message_recipients)
qed

section \<open>Queued delivery\<close>

text \<open>A queued message is delivered as it was.  Send puts a valid message on the queue mail; the
  worker that claims from it, then or later, gets the send job back with the same message and a
  limit of five attempts, running it hands the registered mailer this message once, and completing
  it leaves the queue as it was before.\<close>

theorem mail_queued_delivery:
  assumes "dbq_inv db" and other: "\<forall>r \<in> set (q_jobs db). rec_Queue r \<noteq> ''mail''"
    and reg: "RegisterJob registry0 = Inr registry"
    and json: "marshal msg = Some payload" "payload \<noteq> []" "unmarshal payload empty_message = Some msg"
    and valid: "mail_Validate msg = None" and "now \<noteq> zero_time" and later: "now \<le> now'"
  shows "\<exists>db1 db2 r. queued_Send marshal (dbq_Driver Timeout) registry now msg db = (None, db1)
    \<and> dbq_Claim Timeout now' ''mail'' db1 = (Inr (Some r), db2)
    \<and> queue_decode unmarshal registry r = Inr (SendJob msg) \<and> rec_MaxAttempts r = 5 \<and> rec_Attempts r = 1
    \<and> SendJob_Run (Some memory_Send) (SendJob msg) sent = (None, sent @ [msg])
    \<and> q_jobs (snd (dbq_Complete r db2)) = q_jobs db"
proof -
  let ?r = "\<lparr>rec_ID = q_seq db + 1, rec_Queue = ''mail'', rec_Name = JobName, rec_Payload = payload,
    rec_Attempts = 0, rec_MaxAttempts = 5, rec_AvailableAt = now, rec_ReservedAt = None, rec_LastError = [],
    rec_CreatedAt = now\<rparr>"
  let ?db1 = "db\<lparr>q_jobs := q_jobs db @ [?r], q_seq := q_seq db + 1\<rparr>"
  let ?r2 = "?r\<lparr>rec_ReservedAt := Some now', rec_Attempts := 1\<rparr>"
  have lookup: "fmlookup registry JobName = Some (SendJob empty_message)"
    using reg by (auto simp: RegisterJob_def queue_Register_def SendJob_def JobName_def split: if_splits)
  have job: "job_Name (SendJob msg) = JobName" "job_Fields (SendJob m) = m" "queueOf (SendJob msg) = ''mail''"
    "maxAttemptsOf (SendJob msg) = 5" "(SendJob empty_message)\<lparr>job_Fields := msg\<rparr> = SendJob msg" for m
    by (simp_all add: SendJob_def queueOf_def maxAttemptsOf_def)
  have send: "queued_Send marshal (dbq_Driver Timeout) registry now msg db = (None, ?db1)"
    using valid json lookup \<open>now \<noteq> zero_time\<close>
    by (simp add: queued_Send_def Dispatch_def DispatchAt_def job queue_New_def dbq_Driver_def dbq_Push_def Let_def)
  have ids: "\<forall>r \<in> set (q_jobs db). rec_ID r \<noteq> q_seq db + 1"
    using assms(1) by (force simp: dbq_inv_def)
  have skip: "map (\<lambda>row. if rec_ID row = Suc (q_seq db) \<and> P row then f row else row) (q_jobs db) = q_jobs db" for P f
    using ids by (auto intro!: map_idI)
  have none: "filter (dbq_due now' stale ''mail'') (q_jobs db) = []" for stale
    using other by (auto simp: filter_empty_conv dbq_due_def)
  have "dbq_select now' (now' - dbq_timeout Timeout) ''mail'' ?db1 = Some ?r"
    using later by (simp add: dbq_select_def none dbq_due_def unreserved_def first_by_def)
  then have claim: "dbq_Claim Timeout now' ''mail'' ?db1 = (Inr (Some ?r2), ?db1\<lparr>q_jobs := q_jobs db @ [?r2]\<rparr>)"
    by (simp add: dbq_Claim_def Let_def dbq_reserve_def unreserved_def skip)
  have "queue_decode unmarshal registry ?r2 = Inr (SendJob msg)"
    using lookup json by (simp add: queue_decode_def queue_New_def job)
  moreover have "q_jobs (snd (dbq_Complete ?r2 (?db1\<lparr>q_jobs := q_jobs db @ [?r2]\<rparr>))) = q_jobs db"
    using ids by (simp add: dbq_Complete_def)
  moreover have "SendJob_Run (Some memory_Send) (SendJob msg) sent = (None, sent @ [msg])"
    using valid by (simp add: SendJob_Run_def job memory_Send_def)
  ultimately show ?thesis using send claim
    by (intro exI [of _ ?db1] exI [of _ "?db1\<lparr>q_jobs := q_jobs db @ [?r2]\<rparr>"] exI [of _ ?r2]) simp
qed

theorem mail_queued_delivery_witness:
  "\<exists>registry db1 db2 r. RegisterJob fmempty = Inr registry
    \<and> queued_Send (\<lambda>_. Some ''!'') (dbq_Driver 0) registry 9 sample_message empty_qdb = (None, db1)
    \<and> dbq_Claim 0 10 ''mail'' db1 = (Inr (Some r), db2)
    \<and> queue_decode (\<lambda>_ _. Some sample_message) registry r = Inr (SendJob sample_message)"
proof -
  have inv: "dbq_inv empty_qdb" "\<forall>r \<in> set (q_jobs empty_qdb). rec_Queue r \<noteq> ''mail''"
    by (simp_all add: dbq_inv_def empty_qdb_def)
  have reg: "RegisterJob fmempty = Inr (fmupd JobName (SendJob empty_message) fmempty)"
    by (simp add: RegisterJob_def queue_Register_def SendJob_def JobName_def)
  have "\<exists>db1 db2 r. queued_Send (\<lambda>_. Some ''!'') (dbq_Driver 0) (fmupd JobName (SendJob empty_message) fmempty)
        9 sample_message empty_qdb = (None, db1)
    \<and> dbq_Claim 0 10 ''mail'' db1 = (Inr (Some r), db2)
    \<and> queue_decode (\<lambda>_ _. Some sample_message) (fmupd JobName (SendJob empty_message) fmempty) r
        = Inr (SendJob sample_message)"
    using mail_queued_delivery [where db = empty_qdb and payload = "''!''" and msg = sample_message and now = 9
        and now' = 10 and marshal = "\<lambda>_. Some ''!''" and unmarshal = "\<lambda>_ _. Some sample_message" and Timeout = 0
        and sent = "[]", OF inv reg _ _ _ sample_message_valid]
    by (simp add: zero_time_def) blast
  with reg show ?thesis by blast
qed

end
