(* ===== verification/Duration.thy ===== *)
theory Duration
  imports Strconv Complex_Main
begin

text \<open>
  \<^verbatim>\<open>time.ParseDuration\<close>, which the configuration and the form binder use.  Its integers are
  unsigned 64-bit; all additions but the one of two terms are guarded against wrapping around.  The fraction is a
  product of 64-bit floats; \<open>fl\<close> rounds a rational to the nearest float, and the powers of ten
  that occur are exact.
\<close>

definition take_digits :: "string \<Rightarrow> string \<times> string" where
  "take_digits s = (takeWhile is_digit s, dropWhile is_digit s)"

text \<open>\<^verbatim>\<open>leadingInt\<close>: the value of the leading digits, unless it exceeds \<open>2 ^ 63\<close>.\<close>

fun leading_int :: "nat \<Rightarrow> string \<Rightarrow> nat option" where
  "leading_int x [] = Some x"
| "leading_int x (c # s) =
     (if x > 2 ^ 63 div 10 then None
      else let y = 10 * x + digit_val c in if y > 2 ^ 63 then None else leading_int y s)"

text \<open>\<^verbatim>\<open>leadingFraction\<close>: the digits that fit, and how many they are.\<close>

fun leading_fraction :: "nat \<Rightarrow> nat \<Rightarrow> string \<Rightarrow> nat \<times> nat" where
  "leading_fraction x k [] = (x, k)"
| "leading_fraction x k (c # s) =
     (if x > (2 ^ 63 - 1) div 10 then (x, k)
      else let y = 10 * x + digit_val c in if y > 2 ^ 63 then (x, k) else leading_fraction y (Suc k) s)"

definition unit_of :: "string \<Rightarrow> nat option" where
  "unit_of u =
     (if u = ''ns'' then Some 1
      else if u = ''us'' \<or> u = [CHR 0xC2, CHR 0xB5, CHR ''s''] \<or> u = [CHR 0xCE, CHR 0xBC, CHR ''s''] then Some 1000
      else if u = ''ms'' then Some 1000000
      else if u = ''s'' then Some 1000000000
      else if u = ''m'' then Some 60000000000
      else if u = ''h'' then Some 3600000000000
      else None)"

definition unit_char :: "char \<Rightarrow> bool" where
  "unit_char c = (c \<noteq> CHR ''.'' \<and> \<not> is_digit c)"

text \<open>One number with its unit: the nanoseconds, and what is left of the text.\<close>

definition duration_term :: "(rat \<Rightarrow> rat) \<Rightarrow> string \<Rightarrow> (nat \<times> string) option" where
  "duration_term fl s =
     (case take_digits s of (ds, s1) \<Rightarrow>
      case leading_int 0 ds of None \<Rightarrow> None | Some v \<Rightarrow>
      let (fs, s2) = (case s1 of [] \<Rightarrow> ([], []) | c # s' \<Rightarrow> if c = CHR ''.'' then take_digits s' else ([], s1));
          (f, k) = leading_fraction 0 0 fs
      in if ds = [] \<and> fs = [] then None
         else let u = takeWhile unit_char s2; s3 = dropWhile unit_char s2
         in case unit_of u of None \<Rightarrow> None | Some unit \<Rightarrow>
            if v > 2 ^ 63 div unit then None
            else let w = v * unit + (if f > 0 then nat \<lfloor>fl (fl (of_nat f) * fl (of_nat unit / 10 ^ k))\<rfloor> else 0)
                 in if w > 2 ^ 63 then None else Some (w, s3))"

lemma take_digits_length: "take_digits s = (d, r) \<Longrightarrow> length r \<le> length s"
  by (auto simp: take_digits_def length_dropWhile_le)

lemma duration_term_shorter:
  assumes "duration_term fl s = Some (w, r)"
  shows "length r < length s"
proof -
  obtain ds s1 where d: "take_digits s = (ds, s1)" by fastforce
  define s2 where "s2 = snd (case s1 of [] \<Rightarrow> ([], []) | c # s' \<Rightarrow> if c = CHR ''.'' then take_digits s' else ([], s1))"
  have "length s2 \<le> length s1"
    by (cases s1) (auto simp: s2_def take_digits_def length_dropWhile_le le_SucI)
  moreover have "r = dropWhile unit_char s2 \<and> takeWhile unit_char s2 \<noteq> []"
    using assms by (auto simp: duration_term_def d s2_def Let_def unit_of_def split: option.splits prod.splits if_splits)
  moreover from this have "length r < length s2"
    by (metis append_Nil length_append length_greater_0_conv less_add_same_cancel2 takeWhile_dropWhile_id)
  ultimately show ?thesis using take_digits_length [OF d] by linarith
qed

function duration_loop :: "(rat \<Rightarrow> rat) \<Rightarrow> nat \<Rightarrow> string \<Rightarrow> nat option" where
  "duration_loop fl d s =
     (if s = [] then Some d
      else case duration_term fl s of
        None \<Rightarrow> None
      | Some (v, r) \<Rightarrow>
          let d' = (d + v) mod 2 ^ 64 in if d' > 2 ^ 63 then None else duration_loop fl d' r)"
  by pat_completeness auto

termination
  by (relation "measure (\<lambda>(fl, d, s). length s)") (auto dest: duration_term_shorter)

declare duration_loop.simps [simp del]

definition parse_duration :: "(rat \<Rightarrow> rat) \<Rightarrow> string \<Rightarrow> duration option" where
  "parse_duration fl s0 =
     (let neg = (s0 \<noteq> [] \<and> hd s0 = CHR ''-'');
          s = (if s0 \<noteq> [] \<and> (hd s0 = CHR ''-'' \<or> hd s0 = CHR ''+'') then tl s0 else s0)
      in if s = ''0'' then Some 0
         else if s = [] then None
         else case duration_loop fl 0 s of
           None \<Rightarrow> None
         | Some d \<Rightarrow> if neg then Some (- int d) else if d > 2 ^ 63 - 1 then None else Some (int d))"

section \<open>Bounds and a round trip\<close>

lemma duration_loop_bound: "duration_loop fl d s = Some e \<Longrightarrow> d \<le> 2 ^ 63 \<Longrightarrow> e \<le> 2 ^ 63"
proof (induction fl d s rule: duration_loop.induct)
  case (1 fl d s)
  show ?case
  proof (cases "s = []")
    case True
    then show ?thesis using "1.prems" by (simp add: duration_loop.simps)
  next
    case False
    then obtain v r where t: "duration_term fl s = Some (v, r)" "(d + v) mod 2 ^ 64 \<le> 2 ^ 63"
        "duration_loop fl ((d + v) mod 2 ^ 64) r = Some e"
      using "1.prems" by (subst (asm) duration_loop.simps) (auto simp: Let_def split: option.splits if_splits)
    then show ?thesis using "1.IH" [OF False t(1) refl refl] by simp
  qed
qed

lemma parse_duration_bounds:
  assumes "parse_duration fl s = Some d"
  shows "- (2 ^ 63) \<le> d \<and> d < 2 ^ 63"
proof -
  have "e \<le> 2 ^ 63" if "duration_loop fl 0 t = Some e" for e t
    using duration_loop_bound [OF that] by simp
  then show ?thesis
    using assms by (force simp: parse_duration_def Let_def split: option.splits if_splits)
qed

lemma leading_int_digits:
  assumes "list_all is_digit s" and "foldl (\<lambda>n c. 10 * n + digit_val c) x s \<le> 2 ^ 63"
  shows "leading_int x s = Some (foldl (\<lambda>n c. 10 * n + digit_val c) x s)"
  using assms
proof (induction s arbitrary: x)
  case (Cons c s)
  let ?y = "10 * x + digit_val c"
  have mono: "?y \<le> foldl (\<lambda>n c. 10 * n + digit_val c) ?y s"
  proof (induction s arbitrary: c x)
    case (Cons d s)
    show ?case using Cons.IH [of "10 * x + digit_val c" d] by simp
  qed simp
  then have "?y \<le> 2 ^ 63" using Cons.prems(2) by simp
  then have "\<not> x > 2 ^ 63 div 10" by simp
  with \<open>?y \<le> 2 ^ 63\<close> show ?case using Cons by simp
qed simp

lemma parse_duration_seconds:
  assumes "n * 1000000000 < 2 ^ 63"
  shows "parse_duration fl (format_nat n @ ''s'') = Some (int n * Second)"
proof -
  have dig: "list_all is_digit (format_nat n)" by (rule format_nat_digits)
  have s: "\<not> is_digit CHR ''s''" by (simp add: is_digit_def char_between_def)
  have td: "take_digits (format_nat n @ ''s'') = (format_nat n, ''s'')"
    using dig s by (simp add: take_digits_def list_all_iff takeWhile_append2 dropWhile_append2)
  have li: "leading_int 0 (format_nat n) = Some n"
    using leading_int_digits [OF dig, of 0] assms digits_val_format_nat [of n] by (simp add: digits_val_def)
  have "duration_term fl (format_nat n @ ''s'') = Some (n * 1000000000, [])"
    using assms s by (simp add: duration_term_def td li Let_def unit_char_def unit_of_def)
  then have "duration_loop fl 0 (format_nat n @ ''s'') = Some (n * 1000000000)"
    using assms by (simp add: duration_loop.simps [of fl 0 "format_nat n @ ''s''"] duration_loop.simps [of fl _ "[]"] Let_def)
  moreover have "format_nat n @ ''s'' \<noteq> ''0''" "hd (format_nat n @ ''s'') \<noteq> CHR ''-''" "hd (format_nat n @ ''s'') \<noteq> CHR ''+''"
    using is_digit_not_sign [OF format_nat_hd_digit [of n]] s dig by (auto simp: append_eq_Cons_conv hd_append)
  ultimately show ?thesis using assms
    by (simp add: parse_duration_def Let_def Second_def)
qed

end
