(* ===== verification/Validate.thy ===== *)
theory Validate
  imports Duration "HOL-Library.Finite_Map"
begin

text \<open>
  The package \<^verbatim>\<open>validate\<close>: binding the values of a form or a JSON body to the fields of a
  struct (\<^verbatim>\<open>validate.go\<close>), the bag of error messages and their wording (\<^verbatim>\<open>errors.go\<close>).

  A struct is a list of fields with the facts that \<^verbatim>\<open>reflect\<close> reports about them, and a value of
  a field is a tree; an operation that fails half way returns what it has filled in so far.  The
  validator is third-party code and an argument, as are the JSON decoder, the parser of floating
  point numbers and the outcome of \<^verbatim>\<open>ParseForm\<close>.  Field names are in the ASCII range.
\<close>

section \<open>Types and values of fields\<close>

datatype gotype =
    T_String | T_Bool | T_Int nat | T_Uint nat | T_Float nat | T_Duration
  | T_Pointer gotype | T_Slice gotype | T_Other string

datatype 'f goval =
    V_String string | V_Bool bool | V_Int int | V_Uint nat | V_Float 'f
  | V_Nil | V_Pointer "'f goval" | V_Slice "'f goval list" | V_Other

text \<open>The values a variable of a type can hold.\<close>

fun has_type :: "'f goval \<Rightarrow> gotype \<Rightarrow> bool" where
  "has_type v T_String = (case v of V_String _ \<Rightarrow> True | _ \<Rightarrow> False)"
| "has_type v T_Bool = (case v of V_Bool _ \<Rightarrow> True | _ \<Rightarrow> False)"
| "has_type v (T_Int bits) =
     (case v of V_Int i \<Rightarrow> - (2 ^ (bits - 1)) \<le> i \<and> i < 2 ^ (bits - 1) | _ \<Rightarrow> False)"
| "has_type v (T_Uint bits) = (case v of V_Uint n \<Rightarrow> n < 2 ^ bits | _ \<Rightarrow> False)"
| "has_type v (T_Float bits) = (case v of V_Float _ \<Rightarrow> True | _ \<Rightarrow> False)"
| "has_type v T_Duration = (case v of V_Int i \<Rightarrow> - (2 ^ 63) \<le> i \<and> i < 2 ^ 63 | _ \<Rightarrow> False)"
| "has_type v (T_Pointer t) = (case v of V_Nil \<Rightarrow> True | V_Pointer x \<Rightarrow> has_type x t | _ \<Rightarrow> False)"
| "has_type v (T_Slice t) = (case v of V_Nil \<Rightarrow> True | V_Slice xs \<Rightarrow> (\<forall>x \<in> set xs. has_type x t) | _ \<Rightarrow> False)"
| "has_type v (T_Other n) = (case v of V_Other \<Rightarrow> True | _ \<Rightarrow> False)"

text \<open>The zero value of a type, what \<^verbatim>\<open>reflect.New\<close> and \<^verbatim>\<open>reflect.MakeSlice\<close> fill in.\<close>

fun zero_value :: "'f \<Rightarrow> gotype \<Rightarrow> 'f goval" where
  "zero_value z T_String = V_String []"
| "zero_value z T_Bool = V_Bool False"
| "zero_value z (T_Int bits) = V_Int 0"
| "zero_value z (T_Uint bits) = V_Uint 0"
| "zero_value z (T_Float bits) = V_Float z"
| "zero_value z T_Duration = V_Int 0"
| "zero_value z (T_Pointer t) = V_Nil"
| "zero_value z (T_Slice t) = V_Nil"
| "zero_value z (T_Other n) = V_Other"

datatype bind_error =
    Err_Target string | ErrBodyTooLarge | Err_DecodeJSON | Err_SingleObject | Err_ParseForm
  | Err_NotDuration string | Err_NotBool string | Err_NotInt string | Err_NotUint string | Err_NotFloat string
  | Err_Unsupported gotype | Err_Field string bind_error

text \<open>What the number parsers of the library return: rounding of floats, the zero float, and
  the float of a text at a width.\<close>

record 'f floats =
  fl_round :: "rat \<Rightarrow> rat"
  fl_zero :: 'f
  fl_parse :: "string \<Rightarrow> nat \<Rightarrow> 'f option"

section \<open>Setting a field\<close>

text \<open>\<^verbatim>\<open>setScalar\<close> after the pointer was followed.\<close>

definition set_plain :: "'f floats \<Rightarrow> gotype \<Rightarrow> string \<Rightarrow> (bind_error, 'f goval) result" where
  "set_plain F t s =
     (case t of
        T_Duration \<Rightarrow> (case parse_duration (fl_round F) s of None \<Rightarrow> Inl (Err_NotDuration s) | Some d \<Rightarrow> Inr (V_Int d))
      | T_String \<Rightarrow> Inr (V_String s)
      | T_Bool \<Rightarrow>
          (let l = to_lower s in
           if l = ''on'' \<or> l = ''yes'' then Inr (V_Bool True)
           else if l = ''off'' \<or> l = ''no'' \<or> l = [] then Inr (V_Bool False)
           else (case parse_bool s of None \<Rightarrow> Inl (Err_NotBool s) | Some b \<Rightarrow> Inr (V_Bool b)))
      | T_Int bits \<Rightarrow> (case parse_int s bits of None \<Rightarrow> Inl (Err_NotInt s) | Some i \<Rightarrow> Inr (V_Int i))
      | T_Uint bits \<Rightarrow> (case parse_uint s bits of None \<Rightarrow> Inl (Err_NotUint s) | Some n \<Rightarrow> Inr (V_Uint n))
      | T_Float bits \<Rightarrow> (case fl_parse F s bits of None \<Rightarrow> Inl (Err_NotFloat s) | Some f \<Rightarrow> Inr (V_Float f))
      | _ \<Rightarrow> Inl (Err_Unsupported t))"

text \<open>\<^verbatim>\<open>setScalar\<close>: the error if any, and the field, where a nil pointer that is followed has been
  replaced by one to a zero value even when the conversion fails.\<close>

definition setScalar :: "'f floats \<Rightarrow> gotype \<Rightarrow> string \<Rightarrow> 'f goval \<Rightarrow> bind_error option \<times> 'f goval" where
  "setScalar F t s v =
     (case t of
        T_Pointer e \<Rightarrow>
          if s = [] then (None, v)
          else let target = (case v of V_Pointer x \<Rightarrow> x | _ \<Rightarrow> zero_value (fl_zero F) e)
               in (case set_plain F e s of
                     Inl err \<Rightarrow> (Some err, V_Pointer target)
                   | Inr x \<Rightarrow> (None, V_Pointer x))
      | _ \<Rightarrow> (case set_plain F t s of Inl err \<Rightarrow> (Some err, v) | Inr x \<Rightarrow> (None, x)))"

fun set_elements :: "'f floats \<Rightarrow> gotype \<Rightarrow> string list \<Rightarrow> (bind_error, 'f goval list) result" where
  "set_elements F t [] = Inr []"
| "set_elements F t (s # ss) =
     (case setScalar F t s (zero_value (fl_zero F) t) of
        (Some e, _) \<Rightarrow> Inl e
      | (None, x) \<Rightarrow> (case set_elements F t ss of Inl e \<Rightarrow> Inl e | Inr xs \<Rightarrow> Inr (x # xs)))"

definition setField :: "'f floats \<Rightarrow> gotype \<Rightarrow> string list \<Rightarrow> 'f goval \<Rightarrow> bind_error option \<times> 'f goval" where
  "setField F t vals v =
     (case vals of
        [] \<Rightarrow> (None, v)
      | s # _ \<Rightarrow>
          (case t of
             T_Slice e \<Rightarrow>
               if e = T_Uint 8 then setScalar F t s v
               else (case set_elements F e vals of Inl err \<Rightarrow> (Some err, v) | Inr xs \<Rightarrow> (None, V_Slice xs))
           | _ \<Rightarrow> setScalar F t s v))"

section \<open>Binding a request\<close>

text \<open>A field of a struct: its Go name, whether it is exported, its \<^verbatim>\<open>form\<close> and \<^verbatim>\<open>json\<close> tags, each
  empty when absent, and its type.\<close>

record sfield =
  sf_Name :: string
  sf_Exported :: bool
  sf_form :: string
  sf_json :: string
  sf_Type :: gotype

definition tag_name :: "string \<Rightarrow> string" where
  "tag_name tag = hd (split_on (CHR '','') tag)"

definition fieldName :: "sfield \<Rightarrow> string" where
  "fieldName f =
     (if tag_name (sf_form f) \<noteq> [] then tag_name (sf_form f)
      else if tag_name (sf_json f) \<noteq> [] then tag_name (sf_json f)
      else sf_Name f)"

text \<open>The name under which the validator reports a field.\<close>

definition report_name :: "sfield \<Rightarrow> string" where
  "report_name f =
     (let ok = (\<lambda>n. n \<noteq> [] \<and> n \<noteq> ''-'') in
      if ok (tag_name (sf_form f)) then tag_name (sf_form f)
      else if ok (tag_name (sf_json f)) then tag_name (sf_json f)
      else sf_Name f)"

fun bind_fields ::
  "'f floats \<Rightarrow> (string, string list) fmap \<Rightarrow> (sfield \<times> 'f goval) list \<Rightarrow> bind_error option \<times> (sfield \<times> 'f goval) list" where
  "bind_fields F form [] = (None, [])"
| "bind_fields F form ((f, v) # fs) =
     (if \<not> sf_Exported f \<or> fieldName f = ''-''
      then (case bind_fields F form fs of (e, fs') \<Rightarrow> (e, (f, v) # fs'))
      else case fmlookup form (fieldName f) of
        None \<Rightarrow> (case bind_fields F form fs of (e, fs') \<Rightarrow> (e, (f, v) # fs'))
      | Some vals \<Rightarrow>
          (case setField F (sf_Type f) vals v of
             (Some e, v') \<Rightarrow> (Some (Err_Field (fieldName f) e), (f, v') # fs)
           | (None, v') \<Rightarrow> (case bind_fields F form fs of (e, fs') \<Rightarrow> (e, (f, v') # fs'))))"

text \<open>How \<^verbatim>\<open>ParseForm\<close> on the limited body ended.\<close>

datatype form_outcome = Form_TooLarge | Form_Error | Form_Values "(string, string list) fmap"

definition bindForm ::
  "'f floats \<Rightarrow> form_outcome \<Rightarrow> (sfield \<times> 'f goval) list \<Rightarrow> bind_error option \<times> (sfield \<times> 'f goval) list" where
  "bindForm F outcome dst =
     (case outcome of
        Form_TooLarge \<Rightarrow> (Some ErrBodyTooLarge, dst)
      | Form_Error \<Rightarrow> (Some Err_ParseForm, dst)
      | Form_Values form \<Rightarrow> bind_fields F form dst)"

definition MaxBodySize :: nat where "MaxBodySize = 10 * 2 ^ 20"

text \<open>One call of the JSON decoder on what is left of the body: a destination filled in and the
  rest, the end of the input, the limit of the reader, or another error with what was filled in.\<close>

datatype 'd json_outcome = J_Value 'd string | J_EOF | J_TooLarge 'd | J_Error 'd

text \<open>The decoder sees the first \<^const>\<open>MaxBodySize\<close> bytes, and whether there were more.\<close>

definition bindJSON ::
  "(string \<Rightarrow> bool \<Rightarrow> 'd \<Rightarrow> 'd json_outcome) \<Rightarrow> (string \<Rightarrow> bool \<Rightarrow> unit json_outcome) \<Rightarrow> string \<Rightarrow> 'd
     \<Rightarrow> bind_error option \<times> 'd" where
  "bindJSON decode decode_empty body dst =
     (let more = length body > MaxBodySize in
      case decode (take MaxBodySize body) more dst of
        J_TooLarge d \<Rightarrow> (Some ErrBodyTooLarge, d)
      | J_Error d \<Rightarrow> (Some Err_DecodeJSON, d)
      | J_EOF \<Rightarrow> (Some Err_DecodeJSON, dst)
      | J_Value d rest \<Rightarrow> (if decode_empty rest more = J_EOF then (None, d) else (Some Err_SingleObject, d)))"

text \<open>What a caller may pass as the destination.\<close>

datatype 'd target = Not_Pointer string | Nil_Pointer string | Pointer_To_Other string | Pointer_To_Struct 'd

fun checkTarget :: "'d target \<Rightarrow> bind_error option" where
  "checkTarget (Not_Pointer t) = Some (Err_Target t)"
| "checkTarget (Nil_Pointer t) = Some (Err_Target t)"
| "checkTarget (Pointer_To_Other t) = Some (Err_Target t)"
| "checkTarget (Pointer_To_Struct d) = None"

definition is_json :: "string \<Rightarrow> bool" where
  "is_json contentType = (trim_space (fst (cut (CHR '';'') contentType)) = ''application/json'')"

definition validate_Bind ::
  "'f floats \<Rightarrow> (string \<Rightarrow> bool \<Rightarrow> (sfield \<times> 'f goval) list \<Rightarrow> (sfield \<times> 'f goval) list json_outcome)
     \<Rightarrow> (string \<Rightarrow> bool \<Rightarrow> unit json_outcome) \<Rightarrow> string \<Rightarrow> string \<Rightarrow> form_outcome
     \<Rightarrow> (sfield \<times> 'f goval) list target \<Rightarrow> bind_error option \<times> (sfield \<times> 'f goval) list target" where
  "validate_Bind F decode decode_empty contentType body form dst =
     (case dst of
        Pointer_To_Struct d \<Rightarrow>
          (case (if is_json contentType then bindJSON decode decode_empty body d else bindForm F form d) of
             (e, d') \<Rightarrow> (e, Pointer_To_Struct d'))
      | _ \<Rightarrow> (checkTarget dst, dst))"

section \<open>Messages\<close>

type_synonym ErrorBag = "(string, string list) fmap"

definition bag_Add :: "string \<Rightarrow> string \<Rightarrow> ErrorBag \<Rightarrow> ErrorBag" where
  "bag_Add field msg b =
     fmupd field ((case fmlookup b field of None \<Rightarrow> [] | Some ms \<Rightarrow> ms) @ [msg]) b"

definition bag_Any :: "ErrorBag \<Rightarrow> bool" where
  "bag_Any b = (b \<noteq> fmempty)"

definition bag_messages :: "ErrorBag \<Rightarrow> string \<Rightarrow> string list" where
  "bag_messages b field = (case fmlookup b field of None \<Rightarrow> [] | Some ms \<Rightarrow> ms)"

definition bag_Has :: "ErrorBag \<Rightarrow> string \<Rightarrow> bool" where
  "bag_Has b field = (bag_messages b field \<noteq> [])"

definition bag_First :: "ErrorBag \<Rightarrow> string \<Rightarrow> string" where
  "bag_First b field = (case bag_messages b field of [] \<Rightarrow> [] | m # _ \<Rightarrow> m)"

definition bag_Fields :: "ErrorBag \<Rightarrow> string list" where
  "bag_Fields b = sorted_list_of_fset (fmdom b)"

definition bag_All :: "ErrorBag \<Rightarrow> string list" where
  "bag_All b = concat (map (bag_messages b) (bag_Fields b))"

definition bag_Error :: "ErrorBag \<Rightarrow> string" where
  "bag_Error b = join ''; '' (bag_All b)"

text \<open>A field error of the validator: the reported name, the tag that failed with its parameter,
  and whether the field is a string.\<close>

record FieldError =
  fe_Field :: string
  fe_Tag :: string
  fe_Param :: string
  fe_String :: bool

definition label :: "string \<Rightarrow> string" where
  "label field =
     (if field = [] then ''This field''
      else let spaced = map (\<lambda>c. if c = CHR ''_'' \<or> c = CHR ''-'' then CHR '' '' else c) field;
               b = take 1 spaced @ concat (map (\<lambda>c. if is_upper c then [CHR '' '', lower_char c] else [c]) (drop 1 spaced));
               out = trim_space (to_lower b)
           in if out = [] then ''This field'' else to_upper (take 1 out) @ drop 1 out)"

definition message :: "FieldError \<Rightarrow> string" where
  "message fe =
     (let field = label (fe_Field fe); param = fe_Param fe; tag = fe_Tag fe in
      if tag \<in> {''required'', ''required_with'', ''required_without''} then field @ '' is required.''
      else if tag = ''email'' then ''Enter a valid email address.''
      else if tag = ''url'' then ''Enter a valid URL.''
      else if tag = ''min'' then
        (if fe_String fe then field @ '' must be at least '' @ param @ '' characters.''
         else field @ '' must be at least '' @ param @ ''.'')
      else if tag = ''max'' then
        (if fe_String fe then field @ '' must be '' @ param @ '' characters or fewer.''
         else field @ '' must be '' @ param @ '' or less.'')
      else if tag = ''len'' then field @ '' must be exactly '' @ param @ '' characters.''
      else if tag = ''eqfield'' then field @ '' must match '' @ label param @ ''.''
      else if tag = ''nefield'' then field @ '' must be different from '' @ label param @ ''.''
      else if tag \<in> {''gt'', ''gte''} then field @ '' must be greater than '' @ param @ ''.''
      else if tag \<in> {''lt'', ''lte''} then field @ '' must be less than '' @ param @ ''.''
      else if tag = ''oneof'' then
        field @ '' must be one of: '' @ concat (map (\<lambda>c. if c = CHR '' '' then '', '' else [c]) param) @ ''.''
      else if tag = ''alpha'' then field @ '' may contain letters only.''
      else if tag = ''alphanum'' then field @ '' may contain letters and numbers only.''
      else if tag = ''numeric'' then field @ '' must be a number.''
      else if tag = ''boolean'' then field @ '' must be true or false.''
      else if tag \<in> {''uuid'', ''uuid4''} then field @ '' must be a valid UUID.''
      else field @ '' is not valid.'')"

text \<open>What the validator returns: nothing to report, a value it cannot validate, the failed
  fields, or another error.\<close>

datatype validator_outcome = Valid | Invalid_Value string | Field_Errors "FieldError list" | Other_Error

text \<open>\<^verbatim>\<open>Check\<close> panics for a value that cannot be validated.\<close>

definition validate_Check :: "('d \<Rightarrow> validator_outcome) \<Rightarrow> 'd \<Rightarrow> (string, ErrorBag) result" where
  "validate_Check validator d =
     (case validator d of
        Valid \<Rightarrow> Inr fmempty
      | Invalid_Value s \<Rightarrow> Inl s
      | Other_Error \<Rightarrow> Inr fmempty
      | Field_Errors fes \<Rightarrow> Inr (foldl (\<lambda>bag fe. bag_Add (fe_Field fe) (message fe) bag) fmempty fes))"

definition BindAndCheck ::
  "('d target \<Rightarrow> bind_error option \<times> 'd target) \<Rightarrow> ('d target \<Rightarrow> validator_outcome) \<Rightarrow> 'd target
     \<Rightarrow> (string, ErrorBag \<times> bind_error option) result \<times> 'd target" where
  "BindAndCheck bind validator dst =
     (case bind dst of
        (Some e, dst') \<Rightarrow> (Inr (fmempty, Some e), dst')
      | (None, dst') \<Rightarrow>
          (case validate_Check validator dst' of Inl p \<Rightarrow> (Inl p, dst') | Inr bag \<Rightarrow> (Inr (bag, None), dst')))"

end
