(* ===== verification/ValidateProps.thy ===== *)
theory ValidateProps
  imports Validate
begin

text \<open>
  What binding and checking promise: fields keep their types whatever is submitted, exactly the
  submitted fields are set and to the submitted values, and the bag holds the messages of exactly
  the fields that failed.
\<close>

section \<open>Types are kept\<close>

lemma zero_value_typed: "has_type (zero_value z t) t"
  by (cases t) auto

lemma set_plain_typed: "set_plain F t s = Inr v \<Longrightarrow> has_type v t"
  by (auto simp: set_plain_def Let_def parse_uint_bound
      split: gotype.splits option.splits if_splits dest: parse_int_bounds parse_duration_bounds)

lemma setScalar_typed:
  assumes "has_type v t" and "setScalar F t s v = (e, v')"
  shows "has_type v' t"
proof (cases "\<exists>u. t = T_Pointer u")
  case True
  then obtain u where t: "t = T_Pointer u" by blast
  then show ?thesis
    using assms
    by (auto simp: setScalar_def Let_def zero_value_typed set_plain_typed split: if_splits sum.splits goval.splits)
next
  case False
  then have "setScalar F t s v = (case set_plain F t s of Inl err \<Rightarrow> (Some err, v) | Inr x \<Rightarrow> (None, x))"
    by (cases t) (simp_all add: setScalar_def)
  then show ?thesis
    using assms by (auto simp: set_plain_typed split: sum.splits)
qed

lemma set_elements_typed: "set_elements F t ss = Inr xs \<Longrightarrow> x \<in> set xs \<Longrightarrow> has_type x t"
proof (induction F t ss arbitrary: xs rule: set_elements.induct)
  case (2 F t s ss)
  then show ?case
    by (auto split: prod.splits option.splits sum.splits dest: setScalar_typed [OF zero_value_typed])
qed simp

lemma setField_typed:
  assumes "has_type v t" and "setField F t vals v = (e, v')"
  shows "has_type v' t"
proof -
  consider "v' = v" | s where "setScalar F t s v = (e, v')"
    | u xs where "t = T_Slice u" "set_elements F u vals = Inr xs" "v' = V_Slice xs"
    using assms(2) by (auto simp: setField_def split: list.splits gotype.splits if_splits sum.splits)
  then show ?thesis
    by cases (use assms(1) setScalar_typed [OF assms(1)] set_elements_typed in auto)
qed

section \<open>Exactly the submitted fields\<close>

text \<open>What a field holds after a successful bind.\<close>

definition bound_to :: "'f floats \<Rightarrow> (string, string list) fmap \<Rightarrow> sfield \<Rightarrow> 'f goval \<Rightarrow> 'f goval \<Rightarrow> bool" where
  "bound_to F form f v v' =
     (if \<not> sf_Exported f \<or> fieldName f = ''-'' then v' = v
      else case fmlookup form (fieldName f) of
        None \<Rightarrow> v' = v | Some vals \<Rightarrow> setField F (sf_Type f) vals v = (None, v'))"

lemma bind_fields_fields: "bind_fields F form dst = (e, dst') \<Longrightarrow> map fst dst' = map fst dst"
  by (induction F form dst arbitrary: e dst' rule: bind_fields.induct)
     (auto split: if_splits option.splits prod.splits)

lemma bind_fields_typed:
  "bind_fields F form dst = (e, dst') \<Longrightarrow> \<forall>(f, v) \<in> set dst. has_type v (sf_Type f) \<Longrightarrow>
   \<forall>(f, v) \<in> set dst'. has_type v (sf_Type f)"
proof (induction F form dst arbitrary: e dst' rule: bind_fields.induct)
  case (2 F form f v fs)
  then show ?case
    by (fastforce split: if_splits option.splits prod.splits dest: setField_typed)
qed simp

abbreviation bound_fields where
  "bound_fields F form \<equiv> list_all2 (\<lambda>(f, v) (f', v'). f' = f \<and> bound_to F form f v v')"

lemma bind_fields_exact: "bind_fields F form dst = (None, dst') \<longleftrightarrow> bound_fields F form dst dst'"
proof (induction dst arbitrary: dst')
  case (Cons fv fs)
  obtain f v where fv: "fv = (f, v)" by fastforce
  obtain e fs' where rest: "bind_fields F form fs = (e, fs')" by fastforce
  show ?case
  proof (cases "\<not> sf_Exported f \<or> fieldName f = ''-'' \<or> fmlookup form (fieldName f) = None")
    case True
    then have "bind_fields F form (fv # fs) = (e, (f, v) # fs')" using rest by (auto simp: fv)
    moreover have "bound_to F form f v v' \<longleftrightarrow> v' = v" for v' using True by (auto simp: bound_to_def)
    ultimately show ?thesis using Cons rest by (cases dst') (auto simp: fv)
  next
    case False
    then obtain vals where vals: "fmlookup form (fieldName f) = Some vals" "sf_Exported f" "fieldName f \<noteq> ''-''" by auto
    obtain er v1 where sf: "setField F (sf_Type f) vals v = (er, v1)" by fastforce
    have "bind_fields F form (fv # fs) =
        (case er of Some err \<Rightarrow> (Some (Err_Field (fieldName f) err), (f, v1) # fs) | None \<Rightarrow> (e, (f, v1) # fs'))"
      using vals sf rest by (simp add: fv split: option.split)
    moreover have "bound_to F form f v v' \<longleftrightarrow> er = None \<and> v' = v1" for v' using vals sf by (auto simp: bound_to_def)
    ultimately show ?thesis using Cons rest by (cases dst'; cases er) (auto simp: fv)
  qed
qed auto

section \<open>Texts of values\<close>

definition plain_type :: "gotype \<Rightarrow> bool" where
  "plain_type t = (case t of T_String \<Rightarrow> True | T_Bool \<Rightarrow> True | T_Int _ \<Rightarrow> True | T_Uint _ \<Rightarrow> True | _ \<Rightarrow> False)"

text \<open>How a form carries a value of a plain type.\<close>

definition value_text :: "'f goval \<Rightarrow> string" where
  "value_text v =
     (case v of V_String s \<Rightarrow> s | V_Bool b \<Rightarrow> format_bool b | V_Int i \<Rightarrow> format_int i | V_Uint n \<Rightarrow> format_nat n | _ \<Rightarrow> [])"

lemma lower_format_bool: "to_lower (format_bool b) = format_bool b"
  by (simp add: format_bool_def to_lower_def lower_char_def is_upper_def char_between_def)

lemma set_plain_text:
  assumes "plain_type t" and "has_type v t"
  shows "set_plain F t (value_text v) = Inr v"
proof (cases t)
  case T_Bool
  then obtain b where "v = V_Bool b" using assms(2) by (cases v) auto
  then show ?thesis
    using T_Bool lower_format_bool [of b]
    by (cases b) (auto simp: set_plain_def value_text_def Let_def format_bool_def parse_bool_def)
next
  case (T_Int bits)
  then obtain i where "v = V_Int i" "- (2 ^ (bits - 1)) \<le> i" "i < 2 ^ (bits - 1)" using assms(2) by (cases v) auto
  then show ?thesis using T_Int by (simp add: set_plain_def value_text_def parse_int_format_int)
next
  case (T_Uint bits)
  then obtain n where "v = V_Uint n" "n < 2 ^ bits" using assms(2) by (cases v) auto
  then show ?thesis using T_Uint by (simp add: set_plain_def value_text_def parse_uint_format_nat)
qed (use assms in \<open>auto simp: plain_type_def set_plain_def value_text_def split: goval.splits\<close>)

lemma setScalar_text:
  assumes "plain_type t" and "has_type v t"
  shows "setScalar F t (value_text v) w = (None, v)"
  using assms set_plain_text [OF assms, where F = F]
  by (cases t) (simp_all add: setScalar_def plain_type_def)

lemma set_elements_text:
  "plain_type t \<Longrightarrow> \<forall>x \<in> set xs. has_type x t \<Longrightarrow> set_elements F t (map value_text xs) = Inr xs"
  by (induction xs) (auto simp: setScalar_text)

section \<open>The bag\<close>

lemma bag_messages_Add:
  "bag_messages (bag_Add field m b) n = (if n = field then bag_messages b n @ [m] else bag_messages b n)"
  by (simp add: bag_messages_def bag_Add_def)

lemma bag_fold:
  "bag_messages (foldl (\<lambda>bag fe. bag_Add (fe_Field fe) (message fe) bag) b fes) n
     = bag_messages b n @ map message (filter (\<lambda>fe. fe_Field fe = n) fes)"
  by (induction fes arbitrary: b) (simp_all add: bag_messages_Add)

lemma bag_fold_dom:
  "fset (fmdom (foldl (\<lambda>bag fe. bag_Add (fe_Field fe) (message fe) bag) b fes)) = fset (fmdom b) \<union> fe_Field ` set fes"
  by (induction fes arbitrary: b) (auto simp: bag_Add_def)

lemma bag_Any_dom: "bag_Any b \<longleftrightarrow> fset (fmdom b) \<noteq> {}"
  by (metis bag_Any_def bot_fset.rep_eq fmdom_empty fmrestrict_fset_dom fmrestrict_fset_null fset_inject)

section \<open>Properties\<close>


definition exact_floats :: "rat floats" where
  "exact_floats = \<lparr>fl_round = id, fl_zero = 0, fl_parse = (\<lambda>_ _. None)\<rparr>"

definition age_field :: sfield where
  "age_field = \<lparr>sf_Name = ''Age'', sf_Exported = True, sf_form = ''age'', sf_json = [], sf_Type = T_Int 8\<rparr>"

definition tags_field :: sfield where
  "tags_field = \<lparr>sf_Name = ''Tags'', sf_Exported = True, sf_form = [], sf_json = ''tags,omitempty'', sf_Type = T_Slice T_String\<rparr>"

definition sample_struct :: "(sfield \<times> rat goval) list" where
  "sample_struct = [(tags_field, V_Nil), (age_field, V_Int 7)]"

definition sample_form :: "(string, string list) fmap" where
  "sample_form = fmap_of_list [(''age'', [''300'']), (''tags'', [''a'', ''b''])]"

lemma sample_form_lookup: "fmlookup sample_form ''age'' = Some [''300'']" "fmlookup sample_form ''tags'' = Some [''a'', ''b'']"
  by (simp_all add: sample_form_def)

lemma sample_names: "fieldName age_field = ''age''" "fieldName tags_field = ''tags''"
  by code_simp+

lemma sample_fields:
  "sf_Exported age_field" "sf_Type age_field = T_Int 8" "sf_Exported tags_field" "sf_Type tags_field = T_Slice T_String"
  by (simp_all add: age_field_def tags_field_def)

lemma parse_300: "parse_int ''300'' 8 = None"
  by code_simp


text \<open>A successful bind sets exactly the submitted fields.  The bind succeeds with a struct if and
  only if each field that is exported, not excluded and submitted holds the conversion of the
  submitted values and every other field is as it was; in particular a bind that fails has met a
  field that does not convert, and the values of a plain type survive the way through a form, alone,
  behind a pointer, and as a list.\<close>

theorem bind_form_exact:
  "(bindForm F (Form_Values form) dst = (None, dst') \<longleftrightarrow> bound_fields F form dst dst')
   \<and> (plain_type t \<and> has_type v t \<longrightarrow> setField F t [value_text v] w = (None, v)
        \<and> (value_text v \<noteq> [] \<longrightarrow> setField F (T_Pointer t) [value_text v] w = (None, V_Pointer v)))
   \<and> (plain_type t \<and> t \<noteq> T_Uint 8 \<and> xs \<noteq> [] \<and> (\<forall>x \<in> set xs. has_type x t) \<longrightarrow>
        setField F (T_Slice t) (map value_text xs) w = (None, V_Slice xs))"
proof (intro conjI impI)
  show "bindForm F (Form_Values form) dst = (None, dst') \<longleftrightarrow> bound_fields F form dst dst'"
    by (simp add: bindForm_def bind_fields_exact)
next
  assume v: "plain_type t \<and> has_type v t"
  then show "setField F t [value_text v] w = (None, v)"
    using setScalar_text [of t v F w] by (cases t) (auto simp: setField_def plain_type_def)
  assume "value_text v \<noteq> []"
  then show "setField F (T_Pointer t) [value_text v] w = (None, V_Pointer v)"
    using v set_plain_text [of t v F] by (simp add: setField_def setScalar_def)
next
  assume "plain_type t \<and> t \<noteq> T_Uint 8 \<and> xs \<noteq> [] \<and> (\<forall>x \<in> set xs. has_type x t)"
  then show "setField F (T_Slice t) (map value_text xs) w = (None, V_Slice xs)"
    using set_elements_text [of t xs F] by (cases xs) (auto simp: setField_def)
qed

theorem bind_form_exact_witness:
  "setField exact_floats (T_Slice (T_Int 16)) [format_int (- 5), format_int 300] V_Nil = (None, V_Slice [V_Int (- 5), V_Int 300])"
  using bind_form_exact [where t = "T_Int 16" and xs = "[V_Int (- 5), V_Int 300]" and F = exact_floats and w = V_Nil]
  by (simp add: plain_type_def value_text_def)

text \<open>The bag shows each failed field its own messages.  After a check the messages under a name
  are those of the failures the validator reported under that name, in their order; the bag is empty
  exactly when nothing failed; its fields are the failed ones in ascending order, and the list of all
  messages and the error text follow them.  A request that could not be bound gives an empty bag and
  the error, and is not checked.\<close>

theorem check_bag_exact:
  assumes "validator dst' = Field_Errors fes" and "bind dst = (e, dst')"
  shows "case BindAndCheck bind validator dst of
      (Inr (bag, err), out) \<Rightarrow> out = dst' \<and> err = e
        \<and> (e = None \<longrightarrow> (\<forall>n. bag_messages bag n = map message (filter (\<lambda>fe. fe_Field fe = n) fes)
              \<and> bag_First bag n = (case filter (\<lambda>fe. fe_Field fe = n) fes of [] \<Rightarrow> [] | fe # _ \<Rightarrow> message fe))
            \<and> (bag_Any bag \<longleftrightarrow> fes \<noteq> [])
            \<and> set (bag_Fields bag) = fe_Field ` set fes \<and> sorted (bag_Fields bag) \<and> distinct (bag_Fields bag))
        \<and> (e \<noteq> None \<longrightarrow> \<not> bag_Any bag)
    | (Inl p, out) \<Rightarrow> False"
proof (cases e)
  case None
  define bag where "bag = foldl (\<lambda>bag fe. bag_Add (fe_Field fe) (message fe) bag) fmempty fes"
  have run: "BindAndCheck bind validator dst = (Inr (bag, None), dst')"
    using assms None by (simp add: BindAndCheck_def validate_Check_def bag_def)
  have msgs: "bag_messages bag n = map message (filter (\<lambda>fe. fe_Field fe = n) fes)" for n
    by (simp add: bag_def bag_fold) (simp add: bag_messages_def)
  have dom: "fset (fmdom bag) = fe_Field ` set fes" by (simp add: bag_def bag_fold_dom)
  have "bag_First bag n = (case filter (\<lambda>fe. fe_Field fe = n) fes of [] \<Rightarrow> [] | fe # _ \<Rightarrow> message fe)" for n
    by (simp add: bag_First_def msgs split: list.split)
  moreover have "set (bag_Fields bag) = fe_Field ` set fes" "sorted (bag_Fields bag)" "distinct (bag_Fields bag)"
    using dom by (simp_all add: bag_Fields_def sorted_list_of_fset.rep_eq)
  moreover have "bag_Any bag \<longleftrightarrow> fes \<noteq> []" using dom by (simp add: bag_Any_dom)
  ultimately show ?thesis using None by (simp add: run msgs)
next
  case (Some x)
  then show ?thesis using assms by (simp add: BindAndCheck_def bag_Any_def)
qed

definition email_error :: FieldError where
  "email_error = \<lparr>fe_Field = ''email'', fe_Tag = ''email'', fe_Param = [], fe_String = True\<rparr>"

theorem check_bag_exact_witness:
  "\<exists>bag. BindAndCheck (\<lambda>d. (None, d)) (\<lambda>_. Field_Errors [email_error]) (Pointer_To_Struct ()) = (Inr (bag, None), Pointer_To_Struct ())
     \<and> bag_messages bag ''email'' = [''Enter a valid email address.''] \<and> bag_Any bag"
proof -
  have m: "message email_error = ''Enter a valid email address.''"
    by (simp add: message_def email_error_def Let_def)
  have "case BindAndCheck (\<lambda>d. (None, d)) (\<lambda>_. Field_Errors [email_error]) (Pointer_To_Struct ()) of
      (Inr (bag, err), out) \<Rightarrow> out = Pointer_To_Struct () \<and> err = None
        \<and> bag_messages bag ''email'' = map message (filter (\<lambda>fe. fe_Field fe = ''email'') [email_error]) \<and> bag_Any bag
    | (Inl p, out) \<Rightarrow> False"
    using check_bag_exact [where validator = "\<lambda>_. Field_Errors [email_error]" and bind = "\<lambda>d. (None, d)"
        and dst = "Pointer_To_Struct ()" and e = None, OF refl refl]
    by (auto split: prod.splits sum.splits)
  then show ?thesis by (auto simp: m split: prod.splits sum.splits) (simp add: email_error_def m [unfolded email_error_def])
qed

end
