(* ===== verification/Watcher.thy ===== *)
theory Watcher
  imports Prelude
begin

text \<open>
  The development watcher of the command line, \<^verbatim>\<open>cmd/ry/internal/watcher/watcher.go\<close>: which
  events matter, which directories are watched, the debounced rebuild and the supervised process.

  Paths are slash-separated.  Events and directories lie below the project root, where
  \<^verbatim>\<open>filepath.Rel\<close> removes the root and a slash.  The file system is a tree, and the steps of the
  loop in \<^verbatim>\<open>Run\<close> are a relation: an event, a watch error, the timer, the exit of the child and the
  end of the context.  What the tools and the operating system answer is an argument of each step.
  The terminal output is left out.
\<close>

section \<open>Paths\<close>

definition slash :: char where "slash = CHR ''/''"

definition rel_path :: "string \<Rightarrow> string \<Rightarrow> string option" where
  "rel_path root path = (if path = root then Some ''.'' else cut_prefix path (root @ [slash]))"

text \<open>\<^verbatim>\<open>filepath.Base\<close> of a path without a trailing slash, and \<^verbatim>\<open>filepath.Ext\<close>: from the last dot of
  the last element on.\<close>

definition path_base :: "string \<Rightarrow> string" where
  "path_base p = last (split_on slash p)"

definition path_ext :: "string \<Rightarrow> string" where
  "path_ext p =
     (let b = path_base p
      in if CHR ''.'' \<notin> set b then [] else CHR ''.'' # rev (takeWhile (\<lambda>c. c \<noteq> CHR ''.'') (rev b)))"

definition trim_slashes :: "string \<Rightarrow> string" where
  "trim_slashes s = rev (dropWhile (\<lambda>c. c = slash) (rev (dropWhile (\<lambda>c. c = slash) s)))"

section \<open>What matters\<close>

definition watchedExtensions :: "string set" where
  "watchedExtensions = {''.go'', ''.templ'', ''.env'', ''.yaml'', ''.yml''}"

definition defaultIgnores :: "string list" where
  "defaultIgnores = [''.git'', ''node_modules'', ''storage'', ''dist'', ''vendor'', ''tmp'']"

definition hasSegment :: "string \<Rightarrow> string \<Rightarrow> bool" where
  "hasSegment rel name = (name \<in> set (split_on slash rel))"

text \<open>One entry of the ignore list.\<close>

definition ignore_matches :: "string \<Rightarrow> string \<Rightarrow> bool" where
  "ignore_matches rel entry =
     (let ig = trim_slashes entry in
      if ig = [] then False
      else if slash \<notin> set ig then hasSegment rel ig
      else rel = ig \<or> has_prefix rel (ig @ [slash]))"

definition ignored :: "string \<Rightarrow> string \<Rightarrow> string list \<Rightarrow> bool" where
  "ignored root path ignores =
     (case rel_path root path of
        None \<Rightarrow> False
      | Some rel \<Rightarrow>
          list_ex (ignore_matches rel) ignores
          \<or> list_ex (\<lambda>part. length part > 1 \<and> has_prefix part ''.'') (split_on slash rel))"

text \<open>\<^verbatim>\<open>relTrigger\<close>: what is printed as the cause of a rebuild.\<close>

definition relTrigger :: "string \<Rightarrow> string \<Rightarrow> string" where
  "relTrigger root path =
     (if path = [] then []
      else case rel_path root path of
        None \<Rightarrow> path_base path
      | Some rel \<Rightarrow> if has_prefix rel ''..'' then path_base path else rel)"

datatype fs_op = Create | Write | Remove | Rename | Chmod

record fs_event =
  ev_Name :: string
  ev_Op :: "fs_op set"

definition relevant :: "string \<Rightarrow> fs_event \<Rightarrow> string list \<Rightarrow> bool" where
  "relevant root event ignores =
     (let name = path_base (ev_Name event) in
      if ev_Op event = {Chmod} then False
      else if has_suffix name ''_templ.go'' \<or> has_suffix name ''_templ.txt'' then False
      else if has_suffix name ''~'' \<or> has_prefix name ''.#'' then False
      else if ignored root (ev_Name event) ignores then False
      else to_lower (path_ext name) \<in> watchedExtensions)"

section \<open>Walking the tree\<close>

text \<open>A directory that cannot be read is visited and its entries are not.\<close>

datatype node = File string | Dir string "node list" | Unreadable string

datatype add_outcome = Added | Gone | Failed

text \<open>\<^verbatim>\<open>addDirs\<close>: the directories handed to the watcher and whether it stopped with an error.\<close>

fun add_node :: "(string \<Rightarrow> add_outcome) \<Rightarrow> string \<Rightarrow> string list \<Rightarrow> string \<Rightarrow> node \<Rightarrow> bool \<times> string list"
and add_nodes :: "(string \<Rightarrow> add_outcome) \<Rightarrow> string \<Rightarrow> string list \<Rightarrow> string \<Rightarrow> node list \<Rightarrow> bool \<times> string list" where
  "add_node add root ignores path (File n) = (True, [])"
| "add_node add root ignores path (Unreadable n) =
     (if path \<noteq> root \<and> ignored root path ignores then (True, [])
      else case add path of Failed \<Rightarrow> (False, []) | Gone \<Rightarrow> (True, []) | Added \<Rightarrow> (True, [path]))"
| "add_node add root ignores path (Dir n children) =
     (if path \<noteq> root \<and> ignored root path ignores then (True, [])
      else case add path of
        Failed \<Rightarrow> (False, [])
      | Gone \<Rightarrow> add_nodes add root ignores path children
      | Added \<Rightarrow> (case add_nodes add root ignores path children of (ok, ws) \<Rightarrow> (ok, path # ws)))"
| "add_nodes add root ignores path [] = (True, [])"
| "add_nodes add root ignores path (c # cs) =
     (case add_node add root ignores (path @ slash # (case c of File n \<Rightarrow> n | Dir n _ \<Rightarrow> n | Unreadable n \<Rightarrow> n)) c of
        (False, ws) \<Rightarrow> (False, ws)
      | (True, ws) \<Rightarrow> (case add_nodes add root ignores path cs of (ok, ws') \<Rightarrow> (ok, ws @ ws')))"

definition addDirs :: "(string \<Rightarrow> add_outcome) \<Rightarrow> string \<Rightarrow> node \<Rightarrow> string list \<Rightarrow> bool \<times> string list" where
  "addDirs add root tree ignores = add_node add root ignores root tree"

text \<open>\<^verbatim>\<open>countWatched\<close>.\<close>

fun count_node :: "string \<Rightarrow> string list \<Rightarrow> string \<Rightarrow> node \<Rightarrow> nat"
and count_nodes :: "string \<Rightarrow> string list \<Rightarrow> string \<Rightarrow> node list \<Rightarrow> nat" where
  "count_node root ignores path (File n) =
     (if has_suffix n ''_templ.go'' then 0 else if to_lower (path_ext n) \<in> watchedExtensions then 1 else 0)"
| "count_node root ignores path (Unreadable n) = 0"
| "count_node root ignores path (Dir n children) =
     (if path \<noteq> root \<and> ignored root path ignores then 0 else count_nodes root ignores path children)"
| "count_nodes root ignores path [] = 0"
| "count_nodes root ignores path (c # cs) =
     count_node root ignores (path @ slash # (case c of File n \<Rightarrow> n | Dir n _ \<Rightarrow> n | Unreadable n \<Rightarrow> n)) c
     + count_nodes root ignores path cs"

definition countWatched :: "string \<Rightarrow> node \<Rightarrow> string list \<Rightarrow> nat" where
  "countWatched root tree ignores = count_node root ignores root tree"

section \<open>The loop\<close>

record watch_config =
  wc_Root :: string
  wc_Ignore :: "string list"
  wc_Debounce :: duration

text \<open>\<^verbatim>\<open>Run\<close> replaces a debounce that is not positive, and puts the built-in ignores first.\<close>

definition watch_debounce :: "watch_config \<Rightarrow> duration" where
  "watch_debounce c = (if wc_Debounce c \<le> 0 then 300 * Millisecond else wc_Debounce c)"

definition watch_ignores :: "watch_config \<Rightarrow> string list" where
  "watch_ignores c = defaultIgnores @ wc_Ignore c"

text \<open>The answers during one rebuild: whether the old process can be terminated, and whether the
  templates, the build and the start succeed.\<close>

record rebuild_env =
  re_terminates :: bool
  re_templ :: bool
  re_build :: bool
  re_start :: bool

text \<open>The variables of \<^verbatim>\<open>Run\<close> and of its process; the children that are alive, each known by the number
  of the build it runs; and the history of the relevant events and of the rebuilds.\<close>

record watch_state =
  ws_pending :: bool
  ws_trigger :: string
  ws_timer :: "time option"
  ws_watched :: "string list"
  ws_cmd :: "nat option"
  ws_live :: "nat list"
  ws_builds :: nat
  ws_events :: "(time \<times> string) list"
  ws_rebuilds :: "(time \<times> string) list"
  ws_returned :: bool

definition process_stop :: "bool \<Rightarrow> watch_state \<Rightarrow> watch_state" where
  "process_stop terminates s =
     (case ws_cmd s of
        None \<Rightarrow> s
      | Some p \<Rightarrow> s\<lparr>ws_live := (if terminates then filter (\<lambda>q. q \<noteq> p) (ws_live s) else ws_live s), ws_cmd := None\<rparr>)"

definition process_start :: "bool \<Rightarrow> watch_state \<Rightarrow> watch_state" where
  "process_start ok s =
     (if ok then s\<lparr>ws_cmd := Some (ws_builds s), ws_live := ws_live s @ [ws_builds s]\<rparr> else s)"

definition rebuild :: "rebuild_env \<Rightarrow> time \<Rightarrow> string \<Rightarrow> watch_state \<Rightarrow> watch_state" where
  "rebuild env now trigger s =
     (let s1 = (process_stop (re_terminates env) s)\<lparr>ws_rebuilds := ws_rebuilds s @ [(now, trigger)]\<rparr> in
      if \<not> re_templ env then s1
      else if \<not> re_build env then s1
      else process_start (re_start env) (s1\<lparr>ws_builds := ws_builds s1 + 1\<rparr>))"

text \<open>The state in which the loop starts: the directories are watched and the first build was made.\<close>

definition watch_start :: "rebuild_env \<Rightarrow> time \<Rightarrow> string list \<Rightarrow> watch_state" where
  "watch_start env now watched =
     rebuild env now [] \<lparr>ws_pending = False, ws_trigger = [], ws_timer = None, ws_watched = watched, ws_cmd = None,
       ws_live = [], ws_builds = 0, ws_events = [], ws_rebuilds = [], ws_returned = False\<rparr>"

text \<open>An event; \<open>found\<close> is the directory that \<^verbatim>\<open>os.Stat\<close> finds under its name, if any.\<close>

definition watch_event ::
  "watch_config \<Rightarrow> (string \<Rightarrow> add_outcome) \<Rightarrow> node option \<Rightarrow> time \<Rightarrow> fs_event \<Rightarrow> watch_state \<Rightarrow> watch_state" where
  "watch_event c add found now ev s =
     (if \<not> relevant (wc_Root c) ev (watch_ignores c) then s
      else let dirs = (case found of
                         None \<Rightarrow> []
                       | Some tree \<Rightarrow> if Create \<in> ev_Op ev then snd (addDirs add (ev_Name ev) tree (watch_ignores c)) else [])
           in s\<lparr>ws_watched := ws_watched s @ dirs,
                ws_pending := True,
                ws_trigger := relTrigger (wc_Root c) (ev_Name ev),
                ws_timer := Some (now + watch_debounce c),
                ws_events := ws_events s @ [(now, ev_Name ev)]\<rparr>)"

definition watch_timer :: "rebuild_env \<Rightarrow> time \<Rightarrow> watch_state \<Rightarrow> watch_state" where
  "watch_timer env now s =
     (if \<not> ws_pending s then s\<lparr>ws_timer := None\<rparr>
      else rebuild env now (ws_trigger s) (s\<lparr>ws_pending := False, ws_timer := None\<rparr>))"

text \<open>Events are seen for entries of watched directories, and the timer once its time has come.
  \<open>ok\<close> says which answers of the tools and the operating system are possible.\<close>

inductive watch_step :: "watch_config \<Rightarrow> (rebuild_env \<Rightarrow> bool) \<Rightarrow> time \<Rightarrow> watch_state \<Rightarrow> watch_state \<Rightarrow> bool" for c ok now where
  Event: "\<not> ws_returned s \<Longrightarrow> ev_Name ev = d @ slash # n \<Longrightarrow> d \<in> set (ws_watched s) \<Longrightarrow>
     watch_step c ok now s (watch_event c add found now ev s)"
| Watch_Error: "\<not> ws_returned s \<Longrightarrow> watch_step c ok now s s"
| Timer: "\<not> ws_returned s \<Longrightarrow> ws_timer s = Some t \<Longrightarrow> t \<le> now \<Longrightarrow> ok env \<Longrightarrow> watch_step c ok now s (watch_timer env now s)"
| Exit: "p \<in> set (ws_live s) \<Longrightarrow> watch_step c ok now s (s\<lparr>ws_live := filter (\<lambda>q. q \<noteq> p) (ws_live s)\<rparr>)"
| Cancel: "\<not> ws_returned s \<Longrightarrow> ok env \<Longrightarrow>
     watch_step c ok now s ((process_stop (re_terminates env) s)\<lparr>ws_returned := True\<rparr>)"

inductive_cases watch_stepE: "watch_step c ok now s s'"

text \<open>Runs of the loop: the steps with their times, which do not decrease.\<close>

inductive watch_run ::
  "watch_config \<Rightarrow> (rebuild_env \<Rightarrow> bool) \<Rightarrow> time \<Rightarrow> watch_state \<Rightarrow> time \<Rightarrow> watch_state \<Rightarrow> bool" for c ok t0 s0 where
  Start: "watch_run c ok t0 s0 t0 s0"
| Step: "watch_run c ok t0 s0 now s \<Longrightarrow> now \<le> now' \<Longrightarrow> watch_step c ok now' s s' \<Longrightarrow> watch_run c ok t0 s0 now' s'"

end
