(* ===== verification/WatcherProps.thy ===== *)
theory WatcherProps
  imports Watcher
begin

text \<open>
  What the watcher promises: a rebuild comes after a quiet period and no event is lost, one server
  runs at a time, every source file that is there at the start is watched; and two blind spots.
\<close>

section \<open>Debouncing\<close>

text \<open>While a rebuild is pending, the timer is set to the last event plus the quiet period and the
  trigger names that event.  A rebuild has no event in the quiet period before it, and an event
  before that which it names.\<close>

definition waiting :: "watch_config \<Rightarrow> watch_state \<Rightarrow> bool" where
  "waiting c s =
     (ws_events s \<noteq> [] \<and> ws_timer s = Some (fst (last (ws_events s)) + watch_debounce c)
      \<and> ws_trigger s = relTrigger (wc_Root c) (snd (last (ws_events s)))
      \<and> (\<forall>x \<in> set (ws_events s). fst x \<le> fst (last (ws_events s))))"

definition quiet_before :: "watch_config \<Rightarrow> (time \<times> string) list \<Rightarrow> time \<times> string \<Rightarrow> bool" where
  "quiet_before c evs r =
     ((\<forall>x \<in> set evs. fst x + watch_debounce c \<le> fst r \<or> fst r \<le> fst x)
      \<and> (\<exists>x \<in> set evs. fst x + watch_debounce c \<le> fst r \<and> snd r = relTrigger (wc_Root c) (snd x)))"

definition served :: "watch_config \<Rightarrow> (time \<times> string) list \<Rightarrow> time \<times> string \<Rightarrow> bool" where
  "served c rebuilds x = (\<exists>r \<in> set rebuilds. fst x + watch_debounce c \<le> fst r)"

definition debounced :: "watch_config \<Rightarrow> time \<Rightarrow> watch_state \<Rightarrow> bool" where
  "debounced c now s =
     ((\<forall>x \<in> set (ws_events s). fst x \<le> now) \<and> (\<forall>r \<in> set (ws_rebuilds s). fst r \<le> now)
      \<and> ws_rebuilds s \<noteq> []
      \<and> (if ws_pending s then waiting c s else ws_timer s = None)
      \<and> (\<forall>r \<in> set (tl (ws_rebuilds s)). quiet_before c (ws_events s) r)
      \<and> (\<forall>x \<in> set (ws_events s). ws_pending s \<or> served c (ws_rebuilds s) x)
      \<and> length (ws_rebuilds s) + (if ws_pending s then 1 else 0) \<le> length (ws_events s) + 1)"

lemma watch_debounce_pos: "0 < watch_debounce c"
  by (simp add: watch_debounce_def Millisecond_def)

lemma process_stop_simps [simp]:
  "ws_pending (process_stop b s) = ws_pending s" "ws_trigger (process_stop b s) = ws_trigger s"
  "ws_timer (process_stop b s) = ws_timer s" "ws_events (process_stop b s) = ws_events s"
  "ws_rebuilds (process_stop b s) = ws_rebuilds s" "ws_watched (process_stop b s) = ws_watched s"
  "ws_builds (process_stop b s) = ws_builds s" "ws_returned (process_stop b s) = ws_returned s"
  by (simp_all add: process_stop_def split: option.split)

lemma rebuild_simps [simp]:
  "ws_pending (rebuild env now tr s) = ws_pending s" "ws_trigger (rebuild env now tr s) = ws_trigger s"
  "ws_timer (rebuild env now tr s) = ws_timer s" "ws_events (rebuild env now tr s) = ws_events s"
  "ws_rebuilds (rebuild env now tr s) = ws_rebuilds s @ [(now, tr)]" "ws_watched (rebuild env now tr s) = ws_watched s"
  "ws_returned (rebuild env now tr s) = ws_returned s"
  by (simp_all add: rebuild_def process_start_def Let_def)

lemma debounced_start: "debounced c t0 (watch_start env t0 ws)"
  by (simp add: debounced_def watch_start_def)

lemma debounced_later: "debounced c now s \<Longrightarrow> now \<le> now' \<Longrightarrow> debounced c now' s"
  by (auto simp: debounced_def intro: order_trans)

lemma quiet_before_snoc: "quiet_before c evs r \<Longrightarrow> fst r \<le> fst x \<Longrightarrow> quiet_before c (evs @ [x]) r"
  by (auto simp: quiet_before_def)

lemma debounced_event:
  assumes "debounced c now s"
  shows "debounced c now (watch_event c add found now ev s)"
proof (cases "relevant (wc_Root c) ev (watch_ignores c)")
  case True
  define s' where "s' = watch_event c add found now ev s"
  have sim: "ws_pending s'" "ws_timer s' = Some (now + watch_debounce c)" "ws_events s' = ws_events s @ [(now, ev_Name ev)]"
    "ws_rebuilds s' = ws_rebuilds s" "ws_trigger s' = relTrigger (wc_Root c) (ev_Name ev)"
    using True by (simp_all add: s'_def watch_event_def Let_def)
  have "waiting c s'" using assms by (simp add: waiting_def sim debounced_def)
  moreover have "quiet_before c (ws_events s') r" if "r \<in> set (tl (ws_rebuilds s'))" for r
    unfolding sim using that assms
    by (intro quiet_before_snoc) (auto simp: sim debounced_def dest: list.set_sel(2) [rotated])
  ultimately show ?thesis
    using assms by (simp add: debounced_def sim s'_def [symmetric])
qed (use assms in \<open>simp add: watch_event_def\<close>)

lemma debounced_timer:
  assumes "debounced c now s" and "ws_timer s = Some t" and "t \<le> now"
  shows "debounced c now (watch_timer env now s)"
proof (cases "ws_pending s")
  case True
  define s' where "s' = watch_timer env now s"
  let ?r = "(now, ws_trigger s)"
  have sim: "\<not> ws_pending s'" "ws_timer s' = None" "ws_events s' = ws_events s" "ws_rebuilds s' = ws_rebuilds s @ [?r]"
    using True by (simp_all add: s'_def watch_timer_def)
  have w: "waiting c s" and ne: "ws_rebuilds s \<noteq> []" using assms(1) True by (simp_all add: debounced_def)
  have quiet: "fst x + watch_debounce c \<le> now" if "x \<in> set (ws_events s)" for x
    using w that assms(2,3) by (fastforce simp: waiting_def)
  have "quiet_before c (ws_events s) ?r"
    unfolding quiet_before_def fst_conv snd_conv
    using w quiet last_in_set [of "ws_events s"] by (auto simp: waiting_def)
  moreover have "served c (ws_rebuilds s') x" if "x \<in> set (ws_events s)" for x
    using quiet [OF that] by (simp add: served_def sim)
  moreover have "set (tl (ws_rebuilds s')) = set (tl (ws_rebuilds s)) \<union> {?r}" using ne by (simp add: sim)
  ultimately show ?thesis
    using assms(1) True by (simp add: debounced_def sim s'_def [symmetric])
next
  case False
  then show ?thesis using assms by (simp add: debounced_def)
qed

lemma debounced_cong:
  "debounced c now s \<Longrightarrow> ws_pending s' = ws_pending s \<Longrightarrow> ws_timer s' = ws_timer s \<Longrightarrow> ws_events s' = ws_events s \<Longrightarrow>
   ws_rebuilds s' = ws_rebuilds s \<Longrightarrow> ws_trigger s' = ws_trigger s \<Longrightarrow> debounced c now s'"
  by (cases "ws_pending s") (simp_all add: debounced_def waiting_def)

lemma debounced_step:
  assumes "watch_step c ok now s s'" and "debounced c now s"
  shows "debounced c now s'"
  using assms(1)
proof cases
  case (Timer t env)
  then show ?thesis using debounced_timer [OF assms(2)] by simp
next
  case (Event ev d n add found)
  then show ?thesis using debounced_event [OF assms(2)] by simp
qed (use debounced_cong [OF assms(2)] assms(2) in simp_all)

lemma debounced_run: "watch_run c ok t0 (watch_start env t0 ws) now s \<Longrightarrow> debounced c now s"
  by (induction rule: watch_run.induct)
     (auto intro: debounced_start debounced_step debounced_later)

section \<open>One server\<close>

definition one_server :: "watch_state \<Rightarrow> bool" where
  "one_server s =
     (case ws_cmd s of None \<Rightarrow> ws_live s = [] | Some p \<Rightarrow> p = ws_builds s \<and> (ws_live s = [] \<or> ws_live s = [p]))"

lemma one_server_stop: "one_server s \<Longrightarrow> ws_live (process_stop True s) = [] \<and> ws_cmd (process_stop True s) = None"
  by (auto simp: one_server_def process_stop_def split: option.splits)

lemma one_server_rebuild:
  assumes "one_server s" and "re_terminates env"
  shows "one_server (rebuild env now tr s)"
  using one_server_stop [OF assms(1)] assms(2)
  by (simp add: rebuild_def process_start_def Let_def one_server_def)

lemma one_server_cong:
  "one_server s \<Longrightarrow> ws_cmd s' = ws_cmd s \<Longrightarrow> ws_live s' = ws_live s \<Longrightarrow> ws_builds s' = ws_builds s \<Longrightarrow> one_server s'"
  by (simp add: one_server_def split: option.splits)

lemma one_server_step:
  assumes "watch_step c re_terminates now s s'" and "one_server s"
  shows "one_server s'"
  using assms(1)
proof cases
  case (Timer t env)
  have "one_server (s\<lparr>ws_pending := False, ws_timer := None\<rparr>)" by (rule one_server_cong [OF assms(2)]) simp_all
  from one_server_rebuild [OF this] one_server_cong [OF assms(2), of "s\<lparr>ws_timer := None\<rparr>"] Timer
  show ?thesis by (simp add: watch_timer_def)
next
  case (Event ev d n add found)
  then show ?thesis using one_server_cong [OF assms(2)] by (simp add: watch_event_def Let_def)
next
  case (Exit p)
  then show ?thesis using assms(2) by (auto simp: one_server_def split: option.splits)
next
  case (Cancel env)
  then show ?thesis using one_server_stop [OF assms(2)] by (simp add: one_server_def)
qed (use assms(2) in simp)

lemma one_server_run:
  "watch_run c re_terminates t0 (watch_start env t0 ws) now s \<Longrightarrow> re_terminates env \<Longrightarrow> one_server s"
proof (induction rule: watch_run.induct)
  case Start
  then show ?case unfolding watch_start_def by (intro one_server_rebuild) (simp_all add: one_server_def)
qed (auto intro: one_server_step)

section \<open>What is watched\<close>

lemma split_on_append_slash: "split_on c (s @ c # t) = split_on c s @ split_on c t"
  by (induction s) (auto split: list.splits)

lemma ignore_matches_below:
  "ignore_matches rel ig \<Longrightarrow> ignore_matches (rel @ slash # n) ig"
proof -
  have "has_prefix rel (p @ [slash]) \<Longrightarrow> has_prefix (rel @ slash # n) (p @ [slash])" for p
    by (metis append_assoc has_prefixE has_prefix_append)
  moreover have "has_prefix (p @ slash # n) (p @ [slash])" for p
    by (metis append_Cons append_Nil append_assoc has_prefix_append)
  ultimately show "ignore_matches rel ig \<Longrightarrow> ignore_matches (rel @ slash # n) ig"
    by (auto simp: ignore_matches_def Let_def hasSegment_def split_on_append_slash split: if_splits)
qed

lemma cut_prefix_SomeD: "cut_prefix s p = Some r \<Longrightarrow> s = p @ r"
  by (auto simp: cut_prefix_def dest: has_prefixE split: if_splits)

lemma rel_path_inside: "rel_path root (root @ slash # r) = Some r"
  using cut_prefix_append [of "root @ [slash]" r] by (simp add: rel_path_def)

lemma rel_path_below:
  assumes "rel_path root d = Some rel" and "d \<noteq> root"
  shows "rel_path root (d @ slash # n) = Some (rel @ slash # n)"
proof -
  have "d = root @ slash # rel" using assms cut_prefix_SomeD by (fastforce simp: rel_path_def split: if_splits)
  then show ?thesis using rel_path_inside [of root "rel @ slash # n"] by simp
qed

text \<open>What lies below an ignored directory is ignored.\<close>

lemma ignored_below:
  assumes "ignored root d ignores" and "d \<noteq> root"
  shows "ignored root (d @ slash # n) ignores"
proof -
  obtain rel where rel: "rel_path root d = Some rel"
      "list_ex (ignore_matches rel) ignores \<or> list_ex (\<lambda>part. length part > 1 \<and> has_prefix part ''.'') (split_on slash rel)"
    using assms(1) by (auto simp: ignored_def split: option.splits)
  show ?thesis
    unfolding ignored_def rel_path_below [OF rel(1) assms(2)]
    using rel(2) ignore_matches_below by (auto simp: list_ex_iff split_on_append_slash)
qed

text \<open>The files of a tree: the directory of each and its name.\<close>

fun tree_files :: "string \<Rightarrow> node \<Rightarrow> (string \<times> string) list"
and nodes_files :: "string \<Rightarrow> node list \<Rightarrow> (string \<times> string) list" where
  "tree_files path (File n) = []"
| "tree_files path (Unreadable n) = []"
| "tree_files path (Dir n children) = nodes_files path children"
| "nodes_files path [] = []"
| "nodes_files path (c # cs) =
     (case c of File n \<Rightarrow> [(path, n)] | Dir n _ \<Rightarrow> tree_files (path @ slash # n) c | Unreadable n \<Rightarrow> [])
     @ nodes_files path cs"

lemma files_below:
  "(d, n) \<in> set (tree_files path t) \<Longrightarrow> d = path \<or> (\<exists>r. d = path @ slash # r)"
  "(d, n) \<in> set (nodes_files path ts) \<Longrightarrow> d = path \<or> (\<exists>r. d = path @ slash # r)"
  by (induction path t and path ts rule: tree_files_nodes_files.induct)
     (auto split: node.splits)

lemma add_Added_ok:
  "fst (add_node (\<lambda>_. Added) root ignores path t)"
  "fst (add_nodes (\<lambda>_. Added) root ignores path ts)"
  by (induction "\<lambda>_ :: string. Added" root ignores path t and "\<lambda>_ :: string. Added" root ignores path ts
        rule: add_node_add_nodes.induct) (auto split: prod.splits bool.splits)

lemma add_nodes_Cons:
  "snd (add_nodes (\<lambda>_. Added) root ignores path (c # cs)) =
     snd (add_node (\<lambda>_. Added) root ignores (path @ slash # (case c of File n \<Rightarrow> n | Dir n _ \<Rightarrow> n | Unreadable n \<Rightarrow> n)) c)
     @ snd (add_nodes (\<lambda>_. Added) root ignores path cs)"
  using add_Added_ok(1) [of root ignores "path @ slash # (case c of File n \<Rightarrow> n | Dir n _ \<Rightarrow> n | Unreadable n \<Rightarrow> n)" c]
  by (auto split: prod.splits bool.splits)

definition below_ignored :: "string \<Rightarrow> string list \<Rightarrow> string \<Rightarrow> bool" where
  "below_ignored root ignores d = (\<exists>p. p \<noteq> root \<and> ignored root p ignores \<and> (d = p \<or> (\<exists>r. d = p @ slash # r)))"

lemma files_watched:
  "(d, n) \<in> set (tree_files path t) \<Longrightarrow>
     d \<in> set (snd (add_node (\<lambda>_. Added) root ignores path t)) \<or> below_ignored root ignores d"
  "(d, n) \<in> set (nodes_files path ts) \<Longrightarrow>
     d = path \<or> d \<in> set (snd (add_nodes (\<lambda>_. Added) root ignores path ts)) \<or> below_ignored root ignores d"
proof (induction path t and path ts rule: tree_files_nodes_files.induct)
  case (3 path m children)
  show ?case
  proof (cases "path \<noteq> root \<and> ignored root path ignores")
    case True
    then have "below_ignored root ignores d"
      using files_below(1) [OF "3.prems"] unfolding below_ignored_def by blast
    then show ?thesis ..
  next
    case False
    then show ?thesis using 3 by (auto split: prod.splits)
  qed
next
  case (5 path c cs)
  show ?case
  proof (cases "(d, n) \<in> set (nodes_files path cs)")
    case True
    then show ?thesis using "5.IH"(2) unfolding add_nodes_Cons by auto
  next
    case False
    then show ?thesis using 5 unfolding add_nodes_Cons by (auto split: node.splits)
  qed
qed auto

section \<open>Properties\<close>

text \<open>C28. A rebuild waits for a quiet period and no event is lost.  In every run, a rebuild after the
  first has no relevant event in the debounce period before it and is triggered by one that came
  before; every relevant event is either followed by a rebuild at least the period later or still
  pending; while one is pending the timer is set to the last event plus the period, so that the loop
  can always go on to rebuild; and a burst of events costs no more rebuilds than it has events.\<close>

theorem watch_rebuild_after_quiet:
  assumes "watch_run c ok t0 (watch_start env t0 dirs) now s"
  shows "(\<forall>r \<in> set (tl (ws_rebuilds s)). quiet_before c (ws_events s) r)
    \<and> (\<forall>x \<in> set (ws_events s). ws_pending s \<or> served c (ws_rebuilds s) x)
    \<and> (ws_pending s \<and> \<not> ws_returned s \<and> ok env' \<longrightarrow>
         (\<forall>t \<ge> fst (last (ws_events s)) + watch_debounce c.
            watch_step c ok t s (watch_timer env' t s)
            \<and> ws_rebuilds (watch_timer env' t s) =
                ws_rebuilds s @ [(t, relTrigger (wc_Root c) (snd (last (ws_events s))))]))
    \<and> length (ws_rebuilds s) \<le> length (ws_events s) + 1"
proof -
  have d: "debounced c now s" by (rule debounced_run [OF assms])
  have "watch_step c ok t s (watch_timer env' t s)
      \<and> ws_rebuilds (watch_timer env' t s) = ws_rebuilds s @ [(t, relTrigger (wc_Root c) (snd (last (ws_events s))))]"
    if "ws_pending s \<and> \<not> ws_returned s \<and> ok env'" "t \<ge> fst (last (ws_events s)) + watch_debounce c" for t
  proof -
    have "waiting c s" using d that(1) by (simp add: debounced_def)
    then show ?thesis using that watch_step.Timer [of s _ t ok env' c]
      by (simp add: waiting_def watch_timer_def)
  qed
  with d show ?thesis by (auto simp: debounced_def split: if_splits)
qed

definition sample_config :: watch_config where
  "sample_config = \<lparr>wc_Root = ''/p'', wc_Ignore = [], wc_Debounce = 0\<rparr>"

definition all_well :: rebuild_env where
  "all_well = \<lparr>re_terminates = True, re_templ = True, re_build = True, re_start = True\<rparr>"

definition edit_event :: fs_event where
  "edit_event = \<lparr>ev_Name = ''/p/a.go'', ev_Op = {Write}\<rparr>"

lemma edit_relevant: "relevant ''/p'' \<lparr>ev_Name = ''/p/a.go'', ev_Op = {Write}\<rparr> defaultIgnores"
  unfolding relevant_def by (simp add: Let_def) code_simp

lemma sample_run:
  "watch_run sample_config re_terminates 0 (watch_start all_well 0 [''/p'']) 1
     (watch_event sample_config (\<lambda>_. Added) None 1 edit_event (watch_start all_well 0 [''/p'']))"
  by (rule watch_run.Step [OF watch_run.Start], simp, rule watch_step.Event [where d = "''/p''" and n = "''a.go''"])
     (simp_all add: watch_start_def edit_event_def slash_def)

theorem watch_rebuild_after_quiet_witness:
  "\<exists>s. watch_run sample_config re_terminates 0 (watch_start all_well 0 [''/p'']) 1 s
     \<and> ws_rebuilds (watch_timer all_well (1 + 300 * Millisecond) s) = ws_rebuilds s @ [(1 + 300 * Millisecond, ''a.go'')]"
proof -
  let ?s = "watch_event sample_config (\<lambda>_. Added) None 1 edit_event (watch_start all_well 0 [''/p''])"
  have s: "ws_pending ?s" "\<not> ws_returned ?s" "last (ws_events ?s) = (1, ''/p/a.go'')"
    using edit_relevant
    by (simp_all add: watch_event_def watch_start_def sample_config_def watch_ignores_def edit_event_def Let_def)
  have "relTrigger ''/p'' ''/p/a.go'' = ''a.go''" by code_simp
  then show ?thesis
    using watch_rebuild_after_quiet [OF sample_run, of all_well] s sample_run
    by (intro exI [of _ ?s]) (simp add: all_well_def sample_config_def watch_debounce_def)
qed

lemma stopped_run:
  assumes "watch_run c re_terminates t0 (watch_start env t0 dirs) now s" and "re_terminates env"
  shows "ws_returned s \<longrightarrow> ws_live s = []"
  using assms(1)
proof (induction rule: watch_run.induct)
  case Start
  then show ?case by (simp add: watch_start_def rebuild_def process_start_def process_stop_def Let_def split: option.split)
next
  case (Step now s now' s')
  have inv: "one_server s" by (rule one_server_run [OF Step.hyps(1) assms(2)])
  show ?case using Step.hyps(3)
  proof (cases rule: watch_step.cases)
    case (Event ev d n add found)
    then show ?thesis by (simp add: watch_event_def Let_def)
  next
    case (Timer t env')
    then show ?thesis by (simp add: watch_timer_def rebuild_def process_start_def process_stop_def Let_def split: option.split)
  next
    case (Cancel env')
    then show ?thesis using one_server_stop [OF inv] by simp
  qed (use Step.IH in auto)
qed

text \<open>C29. One server at a time.  When the operating system ends the processes it is asked to end, at
  most one child is alive in every state of every run, it runs the latest successful build, and none
  is left when the loop has returned.\<close>

theorem watch_one_server:
  assumes "watch_run c re_terminates t0 (watch_start env t0 dirs) now s" and "re_terminates env"
  shows "length (ws_live s) \<le> 1 \<and> set (ws_live s) \<subseteq> {ws_builds s} \<and> (ws_returned s \<longrightarrow> ws_live s = [])"
  using one_server_run [OF assms] stopped_run [OF assms] by (auto simp: one_server_def split: option.splits)

theorem watch_one_server_witness:
  "\<exists>s. watch_run sample_config re_terminates 0 (watch_start all_well 0 [''/p'']) 1 s \<and> ws_live s = [1] \<and> set (ws_live s) \<subseteq> {ws_builds s}"
proof -
  let ?s = "watch_event sample_config (\<lambda>_. Added) None 1 edit_event (watch_start all_well 0 [''/p''])"
  have "ws_live ?s = [1]"
    by (simp add: watch_event_def Let_def watch_start_def rebuild_def process_start_def process_stop_def all_well_def)
  then show ?thesis
    using watch_one_server [OF sample_run] sample_run by (intro exI [of _ ?s]) (simp add: all_well_def)
qed

text \<open>No source file that is there at the start escapes: when an edit of a file of the tree would be
  relevant, the directory of the file is among the directories that are watched.\<close>

theorem watch_covers_sources:
  assumes "(d, n) \<in> set (tree_files root tree)"
    and "relevant root \<lparr>ev_Name = d @ slash # n, ev_Op = {Write}\<rparr> ignores"
  shows "d \<in> set (snd (addDirs (\<lambda>_. Added) root tree ignores))"
proof -
  have "\<not> ignored root (d @ slash # n) ignores"
    using assms(2) by (auto simp: relevant_def Let_def split: if_splits)
  moreover have "ignored root (d @ slash # n) ignores" if "below_ignored root ignores d"
  proof -
    obtain p where p: "p \<noteq> root" "ignored root p ignores" "d = p \<or> (\<exists>r. d = p @ slash # r)"
      using \<open>below_ignored root ignores d\<close> unfolding below_ignored_def by blast
    then show ?thesis
      using ignored_below [OF p(2,1)] by auto
  qed
  ultimately show ?thesis
    using files_watched(1) [OF assms(1), of root ignores] by (auto simp: addDirs_def)
qed

theorem watch_covers_sources_witness:
  "''/p/web'' \<in> set (snd (addDirs (\<lambda>_. Added) ''/p'' (Dir ''p'' [Dir ''.git'' [File ''x.go''], Dir ''web'' [File ''a.go'']]) defaultIgnores))"
  by (rule watch_covers_sources [of _ "''a.go''"]) code_simp+

text \<open>Two blind spots.  An edit of the file .env in the project root is never relevant, although
  its extension is listed and the file is counted, because the rule for hidden directories also hits
  hidden files.  And the creation of a directory whose name has no listed extension leaves the
  watcher as it was: the test of relevance comes before the code that would watch it.\<close>

theorem watch_blind_spots:
  "\<not> relevant root \<lparr>ev_Name = root @ ''/.env'', ev_Op = ops\<rparr> ignores
   \<and> ''.env'' \<in> watchedExtensions \<and> countWatched root (Dir r [File ''.env'']) ignores = 1
   \<and> watch_event c add (Some tree) now \<lparr>ev_Name = wc_Root c @ ''/handlers'', ev_Op = {Create}\<rparr> s = s"
proof -
  have "ignored root (root @ slash # ''.env'') ignores"
    unfolding ignored_def rel_path_inside by (simp add: slash_def has_prefix_def)
  then have "\<not> relevant root \<lparr>ev_Name = root @ ''/.env'', ev_Op = ops\<rparr> ignores"
    by (simp add: relevant_def Let_def slash_def)
  moreover have "path_ext ''.env'' = ''.env''" "to_lower ''.env'' = ''.env''" "\<not> has_suffix ''.env'' ''_templ.go''"
    "path_ext ''handlers'' = []" "to_lower [] = []"
    by code_simp+
  moreover have "path_base (wc_Root c @ ''/handlers'') = ''handlers''"
    using split_on_append_slash [of "CHR ''/''" "wc_Root c" "''handlers''"] by (simp add: path_base_def slash_def)
  ultimately show ?thesis
    by (simp add: countWatched_def watchedExtensions_def watch_event_def relevant_def Let_def)
qed

end
