(* ===== verification/Naming.thy ===== *)
theory Naming
  imports Prelude
begin

text \<open>
  The package \<^verbatim>\<open>cmd/ry/internal/naming\<close>: splitting identifiers into words, the case
  conversions of the generators, plurals and table names (\<^verbatim>\<open>naming.go\<close>).

  Identifiers are in the ASCII range, where a byte is a rune and \<^verbatim>\<open>unicode.IsUpper\<close>,
  \<^verbatim>\<open>unicode.IsLower\<close> and \<^verbatim>\<open>unicode.IsDigit\<close> are those of the letters and digits of ASCII.
\<close>

section \<open>Words\<close>

definition is_separator :: "char \<Rightarrow> bool" where
  "is_separator c = (c \<in> {CHR ''_'', CHR ''-'', CHR '' '', CHR ''.'', CHR ''/''})"

definition word_flush :: "string \<Rightarrow> string list" where
  "word_flush cur = (if cur = [] then [] else [to_lower cur])"

text \<open>The loop of \<^verbatim>\<open>Words\<close>: the rune before, the word under way, and the runes that follow.\<close>

fun words_loop :: "char option \<Rightarrow> string \<Rightarrow> string \<Rightarrow> string list" where
  "words_loop prev cur [] = word_flush cur"
| "words_loop prev cur (c # s) =
     (if is_separator c then word_flush cur @ words_loop (Some c) [] s
      else if is_upper c
      then let prevLower = (case prev of None \<Rightarrow> False | Some d \<Rightarrow> is_lower d);
               nextLower = (case s of [] \<Rightarrow> False | d # _ \<Rightarrow> is_lower d)
           in if prevLower \<or> (cur \<noteq> [] \<and> nextLower)
              then word_flush cur @ words_loop (Some c) [c] s
              else words_loop (Some c) (cur @ [c]) s
      else words_loop (Some c) (cur @ [c]) s)"

definition naming_Words :: "string \<Rightarrow> string list" where
  "naming_Words s = words_loop None [] s"

definition initialisms :: "string list" where
  "initialisms = [''id'', ''url'', ''uri'', ''api'', ''http'', ''https'', ''html'', ''json'', ''sql'', ''db'', ''ip'', ''uuid'']"

definition capitalize :: "string \<Rightarrow> string" where
  "capitalize w =
     (case w of
        [] \<Rightarrow> w
      | c # r \<Rightarrow> if w \<in> set initialisms then to_upper w else upper_char c # r)"

definition naming_Pascal :: "string \<Rightarrow> string" where
  "naming_Pascal s = concat (map capitalize (naming_Words s))"

definition naming_Camel :: "string \<Rightarrow> string" where
  "naming_Camel s =
     (case naming_Words s of [] \<Rightarrow> [] | w # ws \<Rightarrow> w @ concat (map capitalize ws))"

definition naming_Snake :: "string \<Rightarrow> string" where
  "naming_Snake s = join ''_'' (naming_Words s)"

definition naming_Kebab :: "string \<Rightarrow> string" where
  "naming_Kebab s = join ''-'' (naming_Words s)"

definition naming_Package :: "string \<Rightarrow> string" where
  "naming_Package s =
     (let name = concat (naming_Words s)
      in if name = [] then ''app''
         else if is_digit (hd name) then ''app'' @ name
         else name)"

section \<open>Plurals\<close>

definition isVowel :: "char \<Rightarrow> bool" where
  "isVowel c = (c \<in> set ''aeiou'')"

definition naming_Plural :: "string \<Rightarrow> string" where
  "naming_Plural s =
     (let lower = to_lower s in
      if s = [] then s
      else if has_suffix lower ''s'' \<or> has_suffix lower ''x'' \<or> has_suffix lower ''z''
              \<or> has_suffix lower ''ch'' \<or> has_suffix lower ''sh'' then s @ ''es''
      else if has_suffix lower ''y'' \<and> length s > 1 \<and> \<not> isVowel (lower ! (length lower - 2))
      then take (length s - 1) s @ ''ies''
      else if has_suffix lower ''fe'' then take (length s - 2) s @ ''ves''
      else if has_suffix lower ''f'' then take (length s - 1) s @ ''ves''
      else s @ ''s'')"

definition naming_Singular :: "string \<Rightarrow> string" where
  "naming_Singular s =
     (let lower = to_lower s in
      if has_suffix lower ''ss'' \<or> has_suffix lower ''us'' \<or> has_suffix lower ''is'' then s
      else if has_suffix lower ''ies'' \<and> length s > 3 then take (length s - 3) s @ ''y''
      else if has_suffix lower ''ves'' \<and> length s > 3 then take (length s - 3) s @ ''f''
      else if has_suffix lower ''ses'' \<or> has_suffix lower ''xes'' \<or> has_suffix lower ''zes''
              \<or> has_suffix lower ''ches'' \<or> has_suffix lower ''shes'' then take (length s - 2) s
      else if has_suffix lower ''s'' then take (length s - 1) s
      else s)"

definition naming_Pluralize :: "string \<Rightarrow> string" where
  "naming_Pluralize s = naming_Plural (naming_Singular s)"

definition naming_Table :: "string \<Rightarrow> string" where
  "naming_Table model =
     (let ws = naming_Words model
      in if ws = [] then [] else join ''_'' (butlast ws @ [naming_Pluralize (last ws)]))"

section \<open>Words of words\<close>

text \<open>What a word of \<^const>\<open>naming_Words\<close> looks like.\<close>

definition word_ok :: "string \<Rightarrow> bool" where
  "word_ok w = (w \<noteq> [] \<and> list_all (\<lambda>c. \<not> is_separator c \<and> \<not> is_upper c) w)"

lemma lower_char_not_upper: "\<not> is_upper (lower_char c)"
  by (auto simp: is_upper_def lower_char_def char_between_def)

lemma upper_lower_char: "is_upper c \<Longrightarrow> (of_char (lower_char c) :: nat) = of_char c + 32"
  by (auto simp: is_upper_def lower_char_def char_between_def)

lemma separator_codes: "is_separator c \<Longrightarrow> (of_char c :: nat) \<in> {95, 45, 32, 46, 47}"
  by (auto simp: is_separator_def)

lemma lower_char_separator [simp]: "is_separator (lower_char c) = is_separator c"
proof (cases "is_upper c")
  case True
  then have "65 \<le> (of_char c :: nat)" "(of_char c :: nat) \<le> 90" by (simp_all add: is_upper_def char_between_def)
  then show ?thesis
    using separator_codes [of c] separator_codes [of "lower_char c"] upper_lower_char [OF True] by auto
qed (simp add: lower_char_def)

lemma word_flush_ok: "\<forall>c \<in> set cur. \<not> is_separator c \<Longrightarrow> list_all word_ok (word_flush cur)"
  by (auto simp: word_flush_def word_ok_def list_all_iff to_lower_def lower_char_not_upper)

lemma words_loop_ok: "\<forall>c \<in> set cur. \<not> is_separator c \<Longrightarrow> list_all word_ok (words_loop prev cur s)"
  by (induction prev cur s rule: words_loop.induct) (auto simp: Let_def word_flush_ok)

lemma naming_Words_ok: "list_all word_ok (naming_Words s)"
  by (simp add: naming_Words_def words_loop_ok)

lemma to_lower_word: "list_all (\<lambda>c. \<not> is_separator c \<and> \<not> is_upper c) w \<Longrightarrow> to_lower w = w"
  by (induction w) (auto simp: to_lower_def lower_char_def)

lemma words_loop_append:
  "list_all (\<lambda>c. \<not> is_separator c \<and> \<not> is_upper c) w \<Longrightarrow>
   \<exists>prev'. words_loop prev cur (w @ s) = words_loop prev' (cur @ w) s"
proof (induction w arbitrary: prev cur)
  case (Cons c w)
  then show ?case using Cons.IH [of "Some c" "cur @ [c]"] by simp
qed auto

lemma words_loop_join:
  assumes "is_separator d" and "list_all word_ok ws"
  shows "words_loop prev [] (join [d] ws) = ws"
  using assms(2)
proof (induction "[d]" ws arbitrary: prev rule: join.induct)
  case (2 x)
  then have w: "list_all (\<lambda>c. \<not> is_separator c \<and> \<not> is_upper c) x" "x \<noteq> []" by (simp_all add: word_ok_def)
  obtain prev' where "words_loop prev [] (x @ []) = words_loop prev' ([] @ x) []"
    using words_loop_append [OF w(1)] by blast
  then show ?case using w by (simp add: word_flush_def to_lower_word)
next
  case (3 x y ys)
  then have w: "list_all (\<lambda>c. \<not> is_separator c \<and> \<not> is_upper c) x" "x \<noteq> []" by (simp_all add: word_ok_def)
  obtain prev' where "words_loop prev [] (x @ d # join [d] (y # ys)) = words_loop prev' ([] @ x) (d # join [d] (y # ys))"
    using words_loop_append [OF w(1)] by blast
  with 3 w assms(1) show ?case by (simp add: word_flush_def to_lower_word)
qed (simp add: word_flush_def)

section \<open>Plurals of singulars\<close>

text \<open>The rules look at the last letters: a word is taken from its end.\<close>

lemma has_suffix_rev: "has_suffix (rev xs) p = has_prefix xs (rev p)"
proof -
  have "has_suffix (rev xs) p \<longleftrightarrow> (\<exists>q. xs = rev p @ q)"
    unfolding has_suffix_iff by (metis rev_append rev_rev_ident)
  also have "\<dots> \<longleftrightarrow> has_prefix xs (rev p)"
    using has_prefixE [of xs "rev p"] by auto
  finally show ?thesis .
qed

lemma has_prefix_Cons [simp]: "has_prefix (x # xs) (p # ps) = (x = p \<and> has_prefix xs ps)"
  by (simp add: has_prefix_def)

lemma has_prefix_Nil [simp]: "has_prefix xs []" "\<not> has_prefix [] (p # ps)"
  by (simp_all add: has_prefix_def)

lemma take_butlast_rev: "take (length xs - k) (rev xs) = rev (drop k xs)"
  by (cases "k \<le> length xs") (simp_all add: take_rev)

lemma Singular_rev:
  assumes "to_lower (rev xs) = rev xs"
  shows "naming_Singular (rev xs) = rev
     (if has_prefix xs ''ss'' \<or> has_prefix xs ''su'' \<or> has_prefix xs ''si'' then xs
      else if has_prefix xs ''sei'' \<and> length xs > 3 then (CHR ''y'' # drop 3 xs)
      else if has_prefix xs ''sev'' \<and> length xs > 3 then (CHR ''f'' # drop 3 xs)
      else if has_prefix xs ''ses'' \<or> has_prefix xs ''sex'' \<or> has_prefix xs ''sez''
              \<or> has_prefix xs ''sehc'' \<or> has_prefix xs ''sehs'' then (drop 2 xs)
      else if has_prefix xs ''s'' then (drop 1 xs)
      else xs)"
  by (simp add: naming_Singular_def Let_def assms has_suffix_rev take_butlast_rev)

lemma Plural_rev:
  assumes "to_lower (rev xs) = rev xs"
  shows "naming_Plural (rev xs) = rev
     (if xs = [] then []
      else if has_prefix xs ''s'' \<or> has_prefix xs ''x'' \<or> has_prefix xs ''z''
              \<or> has_prefix xs ''hc'' \<or> has_prefix xs ''hs'' then (''se'' @ xs)
      else if has_prefix xs ''y'' \<and> length xs > 1 \<and> \<not> isVowel (xs ! 1) then (''sei'' @ drop 1 xs)
      else if has_prefix xs ''ef'' then (''sev'' @ drop 2 xs)
      else if has_prefix xs ''f'' then (''sev'' @ drop 1 xs)
      else (''s'' @ xs))"
proof -
  have "(length xs > 1 \<and> \<not> isVowel (rev xs ! (length xs - 2))) = (length xs > 1 \<and> \<not> isVowel (xs ! 1))"
    by (auto simp: rev_nth numeral_2_eq_2 Suc_diff_Suc)
  then show ?thesis
    by (simp add: naming_Plural_def Let_def assms has_suffix_rev take_butlast_rev)
qed

lemma to_lower_append: "to_lower (s @ t) = to_lower s @ to_lower t"
  by (simp add: to_lower_def)

lemma to_lower_rev: "to_lower (rev s) = rev (to_lower s)"
  by (simp add: to_lower_def rev_map)

lemma to_lower_Plural: "to_lower w = w \<Longrightarrow> to_lower (naming_Plural w) = naming_Plural w"
proof -
  have l: "to_lower ''es'' = ''es''" "to_lower ''ies'' = ''ies''" "to_lower ''ves'' = ''ves''" "to_lower ''s'' = ''s''"
    by (simp_all add: to_lower_def lower_char_def is_upper_def char_between_def)
  have t: "to_lower (take n w) = take n (to_lower w)" for n by (simp add: to_lower_def take_map)
  show "to_lower w = w \<Longrightarrow> to_lower (naming_Plural w) = naming_Plural w"
    by (simp add: naming_Plural_def Let_def to_lower_append t l) (simp add: to_lower_def)
qed

lemma to_lower_Singular: "to_lower w = w \<Longrightarrow> to_lower (naming_Singular w) = naming_Singular w"
proof -
  have l: "to_lower ''y'' = ''y''" "to_lower ''f'' = ''f''"
    by (simp_all add: to_lower_def lower_char_def is_upper_def char_between_def)
  have t: "to_lower (take n w) = take n (to_lower w)" for n by (simp add: to_lower_def take_map)
  show "to_lower w = w \<Longrightarrow> to_lower (naming_Singular w) = naming_Singular w"
    by (simp add: naming_Singular_def Let_def to_lower_append t l)
qed

text \<open>The words whose plural is recognised as one: those that do not end in u or i, nor in ie
  after a vowel.\<close>

definition regular_end :: "string \<Rightarrow> bool" where
  "regular_end w =
     (last w \<notin> {CHR ''u'', CHR ''i''} \<and> \<not> (length w > 2 \<and> has_suffix w ''ie'' \<and> isVowel (w ! (length w - 3))))"

lemma Plural_Singular_Plural_rev:
  fixes xs
  defines "end_ok \<equiv> hd xs \<notin> {CHR ''u'', CHR ''i''} \<and> \<not> (length xs > 2 \<and> has_prefix xs ''ei'' \<and> isVowel (xs ! 2))"
  assumes "xs \<noteq> []" and low: "to_lower (rev xs) = rev xs" and ys: "naming_Plural (rev xs) = rev ys"
    and zs: "naming_Singular (rev ys) = rev zs"
  shows "naming_Plural (rev zs) = rev ys \<longleftrightarrow> end_ok"
proof -
  have lows: "to_lower (rev ys) = rev ys" using to_lower_Plural [OF low] ys by simp
  then have lowz: "to_lower (rev zs) = rev zs" using to_lower_Singular [of "rev ys"] zs by simp
  note S = zs [unfolded Singular_rev [OF lows] rev_is_rev_conv, symmetric]
  note P = Plural_rev [OF lowz]
  note Y = ys [unfolded Plural_rev [OF low] rev_is_rev_conv, symmetric]
  obtain a as where xs: "xs = a # as" using assms(2) by (cases xs) auto
  consider (es) "ys = ''se'' @ xs" "a \<in> {CHR ''s'', CHR ''x'', CHR ''z''} \<or> (a = CHR ''h'' \<and> (has_prefix as ''c'' \<or> has_prefix as ''s''))"
    | (ies) "ys = ''sei'' @ as" "a = CHR ''y''" "as \<noteq> []" "\<not> isVowel (hd as)"
    | (ves) "ys = ''sev'' @ as" "a = CHR ''f''"
    | (fe) bs where "ys = ''sev'' @ bs" "xs = ''ef'' @ bs"
    | (s) "ys = CHR ''s'' # xs" "a \<notin> {CHR ''s'', CHR ''x'', CHR ''z'', CHR ''f''}" "\<not> (a = CHR ''h'' \<and> (has_prefix as ''c'' \<or> has_prefix as ''s''))"
        "\<not> has_prefix xs ''ef''" "a = CHR ''y'' \<Longrightarrow> as \<noteq> [] \<Longrightarrow> isVowel (hd as)"
    using Y xs by (cases as) (auto split: if_splits)
  then show ?thesis
  proof cases
    case es
    then have "zs = xs" using S xs by (auto split: if_splits)
    then show ?thesis using es xs ys by (auto simp: end_ok_def)
  next
    case ies
    then have "zs = xs" using S xs by (auto split: if_splits)
    then show ?thesis using ies xs ys by (auto simp: end_ok_def)
  next
    case ves
    then show ?thesis using S P xs by (cases as) (auto simp: end_ok_def)
  next
    case (fe bs)
    then show ?thesis using S P by (cases bs) (auto simp: end_ok_def)
  next
    case s
    let ?c = "\<lambda>d bs. d \<in> {CHR ''s'', CHR ''x'', CHR ''z''} \<or> (d = CHR ''h'' \<and> (has_prefix bs ''c'' \<or> has_prefix bs ''s''))"
    consider (ui) "a = CHR ''u'' \<or> a = CHR ''i''" | (ie) v bs where "xs = CHR ''e'' # CHR ''i'' # v # bs"
      | (ve) v bs where "xs = CHR ''e'' # CHR ''v'' # v # bs"
      | (es) d bs where "xs = CHR ''e'' # d # bs" "?c d bs"
      | (same) "a \<noteq> CHR ''u''" "a \<noteq> CHR ''i''" "\<not> (length xs > 2 \<and> has_prefix xs ''ei'')" "\<not> (length xs > 2 \<and> has_prefix xs ''ev'')"
          "\<And>d bs. xs = CHR ''e'' # d # bs \<Longrightarrow> \<not> ?c d bs"
    proof -
      consider "a = CHR ''u'' \<or> a = CHR ''i''" | "a \<noteq> CHR ''e''" "a \<noteq> CHR ''u''" "a \<noteq> CHR ''i''" | "a = CHR ''e''" "as = []"
        | d where "a = CHR ''e''" "as = [d]" | d v bs where "a = CHR ''e''" "as = d # v # bs"
        by (cases as; cases "tl as") auto
      then show thesis
      proof cases
        case 1
        then show thesis by (rule ui)
      next
        case (4 d)
        then show thesis using xs by (cases "?c d []") (auto intro: es same)
      next
        case (5 d v bs)
        then show thesis
          using xs ie [of v bs] ve [of v bs] es [of d "v # bs"]
          by (cases "?c d (v # bs)"; cases "d = CHR ''i''"; cases "d = CHR ''v''") (auto intro: same)
      qed (use xs in \<open>auto intro: same\<close>)
    qed
    then show ?thesis
    proof cases
      case ui
      then have "zs = ys" using S s xs by auto
      then show ?thesis using P s ui xs by (auto simp: end_ok_def)
    next
      case ie
      then have "zs = CHR ''y'' # v # bs" using S s by auto
      then show ?thesis using P s ie by (auto simp: end_ok_def)
    next
      case ve
      then have "zs = CHR ''f'' # v # bs" using S s by auto
      then show ?thesis using P s ve by (auto simp: end_ok_def)
    next
      case es
      then have "zs = d # bs" using S s by auto
      then show ?thesis using P s es by (auto simp: end_ok_def)
    next
      case same
      have "zs = xs"
        using S s xs same by (cases as; cases "tl as") (auto split: if_splits)
      then show ?thesis using ys xs same by (auto simp: end_ok_def)
    qed
  qed
qed

lemma Pluralize_Plural:
  assumes "w \<noteq> []" and "to_lower w = w"
  shows "naming_Pluralize (naming_Plural w) = naming_Plural w \<longleftrightarrow> regular_end w"
proof -
  have "length w > 2 \<Longrightarrow> w ! (length w - 3) = rev w ! 2"
    by (simp add: rev_nth numeral_3_eq_3 numeral_2_eq_2)
  then have reg: "regular_end w \<longleftrightarrow> hd (rev w) \<notin> {CHR ''u'', CHR ''i''}
      \<and> \<not> (length (rev w) > 2 \<and> has_prefix (rev w) ''ei'' \<and> isVowel (rev w ! 2))"
    using has_suffix_rev [of "rev w" "''ie''"] by (auto simp: regular_end_def hd_rev)
  have "naming_Plural (rev (rev (naming_Singular (naming_Plural w)))) = rev (rev (naming_Plural w))
    \<longleftrightarrow> regular_end w"
    unfolding reg by (rule Plural_Singular_Plural_rev) (use assms in simp_all)
  then show ?thesis by (simp add: naming_Pluralize_def)
qed

section \<open>Properties\<close>

text \<open>The case conversions lose nothing: the words of an identifier in snake case or in kebab case
  are the words of the identifier, so that converting again changes nothing, and every word is
  a non-empty run without separators and capitals.\<close>

theorem naming_case_stable:
  "naming_Words (naming_Snake s) = naming_Words s \<and> naming_Words (naming_Kebab s) = naming_Words s
   \<and> naming_Snake (naming_Kebab s) = naming_Snake s \<and> naming_Kebab (naming_Snake s) = naming_Kebab s
   \<and> list_all word_ok (naming_Words s)"
proof -
  have "naming_Words (join [d] (naming_Words s)) = naming_Words s" if "is_separator d" for d
    unfolding naming_Words_def [of "join [d] (naming_Words s)"]
    by (rule words_loop_join [OF that naming_Words_ok])
  from this [of "CHR ''_''"] this [of "CHR ''-''"] show ?thesis
    by (simp add: naming_Snake_def naming_Kebab_def naming_Words_ok is_separator_def)
qed

text \<open>One table for a model, whether it is named in the singular or in the plural.  For a last
  word that is singular, the name with that word and the name with its plural give the same table
  exactly when the word does not end in u, in i or in ie after a vowel: the plurals of the others
  end in us or is and are taken for singulars.\<close>

theorem naming_table_either_number:
  assumes "naming_Words model = ws @ [w]" and "naming_Words models = ws @ [naming_Plural w]"
    and "naming_Singular w = w"
  shows "naming_Table model = join ''_'' (ws @ [naming_Plural w])
    \<and> (naming_Table models = naming_Table model \<longleftrightarrow> regular_end w)"
proof -
  have "word_ok w" using naming_Words_ok [of model] assms(1) by simp
  then have w: "w \<noteq> []" "to_lower w = w" by (simp_all add: word_ok_def to_lower_word)
  have inj: "join ''_'' (ws @ [x]) = join ''_'' (ws @ [y]) \<longleftrightarrow> x = y" for x y
  proof (induction ws)
    case (Cons v vs)
    then show ?case by (cases "vs @ [x]"; cases "vs @ [y]") auto
  qed simp
  show ?thesis
    using Pluralize_Plural [OF w]
    by (simp add: naming_Table_def assms inj) (simp add: naming_Pluralize_def assms(3))
qed

theorem naming_table_either_number_witness:
  "naming_Table ''BlogPost'' = ''blog_posts'' \<and> naming_Table ''BlogPosts'' = ''blog_posts''
   \<and> naming_Table ''Menu'' = ''menus'' \<and> naming_Table ''Menus'' \<noteq> naming_Table ''Menu''"
proof -
  have p: "naming_Words ''BlogPost'' = [''blog''] @ [''post'']"
      "naming_Words ''BlogPosts'' = [''blog''] @ [naming_Plural ''post'']" "naming_Singular ''post'' = ''post''"
    and m: "naming_Words ''Menu'' = [] @ [''menu'']" "naming_Words ''Menus'' = [] @ [naming_Plural ''menu'']"
      "naming_Singular ''menu'' = ''menu''"
    and r: "regular_end ''post''" "\<not> regular_end ''menu''"
      "naming_Plural ''post'' = ''posts''" "naming_Plural ''menu'' = ''menus''"
    by code_simp+
  show ?thesis
    using naming_table_either_number [OF p] naming_table_either_number [OF m] r by auto
qed

end
