(* ===== verification/Scaffold.thy ===== *)
theory Scaffold
  imports Watcher Naming "HOL-Library.Finite_Map"
begin

text \<open>
  Rendering templates onto disk, \<^verbatim>\<open>cmd/ry/internal/scaffold/scaffold.go\<close>: overlays merged into a
  plan, the check for collisions, and the loop that renders and writes.

  The template file system is the list of its files in the order of a walk, each with its content.
  The destination is a map from slash-separated paths relative to it to contents; directories are
  those of its files.  Executing a template is an argument that may fail, and so is each write.
\<close>

section \<open>The plan\<close>

definition TemplateSuffix :: string where "TemplateSuffix = ''.tmpl''"

type_synonym template_fs = "(string \<times> string) list"
type_synonym dest_fs = "(string, string) fmap"

datatype scaffold_error =
    Err_OverlayMissing string | Err_Exists nat "string list" | Err_FileExists string
  | Err_Read string | Err_Template string | Err_WriteFile string

text \<open>The path of a file relative to an overlay it belongs to: a lone file is the overlay itself.\<close>

definition overlay_rel :: "string \<Rightarrow> string \<Rightarrow> string option" where
  "overlay_rel overlay p = rel_path overlay p"

definition overlay_exists :: "template_fs \<Rightarrow> string \<Rightarrow> bool" where
  "overlay_exists tfs overlay = list_ex (\<lambda>(p, _). overlay_rel overlay p \<noteq> None) tfs"

definition add_overlay :: "template_fs \<Rightarrow> string \<Rightarrow> (string, string) fmap \<Rightarrow> (string, string) fmap" where
  "add_overlay tfs overlay files =
     foldl (\<lambda>fs (p, _). case overlay_rel overlay p of
              None \<Rightarrow> fs | Some rel \<Rightarrow> fmupd (trim_suffix rel TemplateSuffix) p fs) files tfs"

fun plan_loop :: "template_fs \<Rightarrow> string list \<Rightarrow> (string, string) fmap \<Rightarrow> (scaffold_error, (string, string) fmap) result" where
  "plan_loop tfs [] files = Inr files"
| "plan_loop tfs (o1 # os) files =
     (if \<not> overlay_exists tfs o1 then Inl (Err_OverlayMissing o1)
      else plan_loop tfs os (add_overlay tfs o1 files))"

definition scaffold_plan :: "template_fs \<Rightarrow> string list \<Rightarrow> (scaffold_error, (string, string) fmap) result" where
  "scaffold_plan tfs overlays = plan_loop tfs overlays fmempty"

section \<open>Writing\<close>

definition dest_exists :: "dest_fs \<Rightarrow> string \<Rightarrow> bool" where
  "dest_exists fs p = fBex (fmdom fs) (\<lambda>q. q = p \<or> has_prefix q (p @ [slash]))"

definition checkCollisions :: "dest_fs \<Rightarrow> string list \<Rightarrow> scaffold_error option" where
  "checkCollisions fs rels =
     (let existing = filter (dest_exists fs) rels
      in if existing = [] then None else Some (Err_Exists (length existing) (take 5 existing)))"

definition scaffold_Render ::
  "(string \<Rightarrow> 'd \<Rightarrow> string option) \<Rightarrow> template_fs \<Rightarrow> string \<Rightarrow> 'd \<Rightarrow> (scaffold_error, string) result" where
  "scaffold_Render execute tfs src data =
     (case map_of tfs src of
        None \<Rightarrow> Inl (Err_Read src)
      | Some raw \<Rightarrow> (case execute raw data of None \<Rightarrow> Inl (Err_Template src) | Some out \<Rightarrow> Inr out))"

definition writeFile :: "(string \<Rightarrow> bool) \<Rightarrow> string \<Rightarrow> string \<Rightarrow> dest_fs \<Rightarrow> scaffold_error option \<times> dest_fs" where
  "writeFile writable dest content fs =
     (if writable dest then (None, fmupd dest content fs) else (Some (Err_WriteFile dest), fs))"

definition source_of :: "(string, string) fmap \<Rightarrow> string \<Rightarrow> string" where
  "source_of files rel = (case fmlookup files rel of None \<Rightarrow> [] | Some p \<Rightarrow> p)"

fun write_loop ::
  "(string \<Rightarrow> 'd \<Rightarrow> string option) \<Rightarrow> (string \<Rightarrow> bool) \<Rightarrow> template_fs \<Rightarrow> (string, string) fmap \<Rightarrow> 'd \<Rightarrow> bool
     \<Rightarrow> string list \<Rightarrow> dest_fs \<Rightarrow> scaffold_error option \<times> dest_fs" where
  "write_loop execute writable tfs files data dry [] fs = (None, fs)"
| "write_loop execute writable tfs files data dry (rel # rels) fs =
     (case scaffold_Render execute tfs (source_of files rel) data of
        Inl e \<Rightarrow> (Some e, fs)
      | Inr out \<Rightarrow>
          if dry then write_loop execute writable tfs files data dry rels fs
          else (case writeFile writable rel out fs of
                  (Some e, fs') \<Rightarrow> (Some e, fs')
                | (None, fs') \<Rightarrow> write_loop execute writable tfs files data dry rels fs'))"

record Generator =
  gen_Overlays :: "string list"
  gen_Force :: bool
  gen_DryRun :: bool

definition generator_Run ::
  "(string \<Rightarrow> 'd \<Rightarrow> string option) \<Rightarrow> (string \<Rightarrow> bool) \<Rightarrow> template_fs \<Rightarrow> 'd \<Rightarrow> Generator \<Rightarrow> dest_fs
     \<Rightarrow> (scaffold_error, string list) result \<times> dest_fs" where
  "generator_Run execute writable tfs data g fs =
     (case scaffold_plan tfs (gen_Overlays g) of
        Inl e \<Rightarrow> (Inl e, fs)
      | Inr files \<Rightarrow>
          let rels = sorted_list_of_fset (fmdom files) in
          case (if gen_Force g then None else checkCollisions fs rels) of
            Some e \<Rightarrow> (Inl e, fs)
          | None \<Rightarrow>
              (case write_loop execute writable tfs files data (gen_DryRun g) rels fs of
                 (Some e, fs') \<Rightarrow> (Inl e, fs')
               | (None, fs') \<Rightarrow> (Inr rels, fs')))"

definition RenderTo ::
  "(string \<Rightarrow> 'd \<Rightarrow> string option) \<Rightarrow> (string \<Rightarrow> bool) \<Rightarrow> template_fs \<Rightarrow> string \<Rightarrow> string \<Rightarrow> 'd \<Rightarrow> bool \<Rightarrow> dest_fs
     \<Rightarrow> scaffold_error option \<times> dest_fs" where
  "RenderTo execute writable tfs src dest data force fs =
     (if \<not> force \<and> dest_exists fs dest then (Some (Err_FileExists dest), fs)
      else case scaffold_Render execute tfs src data of
        Inl e \<Rightarrow> (Some e, fs)
      | Inr out \<Rightarrow> writeFile writable dest out fs)"

text \<open>The replacer of \<^verbatim>\<open>quote\<close> puts a backslash for a backslash.\<close>

definition quote :: "string \<Rightarrow> string" where
  "quote s = [CHR 0x22] @ concat (map (\<lambda>c. if c = CHR 0x22 then [CHR 0x5C, CHR 0x22] else [c]) s) @ [CHR 0x22]"

text \<open>The data of a generator: the name in every case.\<close>

record Stub =
  stub_Module :: string
  stub_Name :: string
  stub_Pascal :: string
  stub_Camel :: string
  stub_Snake :: string
  stub_Kebab :: string
  stub_Plural :: string
  stub_KebabPlural :: string
  stub_Table :: string
  stub_ID :: string
  stub_Version :: string

definition NewStub :: "string \<Rightarrow> string \<Rightarrow> Stub" where
  "NewStub module name =
     \<lparr>stub_Module = module, stub_Name = name, stub_Pascal = naming_Pascal name, stub_Camel = naming_Camel name,
      stub_Snake = naming_Snake name, stub_Kebab = naming_Kebab name,
      stub_Plural = naming_Pluralize (naming_Pascal name), stub_KebabPlural = naming_Kebab (naming_Pluralize name),
      stub_Table = naming_Table name, stub_ID = [], stub_Version = []\<rparr>"

text \<open>The version is the formatted time.\<close>

definition WithMigration :: "string \<Rightarrow> string \<Rightarrow> Stub \<Rightarrow> Stub" where
  "WithMigration version description s =
     s\<lparr>stub_Version := version, stub_ID := version @ ''_'' @ naming_Snake description\<rparr>"

section \<open>The last overlay wins\<close>

text \<open>The source of a path: in the last overlay that has a file for it, the last such file.\<close>

definition overlay_source :: "template_fs \<Rightarrow> string \<Rightarrow> string \<Rightarrow> string option" where
  "overlay_source tfs overlay rel =
     (let xs = filter (\<lambda>(p, _). map_option (\<lambda>r. trim_suffix r TemplateSuffix) (overlay_rel overlay p) = Some rel) tfs
      in if xs = [] then None else Some (fst (last xs)))"

fun winning_source :: "template_fs \<Rightarrow> string list \<Rightarrow> string \<Rightarrow> string option" where
  "winning_source tfs [] rel = None"
| "winning_source tfs (o1 # os) rel =
     (case winning_source tfs os rel of Some p \<Rightarrow> Some p | None \<Rightarrow> overlay_source tfs o1 rel)"

lemma add_overlay_lookup:
  "fmlookup (add_overlay tfs o1 files) rel =
     (case overlay_source tfs o1 rel of Some p \<Rightarrow> Some p | None \<Rightarrow> fmlookup files rel)"
proof (induction tfs rule: rev_induct)
  case Nil
  then show ?case by (simp add: add_overlay_def overlay_source_def)
next
  case (snoc x tfs)
  obtain p c where x: "x = (p, c)" by fastforce
  have step: "add_overlay (tfs @ [x]) o1 files =
      (case overlay_rel o1 p of None \<Rightarrow> add_overlay tfs o1 files
       | Some r \<Rightarrow> fmupd (trim_suffix r TemplateSuffix) p (add_overlay tfs o1 files))"
    by (simp add: add_overlay_def x split: option.split)
  show ?case
  proof (cases "map_option (\<lambda>r. trim_suffix r TemplateSuffix) (overlay_rel o1 p) = Some rel")
    case True
    then have "overlay_source (tfs @ [x]) o1 rel = Some p" by (simp add: overlay_source_def x)
    then show ?thesis using True step by auto
  next
    case False
    then have "overlay_source (tfs @ [x]) o1 rel = overlay_source tfs o1 rel" by (auto simp: overlay_source_def x Let_def)
    then show ?thesis using False step snoc by (auto split: option.splits)
  qed
qed

lemma plan_loop_lookup:
  "plan_loop tfs os files = Inr out \<Longrightarrow>
   fmlookup out rel = (case winning_source tfs os rel of Some p \<Rightarrow> Some p | None \<Rightarrow> fmlookup files rel)"
  by (induction tfs os files rule: plan_loop.induct)
     (auto simp: add_overlay_lookup split: if_splits option.splits)

lemma scaffold_plan_lookup: "scaffold_plan tfs os = Inr out \<Longrightarrow> fmlookup out rel = winning_source tfs os rel"
  by (simp add: scaffold_plan_def plan_loop_lookup split: option.split)

section \<open>What the loop writes\<close>

lemma write_loop_frame:
  "write_loop execute writable tfs files data dry rels fs = (e, fs') \<Longrightarrow> p \<notin> set rels \<or> dry \<Longrightarrow>
   fmlookup fs' p = fmlookup fs p"
proof (induction execute writable tfs files data dry rels fs rule: write_loop.induct)
  case (2 execute writable tfs files data dry rel rels fs)
  then show ?case by (auto simp: writeFile_def split: sum.splits if_splits)
qed simp

lemma write_loop_written:
  "write_loop execute writable tfs files data False rels fs = (None, fs') \<Longrightarrow> distinct rels \<Longrightarrow> p \<in> set rels \<Longrightarrow>
   \<exists>out. scaffold_Render execute tfs (source_of files p) data = Inr out \<and> fmlookup fs' p = Some out"
proof (induction rels arbitrary: fs)
  case (Cons rel rels)
  obtain out where out: "scaffold_Render execute tfs (source_of files rel) data = Inr out"
      "write_loop execute writable tfs files data False rels (fmupd rel out fs) = (None, fs')"
    using Cons.prems(1) by (auto simp: writeFile_def split: sum.splits if_splits)
  show ?case
  proof (cases "p = rel")
    case True
    then show ?thesis using out write_loop_frame [OF out(2), of rel] Cons.prems(2) by auto
  next
    case False
    then show ?thesis using Cons.IH [OF out(2)] Cons.prems by simp
  qed
qed simp

section \<open>Properties\<close>

text \<open>Generating a project is safe and complete.  Without the force flag no file that exists is
  changed, whether the run succeeds or fails half way; a dry run changes nothing; nothing outside
  the plan is ever touched.  A run that succeeds returns the paths of the plan in order, and unless
  it was dry each of them holds the rendering of its source, which is the one of the last overlay
  that has a file for the path.\<close>

theorem scaffold_run_safe:
  assumes "generator_Run execute writable tfs data g fs = (res, fs')"
  shows "(\<not> gen_Force g \<or> gen_DryRun g \<longrightarrow> (\<forall>p \<in> fset (fmdom fs). fmlookup fs' p = fmlookup fs p))
    \<and> (gen_DryRun g \<longrightarrow> fs' = fs)
    \<and> (\<forall>p. winning_source tfs (gen_Overlays g) p = None \<longrightarrow> fmlookup fs' p = fmlookup fs p)
    \<and> (\<forall>rels. res = Inr rels \<longrightarrow> sorted rels \<and> distinct rels
         \<and> set rels = {p. winning_source tfs (gen_Overlays g) p \<noteq> None}
         \<and> (\<not> gen_DryRun g \<longrightarrow> (\<forall>p \<in> set rels. \<exists>src out. winning_source tfs (gen_Overlays g) p = Some src
              \<and> scaffold_Render execute tfs src data = Inr out \<and> fmlookup fs' p = Some out)))"
proof (cases "scaffold_plan tfs (gen_Overlays g)")
  case (Inl e)
  then show ?thesis using assms by (auto simp: generator_Run_def)
next
  case (Inr files)
  let ?rels = "sorted_list_of_fset (fmdom files)"
  have look: "fmlookup files p = winning_source tfs (gen_Overlays g) p" for p
    by (rule scaffold_plan_lookup [OF Inr])
  have rels: "sorted ?rels" "distinct ?rels" "set ?rels = {p. winning_source tfs (gen_Overlays g) p \<noteq> None}"
    by (auto simp: sorted_list_of_fset.rep_eq look [symmetric] fmdom'_alt_def [symmetric] fmlookup_dom'_iff)
  consider (hit) e where "res = Inl e" "fs' = fs" "\<not> gen_Force g"
    | (run) e where "gen_Force g \<or> checkCollisions fs ?rels = None"
        "write_loop execute writable tfs files data (gen_DryRun g) ?rels fs = (e, fs')"
        "res = (case e of None \<Rightarrow> Inr ?rels | Some err \<Rightarrow> Inl err)"
    using assms Inr by (auto simp: generator_Run_def Let_def split: if_splits option.splits prod.splits)
  then show ?thesis
  proof cases
    case hit
    then show ?thesis by simp
  next
    case run
    have "fmlookup fs' p = fmlookup fs p" if "p \<in> fset (fmdom fs)" "\<not> gen_Force g \<or> gen_DryRun g" for p
    proof (rule write_loop_frame [OF run(2)])
      show "p \<notin> set ?rels \<or> gen_DryRun g"
        using run(1) that by (auto simp: checkCollisions_def Let_def filter_empty_conv dest_exists_def split: if_splits)
    qed
    moreover have "gen_DryRun g \<Longrightarrow> fs' = fs"
      by (rule fmap_ext) (rule write_loop_frame [OF run(2)], simp)
    moreover have "fmlookup fs' p = fmlookup fs p" if "winning_source tfs (gen_Overlays g) p = None" for p
      by (rule write_loop_frame [OF run(2)]) (use rels(3) that in simp)
    moreover have "\<exists>src out. winning_source tfs (gen_Overlays g) p = Some src
        \<and> scaffold_Render execute tfs src data = Inr out \<and> fmlookup fs' p = Some out"
      if "e = None" "\<not> gen_DryRun g" "p \<in> set ?rels" for p
      using write_loop_written [of execute writable tfs files data ?rels fs fs' p] run(2) rels(2) that look [of p] rels(3)
      by (auto simp: source_of_def)
    ultimately show ?thesis using run(3) rels by (auto split: option.splits)
  qed
qed

definition sample_templates :: template_fs where
  "sample_templates = [(''base/go.mod.tmpl'', ''A''), (''base/main.go.tmpl'', ''B''), (''web/main.go.tmpl'', ''C'')]"

definition sample_generator :: Generator where
  "sample_generator = \<lparr>gen_Overlays = [''base'', ''web''], gen_Force = False, gen_DryRun = False\<rparr>"

lemma sample_winner: "winning_source sample_templates [''base'', ''web''] ''main.go'' = Some ''web/main.go.tmpl''"
  by code_simp

lemma sample_generates:
  "fst (generator_Run (\<lambda>raw _. Some raw) (\<lambda>_. True) sample_templates () sample_generator (fmupd ''readme'' ''R'' fmempty))
     = Inr [''go.mod'', ''main.go'']"
  by code_simp

theorem scaffold_run_safe_witness:
  "\<exists>fs'. generator_Run (\<lambda>raw _. Some raw) (\<lambda>_. True) sample_templates () sample_generator (fmupd ''readme'' ''R'' fmempty)
       = (Inr [''go.mod'', ''main.go''], fs') \<and> fmlookup fs' ''main.go'' = Some ''C'' \<and> fmlookup fs' ''readme'' = Some ''R''"
proof -
  let ?run = "generator_Run (\<lambda>raw _. Some raw) (\<lambda>_. True) sample_templates () sample_generator (fmupd ''readme'' ''R'' fmempty)"
  obtain fs' where run: "?run = (Inr [''go.mod'', ''main.go''], fs')"
    using sample_generates by (metis prod.collapse)
  show ?thesis using scaffold_run_safe [OF run] run sample_winner
    by (auto simp: sample_generator_def scaffold_Render_def sample_templates_def)
qed

end
