(* ===== verification/Middleware.thy ===== *)
theory Middleware
  imports Http Watcher Bearer
begin

text \<open>
  The package \<^verbatim>\<open>middleware\<close>: request ids, the request-scoped logger, the request log with its
  recorder, and the recovery from panics (\<^verbatim>\<open>middleware.go\<close>).

  A handler is what it does to its response writer, a list of actions, and how it ends: it returns or
  it panics.  A status from 100 to 199 other than 101 is informational: the server sends it and still
  waits for the final one.  The log record Recover itself writes and durations are left out.  The stack trace, the random source and the time are arguments.
\<close>

section \<open>Writers and handlers\<close>

datatype action = A_Header string string | A_WriteHeader nat | A_Write string

datatype panic_value = ErrAbortHandler | P_String string | P_Error string | P_Other string

datatype ending = Finished | Panicked panic_value

definition informational :: "nat \<Rightarrow> bool" where
  "informational st = (100 \<le> st \<and> st \<le> 199 \<and> st \<noteq> 101)"

definition srv_WriteHeader :: "nat \<Rightarrow> response \<Rightarrow> response" where
  "srv_WriteHeader st w = (if informational st then w else write_header st w)"

fun srv_act :: "action \<Rightarrow> response \<Rightarrow> response" where
  "srv_act (A_Header k v) w = header_Set k v w"
| "srv_act (A_WriteHeader st) w = srv_WriteHeader st w"
| "srv_act (A_Write b) w = write_body b w"

definition srv_run :: "action list \<Rightarrow> response \<Rightarrow> response" where
  "srv_run acts w = fold srv_act acts w"

text \<open>The loggers: the default one of the process, or one with attributes.\<close>

datatype logger = Default_Logger | Logger_With "(string \<times> string) list"

text \<open>The values of the context that this package keeps.\<close>

record mw_context =
  mc_RequestID :: "string option"
  mc_Logger :: "logger option"

type_synonym mw_handler = "mw_context \<Rightarrow> request \<Rightarrow> action list \<times> ending"

section \<open>Request ids and loggers\<close>

definition newID :: "string option \<Rightarrow> string" where
  "newID rnd = (case rnd of None \<Rightarrow> ''unknown'' | Some b \<Rightarrow> hex_encode b)"

definition RequestID :: "string option \<Rightarrow> mw_handler \<Rightarrow> mw_handler" where
  "RequestID rnd inner ctx r =
     (let inbound = header_Get r ''X-Request-Id'';
          i = (if inbound = [] then newID rnd else inbound)
      in case inner (ctx\<lparr>mc_RequestID := Some i\<rparr>) r of
           (acts, e) \<Rightarrow> (A_Header ''X-Request-Id'' i # acts, e))"

definition RequestIDFrom :: "mw_context \<Rightarrow> string" where
  "RequestIDFrom ctx = (case mc_RequestID ctx of None \<Rightarrow> [] | Some i \<Rightarrow> i)"

definition logger_with :: "string \<Rightarrow> string \<Rightarrow> logger \<Rightarrow> logger" where
  "logger_with k v l = (case l of Default_Logger \<Rightarrow> Logger_With [(k, v)] | Logger_With as \<Rightarrow> Logger_With (as @ [(k, v)]))"

definition WithLogger :: "logger \<Rightarrow> mw_handler \<Rightarrow> mw_handler" where
  "WithLogger log inner ctx r =
     (let i = RequestIDFrom ctx;
          l = (if i \<noteq> [] then logger_with ''request_id'' i log else log)
      in inner (ctx\<lparr>mc_Logger := Some l\<rparr>) r)"

definition LoggerFrom :: "mw_context \<Rightarrow> logger" where
  "LoggerFrom ctx = (case mc_Logger ctx of Some l \<Rightarrow> l | None \<Rightarrow> Default_Logger)"

section \<open>The request log\<close>

record recorder =
  rc_w :: response
  rc_status :: nat
  rc_written :: nat
  rc_wrote :: bool

definition recorder_WriteHeader :: "nat \<Rightarrow> recorder \<Rightarrow> recorder" where
  "recorder_WriteHeader st rc =
     (if rc_wrote rc then rc
      else rc\<lparr>rc_status := st, rc_wrote := True, rc_w := srv_WriteHeader st (rc_w rc)\<rparr>)"

definition recorder_Write :: "string \<Rightarrow> recorder \<Rightarrow> recorder" where
  "recorder_Write b rc =
     (let rc' = (if \<not> rc_wrote rc then recorder_WriteHeader 200 rc else rc)
      in rc'\<lparr>rc_w := write_body b (rc_w rc'), rc_written := rc_written rc' + length b\<rparr>)"

fun recorder_act :: "action \<Rightarrow> recorder \<Rightarrow> recorder" where
  "recorder_act (A_Header k v) rc = rc\<lparr>rc_w := header_Set k v (rc_w rc)\<rparr>"
| "recorder_act (A_WriteHeader st) rc = recorder_WriteHeader st rc"
| "recorder_act (A_Write b) rc = recorder_Write b rc"

definition new_recorder :: "response \<Rightarrow> recorder" where
  "new_recorder w = \<lparr>rc_w = w, rc_status = 200, rc_written = 0, rc_wrote = False\<rparr>"

definition assetExtensions :: "string list" where
  "assetExtensions =
     [''.css'', ''.js'', ''.mjs'', ''.map'', ''.ico'', ''.png'', ''.jpg'', ''.jpeg'', ''.gif'', ''.svg'', ''.webp'',
      ''.avif'', ''.woff'', ''.woff2'', ''.ttf'', ''.otf'', ''.mp4'', ''.webm'']"

definition isAsset :: "string \<Rightarrow> bool" where
  "isAsset path =
     (has_prefix path ''/static/'' \<or> has_prefix path ''/assets/'' \<or> has_prefix path ''/_ryla/''
      \<or> to_lower (path_ext path) \<in> set assetExtensions)"

datatype level = LevelDebug | LevelInfo | LevelWarn

definition request_level :: "nat \<Rightarrow> string \<Rightarrow> level" where
  "request_level status path =
     (if status \<ge> 500 then LevelWarn else if status < 400 \<and> isAsset path then LevelDebug else LevelInfo)"

record log_line =
  ll_logger :: logger
  ll_level :: level
  ll_method :: string
  ll_path :: string
  ll_status :: nat
  ll_bytes :: nat

text \<open>\<^verbatim>\<open>Logger\<close>: the response, the ending, and the line it logs, which a panic skips.\<close>

definition mw_Logger :: "logger \<Rightarrow> mw_handler \<Rightarrow> mw_context \<Rightarrow> request \<Rightarrow> response \<Rightarrow> response \<times> ending \<times> log_line option" where
  "mw_Logger log inner ctx r w =
     (case inner ctx r of (acts, e) \<Rightarrow>
        let rc = fold recorder_act acts (new_recorder w);
            l = (if LoggerFrom ctx = Default_Logger then log else LoggerFrom ctx)
        in (rc_w rc, e,
            if e = Finished
            then Some \<lparr>ll_logger = l, ll_level = request_level (rc_status rc) (req_Path r), ll_method = req_Method r,
                       ll_path = req_Path r, ll_status = rc_status rc, ll_bytes = rc_written rc\<rparr>
            else None))"

section \<open>Recovering\<close>

fun panic_text :: "panic_value \<Rightarrow> string" where
  "panic_text ErrAbortHandler = ''net/http: abort Handler''"
| "panic_text (P_String s) = s"
| "panic_text (P_Error s) = s"
| "panic_text (P_Other s) = s"

definition Recover :: "bool \<Rightarrow> string \<Rightarrow> mw_handler \<Rightarrow> mw_handler" where
  "Recover debugMode stack inner ctx r =
     (case inner ctx r of
        (acts, Finished) \<Rightarrow> (acts, Finished)
      | (acts, Panicked p) \<Rightarrow>
          if p = ErrAbortHandler then (acts, Panicked p)
          else (acts @ [A_Header ''Content-Type'' ''text/plain; charset=utf-8'', A_WriteHeader 500]
                @ (if debugMode
                   then [A_Write ''panic: '', A_Write (panic_text p), A_Write [CHR 0x0A, CHR 0x0A], A_Write stack]
                   else [A_Write ''Internal Server Error'']), Finished))"

section \<open>The recorder is transparent\<close>

text \<open>How a recorder stands to the response without it: nothing was committed, or the recorded
  status is the one of the response.\<close>

definition recorder_inv :: "recorder \<Rightarrow> bool" where
  "recorder_inv rc =
     (if rc_wrote rc then resp_Status (rc_w rc) = Some (rc_status rc) else resp_Status (rc_w rc) = None \<and> rc_status rc = 200)"

definition no_informational :: "action list \<Rightarrow> bool" where
  "no_informational acts = list_all (\<lambda>a. case a of A_WriteHeader st \<Rightarrow> \<not> informational st | _ \<Rightarrow> True) acts"

lemma header_Set_simps [simp]:
  "resp_Status (header_Set k v w) = resp_Status w" "resp_Body (header_Set k v w) = resp_Body w"
  by (simp_all add: header_Set_def)

lemma write_header_Some [simp]: "resp_Status w = Some s \<Longrightarrow> write_header st w = w"
  by (simp add: write_header_def)

lemma write_header_None: "resp_Status w = None \<Longrightarrow> resp_Status (write_header st w) = Some st"
  by (simp add: write_header_def)

lemma write_body_status: "resp_Status (write_body b w) = Some (case resp_Status w of None \<Rightarrow> 200 | Some s \<Rightarrow> s)"
  by (simp add: write_body_def Let_def write_header_def split: option.split)

lemma write_header_idem [simp]: "write_header 200 (write_header 200 w) = write_header 200 w"
  by (simp add: write_header_def split: option.split)

lemma recorder_act_sim:
  assumes "recorder_inv rc" and "case a of A_WriteHeader st \<Rightarrow> \<not> informational st | _ \<Rightarrow> True"
  shows "rc_w (recorder_act a rc) = srv_act a (rc_w rc) \<and> recorder_inv (recorder_act a rc)"
proof (cases a)
  case (A_WriteHeader st)
  then show ?thesis using assms
    by (auto simp: recorder_WriteHeader_def srv_WriteHeader_def recorder_inv_def write_header_None split: if_splits)
next
  case (A_Write b)
  have i: "\<not> informational 200" by (simp add: informational_def)
  show ?thesis using assms A_Write i
    by (auto simp: recorder_Write_def recorder_WriteHeader_def srv_WriteHeader_def recorder_inv_def Let_def
        write_body_status write_header_None write_body_def split: if_splits)
qed (use assms in \<open>simp add: recorder_inv_def split: if_splits\<close>)

lemma recorder_run_sim:
  "recorder_inv rc \<Longrightarrow> no_informational acts \<Longrightarrow>
   rc_w (fold recorder_act acts rc) = srv_run acts (rc_w rc) \<and> recorder_inv (fold recorder_act acts rc)"
proof (induction acts arbitrary: rc)
  case (Cons a acts)
  then have s: "rc_w (recorder_act a rc) = srv_act a (rc_w rc) \<and> recorder_inv (recorder_act a rc)"
    by (intro recorder_act_sim) (auto simp: no_informational_def)
  show ?case using Cons.IH [of "recorder_act a rc"] s Cons.prems by (simp add: srv_run_def no_informational_def)
qed (simp add: srv_run_def)

lemma recorder_act_written:
  "rc_written (recorder_act a rc) + length (resp_Body (rc_w rc)) = rc_written rc + length (resp_Body (rc_w (recorder_act a rc)))"
  by (cases a) (auto simp: recorder_WriteHeader_def recorder_Write_def srv_WriteHeader_def write_header_def write_body_def
      Let_def split: option.split)

lemma recorder_written:
  "rc_written (fold recorder_act acts rc) + length (resp_Body (rc_w rc))
     = rc_written rc + length (resp_Body (rc_w (fold recorder_act acts rc)))"
proof (induction acts arbitrary: rc)
  case (Cons a acts)
  show ?case using Cons.IH [of "recorder_act a rc"] recorder_act_written [of a rc] by simp
qed simp

lemma new_recorder_inv: "resp_Status w = None \<Longrightarrow> recorder_inv (new_recorder w)"
  by (simp add: recorder_inv_def new_recorder_def)

lemma srv_run_append: "srv_run (xs @ ys) w = srv_run ys (srv_run xs w)"
  by (simp add: srv_run_def)

section \<open>Properties\<close>

lemma logger_run:
  assumes "inner ctx r = (acts, e)" and "no_informational acts" and "resp_Status w = None"
  shows "\<exists>line. mw_Logger log inner ctx r w = (srv_run acts w, e, line) \<and> (line = None \<longleftrightarrow> e \<noteq> Finished)
    \<and> (\<forall>l. line = Some l \<longrightarrow>
         ll_status l = (case resp_Status (srv_run acts w) of None \<Rightarrow> 200 | Some st \<Rightarrow> st)
         \<and> length (resp_Body w) + ll_bytes l = length (resp_Body (srv_run acts w))
         \<and> (ll_level l = LevelWarn \<longleftrightarrow> ll_status l \<ge> 500))"
proof -
  define rc where "rc = fold recorder_act acts (new_recorder w)"
  have sim: "rc_w rc = srv_run acts w" "recorder_inv rc"
    using recorder_run_sim [OF new_recorder_inv [OF assms(3)] assms(2)] by (simp_all add: rc_def new_recorder_def)
  have status: "rc_status rc = (case resp_Status (srv_run acts w) of None \<Rightarrow> 200 | Some st \<Rightarrow> st)"
    using sim by (auto simp: recorder_inv_def split: if_splits)
  have bytes: "length (resp_Body w) + rc_written rc = length (resp_Body (srv_run acts w))"
    using recorder_written [of acts "new_recorder w"] sim(1) by (simp add: rc_def new_recorder_def)
  show ?thesis
    using assms(1) sim(1) status bytes
    by (simp add: mw_Logger_def Let_def rc_def [symmetric] request_level_def)
qed

text \<open>The request log changes nothing and tells the truth.  For a handler that sends no informational
  status, the response behind the recorder is the response without it and the ending is the same; a
  handler that returned is logged once, with the status the client got, which is 200 when none was
  written, and with the number of bytes of the body.\<close>

theorem logger_transparent:
  assumes "inner ctx r = (acts, e)" and "no_informational acts" and "resp_Status w = None"
  shows "\<exists>line. mw_Logger log inner ctx r w = (srv_run acts w, e, line) \<and> (line = None \<longleftrightarrow> e \<noteq> Finished)
    \<and> (\<forall>l. line = Some l \<longrightarrow>
         ll_status l = (case resp_Status (srv_run acts w) of None \<Rightarrow> 200 | Some st \<Rightarrow> st)
         \<and> length (resp_Body w) + ll_bytes l = length (resp_Body (srv_run acts w))
         \<and> (ll_level l = LevelWarn \<longleftrightarrow> ll_status l \<ge> 500))"
  by (rule logger_run [where inner = inner, OF assms])

theorem logger_transparent_witness:
  "\<exists>line. mw_Logger Default_Logger (\<lambda>_ _. ([A_Write ''ab'', A_WriteHeader 404], Finished)) \<lparr>mc_RequestID = None, mc_Logger = None\<rparr>
       get_request empty_response = (srv_run [A_Write ''ab'', A_WriteHeader 404] empty_response, Finished, Some line)
     \<and> ll_status line = 200 \<and> ll_bytes line = 2"
proof -
  have "no_informational [A_Write ''ab'', A_WriteHeader 404]" "resp_Status empty_response = None"
    by (simp_all add: no_informational_def informational_def empty_response_def)
  from logger_transparent [where inner = "\<lambda>_ _. ([A_Write ''ab'', A_WriteHeader 404], Finished)", OF refl this,
      of Default_Logger "\<lparr>mc_RequestID = None, mc_Logger = None\<rparr>" get_request]
  show ?thesis
    by (auto simp: srv_run_def srv_WriteHeader_def informational_def write_body_def write_header_def empty_response_def)
qed

text \<open>An informational status loses the final one.  A handler that sends early hints and then answers
  404 is answered with 404 without the request log; behind the log the recorder takes the hints for the
  final status, drops the 404, the client gets 200 with the body, and the log says 103.\<close>

theorem logger_loses_status_after_hints:
  "\<exists>line. let acts = [A_WriteHeader 103, A_WriteHeader 404, A_Write ''missing'']
     in case mw_Logger log (\<lambda>_ _. (acts, Finished)) ctx r empty_response of
          (w, e, l) \<Rightarrow> resp_Status (srv_run acts empty_response) = Some 404 \<and> resp_Status w = Some 200
            \<and> resp_Body w = ''missing'' \<and> l = Some line \<and> ll_status line = 103"
  by (simp add: mw_Logger_def Let_def srv_run_def srv_WriteHeader_def informational_def write_body_def write_header_def
      empty_response_def new_recorder_def recorder_WriteHeader_def recorder_Write_def)

text \<open>A panic is answered.  With recovery inside the request log, a handler that
  panics with anything but the abort value still returns: the client gets a 500, or the status already
  sent, the body ends with the error text, one line is logged for the request with that status, at warning level
  when it is a 500, and under the request's id; outside debug mode the response is the same for every
  panic value and stack.\<close>

theorem recover_answers_panics:
  assumes "inner ctx r = (acts, Panicked p)" and "p \<noteq> ErrAbortHandler" and "no_informational acts"
    and "resp_Status w = None" and "mc_Logger ctx = Some (Logger_With as)"
  shows "\<exists>w' line. mw_Logger log (Recover False stack inner) ctx r w = (w', Finished, Some line)
    \<and> resp_Status w' = (case resp_Status (srv_run acts w) of None \<Rightarrow> Some 500 | Some st \<Rightarrow> Some st)
    \<and> resp_Body w' = resp_Body (srv_run acts w) @ ''Internal Server Error''
    \<and> resp_Status w' = Some (ll_status line) \<and> ll_logger line = Logger_With as
    \<and> (ll_status line = 500 \<longrightarrow> ll_level line = LevelWarn)
    \<and> (\<forall>inner' stack' p'. inner' ctx r = (acts, Panicked p') \<and> p' \<noteq> ErrAbortHandler \<longrightarrow>
         mw_Logger log (Recover False stack' inner') ctx r w = mw_Logger log (Recover False stack inner) ctx r w)"
proof -
  let ?acts = "acts @ [A_Header ''Content-Type'' ''text/plain; charset=utf-8'', A_WriteHeader 500, A_Write ''Internal Server Error'']"
  have rec: "Recover False stack' inner' ctx r = (?acts, Finished)"
    if "inner' ctx r = (acts, Panicked p')" "p' \<noteq> ErrAbortHandler" for inner' stack' p'
    using that by (simp add: Recover_def)
  have rec1: "Recover False stack inner ctx r = (?acts, Finished)" using rec [where inner' = inner] assms(1,2) by blast
  have ni: "no_informational ?acts" using assms(3) by (simp add: no_informational_def informational_def)
  obtain line where l: "mw_Logger log (Recover False stack inner) ctx r w = (srv_run ?acts w, Finished, Some line)"
      "ll_status line = (case resp_Status (srv_run ?acts w) of None \<Rightarrow> 200 | Some st \<Rightarrow> st)"
      "ll_level line = LevelWarn \<longleftrightarrow> ll_status line \<ge> 500"
    using logger_run [where inner = "Recover False stack inner", OF rec1 ni assms(4), of log] by auto
  have "resp_Status (srv_run ?acts w) = Some (case resp_Status (srv_run acts w) of None \<Rightarrow> 500 | Some st \<Rightarrow> st)"
    "resp_Body (srv_run ?acts w) = resp_Body (srv_run acts w) @ ''Internal Server Error''"
    by (auto simp: srv_run_append) (auto simp: srv_run_def srv_WriteHeader_def informational_def write_body_def write_header_def
        Let_def split: option.splits)
  moreover have "ll_logger line = Logger_With as"
    using l(1) assms(5) by (auto simp: mw_Logger_def rec1 Let_def LoggerFrom_def)
  moreover have "mw_Logger log (Recover False stack' inner') ctx r w = mw_Logger log (Recover False stack inner) ctx r w"
    if "inner' ctx r = (acts, Panicked p') \<and> p' \<noteq> ErrAbortHandler" for inner' stack' p'
    using rec [of inner' p' stack'] rec1 that by (simp add: mw_Logger_def)
  ultimately show ?thesis using l by (intro exI [of _ "srv_run ?acts w"] exI [of _ line]) (auto split: option.splits)
qed

theorem recover_answers_panics_witness:
  "\<exists>w' line. mw_Logger Default_Logger (Recover False ''goroutine 1'' (\<lambda>_ _. ([], Panicked (P_String ''secret''))))
       \<lparr>mc_RequestID = Some ''7'', mc_Logger = Some (Logger_With [(''request_id'', ''7'')])\<rparr> get_request empty_response
     = (w', Finished, Some line) \<and> resp_Status w' = Some 500 \<and> resp_Body w' = ''Internal Server Error'' \<and> ll_level line = LevelWarn"
proof -
  let ?h = "\<lambda>_ _. ([], Panicked (P_String ''secret''))"
  let ?ctx = "\<lparr>mc_RequestID = Some ''7'', mc_Logger = Some (Logger_With [(''request_id'', ''7'')])\<rparr>"
  have "no_informational []" "resp_Status empty_response = None" "mc_Logger ?ctx = Some (Logger_With [(''request_id'', ''7'')])"
    by (simp_all add: no_informational_def empty_response_def)
  note panics = recover_answers_panics [where inner = ?h and p = "P_String ''secret''" and r = get_request
      and log = Default_Logger and stack = "''goroutine 1''", OF refl _ this(1,2,3)]
  obtain w' line where "mw_Logger Default_Logger (Recover False ''goroutine 1'' ?h) ?ctx get_request empty_response = (w', Finished, Some line)"
      "resp_Status w' = Some 500" "resp_Body w' = ''Internal Server Error''" "resp_Status w' = Some (ll_status line)"
      "ll_status line = 500 \<longrightarrow> ll_level line = LevelWarn"
  proof (rule exE [OF panics], simp, elim exE conjE)
    fix w' line
    assume w': "mw_Logger Default_Logger (Recover False ''goroutine 1'' ?h) ?ctx get_request empty_response = (w', Finished, Some line)"
      "resp_Status w' = (case resp_Status (srv_run [] empty_response) of None \<Rightarrow> Some 500 | Some st \<Rightarrow> Some st)"
      "resp_Body w' = resp_Body (srv_run [] empty_response) @ ''Internal Server Error''"
      "resp_Status w' = Some (ll_status line)" "ll_status line = 500 \<longrightarrow> ll_level line = LevelWarn"
    show thesis by (rule that [OF w'(1)]) (use w' in \<open>simp_all add: srv_run_def empty_response_def\<close>)
  qed
  then show ?thesis by auto
qed

end
