(* ===== verification/Password.thy ===== *)
theory Password
  imports Strconv Base64
begin

text \<open>
  Password hashes, \<^verbatim>\<open>auth/password.go\<close>: hashing with argon2id into the PHC string format,
  parsing it back, verifying and the test whether a hash should be renewed.

  \<^verbatim>\<open>argon2.IDKey\<close> is an argument, and no value of it is a panic.  The random source and the
  number of processors are arguments.  The scanning of \<^verbatim>\<open>fmt.Sscanf\<close> is modelled for the two formats
  that occur: literals must match, blanks before a number are skipped, a line feed there is an error,
  numbers are decimal, signed ones may have a sign, and what follows the last number is ignored.
\<close>

section \<open>Scanning\<close>

fun skip_space :: "string \<Rightarrow> string option" where
  "skip_space [] = Some []"
| "skip_space (c # s) =
     (if c = CHR 0x0D \<and> s \<noteq> [] \<and> hd s = CHR 0x0A then skip_space s
      else if c = CHR 0x0A then None
      else if is_space c then skip_space s
      else Some (c # s))"

definition scan_uint :: "nat \<Rightarrow> string \<Rightarrow> (nat \<times> string) option" where
  "scan_uint bits s =
     (case skip_space s of None \<Rightarrow> None | Some t \<Rightarrow>
      (let ds = takeWhile is_digit t in
       case parse_uint ds 64 of None \<Rightarrow> None | Some n \<Rightarrow>
       if n < 2 ^ bits then Some (n, dropWhile is_digit t) else None))"

definition scan_int :: "string \<Rightarrow> (int \<times> string) option" where
  "scan_int s =
     (case skip_space s of None \<Rightarrow> None | Some t \<Rightarrow>
      (let (sg, u) = (if t \<noteq> [] \<and> (hd t = CHR ''+'' \<or> hd t = CHR ''-'') then ([hd t], tl t) else ([], t));
           ds = takeWhile is_digit u
       in if ds = [] then None
          else map_option (\<lambda>i. (i, dropWhile is_digit u)) (parse_int (sg @ ds) 64)))"

section \<open>Hashes\<close>

record Params =
  pa_Memory :: nat
  pa_Time :: nat
  pa_Threads :: nat
  pa_SaltLength :: nat
  pa_KeyLength :: nat

definition DefaultParams :: Params where
  "DefaultParams = \<lparr>pa_Memory = 19 * 1024, pa_Time = 2, pa_Threads = 1, pa_SaltLength = 16, pa_KeyLength = 32\<rparr>"

definition argon2_Version :: int where "argon2_Version = 0x13"

datatype password_error = ErrInvalidHash | ErrIncompatible | Err_ReadSalt

text \<open>A call returns a value, returns an error, or panics inside argon2.\<close>

datatype 'a pw_result = PW_Ok 'a | PW_Err password_error | PW_Panic

text \<open>\<^verbatim>\<open>IDKey\<close>: password, salt, passes, memory, threads and length of the key.\<close>

type_synonym idkey = "string \<Rightarrow> string \<Rightarrow> nat \<Rightarrow> nat \<Rightarrow> nat \<Rightarrow> nat \<Rightarrow> string option"

definition phc :: "int \<Rightarrow> nat \<Rightarrow> nat \<Rightarrow> nat \<Rightarrow> string \<Rightarrow> string \<Rightarrow> string" where
  "phc version memory time threads salt key =
     ''$argon2id$v='' @ format_int version @ ''$m='' @ format_nat memory @ '',t='' @ format_nat time @ '',p=''
     @ format_nat threads @ ''$'' @ encode Std_Alphabet salt @ ''$'' @ encode Std_Alphabet key"

definition HashWith :: "idkey \<Rightarrow> nat \<Rightarrow> (nat \<Rightarrow> string option) \<Rightarrow> string \<Rightarrow> Params \<Rightarrow> string pw_result" where
  "HashWith idkey cpus rnd password p0 =
     (let p = (if pa_Threads p0 = 0 then p0\<lparr>pa_Threads := min cpus 255\<rparr> else p0) in
      case rnd (pa_SaltLength p) of
        None \<Rightarrow> PW_Err Err_ReadSalt
      | Some salt \<Rightarrow>
          (case idkey password salt (pa_Time p) (pa_Memory p) (pa_Threads p) (pa_KeyLength p) of
             None \<Rightarrow> PW_Panic
           | Some key \<Rightarrow> PW_Ok (phc argon2_Version (pa_Memory p) (pa_Time p) (pa_Threads p) salt key)))"

definition pw_Hash :: "idkey \<Rightarrow> nat \<Rightarrow> (nat \<Rightarrow> string option) \<Rightarrow> string \<Rightarrow> string pw_result" where
  "pw_Hash idkey cpus rnd password = HashWith idkey cpus rnd password DefaultParams"

text \<open>The three numbers of the parameters.\<close>

definition scan_params :: "string \<Rightarrow> (nat \<times> nat \<times> nat) option" where
  "scan_params s =
     (case cut_prefix s ''m='' of None \<Rightarrow> None | Some s1 \<Rightarrow>
      case scan_uint 32 s1 of None \<Rightarrow> None | Some (m, s2) \<Rightarrow>
      case cut_prefix s2 '',t='' of None \<Rightarrow> None | Some s3 \<Rightarrow>
      case scan_uint 32 s3 of None \<Rightarrow> None | Some (t, s4) \<Rightarrow>
      case cut_prefix s4 '',p='' of None \<Rightarrow> None | Some s5 \<Rightarrow>
      case scan_uint 8 s5 of None \<Rightarrow> None | Some (p, _) \<Rightarrow> Some (m, t, p))"

definition pw_decode :: "string \<Rightarrow> (password_error, Params \<times> string \<times> string) result" where
  "pw_decode encodedHash =
     (case split_on (CHR ''$'') encodedHash of
        [_, p1, p2, p3, p4, p5] \<Rightarrow>
          if p1 \<noteq> ''argon2id'' then Inl ErrInvalidHash
          else (case (case cut_prefix p2 ''v='' of None \<Rightarrow> None | Some s \<Rightarrow> scan_int s) of
             None \<Rightarrow> Inl ErrInvalidHash
           | Some (version, _) \<Rightarrow>
               if version \<noteq> argon2_Version then Inl ErrIncompatible
               else (case scan_params p3 of
                  None \<Rightarrow> Inl ErrInvalidHash
                | Some (m, t, p) \<Rightarrow>
                    (case decode_strict Std_Alphabet p4 of None \<Rightarrow> Inl ErrInvalidHash | Some salt \<Rightarrow>
                     case decode_strict Std_Alphabet p5 of None \<Rightarrow> Inl ErrInvalidHash | Some key \<Rightarrow>
                     Inr (\<lparr>pa_Memory = m, pa_Time = t, pa_Threads = p, pa_SaltLength = length salt mod 2 ^ 32,
                           pa_KeyLength = length key mod 2 ^ 32\<rparr>, salt, key))))
      | _ \<Rightarrow> Inl ErrInvalidHash)"

definition pw_Verify :: "idkey \<Rightarrow> string \<Rightarrow> string \<Rightarrow> bool pw_result" where
  "pw_Verify idkey encodedHash password =
     (case pw_decode encodedHash of
        Inl e \<Rightarrow> PW_Err e
      | Inr (p, salt, key) \<Rightarrow>
          (case idkey password salt (pa_Time p) (pa_Memory p) (pa_Threads p) (length key mod 2 ^ 32) of
             None \<Rightarrow> PW_Panic
           | Some candidate \<Rightarrow> PW_Ok (key = candidate)))"

definition NeedsRehash :: "string \<Rightarrow> bool" where
  "NeedsRehash encodedHash =
     (case pw_decode encodedHash of
        Inl _ \<Rightarrow> True
      | Inr (p, _, _) \<Rightarrow> pa_Memory p < pa_Memory DefaultParams \<or> pa_Time p < pa_Time DefaultParams
                          \<or> pa_Threads p < pa_Threads DefaultParams)"

text \<open>The dummy hash is made once at start, and is empty when that fails.\<close>

definition mustDummy :: "idkey \<Rightarrow> nat \<Rightarrow> (nat \<Rightarrow> string option) \<Rightarrow> string pw_result" where
  "mustDummy idkey cpus rnd =
     (case pw_Hash idkey cpus rnd ''ryla-dummy-password-for-constant-time-login'' of
        PW_Ok h \<Rightarrow> PW_Ok h | PW_Err _ \<Rightarrow> PW_Ok [] | PW_Panic \<Rightarrow> PW_Panic)"

definition DummyVerify :: "idkey \<Rightarrow> string \<Rightarrow> string \<Rightarrow> bool pw_result" where
  "DummyVerify idkey dummyHash password = pw_Verify idkey dummyHash password"

section \<open>Parsing what was printed\<close>

lemma skip_space_digit: "is_digit (hd s) \<Longrightarrow> skip_space s = Some s"
proof (cases s)
  case (Cons c t)
  assume "is_digit (hd s)"
  then have "48 \<le> (of_char c :: nat)" by (simp add: Cons is_digit_def char_between_def)
  then have "c \<noteq> CHR 0x0D" "c \<noteq> CHR 0x0A" "\<not> is_space c" by (auto simp: is_space_def)
  then show ?thesis by (simp add: Cons)
qed simp

lemma take_format_nat:
  "r = [] \<or> \<not> is_digit (hd r) \<Longrightarrow> takeWhile is_digit (format_nat n @ r) = format_nat n \<and> dropWhile is_digit (format_nat n @ r) = r"
  using format_nat_digits [of n] by (cases r) (auto simp: list_all_iff takeWhile_append2 dropWhile_append2)

lemma hd_format_nat_append: "is_digit (hd (format_nat n @ r))"
  using format_nat_hd_digit [of n] by (simp add: hd_append)

lemma scan_uint_format:
  assumes "n < 2 ^ bits" and "bits \<le> 64" and "r = [] \<or> \<not> is_digit (hd r)"
  shows "scan_uint bits (format_nat n @ r) = Some (n, r)"
proof -
  have "n < 2 ^ 64" using assms(1,2) by (meson less_le_trans one_le_numeral power_increasing)
  then show ?thesis
    using assms take_format_nat [OF assms(3), of n]
    by (simp add: scan_uint_def skip_space_digit [OF hd_format_nat_append] parse_uint_format_nat)
qed

lemma scan_params_format:
  assumes "m < 2 ^ 32" and "t < 2 ^ 32" and "p < 2 ^ 8"
  shows "scan_params (''m='' @ format_nat m @ '',t='' @ format_nat t @ '',p='' @ format_nat p) = Some (m, t, p)"
proof -
  have c: "\<not> is_digit (CHR '','')" by (simp add: is_digit_def char_between_def)
  note u = scan_uint_format [of m 32 "'',t='' @ format_nat t @ '',p='' @ format_nat p"]
    scan_uint_format [of t 32 "'',p='' @ format_nat p"] scan_uint_format [of p 8 "[]"]
  show ?thesis unfolding scan_params_def
    using assms u c cut_prefix_append [of "''m=''"] cut_prefix_append [of "'',t=''"] cut_prefix_append [of "'',p=''"] by simp
qed

lemma format_nat_no_dollar: "CHR ''$'' \<notin> set (format_nat n)"
proof -
  have "\<not> is_digit (CHR ''$'')" by (simp add: is_digit_def char_between_def)
  then show ?thesis using format_nat_digits [of n] by (auto simp: list_all_iff)
qed

lemma scan_version: "scan_int (format_int argon2_Version) = Some (argon2_Version, [])"
  by code_simp

lemma version_no_dollar: "CHR ''$'' \<notin> set (format_int argon2_Version)"
  by code_simp

lemma split_six:
  "d \<notin> set a \<Longrightarrow> d \<notin> set b \<Longrightarrow> d \<notin> set c \<Longrightarrow> d \<notin> set e \<Longrightarrow> d \<notin> set f \<Longrightarrow> d \<notin> set g \<Longrightarrow>
   split_on d (a @ d # b @ d # c @ d # e @ d # f @ d # g) = [a, b, c, e, f, g]"
  by (simp add: split_on_append split_on_id)

lemma pw_decode_phc:
  assumes "m < 2 ^ 32" and "t < 2 ^ 32" and "p < 2 ^ 8" and "length salt < 2 ^ 32" and "length key < 2 ^ 32"
  shows "pw_decode (phc argon2_Version m t p salt key) =
    Inr (\<lparr>pa_Memory = m, pa_Time = t, pa_Threads = p, pa_SaltLength = length salt, pa_KeyLength = length key\<rparr>, salt, key)"
proof -
  let ?v = "''v='' @ format_int argon2_Version"
  let ?ps = "''m='' @ format_nat m @ '',t='' @ format_nat t @ '',p='' @ format_nat p"
  let ?s = "encode Std_Alphabet salt" and ?k = "encode Std_Alphabet key"
  let ?d = "CHR ''$''"
  have e: "?d \<notin> set (encode Std_Alphabet x)" for x
    using encode_set [of Std_Alphabet x] alphabet_excludes(3) by auto
  have split: "split_on ?d ([] @ ?d # ''argon2id'' @ ?d # ?v @ ?d # ?ps @ ?d # ?s @ ?d # ?k)
      = [[], ''argon2id'', ?v, ?ps, ?s, ?k]"
    by (rule split_six) (use version_no_dollar format_nat_no_dollar e in simp_all)
  have phc: "phc argon2_Version m t p salt key = [] @ ?d # ''argon2id'' @ ?d # ?v @ ?d # ?ps @ ?d # ?s @ ?d # ?k"
    by (simp add: phc_def)
  have v: "cut_prefix ?v ''v='' = Some (format_int argon2_Version)" by (rule cut_prefix_append)
  show ?thesis
    unfolding pw_decode_def phc split
    by (simp only: list.case v option.case scan_version prod.case scan_params_format [OF assms(1-3)]) (use assms in simp)
qed

section \<open>Properties\<close>

text \<open>The widths of the parameters, and what is relied on of the random source and of argon2: bytes
  of the asked length, and a key of the asked length when there is a pass and a thread.\<close>

definition params_ok :: "Params \<Rightarrow> bool" where
  "params_ok p = (pa_Memory p < 2 ^ 32 \<and> 0 < pa_Time p \<and> pa_Time p < 2 ^ 32 \<and> pa_Threads p < 2 ^ 8
     \<and> pa_SaltLength p < 2 ^ 32 \<and> 0 < pa_KeyLength p \<and> pa_KeyLength p < 2 ^ 32)"

definition idkey_ok :: "idkey \<Rightarrow> bool" where
  "idkey_ok idkey = (\<forall>pw salt t m p n. 0 < t \<and> 0 < p \<and> 0 < n \<longrightarrow> (\<exists>k. idkey pw salt t m p n = Some k \<and> length k = n))"


definition toy_idkey :: idkey where
  "toy_idkey pw salt t m p n = (if 0 < t \<and> 0 < p \<and> 0 < n then Some (take n (pw @ replicate n CHR ''.'')) else None)"

lemma toy_idkey_ok: "idkey_ok toy_idkey"
  by (auto simp: idkey_ok_def toy_idkey_def min_def)


text \<open>The length of the salt and of the key do not count for renewal: a hash with a key of one byte and
  the other parameters at their defaults is taken for current.  And a stored hash with no passes makes
  Verify panic inside argon2, where an error is promised for a hash that cannot be used.\<close>

theorem password_weak_lengths_kept:
  "\<not> NeedsRehash (phc argon2_Version (19 * 1024) 2 1 [] ''k'')
   \<and> pw_Verify toy_idkey (phc argon2_Version (19 * 1024) 0 1 ''s'' ''k'') q = PW_Panic"
proof -
  have a: "pw_decode (phc argon2_Version (19 * 1024) 2 1 [] ''k'') =
      Inr (\<lparr>pa_Memory = 19 * 1024, pa_Time = 2, pa_Threads = 1, pa_SaltLength = length ([] :: string), pa_KeyLength = length ''k''\<rparr>, [], ''k'')"
    by (rule pw_decode_phc) simp_all
  have b: "pw_decode (phc argon2_Version (19 * 1024) 0 1 ''s'' ''k'') =
      Inr (\<lparr>pa_Memory = 19 * 1024, pa_Time = 0, pa_Threads = 1, pa_SaltLength = length ''s'', pa_KeyLength = length ''k''\<rparr>, ''s'', ''k'')"
    by (rule pw_decode_phc) simp_all
  show ?thesis unfolding NeedsRehash_def pw_Verify_def a b by (simp add: DefaultParams_def toy_idkey_def)
qed

end
