(* ===== verification/Release.thy ===== *)
theory Release
  imports Prelude "HOL-Library.Finite_Map"
begin

text \<open>
  The update check of the command line, \<^verbatim>\<open>cmd/ry/internal/release/release.go\<close>: the newest
  published version of a module, the daily cache, and the comparison with the running version.

  The package \<^verbatim>\<open>semver\<close> is third-party code and an argument, the module proxy is a function from
  endpoints to bodies, and the environment is a map.  The cache is a map from paths to entries; a file
  that cannot be read or decoded is absent from it.
\<close>

record semver =
  sem_IsValid :: "string \<Rightarrow> bool"
  sem_Compare :: "string \<Rightarrow> string \<Rightarrow> int"
  sem_Prerelease :: "string \<Rightarrow> string"

definition CheckInterval :: duration where "CheckInterval = 24 * Hour"

record Info =
  in_Version :: string
  in_Time :: time

definition no_info :: Info where "no_info = \<lparr>in_Version = [], in_Time = zero_time\<rparr>"

datatype release_error = Err_Proxy string | Err_ProxyDecode | Err_NoStable

section \<open>The newest version\<close>

fun best_loop :: "semver \<Rightarrow> string list \<Rightarrow> string \<Rightarrow> string" where
  "best_loop sv [] best = best"
| "best_loop sv (line # ls) best =
     (let v = trim_space line in
      if \<not> sem_IsValid sv v \<or> sem_Prerelease sv v \<noteq> [] then best_loop sv ls best
      else if best = [] \<or> sem_Compare sv v best > 0 then best_loop sv ls v
      else best_loop sv ls best)"

definition highestListed :: "semver \<Rightarrow> (string \<Rightarrow> (release_error, string) result) \<Rightarrow> (release_error, Info) result" where
  "highestListed sv get =
     (case get ''@v/list'' of
        Inl e \<Rightarrow> Inl e
      | Inr body \<Rightarrow>
          let best = best_loop sv (split_on (CHR 0x0A) body) []
          in if best = [] then Inl Err_NoStable else Inr \<lparr>in_Version = best, in_Time = zero_time\<rparr>)"

definition latestEndpoint ::
  "(string \<Rightarrow> Info option) \<Rightarrow> (string \<Rightarrow> (release_error, string) result) \<Rightarrow> (release_error, Info) result" where
  "latestEndpoint unmarshal get =
     (case get ''@latest'' of
        Inl e \<Rightarrow> Inl e
      | Inr body \<Rightarrow> (case unmarshal body of None \<Rightarrow> Inl Err_ProxyDecode | Some i \<Rightarrow> Inr i))"

definition release_Latest ::
  "semver \<Rightarrow> (string \<Rightarrow> Info option) \<Rightarrow> (string \<Rightarrow> (release_error, string) result) \<Rightarrow> (release_error, Info) result" where
  "release_Latest sv unmarshal get =
     (case (latestEndpoint unmarshal get, highestListed sv get) of
        (Inl e, Inl _) \<Rightarrow> Inl e
      | (Inl _, Inr listed) \<Rightarrow> Inr listed
      | (Inr latest, Inl _) \<Rightarrow> Inr latest
      | (Inr latest, Inr listed) \<Rightarrow>
          Inr (if sem_IsValid sv (in_Version listed) \<and> sem_Compare sv (in_Version listed) (in_Version latest) > 0
               then listed else latest))"

definition IsNewer :: "semver \<Rightarrow> string \<Rightarrow> string \<Rightarrow> bool" where
  "IsNewer sv current latest =
     (if latest = [] \<or> current = [] \<or> current = ''dev'' then False
      else if contains_str current ''+dirty'' then False
      else if \<not> sem_IsValid sv current \<or> \<not> sem_IsValid sv latest then False
      else sem_Compare sv latest current > 0)"

section \<open>Where to ask\<close>

definition getenv :: "(string, string) fmap \<Rightarrow> string \<Rightarrow> string" where
  "getenv env key = (case fmlookup env key of None \<Rightarrow> [] | Some v \<Rightarrow> v)"

definition release_disabled :: "(string, string) fmap \<Rightarrow> bool" where
  "release_disabled env =
     list_ex (\<lambda>key. getenv env key \<notin> {[], ''0'', ''false''}) [''RYLA_NO_UPDATE_CHECK'', ''CI'']"

text \<open>\<^verbatim>\<open>strings.FieldsFunc\<close>: the non-empty runs between separators.\<close>

definition fields_func :: "(char \<Rightarrow> bool) \<Rightarrow> string \<Rightarrow> string list" where
  "fields_func sep s =
     filter (\<lambda>w. w \<noteq> []) (split_on (CHR '','') (map (\<lambda>c. if sep c then CHR '','' else c) s))"

definition proxyBase :: "(string, string) fmap \<Rightarrow> string" where
  "proxyBase env =
     (let proxy = getenv env ''GOPROXY'';
          usable = (\<lambda>p. p \<noteq> [] \<and> p \<noteq> ''direct'' \<and> p \<noteq> ''off'')
      in if proxy = [] \<or> proxy = ''off'' \<or> proxy = ''direct'' then ''https://proxy.golang.org''
         else case find usable (map trim_space (fields_func (\<lambda>c. c = CHR '','' \<or> c = CHR ''|'') proxy)) of
           Some p \<Rightarrow> p | None \<Rightarrow> ''https://proxy.golang.org'')"

definition escapeModule :: "string \<Rightarrow> string" where
  "escapeModule m = concat (map (\<lambda>c. if is_upper c then [CHR ''!'', lower_char c] else [c]) m)"

definition release_url :: "(string, string) fmap \<Rightarrow> string \<Rightarrow> string \<Rightarrow> string" where
  "release_url env module endpoint =
     rev (dropWhile (\<lambda>c. c = CHR ''/'') (rev (proxyBase env))) @ ''/'' @ escapeModule module @ ''/'' @ endpoint"

section \<open>The cache\<close>

record cacheEntry =
  ce_Info :: Info
  ce_CheckedAt :: time

type_synonym release_cache = "(string, cacheEntry) fmap"

text \<open>The path is empty when there is no cache directory.\<close>

definition cachePath :: "string option \<Rightarrow> string \<Rightarrow> string" where
  "cachePath dir module =
     (case dir of
        None \<Rightarrow> []
      | Some d \<Rightarrow> d @ ''/ryla/'' @ map (\<lambda>c. if c = CHR ''/'' \<or> c = CHR '':'' then CHR ''_'' else c) module @ ''.json'')"

definition readCache :: "time \<Rightarrow> string \<Rightarrow> release_cache \<Rightarrow> Info \<times> bool" where
  "readCache now path cache =
     (if path = [] then (no_info, False)
      else case fmlookup cache path of
        None \<Rightarrow> (no_info, False)
      | Some e \<Rightarrow>
          if now - ce_CheckedAt e > CheckInterval then (no_info, False)
          else if in_Version (ce_Info e) = [] then (no_info, True)
          else (ce_Info e, True))"

text \<open>Writing may fail silently.\<close>

definition writeCache :: "bool \<Rightarrow> string \<Rightarrow> Info \<Rightarrow> time \<Rightarrow> release_cache \<Rightarrow> release_cache" where
  "writeCache writable path info at cache =
     (if path = [] \<or> \<not> writable then cache else fmupd path \<lparr>ce_Info = info, ce_CheckedAt = at\<rparr> cache)"

text \<open>\<open>look\<close> is what \<^const>\<open>release_Latest\<close> answers now.\<close>

definition release_Refresh ::
  "bool \<Rightarrow> (release_error, Info) result \<Rightarrow> time \<Rightarrow> string \<Rightarrow> release_cache \<Rightarrow> (Info \<times> bool) \<times> release_cache" where
  "release_Refresh writable look now path cache =
     (case look of
        Inl _ \<Rightarrow> ((no_info, False), cache)
      | Inr info \<Rightarrow> ((info, True), writeCache writable path info now cache))"

definition release_Cached ::
  "(string, string) fmap \<Rightarrow> bool \<Rightarrow> (release_error, Info) result \<Rightarrow> time \<Rightarrow> string \<Rightarrow> release_cache \<Rightarrow> (Info \<times> bool) \<times> release_cache" where
  "release_Cached env writable look now path cache =
     (if release_disabled env then ((no_info, False), cache)
      else case readCache now path cache of
        (info, True) \<Rightarrow> ((info, True), cache)
      | (_, False) \<Rightarrow>
          (case look of
             Inl _ \<Rightarrow> ((no_info, False), writeCache writable path no_info now cache)
           | Inr info \<Rightarrow> ((info, True), writeCache writable path info now cache)))"

section \<open>Properties\<close>

text \<open>What is relied on of the comparison: a total preorder on versions.\<close>

definition semver_ok :: "semver \<Rightarrow> bool" where
  "semver_ok sv =
     ((\<forall>a b. sem_Compare sv a b > 0 \<longleftrightarrow> sem_Compare sv b a < 0)
      \<and> (\<forall>a b c. sem_Compare sv a b \<ge> 0 \<and> sem_Compare sv b c \<ge> 0 \<longrightarrow> sem_Compare sv a c \<ge> 0)
      \<and> \<not> sem_IsValid sv [])"

definition stable :: "semver \<Rightarrow> string \<Rightarrow> bool" where
  "stable sv v = (sem_IsValid sv v \<and> sem_Prerelease sv v = [])"

lemma sem_refl: "semver_ok sv \<Longrightarrow> sem_Compare sv a a \<ge> 0"
  unfolding semver_ok_def by (metis not_less less_asym')

lemma best_loop_greatest:
  fixes ls :: "string list" and best :: string
  assumes sv: "semver_ok sv" and "best = [] \<or> stable sv best"
  defines "r \<equiv> best_loop sv ls best"
  shows "(r = [] \<or> stable sv r) \<and> (r = [] \<longleftrightarrow> best = [] \<and> (\<forall>l \<in> set ls. \<not> stable sv (trim_space l)))
    \<and> (r = best \<or> r \<in> trim_space ` set ls)
    \<and> (r \<noteq> [] \<longrightarrow> (best \<noteq> [] \<longrightarrow> sem_Compare sv r best \<ge> 0)
         \<and> (\<forall>l \<in> set ls. stable sv (trim_space l) \<longrightarrow> sem_Compare sv r (trim_space l) \<ge> 0))"
  unfolding r_def using assms(2)
proof (induction ls arbitrary: best)
  case Nil
  then show ?case using sem_refl [OF sv] by simp
next
  case (Cons line ls)
  let ?v = "trim_space line"
  have trans: "sem_Compare sv a b \<ge> 0 \<Longrightarrow> sem_Compare sv b c \<ge> 0 \<Longrightarrow> sem_Compare sv a c \<ge> 0"
    and flip: "\<not> sem_Compare sv a b > 0 \<Longrightarrow> sem_Compare sv b a \<ge> 0" for a b c
    using sv unfolding semver_ok_def by (blast, metis not_less)
  consider (skip) "\<not> stable sv ?v" | (take) "stable sv ?v" "best = [] \<or> sem_Compare sv ?v best > 0"
    | (keep) "stable sv ?v" "best \<noteq> []" "\<not> sem_Compare sv ?v best > 0" by blast
  then show ?case
  proof cases
    case skip
    then have "best_loop sv (line # ls) best = best_loop sv ls best" by (auto simp: stable_def Let_def)
    then show ?thesis using Cons.IH [OF Cons.prems] skip by auto
  next
    case take
    then have eq: "best_loop sv (line # ls) best = best_loop sv ls ?v" by (auto simp: stable_def Let_def)
    have ne: "?v \<noteq> []" using take(1) sv by (auto simp: stable_def semver_ok_def)
    have ih: "stable sv (best_loop sv ls ?v)" "best_loop sv ls ?v \<noteq> []" "sem_Compare sv (best_loop sv ls ?v) ?v \<ge> 0"
        "best_loop sv ls ?v = ?v \<or> best_loop sv ls ?v \<in> trim_space ` set ls"
        "\<forall>l \<in> set ls. stable sv (trim_space l) \<longrightarrow> sem_Compare sv (best_loop sv ls ?v) (trim_space l) \<ge> 0"
      using Cons.IH [of ?v] take(1) ne by auto
    have "best \<noteq> [] \<longrightarrow> sem_Compare sv (best_loop sv ls ?v) best \<ge> 0" using take(2) trans [OF ih(3)] by fastforce
    then show ?thesis unfolding eq using ih take(1) by auto
  next
    case keep
    then have eq: "best_loop sv (line # ls) best = best_loop sv ls best" by (auto simp: stable_def Let_def)
    have ih: "stable sv (best_loop sv ls best)" "best_loop sv ls best \<noteq> []" "sem_Compare sv (best_loop sv ls best) best \<ge> 0"
        "best_loop sv ls best = best \<or> best_loop sv ls best \<in> trim_space ` set ls"
        "\<forall>l \<in> set ls. stable sv (trim_space l) \<longrightarrow> sem_Compare sv (best_loop sv ls best) (trim_space l) \<ge> 0"
      using Cons.IH [OF Cons.prems] keep(2) by auto
    have "sem_Compare sv (best_loop sv ls best) ?v \<ge> 0" using trans [OF ih(3) flip [OF keep(3)]] .
    then show ?thesis unfolding eq using ih keep(1,2) by auto
  qed
qed

text \<open>The update check offers the greatest version it can see, and no candidate.  From the list it takes
  a stable version that none of the listed stable ones exceeds, and it fails exactly when there is none;
  when both endpoints answer, what it reports is at least as new as either; it fails only when both do;
  and once a lookup was made, the cached answer is used for a day, whatever the network says.\<close>

theorem release_latest_greatest:
  assumes "semver_ok sv" and "get ''@v/list'' = Inr body"
  shows "(case highestListed sv get of
      Inl e \<Rightarrow> e = Err_NoStable \<and> (\<forall>l \<in> set (split_on (CHR 0x0A) body). \<not> stable sv (trim_space l))
    | Inr i \<Rightarrow> stable sv (in_Version i) \<and> in_Version i \<in> trim_space ` set (split_on (CHR 0x0A) body)
        \<and> (\<forall>l \<in> set (split_on (CHR 0x0A) body). stable sv (trim_space l) \<longrightarrow> sem_Compare sv (in_Version i) (trim_space l) \<ge> 0)
        \<and> (\<exists>r. release_Latest sv unmarshal get = Inr r \<and> sem_Compare sv (in_Version r) (in_Version i) \<ge> 0
             \<and> (\<forall>latest. latestEndpoint unmarshal get = Inr latest \<longrightarrow> sem_Compare sv (in_Version r) (in_Version latest) \<ge> 0)))
    \<and> (path \<noteq> [] \<and> \<not> release_disabled env \<and> at \<le> now \<and> now \<le> at + CheckInterval \<longrightarrow>
         release_Cached env w2 look2 now path (snd (release_Refresh True (Inr info) at path cache))
           = ((if in_Version info = [] then no_info else info, True), snd (release_Refresh True (Inr info) at path cache)))"
proof -
  define r where "r = best_loop sv (split_on (CHR 0x0A) body) []"
  note g = best_loop_greatest [OF assms(1), of "[]" "split_on (CHR 0x0A) body", folded r_def, simplified]
  have flip: "\<not> sem_Compare sv a b > 0 \<Longrightarrow> sem_Compare sv b a \<ge> 0" for a b
    using assms(1) unfolding semver_ok_def by (metis not_less)
  have h: "highestListed sv get = (if r = [] then Inl Err_NoStable else Inr \<lparr>in_Version = r, in_Time = zero_time\<rparr>)"
    by (simp add: highestListed_def assms(2) r_def Let_def)
  have "\<exists>x. release_Latest sv unmarshal get = Inr x \<and> sem_Compare sv (in_Version x) r \<ge> 0
      \<and> (\<forall>latest. latestEndpoint unmarshal get = Inr latest \<longrightarrow> sem_Compare sv (in_Version x) (in_Version latest) \<ge> 0)" if "r \<noteq> []"
  proof (cases "latestEndpoint unmarshal get")
    case (Inl e)
    then have "release_Latest sv unmarshal get = Inr \<lparr>in_Version = r, in_Time = zero_time\<rparr>"
      using that by (simp add: release_Latest_def h)
    then show ?thesis using Inl sem_refl [OF assms(1)] by simp
  next
    case (Inr latest)
    have v: "sem_IsValid sv r" using g that by (simp add: stable_def)
    show ?thesis
    proof (cases "sem_Compare sv r (in_Version latest) > 0")
      case True
      then have "release_Latest sv unmarshal get = Inr \<lparr>in_Version = r, in_Time = zero_time\<rparr>"
        using that Inr v by (simp add: release_Latest_def h)
      then show ?thesis using Inr True sem_refl [OF assms(1)] by simp
    next
      case False
      then have "release_Latest sv unmarshal get = Inr latest" using that Inr by (simp add: release_Latest_def h)
      then show ?thesis using Inr flip [OF False] sem_refl [OF assms(1)] by simp
    qed
  qed
  moreover have "release_Cached env w2 look2 now path (snd (release_Refresh True (Inr info) at path cache))
      = ((if in_Version info = [] then no_info else info, True), snd (release_Refresh True (Inr info) at path cache))"
    if "path \<noteq> [] \<and> \<not> release_disabled env \<and> at \<le> now \<and> now \<le> at + CheckInterval"
    using that by (simp add: release_Cached_def release_Refresh_def writeCache_def readCache_def)
  ultimately show ?thesis using g by (cases "r = []") (simp_all add: h)
qed

definition toy_semver :: semver where
  "toy_semver = \<lparr>sem_IsValid = (\<lambda>v. v \<noteq> []), sem_Compare = (\<lambda>a b. int (length a) - int (length b)), sem_Prerelease = (\<lambda>_. [])\<rparr>"

theorem release_latest_greatest_witness:
  "semver_ok toy_semver \<and> (\<exists>r. release_Latest toy_semver (\<lambda>_. Some \<lparr>in_Version = ''v1'', in_Time = 0\<rparr>)
       (\<lambda>e. if e = ''@v/list'' then Inr (''v'' @ [CHR 0x0A] @ ''v12'') else Inr []) = Inr r
     \<and> sem_Compare toy_semver (in_Version r) ''v12'' \<ge> 0)"
proof -
  let ?get = "\<lambda>e. if e = ''@v/list'' then Inr (''v'' @ [CHR 0x0A] @ ''v12'') else Inr []"
  let ?un = "\<lambda>_ :: string. Some \<lparr>in_Version = ''v1'', in_Time = 0\<rparr>"
  have sv: "semver_ok toy_semver" by (auto simp: semver_ok_def toy_semver_def)
  have get: "?get ''@v/list'' = Inr (''v'' @ [CHR 0x0A] @ ''v12'')" by simp
  have h: "highestListed toy_semver ?get = Inr \<lparr>in_Version = ''v12'', in_Time = zero_time\<rparr>" by code_simp
  from conjunct1 [OF release_latest_greatest [OF sv, where get = ?get, OF get, where unmarshal = ?un]] sv
  show ?thesis unfolding h by auto
qed

end
