(* ===== verification/Config.thy ===== *)
theory Config
  imports Duration "HOL-Library.Finite_Map"
begin

text \<open>
  The package \<^verbatim>\<open>config\<close>: loading dotenv files into the environment and the typed readers
  (\<^verbatim>\<open>config.go\<close>), and the address of the development server, \<^verbatim>\<open>cmd/ry/internal/commands/port.go\<close>.

  The environment is a map.  The parser of dotenv files is third-party code: a file is absent, does not
  parse, or gives its assignments.  That \<^verbatim>\<open>godotenv.Load\<close> keeps what is already set is what the source
  states of it.  Binding a port is an argument.
\<close>

section \<open>Loading\<close>

definition EnvLocal :: string where "EnvLocal = ''local''"
definition EnvTest :: string where "EnvTest = ''test''"
definition EnvProduction :: string where "EnvProduction = ''production''"

record Core =
  core_Name :: string
  core_Env :: string
  core_Debug :: bool
  core_URL :: string
  core_Addr :: string
  core_Key :: string

definition IsProduction :: "Core \<Rightarrow> bool" where "IsProduction c = (core_Env c = EnvProduction)"
definition IsLocal :: "Core \<Rightarrow> bool" where "IsLocal c = (core_Env c = EnvLocal)"

type_synonym environment = "(string, string) fmap"

datatype dotenv = Missing | Malformed | Assignments environment

definition godotenv_Load :: "environment \<Rightarrow> environment \<Rightarrow> environment" where
  "godotenv_Load file env = file ++\<^sub>f env"

fun load_loop :: "(string \<Rightarrow> dotenv) \<Rightarrow> string list \<Rightarrow> environment \<Rightarrow> string option \<times> environment" where
  "load_loop files [] env = (None, env)"
| "load_loop files (p # ps) env =
     (case files p of
        Missing \<Rightarrow> load_loop files ps env
      | Malformed \<Rightarrow> (Some p, env)
      | Assignments a \<Rightarrow> load_loop files ps (godotenv_Load a env))"

definition config_Load :: "(string \<Rightarrow> dotenv) \<Rightarrow> string list \<Rightarrow> environment \<Rightarrow> string option \<times> environment" where
  "config_Load files paths env = load_loop files (if paths = [] then [''.env''] else paths) env"

section \<open>Readers\<close>

definition config_lookup :: "environment \<Rightarrow> string \<Rightarrow> string option" where
  "config_lookup env key = (case fmlookup env key of None \<Rightarrow> None | Some v \<Rightarrow> if v = [] then None else Some v)"

definition config_String :: "environment \<Rightarrow> string \<Rightarrow> string \<Rightarrow> string" where
  "config_String env key def = (case config_lookup env key of Some v \<Rightarrow> v | None \<Rightarrow> def)"

definition config_Int :: "environment \<Rightarrow> string \<Rightarrow> int \<Rightarrow> int" where
  "config_Int env key def =
     (case config_lookup env key of None \<Rightarrow> def | Some v \<Rightarrow> (case atoi v of None \<Rightarrow> def | Some n \<Rightarrow> n))"

definition config_Bool :: "environment \<Rightarrow> string \<Rightarrow> bool \<Rightarrow> bool" where
  "config_Bool env key def =
     (case config_lookup env key of
        None \<Rightarrow> def
      | Some v \<Rightarrow>
          if to_lower v \<in> {''yes'', ''on''} then True
          else if to_lower v \<in> {''no'', ''off''} then False
          else (case parse_bool v of None \<Rightarrow> def | Some b \<Rightarrow> b))"

definition config_Duration :: "(rat \<Rightarrow> rat) \<Rightarrow> environment \<Rightarrow> string \<Rightarrow> duration \<Rightarrow> duration" where
  "config_Duration fl env key def =
     (case config_lookup env key of None \<Rightarrow> def | Some v \<Rightarrow> (case parse_duration fl v of None \<Rightarrow> def | Some d \<Rightarrow> d))"

section \<open>The address of the development server\<close>

definition defaultAddr :: string where "defaultAddr = '':8080''"
definition portScanLimit :: int where "portScanLimit = 20"

definition normalizeAddr :: "string \<Rightarrow> string" where
  "normalizeAddr addr0 =
     (let addr = trim_space addr0
      in if addr = [] then [] else if CHR '':'' \<notin> set addr then CHR '':'' # addr else addr)"

text \<open>\<^verbatim>\<open>net.SplitHostPort\<close>: the host, possibly in brackets, and the port after the last colon.\<close>

definition split_addr :: "string \<Rightarrow> (string \<times> string) option" where
  "split_addr a =
     (if CHR '':'' \<notin> set a then None
      else let port = rev (takeWhile (\<lambda>c. c \<noteq> CHR '':'') (rev a));
               before = take (length a - length port - 1) a
           in if before \<noteq> [] \<and> hd before = CHR ''[''
              then (let inner = takeWhile (\<lambda>c. c \<noteq> CHR '']'') (tl before)
                    in if before = CHR ''['' # inner @ '']'' \<and> CHR ''['' \<notin> set inner
                          \<and> CHR ''['' \<notin> set port \<and> CHR '']'' \<notin> set port
                       then Some (inner, port) else None)
              else if CHR '':'' \<in> set before \<or> CHR ''['' \<in> set a \<or> CHR '']'' \<in> set a then None
              else Some (before, port))"

definition join_addr :: "string \<Rightarrow> int \<Rightarrow> string" where
  "join_addr host port =
     (if CHR '':'' \<in> set host \<or> CHR ''%'' \<in> set host then ''['' @ host @ '']:'' @ format_int port
      else host @ '':'' @ format_int port)"

datatype probe = Free | In_Use | Not_Bindable

datatype addr_error = Err_InvalidAddr string | Err_Listen string | Err_Strict int | Err_AllInUse int int

function scan_ports :: "(string \<Rightarrow> probe) \<Rightarrow> string \<Rightarrow> int \<Rightarrow> int \<Rightarrow> (addr_error, string) result" where
  "scan_ports probe host port k =
     (if port + k \<le> port + portScanLimit \<and> port + k \<le> 65535
      then (if probe (join_addr host (port + k)) = Free then Inr (join_addr host (port + k))
            else scan_ports probe host port (k + 1))
      else Inl (Err_AllInUse port (port + portScanLimit)))"
  by pat_completeness auto

termination
  by (relation "measure (\<lambda>(probe, host, port, k). nat (portScanLimit + 1 - k))") auto

declare scan_ports.simps [simp del]

definition resolveDevAddr ::
  "(string \<Rightarrow> probe) \<Rightarrow> string \<Rightarrow> string \<Rightarrow> bool \<Rightarrow> (addr_error, string) result" where
  "resolveDevAddr probe fromEnv requested strict =
     (let d1 = normalizeAddr requested;
          d2 = (if d1 = [] then normalizeAddr fromEnv else d1);
          desired = (if d2 = [] then defaultAddr else d2)
      in case split_addr desired of
           None \<Rightarrow> Inl (Err_InvalidAddr desired)
         | Some (host, portStr) \<Rightarrow>
             if portStr = ''0'' then Inr desired
             else (case atoi portStr of
                None \<Rightarrow> Inr desired
              | Some port \<Rightarrow>
                  (case probe desired of
                     Free \<Rightarrow> Inr desired
                   | Not_Bindable \<Rightarrow> Inl (Err_Listen desired)
                   | In_Use \<Rightarrow> if strict then Inl (Err_Strict port) else scan_ports probe host port 1)))"

text \<open>\<^verbatim>\<open>addrFromEnvFile\<close>: the environment first, then the file.\<close>

definition addrFromEnvFile :: "environment \<Rightarrow> dotenv \<Rightarrow> string" where
  "addrFromEnvFile env file =
     (case fmlookup env ''APP_ADDR'' of
        Some v \<Rightarrow> if v \<noteq> [] then v else
          (case file of Assignments a \<Rightarrow> (case fmlookup a ''APP_ADDR'' of Some w \<Rightarrow> w | None \<Rightarrow> []) | _ \<Rightarrow> [])
      | None \<Rightarrow> (case file of Assignments a \<Rightarrow> (case fmlookup a ''APP_ADDR'' of Some w \<Rightarrow> w | None \<Rightarrow> []) | _ \<Rightarrow> []))"

section \<open>Properties\<close>

text \<open>The first file of a list that assigns a variable.\<close>

fun first_assignment :: "(string \<Rightarrow> dotenv) \<Rightarrow> string list \<Rightarrow> string \<Rightarrow> string option" where
  "first_assignment files [] key = None"
| "first_assignment files (p # ps) key =
     (case files p of
        Assignments a \<Rightarrow> (case fmlookup a key of Some v \<Rightarrow> Some v | None \<Rightarrow> first_assignment files ps key)
      | _ \<Rightarrow> first_assignment files ps key)"

lemma load_loop_lookup:
  "load_loop files ps env = (None, env') \<Longrightarrow>
   fmlookup env' key = (case fmlookup env key of Some v \<Rightarrow> Some v | None \<Rightarrow> first_assignment files ps key)"
proof (induction files ps env rule: load_loop.induct)
  case (2 files p ps env)
  then show ?case
    by (cases "files p") (auto simp: godotenv_Load_def fmdom_notD split: option.splits)
qed (simp split: option.split)

lemma load_loop_error: "load_loop files ps env = (e, env') \<Longrightarrow> e = None \<longleftrightarrow> (\<forall>p \<in> set ps. files p \<noteq> Malformed)"
  by (induction files ps env rule: load_loop.induct) (auto split: dotenv.splits)

text \<open>The environment overrides the files and the readers never fail.  Loading succeeds exactly when no
  file that exists is malformed; then a variable has the value of the environment if it was set there, and
  else the value of the first file that assigns it.  An integer, a boolean and a duration in the form in
  which they are printed are read back, and a variable that is absent or empty gives the default.\<close>

theorem config_precedence:
  "(case config_Load files paths env of
      (e, env') \<Rightarrow> (e = None \<longleftrightarrow> (\<forall>p \<in> set (if paths = [] then [''.env''] else paths). files p \<noteq> Malformed))
        \<and> (e = None \<longrightarrow> fmlookup env' key =
             (case fmlookup env key of Some v \<Rightarrow> Some v
              | None \<Rightarrow> first_assignment files (if paths = [] then [''.env''] else paths) key)))
   \<and> (config_lookup env key = None \<longrightarrow> config_String env key s = s \<and> config_Int env key i = i
        \<and> config_Bool env key b = b \<and> config_Duration fl env key d = d)
   \<and> (fmlookup env key = Some (format_int n) \<and> - (2 ^ 63) \<le> n \<and> n < 2 ^ 63 \<longrightarrow> config_Int env key i = n)
   \<and> (fmlookup env key = Some (format_bool c) \<longrightarrow> config_Bool env key b = c)
   \<and> (fmlookup env key = Some (format_nat k @ ''s'') \<and> k * 1000000000 < 2 ^ 63 \<longrightarrow>
        config_Duration fl env key d = int k * Second)"
proof (intro conjI)
  show "case config_Load files paths env of
      (e, env') \<Rightarrow> (e = None \<longleftrightarrow> (\<forall>p \<in> set (if paths = [] then [''.env''] else paths). files p \<noteq> Malformed))
        \<and> (e = None \<longrightarrow> fmlookup env' key =
             (case fmlookup env key of Some v \<Rightarrow> Some v
              | None \<Rightarrow> first_assignment files (if paths = [] then [''.env''] else paths) key))"
  proof -
    obtain e env' where l: "load_loop files (if paths = [] then [''.env''] else paths) env = (e, env')" by fastforce
    show ?thesis unfolding config_Load_def l prod.case
      using load_loop_lookup [of files "if paths = [] then [''.env''] else paths" env env'] load_loop_error [OF l] l by simp
  qed
  show "config_lookup env key = None \<longrightarrow> config_String env key s = s \<and> config_Int env key i = i
        \<and> config_Bool env key b = b \<and> config_Duration fl env key d = d"
    by (simp add: config_String_def config_Int_def config_Bool_def config_Duration_def)
  have ne: "format_int n \<noteq> []" for n by (simp add: format_int_def)
  show "fmlookup env key = Some (format_int n) \<and> - (2 ^ 63) \<le> n \<and> n < 2 ^ 63 \<longrightarrow> config_Int env key i = n"
    using ne [of n] by (auto simp: config_Int_def config_lookup_def atoi_format_int)
  show "fmlookup env key = Some (format_bool c) \<longrightarrow> config_Bool env key b = c"
    by (cases c) (auto simp: config_Bool_def config_lookup_def format_bool_def parse_bool_def to_lower_def lower_char_def is_upper_def char_between_def)
  show "fmlookup env key = Some (format_nat k @ ''s'') \<and> k * 1000000000 < 2 ^ 63 \<longrightarrow> config_Duration fl env key d = int k * Second"
    by (auto simp: config_Duration_def config_lookup_def parse_duration_seconds)
qed

theorem config_precedence_witness:
  "config_Int (fmupd ''PORT'' (format_int (- 5)) fmempty) ''PORT'' 8080 = - 5
   \<and> fmlookup (snd (config_Load (\<lambda>_. Assignments (fmupd ''A'' ''file'' fmempty)) [] (fmupd ''A'' ''real'' fmempty))) ''A'' = Some ''real''"
proof -
  let ?files = "\<lambda>_ :: string. Assignments (fmupd ''A'' ''file'' fmempty)" and ?env = "fmupd ''A'' ''real'' fmempty"
  obtain e env' where l: "config_Load ?files [] ?env = (e, env')" by fastforce
  have "fmlookup env' ''A'' = Some ''real''"
    using conjunct1 [OF config_precedence [where files = ?files and paths = "[]" and env = ?env and key = "''A''"]]
    unfolding l by simp
  moreover have "config_Int (fmupd ''PORT'' (format_int (- 5)) fmempty) ''PORT'' 8080 = - 5"
    using config_precedence [where env = "fmupd ''PORT'' (format_int (- 5)) fmempty" and key = "''PORT''" and n = "- 5" and i = 8080]
    by simp
  ultimately show ?thesis using l by simp
qed

lemma scan_ports_spec:
  assumes "1 \<le> k"
  shows "case scan_ports probe host port k of
      Inr a \<Rightarrow> \<exists>n \<ge> k. n \<le> portScanLimit \<and> port + n \<le> 65535 \<and> a = join_addr host (port + n) \<and> probe a = Free
        \<and> (\<forall>j. k \<le> j \<and> j < n \<longrightarrow> probe (join_addr host (port + j)) \<noteq> Free)
    | Inl e \<Rightarrow> e = Err_AllInUse port (port + portScanLimit)
        \<and> (\<forall>j. k \<le> j \<and> j \<le> portScanLimit \<and> port + j \<le> 65535 \<longrightarrow> probe (join_addr host (port + j)) \<noteq> Free)"
  using assms
proof (induction probe host port k rule: scan_ports.induct)
  case (1 probe host port k)
  consider (over) "\<not> (k \<le> portScanLimit \<and> port + k \<le> 65535)"
    | (free) "k \<le> portScanLimit" "port + k \<le> 65535" "probe (join_addr host (port + k)) = Free"
    | (used) "k \<le> portScanLimit" "port + k \<le> 65535" "probe (join_addr host (port + k)) \<noteq> Free" by blast
  then show ?case
  proof cases
    case over
    then show ?thesis by (subst scan_ports.simps) auto
  next
    case free
    then show ?thesis by (subst scan_ports.simps) auto
  next
    case used
    have eq: "scan_ports probe host port k = scan_ports probe host port (k + 1)"
      by (subst scan_ports.simps) (use used in simp)
    have ext: "(\<forall>j. k \<le> j \<and> P j \<longrightarrow> probe (join_addr host (port + j)) \<noteq> Free)"
      if "\<forall>j. k + 1 \<le> j \<and> P j \<longrightarrow> probe (join_addr host (port + j)) \<noteq> Free" for P
      using that used(3) by (metis add1_zle_eq order_le_less)
    have ih: "case scan_ports probe host port (k + 1) of
      Inr a \<Rightarrow> \<exists>n \<ge> k + 1. n \<le> portScanLimit \<and> port + n \<le> 65535 \<and> a = join_addr host (port + n) \<and> probe a = Free
        \<and> (\<forall>j. k + 1 \<le> j \<and> j < n \<longrightarrow> probe (join_addr host (port + j)) \<noteq> Free)
    | Inl e \<Rightarrow> e = Err_AllInUse port (port + portScanLimit)
        \<and> (\<forall>j. k + 1 \<le> j \<and> j \<le> portScanLimit \<and> port + j \<le> 65535 \<longrightarrow> probe (join_addr host (port + j)) \<noteq> Free)"
      using 1 used by simp
    show ?thesis unfolding eq
    proof (cases "scan_ports probe host port (k + 1)")
      case (Inl e)
      then show "case scan_ports probe host port (k + 1) of
      Inr a \<Rightarrow> \<exists>n \<ge> k. n \<le> portScanLimit \<and> port + n \<le> 65535 \<and> a = join_addr host (port + n) \<and> probe a = Free
        \<and> (\<forall>j. k \<le> j \<and> j < n \<longrightarrow> probe (join_addr host (port + j)) \<noteq> Free)
    | Inl e \<Rightarrow> e = Err_AllInUse port (port + portScanLimit)
        \<and> (\<forall>j. k \<le> j \<and> j \<le> portScanLimit \<and> port + j \<le> 65535 \<longrightarrow> probe (join_addr host (port + j)) \<noteq> Free)"
        using ih ext [of "\<lambda>j. j \<le> portScanLimit \<and> port + j \<le> 65535"] by simp
    next
      case (Inr a)
      then obtain n where n: "n \<ge> k + 1" "n \<le> portScanLimit" "port + n \<le> 65535" "a = join_addr host (port + n)" "probe a = Free"
          "\<forall>j. k + 1 \<le> j \<and> j < n \<longrightarrow> probe (join_addr host (port + j)) \<noteq> Free"
        using ih by auto
      have "n \<ge> k" using n(1) by simp
      with n ext [OF n(6)] show "case scan_ports probe host port (k + 1) of
      Inr a \<Rightarrow> \<exists>n \<ge> k. n \<le> portScanLimit \<and> port + n \<le> 65535 \<and> a = join_addr host (port + n) \<and> probe a = Free
        \<and> (\<forall>j. k \<le> j \<and> j < n \<longrightarrow> probe (join_addr host (port + j)) \<noteq> Free)
    | Inl e \<Rightarrow> e = Err_AllInUse port (port + portScanLimit)
        \<and> (\<forall>j. k \<le> j \<and> j \<le> portScanLimit \<and> port + j \<le> 65535 \<longrightarrow> probe (join_addr host (port + j)) \<noteq> Free)"
        unfolding Inr sum.case by blast
    qed
  qed
qed

text \<open>The development server listens where asked or next to it.  For an address with a numeric port
  other than zero, the answer is that address if it can be bound; if it is in use and shifting is allowed,
  the next higher port within twenty that is free, and no free one is passed over; an error says why.\<close>

theorem dev_addr_first_free:
  assumes "normalizeAddr requested = desired" and "desired \<noteq> []" and "split_addr desired = Some (host, portStr)"
    and "portStr \<noteq> ''0''" and "atoi portStr = Some port"
  shows "case resolveDevAddr probe fromEnv requested strict of
      Inr a \<Rightarrow> probe a = Free \<and> (a = desired \<or> (probe desired = In_Use \<and> \<not> strict
        \<and> (\<exists>n \<ge> 1. n \<le> 20 \<and> port + n \<le> 65535 \<and> a = join_addr host (port + n)
            \<and> (\<forall>j. 1 \<le> j \<and> j < n \<longrightarrow> probe (join_addr host (port + j)) \<noteq> Free))))
    | Inl e \<Rightarrow> probe desired \<noteq> Free \<and> (e = Err_Listen desired \<or> e = Err_Strict port
        \<or> (e = Err_AllInUse port (port + 20)
           \<and> (\<forall>j. 1 \<le> j \<and> j \<le> 20 \<and> port + j \<le> 65535 \<longrightarrow> probe (join_addr host (port + j)) \<noteq> Free)))"
proof -
  have r: "resolveDevAddr probe fromEnv requested strict =
      (case probe desired of Free \<Rightarrow> Inr desired | Not_Bindable \<Rightarrow> Inl (Err_Listen desired)
       | In_Use \<Rightarrow> if strict then Inl (Err_Strict port) else scan_ports probe host port 1)"
    using assms by (simp add: resolveDevAddr_def)
  note scan = scan_ports_spec [where k = 1 and probe = probe and host = host and port = port, unfolded portScanLimit_def, simplified]
  show ?thesis
  proof (cases "probe desired")
    case In_Use
    show ?thesis
    proof (cases strict)
      case False
      then have "resolveDevAddr probe fromEnv requested strict = scan_ports probe host port 1" using r In_Use by simp
      then show ?thesis using scan In_Use False by (cases "scan_ports probe host port 1") auto
    next
      case True
      then have "resolveDevAddr probe fromEnv requested strict = Inl (Err_Strict port)" using r In_Use by simp
      then show ?thesis using In_Use by simp
    qed
  qed (simp_all add: r)
qed

end
