(* ===== verification/Log.thy ===== *)
theory Log
  imports Duration
begin

text \<open>
  The package \<^verbatim>\<open>log\<close>: the choice of the output format (\<^verbatim>\<open>log.go\<close>), colour and columns
  (\<^verbatim>\<open>color.go\<close>) and the lines of the console handler (\<^verbatim>\<open>console.go\<close>).

  Strings are valid UTF-8 and a rune starts at every byte that is not a continuation byte.  The time of a
  record is already formatted.  Arithmetic on 64-bit floats goes through \<open>fl\<close>, which rounds a rational to the
  nearest one; the text of a number is then exact.  Every rune above ASCII counts as printable for
  \<^verbatim>\<open>strconv.Quote\<close>.  Writing the line out under the lock is the value of \<open>console_Handle\<close>.
\<close>

section \<open>Colour and columns\<close>

definition ESC :: char where "ESC = CHR 0x1B"

datatype colour = Bold | Dim | Red | Green | Yellow | Blue | Magenta | Cyan | White | BrightRed

fun colour_code :: "colour \<Rightarrow> string" where
  "colour_code Bold = ESC # ''[1m''"
| "colour_code Dim = ESC # ''[2m''"
| "colour_code Red = ESC # ''[31m''"
| "colour_code Green = ESC # ''[32m''"
| "colour_code Yellow = ESC # ''[33m''"
| "colour_code Blue = ESC # ''[34m''"
| "colour_code Magenta = ESC # ''[35m''"
| "colour_code Cyan = ESC # ''[36m''"
| "colour_code White = ESC # ''[37m''"
| "colour_code BrightRed = ESC # ''[91m''"

definition colour_reset :: string where "colour_reset = ESC # ''[0m''"

definition palette_wrap :: "bool \<Rightarrow> colour \<Rightarrow> string \<Rightarrow> string" where
  "palette_wrap enabled c s = (if \<not> enabled \<or> s = [] then s else colour_code c @ s @ colour_reset)"

definition isTruthy :: "string \<Rightarrow> bool" where
  "isTruthy v = (to_lower (trim_space v) \<notin> {[], ''0'', ''false'', ''no'', ''off''})"

text \<open>The environment is a map; an unset variable reads as empty.\<close>

definition env_get :: "(string \<rightharpoonup> string) \<Rightarrow> string \<Rightarrow> string" where
  "env_get env k = (case env k of None \<Rightarrow> [] | Some v \<Rightarrow> v)"

definition ColorEnabled :: "(string \<rightharpoonup> string) \<Rightarrow> bool \<Rightarrow> bool" where
  "ColorEnabled env terminal =
     (if env ''NO_COLOR'' \<noteq> None then False
      else if env_get env ''TERM'' = ''dumb'' then False
      else if isTruthy (env_get env ''FORCE_COLOR'') \<or> isTruthy (env_get env ''CLICOLOR_FORCE'') then True
      else if env ''CI'' \<noteq> None then False
      else terminal)"

definition continuation :: "char \<Rightarrow> bool" where
  "continuation c = ((128 :: nat) \<le> of_char c \<and> (of_char c :: nat) < 192)"

fun visible_loop :: "bool \<Rightarrow> string \<Rightarrow> nat" where
  "visible_loop inEscape [] = 0"
| "visible_loop inEscape (c # s) =
     (if continuation c then visible_loop inEscape s
      else if inEscape then visible_loop (c \<noteq> CHR ''m'') s
      else if c = ESC then visible_loop True s
      else Suc (visible_loop False s))"

definition visibleLen :: "string \<Rightarrow> nat" where
  "visibleLen s = visible_loop False s"

definition padRight :: "string \<Rightarrow> nat \<Rightarrow> string" where
  "padRight s width = s @ replicate (width - visibleLen s) CHR '' ''"

definition padLeft :: "string \<Rightarrow> nat \<Rightarrow> string" where
  "padLeft s width = replicate (width - visibleLen s) CHR '' '' @ s"

definition rune_count :: "string \<Rightarrow> nat" where
  "rune_count s = length (filter (\<lambda>c. \<not> continuation c) s)"

fun take_runes :: "nat \<Rightarrow> string \<Rightarrow> string" where
  "take_runes n [] = []"
| "take_runes n (c # s) =
     (if continuation c then c # take_runes n s
      else case n of 0 \<Rightarrow> [] | Suc k \<Rightarrow> c # take_runes k s)"

definition ellipsis :: string where "ellipsis = [CHR 0xE2, CHR 0x80, CHR 0xA6]"

definition log_truncate :: "string \<Rightarrow> nat \<Rightarrow> string" where
  "log_truncate s width =
     (if width \<le> 1 \<or> rune_count s \<le> width then s else take_runes (width - 1) s @ ellipsis)"

section \<open>Numbers\<close>

text \<open>\<^verbatim>\<open>%.kf\<close>: rounded to \<open>k\<close> decimals, ties to even.\<close>

definition round_even :: "rat \<Rightarrow> nat" where
  "round_even q =
     (let n = nat \<lfloor>q\<rfloor>; r = q - of_nat n
      in if r < 1 / 2 then n else if r > 1 / 2 then n + 1 else if even n then n else n + 1)"

definition zero_padded :: "nat \<Rightarrow> nat \<Rightarrow> string" where
  "zero_padded k n = replicate (k - length (format_nat n)) CHR ''0'' @ format_nat n"

definition format_fixed :: "nat \<Rightarrow> rat \<Rightarrow> string" where
  "format_fixed k q =
     (let n = round_even (q * 10 ^ k)
      in if k = 0 then format_nat n
         else format_nat (n div 10 ^ k) @ ''.'' @ zero_padded k (n mod 10 ^ k))"

text \<open>\<^verbatim>\<open>Duration.String\<close> and \<^verbatim>\<open>Duration.Round\<close>.\<close>

definition micro_s :: string where "micro_s = [CHR 0xC2, CHR 0xB5, CHR ''s'']"

definition fraction_text :: "nat \<Rightarrow> nat \<Rightarrow> string" where
  "fraction_text k n =
     (let ds = rev (dropWhile (\<lambda>c. c = CHR ''0'') (rev (zero_padded k n)))
      in if n = 0 then [] else CHR ''.'' # ds)"

definition duration_text :: "nat \<Rightarrow> string" where
  "duration_text u =
     (if u = 0 then ''0s''
      else if u < 1000 then format_nat u @ ''ns''
      else if u < 1000000 then format_nat (u div 1000) @ fraction_text 3 (u mod 1000) @ micro_s
      else if u < 1000000000 then format_nat (u div 1000000) @ fraction_text 6 (u mod 1000000) @ ''ms''
      else let s = u div 1000000000; m = s div 60; h = m div 60;
               secs = format_nat (s mod 60) @ fraction_text 9 (u mod 1000000000) @ ''s''
           in (if h > 0 then format_nat h @ ''h'' else []) @ (if m > 0 then format_nat (m mod 60) @ ''m'' else []) @ secs)"

definition duration_String :: "duration \<Rightarrow> string" where
  "duration_String d = (if d < 0 then CHR ''-'' # duration_text (nat (- d)) else duration_text (nat d))"

definition duration_Round :: "duration \<Rightarrow> duration \<Rightarrow> duration" where
  "duration_Round d m =
     (let r = d mod m
      in if 2 * r < m then d - r else if d + m - r < 2 ^ 63 then d + m - r else 2 ^ 63 - 1)"

definition humanDuration :: "(rat \<Rightarrow> rat) \<Rightarrow> duration \<Rightarrow> string" where
  "humanDuration fl d =
     (if d \<le> 0 then ''<1ms''
      else if d < 1000 then format_int d @ ''ns''
      else if d < Millisecond then format_fixed 0 (fl (of_int d / 1000)) @ micro_s
      else if d < Second then format_fixed 1 (fl (of_int d / 1000000)) @ ''ms''
      else if d < Minute then format_fixed 2 (fl (of_int (d div Second) + fl (of_int (d mod Second) / 1000000000))) @ ''s''
      else duration_String (duration_Round d Millisecond))"

function bytes_scale :: "int \<Rightarrow> int \<Rightarrow> nat \<Rightarrow> int \<times> nat" where
  "bytes_scale m dv ex = (if m \<ge> 1000 then bytes_scale (m div 1000) (dv * 1000) (Suc ex) else (dv, ex))"
  by pat_completeness auto

termination
  by (relation "measure (\<lambda>(m, _, _). nat m)") auto

declare bytes_scale.simps [simp del]

definition humanBytes :: "(rat \<Rightarrow> rat) \<Rightarrow> int \<Rightarrow> string" where
  "humanBytes fl n =
     (if n < 1000 then format_int n @ '' B''
      else case bytes_scale (n div 1000) 1000 0 of
             (dv, ex) \<Rightarrow> format_fixed 1 (fl (fl (of_int n) / of_int dv)) @ '' '' @ [''kMGTPE'' ! ex] @ ''B'')"

section \<open>Attributes\<close>

datatype log_value = LV_String string | LV_Int int | LV_Duration duration | LV_Nil | LV_Other string

fun lv_text :: "log_value \<Rightarrow> string" where
  "lv_text (LV_String s) = s"
| "lv_text (LV_Int i) = format_int i"
| "lv_text (LV_Duration d) = duration_String d"
| "lv_text LV_Nil = ''<nil>''"
| "lv_text (LV_Other s) = s"

text \<open>\<^verbatim>\<open>Value.Int64\<close> panics on another kind.\<close>

fun value_Int64 :: "log_value \<Rightarrow> int option" where
  "value_Int64 (LV_Int i) = Some i"
| "value_Int64 _ = None"

fun durationOf :: "(rat \<Rightarrow> rat) \<Rightarrow> log_value \<Rightarrow> duration" where
  "durationOf fl (LV_Duration d) = d"
| "durationOf fl (LV_Int i) = i"
| "durationOf fl (LV_String s) = (case parse_duration fl s of None \<Rightarrow> 0 | Some d \<Rightarrow> d)"
| "durationOf fl _ = 0"

record log_attr =
  la_Key :: string
  la_Value :: log_value

record log_record =
  lr_Clock :: string
  lr_Level :: int
  lr_Message :: string
  lr_Attrs :: "log_attr list"

record ConsoleHandler =
  ch_Level :: "int option"
  ch_color :: bool
  ch_groups :: "string list"
  ch_attrs :: "log_attr list"

definition NewConsoleHandler :: "int option \<Rightarrow> bool \<Rightarrow> ConsoleHandler" where
  "NewConsoleHandler lv color = \<lparr>ch_Level = lv, ch_color = color, ch_groups = [], ch_attrs = []\<rparr>"

definition console_Enabled :: "ConsoleHandler \<Rightarrow> int \<Rightarrow> bool" where
  "console_Enabled h lv = (lv \<ge> (case ch_Level h of None \<Rightarrow> 0 | Some m \<Rightarrow> m))"

definition WithAttrs :: "log_attr list \<Rightarrow> ConsoleHandler \<Rightarrow> ConsoleHandler" where
  "WithAttrs as h = h\<lparr>ch_attrs := ch_attrs h @ as\<rparr>"

definition WithGroup :: "string \<Rightarrow> ConsoleHandler \<Rightarrow> ConsoleHandler" where
  "WithGroup name h = h\<lparr>ch_groups := ch_groups h @ [name]\<rparr>"

definition qualify :: "ConsoleHandler \<Rightarrow> string \<Rightarrow> string" where
  "qualify h key = (if ch_groups h = [] then key else join ''.'' (ch_groups h) @ ''.'' @ key)"

text \<open>\<^verbatim>\<open>strconv.Quote\<close>.\<close>

definition hex_lower :: "nat \<Rightarrow> char" where
  "hex_lower n = (if n < 10 then char_of (48 + n) else char_of (87 + n))"

definition quote_char :: "char \<Rightarrow> string" where
  "quote_char c =
     (if c = CHR 0x22 then [CHR 0x5C, CHR 0x22]
      else if c = CHR 0x5C then [CHR 0x5C, CHR 0x5C]
      else if c = CHR 0x07 then [CHR 0x5C, CHR ''a'']
      else if c = CHR 0x08 then [CHR 0x5C, CHR ''b'']
      else if c = CHR 0x0C then [CHR 0x5C, CHR ''f'']
      else if c = CHR 0x0A then [CHR 0x5C, CHR ''n'']
      else if c = CHR 0x0D then [CHR 0x5C, CHR ''r'']
      else if c = CHR 0x09 then [CHR 0x5C, CHR ''t'']
      else if c = CHR 0x0B then [CHR 0x5C, CHR ''v'']
      else if (of_char c :: nat) < 32 \<or> c = CHR 0x7F
           then [CHR 0x5C, CHR ''x'', hex_lower (of_char c div 16), hex_lower (of_char c mod 16)]
      else [c])"

definition strconv_Quote :: "string \<Rightarrow> string" where
  "strconv_Quote s = [CHR 0x22] @ concat (map quote_char s) @ [CHR 0x22]"

definition valueString :: "log_value \<Rightarrow> string" where
  "valueString v =
     (let s = lv_text v in if CHR '' '' \<in> set s \<or> CHR 0x09 \<in> set s then strconv_Quote s else s)"

section \<open>Lines\<close>

text \<open>\<^verbatim>\<open>Level.String\<close>: the name of the level below, with the distance.\<close>

definition level_offset :: "string \<Rightarrow> int \<Rightarrow> string" where
  "level_offset base k = (if k = 0 then base else base @ (if k > 0 then ''+'' else []) @ format_int k)"

definition level_String :: "int \<Rightarrow> string" where
  "level_String lv =
     (if lv < 0 then level_offset ''DEBUG'' (lv + 4)
      else if lv < 4 then level_offset ''INFO'' lv
      else if lv < 8 then level_offset ''WARN'' (lv - 4)
      else level_offset ''ERROR'' (lv - 8))"

definition levelColor :: "bool \<Rightarrow> int \<Rightarrow> string" where
  "levelColor on lv =
     palette_wrap on (if lv \<ge> 8 then Red else if lv \<ge> 4 then Yellow else if lv \<ge> 0 then Green else Dim)
       (to_upper (level_String lv))"

definition methodColor :: "bool \<Rightarrow> string \<Rightarrow> string" where
  "methodColor on m =
     palette_wrap on
       (if m = ''GET'' \<or> m = ''HEAD'' then Cyan
        else if m = ''POST'' \<or> m = ''PUT'' \<or> m = ''PATCH'' then Yellow
        else if m = ''DELETE'' then Red else Dim) m"

definition statusColor :: "bool \<Rightarrow> int \<Rightarrow> string" where
  "statusColor on status =
     palette_wrap on
       (if status \<ge> 500 then BrightRed else if status \<ge> 400 then Yellow else if status \<ge> 300 then Cyan
        else if status \<ge> 200 then Green else Dim) (format_int status)"

definition durationColor :: "(rat \<Rightarrow> rat) \<Rightarrow> bool \<Rightarrow> duration \<Rightarrow> string" where
  "durationColor fl on d =
     palette_wrap on (if d \<ge> Second then Red else if d \<ge> 300 * Millisecond then Yellow else Dim) (humanDuration fl d)"

record request_fields =
  rf_method :: string
  rf_path :: string
  rf_status :: int
  rf_bytes :: int
  rf_dur :: duration
  rf_extra :: "log_attr list"

text \<open>The loop over the attributes of a request; \<^term>\<open>None\<close> is the panic of \<^verbatim>\<open>Int64\<close>.\<close>

fun request_loop :: "(rat \<Rightarrow> rat) \<Rightarrow> log_attr list \<Rightarrow> request_fields \<Rightarrow> request_fields option" where
  "request_loop fl [] f = Some f"
| "request_loop fl (a # as) f =
     (if la_Key a = ''method'' then request_loop fl as (f\<lparr>rf_method := lv_text (la_Value a)\<rparr>)
      else if la_Key a = ''path'' then request_loop fl as (f\<lparr>rf_path := lv_text (la_Value a)\<rparr>)
      else if la_Key a = ''status'' then
        (case value_Int64 (la_Value a) of None \<Rightarrow> None | Some i \<Rightarrow> request_loop fl as (f\<lparr>rf_status := i\<rparr>))
      else if la_Key a = ''bytes'' then
        (case value_Int64 (la_Value a) of None \<Rightarrow> None | Some i \<Rightarrow> request_loop fl as (f\<lparr>rf_bytes := i\<rparr>))
      else if la_Key a = ''duration'' then request_loop fl as (f\<lparr>rf_dur := durationOf fl (la_Value a)\<rparr>)
      else if la_Key a = ''request_id'' then request_loop fl as f
      else request_loop fl as (f\<lparr>rf_extra := rf_extra f @ [a]\<rparr>))"

definition no_fields :: request_fields where
  "no_fields = \<lparr>rf_method = [], rf_path = [], rf_status = 0, rf_bytes = 0, rf_dur = 0, rf_extra = []\<rparr>"

definition attr_text :: "bool \<Rightarrow> string \<Rightarrow> log_value \<Rightarrow> string" where
  "attr_text on key v = ''  '' @ palette_wrap on Dim (key @ ''='') @ valueString v"

definition request_columns :: "(rat \<Rightarrow> rat) \<Rightarrow> bool \<Rightarrow> string \<Rightarrow> request_fields \<Rightarrow> string" where
  "request_columns fl on clock f =
     palette_wrap on Dim clock @ ''  '' @ padRight (methodColor on (rf_method f)) 4 @ '' ''
     @ padLeft (statusColor on (rf_status f)) 3 @ ''  '' @ padRight (log_truncate (rf_path f) 24) 24 @ ''  ''
     @ padLeft (durationColor fl on (rf_dur f)) 7 @ ''  '' @ padLeft (palette_wrap on Dim (humanBytes fl (rf_bytes f))) 7"

definition formatRequest :: "(rat \<Rightarrow> rat) \<Rightarrow> bool \<Rightarrow> string \<Rightarrow> log_attr list \<Rightarrow> string option" where
  "formatRequest fl on clock as =
     (case request_loop fl as no_fields of
        None \<Rightarrow> None
      | Some f \<Rightarrow> Some (request_columns fl on clock f
          @ concat (map (\<lambda>a. attr_text on (la_Key a) (la_Value a)) (rf_extra f))))"

definition formatGeneric :: "ConsoleHandler \<Rightarrow> log_record \<Rightarrow> log_attr list \<Rightarrow> string" where
  "formatGeneric h r as =
     palette_wrap (ch_color h) Dim (lr_Clock r) @ ''  '' @ padRight (levelColor (ch_color h) (lr_Level r)) 5 @ ''  ''
     @ lr_Message r
     @ concat (map (\<lambda>a. attr_text (ch_color h) (qualify h (la_Key a)) (la_Value a))
         (filter (\<lambda>a. \<not> (la_Key a = [] \<and> la_Value a = LV_Nil)) as))"

definition RequestMessage :: string where "RequestMessage = ''request''"

text \<open>\<^verbatim>\<open>Handle\<close>: what is written, or \<^term>\<open>None\<close> for a panic.\<close>

definition console_Handle :: "(rat \<Rightarrow> rat) \<Rightarrow> ConsoleHandler \<Rightarrow> log_record \<Rightarrow> string option" where
  "console_Handle fl h r =
     (let as = ch_attrs h @ lr_Attrs r
      in if lr_Message r = RequestMessage
         then map_option (\<lambda>l. l @ [CHR 0x0A]) (formatRequest fl (ch_color h) (lr_Clock r) as)
         else Some (formatGeneric h r as @ [CHR 0x0A]))"

section \<open>The choice of the handler\<close>

datatype Format = FormatUnset | FormatAuto | FormatConsole | FormatText | FormatJSON

definition ParseFormat :: "string \<Rightarrow> Format" where
  "ParseFormat s =
     (let l = to_lower (trim_space s)
      in if l \<in> {''console'', ''pretty'', ''dev''} then FormatConsole
         else if l \<in> {''text'', ''logfmt''} then FormatText
         else if l = ''json'' then FormatJSON else FormatAuto)"

definition ParseLevel :: "string \<Rightarrow> int" where
  "ParseLevel name =
     (let l = to_lower (trim_space name)
      in if l = ''debug'' then - 4 else if l \<in> {''warn'', ''warning''} then 4 else if l = ''error'' then 8 else 0)"

record log_Options =
  lo_Level :: string
  lo_Format :: Format
  lo_NoColor :: bool
  lo_JSON :: bool

datatype log_handler = H_Console ConsoleHandler | H_Text int | H_JSON int

definition log_New :: "(string \<rightharpoonup> string) \<Rightarrow> bool \<Rightarrow> log_Options \<Rightarrow> log_handler" where
  "log_New env terminal opts =
     (let lv = ParseLevel (lo_Level opts);
          f1 = (if lo_Format opts = FormatUnset then ParseFormat (env_get env ''LOG_FORMAT'') else lo_Format opts);
          f2 = (if lo_JSON opts \<and> f1 = FormatAuto \<and> env_get env ''LOG_FORMAT'' = [] then FormatJSON else f1);
          f3 = (if f2 = FormatAuto then (if terminal then FormatConsole else FormatJSON) else f2)
      in case f3 of
           FormatConsole \<Rightarrow> H_Console (NewConsoleHandler (Some lv) (\<not> lo_NoColor opts \<and> ColorEnabled env terminal))
         | FormatText \<Rightarrow> H_Text lv
         | _ \<Rightarrow> H_JSON lv)"

end
