(* ===== verification/LogProps.thy ===== *)
theory LogProps
  imports Log
begin

text \<open>
  What the console output promises: colour is presentation only, the columns of the access log have their
  widths whatever is in them; and where a line can be forged.
\<close>

section \<open>Escape sequences\<close>

text \<open>What a terminal shows of a text.\<close>

fun strip_ansi :: "bool \<Rightarrow> string \<Rightarrow> string" where
  "strip_ansi inEscape [] = []"
| "strip_ansi inEscape (c # s) =
     (if inEscape then strip_ansi (c \<noteq> CHR ''m'') s
      else if c = ESC then strip_ansi True s
      else c # strip_ansi False s)"

definition clean :: "string \<Rightarrow> bool" where
  "clean s = (ESC \<notin> set s)"

lemma clean_simps [simp]:
  "clean []" "clean (c # s) \<longleftrightarrow> c \<noteq> ESC \<and> clean s" "clean (s @ t) \<longleftrightarrow> clean s \<and> clean t"
  "clean (replicate n CHR '' '')" "clean (replicate n CHR ''0'')"
  by (auto simp: clean_def ESC_def)

lemma clean_rev [simp]: "clean (rev s) = clean s"
  by (simp add: clean_def)

lemma clean_sub: "set s \<subseteq> set t \<Longrightarrow> clean t \<Longrightarrow> clean s"
  by (auto simp: clean_def)

lemma strip_clean: "clean s \<Longrightarrow> strip_ansi False (s @ t) = s @ strip_ansi False t"
  by (induction s) auto

lemma strip_clean_all [simp]: "clean s \<Longrightarrow> strip_ansi False s = s"
  using strip_clean [of s "[]"] by simp

lemma visible_clean: "clean s \<Longrightarrow> visible_loop False (s @ t) = visible_loop False s + visible_loop False t"
  by (induction s) auto

lemma not_continuation_ascii: "(of_char c :: nat) < 128 \<Longrightarrow> \<not> continuation c"
  by (simp add: continuation_def)

lemma strip_wrap: "clean s \<Longrightarrow> strip_ansi False (palette_wrap on c s @ t) = s @ strip_ansi False t"
  by (cases c) (auto simp: palette_wrap_def colour_reset_def strip_clean)

lemma visible_wrap [simp]: "clean s \<Longrightarrow> visibleLen (palette_wrap on c s) = visibleLen s"
  by (cases c) (auto simp: palette_wrap_def colour_reset_def visibleLen_def visible_clean continuation_def ESC_def)

lemma visible_wrap_append:
  "clean s \<Longrightarrow> visible_loop False (palette_wrap on c s @ t) = visible_loop False s + visible_loop False t"
  by (cases c) (auto simp: palette_wrap_def colour_reset_def visible_clean continuation_def ESC_def)

lemma visible_spaces [simp]: "visible_loop False (replicate n CHR '' '' @ t) = n + visible_loop False t"
  by (induction n) (auto simp: continuation_def ESC_def)

section \<open>Texts without escapes\<close>

lemma digit_not_ESC: "is_digit c \<Longrightarrow> c \<noteq> ESC"
  by (auto simp: is_digit_def char_between_def ESC_def)

lemma clean_format_nat [simp]: "clean (format_nat n)"
  using format_nat_digits [of n] digit_not_ESC by (auto simp: clean_def list_all_iff)

lemma clean_format_int [simp]: "clean (format_int i)"
  by (simp add: format_int_def ESC_def)

lemma clean_zero_padded [simp]: "clean (zero_padded k n)"
  by (simp add: zero_padded_def)

lemma clean_format_fixed [simp]: "clean (format_fixed k q)"
  by (simp add: format_fixed_def Let_def ESC_def)

lemma clean_dropWhile: "clean s \<Longrightarrow> clean (dropWhile P s)"
  by (rule clean_sub [of _ s]) (auto dest: set_dropWhileD)

lemma clean_fraction_text [simp]: "clean (fraction_text k n)"
  by (simp add: fraction_text_def Let_def clean_dropWhile ESC_def)

lemma clean_duration_String [simp]: "clean (duration_String d)"
  by (auto simp: duration_String_def duration_text_def Let_def micro_s_def ESC_def)

lemma clean_humanDuration [simp]: "clean (humanDuration fl d)"
  by (auto simp: humanDuration_def micro_s_def ESC_def)

lemma bytes_scale_exp:
  "bytes_scale m dv ex = (dv', ex') \<Longrightarrow> m < 1000 ^ Suc k \<Longrightarrow> ex' \<le> ex + k"
proof (induction m dv ex arbitrary: k rule: bytes_scale.induct)
  case (1 m dv ex)
  show ?case
  proof (cases "m \<ge> 1000")
    case True
    obtain j where k: "k = Suc j" using True "1.prems"(2) by (cases k) auto
    have "m div 1000 < 1000 ^ Suc j" using "1.prems"(2) k by (simp add: div_less_iff_less_mult mult.commute)
    with "1.IH" [OF True] "1.prems"(1) True k show ?thesis by (subst (asm) bytes_scale.simps) fastforce
  next
    case False
    with "1.prems"(1) show ?thesis by (subst (asm) bytes_scale.simps) simp
  qed
qed

lemma bytes_unit:
  assumes "n < 2 ^ 63" and "bytes_scale (n div 1000) 1000 0 = (dv, ex)"
  shows "ex \<le> 5"
  using bytes_scale_exp [OF assms(2), of 5] assms(1) by simp

lemma clean_humanBytes: "n < 2 ^ 63 \<Longrightarrow> clean (humanBytes fl n)"
proof -
  assume n: "n < 2 ^ 63"
  have "''kMGTPE'' ! ex \<noteq> ESC" if "ex \<le> 5" for ex
  proof -
    have "ex \<in> {0, 1, 2, 3, 4, 5}" using that by auto
    then show ?thesis by (auto simp: ESC_def)
  qed
  then show ?thesis using bytes_unit [OF n]
    by (auto simp: humanBytes_def ESC_def split: prod.split)
qed

lemma clean_level [simp]: "clean (to_upper (level_String lv))"
proof -
  have up: "upper_char c \<noteq> ESC" if "c \<noteq> ESC" for c
  proof (cases "is_lower c")
    case True
    then have "(of_char c :: nat) \<ge> 97" "(of_char c :: nat) < 123" by (simp_all add: is_lower_def char_between_def)
    then have "of_char (upper_char c) \<noteq> (27 :: nat)" using True by (simp add: upper_char_def)
    then show ?thesis by (auto simp: ESC_def)
  qed (simp add: upper_char_def that)
  then have "clean s \<Longrightarrow> clean (to_upper s)" for s by (induction s) (auto simp: to_upper_def)
  then show ?thesis by (auto simp: level_String_def level_offset_def ESC_def)
qed

lemma clean_hex_lower: "n < 16 \<Longrightarrow> hex_lower n \<noteq> ESC"
proof -
  assume "n < 16"
  then have "of_char (hex_lower n) \<noteq> (27 :: nat)" by (auto simp: hex_lower_def)
  then show ?thesis by (auto simp: ESC_def)
qed

lemma clean_if: "(P \<Longrightarrow> clean a) \<Longrightarrow> (\<not> P \<Longrightarrow> clean b) \<Longrightarrow> clean (if P then a else b)"
  by simp

lemma clean_quote_char: "clean (quote_char c)"
proof -
  define x y where "x = hex_lower (of_char c div 16)" and "y = hex_lower (of_char c mod 16)"
  have "x \<noteq> ESC" "y \<noteq> ESC"
    using of_char_of [of "of_char c :: nat"] unfolding x_def y_def
    by (auto intro!: clean_hex_lower simp: less_mult_imp_div_less)
  moreover have "\<not> (of_char c :: nat) < 32 \<Longrightarrow> c \<noteq> ESC" by (auto simp: ESC_def)
  ultimately show ?thesis
    unfolding quote_char_def x_def [symmetric] y_def [symmetric]
    by (intro clean_if) (simp_all add: ESC_def)
qed

lemma clean_Quote [simp]: "clean (strconv_Quote s)"
proof -
  have "clean (concat (map quote_char s))" by (induction s) (simp_all add: clean_quote_char)
  then show ?thesis by (simp add: strconv_Quote_def ESC_def)
qed

lemma clean_valueString: "clean (lv_text v) \<Longrightarrow> clean (valueString v)"
  by (simp add: valueString_def Let_def)

lemma set_take_runes: "set (take_runes n s) \<subseteq> set s"
  by (induction n s rule: take_runes.induct) (auto split: nat.splits)

lemma clean_truncate: "clean s \<Longrightarrow> clean (log_truncate s w)"
  using clean_sub [OF set_take_runes] by (auto simp: log_truncate_def ellipsis_def ESC_def)

section \<open>Colour is presentation\<close>

definition clean_attr :: "log_attr \<Rightarrow> bool" where
  "clean_attr a = (clean (la_Key a) \<and> clean (lv_text (la_Value a)))"

definition clean_request :: "request_fields \<Rightarrow> bool" where
  "clean_request f = (clean (rf_method f) \<and> clean (rf_path f) \<and> rf_bytes f < 2 ^ 63 \<and> list_all clean_attr (rf_extra f))"

text \<open>Integers of a record are 64 bits wide.\<close>

definition int64_attr :: "log_attr \<Rightarrow> bool" where
  "int64_attr a = (case la_Value a of LV_Int i \<Rightarrow> i < 2 ^ 63 | _ \<Rightarrow> True)"

lemma request_loop_clean:
  "request_loop fl as f = Some g \<Longrightarrow> list_all clean_attr as \<Longrightarrow> list_all int64_attr as \<Longrightarrow> clean_request f \<Longrightarrow> clean_request g"
proof (induction fl as f rule: request_loop.induct)
  case (2 fl a as f)
  have "value_Int64 (la_Value a) = Some i \<Longrightarrow> i < 2 ^ 63" for i
    using 2(10) by (cases "la_Value a") (auto simp: int64_attr_def)
  then show ?case using 2 by (auto simp: clean_request_def clean_attr_def split: if_splits option.splits)
qed simp

lemma strip_padRight_wrap:
  "clean s \<Longrightarrow> strip_ansi False (padRight (palette_wrap on c s) n @ t) = padRight s n @ strip_ansi False t"
  by (simp add: padRight_def strip_wrap strip_clean)

lemma strip_padLeft_wrap:
  "clean s \<Longrightarrow> strip_ansi False (padLeft (palette_wrap on c s) n @ t) = padLeft s n @ strip_ansi False t"
  by (simp add: padLeft_def strip_wrap strip_clean)

lemma wrap_off [simp]: "palette_wrap False c s = s"
  by (simp add: palette_wrap_def)

lemma clean_padRight: "clean s \<Longrightarrow> clean (padRight s n)"
  by (simp add: padRight_def)

lemma strip_attr:
  "clean k \<Longrightarrow> clean (lv_text v) \<Longrightarrow> strip_ansi False (attr_text on k v @ t) = attr_text False k v @ strip_ansi False t"
  by (simp add: attr_text_def strip_wrap strip_clean clean_valueString ESC_def)

lemma strip_attrs:
  "list_all (\<lambda>a. clean (q (la_Key a)) \<and> clean (lv_text (la_Value a))) as \<Longrightarrow>
   strip_ansi False (concat (map (\<lambda>a. attr_text on (q (la_Key a)) (la_Value a)) as) @ t)
   = concat (map (\<lambda>a. attr_text False (q (la_Key a)) (la_Value a)) as) @ strip_ansi False t"
  by (induction as) (simp_all add: strip_attr)

lemma strip_columns:
  assumes "clean clock" and "clean_request f"
  shows "strip_ansi False (request_columns fl on clock f @ t) = request_columns fl False clock f @ strip_ansi False t"
  using assms
  by (simp add: request_columns_def strip_wrap strip_clean strip_padRight_wrap strip_padLeft_wrap methodColor_def
      statusColor_def durationColor_def clean_padRight clean_truncate clean_humanBytes clean_request_def ESC_def)

lemma clean_join: "list_all clean gs \<Longrightarrow> clean sep \<Longrightarrow> clean (join sep gs)"
  by (induction sep gs rule: join.induct) auto

definition clean_input :: "ConsoleHandler \<Rightarrow> log_record \<Rightarrow> bool" where
  "clean_input h r =
     (clean (lr_Clock r) \<and> clean (lr_Message r) \<and> list_all clean (ch_groups h)
      \<and> list_all clean_attr (ch_attrs h @ lr_Attrs r) \<and> list_all int64_attr (ch_attrs h @ lr_Attrs r))"

text \<open>Colour is presentation only.  For a record and a handler whose texts have no escape character, what a
  terminal shows of the coloured line is, byte for byte, the line without colour; the padding of the
  columns included, for requests and for every other record.\<close>

theorem log_colour_is_presentation:
  assumes "clean_input h r"
  shows "map_option (strip_ansi False) (console_Handle fl (h\<lparr>ch_color := True\<rparr>) r) = console_Handle fl (h\<lparr>ch_color := False\<rparr>) r"
proof (cases "lr_Message r = RequestMessage")
  case True
  have "clean_request f" if "request_loop fl (ch_attrs h @ lr_Attrs r) no_fields = Some f" for f
    using request_loop_clean [OF that] assms by (simp add: clean_input_def no_fields_def clean_request_def)
  then show ?thesis using assms True
    by (auto simp: console_Handle_def formatRequest_def Let_def clean_input_def strip_columns strip_attrs [where q = "\<lambda>k. k"]
        clean_request_def clean_attr_def [abs_def] ESC_def split: option.split)
next
  case False
  have q: "qualify (h\<lparr>ch_color := b\<rparr>) = qualify h" for b by (simp add: qualify_def fun_eq_iff)
  have "clean (qualify h k)" if "clean k" for k
    using assms that by (auto simp: qualify_def clean_input_def clean_join ESC_def)
  then have "list_all (\<lambda>a. clean (qualify h (la_Key a)) \<and> clean (lv_text (la_Value a)))
      (filter P (ch_attrs h @ lr_Attrs r))" for P
    using assms by (auto simp: clean_input_def clean_attr_def list_all_iff)
  from strip_attrs [OF this] show ?thesis using assms False
    by (simp add: console_Handle_def Let_def formatGeneric_def q strip_wrap strip_clean strip_padRight_wrap levelColor_def
        clean_input_def ESC_def del: filter_append)
qed


definition sample_record :: log_record where
  "sample_record = \<lparr>lr_Clock = ''13:57:16'', lr_Level = 0, lr_Message = ''request'',
     lr_Attrs = [\<lparr>la_Key = ''method'', la_Value = LV_String ''GET''\<rparr>, \<lparr>la_Key = ''status'', la_Value = LV_Int 404\<rparr>,
                 \<lparr>la_Key = ''user'', la_Value = LV_String ''a b''\<rparr>]\<rparr>"

lemma sample_clean: "clean_input (NewConsoleHandler None True) sample_record"
  by (simp add: clean_input_def NewConsoleHandler_def sample_record_def clean_attr_def int64_attr_def ESC_def)

theorem log_colour_is_presentation_witness:
  "map_option (strip_ansi False) (console_Handle id ((NewConsoleHandler None True)\<lparr>ch_color := True\<rparr>) sample_record)
     = console_Handle id ((NewConsoleHandler None True)\<lparr>ch_color := False\<rparr>) sample_record
   \<and> console_Handle id ((NewConsoleHandler None True)\<lparr>ch_color := False\<rparr>) sample_record \<noteq> None"
  using log_colour_is_presentation [OF sample_clean, of id]
  by (simp add: console_Handle_def Let_def formatRequest_def sample_record_def NewConsoleHandler_def RequestMessage_def)

section \<open>Columns\<close>

lemma visible_runes: "clean s \<Longrightarrow> visible_loop False s = rune_count s"
  by (induction s) (auto simp: rune_count_def)

lemma rune_count_append [simp]: "rune_count (s @ t) = rune_count s + rune_count t"
  by (simp add: rune_count_def)

lemma rune_count_take: "rune_count (take_runes n s) \<le> n"
  by (induction n s rule: take_runes.induct) (auto simp: rune_count_def split: nat.splits)

lemma rune_count_truncate: "1 < w \<Longrightarrow> rune_count (log_truncate s w) \<le> w"
  using rune_count_take [of "w - 1" s] by (auto simp: log_truncate_def ellipsis_def rune_count_def continuation_def)

lemma visible_padRight_wrap:
  "clean s \<Longrightarrow> visible_loop False (padRight (palette_wrap on c s) n @ t) = max n (rune_count s) + visible_loop False t"
  by (simp add: padRight_def visible_wrap_append visible_runes visibleLen_def [of s])

lemma visible_padLeft_wrap:
  "clean s \<Longrightarrow> visible_loop False (padLeft (palette_wrap on c s) n @ t) = max n (rune_count s) + visible_loop False t"
  by (simp add: padLeft_def visible_wrap_append visible_runes visibleLen_def [of s])

lemma visible_padRight:
  "clean s \<Longrightarrow> visible_loop False (padRight s n @ t) = max n (rune_count s) + visible_loop False t"
  using visible_padRight_wrap [of s False Dim n t] by simp

lemma visible_ascii [simp]:
  "visible_loop False (CHR '' '' # t) = Suc (visible_loop False t)"
  by (simp add: continuation_def ESC_def)

text \<open>The columns of the access log have their widths.  The visible width of a request line is
  the sum of its cells, each as wide as its column or its content, with colour or without; the cell of the
  path is 24 wide whatever the path.\<close>

theorem log_columns_aligned:
  assumes "clean clock" and "clean_request f"
  shows "visibleLen (request_columns fl on clock f) =
    rune_count clock + 2 + max 4 (rune_count (rf_method f)) + 1 + max 3 (rune_count (format_int (rf_status f))) + 2
    + 24 + 2 + max 7 (rune_count (humanDuration fl (rf_dur f))) + 2 + max 7 (rune_count (humanBytes fl (rf_bytes f)))"
proof -
  have path: "max 24 (rune_count (log_truncate (rf_path f) 24)) = 24"
    using rune_count_truncate [of 24 "rf_path f"] by simp
  have cl: "clean (rf_method f)" "clean (log_truncate (rf_path f) 24)" "clean (humanBytes fl (rf_bytes f))"
    using assms(2) by (simp_all add: clean_request_def clean_truncate clean_humanBytes)
  have bytes: "visible_loop False (padLeft (palette_wrap on Dim (humanBytes fl (rf_bytes f))) 7)
      = max 7 (rune_count (humanBytes fl (rf_bytes f)))"
    using visible_padLeft_wrap [OF cl(3), of on Dim 7 "[]"] by simp
  show ?thesis
    by (simp add: visibleLen_def request_columns_def methodColor_def statusColor_def durationColor_def
        visible_wrap_append assms(1) visible_runes cl visible_padRight_wrap visible_padLeft_wrap visible_padRight path bytes
        del: visible_loop.simps(2) split del: if_split)
qed

lemma columns_path: "\<exists>pre post. request_columns fl on clock f = pre @ padRight (log_truncate (rf_path f) 24) 24 @ post"
  unfolding request_columns_def
  by (rule exI [of _ "palette_wrap on Dim clock @ ''  '' @ padRight (methodColor on (rf_method f)) 4 @ '' '' @
        padLeft (statusColor on (rf_status f)) 3 @ ''  ''"], rule exI) (simp only: append_assoc)

text \<open>A client can forge lines of the console log.  The path of a request is written as it is, so a path with a
  line feed, which a percent-encoded URL can carry, ends the line and starts another with text of the
  client's choice; and a value that has a line feed but no blank is not quoted either.\<close>

theorem log_line_forged:
  "let forged = ''13:57:16 INFO hacked'';
       as = [\<lparr>la_Key = ''method'', la_Value = LV_String ''GET''\<rparr>, \<lparr>la_Key = ''path'', la_Value = LV_String (''/'' @ [CHR 0x0A] @ forged)\<rparr>]
   in (\<exists>pre post. formatRequest fl on clock as = Some (pre @ [CHR 0x0A] @ forged @ post))
      \<and> valueString (LV_String ([CHR 0x0A] @ ''hacked'')) = [CHR 0x0A] @ ''hacked''"
proof -
  let ?p = "''/'' @ [CHR 0x0A] @ ''13:57:16 INFO hacked''"
  let ?f = "no_fields\<lparr>rf_method := ''GET'', rf_path := ?p\<rparr>"
  have "log_truncate ?p 24 = ?p" by code_simp
  then obtain pre post where "request_columns fl on clock ?f = pre @ padRight ?p 24 @ post"
    using columns_path [of fl on clock ?f] by auto
  then have "request_columns fl on clock ?f =
      (pre @ ''/'') @ [CHR 0x0A] @ ''13:57:16 INFO hacked'' @ (replicate (24 - visibleLen ?p) CHR '' '' @ post)"
    by (simp add: padRight_def)
  moreover have "formatRequest fl on clock [\<lparr>la_Key = ''method'', la_Value = LV_String ''GET''\<rparr>, \<lparr>la_Key = ''path'', la_Value = LV_String ?p\<rparr>]
      = Some (request_columns fl on clock ?f)"
    by (simp add: formatRequest_def no_fields_def)
  ultimately show ?thesis
    unfolding Let_def
    by (intro conjI exI [of _ "pre @ ''/''"] exI [of _ "replicate (24 - visibleLen ?p) CHR '' '' @ post"])
      (simp_all add: valueString_def)
qed

end
