(* ===== verification/DevReload.thy ===== *)
theory DevReload
  imports Middleware Strconv
begin

text \<open>
  The package \<^verbatim>\<open>devreload\<close>: the middleware that puts the reload script into HTML responses and
  serves the event stream, and what the script does with the messages (\<^verbatim>\<open>devreload.go\<close>).

  The server's writer has a header map that may still change and the status and header that were
  sent; a status without a body keeps none.  The length a handler declares is not enforced.
\<close>

section \<open>The server's writer\<close>

type_synonym header_map = "(string \<times> string) list"

record server_writer =
  sw_Header :: header_map
  sw_Sent :: "(nat \<times> header_map) option"
  sw_Body :: string

datatype dr_action = D_Set string string | D_Del string | D_WriteHeader nat | D_Write string | D_Flush

definition hm_del :: "string \<Rightarrow> header_map \<Rightarrow> header_map" where
  "hm_del k h = filter (\<lambda>x. fst x \<noteq> k) h"

definition hm_set :: "string \<Rightarrow> string \<Rightarrow> header_map \<Rightarrow> header_map" where
  "hm_set k v h = hm_del k h @ [(k, v)]"

definition hm_get :: "string \<Rightarrow> header_map \<Rightarrow> string" where
  "hm_get k h = (case map_of h k of None \<Rightarrow> [] | Some v \<Rightarrow> v)"

definition body_allowed :: "nat \<Rightarrow> bool" where
  "body_allowed st = (200 \<le> st \<and> st \<noteq> 204 \<and> st \<noteq> 304)"

definition sw_WriteHeader :: "nat \<Rightarrow> server_writer \<Rightarrow> server_writer" where
  "sw_WriteHeader st w =
     (if informational st then w
      else case sw_Sent w of None \<Rightarrow> w\<lparr>sw_Sent := Some (st, sw_Header w)\<rparr> | Some _ \<Rightarrow> w)"

definition sw_Write :: "string \<Rightarrow> server_writer \<Rightarrow> server_writer" where
  "sw_Write b w =
     (let w' = sw_WriteHeader 200 w
      in case sw_Sent w' of
           Some (st, _) \<Rightarrow> if body_allowed st then w'\<lparr>sw_Body := sw_Body w' @ b\<rparr> else w'
         | None \<Rightarrow> w')"

fun sw_act :: "dr_action \<Rightarrow> server_writer \<Rightarrow> server_writer" where
  "sw_act (D_Set k v) w = w\<lparr>sw_Header := hm_set k v (sw_Header w)\<rparr>"
| "sw_act (D_Del k) w = w\<lparr>sw_Header := hm_del k (sw_Header w)\<rparr>"
| "sw_act (D_WriteHeader st) w = sw_WriteHeader st w"
| "sw_act (D_Write b) w = sw_Write b w"
| "sw_act D_Flush w = sw_WriteHeader 200 w"

text \<open>When the handler has returned, the server sends the header if it has not been sent.\<close>

definition sw_finish :: "server_writer \<Rightarrow> server_writer" where
  "sw_finish w = sw_WriteHeader 200 w"

section \<open>The injector\<close>

definition dr_Prefix :: string where "dr_Prefix = ''/_ryla/''"
definition EventPath :: string where "EventPath = dr_Prefix @ ''reload''"
definition ScriptPath :: string where "ScriptPath = dr_Prefix @ ''reload.js''"

definition dr_Enabled :: "string option \<Rightarrow> bool" where
  "dr_Enabled env = (let v = (case env of None \<Rightarrow> [] | Some v \<Rightarrow> v) in v \<noteq> [] \<and> v \<noteq> ''0'' \<and> v \<noteq> ''false'')"

definition newBootID :: "string option \<Rightarrow> string \<Rightarrow> string" where
  "newBootID rnd clock_hex = (case rnd of None \<Rightarrow> clock_hex | Some b \<Rightarrow> hex_encode b)"

definition scriptTag :: string where
  "scriptTag = ''<script src='' @ [CHR 0x22] @ ScriptPath @ [CHR 0x22] @ '' defer></script>''"

text \<open>\<^verbatim>\<open>bytes.LastIndex\<close>.\<close>

fun last_index :: "string \<Rightarrow> string \<Rightarrow> nat option" where
  "last_index m [] = (if m = [] then Some 0 else None)"
| "last_index m (x # xs) =
     (case last_index m xs of
        Some i \<Rightarrow> Some (Suc i)
      | None \<Rightarrow> if has_prefix (x # xs) m then Some 0 else None)"

definition dr_inject :: "string \<Rightarrow> string" where
  "dr_inject body =
     (let idx = (case last_index ''</body>'' body of Some i \<Rightarrow> Some i | None \<Rightarrow> last_index ''</BODY>'' body)
      in case idx of
           None \<Rightarrow> body @ scriptTag
         | Some i \<Rightarrow> take i body @ scriptTag @ drop i body)"

record injector =
  ij_w :: server_writer
  ij_status :: nat
  ij_html :: bool
  ij_wrote :: bool
  ij_buf :: string
  ij_flushed :: bool

definition new_injector :: "server_writer \<Rightarrow> injector" where
  "new_injector w = \<lparr>ij_w = w, ij_status = 200, ij_html = False, ij_wrote = False, ij_buf = [], ij_flushed = False\<rparr>"

definition is_html :: "string \<Rightarrow> bool" where
  "is_html contentType = has_prefix (trim_space (to_lower contentType)) ''text/html''"

definition ij_WriteHeader :: "nat \<Rightarrow> injector \<Rightarrow> injector" where
  "ij_WriteHeader st i =
     (if ij_wrote i then i
      else let w = ij_w i; html = is_html (hm_get ''Content-Type'' (sw_Header w));
               j = i\<lparr>ij_wrote := True, ij_status := st, ij_html := html\<rparr>
           in if html then j\<lparr>ij_w := w\<lparr>sw_Header := hm_del ''Content-Length'' (sw_Header w)\<rparr>\<rparr>
              else j\<lparr>ij_w := sw_WriteHeader st w\<rparr>)"

definition ij_Write :: "string \<Rightarrow> injector \<Rightarrow> injector" where
  "ij_Write b i =
     (let j = (if ij_wrote i then i else ij_WriteHeader 200 i)
      in if ij_html j then j\<lparr>ij_buf := ij_buf j @ b\<rparr> else j\<lparr>ij_w := sw_Write b (ij_w j)\<rparr>)"

definition ij_Flush :: "injector \<Rightarrow> injector" where
  "ij_Flush i = (if ij_html i then i else i\<lparr>ij_flushed := True, ij_w := sw_WriteHeader 200 (ij_w i)\<rparr>)"

fun ij_act :: "dr_action \<Rightarrow> injector \<Rightarrow> injector" where
  "ij_act (D_Set k v) i = i\<lparr>ij_w := sw_act (D_Set k v) (ij_w i)\<rparr>"
| "ij_act (D_Del k) i = i\<lparr>ij_w := sw_act (D_Del k) (ij_w i)\<rparr>"
| "ij_act (D_WriteHeader st) i = ij_WriteHeader st i"
| "ij_act (D_Write b) i = ij_Write b i"
| "ij_act D_Flush i = ij_Flush i"

definition ij_finish :: "injector \<Rightarrow> server_writer" where
  "ij_finish i =
     (if \<not> ij_html i then (if ij_wrote i then ij_w i else sw_WriteHeader (ij_status i) (ij_w i))
      else let body = dr_inject (ij_buf i); w = ij_w i
           in sw_Write body (sw_WriteHeader (ij_status i)
                (w\<lparr>sw_Header := hm_set ''Content-Length'' (format_nat (length body)) (sw_Header w)\<rparr>)))"

section \<open>The event stream\<close>

text \<open>What happens to the open connection: a tick whose write or flush may fail, or its end.\<close>

datatype stream_event = Tick bool bool | Context_Done

definition keepalive :: string where "keepalive = '': keepalive'' @ [CHR 0x0A, CHR 0x0A]"

fun events_loop :: "stream_event list \<Rightarrow> server_writer \<Rightarrow> server_writer" where
  "events_loop [] w = w"
| "events_loop (Context_Done # es) w = w"
| "events_loop (Tick write_ok flush_ok # es) w =
     (if \<not> write_ok then w
      else let w' = sw_Write keepalive w in if \<not> flush_ok then w' else events_loop es w')"

definition boot_message :: "string \<Rightarrow> string" where
  "boot_message boot =
     ''retry: 250'' @ [CHR 0x0A] @ ''data: {'' @ [CHR 0x22] @ ''boot'' @ [CHR 0x22] @ '':'' @ [CHR 0x22] @ boot @ [CHR 0x22]
     @ ''}'' @ [CHR 0x0A, CHR 0x0A]"

definition serveEvents :: "string \<Rightarrow> bool \<Rightarrow> stream_event list \<Rightarrow> server_writer \<Rightarrow> server_writer" where
  "serveEvents boot flush_ok es w =
     (let h = hm_set ''X-Accel-Buffering'' ''no'' (hm_set ''Connection'' ''keep-alive''
            (hm_set ''Cache-Control'' ''no-cache'' (hm_set ''Content-Type'' ''text/event-stream'' (sw_Header w))));
          w' = sw_Write (boot_message boot) (w\<lparr>sw_Header := h\<rparr>)
      in if \<not> flush_ok then w' else events_loop es w')"

definition serveScript :: "string \<Rightarrow> server_writer \<Rightarrow> server_writer" where
  "serveScript clientScript w =
     sw_Write clientScript
       (w\<lparr>sw_Header := hm_set ''Cache-Control'' ''no-store''
             (hm_set ''Content-Type'' ''application/javascript; charset=utf-8'' (sw_Header w))\<rparr>)"

text \<open>\<^verbatim>\<open>Middleware\<close>.  A handler that panics leaves without \<^verbatim>\<open>finish\<close>.\<close>

definition dr_Middleware ::
  "string \<Rightarrow> string \<Rightarrow> bool \<Rightarrow> stream_event list \<Rightarrow> (string \<Rightarrow> dr_action list \<times> ending) \<Rightarrow> string
     \<Rightarrow> server_writer \<Rightarrow> server_writer \<times> ending" where
  "dr_Middleware boot clientScript flush_ok es inner path w =
     (if path = EventPath then (serveEvents boot flush_ok es w, Finished)
      else if path = ScriptPath then (serveScript clientScript w, Finished)
      else case inner path of
             (acts, Finished) \<Rightarrow> (ij_finish (fold ij_act acts (new_injector w)), Finished)
           | (acts, Panicked p) \<Rightarrow> (ij_w (fold ij_act acts (new_injector w)), Panicked p))"

text \<open>The handler of the script for a message: the boot id it remembers, and whether it reloads the
  page.  A message that is not JSON is dropped.\<close>

definition client_message :: "string option \<Rightarrow> string option \<Rightarrow> string option \<times> bool" where
  "client_message boot msg =
     (case msg of
        None \<Rightarrow> (boot, False)
      | Some b \<Rightarrow> (case boot of None \<Rightarrow> (Some b, False) | Some b0 \<Rightarrow> (boot, b \<noteq> b0)))"

section \<open>Injection\<close>

lemma last_index_Some:
  "last_index m s = Some i \<Longrightarrow> i \<le> length s \<and> has_prefix (drop i s) m \<and> (\<forall>j. i < j \<and> j \<le> length s \<longrightarrow> \<not> has_prefix (drop j s) m)"
proof (induction s arbitrary: i)
  case Nil
  then show ?case by (simp split: if_splits add: has_prefix_def)
next
  case (Cons x xs)
  show ?case
  proof (cases "last_index m xs")
    case None
    have no: "\<not> has_prefix (drop j xs) m" if "j \<le> length xs" for j
      using None that
    proof (induction xs arbitrary: j)
      case (Cons y ys)
      then show ?case by (cases j) (auto split: option.splits if_splits)
    qed (auto simp: has_prefix_def split: if_splits)
    have "\<not> has_prefix (drop j (x # xs)) m" if "0 < j" "j \<le> length (x # xs)" for j
      using no [of "j - 1"] that by (cases j) simp_all
    then show ?thesis using Cons.prems None by (auto split: if_splits)
  next
    case (Some k)
    then have i: "i = Suc k" using Cons.prems by simp
    have "\<not> has_prefix (drop j (x # xs)) m" if "i < j" "j \<le> length (x # xs)" for j
      using Cons.IH [OF Some] that i by (cases j) auto
    then show ?thesis using Cons.IH [OF Some] i by auto
  qed
qed

lemma last_index_None: "last_index m s = None \<Longrightarrow> j \<le> length s \<Longrightarrow> \<not> has_prefix (drop j s) m"
proof (induction s arbitrary: j)
  case (Cons y ys)
  then show ?case by (cases j) (auto split: option.splits if_splits)
qed (auto simp: has_prefix_def split: if_splits)

text \<open>The script goes in once, and what was there stays: before the last closing tag of the body if
  there is one.\<close>

lemma dr_inject_spec:
  "\<exists>pre post. body = pre @ post \<and> dr_inject body = pre @ scriptTag @ post
     \<and> (post = [] \<or> has_prefix post ''</body>'' \<or> has_prefix post ''</BODY>'')
     \<and> (post = [] \<longrightarrow> (\<forall>j \<le> length body. \<not> has_prefix (drop j body) ''</body>'' \<and> \<not> has_prefix (drop j body) ''</BODY>''))
     \<and> (\<forall>j. length pre < j \<and> j \<le> length body \<longrightarrow> \<not> has_prefix (drop j body) ''</body>'')"
proof (cases "last_index ''</body>'' body")
  case (Some i)
  from last_index_Some [OF Some] Some show ?thesis
    by (intro exI [of _ "take i body"] exI [of _ "drop i body"]) (auto simp: dr_inject_def has_prefix_def)
next
  case None
  note none = last_index_None [OF this]
  show ?thesis
  proof (cases "last_index ''</BODY>'' body")
    case (Some i)
    from last_index_Some [OF Some] Some none None show ?thesis
      by (intro exI [of _ "take i body"] exI [of _ "drop i body"]) (auto simp: dr_inject_def has_prefix_def)
  next
    case None': None
    from last_index_None [OF None'] none None None' show ?thesis
      by (intro exI [of _ body] exI [of _ "[]"]) (auto simp: dr_inject_def)
  qed
qed


section \<open>The injector against the plain writer\<close>

fun header_act :: "dr_action \<Rightarrow> bool" where
  "header_act (D_Set _ _) = True"
| "header_act (D_Del _) = True"
| "header_act _ = False"

fun final_act :: "dr_action \<Rightarrow> bool" where
  "final_act (D_WriteHeader st) = (\<not> informational st)"
| "final_act (D_Write _) = True"
| "final_act D_Flush = True"
| "final_act _ = False"

lemma not_informational_200 [simp]: "\<not> informational 200"
  by (simp add: informational_def)

lemma headers_run:
  "list_all header_act hs \<Longrightarrow>
   sw_Sent (fold sw_act hs w) = sw_Sent w \<and> sw_Body (fold sw_act hs w) = sw_Body w
   \<and> fold ij_act hs i = i\<lparr>ij_w := fold sw_act hs (ij_w i)\<rparr>"
proof (induction hs arbitrary: w i)
  case (Cons a hs)
  then show ?case by (cases a) auto
qed simp

lemma sw_Write_after_header [simp]: "sw_Write b (sw_WriteHeader 200 w) = sw_Write b w"
  by (simp add: sw_Write_def sw_WriteHeader_def split: option.split)

text \<open>Without HTML the injector is the writer behind it.\<close>

definition plain_sim :: "injector \<Rightarrow> bool" where
  "plain_sim i = (ij_wrote i \<and> \<not> ij_html i \<and> sw_Sent (ij_w i) \<noteq> None)"

lemma plain_sim_act:
  assumes "plain_sim i" and "final_act a"
  shows "plain_sim (ij_act a i) \<and> ij_w (ij_act a i) = sw_act a (ij_w i)"
  using assms
  by (cases a) (auto simp: plain_sim_def ij_WriteHeader_def ij_Write_def ij_Flush_def sw_WriteHeader_def sw_Write_def Let_def
      split: option.splits)

lemma plain_sim_run:
  "plain_sim i \<Longrightarrow> list_all final_act ws \<Longrightarrow>
   plain_sim (fold ij_act ws i) \<and> ij_w (fold ij_act ws i) = fold sw_act ws (ij_w i)"
proof (induction ws arbitrary: i)
  case (Cons a ws)
  then show ?case using plain_sim_act [of i a] by simp
qed simp

text \<open>With HTML the buffer is the body so far and nothing has been sent.\<close>

definition html_sim :: "server_writer \<Rightarrow> injector \<Rightarrow> server_writer \<Rightarrow> bool" where
  "html_sim w1 i d =
     (ij_wrote i \<and> ij_html i \<and> \<not> informational (ij_status i)
      \<and> ij_w i = w1\<lparr>sw_Header := hm_del ''Content-Length'' (sw_Header w1)\<rparr>
      \<and> sw_Sent d = Some (ij_status i, sw_Header w1)
      \<and> sw_Body d = (if body_allowed (ij_status i) then ij_buf i else []))"

lemma html_sim_act:
  assumes "html_sim w1 i d" and "final_act a"
  shows "html_sim w1 (ij_act a i) (sw_act a d)"
  using assms
  by (cases a) (auto simp: html_sim_def ij_WriteHeader_def ij_Write_def ij_Flush_def sw_WriteHeader_def sw_Write_def Let_def
      split: option.splits)

lemma html_sim_run:
  "html_sim w1 i d \<Longrightarrow> list_all final_act ws \<Longrightarrow> html_sim w1 (fold ij_act ws i) (fold sw_act ws d)"
proof (induction ws arbitrary: i d)
  case (Cons a ws)
  then show ?case using html_sim_act [of w1 i d a] by simp
qed simp

lemma first_act_sim:
  assumes "final_act a" and "a \<noteq> D_Flush" and "sw_Sent w = None" and "sw_Body w = []"
  shows "if is_html (hm_get ''Content-Type'' (sw_Header w))
    then html_sim w (ij_act a (new_injector w)) (sw_act a w)
    else plain_sim (ij_act a (new_injector w)) \<and> ij_w (ij_act a (new_injector w)) = sw_act a w"
  using assms
  by (cases a) (auto simp: html_sim_def plain_sim_def new_injector_def ij_WriteHeader_def ij_Write_def sw_WriteHeader_def
      sw_Write_def Let_def body_allowed_def split: option.splits)

lemma html_sim_finish:
  assumes "html_sim w1 i d" and "sw_Sent w1 = None" and "sw_Body w1 = []"
  shows "\<exists>st. \<not> informational st \<and> sw_Sent d = Some (st, sw_Header w1)
    \<and> sw_Sent (ij_finish i) = Some (st, hm_set ''Content-Length'' (format_nat (length (dr_inject (ij_buf i)))) (sw_Header w1))
    \<and> sw_Body (ij_finish i) = (if body_allowed st then dr_inject (sw_Body d) else [])
    \<and> (body_allowed st \<longrightarrow> sw_Body d = ij_buf i)"
proof -
  have "hm_set k v (hm_del k h) = hm_set k v h" for k v h by (simp add: hm_set_def hm_del_def)
  then show ?thesis using assms
    by (intro exI [of _ "ij_status i"])
      (auto simp: html_sim_def ij_finish_def sw_WriteHeader_def sw_Write_def Let_def split: option.splits)
qed

text \<open>C35. The reload script changes nothing but the page it goes into.  For a handler that sets its headers
  before it writes, sends no informational status and does not start with a flush: if the content type is not
  HTML, or nothing is written, the client gets exactly the response it would get without the middleware;
  for an HTML response it gets the same status and headers, the body with the script tag put in, and
  a Content-Length that is the length of that body, however the handler split its writes and flushes.\<close>

theorem devreload_transparent:
  assumes "inner path = (hs @ ws, Finished)" and "list_all header_act hs" and "list_all final_act ws"
    and "ws = [] \<or> hd ws \<noteq> D_Flush" and "path \<noteq> EventPath" and "path \<noteq> ScriptPath"
    and "sw_Sent w = None" and "sw_Body w = []"
  shows "let direct = sw_finish (fold sw_act (hs @ ws) w);
             h = sw_Header (fold sw_act hs w);
             (m, e) = dr_Middleware boot script flush_ok es inner path w
         in e = Finished \<and>
            (if ws \<noteq> [] \<and> is_html (hm_get ''Content-Type'' h)
             then \<exists>st. sw_Sent direct = Some (st, h)
                \<and> (\<exists>len. sw_Sent m = Some (st, hm_set ''Content-Length'' len h)
                     \<and> (if body_allowed st then sw_Body m = dr_inject (sw_Body direct) \<and> len = format_nat (length (sw_Body m))
                        else sw_Body m = []))
             else sw_finish m = direct)"
proof -
  define w1 where "w1 = fold sw_act hs w"
  have w1: "sw_Sent w1 = None" "sw_Body w1 = []" and hs: "fold ij_act hs (new_injector w) = new_injector w1"
    using headers_run [OF assms(2), of w "new_injector w"] assms(7,8) by (simp_all add: w1_def new_injector_def)
  have m: "dr_Middleware boot script flush_ok es inner path w = (ij_finish (fold ij_act ws (new_injector w1)), Finished)"
    using assms(1,5,6) hs by (simp add: dr_Middleware_def)
  show ?thesis
  proof (cases ws)
    case Nil
    then show ?thesis unfolding m Let_def
      by (simp add: w1_def [symmetric] new_injector_def ij_finish_def sw_finish_def sw_WriteHeader_def split: option.split)
  next
    case (Cons a us)
    have f: "final_act a" "a \<noteq> D_Flush" "list_all final_act us" using assms(3,4) Cons by simp_all
    note first = first_act_sim [OF f(1,2) w1]
    show ?thesis
    proof (cases "is_html (hm_get ''Content-Type'' (sw_Header w1))")
      case True
      have "html_sim w1 (fold ij_act ws (new_injector w1)) (fold sw_act ws w1)"
        using html_sim_run [OF _ f(3)] first True Cons by simp
      from html_sim_finish [OF this w1] obtain st where st: "\<not> informational st"
          "sw_Sent (fold sw_act ws w1) = Some (st, sw_Header w1)"
          "sw_Sent (ij_finish (fold ij_act ws (new_injector w1))) = Some (st, hm_set ''Content-Length''
             (format_nat (length (dr_inject (ij_buf (fold ij_act ws (new_injector w1)))))) (sw_Header w1))"
          "sw_Body (ij_finish (fold ij_act ws (new_injector w1))) = (if body_allowed st then dr_inject (sw_Body (fold sw_act ws w1)) else [])"
          "body_allowed st \<longrightarrow> sw_Body (fold sw_act ws w1) = ij_buf (fold ij_act ws (new_injector w1))"
        by blast
      have "sw_finish (fold sw_act ws w1) = fold sw_act ws w1"
        using st(2) by (simp add: sw_finish_def sw_WriteHeader_def)
      then show ?thesis unfolding m Let_def using True st(2-5) Cons by (auto simp: w1_def [symmetric])
    next
      case False
      have "plain_sim (fold ij_act ws (new_injector w1)) \<and> ij_w (fold ij_act ws (new_injector w1)) = fold sw_act ws w1"
        using plain_sim_run [OF _ f(3)] first False Cons by simp
      then show ?thesis unfolding m Let_def using False by (simp add: w1_def [symmetric] ij_finish_def plain_sim_def)
    qed
  qed
qed

definition page_handler :: "string \<Rightarrow> dr_action list \<times> ending" where
  "page_handler _ = ([D_Set ''Content-Type'' ''text/html''] @ [D_Write ''<p>'', D_Flush, D_Write ''</body>''], Finished)"

theorem devreload_transparent_witness:
  "case dr_Middleware ''1'' [] True [] page_handler ''/'' \<lparr>sw_Header = [], sw_Sent = None, sw_Body = []\<rparr> of
     (m, e) \<Rightarrow> e = Finished \<and> sw_Body m = ''<p>'' @ scriptTag @ ''</body>''"
proof -
  let ?w = "\<lparr>sw_Header = [], sw_Sent = None, sw_Body = []\<rparr>"
  have p: "page_handler ''/'' = ([D_Set ''Content-Type'' ''text/html''] @ [D_Write ''<p>'', D_Flush, D_Write ''</body>''], Finished)"
    and e: "''/'' \<noteq> EventPath" "''/'' \<noteq> ScriptPath"
    by (simp_all add: page_handler_def EventPath_def ScriptPath_def dr_Prefix_def)
  have html: "is_html (hm_get ''Content-Type'' (hm_set ''Content-Type'' ''text/html'' []))" by code_simp
  have inj: "dr_inject (''<p></body>'') = ''<p>'' @ scriptTag @ ''</body>''" by code_simp
  show ?thesis
    using devreload_transparent [where inner = page_handler and path = "''/''" and w = ?w and boot = "''1''" and script = "[]"
        and flush_ok = True and es = "[]", OF p _ _ _ e] html inj
    by (auto simp: sw_finish_def sw_WriteHeader_def sw_Write_def Let_def body_allowed_def split: prod.splits)
qed

text \<open>The page follows the server: fed with the boot ids it sees on its connections, the script reloads at
  the first one that differs from the first of all, and never before.\<close>

fun client_run :: "string option \<Rightarrow> string option list \<Rightarrow> bool list" where
  "client_run boot [] = []"
| "client_run boot (m # ms) = (case client_message boot m of (boot', r) \<Rightarrow> r # client_run boot' ms)"

lemma client_run_started: "client_run (Some b) ms = map (\<lambda>m. m \<noteq> None \<and> m \<noteq> Some b) ms"
  by (induction ms) (auto simp: client_message_def split: option.splits)

lemma client_reloads_on_restart:
  "client_run None (Some b # ms) = False # map (\<lambda>m. m \<noteq> None \<and> m \<noteq> Some b) ms"
  by (simp add: client_message_def client_run_started)

end
