(* ===== verification/TestClient.thy ===== *)
theory TestClient
  imports Csrf Auth Log Migrate
begin

text \<open>
  The package \<^verbatim>\<open>testing\<close>: the client that drives an application's handler the way a browser would
  (\<^verbatim>\<open>client.go\<close>), the assertions on a response (\<^verbatim>\<open>response.go\<close>), and the environment of a test
  (\<^verbatim>\<open>testing.go\<close>).

  The application is a function of its state and a request.  A form arrives as it was given: that
  encoding and parsing it are inverse is left out, as are the transports of \<^verbatim>\<open>httptest\<close>.  Cookies are
  attached in the order of their names, of which each occurs once.  A failed assertion is recorded
  and the test goes on; \<^verbatim>\<open>Fatalf\<close> ends it and is a value of its own.
\<close>

section \<open>The client\<close>

record Client =
  cl_cookies :: "(string, set_cookie) fmap"
  cl_Header :: "(string \<times> string) list"
  cl_primed :: bool

type_synonym 'st app = "'st \<Rightarrow> request \<Rightarrow> response \<times> 'st"

datatype fatal = Fatal string

definition client_New :: "'st app option \<Rightarrow> (fatal, Client) result" where
  "client_New handler =
     (case handler of
        None \<Rightarrow> Inl (Fatal ''testing: Config.Handler is required'')
      | Some _ \<Rightarrow> Inr \<lparr>cl_cookies = fmempty, cl_Header = [], cl_primed = False\<rparr>)"

text \<open>\<^verbatim>\<open>httptest.NewRequest\<close> with the client's headers.\<close>

definition client_Request :: "Client \<Rightarrow> string \<Rightarrow> string \<Rightarrow> (string \<times> string) list option \<Rightarrow> request" where
  "client_Request c method path form =
     \<lparr>req_Method = method, req_URI = path, req_Path = fst (cut (CHR ''?'') path), req_Cookies = [],
      req_Header = cl_Header c, req_RemoteAddr = ''192.0.2.1:1234'', req_PostForm = form\<rparr>"

definition set_req_header :: "string \<Rightarrow> string \<Rightarrow> request \<Rightarrow> request" where
  "set_req_header k v r = r\<lparr>req_Header := filter (\<lambda>x. fst x \<noteq> k) (req_Header r) @ [(k, v)]\<rparr>"

definition attachCookies :: "Client \<Rightarrow> request \<Rightarrow> request" where
  "attachCookies c r =
     r\<lparr>req_Cookies := req_Cookies r
        @ map (\<lambda>x. (fst x, sc_Value (snd x)))
            (filter (\<lambda>x. req_Cookie r (fst x) = None) (sorted_list_of_fmap (cl_cookies c)))\<rparr>"

definition remember1 :: "set_cookie \<Rightarrow> (string, set_cookie) fmap \<Rightarrow> (string, set_cookie) fmap" where
  "remember1 ck m = (if sc_MaxAge ck < 0 then fmdrop (sc_Name ck) m else fmupd (sc_Name ck) ck m)"

definition client_remember :: "set_cookie list \<Rightarrow> Client \<Rightarrow> Client" where
  "client_remember cks c = c\<lparr>cl_cookies := fold remember1 cks (cl_cookies c)\<rparr>"

definition safeMethod :: "string \<Rightarrow> bool" where
  "safeMethod m = (m \<in> {''GET'', ''HEAD'', ''OPTIONS'', ''TRACE''})"

text \<open>Sending a request: the cookies, the token if there is one, the application, its cookies.\<close>

definition client_send :: "'st app \<Rightarrow> Client \<Rightarrow> request \<Rightarrow> string \<Rightarrow> 'st \<Rightarrow> response \<times> Client \<times> 'st" where
  "client_send handler c r token st =
     (let r1 = attachCookies c r;
          r2 = (if token \<noteq> [] then set_req_header csrf_HeaderName token r1 else r1)
      in case handler st r2 of (w, st') \<Rightarrow> (w, client_remember (resp_Cookies w) c, st'))"

definition client_csrfToken ::
  "(string \<Rightarrow> string \<Rightarrow> string) \<Rightarrow> Jar option \<Rightarrow> 'st app \<Rightarrow> Client \<Rightarrow> 'st \<Rightarrow> string \<times> Client \<times> 'st" where
  "client_csrfToken hmac jar handler c st =
     (case jar of
        None \<Rightarrow> ([], c, st)
      | Some j \<Rightarrow>
          if fmlookup (cl_cookies c) csrf_CookieName = None \<and> cl_primed c then ([], c, st)
          else let (c', st') =
                 (if fmlookup (cl_cookies c) csrf_CookieName = None
                  then snd (client_send handler (c\<lparr>cl_primed := True\<rparr>)
                              (client_Request c ''GET'' ''/'' (Some [])) [] st)
                  else (c, st))
               in case fmlookup (cl_cookies c') csrf_CookieName of
                    None \<Rightarrow> ([], c', st')
                  | Some ck \<Rightarrow>
                      (case jar_verify hmac j csrf_CookieName (sc_Value ck) of
                         Inl _ \<Rightarrow> ([], c', st')
                       | Inr t \<Rightarrow> (t, c', st')))"

definition client_Do ::
  "(string \<Rightarrow> string \<Rightarrow> string) \<Rightarrow> Jar option \<Rightarrow> 'st app \<Rightarrow> Client \<Rightarrow> request \<Rightarrow> 'st \<Rightarrow> response \<times> Client \<times> 'st" where
  "client_Do hmac jar handler c r st =
     (if \<not> safeMethod (req_Method r) \<and> header_Get r csrf_HeaderName = []
      then (case client_csrfToken hmac jar handler c st of
              (token, c', st') \<Rightarrow> client_send handler c' r token st')
      else client_send handler c r [] st)"

definition client_Get where
  "client_Get hmac jar handler c path st = client_Do hmac jar handler c (client_Request c ''GET'' path (Some [])) st"

definition client_Delete where
  "client_Delete hmac jar handler c path st = client_Do hmac jar handler c (client_Request c ''DELETE'' path (Some [])) st"

definition client_Post where
  "client_Post hmac jar handler c path form st =
     client_Do hmac jar handler c
       (set_req_header ''Content-Type'' ''application/x-www-form-urlencoded'' (client_Request c ''POST'' path (Some form))) st"

text \<open>\<^verbatim>\<open>JSON\<close>; a JSON body has no form values.\<close>

definition client_JSON where
  "client_JSON marshal hmac jar handler c method path body st =
     (case marshal body of
        None \<Rightarrow> Inl (Fatal (''testing: encode '' @ method @ '' '' @ path @ '' body''))
      | Some _ \<Rightarrow>
          Inr (client_Do hmac jar handler c
                 (set_req_header ''Content-Type'' ''application/json'' (client_Request c method path (Some []))) st))"

definition client_PostJSON where
  "client_PostJSON marshal hmac jar handler c path body st = client_JSON marshal hmac jar handler c ''POST'' path body st"

text \<open>\<^verbatim>\<open>loginWith\<close>: a new session, marked, saved through the application's store.\<close>

definition client_loginWith ::
  "(time \<Rightarrow> request \<Rightarrow> 'st save_op) option \<Rightarrow> duration \<Rightarrow> time \<Rightarrow> entropy
     \<Rightarrow> (Session \<Rightarrow> (panic, Session) result) \<Rightarrow> Client \<Rightarrow> 'st \<Rightarrow> (fatal, Client \<times> 'st) result" where
  "client_loginWith save lifetime now rnd mark c st =
     (case save of
        None \<Rightarrow> Inl (Fatal ''testing: Login needs Config.Session, the application's session store'')
      | Some sv \<Rightarrow>
          (case session_New rnd now lifetime of
             Inl (Panic p) \<Rightarrow> Inl (Fatal p)
           | Inr s \<Rightarrow>
               (case mark s of
                  Inl (Panic p) \<Rightarrow> Inl (Fatal p)
                | Inr s' \<Rightarrow>
                    (case sv now (client_Request c ''GET'' ''/'' (Some [])) empty_response s' st of
                       Inl e \<Rightarrow> Inl (Fatal ''testing: save the signed-in session'')
                     | Inr (_, w, st') \<Rightarrow> Inr (client_remember (resp_Cookies w) c, st')))))"

definition client_Login where
  "client_Login save lifetime now rnd rnd' userID c st =
     client_loginWith save lifetime now rnd (\<lambda>s. auth_Login rnd' s userID) c st"

definition client_LoginID where
  "client_LoginID save lifetime now rnd rnd' userID c st =
     client_loginWith save lifetime now rnd (\<lambda>s. auth_LoginID rnd' s userID) c st"

definition client_Logout :: "Client \<Rightarrow> Client" where
  "client_Logout c = c\<lparr>cl_cookies := fmempty, cl_primed := False\<rparr>"

definition client_Cookie :: "Client \<Rightarrow> string \<Rightarrow> set_cookie option" where
  "client_Cookie c name = fmlookup (cl_cookies c) name"

section \<open>Assertions\<close>

record Response =
  rs_method :: string
  rs_path :: string
  rs_rec :: response
  rs_errors :: "string list"

text \<open>The recorder's code is 200 until one is written.\<close>

definition rs_Status :: "Response \<Rightarrow> nat" where
  "rs_Status r = (case resp_Status (rs_rec r) of None \<Rightarrow> 200 | Some st \<Rightarrow> st)"

definition rs_Body :: "Response \<Rightarrow> string" where "rs_Body r = resp_Body (rs_rec r)"

definition rs_Header :: "Response \<Rightarrow> string \<Rightarrow> string" where
  "rs_Header r k = (case map_of (resp_Header (rs_rec r)) k of None \<Rightarrow> [] | Some v \<Rightarrow> v)"

definition bodyExcerpt :: nat where "bodyExcerpt = 1500"

definition excerpt :: "string \<Rightarrow> string" where
  "excerpt body =
     (if body = [] then ''(empty)''
      else if length body \<le> bodyExcerpt then body
      else take bodyExcerpt body @ [CHR 0x0A] @ ''... (truncated)'')"

definition rs_fail :: "string \<Rightarrow> Response \<Rightarrow> Response" where
  "rs_fail msg r =
     r\<lparr>rs_errors := rs_errors r @
        [rs_method r @ '' '' @ rs_path r @ '': '' @ msg @ [CHR 0x0A, CHR 0x0A] @ ''body:'' @ [CHR 0x0A] @ excerpt (rs_Body r)]\<rparr>"

definition AssertStatus :: "nat \<Rightarrow> Response \<Rightarrow> Response" where
  "AssertStatus want r =
     (if rs_Status r \<noteq> want
      then rs_fail (''status = '' @ format_nat (rs_Status r) @ '', want '' @ format_nat want) r else r)"

definition AssertOK :: "Response \<Rightarrow> Response" where "AssertOK r = AssertStatus 200 r"

definition AssertRedirect :: "string \<Rightarrow> Response \<Rightarrow> Response" where
  "AssertRedirect location r =
     (if rs_Status r < 300 \<or> rs_Status r \<ge> 400
      then rs_fail (''status = '' @ format_nat (rs_Status r) @ '', want a redirect to '' @ location) r
      else if rs_Header r ''Location'' \<noteq> location
           then rs_fail (''Location = '' @ strconv_Quote (rs_Header r ''Location'') @ '', want '' @ strconv_Quote location) r
           else r)"

definition AssertContains :: "string list \<Rightarrow> Response \<Rightarrow> Response" where
  "AssertContains wants r =
     fold (\<lambda>want q. if contains_str (rs_Body r) want then q
                     else rs_fail (''the body does not contain '' @ strconv_Quote want) q) wants r"

definition AssertNotContains :: "string list \<Rightarrow> Response \<Rightarrow> Response" where
  "AssertNotContains wants r =
     fold (\<lambda>want q. if contains_str (rs_Body r) want
                     then rs_fail (''the body contains '' @ strconv_Quote want @ '', which it should not'') q else q) wants r"

definition AssertHeader :: "string \<Rightarrow> string \<Rightarrow> Response \<Rightarrow> Response" where
  "AssertHeader name want r =
     (if rs_Header r name \<noteq> want
      then rs_fail (''header '' @ name @ '' = '' @ strconv_Quote (rs_Header r name) @ '', want '' @ strconv_Quote want) r
      else r)"

definition AssertJSON :: "(string \<Rightarrow> 'v option) \<Rightarrow> Response \<Rightarrow> 'v option \<times> Response" where
  "AssertJSON unmarshal r =
     (case unmarshal (rs_Body r) of
        None \<Rightarrow> (None, rs_fail ''the body is not the JSON expected'' r)
      | Some v \<Rightarrow> (Some v, r))"

section \<open>The environment of a test\<close>

definition test_Key :: string where "test_Key = ''ryla-testing-key''"

definition safeName :: "string \<Rightarrow> string" where
  "safeName name = map (\<lambda>c. if is_lower c \<or> is_upper c \<or> is_digit c then c else CHR ''_'') name"

text \<open>\<^verbatim>\<open>DSN\<close>: the counter goes up with every call.\<close>

definition test_DSN :: "string \<Rightarrow> nat \<Rightarrow> string \<times> nat" where
  "test_DSN name counter =
     (''file:'' @ safeName name @ ''-'' @ format_nat (counter + 1)
        @ ''?mode=memory&cache=shared&_pragma=foreign_keys(1)&_pragma=busy_timeout(5000)'', counter + 1)"

definition test_settings :: "string \<Rightarrow> (string \<times> string) list" where
  "test_settings dsn =
     [(''APP_ENV'', ''test''), (''APP_DEBUG'', ''true''), (''APP_KEY'', test_Key), (''APP_URL'', ''http://localhost''),
      (''DB_DRIVER'', ''sqlite''), (''DB_DSN'', dsn), (''DB_MAX_OPEN_CONNS'', ''1''), (''DB_MAX_IDLE_CONNS'', ''1''),
      (''DB_LOG_QUERIES'', ''false''), (''SESSION_DRIVER'', ''db''), (''CACHE_DRIVER'', ''memory''), (''QUEUE_DRIVER'', ''db''),
      (''MAIL_DRIVER'', ''log''), (''MAIL_QUEUE'', ''false''), (''LOG_LEVEL'', ''error''), (''LOG_FORMAT'', ''text''), (''NO_COLOR'', ''1'')]"

definition test_Env :: "string \<Rightarrow> nat \<Rightarrow> (string, string) fmap \<Rightarrow> string \<times> nat \<times> (string, string) fmap" where
  "test_Env name counter env =
     (case test_DSN name counter of
        (dsn, n) \<Rightarrow> (dsn, n, fold (\<lambda>x. fmupd (fst x) (snd x)) (test_settings dsn) env))"

definition test_Migrate :: "'s mig_registry \<Rightarrow> mig_faults \<Rightarrow> 's mig_db option \<Rightarrow> (fatal, 's mig_db) result" where
  "test_Migrate reg f db =
     (case db of
        None \<Rightarrow> Inl (Fatal ''testing: Migrate was given a nil database'')
      | Some d \<Rightarrow>
          (case mig_Up_run reg f 0 d of
             (Some e, _) \<Rightarrow> Inl (Fatal ''testing: apply migrations'')
           | (None, d') \<Rightarrow> Inr d'))"

end
