(* ===== verification/TestClientProps.thy ===== *)
theory TestClientProps
  imports TestClient
begin

text \<open>
  What the test client promises about the application it drives: it passes the CSRF middleware the way a
  page of the application does, and what \<^verbatim>\<open>Login\<close> leaves in it is a session the application accepts.
\<close>

section \<open>Cookies\<close>

lemma map_of_filter_keys:
  "map_of (map (\<lambda>x. (fst x, f (snd x))) (filter (\<lambda>x. Q (fst x)) xs)) n = (if Q n then map_option f (map_of xs n) else None)"
  by (induction xs) auto

lemma req_Cookie_attach:
  "req_Cookie r n = None \<Longrightarrow> req_Cookie (attachCookies c r) n = map_option sc_Value (fmlookup (cl_cookies c) n)"
  by (simp add: req_Cookie_def attachCookies_def map_add_def map_of_filter_keys [where Q = "\<lambda>k. map_of (req_Cookies r) k = None"])

lemma attach_simps [simp]:
  "req_Method (attachCookies c r) = req_Method r" "req_PostForm (attachCookies c r) = req_PostForm r"
  "req_Path (attachCookies c r) = req_Path r" "req_Header (attachCookies c r) = req_Header r"
  by (simp_all add: attachCookies_def)

lemma set_req_header_simps [simp]:
  "req_Method (set_req_header k v r) = req_Method r" "req_PostForm (set_req_header k v r) = req_PostForm r"
  "req_Path (set_req_header k v r) = req_Path r" "req_Cookies (set_req_header k v r) = req_Cookies r"
  "req_Cookie (set_req_header k v r) n = req_Cookie r n"
  "jar_Get hmac j (set_req_header k v r) n = jar_Get hmac j r n"
  by (simp_all add: set_req_header_def req_Cookie_def jar_Get_def)

lemma header_Get_set [simp]: "header_Get (set_req_header k v r) k = v"
proof -
  have "map_of (filter (\<lambda>x. fst x \<noteq> k) xs) k = None" for xs :: "(string \<times> string) list"
    by (induction xs) auto
  then show ?thesis by (simp add: header_Get_def set_req_header_def map_add_def)
qed

lemma remember_other: "n \<notin> sc_Name ` set cks \<Longrightarrow> fmlookup (fold remember1 cks m) n = fmlookup m n"
  by (induction cks arbitrary: m) (auto simp: remember1_def)

lemma remember_kept:
  "sc_MaxAge ck \<ge> 0 \<Longrightarrow> sc_Name ck \<notin> sc_Name ` set cks \<Longrightarrow>
   fmlookup (fold remember1 (ck # cks) m) (sc_Name ck) = Some ck"
  by (simp add: remember_other) (simp add: remember1_def)

section \<open>The CSRF middleware\<close>

text \<open>An application behind the middleware: the handler gets the token and the response with its cookie.\<close>

definition csrf_app ::
  "(string \<Rightarrow> string \<Rightarrow> string) \<Rightarrow> Jar \<Rightarrow> string \<Rightarrow> (string \<Rightarrow> 'st \<Rightarrow> request \<Rightarrow> response \<Rightarrow> response \<times> 'st) \<Rightarrow> 'st app" where
  "csrf_app hmac jar rnd inner st r =
     (case csrf_Protect hmac jar (\<lambda>_. False) (Some rnd) r empty_response of
        Inl p \<Rightarrow> (empty_response, st)
      | Inr (Csrf_Deny, token, w) \<Rightarrow> (w, st)
      | Inr (Csrf_Next, token, w) \<Rightarrow> inner token st r w)"

text \<open>A handler that adds cookies of its own only.\<close>

definition keeps_csrf :: "(string \<Rightarrow> 'st \<Rightarrow> request \<Rightarrow> response \<Rightarrow> response \<times> 'st) \<Rightarrow> bool" where
  "keeps_csrf inner =
     (\<forall>token st r w. \<exists>cs. resp_Cookies (fst (inner token st r w)) = resp_Cookies w @ cs \<and> csrf_CookieName \<notin> sc_Name ` set cs)"

text \<open>A client that has not been primed, or that holds a token of the application.\<close>

definition client_ok :: "(string \<Rightarrow> string \<Rightarrow> string) \<Rightarrow> Jar \<Rightarrow> Client \<Rightarrow> bool" where
  "client_ok hmac jar c =
     (case fmlookup (cl_cookies c) csrf_CookieName of
        None \<Rightarrow> \<not> cl_primed c
      | Some ck \<Rightarrow> \<exists>t. t \<noteq> [] \<and> jar_verify hmac jar csrf_CookieName (sc_Value ck) = Inr t)"

lemma csrf_prime:
  assumes "fmlookup (cl_cookies c) csrf_CookieName = None" and "rnd \<noteq> []" and "keeps_csrf inner"
  shows "\<exists>w c' st' ck. client_send (csrf_app hmac jar rnd inner) c (client_Request c2 ''GET'' path form) [] st = (w, c', st')
    \<and> fmlookup (cl_cookies c') csrf_CookieName = Some ck
    \<and> jar_verify hmac jar csrf_CookieName (sc_Value ck) = Inr (encode URL_Alphabet rnd)"
proof -
  define r where "r = attachCookies c (client_Request c2 ''GET'' path form)"
  have "req_Cookie r csrf_CookieName = None"
    using req_Cookie_attach [of "client_Request c2 ''GET'' path form" csrf_CookieName c] assms(1)
    by (simp add: r_def req_Cookie_def client_Request_def)
  then have no: "\<not> (\<exists>t. jar_Get hmac jar r csrf_CookieName = Inr t \<and> t \<noteq> [])" by (simp add: jar_Get_def)
  let ?t = "encode URL_Alphabet rnd"
  let ?w = "jar_Set hmac jar empty_response csrf_CookieName ?t \<lparr>opt_MaxAge = 0, opt_HTTPOnly = Some False\<rparr>"
  have "csrf_safe (req_Method r)" by (simp add: r_def client_Request_def csrf_safe_def)
  then have app: "csrf_app hmac jar rnd inner st r = inner ?t st r ?w"
    using csrf_token_step_new [OF no, of rnd empty_response] by (simp add: csrf_app_def csrf_Protect_def)
  obtain cs where cs: "resp_Cookies (fst (inner ?t st r ?w)) = resp_Cookies ?w @ cs" "csrf_CookieName \<notin> sc_Name ` set cs"
    using assms(3) unfolding keeps_csrf_def by blast
  define ck where "ck = last (resp_Cookies ?w)"
  have ck: "resp_Cookies ?w = [ck]" "sc_Name ck = csrf_CookieName" "sc_MaxAge ck = 0"
      "sc_Value ck = jar_sign hmac jar csrf_CookieName ?t"
    by (simp_all add: ck_def jar_Set_cookies empty_response_def)
  obtain w st' where i: "inner ?t st r ?w = (w, st')" by fastforce
  have "fmlookup (fold remember1 (resp_Cookies w) (cl_cookies c)) csrf_CookieName = Some ck"
    using remember_kept [of ck cs "cl_cookies c"] cs ck i by simp
  then show ?thesis using app i ck(4)
    by (auto simp: client_send_def r_def [symmetric] Let_def client_remember_def)
qed

lemma csrf_send_token:
  assumes "fmlookup (cl_cookies c) csrf_CookieName = Some ck" and "jar_verify hmac jar csrf_CookieName (sc_Value ck) = Inr t"
    and "t \<noteq> []" and "req_Cookie r csrf_CookieName = None"
  shows "csrf_app hmac jar rnd inner st (set_req_header csrf_HeaderName t (attachCookies c r))
    = inner t st (set_req_header csrf_HeaderName t (attachCookies c r)) empty_response"
proof -
  define r' where "r' = set_req_header csrf_HeaderName t (attachCookies c r)"
  have "req_Cookie r' csrf_CookieName = Some (sc_Value ck)"
    using req_Cookie_attach [OF assms(4), of c] assms(1) by (simp add: r'_def)
  then have "jar_Get hmac jar r' csrf_CookieName = Inr t" using assms(2) by (simp add: jar_Get_def)
  then obtain raw where "csrf_token_step hmac jar (Some rnd) r' empty_response = Inr (t, raw, empty_response)"
    using assms(3) csrf_token_step_verified by metis
  moreover have "csrf_submitted r' = t" using assms(3) by (simp add: csrf_submitted_def r'_def)
  ultimately show ?thesis
    unfolding r'_def [symmetric] using assms(3) by (simp add: csrf_app_def csrf_Protect_def csrf_valid_iff)
qed

lemma client_token:
  assumes "client_ok hmac jar c" and "rnd \<noteq> []" and "keeps_csrf inner"
  shows "\<exists>t c' st' ck. client_csrfToken hmac (Some jar) (csrf_app hmac jar rnd inner) c st = (t, c', st') \<and> t \<noteq> []
    \<and> fmlookup (cl_cookies c') csrf_CookieName = Some ck \<and> jar_verify hmac jar csrf_CookieName (sc_Value ck) = Inr t"
proof (cases "fmlookup (cl_cookies c) csrf_CookieName")
  case None
  then have np: "\<not> cl_primed c" using assms(1) by (simp add: client_ok_def)
  obtain w c' st' ck where p: "client_send (csrf_app hmac jar rnd inner) (c\<lparr>cl_primed := True\<rparr>) (client_Request c ''GET'' ''/'' (Some [])) [] st = (w, c', st')"
      "fmlookup (cl_cookies c') csrf_CookieName = Some ck"
      "jar_verify hmac jar csrf_CookieName (sc_Value ck) = Inr (encode URL_Alphabet rnd)"
    using csrf_prime [OF _ assms(2,3), of "c\<lparr>cl_primed := True\<rparr>" hmac jar c "''/''" "Some []" st] None by auto
  then show ?thesis using None np assms(2) by (simp add: client_csrfToken_def)
next
  case (Some ck)
  then show ?thesis using assms(1) by (auto simp: client_ok_def client_csrfToken_def)
qed

text \<open>The test client gets through the CSRF middleware the way a page of the application does.  Whatever
  unsafe request a client sends that is fresh or holds a token of the application, unless the test put a
  token or a CSRF cookie on the request itself: the middleware passes it on, so the answer is the
  answer of the handler to that request, with its method, path and form; and the handler sees as
  token the verified value of the cookie that the client sent along.\<close>

theorem client_passes_csrf:
  assumes "client_ok hmac jar c" and "rnd \<noteq> []" and "keeps_csrf inner" and "\<not> safeMethod (req_Method r)"
    and "header_Get r csrf_HeaderName = []" and "req_Cookie r csrf_CookieName = None"
  shows "\<exists>t st' r' w c' st2. client_Do hmac (Some jar) (csrf_app hmac jar rnd inner) c r st = (w, c', st2)
    \<and> inner t st' r' empty_response = (w, st2)
    \<and> req_Method r' = req_Method r \<and> req_Path r' = req_Path r \<and> req_PostForm r' = req_PostForm r
    \<and> t \<noteq> [] \<and> jar_Get hmac jar r' csrf_CookieName = Inr t \<and> client_ok hmac jar c'"
proof -
  obtain t c1 st1 ck where t: "client_csrfToken hmac (Some jar) (csrf_app hmac jar rnd inner) c st = (t, c1, st1)" "t \<noteq> []"
      "fmlookup (cl_cookies c1) csrf_CookieName = Some ck" "jar_verify hmac jar csrf_CookieName (sc_Value ck) = Inr t"
    using client_token [OF assms(1-3), of st] by blast
  define r' where "r' = set_req_header csrf_HeaderName t (attachCookies c1 r)"
  have app: "csrf_app hmac jar rnd inner st1 r' = inner t st1 r' empty_response"
    using csrf_send_token [OF t(3,4,2) assms(6)] by (simp add: r'_def)
  obtain w st2 where i: "inner t st1 r' empty_response = (w, st2)" by fastforce
  have got: "jar_Get hmac jar r' csrf_CookieName = Inr t"
    using req_Cookie_attach [OF assms(6), of c1] t(3,4) by (simp add: r'_def jar_Get_def)
  obtain cs where "resp_Cookies w = cs" "csrf_CookieName \<notin> sc_Name ` set cs"
    using assms(3) i unfolding keeps_csrf_def by (metis append_Nil empty_response_def fst_conv response.select_convs(1))
  then have "fmlookup (cl_cookies (client_remember (resp_Cookies w) c1)) csrf_CookieName = Some ck"
    using t(3) by (simp add: client_remember_def remember_other)
  then have "client_ok hmac jar (client_remember (resp_Cookies w) c1)" using t(2,4) by (auto simp: client_ok_def)
  moreover have "client_Do hmac (Some jar) (csrf_app hmac jar rnd inner) c r st = (w, client_remember (resp_Cookies w) c1, st2)"
    using assms(4,5) t(1,2) app i by (simp add: client_Do_def client_send_def r'_def Let_def)
  ultimately show ?thesis using i got t(2)
    by (intro exI [of _ t] exI [of _ st1] exI [of _ r'] exI [of _ w] exI [of _ "client_remember (resp_Cookies w) c1"] exI [of _ st2])
      (simp add: r'_def)
qed

definition hello :: "string \<Rightarrow> nat \<Rightarrow> request \<Rightarrow> response \<Rightarrow> response \<times> nat" where
  "hello token n r w = (write_body ''saved'' w, n + 1)"

theorem client_passes_csrf_witness:
  "\<exists>w c' n. client_Do (\<lambda>k m. m) (Some (cookie_New ''k'' False)) (csrf_app (\<lambda>k m. m) (cookie_New ''k'' False) ''abc'' hello)
      \<lparr>cl_cookies = fmempty, cl_Header = [], cl_primed = False\<rparr>
      (client_Request \<lparr>cl_cookies = fmempty, cl_Header = [], cl_primed = False\<rparr> ''POST'' ''/posts'' (Some [])) (0 :: nat) = (w, c', n)
    \<and> resp_Body w = ''saved''"
proof -
  let ?c = "\<lparr>cl_cookies = fmempty, cl_Header = [], cl_primed = False\<rparr>" and ?j = "cookie_New ''k'' False"
  let ?r = "client_Request ?c ''POST'' ''/posts'' (Some [])"
  have "client_ok (\<lambda>k m. m) ?j ?c" "keeps_csrf hello" "\<not> safeMethod (req_Method ?r)" "header_Get ?r csrf_HeaderName = []"
      "req_Cookie ?r csrf_CookieName = None"
    by (simp_all add: client_ok_def keeps_csrf_def hello_def client_Request_def safeMethod_def header_Get_def req_Cookie_def)
  note pass = client_passes_csrf [where hmac = "\<lambda>k m. m" and jar = ?j and rnd = "''abc''" and st = "0 :: nat",
      OF this(1) _ this(2,3,4,5)]
  obtain t st' r' w c' st2 where w: "client_Do (\<lambda>k m. m) (Some ?j) (csrf_app (\<lambda>k m. m) ?j ''abc'' hello) ?c ?r 0 = (w, c', st2)"
      "hello t st' r' empty_response = (w, st2)"
    using pass by auto
  then have "resp_Body w = ''saved''"
    by (auto simp: hello_def write_body_def write_header_def empty_response_def)
  with w show ?thesis by blast
qed


section \<open>Signing in\<close>

lemma remember_snoc:
  assumes "sc_MaxAge ck \<ge> 0"
  shows "fmlookup (cl_cookies (client_remember (cks @ [ck]) c)) (sc_Name ck) = Some ck"
  using assms by (simp add: client_remember_def remember1_def)

text \<open>A client that was signed in is signed in for the application.  After \<^verbatim>\<open>Login\<close> through the database
  store, every request the client sends without a session cookie of its own loads, until the session
  expires, a session whose user is the one that was given; and after \<^verbatim>\<open>Logout\<close> the client sends no
  session at all.\<close>

theorem client_login_accepted:
  assumes "client_Login (Some (\<lambda>now r. dbstore_Save hmac marshal False s now r)) lifetime now (Some b) (Some b') userID c tab = Inr (c', tab')"
    and "db_storable marshal unmarshal (session_Put UserIDKey userID
           \<lparr>sess_ID = encode URL_Alphabet b', sess_Data = fmempty, sess_ExpiresAt = now + lifetime, sess_dirty = True, sess_fresh = True\<rparr>)"
    and "0 \<le> lifetime" and "now' \<le> now + lifetime" and "req_Cookie r session_CookieName = None"
  shows "(\<exists>se. fst (dbstore_Load hmac unmarshal False f_delete s now' (attachCookies c' r) tab') = Inr se \<and> auth_ID se = userID)
    \<and> req_Cookie (attachCookies (client_Logout c') r) session_CookieName = None"
proof -
  define se where "se = session_Put UserIDKey userID
     \<lparr>sess_ID = encode URL_Alphabet b', sess_Data = fmempty, sess_ExpiresAt = now + lifetime, sess_dirty = True, sess_fresh = True\<rparr>"
  let ?r0 = "client_Request c ''GET'' ''/'' (Some [])"
  obtain se' w where save: "dbstore_Save hmac marshal False s now ?r0 empty_response se tab = Inr (se', w, tab')"
      and c': "c' = client_remember (resp_Cookies w) c"
    using assms(1)
    by (auto simp: client_Login_def client_loginWith_def session_New_def session_NewID_def auth_Login_def session_Regenerate_def
        se_def split: sum.splits prod.splits)
  obtain raw row where row: "marshal (sess_Data se) = Some raw" "row_ID row = sess_ID se" "row_Data row = raw"
      "row_ExpiresAt row = sess_ExpiresAt se" "tab' = fmupd (sess_ID se) row tab"
    using dbstore_Save_InrD [OF save] by metis
  define ck where "ck = last (resp_Cookies w)"
  have "resp_Cookies w = [ck]" and ck: "sc_Name ck = session_CookieName" "sc_MaxAge ck = until_seconds now (sess_ExpiresAt se)"
      "sc_Value ck = jar_sign hmac (dbs_Jar s) session_CookieName (sess_ID se)"
    using save by (auto simp: dbstore_Save_def Let_def jar_Set_cookies ck_def empty_response_def split: option.splits)
  moreover have exp: "sess_ExpiresAt se = now + lifetime" by (simp add: se_def session_Put_def)
  moreover have "sgn lifetime * (\<bar>lifetime\<bar> div Second) \<ge> 0"
    using assms(3) by (simp add: pos_imp_zdiv_nonneg_iff Second_def sgn_if)
  ultimately have look: "fmlookup (cl_cookies c') session_CookieName = Some ck"
    using remember_snoc [of ck "[]" c] c' by (simp add: until_seconds_def)
  have st: "sess_ID se \<noteq> []" "(if raw = [] then Some fmempty else unmarshal raw) = Some (sess_Data se)"
    using assms(2) row(1) by (simp_all add: db_storable_def se_def [symmetric])
  have "jar_Get hmac (dbs_Jar s) (attachCookies c' r) session_CookieName = Inr (sess_ID se)"
    using req_Cookie_attach [OF assms(5), of c'] look ck(3) by (simp add: jar_Get_def)
  moreover have "fmlookup (sess_Data se) UserIDKey = Some userID" by (simp add: se_def session_Put_def)
  ultimately have "\<exists>se. fst (dbstore_Load hmac unmarshal False f_delete s now' (attachCookies c' r) tab') = Inr se \<and> auth_ID se = userID"
    using row st assms(4) exp by (auto simp: dbstore_Load_def auth_ID_def session_Get_def)
  moreover have "req_Cookie (attachCookies (client_Logout c') r) session_CookieName = None"
    using req_Cookie_attach [OF assms(5), of "client_Logout c'"] by (simp add: client_Logout_def)
  ultimately show ?thesis ..
qed

definition one_user :: "(string, string) fmap" where "one_user = fmupd UserIDKey ''7'' fmempty"

theorem client_login_accepted_witness:
  "\<exists>c' tab'. client_Login (Some (\<lambda>now r. dbstore_Save demo_hmac (\<lambda>_. Some ''x'') False demo_store now r)) Hour 0 (Some ''a'') (Some ''b'') ''7''
       \<lparr>cl_cookies = fmempty, cl_Header = [], cl_primed = False\<rparr> fmempty = Inr (c', tab')
     \<and> (\<exists>se. fst (dbstore_Load demo_hmac (\<lambda>_. Some one_user) False False demo_store 5 (attachCookies c' get_request) tab') = Inr se
           \<and> auth_ID se = ''7'')"
proof -
  let ?c = "\<lparr>cl_cookies = fmempty, cl_Header = [], cl_primed = False\<rparr>"
  let ?login = "client_Login (Some (\<lambda>now r. dbstore_Save demo_hmac (\<lambda>_. Some ''x'') False demo_store now r)) Hour 0 (Some ''a'') (Some ''b'') ''7'' ?c fmempty"
  obtain c' tab' where l: "?login = Inr (c', tab')"
    by (auto simp: client_Login_def client_loginWith_def session_New_def session_NewID_def auth_Login_def session_Regenerate_def
        dbstore_Save_def Let_def)
  have "db_storable (\<lambda>_. Some ''x'') (\<lambda>_. Some one_user) (session_Put UserIDKey ''7''
      \<lparr>sess_ID = encode URL_Alphabet ''b'', sess_Data = fmempty, sess_ExpiresAt = 0 + Hour, sess_dirty = True, sess_fresh = True\<rparr>)"
    by (simp add: db_storable_def session_Put_def one_user_def)
  from client_login_accepted [where now' = 5 and r = get_request and f_delete = False, OF l this] l show ?thesis
    by (auto simp: Hour_def get_request_def req_Cookie_def)
qed

section \<open>Databases of tests\<close>

lemma safeName_chars: "c \<in> set (safeName name) \<Longrightarrow> c \<noteq> CHR ''-''"
  by (auto simp: safeName_def is_lower_def is_upper_def is_digit_def char_between_def)

text \<open>Every call of \<^verbatim>\<open>DSN\<close> names a database of its own, whatever the names of the tests.\<close>

lemma test_DSN_unique:
  assumes "fst (test_DSN n1 k1) = fst (test_DSN n2 k2)"
  shows "k1 = k2 \<and> safeName n1 = safeName n2"
proof -
  let ?q = "''?mode=memory&cache=shared&_pragma=foreign_keys(1)&_pragma=busy_timeout(5000)''"
  have e: "safeName n1 @ CHR ''-'' # format_nat (k1 + 1) @ ?q = safeName n2 @ CHR ''-'' # format_nat (k2 + 1) @ ?q"
    using assms by (simp add: test_DSN_def)
  have cut: "cut (CHR ''-'') (safeName n @ CHR ''-'' # t) = (safeName n, t, True)" for n t
    using safeName_chars by (intro cut_append_sep) blast
  have "safeName n1 = safeName n2 \<and> format_nat (k1 + 1) @ ?q = format_nat (k2 + 1) @ ?q"
    using arg_cong [OF e, of "cut (CHR ''-'')"] by (simp only: cut prod.inject)
  then have "safeName n1 = safeName n2" "format_nat (k1 + 1) = format_nat (k2 + 1)" by simp_all
  then show ?thesis using digits_val_format_nat by (metis add_right_cancel)
qed

end
