(* ===== verification/EnvFile.thy ===== *)
theory EnvFile
  imports NewProject Strconv
begin

text \<open>
  Editing the \<^verbatim>\<open>.env\<close> file of a project: \<^verbatim>\<open>key:generate\<close>
  (\<^verbatim>\<open>cmd/ry/internal/commands/key.go\<close>) and \<^verbatim>\<open>setEnvDSN\<close> of \<^verbatim>\<open>new.go\<close>.

  Both use the regular expression \<^verbatim>\<open>(?m)^\s*KEY\s*=.*$\<close>.  A key contains neither white space nor an
  equals sign, so a match at a line start is determined: the longest run of white space, which may
  cross lines, the key, again the longest run, the equals sign and the rest of that line.  Searching
  goes through the positions from the left, and replacing goes on behind each match.
\<close>

section \<open>The regular expression\<close>

abbreviation newline :: char where "newline \<equiv> CHR 0x0A"

text \<open>The class \<^verbatim>\<open>\s\<close>, which unlike \<^verbatim>\<open>strings.TrimSpace\<close> has no vertical tab.\<close>

definition re_space :: "char \<Rightarrow> bool" where
  "re_space c = (c \<in> {CHR '' '', CHR 0x09, newline, CHR 0x0C, CHR 0x0D})"

text \<open>What follows a match at the given position.\<close>

definition assign_match :: "string \<Rightarrow> string \<Rightarrow> string option" where
  "assign_match key s =
     (case cut_prefix (dropWhile re_space s) key of
        None \<Rightarrow> None
      | Some t \<Rightarrow>
          (case dropWhile re_space t of
             [] \<Rightarrow> None
           | c # u \<Rightarrow> if c = CHR ''='' then Some (dropWhile (\<lambda>d. d \<noteq> newline) u) else None))"

text \<open>\<^verbatim>\<open>FindString\<close>, where the flag says that the position is a line start.\<close>

fun find_assign :: "string \<Rightarrow> bool \<Rightarrow> string \<Rightarrow> string option" where
  "find_assign key bol [] = None"
| "find_assign key bol (c # cs) =
     (case (if bol then assign_match key (c # cs) else None) of
        Some rest \<Rightarrow> Some (take (Suc (length cs) - length rest) (c # cs))
      | None \<Rightarrow> find_assign key (c = newline) cs)"

lemma length_dropWhile_lt: "dropWhile P s = c # u \<Longrightarrow> length u < length s"
  by (metis Suc_le_lessD length_Cons length_dropWhile_le)

lemma assign_match_shorter: "assign_match key s = Some rest \<Longrightarrow> length rest < length s"
proof -
  assume "assign_match key s = Some rest"
  then obtain t c u where t: "cut_prefix (dropWhile re_space s) key = Some t" "dropWhile re_space t = c # u"
      "rest = dropWhile (\<lambda>d. d \<noteq> newline) u"
    by (auto simp: assign_match_def split: option.splits list.splits if_splits)
  have "length t \<le> length s"
    using t(1) length_dropWhile_le [of re_space s] by (auto simp: cut_prefix_def split: if_splits)
  with length_dropWhile_lt [OF t(2)] length_dropWhile_le [of "\<lambda>d. d \<noteq> newline" u] t(3)
  show ?thesis by simp
qed

text \<open>\<^verbatim>\<open>ReplaceAllLiteralString\<close>.\<close>

function replace_assign :: "string \<Rightarrow> string \<Rightarrow> bool \<Rightarrow> string \<Rightarrow> string" where
  "replace_assign key repl bol [] = []"
| "replace_assign key repl bol (c # cs) =
     (case (if bol then assign_match key (c # cs) else None) of
        Some rest \<Rightarrow> repl @ replace_assign key repl False rest
      | None \<Rightarrow> c # replace_assign key repl (c = newline) cs)"
  by pat_completeness auto
termination
  by (relation "measure (\<lambda>(_, _, _, s). length s)") (auto dest: assign_match_shorter split: if_splits)

declare replace_assign.simps(2) [simp del] find_assign.simps(2) [simp del]

lemma replace_assign_hit:
  "assign_match key s = Some rest \<Longrightarrow> replace_assign key repl True s = repl @ replace_assign key repl False rest"
  by (cases s) (auto simp: replace_assign.simps(2) dest: assign_match_shorter)

lemma replace_assign_copy:
  "\<not> bol \<or> assign_match key (c # cs) = None \<Longrightarrow>
   replace_assign key repl bol (c # cs) = c # replace_assign key repl (c = newline) cs"
  by (auto simp: replace_assign.simps(2))

section \<open>Replacing\<close>

text \<open>Whether there is a match, in three phases: white space, the rest of the key, the equals sign.\<close>

fun at_equals :: "string \<Rightarrow> bool" where
  "at_equals [] = False"
| "at_equals (c # cs) = (if re_space c then at_equals cs else c = CHR ''='')"

fun at_key :: "string \<Rightarrow> string \<Rightarrow> bool" where
  "at_key [] s = at_equals s"
| "at_key (k # ks) [] = False"
| "at_key (k # ks) (c # cs) = (c = k \<and> at_key ks cs)"

fun at_line :: "string \<Rightarrow> string \<Rightarrow> bool" where
  "at_line key [] = at_key key []"
| "at_line key (c # cs) = (if re_space c then at_line key cs else at_key key (c # cs))"

definition env_key :: "string \<Rightarrow> bool" where
  "env_key key = (key \<noteq> [] \<and> list_all (\<lambda>c. \<not> re_space c \<and> c \<noteq> CHR ''='') key)"

lemma at_equals_iff: "at_equals s \<longleftrightarrow> (\<exists>u. dropWhile re_space s = CHR ''='' # u)"
  by (induction s) (auto simp: re_space_def)

lemma at_key_iff: "at_key ks s \<longleftrightarrow> (\<exists>t. cut_prefix s ks = Some t \<and> at_equals t)"
  by (induction ks s rule: at_key.induct) (auto simp: cut_prefix_def has_prefix_def)

lemma at_line_iff: "at_line key s \<longleftrightarrow> at_key key (dropWhile re_space s)"
  by (induction s) auto

lemma assign_match_iff: "assign_match key s = None \<longleftrightarrow> \<not> at_line key s"
  by (auto simp: at_line_iff at_key_iff at_equals_iff assign_match_def simp del: dropWhile_eq_Nil_conv split: option.splits list.splits)

declare at_line.simps(2) [simp del]

lemma assign_match_assign:
  assumes "env_key key" "newline \<notin> set v"
  shows "assign_match key (key @ CHR ''='' # v @ t) = Some (dropWhile (\<lambda>d. d \<noteq> newline) t)"
proof -
  have "dropWhile re_space (key @ CHR ''='' # v @ t) = key @ CHR ''='' # v @ t"
    using assms(1) by (cases key) (auto simp: env_key_def)
  moreover have "dropWhile (\<lambda>d. d \<noteq> newline) (v @ t) = dropWhile (\<lambda>d. d \<noteq> newline) t"
    using assms(2) by (intro dropWhile_append2) auto
  ultimately show ?thesis by (simp add: assign_match_def re_space_def)
qed

lemma at_line_assign: "env_key key \<Longrightarrow> at_line key (key @ CHR ''='' # t)"
  using assign_match_assign [where v = "[]" and t = t] assign_match_iff [of key "key @ CHR ''='' # t"] by auto

abbreviation assigned :: "string \<Rightarrow> string \<Rightarrow> bool \<Rightarrow> string \<Rightarrow> string" where
  "assigned key val \<equiv> replace_assign key (key @ CHR ''='' # val)"

lemma assigned_hit:
  "at_line key s \<Longrightarrow> \<exists>rest. assign_match key s = Some rest \<and> assigned key val True s = key @ CHR ''='' # val @ assigned key val False rest"
  using assign_match_iff [of key s] by (cases "assign_match key s") (auto simp: replace_assign_hit)

lemma assigned_copy:
  "\<not> bol \<or> \<not> at_line key (c # cs) \<Longrightarrow> assigned key val bol (c # cs) = c # assigned key val (c = newline) cs"
  by (rule replace_assign_copy) (simp add: assign_match_iff)

text \<open>Replacing changes neither of the three phases, so no new match appears before an old one.\<close>

lemma at_line_head: "at_line key s \<Longrightarrow> env_key key \<Longrightarrow> \<not> at_equals s"
  by (induction s) (auto simp: at_line.simps(2) env_key_def neq_Nil_conv)

lemma at_equals_assigned: "env_key key \<Longrightarrow> at_equals (assigned key val bol s) = at_equals s"
proof (induction s arbitrary: bol)
  case (Cons c cs)
  show ?case
  proof (cases "bol \<and> at_line key (c # cs)")
    case True
    then obtain rest where "assigned key val bol (c # cs) = key @ CHR ''='' # val @ assigned key val False rest"
      using assigned_hit [of key "c # cs" val] by auto
    moreover have "\<not> at_equals (key @ t)" for t using Cons.prems by (cases key) (auto simp: env_key_def)
    ultimately show ?thesis using at_line_head [of key "c # cs"] True Cons.prems by simp
  next
    case False
    then show ?thesis using Cons by (auto simp: assigned_copy)
  qed
qed simp

lemma at_key_assigned:
  "env_key key \<Longrightarrow> newline \<notin> set ks \<Longrightarrow> at_key ks (assigned key val False s) = at_key ks s"
proof (induction ks arbitrary: s)
  case Nil
  then show ?case by (simp add: at_equals_assigned)
next
  case (Cons k ks)
  show ?case
  proof (cases s)
    case (Cons c cs)
    then show ?thesis using Cons.IH [of cs] Cons.prems by (auto simp: assigned_copy)
  qed simp
qed

lemma at_key_assigned1:
  "env_key key \<Longrightarrow> newline \<notin> set ks \<Longrightarrow> ks \<noteq> [] \<Longrightarrow> at_key ks (c # assigned key val False cs) = at_key ks (c # cs)"
  by (cases ks) (simp_all add: at_key_assigned)

lemma at_line_assigned: "env_key key \<Longrightarrow> at_line key (assigned key val bol s) = at_line key s"
proof (induction s arbitrary: bol)
  case (Cons c cs)
  have nl: "newline \<notin> set key" using Cons.prems by (auto simp: env_key_def list_all_iff re_space_def)
  show ?case
  proof (cases "bol \<and> at_line key (c # cs)")
    case True
    then show ?thesis using assigned_hit [of key "c # cs" val] at_line_assign [OF Cons.prems] by auto
  next
    case False
    then have step: "assigned key val bol (c # cs) = c # assigned key val (c = newline) cs" by (auto intro: assigned_copy)
    show ?thesis
    proof (cases "re_space c")
      case True
      then show ?thesis using Cons by (simp add: step at_line.simps(2))
    next
      case False
      then have "c \<noteq> newline" by (auto simp: re_space_def)
      with False show ?thesis
        using at_key_assigned1 [OF Cons.prems nl, of c val cs] Cons.prems by (simp add: step at_line.simps(2) env_key_def)
    qed
  qed
qed simp

lemma assign_match_rest: "assign_match key s = Some rest \<Longrightarrow> rest = [] \<or> hd rest = newline"
  using hd_dropWhile [of "\<lambda>d. d \<noteq> newline"]
  by (auto simp: assign_match_def split: option.splits list.splits if_splits)

lemma assigned_rest: "rest = [] \<or> hd rest = newline \<Longrightarrow> dropWhile (\<lambda>d. d \<noteq> newline) (assigned key val False rest) = assigned key val False rest"
  by (cases rest) (auto simp: assigned_copy)

lemma assign_match_assigned:
  assumes "env_key key" "newline \<notin> set val" "assign_match key s = Some rest"
  shows "assigned key val True s = key @ CHR ''='' # val @ assigned key val False rest"
    and "assign_match key (assigned key val True s) = Some (assigned key val False rest)"
proof -
  show eq: "assigned key val True s = key @ CHR ''='' # val @ assigned key val False rest"
    using assms(3) by (simp add: replace_assign_hit)
  show "assign_match key (assigned key val True s) = Some (assigned key val False rest)"
    unfolding eq assign_match_assign [OF assms(1,2)] using assigned_rest [OF assign_match_rest [OF assms(3)]] by simp
qed

lemma assigned_twice:
  assumes "env_key key" "newline \<notin> set val"
  shows "assigned key val' bol (assigned key val bol s) = assigned key val' bol s"
proof (induction "length s" arbitrary: bol s rule: less_induct)
  case less
  show ?case
  proof (cases "bol \<and> at_line key s")
    case True
    then obtain rest where rest: "assign_match key s = Some rest" by (metis assign_match_iff not_None_eq)
    from less [OF assign_match_shorter [OF rest], of False] show ?thesis
      using True assign_match_assigned(2) [OF assms rest] by (simp add: replace_assign_hit rest)
  next
    case False
    show ?thesis
    proof (cases s)
      case (Cons c cs)
      with False have "assigned key val bol s = c # assigned key val (c = newline) cs" by (auto intro: assigned_copy)
      moreover have "\<not> bol \<or> \<not> at_line key (c # assigned key val (c = newline) cs)"
        using False at_line_assigned [OF assms(1), of val bol s] calculation by auto
      ultimately show ?thesis using less [of cs "c = newline"] Cons False by (auto simp: assigned_copy)
    qed simp
  qed
qed

lemma find_assign_assigned:
  assumes "env_key key" "newline \<notin> set val"
  shows "find_assign key bol (assigned key val bol s) = map_option (\<lambda>_. key @ CHR ''='' # val) (find_assign key bol s)"
proof (induction s arbitrary: bol)
  case (Cons c cs)
  show ?case
  proof (cases "bol \<and> at_line key (c # cs)")
    case True
    then obtain rest where rest: "assign_match key (c # cs) = Some rest" by (metis assign_match_iff not_None_eq)
    note a = assign_match_assigned [OF assms rest]
    obtain d ds where d: "assigned key val True (c # cs) = d # ds" using a(1) by (cases key) auto
    have "Suc (length ds) - length (assigned key val False rest) = length (key @ CHR ''='' # val)"
      using arg_cong [OF a(1), of length] d by simp
    moreover have "take (length (key @ CHR ''='' # val)) (d # ds) = key @ CHR ''='' # val"
      using a(1) d by simp
    ultimately have "find_assign key True (d # ds) = Some (key @ CHR ''='' # val)"
      using a(2) d by (simp add: find_assign.simps(2))
    then show ?thesis using True rest d by (simp add: find_assign.simps(2))
  next
    case False
    then have step: "assigned key val bol (c # cs) = c # assigned key val (c = newline) cs" by (auto intro: assigned_copy)
    then have "\<not> bol \<or> \<not> at_line key (c # assigned key val (c = newline) cs)"
      using False at_line_assigned [OF assms(1), of val bol "c # cs"] by auto
    then show ?thesis using False Cons.IH [of "c = newline"]
      by (auto simp: step find_assign.simps(2) assign_match_iff [symmetric])
  qed
qed simp

lemma assigned_none: "find_assign key bol s = None \<Longrightarrow> assigned key val bol s = s"
  by (induction s arbitrary: bol) (auto simp: find_assign.simps(2) replace_assign.simps(2) split: if_splits option.splits)

section \<open>The application key\<close>

datatype env_error =
    Err_KeyProject project_error | Err_ReadEnv string | Err_HasKey string | Err_WriteEnv string
  | Err_NoLine string

definition APP_KEY :: string where "APP_KEY = ''APP_KEY''"

text \<open>\<^verbatim>\<open>p.Path\<close> of one element.\<close>

definition project_path :: "string list \<Rightarrow> string \<Rightarrow> string" where
  "project_path root e = [slash] @ join [slash] (root @ [e])"

definition existing_value :: "string \<Rightarrow> string" where
  "existing_value raw =
     trim_space (trim_prefix (trim_space (case find_assign APP_KEY True raw of None \<Rightarrow> [] | Some m \<Rightarrow> m)) (APP_KEY @ ''=''))"

definition trim_right_newlines :: "string \<Rightarrow> string" where
  "trim_right_newlines s = rev (dropWhile (\<lambda>c. c = newline) (rev s))"

definition with_key :: "string \<Rightarrow> string \<Rightarrow> string" where
  "with_key key raw =
     (if find_assign APP_KEY True raw \<noteq> None
      then replace_assign APP_KEY (APP_KEY @ ''='' @ key) True raw
      else trim_right_newlines raw @ [newline] @ APP_KEY @ ''='' @ key @ [newline])"

text \<open>\<^verbatim>\<open>relativeToWD\<close>, with \<^verbatim>\<open>filepath.Rel\<close> on the elements of cleaned paths.\<close>

fun strip_common :: "string list \<Rightarrow> string list \<Rightarrow> string list \<times> string list" where
  "strip_common (x # xs) (y # ys) = (if x = y then strip_common xs ys else (x # xs, y # ys))"
| "strip_common xs ys = (xs, ys)"

definition filepath_Rel :: "string \<Rightarrow> string \<Rightarrow> string option" where
  "filepath_Rel base targ =
     (let elems = (\<lambda>p. filter (\<lambda>e. e \<noteq> [] \<and> e \<noteq> ''.'') (split_on slash (path_clean p)))
      in if has_prefix base [slash] \<noteq> has_prefix targ [slash] then None
         else case strip_common (elems base) (elems targ) of
           (b, t) \<Rightarrow> if ''..'' \<in> set b then None
                     else Some (let r = map (\<lambda>_. ''..'') b @ t in if r = [] then ''.'' else join [slash] r))"

definition relativeToWD :: "string option \<Rightarrow> string \<Rightarrow> string" where
  "relativeToWD wd path =
     (case wd of
        None \<Rightarrow> path
      | Some d \<Rightarrow> (case filepath_Rel d path of
                     None \<Rightarrow> path | Some rel \<Rightarrow> if has_prefix rel ''..'' then path else rel))"

definition key_path :: "string \<Rightarrow> (project_error, string list \<times> Manifest) result \<Rightarrow> (env_error, string) result" where
  "key_path path0 currentProject =
     (if path0 = [] then map_sum Err_KeyProject (\<lambda>p. project_path (fst p) ''.env'') currentProject else Inr path0)"

text \<open>\<^verbatim>\<open>key:generate\<close>: \<open>shown\<close> is the flag that prints the key instead of writing it; the result is
  the text that is printed.\<close>

definition key_generate ::
  "string option \<Rightarrow> string option \<Rightarrow> bool \<Rightarrow> bool \<Rightarrow> string \<Rightarrow> (project_error, string list \<times> Manifest) result \<Rightarrow> (string \<Rightarrow> bool) \<Rightarrow> dest_fs
     \<Rightarrow> (env_error, string) result \<times> dest_fs" where
  "key_generate wd rnd shown force path0 currentProject writable fs =
     (case NewAppKey rnd of
        Inl e \<Rightarrow> (Inl (Err_KeyProject e), fs)
      | Inr key \<Rightarrow>
          if shown then (Inr key, fs)
          else case key_path path0 currentProject of
            Inl e \<Rightarrow> (Inl e, fs)
          | Inr path \<Rightarrow>
              (case fmlookup fs path of
                 None \<Rightarrow> (Inl (Err_ReadEnv path), fs)
               | Some raw \<Rightarrow>
                   if existing_value raw \<noteq> [] \<and> \<not> force then (Inl (Err_HasKey path), fs)
                   else if writable path then (Inr (''Wrote a new APP_KEY to '' @ relativeToWD wd path), fmupd path (with_key key raw) fs)
                   else (Inl (Err_WriteEnv path), fs)))"

text \<open>\<^verbatim>\<open>setEnvDSN\<close> of a project whose database has the given name.\<close>

definition dsn_key :: "string \<Rightarrow> string" where
  "dsn_key dbName = (if dbName = ''mongo'' then ''MONGO_URI'' else ''DB_DSN'')"

definition setEnvDSN :: "(string \<Rightarrow> bool) \<Rightarrow> string \<Rightarrow> string \<Rightarrow> string \<Rightarrow> dest_fs \<Rightarrow> env_error option \<times> dest_fs" where
  "setEnvDSN writable path dbName url fs =
     (case fmlookup fs path of
        None \<Rightarrow> (Some (Err_ReadEnv path), fs)
      | Some raw \<Rightarrow>
          if find_assign (dsn_key dbName) True raw = None then (Some (Err_NoLine (dsn_key dbName)), fs)
          else if writable path
          then (None, fmupd path (replace_assign (dsn_key dbName) (dsn_key dbName @ ''='' @ url) True raw) fs)
          else (Some (Err_WriteEnv path), fs))"

section \<open>A key is not lost by accident\<close>

lemma env_keys: "env_key APP_KEY" "env_key (dsn_key db)"
  by (auto simp: env_key_def APP_KEY_def dsn_key_def re_space_def)

text \<open>Appending a line to a file without a match: the only match is that line, with white space
  before it.\<close>

lemma at_equals_append: "at_equals (x @ newline # y) \<longleftrightarrow> at_equals x \<or> (list_all re_space x \<and> at_equals y)"
  by (induction x) (auto simp: re_space_def)

lemma at_key_append:
  "newline \<notin> set ks \<Longrightarrow> \<not> at_equals y \<Longrightarrow> at_key ks (x @ newline # y) = at_key ks x"
proof (induction ks arbitrary: x)
  case Nil
  then show ?case by (auto simp: at_equals_append)
next
  case (Cons k ks)
  then show ?case by (cases x) auto
qed

lemma at_line_append:
  assumes "env_key key" "\<not> at_equals y"
  shows "at_line key (x @ newline # y) \<longleftrightarrow> at_line key x \<or> (list_all re_space x \<and> at_line key y)"
proof (induction x)
  case Nil
  have "re_space newline" by (simp add: re_space_def)
  then show ?case using assms by (cases key) (simp_all add: at_line.simps(2) env_key_def)
next
  case (Cons c cs)
  have "newline \<notin> set key" using assms(1) by (auto simp: env_key_def list_all_iff re_space_def)
  from at_key_append [OF this assms(2), of "c # cs"] Cons show ?case by (simp add: at_line.simps(2))
qed

lemma find_assign_None_Cons:
  "find_assign key bol (c # cs) = None \<longleftrightarrow> (\<not> bol \<or> \<not> at_line key (c # cs)) \<and> find_assign key (c = newline) cs = None"
  using assign_match_iff [of key "c # cs"] by (auto simp: find_assign.simps(2) split: option.splits)

lemma find_assign_trim1: "env_key key \<Longrightarrow> find_assign key bol (x @ [newline]) = None \<Longrightarrow> find_assign key bol x = None"
proof (induction x arbitrary: bol)
  case (Cons c cs)
  then show ?case
    using at_line_append [OF Cons.prems(1), where y = "[]" and x = "c # cs"] by (auto simp: find_assign_None_Cons)
qed simp

lemma find_assign_trim: "env_key key \<Longrightarrow> find_assign key bol x = None \<Longrightarrow> find_assign key bol (trim_right_newlines x) = None"
proof (induction x rule: rev_induct)
  case (snoc c x)
  then show ?case using find_assign_trim1 [OF snoc.prems(1)] by (cases "c = newline") (auto simp: trim_right_newlines_def)
qed (simp add: trim_right_newlines_def)

lemma trim_space_pre: "list_all is_space ws \<Longrightarrow> trim_space (ws @ t) = trim_space t"
  by (simp add: trim_space_def list_all_iff)

lemma re_space_is_space: "re_space c \<Longrightarrow> is_space c"
  by (auto simp: re_space_def is_space_def)

lemma assign_match_pre: "list_all re_space ws \<Longrightarrow> assign_match key (ws @ t) = assign_match key t"
  by (simp add: assign_match_def list_all_iff)

lemma find_assign_append:
  assumes "env_key key" "newline \<notin> set val" "find_assign key bol x = None"
  shows "\<exists>ws. list_all re_space ws
    \<and> find_assign key bol (x @ newline # key @ CHR ''='' # val @ [newline]) = Some (ws @ key @ CHR ''='' # val)"
  using assms(3)
proof (induction x arbitrary: bol)
  case Nil
  let ?l = "key @ CHR ''='' # val @ [newline]"
  have m: "assign_match key ?l = Some [newline]" using assign_match_assign [OF assms(1,2), of "[newline]"] by simp
  have m': "assign_match key (newline # ?l) = Some [newline]"
    using assign_match_pre [of "[newline]" key ?l] m by (simp add: re_space_def)
  obtain d ds where d: "?l = d # ds" by (cases key) auto
  have "length ds = length (key @ CHR ''='' # val)" using arg_cong [OF d, of length] by simp
  moreover have "take (length (key @ CHR ''='' # val)) (d # ds) = key @ CHR ''='' # val" by (simp flip: d)
  ultimately have "find_assign key True ?l = Some (key @ CHR ''='' # val)"
    using m unfolding d by (simp add: find_assign.simps(2))
  moreover have "find_assign key True (newline # ?l) = Some ([newline] @ key @ CHR ''='' # val)"
    using m' by (simp add: find_assign.simps(2))
  moreover have "find_assign key False (newline # ?l) = find_assign key True ?l" by (simp add: find_assign.simps(2))
  moreover have "list_all re_space [newline]" by (simp add: re_space_def)
  ultimately show ?case by (cases bol) (auto intro: exI [of _ "[newline]"] exI [of _ "[]"])
next
  case (Cons c cs)
  let ?y = "key @ CHR ''='' # val @ [newline]"
  have none: "\<not> bol \<or> \<not> at_line key (c # cs)" "find_assign key (c = newline) cs = None"
    using Cons.prems by (auto simp: find_assign_None_Cons)
  have ne: "\<not> at_equals ?y" using assms(1) by (cases key) (auto simp: env_key_def)
  show ?case
  proof (cases "bol \<and> list_all re_space (c # cs)")
    case True
    have "assign_match key ((c # cs @ [newline]) @ ?y) = Some [newline]"
      using assign_match_assign [OF assms(1,2), of "[newline]"] True
      by (subst assign_match_pre) (auto simp: re_space_def)
    then have "find_assign key bol ((c # cs) @ newline # ?y) = Some ((c # cs @ [newline]) @ key @ CHR ''='' # val)"
      using True by (simp add: find_assign.simps(2))
    moreover have "list_all re_space (c # cs @ [newline])" using True by (simp add: re_space_def)
    ultimately show ?thesis by blast
  next
    case False
    then have "\<not> bol \<or> \<not> at_line key ((c # cs) @ newline # ?y)"
      using none(1) at_line_append [OF assms(1) ne, of "c # cs"] by blast
    then have "find_assign key bol ((c # cs) @ newline # ?y) = find_assign key (c = newline) (cs @ newline # ?y)"
      by (auto simp: find_assign.simps(2) assign_match_iff [symmetric])
    with Cons.IH [OF none(2)] show ?thesis by simp
  qed
qed

lemma existing_value_set:
  assumes "find_assign APP_KEY True raw = Some (ws @ APP_KEY @ CHR ''='' # key)" "list_all re_space ws"
    and "key \<noteq> []" "list_all (\<lambda>c. \<not> is_space c) key"
  shows "existing_value raw = key"
proof -
  have ws: "list_all is_space ws" using assms(2) re_space_is_space by (auto simp: list_all_iff)
  have "trim_space (APP_KEY @ CHR ''='' # key) = APP_KEY @ CHR ''='' # key"
    using assms(4) by (intro trim_space_id) (auto simp: APP_KEY_def is_space_def list_all_iff)
  moreover have "trim_space key = key" using assms(4) by (intro trim_space_id) (auto simp: list_all_iff)
  ultimately show ?thesis
    using trim_space_pre [OF ws] assms(1)
    by (simp add: existing_value_def trim_prefix_def has_prefix_def)
qed

lemma with_key_finds:
  assumes "newline \<notin> set key"
  shows "\<exists>ws. list_all re_space ws \<and> find_assign APP_KEY True (with_key key raw) = Some (ws @ APP_KEY @ CHR ''='' # key)"
proof (cases "find_assign APP_KEY True raw")
  case None
  from find_assign_append [OF env_keys(1) assms find_assign_trim [OF env_keys(1) None]] None show ?thesis by (simp add: with_key_def)
next
  case (Some m)
  then show ?thesis using find_assign_assigned [OF env_keys(1) assms, of True raw]
    by (auto simp: with_key_def intro: exI [of _ "[]"])
qed

lemma NewAppKey_plain:
  assumes "NewAppKey rnd = Inr key"
  shows "key \<noteq> []" "list_all (\<lambda>c. \<not> is_space c) key" "newline \<notin> set key"
proof -
  obtain b where key: "key = ''base64:'' @ encode_padded b" using assms by (auto simp: NewAppKey_def split: option.splits)
  show "key \<noteq> []" by (simp add: key)
  have pad: "\<not> is_space c" if "c \<in> set (encode_padded b)" for c
    using that encode_not_space by (auto simp: encode_padded_def Let_def is_space_def)
  then show "list_all (\<lambda>c. \<not> is_space c) key" by (auto simp: key list_all_iff is_space_def)
  then show "newline \<notin> set key" by (auto simp: list_all_iff is_space_def)
qed

lemma existing_value_with_key:
  assumes "NewAppKey rnd = Inr key"
  shows "existing_value (with_key key raw) = key"
  using with_key_finds [OF NewAppKey_plain(3) [OF assms]] existing_value_set NewAppKey_plain(1,2) [OF assms] by metis

text \<open>Generating a key does not lose one by accident.  A run that fails changes no file.  A run that
  succeeds writes one file; without force that file had no key in its first assignment, and afterwards
  it has the new key, so that every later run without force is refused and changes nothing.\<close>

theorem key_generate_protects:
  assumes "key_generate wd rnd False force path0 proj writable fs = (res, fs')"
  shows "case res of
      Inl _ \<Rightarrow> fs' = fs
    | Inr _ \<Rightarrow> (\<exists>path raw key. fmlookup fs path = Some raw \<and> NewAppKey rnd = Inr key
        \<and> fs' = fmupd path (with_key key raw) fs \<and> existing_value (with_key key raw) = key
        \<and> (existing_value raw \<noteq> [] \<longrightarrow> force)
        \<and> (\<forall>rnd'. \<exists>e. key_generate wd rnd' False False path0 proj writable fs' = (Inl e, fs')))"
proof (cases res)
  case (Inl e)
  then show ?thesis using assms by (auto simp: key_generate_def split: sum.splits option.splits if_splits)
next
  case (Inr msg)
  then obtain key path raw where k: "NewAppKey rnd = Inr key"
      "key_path path0 proj = Inr path"
      "fmlookup fs path = Some raw" "existing_value raw \<noteq> [] \<longrightarrow> force" "fs' = fmupd path (with_key key raw) fs"
    using assms by (auto simp: key_generate_def split: sum.splits option.splits if_splits)
  note new = existing_value_with_key [OF k(1), of raw]
  have "\<exists>e. key_generate wd rnd' False False path0 proj writable fs' = (Inl e, fs')" for rnd'
    using new NewAppKey_plain(1) [OF k(1)] by (auto simp: key_generate_def k(2,5) split: sum.splits)
  then show ?thesis using k new Inr by auto
qed

theorem key_generate_protects_witness:
  "\<exists>msg fs'. key_generate None (Some ''r'') False False ''.env'' (Inl Err_NotFound) (\<lambda>_. True) (fmupd ''.env'' ''APP_KEY='' fmempty) = (Inr msg, fs')
     \<and> (\<exists>e. key_generate None (Some ''s'') False False ''.env'' (Inl Err_NotFound) (\<lambda>_. True) fs' = (Inl e, fs'))"
proof -
  let ?fs = "fmupd ''.env'' ''APP_KEY='' fmempty :: dest_fs"
  have "existing_value ''APP_KEY='' = []" by code_simp
  then obtain msg fs' where run: "key_generate None (Some ''r'') False False ''.env'' (Inl Err_NotFound) (\<lambda>_. True) ?fs = (Inr msg, fs')"
    by (simp add: key_generate_def NewAppKey_def key_path_def)
  from key_generate_protects [OF this] run show ?thesis by auto
qed

text \<open>The line an existing project's connection string is written to is the one a reader finds: after
  \<open>setEnvDSN\<close> the first assignment of its key is the new one, setting it again leaves only the last
  value, and nothing is written when the file has no such line.\<close>

theorem setEnvDSN_last_wins:
  assumes "newline \<notin> set url" "setEnvDSN writable path dbName url fs = (None, fs')"
  shows "\<exists>raw raw'. fmlookup fs path = Some raw \<and> fs' = fmupd path raw' fs
    \<and> find_assign (dsn_key dbName) True raw' = Some (dsn_key dbName @ ''='' @ url)
    \<and> (\<forall>url'. setEnvDSN writable path dbName url' fs' = setEnvDSN writable path dbName url' fs)"
proof -
  let ?k = "dsn_key dbName"
  obtain raw m where raw: "fmlookup fs path = Some raw" "find_assign ?k True raw = Some m" "writable path"
      "fs' = fmupd path (assigned ?k url True raw) fs"
    using assms(2) by (auto simp: setEnvDSN_def split: option.splits if_splits)
  note found = find_assign_assigned [OF env_keys(2) assms(1), of dbName True raw]
  have "setEnvDSN writable path dbName url' fs' = setEnvDSN writable path dbName url' fs" for url'
    using raw found assigned_twice [OF env_keys(2) assms(1), of dbName url' True raw] by (simp add: setEnvDSN_def)
  then show ?thesis using raw found by (intro exI [of _ raw] exI [of _ "assigned ?k url True raw"]) simp
qed

theorem setEnvDSN_last_wins_witness:
  "\<exists>fs'. setEnvDSN (\<lambda>_. True) ''.env'' ''mongo'' ''mongodb://db/app'' (fmupd ''.env'' ''MONGO_URI=x'' fmempty) = (None, fs')
     \<and> fmlookup fs' ''.env'' = Some ''MONGO_URI=mongodb://db/app''"
proof -
  let ?fs = "fmupd ''.env'' ''MONGO_URI=x'' fmempty :: dest_fs"
  have v: "find_assign ''MONGO_URI'' True ''MONGO_URI=x'' \<noteq> None"
    "replace_assign ''MONGO_URI'' ''MONGO_URI=mongodb://db/app'' True ''MONGO_URI=x'' = ''MONGO_URI=mongodb://db/app''"
    by code_simp+
  have run: "setEnvDSN (\<lambda>_. True) ''.env'' ''mongo'' ''mongodb://db/app'' ?fs = (None, fmupd ''.env'' ''MONGO_URI=mongodb://db/app'' ?fs)"
    using v by (simp add: setEnvDSN_def dsn_key_def)
  from setEnvDSN_last_wins [OF _ run] run show ?thesis by auto
qed

text \<open>Two cases the regular expression is not meant for: a line with white space before the equals
  sign counts as a key although it has no value, and a second assignment is replaced although only the
  first was looked at.  Blank lines before an assignment are part of the match and disappear.\<close>

lemma key_line_oddities:
  "existing_value ''APP_KEY ='' = ''APP_KEY =''"
  "existing_value (''APP_KEY='' @ [newline] @ ''APP_KEY=secret'') = []"
  "with_key ''k'' (''APP_KEY='' @ [newline] @ ''APP_KEY=secret'') = ''APP_KEY=k'' @ [newline] @ ''APP_KEY=k''"
  "with_key ''k'' (''A=1'' @ [newline, newline, newline] @ ''APP_KEY='') = ''A=1'' @ [newline] @ ''APP_KEY=k''"
  by code_simp+

end
