(* ===== verification/Toolchain.thy ===== *)
theory Toolchain
  imports EnvFile
begin

text \<open>
  Running the Go tool for a project, \<^verbatim>\<open>cmd/ry/internal/toolchain/\<close> (\<^verbatim>\<open>toolchain.go\<close>,
  \<^verbatim>\<open>build.go\<close>).

  A process is an argument: a function of the directory, the command line and the state of the machine
  that answers with what it printed, the error it ended with, if any, and the new state.
\<close>

type_synonym 'w process = "string list \<Rightarrow> string list \<Rightarrow> 'w \<Rightarrow> (string \<times> string option) \<times> 'w"

definition tool_wrap :: "string list \<Rightarrow> string \<Rightarrow> string" where
  "tool_wrap argv err = join '' '' argv @ '': '' @ err"

text \<open>\<^verbatim>\<open>Run\<close> shows the output, \<^verbatim>\<open>Quiet\<close> adds it to the error, \<^verbatim>\<open>Output\<close> returns it; of the last one
  only what was printed on the standard error is added to the error, here \<open>stderr\<close>.\<close>

definition tool_Run :: "'w process \<Rightarrow> string list \<Rightarrow> string list \<Rightarrow> 'w \<Rightarrow> string option \<times> 'w" where
  "tool_Run proc dir argv w = (case proc dir argv w of ((_, err), w') \<Rightarrow> (map_option (tool_wrap argv) err, w'))"

definition tool_Quiet :: "'w process \<Rightarrow> string list \<Rightarrow> string list \<Rightarrow> 'w \<Rightarrow> string option \<times> 'w" where
  "tool_Quiet proc dir argv w =
     (case proc dir argv w of
        ((_, None), w') \<Rightarrow> (None, w')
      | ((out, Some err), w') \<Rightarrow> (Some (tool_wrap argv err @ (if out = [] then [] else newline # out)), w'))"

definition tool_Output :: "(string \<times> string \<times> string option) \<Rightarrow> string list \<Rightarrow> (string, string) result" where
  "tool_Output answer argv =
     (case answer of
        (out, stderr, None) \<Rightarrow> Inr (trim_space out)
      | (out, stderr, Some err) \<Rightarrow> Inl (tool_wrap argv err @ (if stderr = [] then [] else newline # stderr)))"

text \<open>\<^verbatim>\<open>GoVersion\<close>, of what the command answered.\<close>

definition GoVersion :: "(string, string) result \<Rightarrow> string" where
  "GoVersion out =
     (case out of
        Inl _ \<Rightarrow> ''1.24''
      | Inr v \<Rightarrow>
          (case split_on (CHR ''.'') (trim_prefix v ''go'') of
             major # minor # _ \<Rightarrow> major @ ''.'' @ minor
           | _ \<Rightarrow> ''1.24''))"

fun joinTags_loop :: "nat \<Rightarrow> string list \<Rightarrow> string \<Rightarrow> string" where
  "joinTags_loop i [] out = out"
| "joinTags_loop i (t # ts) out = joinTags_loop (Suc i) ts ((if i > 0 then out @ '','' else out) @ t)"

definition joinTags :: "string list \<Rightarrow> string" where
  "joinTags tags = joinTags_loop 0 tags []"

record BuildOptions =
  bo_Output :: string
  bo_Release :: bool
  bo_Tags :: "string list"

definition build_args :: "Manifest \<Rightarrow> BuildOptions \<Rightarrow> string list" where
  "build_args m opts =
     [''build'', ''-o'', bo_Output opts]
       @ (if bo_Release opts then [''-trimpath'', ''-ldflags'', ''-s -w''] else [])
       @ (if bo_Tags opts \<noteq> [] then [''-tags'', joinTags (bo_Tags opts)] else [])
       @ [mf_Main m]"

text \<open>\<^verbatim>\<open>Build\<close>; \<open>mkdir\<close> is the outcome of creating the directory of the output.\<close>

definition tool_Build ::
  "'w process \<Rightarrow> string option \<Rightarrow> string list \<times> Manifest \<Rightarrow> BuildOptions \<Rightarrow> 'w \<Rightarrow> string option \<times> 'w" where
  "tool_Build proc mkdir p opts w =
     (case mkdir of
        Some e \<Rightarrow> (Some e, w)
      | None \<Rightarrow> tool_Run proc (fst p) (''go'' # build_args (snd p) opts) w)"

definition tool_Templ :: "'w process \<Rightarrow> string list \<times> Manifest \<Rightarrow> 'w \<Rightarrow> string option \<times> 'w" where
  "tool_Templ proc p w =
     (if \<not> mf_Templ (snd p) then (None, w) else tool_Quiet proc (fst p) [''go'', ''tool'', ''templ'', ''generate''] w)"

section \<open>Properties\<close>

lemma joinTags_loop_join:
  "joinTags_loop (Suc i) ts out = out @ concat (map (\<lambda>t. CHR '','' # t) ts)"
  by (induction ts arbitrary: i out) auto

lemma join_concat: "join sep (x # xs) = x @ concat (map (\<lambda>t. sep @ t) xs)"
  by (induction xs arbitrary: x) auto

text \<open>The tags are separated by commas, so they can be told apart again when none contains one.\<close>

lemma joinTags_join: "joinTags tags = join '','' tags"
  by (cases tags) (simp_all add: joinTags_def joinTags_loop_join join_concat)

lemma joinTags_inverse:
  "tags \<noteq> [] \<Longrightarrow> (\<And>t. t \<in> set tags \<Longrightarrow> CHR '','' \<notin> set t) \<Longrightarrow> split_on (CHR '','') (joinTags tags) = tags"
  unfolding joinTags_join by (rule split_on_join)

lemma tool_Quiet_None: "fst (tool_Quiet proc dir argv w) = None \<longleftrightarrow> snd (fst (proc dir argv w)) = None"
  by (auto simp: tool_Quiet_def split: prod.splits option.splits)

lemma GoVersion_example: "GoVersion (Inr ''go1.25.2'') = ''1.25''" "GoVersion (Inr ''devel'') = ''1.24''"
  by code_simp+

end
