(* ===== verification/UpdateCmd.thy ===== *)
theory UpdateCmd
  imports Toolchain Release Services
begin

text \<open>
  Versions and updates: \<^verbatim>\<open>root.go\<close>, \<^verbatim>\<open>version.go\<close> and \<^verbatim>\<open>update.go\<close> of
  \<^verbatim>\<open>cmd/ry/internal/commands\<close>.

  The version stamped into the binary, the environment, the working directory and the files are
  arguments, and so is the answer of the release check.  The command tree of cobra is left out.
\<close>

section \<open>The version of the command\<close>

definition rylaModule :: string where "rylaModule = ''github.com/Dshonored/ryla''"

text \<open>\<^verbatim>\<open>Version\<close>: the version set at link time, or that of the build information.\<close>

definition ry_Version :: "string \<Rightarrow> string option \<Rightarrow> string" where
  "ry_Version linked buildInfo =
     (if linked \<noteq> [] then linked
      else case buildInfo of
        None \<Rightarrow> ''dev''
      | Some v \<Rightarrow> if v \<noteq> [] \<and> v \<noteq> ''(devel)'' then v else ''dev'')"

definition isPseudoVersion :: "string \<Rightarrow> bool" where
  "isPseudoVersion v =
     (let parts = split_on (CHR ''-'') v; n = length parts
      in n \<ge> 3 \<and> length (parts ! (n - 1)) \<ge> 12 \<and> length (parts ! (n - 2)) = 14)"

definition commitOf :: "string \<Rightarrow> string" where
  "commitOf v =
     (let l = last (split_on (CHR ''-'') (trim_suffix v ''+dirty''))
      in if 7 \<le> length l \<and> length l \<le> 14 then take 7 l else [])"

definition DisplayVersion :: "string \<Rightarrow> string" where
  "DisplayVersion v =
     (if \<not> contains_str v ''+dirty'' \<and> \<not> isPseudoVersion v then v
      else if commitOf v \<noteq> [] then ''dev ('' @ commitOf v @ '')'' else ''dev'')"

definition IsDevVersion :: "string \<Rightarrow> bool" where
  "IsDevVersion v = (v = ''dev'' \<or> contains_str v ''+dirty'')"

text \<open>\<^verbatim>\<open>noticeSuppressed\<close> of a command with the given usage line, if there is one, and
  \<^verbatim>\<open>wantsUpdateNotice\<close>.\<close>

definition noticeSuppressed :: "string option \<Rightarrow> bool" where
  "noticeSuppressed use =
     (case use of None \<Rightarrow> False | Some u \<Rightarrow> hd (str_fields u) \<in> {''version'', ''update'', ''dev''})"

definition wantsUpdateNotice :: "bool \<Rightarrow> string option \<Rightarrow> bool" where
  "wantsUpdateNotice stderr_is_terminal use = (stderr_is_terminal \<and> \<not> noticeSuppressed use)"

section \<open>A checkout of the framework\<close>

fun module_line :: "string list \<Rightarrow> string option" where
  "module_line [] = None"
| "module_line (l # ls) =
     (let line = trim_space l in
      if has_prefix line ''module '' then Some (trim_space (trim_prefix line ''module '')) else module_line ls)"

definition isFrameworkRoot :: "dest_fs \<Rightarrow> string list \<Rightarrow> bool" where
  "isFrameworkRoot fs dir =
     (case fmlookup fs (project_path dir ''go.mod'') of
        None \<Rightarrow> False
      | Some raw \<Rightarrow> module_line (split_on newline raw) = Some rylaModule)"

text \<open>The walk upwards, on the reversed elements of the directory.\<close>

fun framework_up :: "dest_fs \<Rightarrow> string list \<Rightarrow> string list option" where
  "framework_up fs [] = (if isFrameworkRoot fs [] then Some [] else None)"
| "framework_up fs (e # up) =
     (if isFrameworkRoot fs (rev (e # up)) then Some (rev (e # up)) else framework_up fs up)"

text \<open>\<^verbatim>\<open>frameworkPath\<close>: \<open>absolute\<close> is \<^verbatim>\<open>filepath.Abs\<close> and may fail, as may asking for the working directory.\<close>

definition frameworkPath ::
  "(string \<Rightarrow> string) \<Rightarrow> (string \<Rightarrow> string list option) \<Rightarrow> string list option \<Rightarrow> dest_fs \<Rightarrow> string list option" where
  "frameworkPath env absolute wd fs =
     (case (if env ''RYLA_PATH'' \<noteq> [] then absolute (env ''RYLA_PATH'') else None) of
        Some p \<Rightarrow> Some p
      | None \<Rightarrow> (case wd of None \<Rightarrow> None | Some d \<Rightarrow> framework_up fs (rev d)))"

section \<open>The version a project is pinned to\<close>

text \<open>The expression \<^verbatim>\<open>(?m)^\s*MODULE\s+(v\S+)\<close>; as the module has no white space and the version starts
  with a letter, a match at a line start is determined.\<close>

definition require_match :: "string \<Rightarrow> string option" where
  "require_match s =
     (case cut_prefix (dropWhile re_space s) rylaModule of
        None \<Rightarrow> None
      | Some t \<Rightarrow>
          (let v = takeWhile (\<lambda>c. \<not> re_space c) (dropWhile re_space t)
           in if t \<noteq> [] \<and> re_space (hd t) \<and> has_prefix v ''v'' \<and> length v \<ge> 2 then Some v else None))"

fun requireRe :: "bool \<Rightarrow> string \<Rightarrow> string option" where
  "requireRe bol [] = None"
| "requireRe bol (c # cs) =
     (case (if bol then require_match (c # cs) else None) of
        Some v \<Rightarrow> Some v | None \<Rightarrow> requireRe (c = newline) cs)"

definition frameworkVersionOf :: "dest_fs \<Rightarrow> string list \<Rightarrow> string" where
  "frameworkVersionOf fs root =
     (case fmlookup fs (project_path root ''go.mod'') of
        None \<Rightarrow> []
      | Some raw \<Rightarrow>
          if contains_str raw (''replace '' @ rylaModule) then ''local''
          else (case requireRe True raw of None \<Rightarrow> [] | Some v \<Rightarrow> v))"

section \<open>The status\<close>

record UpdateStatus =
  us_CLI :: string
  us_Latest :: string
  us_Framework :: string
  us_Project :: string
  us_CLIOutdated :: bool
  us_FrameworkOutdated :: bool
  us_Development :: bool

text \<open>\<^verbatim>\<open>gatherStatus\<close>; \<open>lookup\<close> is the answer of the cached or of the fresh check.\<close>

definition gatherStatus ::
  "semver \<Rightarrow> string \<Rightarrow> (project_error, string list \<times> Manifest) result \<Rightarrow> dest_fs \<Rightarrow> Info \<times> bool \<Rightarrow> UpdateStatus" where
  "gatherStatus sv version currentProject fs lookup =
     (let (proj, fw) = (case currentProject of
              Inl _ \<Rightarrow> ([], []) | Inr p \<Rightarrow> (mf_Name (snd p), frameworkVersionOf fs (fst p)));
          latest = (if snd lookup then in_Version (fst lookup) else [])
      in \<lparr>us_CLI = version, us_Latest = latest, us_Framework = fw, us_Project = proj,
          us_CLIOutdated = IsNewer sv version latest, us_FrameworkOutdated = IsNewer sv fw latest,
          us_Development = IsDevVersion version\<rparr>)"

definition reportStatus :: "UpdateStatus \<Rightarrow> string list" where
  "reportStatus s =
     [''ry CLI       '' @ us_CLI s]
       @ (if us_Framework s \<noteq> []
          then [''framework    '' @ us_Framework s @ (if us_Project s \<noteq> [] then ''  (in '' @ us_Project s @ '')'' else [])] else [])
       @ (if us_Latest s = [] then [[], ''Could not reach the module proxy to check for updates.'']
          else if us_CLIOutdated s \<or> us_FrameworkOutdated s
          then [''latest       '' @ us_Latest s, []]
               @ (if us_CLIOutdated s then [''  ry update --self   updates the CLI''] else [])
               @ (if us_FrameworkOutdated s then [''  ry update          updates this project''] else [])
          else if us_Development s
          then [''latest       '' @ us_Latest s, [], ''This is a development build, so there is nothing to update.'']
          else [''latest       '' @ us_Latest s, [], ''Everything is up to date.''])"

definition middle_dot :: string where "middle_dot = [CHR 0xC2, CHR 0xB7]"
definition arrow :: string where "arrow = [CHR 0xE2, CHR 0x86, CHR 0x92]"

definition updateNotice :: "UpdateStatus \<Rightarrow> string" where
  "updateNotice s =
     (if us_Latest s = [] then []
      else if us_CLIOutdated s \<and> us_FrameworkOutdated s
      then ''update available: ry '' @ us_CLI s @ '' and this project are behind '' @ us_Latest s @ ''  '' @ middle_dot @ ''  run `ry update --all`''
      else if us_CLIOutdated s
      then ''update available: ry '' @ us_CLI s @ '' '' @ arrow @ '' '' @ us_Latest s @ ''  '' @ middle_dot @ ''  run `ry update --self`''
      else if us_FrameworkOutdated s
      then ''this project is on ryla '' @ us_Framework s @ '', and '' @ us_Latest s @ '' is out  '' @ middle_dot @ ''  run `ry update`''
      else [])"

text \<open>\<^verbatim>\<open>showUpdateNotice\<close>: at most once in a process; the flag says that it was reached before.\<close>

definition showUpdateNotice :: "bool \<Rightarrow> bool \<Rightarrow> string option \<Rightarrow> UpdateStatus \<Rightarrow> string \<times> bool" where
  "showUpdateNotice shown terminal use s =
     (if shown \<or> \<not> wantsUpdateNotice terminal use \<or> updateNotice s = [] then ([], True)
      else (newline # updateNotice s @ [newline], True))"

section \<open>Updating\<close>

datatype update_error =
    Err_UpdateSelf string | Err_UpdateProject project_error | Err_LocalCheckout | Err_UpdateFramework string | Err_Tidy string

record update_run =
  up_error :: "update_error option"
  up_out :: "string list"
  up_cmds :: "(string list \<times> string list) list"
  up_fs :: dest_fs

definition update_target :: "string \<Rightarrow> string" where
  "update_target to = (if to = [] then ''latest'' else to)"

definition install_args :: "string \<Rightarrow> string list" where
  "install_args to = [''go'', ''install'', rylaModule @ ''/cmd/ry@'' @ update_target to]"

definition get_args :: "string \<Rightarrow> string list" where
  "get_args to = [''go'', ''get'', rylaModule @ ''@'' @ update_target to]"

definition tidy_args :: "string list" where
  "tidy_args = [''go'', ''mod'', ''tidy'']"

text \<open>The part of \<^verbatim>\<open>applyUpdate\<close> about the project.\<close>

definition update_project ::
  "dest_fs process \<Rightarrow> (project_error, string list \<times> Manifest) result \<Rightarrow> UpdateStatus \<Rightarrow> bool \<Rightarrow> string \<Rightarrow> dest_fs \<Rightarrow> update_run" where
  "update_project proc currentProject s self to fs =
     (case currentProject of
        Inl e \<Rightarrow> \<lparr>up_error = (if self then None else Some (Err_UpdateProject e)), up_out = [], up_cmds = [], up_fs = fs\<rparr>
      | Inr p \<Rightarrow>
          if us_Framework s = ''local'' then \<lparr>up_error = Some Err_LocalCheckout, up_out = [], up_cmds = [], up_fs = fs\<rparr>
          else let head = ''Updating '' @ rylaModule @ '' to '' @ update_target to @ ''...'' in
            (case tool_Run proc (fst p) (get_args to) fs of
               (Some e, fs1) \<Rightarrow> \<lparr>up_error = Some (Err_UpdateFramework e), up_out = [head], up_cmds = [(fst p, get_args to)], up_fs = fs1\<rparr>
             | (None, fs1) \<Rightarrow>
                 (case tool_Quiet proc (fst p) tidy_args fs1 of
                    (Some e, fs2) \<Rightarrow>
                      \<lparr>up_error = Some (Err_Tidy e), up_out = [head], up_cmds = [(fst p, get_args to), (fst p, tidy_args)], up_fs = fs2\<rparr>
                  | (None, fs2) \<Rightarrow>
                      let updated = frameworkVersionOf fs2 (fst p) in
                      \<lparr>up_error = None,
                       up_out = head #
                         (if updated = us_Framework s then [''Already on '' @ updated @ ''.'']
                          else [''Updated '' @ us_Framework s @ '' '' @ arrow @ '' '' @ updated @ ''.'', [],
                                ''Rebuild and run your tests before committing: `ry build && go test ./...`'']),
                       up_cmds = [(fst p, get_args to), (fst p, tidy_args)], up_fs = fs2\<rparr>)))"

definition applyUpdate ::
  "dest_fs process \<Rightarrow> (project_error, string list \<times> Manifest) result \<Rightarrow> UpdateStatus \<Rightarrow> bool \<Rightarrow> bool \<Rightarrow> string \<Rightarrow> dest_fs \<Rightarrow> update_run" where
  "applyUpdate proc currentProject s self projectToo to fs =
     (let started = [''Updating the ry command to '' @ update_target to @ ''...''];
          rest = (\<lambda>out cmds fs'. if \<not> projectToo then \<lparr>up_error = None, up_out = out, up_cmds = cmds, up_fs = fs'\<rparr>
                   else (let r = update_project proc currentProject s self to fs'
                         in r\<lparr>up_out := out @ up_out r, up_cmds := cmds @ up_cmds r\<rparr>))
      in if \<not> self then rest [] [] fs
         else case tool_Run proc [] (install_args to) fs of
           (Some e, fs') \<Rightarrow> \<lparr>up_error = Some (Err_UpdateSelf e), up_out = started, up_cmds = [([], install_args to)], up_fs = fs'\<rparr>
         | (None, fs') \<Rightarrow> rest (started @ [''Updated. Run `ry version` to confirm.'']) [([], install_args to)] fs')"

text \<open>The body of \<^verbatim>\<open>ry update\<close> without the JSON output.\<close>

definition update_cmd ::
  "dest_fs process \<Rightarrow> (project_error, string list \<times> Manifest) result \<Rightarrow> UpdateStatus \<Rightarrow> bool \<Rightarrow> bool \<Rightarrow> bool \<Rightarrow> string \<Rightarrow> dest_fs \<Rightarrow> update_run" where
  "update_cmd proc currentProject s self0 everything check to fs =
     (let self = (self0 \<or> everything) in
      if check then \<lparr>up_error = None, up_out = reportStatus s, up_cmds = [], up_fs = fs\<rparr>
      else if us_Project s = [] \<and> \<not> self
      then (let r = applyUpdate proc currentProject s True False to fs
            in r\<lparr>up_out := ''Not inside a project, so updating the ry command itself.'' # up_out r\<rparr>)
      else applyUpdate proc currentProject s self (everything \<or> \<not> self) to fs)"

text \<open>The text of \<^verbatim>\<open>ry version\<close>.\<close>

definition version_text :: "string \<Rightarrow> string \<Rightarrow> string \<Rightarrow> string \<Rightarrow> (project_error, string list \<times> Manifest) result \<Rightarrow> dest_fs \<Rightarrow> string list" where
  "version_text version go os arch currentProject fs =
     (let (proj, fw) = (case currentProject of
              Inl _ \<Rightarrow> ([], []) | Inr p \<Rightarrow> (mf_Name (snd p), frameworkVersionOf fs (fst p)))
      in (''ryla '' @ version @ '' ('' @ go @ '' '' @ os @ ''/'' @ arch @ '')'')
           # (if fw \<noteq> [] then [''framework '' @ fw @ '' in '' @ proj] else []))"

section \<open>Properties\<close>

text \<open>The commands that an update consists of.\<close>

definition update_plan ::
  "(project_error, string list \<times> Manifest) result \<Rightarrow> UpdateStatus \<Rightarrow> bool \<Rightarrow> bool \<Rightarrow> bool \<Rightarrow> string \<Rightarrow> (string list \<times> string list) list" where
  "update_plan currentProject s self everything check to =
     (if check then []
      else (if self \<or> everything \<or> us_Project s = [] then [([], install_args to)] else [])
        @ (case currentProject of
             Inr p \<Rightarrow>
               if (everything \<or> (\<not> self \<and> us_Project s \<noteq> [])) \<and> us_Framework s \<noteq> ''local''
               then [(fst p, get_args to), (fst p, tidy_args)] else []
           | Inl _ \<Rightarrow> []))"

definition is_prefix :: "'a list \<Rightarrow> 'a list \<Rightarrow> bool" where
  "is_prefix xs ys = (take (length xs) ys = xs)"

lemma update_project_plan:
  assumes "r = update_project proc cp s self to fs"
  defines "pl \<equiv> (case cp of Inr p \<Rightarrow> if us_Framework s \<noteq> ''local'' then [(fst p, get_args to), (fst p, tidy_args)] else [] | Inl _ \<Rightarrow> [])"
  shows "is_prefix (up_cmds r) pl" "up_error r = None \<Longrightarrow> up_cmds r = pl"
    "us_Framework s = ''local'' \<Longrightarrow> up_cmds r = [] \<and> up_fs r = fs"
  unfolding pl_def assms(1)
  by (auto simp: update_project_def is_prefix_def Let_def split: sum.splits prod.splits option.splits)

text \<open>An update runs the commands it is made of, in order.  Installing the command comes first when it
  was asked for or when there is no project; then the framework is fetched and the module tidied, when
  the project is to be updated.  A run that fails has run a prefix of these, one that succeeds all of
  them; a mere check and a project on a local checkout run none of the project's commands.\<close>

theorem update_runs_plan:
  assumes "r = update_cmd proc cp s self everything check to fs"
  shows "is_prefix (up_cmds r) (update_plan cp s self everything check to)
    \<and> (up_error r = None \<longrightarrow> up_cmds r = update_plan cp s self everything check to)
    \<and> (check \<longrightarrow> up_error r = None \<and> up_fs r = fs)"
proof (cases check)
  case True
  then show ?thesis by (simp add: assms update_cmd_def update_plan_def Let_def is_prefix_def)
next
  case False
  have pp: "is_prefix (up_cmds (update_project proc cp s b to f))
        (case cp of Inr p \<Rightarrow> if us_Framework s \<noteq> ''local'' then [(fst p, get_args to), (fst p, tidy_args)] else [] | Inl _ \<Rightarrow> [])"
      "up_error (update_project proc cp s b to f) = None \<Longrightarrow> up_cmds (update_project proc cp s b to f) =
        (case cp of Inr p \<Rightarrow> if us_Framework s \<noteq> ''local'' then [(fst p, get_args to), (fst p, tidy_args)] else [] | Inl _ \<Rightarrow> [])"
    for b f by (rule update_project_plan [OF refl], (rule update_project_plan [OF refl], assumption)?)
  show ?thesis
    using False pp
    by (auto simp: assms update_cmd_def update_plan_def applyUpdate_def Let_def is_prefix_def split: sum.splits prod.splits option.splits if_splits)
qed

theorem update_runs_plan_witness:
  "up_cmds (update_cmd (\<lambda>_ _ w. (([], None), w)) (Inl Err_NotFound) \<lparr>us_CLI = [], us_Latest = [], us_Framework = [], us_Project = [],
      us_CLIOutdated = False, us_FrameworkOutdated = False, us_Development = False\<rparr> False False False ''v1'' fmempty)
   = [([], [''go'', ''install'', ''github.com/Dshonored/ryla/cmd/ry@v1''])]"
proof -
  let ?s = "\<lparr>us_CLI = [], us_Latest = [], us_Framework = [], us_Project = [],
      us_CLIOutdated = False, us_FrameworkOutdated = False, us_Development = False\<rparr>"
  let ?r = "update_cmd (\<lambda>_ _ w. (([], None), w)) (Inl Err_NotFound) ?s False False False ''v1'' fmempty"
  have "up_error ?r = None" by (simp add: update_cmd_def applyUpdate_def tool_Run_def Let_def)
  then show ?thesis
    using update_runs_plan [OF refl, where proc = "\<lambda>_ _ w. (([], None), w)" and cp = "Inl Err_NotFound" and s = ?s and self = False
        and everything = False and check = False and to = "''v1''" and fs = fmempty]
    by (simp add: update_plan_def install_args_def update_target_def rylaModule_def)
qed

lemma contains_str_iff: "contains_str s p \<longleftrightarrow> (\<exists>a b. s = a @ p @ b)"
proof
  assume "contains_str s p"
  then obtain i where "has_prefix (drop i s) p" by (auto simp: contains_str_def list_ex_iff simp del: upt_Suc)
  then have "s = take i s @ p @ drop (length p) (drop i s)" by (metis append_take_drop_id has_prefixE)
  then show "\<exists>a b. s = a @ p @ b" by blast
qed (auto intro: contains_str_mid)

lemma rylaModule_chars: "\<not> re_space (hd rylaModule)" "newline \<notin> set rylaModule" "rylaModule \<noteq> []"
  by (simp_all add: rylaModule_def re_space_def)

abbreviation require_line :: "string \<Rightarrow> string \<Rightarrow> string" where
  "require_line ver post \<equiv> CHR 0x09 # rylaModule @ CHR '' '' # CHR ''v'' # ver @ newline # post"

lemma require_match_line:
  assumes "list_all re_space ws" "ver \<noteq> []" "list_all (\<lambda>c. \<not> re_space c) ver"
  shows "require_match (ws @ require_line ver post) = Some (CHR ''v'' # ver)"
proof -
  have sp: "re_space (CHR 0x09)" "re_space (CHR '' '')" "re_space newline" "\<not> re_space (CHR ''v'')" by (simp_all add: re_space_def)
  have "dropWhile re_space (rylaModule @ t) = rylaModule @ t" for t
    using rylaModule_chars(1,3) by (metis append_Cons dropWhile.simps(2) list.exhaust_sel)
  then have "dropWhile re_space (ws @ require_line ver post) = rylaModule @ CHR '' '' # CHR ''v'' # ver @ newline # post"
    using assms(1) sp by (simp add: list_all_iff)
  moreover have "takeWhile (\<lambda>c. \<not> re_space c) (ver @ newline # post) = ver"
    using assms(3) sp by (simp add: list_all_iff takeWhile_append2)
  ultimately show ?thesis using assms(2) sp by (simp add: require_match_def Let_def has_prefix_def Suc_le_eq)
qed

lemma prefix_before: "d @ c # t = m @ u \<Longrightarrow> c \<notin> set m \<Longrightarrow> \<exists>w. d = m @ w"
  by (auto simp: append_eq_append_conv2 Cons_eq_append_conv)

lemma require_match_earlier:
  assumes "\<not> contains_str pre rylaModule" "require_match (pre @ newline # t) = Some v"
  shows "list_all re_space pre"
proof (rule ccontr)
  assume "\<not> list_all re_space pre"
  then obtain x where "x \<in> set pre" "\<not> re_space x" by (auto simp: list_all_iff)
  then have dw: "dropWhile re_space (pre @ newline # t) = dropWhile re_space pre @ newline # t" by (rule dropWhile_append1)
  let ?d = "dropWhile re_space pre"
  have "has_prefix (?d @ newline # t) rylaModule"
    using assms(2) dw by (auto simp: require_match_def cut_prefix_def split: if_splits)
  then obtain u where u: "?d @ newline # t = rylaModule @ u" by (metis has_prefixE)
  have "\<exists>w. ?d = rylaModule @ w"
    by (rule prefix_before [OF u rylaModule_chars(2)])
  then obtain w where "pre = takeWhile re_space pre @ rylaModule @ w" by (metis takeWhile_dropWhile_id)
  with assms(1) contains_str_mid show False by metis
qed

lemma requireRe_line:
  assumes "ver \<noteq> []" "list_all (\<lambda>c. \<not> re_space c) ver"
  shows "\<not> contains_str pre rylaModule \<Longrightarrow> requireRe b (pre @ newline # require_line ver post) = Some (CHR ''v'' # ver)"
proof (induction pre arbitrary: b)
  case Nil
  have "require_match (newline # require_line ver post) = Some (CHR ''v'' # ver)"
    "require_match (require_line ver post) = Some (CHR ''v'' # ver)"
    using require_match_line [of "[newline]" ver post] require_match_line [of "[]" ver post] assms by (simp_all add: re_space_def)
  then show ?case by simp
next
  case (Cons c cs)
  have "\<not> contains_str cs rylaModule" using Cons.prems by (metis append_Cons contains_str_iff)
  note ih = Cons.IH [OF this]
  show ?case
  proof (cases "b \<and> require_match ((c # cs) @ newline # require_line ver post) \<noteq> None")
    case True
    then have "list_all re_space (c # cs)" using require_match_earlier [OF Cons.prems] by auto
    then have "require_match ((c # cs @ [newline]) @ require_line ver post) = Some (CHR ''v'' # ver)"
      using assms by (intro require_match_line) (auto simp: re_space_def)
    then show ?thesis using True by simp
  next
    case False
    then show ?thesis using ih by (auto simp del: requireRe.simps(1) split: option.splits)
  qed
qed

text \<open>The version of a project is read from its requirement.  When the module stands on a line of its
  own in a block, nothing before it mentions the module and it is not replaced, the version is the one
  given there, whatever follows.\<close>

theorem framework_version_read:
  assumes "\<not> contains_str pre rylaModule" "ver \<noteq> []" "list_all (\<lambda>c. \<not> re_space c) ver"
    and "fmlookup fs (project_path root ''go.mod'') = Some (pre @ newline # require_line ver post)"
    and "\<not> contains_str (pre @ newline # require_line ver post) (''replace '' @ rylaModule)"
  shows "frameworkVersionOf fs root = CHR ''v'' # ver"
  using requireRe_line [OF assms(2,3,1)] assms(4,5) by (simp add: frameworkVersionOf_def)

theorem framework_version_read_witness:
  "frameworkVersionOf (fmupd ''/go.mod'' (''require ('' @ newline # require_line ''1.2.0'' '')'') fmempty) [] = ''v1.2.0''"
proof -
  have "\<not> contains_str ''require ('' rylaModule"
    "\<not> contains_str (''require ('' @ newline # require_line ''1.2.0'' '')'') (''replace '' @ rylaModule)"
    "list_all (\<lambda>c. \<not> re_space c) ''1.2.0''" "project_path [] ''go.mod'' = ''/go.mod''"
    by code_simp+
  then show ?thesis
    using framework_version_read [where pre = "''require (''" and ver = "''1.2.0''" and post = "'')''" and root = "[]"
        and fs = "fmupd ''/go.mod'' (''require ('' @ newline # require_line ''1.2.0'' '')'') fmempty"]
    by simp
qed

lemma not_outdated_without_version:
  "frameworkVersionOf fs root = [] \<Longrightarrow> \<not> us_FrameworkOutdated (gatherStatus sv version (Inr (root, m)) fs look)"
  by (simp add: gatherStatus_def IsNewer_def Let_def)

text \<open>The forms it does not read.  A requirement on a single line, as \<^verbatim>\<open>go mod edit\<close> writes it into a new
  module, yields no version, and such a project is never reported as behind; a replacement inside a
  block goes unnoticed, and one in a comment counts.\<close>

theorem framework_version_blind:
  "frameworkVersionOf (fmupd ''/go.mod'' (''module app'' @ newline # ''require github.com/Dshonored/ryla v0.1.0'') fmempty) [] = []
   \<and> frameworkVersionOf (fmupd ''/go.mod'' (''require ('' @ newline # require_line ''0.1.0'' (CHR '')'' # newline # ''replace ('' @ newline # CHR 0x09 # rylaModule @ '' => ../ryla'')) fmempty) [] = ''v0.1.0''
   \<and> frameworkVersionOf (fmupd ''/go.mod'' (''require ('' @ newline # require_line ''0.1.0'' ('')'' @ newline # ''// no replace github.com/Dshonored/ryla'')) fmempty) [] = ''local''
   \<and> \<not> us_FrameworkOutdated (gatherStatus sv version (Inr ([], m))
         (fmupd ''/go.mod'' (''module app'' @ newline # ''require github.com/Dshonored/ryla v0.1.0'') fmempty) look)"
proof -
  have a: "frameworkVersionOf (fmupd ''/go.mod'' (''module app'' @ newline # ''require github.com/Dshonored/ryla v0.1.0'') fmempty) [] = []"
    by code_simp
  moreover have "frameworkVersionOf (fmupd ''/go.mod'' (''require ('' @ newline # require_line ''0.1.0'' (CHR '')'' # newline # ''replace ('' @ newline # CHR 0x09 # rylaModule @ '' => ../ryla'')) fmempty) [] = ''v0.1.0''"
    by code_simp
  moreover have "frameworkVersionOf (fmupd ''/go.mod'' (''require ('' @ newline # require_line ''0.1.0'' ('')'' @ newline # ''// no replace github.com/Dshonored/ryla'')) fmempty) [] = ''local''"
    by code_simp
  ultimately show ?thesis using not_outdated_without_version [OF a] by blast
qed

text \<open>A development build is never told to update itself, and a notice is shown exactly when something
  is behind a known release.\<close>

theorem update_notice_exact:
  assumes "s = gatherStatus sv version cp fs look"
  shows "(IsDevVersion version \<longrightarrow> \<not> us_CLIOutdated s)
    \<and> (updateNotice s \<noteq> [] \<longleftrightarrow> us_CLIOutdated s \<or> us_FrameworkOutdated s)
    \<and> (us_CLIOutdated s \<longrightarrow> sem_Compare sv (us_Latest s) version > 0)"
proof -
  have "us_Latest s = [] \<Longrightarrow> \<not> us_CLIOutdated s \<and> \<not> us_FrameworkOutdated s"
    by (auto simp: assms gatherStatus_def IsNewer_def Let_def split: sum.splits)
  moreover have "IsDevVersion version \<longrightarrow> \<not> us_CLIOutdated s"
    by (auto simp: assms gatherStatus_def IsNewer_def IsDevVersion_def Let_def split: sum.splits)
  moreover have "us_CLIOutdated s \<longrightarrow> sem_Compare sv (us_Latest s) version > 0"
    by (auto simp: assms gatherStatus_def IsNewer_def Let_def split: sum.splits if_splits)
  ultimately show ?thesis by (auto simp: updateNotice_def)
qed

theorem update_notice_exact_witness:
  "updateNotice (gatherStatus \<lparr>sem_IsValid = (\<lambda>_. True), sem_Compare = (\<lambda>_ _. 1), sem_Prerelease = (\<lambda>_. [])\<rparr> ''dev''
      (Inl Err_NotFound) fmempty (\<lparr>in_Version = ''v2'', in_Time = 0\<rparr>, True)) = []"
proof -
  let ?sv = "\<lparr>sem_IsValid = (\<lambda>_. True), sem_Compare = (\<lambda>_ _. 1), sem_Prerelease = (\<lambda>_. [])\<rparr> :: semver"
  have "IsDevVersion ''dev''" by (simp add: IsDevVersion_def)
  moreover have "\<not> us_FrameworkOutdated (gatherStatus ?sv ''dev'' (Inl Err_NotFound) fmempty (\<lparr>in_Version = ''v2'', in_Time = 0\<rparr>, True))"
    by (simp add: gatherStatus_def IsNewer_def)
  ultimately show ?thesis
    using update_notice_exact [OF refl, where sv = ?sv and version = "''dev''" and cp = "Inl Err_NotFound" and fs = fmempty
        and look = "(\<lparr>in_Version = ''v2'', in_Time = 0\<rparr>, True)"] by blast
qed

section \<open>The version of the framework\<close>

record build_dep =
  bd_Path :: string
  bd_Version :: string
  bd_Replaced :: bool

record build_info =
  bi_MainPath :: string
  bi_MainVersion :: string
  bi_Deps :: "build_dep list"

text \<open>\<^verbatim>\<open>ryla.Version\<close>: the version of the main module when that is the framework, or else of the first dependency with its
  path, unless it is replaced.\<close>

definition ryla_Version :: "build_info option \<Rightarrow> string" where
  "ryla_Version bi =
     (case bi of
        None \<Rightarrow> ''dev''
      | Some i \<Rightarrow>
          if bi_MainPath i = rylaModule \<and> bi_MainVersion i \<noteq> [] \<and> bi_MainVersion i \<noteq> ''(devel)'' then bi_MainVersion i
          else (case find (\<lambda>d. bd_Path d = rylaModule) (bi_Deps i) of
                  None \<Rightarrow> ''dev''
                | Some d \<Rightarrow> if \<not> bd_Replaced d \<and> bd_Version d \<noteq> [] then bd_Version d else ''dev''))"

text \<open>The version is never empty, and in the binary of the command, whose main module is the framework and which does
  not depend on itself, it is the version of the command unless that was set when it was linked.\<close>

lemma ryla_Version_nonempty: "ryla_Version bi \<noteq> []"
  by (auto simp: ryla_Version_def find_Some_iff split: option.splits)

lemma ryla_Version_command:
  assumes "bi_MainPath i = rylaModule" and "\<And>d. d \<in> set (bi_Deps i) \<Longrightarrow> bd_Path d \<noteq> rylaModule"
  shows "ryla_Version (Some i) = ry_Version [] (Some (bi_MainVersion i))"
proof -
  have "find (\<lambda>d. bd_Path d = rylaModule) (bi_Deps i) = None" using assms(2) by (auto simp: find_None_iff)
  then show ?thesis using assms(1) by (simp add: ryla_Version_def ry_Version_def)
qed

end
