(* ===== verification/NewCmd.thy ===== *)
theory NewCmd
  imports UpdateCmd
begin

text \<open>
  Creating a project, \<^verbatim>\<open>cmd/ry/internal/commands/new.go\<close>: the answers and their defaults, the prompts,
  and the run that generates the project, provides its database and resolves its dependencies.

  The outcome of a form is an argument, and so are the processes it starts, the templates and what the
  binary knows of itself.  The files of the project are a map from paths relative to its directory, on
  which the processes work too.
\<close>

section \<open>The answers\<close>

record answers =
  an_Name :: string
  an_Module :: string
  an_DB :: string
  an_Web :: string
  an_Lang :: string
  an_CSS :: string
  an_Setup :: dbSetup

definition or_else :: "string \<Rightarrow> string \<Rightarrow> string" where
  "or_else s d = (if s = [] then d else s)"

definition answers_applyDefaults :: "answers \<Rightarrow> answers" where
  "answers_applyDefaults a =
     (let name = or_else (an_Name a) ''myapp'';
          su = an_Setup a;
          su1 = (if ds_URL su \<noteq> [] then su\<lparr>ds_Mode := SetupExternal\<rparr> else su);
          su2 = (if ds_Mode su1 = [] then su1\<lparr>ds_Mode := SetupDocker\<rparr> else su1)
      in \<lparr>an_Name = name, an_Module = or_else (an_Module a) (naming_Kebab name), an_DB = or_else (an_DB a) ''sqlite'',
          an_Web = or_else (an_Web a) ''mvc'', an_Lang = or_else (an_Lang a) DefaultLanguage,
          an_CSS = or_else (an_CSS a) DefaultStyling, an_Setup = su2\<rparr>)"

datatype new_error =
    Err_NameMissing | Err_BadName string | Err_NoGo | Err_DestNotEmpty | Err_DestRead | Err_NotCheckout "string list"
  | Err_NoCheckout | Err_NewProject project_error | Err_Generate scaffold_error | Err_WriteCompose scaffold_error
  | Err_SetDSN env_error | Err_Tool string | Err_Cancelled | Err_Form string

text \<open>A form is filled in, given up, or fails; \<^verbatim>\<open>runForm\<close>.\<close>

datatype 'a form = Filled 'a | Aborted | FormError string

definition runForm :: "'a form \<Rightarrow> (new_error, 'a) result" where
  "runForm f = (case f of Filled a \<Rightarrow> Inr a | Aborted \<Rightarrow> Inl Err_Cancelled | FormError e \<Rightarrow> Inl (Err_Form e))"

definition validateName :: "string \<Rightarrow> new_error option" where
  "validateName name =
     (if trim_space name = [] then Some Err_NameMissing
      else if list_ex (\<lambda>c. c \<in> set ''/:*?<>|'' \<or> c = CHR 0x5C \<or> c = CHR 0x22) name then Some (Err_BadName name)
      else None)"

text \<open>The forms of \<^verbatim>\<open>prompt\<close> in the order they are shown: name, database and web mode; language and
  styling; where the database runs and its connection string; the module path.\<close>

record forms =
  fm_first :: "(string \<times> string \<times> string) form"
  fm_frontend :: "(string \<times> string) form"
  fm_setup :: "string form"
  fm_url :: "string form"
  fm_module :: "string form"

definition prompt_first :: "forms \<Rightarrow> answers \<Rightarrow> (new_error, answers) result" where
  "prompt_first fm a =
     (if an_Name a \<noteq> [] \<and> an_DB a \<noteq> [] \<and> an_Web a \<noteq> [] then Inr a
      else map_sum id (\<lambda>(n, d, w). a\<lparr>an_Name := or_else (an_Name a) n, an_DB := or_else (an_DB a) d, an_Web := or_else (an_Web a) w\<rparr>)
             (runForm (fm_first fm)))"

definition prompt_frontend :: "forms \<Rightarrow> answers \<Rightarrow> (new_error, answers) result" where
  "prompt_frontend fm a =
     (if an_Lang a \<noteq> [] \<and> an_CSS a \<noteq> [] then Inr a
      else case LookupWebMode (an_Web a) of
        Inl e \<Rightarrow> Inl (Err_NewProject e)
      | Inr web \<Rightarrow>
          if wm_Frontend web = [] then Inr a
          else map_sum id (\<lambda>(l, c). a\<lparr>an_Lang := or_else (an_Lang a) l, an_CSS := or_else (an_CSS a) c\<rparr>)
                 (runForm (fm_frontend fm)))"

definition prompt_setup :: "forms \<Rightarrow> answers \<Rightarrow> (new_error, answers) result" where
  "prompt_setup fm a =
     (if ds_Mode (an_Setup a) \<noteq> [] \<or> ds_URL (an_Setup a) \<noteq> [] then Inr a
      else case LookupDatabase (an_DB a) of
        Inl e \<Rightarrow> Inl (Err_NewProject e)
      | Inr db \<Rightarrow> map_sum id (\<lambda>su. a\<lparr>an_Setup := su\<rparr>) (askDBSetup db (runForm (fm_setup fm)) (runForm (fm_url fm))))"

definition prompt_module :: "forms \<Rightarrow> answers \<Rightarrow> (new_error, answers) result" where
  "prompt_module fm a =
     (if an_Module a \<noteq> [] then Inr a else map_sum id (\<lambda>m. a\<lparr>an_Module := m\<rparr>) (runForm (fm_module fm)))"

definition result_bind :: "('e, 'a) result \<Rightarrow> ('a \<Rightarrow> ('e, 'b) result) \<Rightarrow> ('e, 'b) result" where
  "result_bind r f = (case r of Inl e \<Rightarrow> Inl e | Inr a \<Rightarrow> f a)"

definition prompt :: "forms \<Rightarrow> answers \<Rightarrow> (new_error, answers) result" where
  "prompt fm a =
     result_bind (prompt_first fm a) (\<lambda>a. result_bind (prompt_frontend fm a)
       (\<lambda>a. result_bind (prompt_setup fm a) (prompt_module fm)))"

section \<open>The run\<close>

text \<open>The destination before the run: missing, not readable, or a directory with files.\<close>

datatype destination = Missing | Unreadable | Directory dest_fs

definition checkDestination :: "destination \<Rightarrow> new_error option" where
  "checkDestination d =
     (case d of Missing \<Rightarrow> None | Unreadable \<Rightarrow> Some Err_DestRead
      | Directory fs \<Rightarrow> if fs = fmempty then None else Some Err_DestNotEmpty)"

text \<open>What the run depends on: the tools, the templates, the binary and its machine.\<close>

record new_world =
  nw_HasGo :: bool
  nw_proc :: "dest_fs process"
  nw_execute :: "string \<Rightarrow> Project \<Rightarrow> string option"
  nw_compose :: "string \<Rightarrow> string \<Rightarrow> string option"
  nw_writable :: "string \<Rightarrow> bool"
  nw_templates :: template_fs
  nw_random :: "string option"
  nw_version :: string
  nw_goVersion :: string
  nw_files :: dest_fs
  nw_framework :: "string list option"

text \<open>The checkout to build against: the one of the flag, the one that is found for a development build,
  or none.\<close>

definition local_checkout :: "new_world \<Rightarrow> string list option \<Rightarrow> (new_error, string list option) result" where
  "local_checkout nw flag =
     (case flag of
        Some p \<Rightarrow> if isFrameworkRoot (nw_files nw) p then Inr (Some p) else Inl (Err_NotCheckout p)
      | None \<Rightarrow>
          if IsDevVersion (nw_version nw)
          then (case nw_framework nw of None \<Rightarrow> Inl Err_NoCheckout | Some p \<Rightarrow> Inr (Some p))
          else Inr None)"

definition wire_args :: "string list option \<Rightarrow> string \<Rightarrow> string list" where
  "wire_args local version =
     [''go'', ''mod'', ''edit'']
       @ (case local of
            Some p \<Rightarrow> [''-replace='' @ rylaModule @ ''='' @ [slash] @ join [slash] p, ''-require='' @ rylaModule @ ''@v0.0.0'']
          | None \<Rightarrow> [''-require='' @ rylaModule @ ''@'' @ version])"

definition wireModule :: "dest_fs process \<Rightarrow> string list \<Rightarrow> string list option \<Rightarrow> string \<Rightarrow> dest_fs \<Rightarrow> string option \<times> dest_fs" where
  "wireModule proc dest local version fs = tool_Quiet proc dest (wire_args local version) fs"

text \<open>The commands that follow when the dependencies are resolved, each with the line printed before
  it.\<close>

definition resolve_steps :: "Project \<Rightarrow> (string list \<times> string list) list" where
  "resolve_steps p =
     (if pr_UsesTempl p
      then [([''Installing the templ tool...''], [''go'', ''get'', ''-tool'', ''github.com/a-h/templ/cmd/templ'']),
            ([''Generating views...''], [''go'', ''tool'', ''templ'', ''generate''])]
      else [])
     @ [([''Resolving dependencies...''], tidy_args)]"

fun run_steps ::
  "dest_fs process \<Rightarrow> string list \<Rightarrow> (string list \<times> string list) list \<Rightarrow> dest_fs \<Rightarrow> string option \<times> dest_fs \<times> string list \<times> string list list" where
  "run_steps proc dest [] fs = (None, fs, [], [])"
| "run_steps proc dest ((msg, argv) # steps) fs =
     (case tool_Quiet proc dest argv fs of
        (Some e, fs') \<Rightarrow> (Some e, fs', msg, [argv])
      | (None, fs') \<Rightarrow>
          (case run_steps proc dest steps fs' of (e, fs'', out, cmds) \<Rightarrow> (e, fs'', msg @ out, argv # cmds)))"

definition printNextSteps :: "string \<Rightarrow> string \<Rightarrow> string list" where
  "printNextSteps name shown =
     [[], name @ '' is ready.'', [], ''  cd '' @ shown, ''  ry migrate'', ''  ry dev'', [], ''Then open http://localhost:8080'']"

text \<open>Providing the database: the compose file, the connection string, or nothing.\<close>

definition provide_database ::
  "new_world \<Rightarrow> string \<Rightarrow> Database \<Rightarrow> dbSetup \<Rightarrow> dest_fs \<Rightarrow> new_error option \<times> dest_fs \<times> string list" where
  "provide_database nw name db su fs =
     (if ds_Mode su = SetupDocker
      then (case writeCompose (nw_compose nw) (nw_writable nw) (nw_templates nw) (naming_Kebab name) db ComposeFile fs of
              (e, fs', out) \<Rightarrow> (map_option Err_WriteCompose e, fs', out))
      else if ds_Mode su = SetupExternal
      then (case setEnvDSN (nw_writable nw) ''.env'' (db_Name db) (ds_URL su) fs of
              (e, fs') \<Rightarrow> (map_option Err_SetDSN e, fs', []))
      else (None, fs, []))"

record new_run =
  nr_error :: "new_error option"
  nr_fs :: "dest_fs"
  nr_out :: "string list"
  nr_cmds :: "string list list"

definition nr_fail :: "new_error \<Rightarrow> dest_fs \<Rightarrow> string list \<Rightarrow> string list list \<Rightarrow> new_run" where
  "nr_fail e fs out cmds = \<lparr>nr_error = Some e, nr_fs = fs, nr_out = out, nr_cmds = cmds\<rparr>"

text \<open>The part of \<^verbatim>\<open>runNew\<close> behind the checks, on the files of the destination.\<close>

definition new_generate ::
  "new_world \<Rightarrow> bool \<Rightarrow> string list \<Rightarrow> string \<Rightarrow> answers \<Rightarrow> bool \<Rightarrow> string list option \<Rightarrow> Project \<Rightarrow> dest_fs \<Rightarrow> new_run" where
  "new_generate nw docker dest shown a skipDeps local proj fs =
     (case generator_Run (nw_execute nw) (nw_writable nw) (nw_templates nw) proj
             \<lparr>gen_Overlays = project_Overlays proj, gen_Force = False, gen_DryRun = False\<rparr> fs of
        (Inl e, fs1) \<Rightarrow> nr_fail (Err_Generate e) fs1 [] []
      | (Inr files, fs1) \<Rightarrow>
          let out1 = [''Created '' @ shown @ '' ('' @ format_nat (length files) @ '' files)''] in
          case LookupDatabase (an_DB a) of Inl e \<Rightarrow> nr_fail (Err_NewProject e) fs1 out1 [] | Inr db \<Rightarrow>
          case provide_database nw (an_Name a) db (an_Setup a) fs1 of
            (Some e, fs2, out2) \<Rightarrow> nr_fail e fs2 (out1 @ out2) []
          | (None, fs2, out2) \<Rightarrow>
              (let wire = wire_args local (nw_version nw);
                   after = dbNextSteps docker db (an_Setup a) @ printNextSteps (pr_Name proj) shown
               in case wireModule (nw_proc nw) dest local (nw_version nw) fs2 of
                    (Some e, fs3) \<Rightarrow> nr_fail (Err_Tool e) fs3 (out1 @ out2) [wire]
                  | (None, fs3) \<Rightarrow>
                      if skipDeps
                      then \<lparr>nr_error = None, nr_fs = fs3,
                            nr_out = out1 @ out2 @ [[], ''Skipped dependency resolution. Run `go mod tidy` before building.''] @ after,
                            nr_cmds = [wire]\<rparr>
                      else (case run_steps (nw_proc nw) dest (resolve_steps proj) fs3 of
                              (Some e, fs4, out4, cmds) \<Rightarrow> nr_fail (Err_Tool e) fs4 (out1 @ out2 @ out4) (wire # cmds)
                            | (None, fs4, out4, cmds) \<Rightarrow>
                                \<lparr>nr_error = None, nr_fs = fs4, nr_out = out1 @ out2 @ out4 @ after, nr_cmds = wire # cmds\<rparr>)))"

text \<open>\<^verbatim>\<open>runNew\<close>: an error of the checks leaves the destination as it was.\<close>

definition runNew ::
  "new_world \<Rightarrow> bool \<Rightarrow> string list \<Rightarrow> string \<Rightarrow> answers \<Rightarrow> bool \<Rightarrow> string list option \<Rightarrow> destination \<Rightarrow> (new_error, new_run) result" where
  "runNew nw docker dest shown a skipDeps flag d =
     (case validateName (an_Name a) of Some e \<Rightarrow> Inl e | None \<Rightarrow>
      if \<not> nw_HasGo nw then Inl Err_NoGo
      else case checkDestination d of Some e \<Rightarrow> Inl e | None \<Rightarrow>
      case local_checkout nw flag of Inl e \<Rightarrow> Inl e | Inr local \<Rightarrow>
      case new_project (nw_random nw) (an_Name a) (an_Module a) (an_DB a) (an_Web a) (an_Lang a) (an_CSS a)
             (nw_version nw) (nw_goVersion nw) of Inl e \<Rightarrow> Inl (Err_NewProject e) | Inr proj \<Rightarrow>
      Inr (new_generate nw docker dest shown a skipDeps local proj fmempty))"

text \<open>The body of \<^verbatim>\<open>ry new\<close>.\<close>

definition new_cmd ::
  "new_world \<Rightarrow> forms \<Rightarrow> bool \<Rightarrow> bool \<Rightarrow> bool \<Rightarrow> string list \<Rightarrow> string \<Rightarrow> answers \<Rightarrow> bool \<Rightarrow> string list option \<Rightarrow> destination
     \<Rightarrow> (new_error, new_run) result" where
  "new_cmd nw fm noPrompt interactive docker dest shown a skipDeps flag d =
     result_bind (if noPrompt \<or> \<not> interactive then Inr (answers_applyDefaults a) else prompt fm a)
       (\<lambda>a'. runNew nw docker dest shown a' skipDeps flag d)"

definition availableDatabaseNames :: "string list" where
  "availableDatabaseNames = map db_Name (filter db_Available databases)"

definition availableWebModeNames :: "string list" where
  "availableWebModeNames = map wm_Name (filter wm_Available webModes)"

section \<open>Properties\<close>

lemma run_steps_plan:
  "run_steps proc dest steps fs = (e, fs', out, cmds) \<Longrightarrow>
   is_prefix cmds (map snd steps) \<and> (e = None \<longrightarrow> cmds = map snd steps)"
proof (induction steps arbitrary: fs fs' out cmds)
  case (Cons s steps)
  obtain msg argv where s: "s = (msg, argv)" by fastforce
  show ?case using Cons by (auto simp: s is_prefix_def split: prod.splits option.splits)
qed (simp add: is_prefix_def)

definition new_plan :: "new_world \<Rightarrow> bool \<Rightarrow> string list option \<Rightarrow> Project \<Rightarrow> string list list" where
  "new_plan nw skipDeps local proj =
     wire_args local (nw_version nw) # (if skipDeps then [] else map snd (resolve_steps proj))"

lemma new_generate_plan:
  assumes "new_generate nw docker dest shown a skipDeps local proj fs = r"
  shows "is_prefix (nr_cmds r) (new_plan nw skipDeps local proj)
    \<and> (nr_error r = None \<longrightarrow> nr_cmds r = new_plan nw skipDeps local proj)"
  using assms run_steps_plan [of "nw_proc nw" dest "resolve_steps proj"]
  by (fastforce simp: new_generate_def new_plan_def nr_fail_def is_prefix_def Let_def
      split: prod.splits sum.splits option.splits if_splits)

lemma runNew_Inr:
  assumes "runNew nw docker dest shown a skipDeps flag d = Inr r"
  obtains local proj where "local_checkout nw flag = Inr local" "d = Missing \<or> d = Directory fmempty"
    "new_project (nw_random nw) (an_Name a) (an_Module a) (an_DB a) (an_Web a) (an_Lang a) (an_CSS a) (nw_version nw) (nw_goVersion nw) = Inr proj"
    "r = new_generate nw docker dest shown a skipDeps local proj fmempty"
  using assms by (auto simp: runNew_def checkDestination_def split: option.splits if_splits sum.splits destination.splits)

text \<open>A new project is made only where there is nothing yet, and by a fixed sequence of commands: the
  framework is wired into the module first, at the version of the command or at a checkout, never at a
  version that cannot be fetched; then come the templ tool, the views and last the tidying, so that the
  views exist when the module is tidied.  A run that fails has run a prefix of this sequence.\<close>

theorem new_run_pipeline:
  assumes "runNew nw docker dest shown a skipDeps flag d = Inr r"
  shows "\<exists>local proj. local_checkout nw flag = Inr local \<and> (d = Missing \<or> d = Directory fmempty)
    \<and> (IsDevVersion (nw_version nw) \<longrightarrow> local \<noteq> None)
    \<and> is_prefix (nr_cmds r) (new_plan nw skipDeps local proj)
    \<and> (nr_error r = None \<longrightarrow> nr_cmds r = new_plan nw skipDeps local proj)
    \<and> new_project (nw_random nw) (an_Name a) (an_Module a) (an_DB a) (an_Web a) (an_Lang a) (an_CSS a) (nw_version nw) (nw_goVersion nw) = Inr proj"
proof -
  obtain local proj where l: "local_checkout nw flag = Inr local" "d = Missing \<or> d = Directory fmempty"
      "new_project (nw_random nw) (an_Name a) (an_Module a) (an_DB a) (an_Web a) (an_Lang a) (an_CSS a) (nw_version nw) (nw_goVersion nw) = Inr proj"
      "r = new_generate nw docker dest shown a skipDeps local proj fmempty"
    using runNew_Inr [OF assms] .
  have "IsDevVersion (nw_version nw) \<longrightarrow> local \<noteq> None"
    using l(1) by (cases flag; cases "nw_framework nw"; cases local) (simp_all add: local_checkout_def split: if_splits)
  then show ?thesis using l(1-3) new_generate_plan [OF l(4) [symmetric]]
    by (intro exI [of _ local] exI [of _ proj]) simp
qed

text \<open>A file the tools leave alone: neither the Go tool nor templ writes it.\<close>

definition keeps_file :: "dest_fs process \<Rightarrow> string \<Rightarrow> bool" where
  "keeps_file proc p = (\<forall>dir argv w. fmlookup (snd (proc dir argv w)) p = fmlookup w p)"

lemma tool_Quiet_keeps: "keeps_file proc p \<Longrightarrow> tool_Quiet proc dir argv fs = (e, fs') \<Longrightarrow> fmlookup fs' p = fmlookup fs p"
  unfolding keeps_file_def tool_Quiet_def by (auto split: prod.splits option.splits) (metis snd_conv)+

lemma run_steps_keeps:
  "keeps_file proc p \<Longrightarrow> run_steps proc dest steps fs = (e, fs', out, cmds) \<Longrightarrow> fmlookup fs' p = fmlookup fs p"
proof (induction steps arbitrary: fs e fs' out cmds)
  case (Cons s steps)
  obtain msg argv where s: "s = (msg, argv)" by fastforce
  obtain e1 fs1 where q: "tool_Quiet proc dest argv fs = (e1, fs1)" by fastforce
  obtain e2 fs2 o2 c2 where r: "run_steps proc dest steps fs1 = (e2, fs2, o2, c2)" by (metis prod_cases4)
  show ?case
    using Cons.prems(2) tool_Quiet_keeps [OF Cons.prems(1) q] Cons.IH [OF Cons.prems(1) r]
    by (auto simp: s q r split: option.splits)
qed simp

lemma new_generate_ok:
  assumes "r = new_generate nw docker dest shown a skipDeps local proj fs" "nr_error r = None"
  shows "\<exists>db fs1 fs2 out. LookupDatabase (an_DB a) = Inr db
    \<and> provide_database nw (an_Name a) db (an_Setup a) fs1 = (None, fs2, out)
    \<and> (\<forall>p. keeps_file (nw_proc nw) p \<longrightarrow> fmlookup (nr_fs r) p = fmlookup fs2 p)"
proof -
  obtain files fs1 db fs2 out2 fs3 where g: "LookupDatabase (an_DB a) = Inr db"
      "provide_database nw (an_Name a) db (an_Setup a) fs1 = (None, fs2, out2)"
      "tool_Quiet (nw_proc nw) dest (wire_args local (nw_version nw)) fs2 = (None, fs3)"
      "nr_fs r = fs3 \<or> (\<exists>out4 cmds. run_steps (nw_proc nw) dest (resolve_steps proj) fs3 = (None, nr_fs r, out4, cmds))"
    using assms by (auto simp: new_generate_def nr_fail_def wireModule_def Let_def split: prod.splits sum.splits option.splits if_splits)
  have "fmlookup (nr_fs r) p = fmlookup fs2 p" if "keeps_file (nw_proc nw) p" for p
    using g(4) run_steps_keeps [OF that] tool_Quiet_keeps [OF that g(3)] by metis
  then show ?thesis using g(1,2) by blast
qed

lemma server_has_image: "LookupDatabase n = Inr db \<Longrightarrow> db_Server db \<Longrightarrow> db_ComposeImage db \<noteq> []"
  using LookupDatabase_Inr [of n db] by (auto simp: databases_def)

lemma provide_docker:
  assumes "provide_database nw name db su fs1 = (None, fs2, out)" "ds_Mode su = SetupDocker"
    and "LookupDatabase n = Inr db" "db_Server db"
  shows "\<exists>c. fmlookup fs2 ComposeFile = Some c"
  using assms server_has_image [OF assms(3,4)]
  by (auto simp: provide_database_def writeCompose_def RenderTo_def writeFile_def split: prod.splits option.splits if_splits sum.splits)


lemma map_sum_InrD: "map_sum f g r = Inr y \<Longrightarrow> \<exists>x. r = Inr x \<and> y = g x"
  by (cases r) auto

text \<open>A connection string that was given is dropped when the other questions are asked: the prompts skip
  the question about the database, leave the mode empty, and the run then writes neither a compose file
  nor the string.  Without prompts the string implies the mode, as its description says.\<close>

theorem new_db_url_dropped:
  assumes "ds_URL (an_Setup a) \<noteq> []" "ds_Mode (an_Setup a) = []" "prompt fm a = Inr a'"
  shows "an_Setup a' = an_Setup a \<and> provide_database nw (an_Name a') db (an_Setup a') fs = (None, fs, [])
    \<and> ds_Mode (an_Setup (answers_applyDefaults a)) = SetupExternal"
proof -
  obtain a1 a2 a3 where p: "prompt_first fm a = Inr a1" "prompt_frontend fm a1 = Inr a2" "prompt_setup fm a2 = Inr a3" "prompt_module fm a3 = Inr a'"
    using assms(3) by (auto simp: prompt_def result_bind_def split: sum.splits)
  have "an_Setup a1 = an_Setup a" using p(1) by (auto simp: prompt_first_def dest!: map_sum_InrD split: if_splits)
  moreover have "an_Setup a2 = an_Setup a1" using p(2) by (auto simp: prompt_frontend_def dest!: map_sum_InrD split: if_splits sum.splits)
  moreover have "an_Setup a3 = an_Setup a2" using p(3) assms(1) calculation by (auto simp: prompt_setup_def dest!: map_sum_InrD split: if_splits sum.splits)
  moreover have "an_Setup a' = an_Setup a3" using p(4) by (auto simp: prompt_module_def dest!: map_sum_InrD split: if_splits)
  ultimately show ?thesis using assms(1,2)
    by (simp add: provide_database_def SetupDocker_def SetupExternal_def answers_applyDefaults_def Let_def)
qed

section \<open>A sample run\<close>

definition sample_world :: new_world where
  "sample_world = \<lparr>nw_HasGo = True, nw_proc = (\<lambda>_ _ w. (([], None), w)), nw_execute = (\<lambda>raw _. Some raw), nw_compose = (\<lambda>raw _. Some raw),
     nw_writable = (\<lambda>_. True),
     nw_templates = [(''base/.env.tmpl'', ''DB_DSN=x''), (''db/postgres/driver.go.tmpl'', ''D''), (''web/api/routes.go.tmpl'', ''R''),
                     (''compose/postgres.yaml.tmpl'', ''C'')],
     nw_random = Some ''r'', nw_version = ''v1.0.0'', nw_goVersion = ''1.25'', nw_files = fmempty, nw_framework = None\<rparr>"

definition sample_answers :: answers where
  "sample_answers = \<lparr>an_Name = ''blog'', an_Module = ''blog'', an_DB = ''postgres'', an_Web = ''api'', an_Lang = [], an_CSS = [],
     an_Setup = \<lparr>ds_Mode = SetupDocker, ds_URL = []\<rparr>\<rparr>"

definition sample_new :: "(new_error, new_run) result" where
  "sample_new = runNew sample_world True [''blog''] ''blog'' sample_answers False None Missing"

lemma sample_new_runs: "\<exists>r. sample_new = Inr r \<and> nr_error r = None"
proof -
  have "(case sample_new of Inl _ \<Rightarrow> False | Inr r \<Rightarrow> nr_error r = None)" by code_simp
  then show ?thesis by (auto split: sum.splits)
qed

theorem new_run_pipeline_witness:
  "\<exists>r. sample_new = Inr r \<and> nr_error r = None
     \<and> hd (nr_cmds r) = [''go'', ''mod'', ''edit'', ''-require=github.com/Dshonored/ryla@v1.0.0'']"
proof -
  obtain r where r: "sample_new = Inr r" "nr_error r = None" using sample_new_runs by blast
  have no_local: "local_checkout sample_world None = Inr None"
    "wire_args None (nw_version sample_world) = [''go'', ''mod'', ''edit'', ''-require=github.com/Dshonored/ryla@v1.0.0'']" by code_simp+
  then show ?thesis using new_run_pipeline [OF r(1) [unfolded sample_new_def]] r by (auto simp: new_plan_def)
qed


theorem new_db_url_dropped_witness:
  "\<exists>a'. prompt \<lparr>fm_first = Aborted, fm_frontend = Aborted, fm_setup = Aborted, fm_url = Aborted, fm_module = Aborted\<rparr>
      (sample_answers\<lparr>an_Setup := \<lparr>ds_Mode = [], ds_URL = ''postgres://db/app''\<rparr>\<rparr>) = Inr a' \<and> ds_Mode (an_Setup a') = []"
proof -
  let ?fm = "\<lparr>fm_first = Aborted, fm_frontend = Aborted, fm_setup = Aborted, fm_url = Aborted, fm_module = Aborted\<rparr>"
  let ?a = "sample_answers\<lparr>an_Setup := \<lparr>ds_Mode = [], ds_URL = ''postgres://db/app''\<rparr>\<rparr>"
  have "(case prompt ?fm ?a of Inl _ \<Rightarrow> False | Inr _ \<Rightarrow> True)" by code_simp
  then obtain a' where a': "prompt ?fm ?a = Inr a'" by (auto split: sum.splits)
  from new_db_url_dropped [OF _ _ this] show ?thesis using a' by simp
qed

end
