(* ===== verification/MakeCmds.thy ===== *)
theory MakeCmds
  imports Services
begin

text \<open>
  The generators of files in a project: \<^verbatim>\<open>make.go\<close> and \<^verbatim>\<open>auth.go\<close> of
  \<^verbatim>\<open>cmd/ry/internal/commands\<close>, and \<^verbatim>\<open>cmd/ry/internal/twofactor/twofactor.go\<close>.

  The project is given by its manifest, or the error of looking for it; its files are a map from paths
  relative to its root.  The time is the formatted version of a migration.  Executing a template and the
  success of each write are arguments, and the texts that explain what to do next are left out, apart
  from the routes.
\<close>

section \<open>Shared pieces\<close>

datatype make_error = Err_MakeProject project_error | Err_MakeFile scaffold_error | Err_NoSchema | Err_MakeWeb string

record make_world =
  mk_execute :: "string \<Rightarrow> Stub \<Rightarrow> string option"
  mk_writable :: "string \<Rightarrow> bool"
  mk_templates :: template_fs
  mk_version :: string

type_synonym make_result = "make_error option \<times> dest_fs \<times> string list"

definition isDocumentStore :: "Manifest \<Rightarrow> bool" where
  "isDocumentStore p = (mf_Database p = ''mongo'')"

definition makeContext :: "(project_error, Manifest) result \<Rightarrow> string \<Rightarrow> (make_error, Manifest \<times> Stub) result" where
  "makeContext currentProject name =
     (case currentProject of Inl e \<Rightarrow> Inl (Err_MakeProject e) | Inr p \<Rightarrow> Inr (p, NewStub (mf_Module p) name))"

definition reportCreated :: "string \<Rightarrow> string" where
  "reportCreated rel = ''Created '' @ rel"

text \<open>Rendering one file, as each generator does, and what it prints.\<close>

definition render_one :: "make_world \<Rightarrow> string \<Rightarrow> string \<Rightarrow> Stub \<Rightarrow> bool \<Rightarrow> dest_fs \<Rightarrow> make_result" where
  "render_one mk tmpl dest stub force fs =
     (case RenderTo (mk_execute mk) (mk_writable mk) (mk_templates mk) tmpl dest stub force fs of
        (Some e, fs') \<Rightarrow> (Some (Err_MakeFile e), fs', [])
      | (None, fs') \<Rightarrow> (None, fs', [reportCreated dest]))"

definition in_dir :: "string \<Rightarrow> string \<Rightarrow> string" where
  "in_dir dir file = dir @ [slash] @ file"

definition then_print :: "string list \<Rightarrow> make_result \<Rightarrow> make_result" where
  "then_print lines r = (case r of (None, fs, out) \<Rightarrow> (None, fs, out @ lines) | (Some e, fs, out) \<Rightarrow> (Some e, fs, out))"

section \<open>The generators\<close>

definition makeTest :: "make_world \<Rightarrow> Manifest \<Rightarrow> Stub \<Rightarrow> string \<Rightarrow> bool \<Rightarrow> dest_fs \<Rightarrow> make_result" where
  "makeTest mk p stub name force fs =
     render_one mk (if isDocumentStore p then ''make/test_mongo.go.tmpl'' else ''make/test.go.tmpl'')
       (in_dir ''tests'' (naming_Snake name @ ''_test.go'')) stub force fs"

definition makeJob :: "make_world \<Rightarrow> Manifest \<Rightarrow> Stub \<Rightarrow> string \<Rightarrow> bool \<Rightarrow> dest_fs \<Rightarrow> make_result" where
  "makeJob mk p stub name force fs =
     render_one mk ''make/job.go.tmpl'' (in_dir ''app/jobs'' (naming_Snake name @ ''.go'')) stub force fs"

definition makeRequest :: "make_world \<Rightarrow> Manifest \<Rightarrow> Stub \<Rightarrow> string \<Rightarrow> bool \<Rightarrow> dest_fs \<Rightarrow> make_result" where
  "makeRequest mk p stub name force fs =
     render_one mk ''make/request.go.tmpl'' (in_dir ''app/requests'' (naming_Snake name @ ''.go'')) stub force fs"

text \<open>The routes of a controller: method, path, handler and name.\<close>

definition resource_routes :: "Stub \<Rightarrow> (string \<times> string \<times> string \<times> string) list" where
  "resource_routes stub =
     (let base = [slash] @ stub_KebabPlural stub in
      [(''Get'', base, ''Index'', ''index''), (''Get'', base @ ''/create'', ''Create'', ''create''),
       (''Post'', base, ''Store'', ''store''), (''Get'', base @ ''/{id}'', ''Show'', ''show''),
       (''Get'', base @ ''/{id}/edit'', ''Edit'', ''edit''), (''Put'', base @ ''/{id}'', ''Update'', ''update''),
       (''Delete'', base @ ''/{id}'', ''Destroy'', ''destroy'')])"

definition dquote :: string where "dquote = [CHR 0x22]"

definition route_line :: "Stub \<Rightarrow> string \<times> string \<times> string \<times> string \<Rightarrow> string" where
  "route_line stub r =
     (case r of (method, path, handler, name) \<Rightarrow>
        [CHR 0x09] @ ''a.Router.'' @ method @ ''('' @ dquote @ path @ dquote @ '', '' @ stub_Camel stub @ ''.'' @ handler
          @ '').Name('' @ dquote @ stub_KebabPlural stub @ ''.'' @ name @ dquote @ '')'')"

definition printRouteHint :: "Stub \<Rightarrow> bool \<Rightarrow> string list" where
  "printRouteHint stub resource =
     [[], ''Add to routes/web.go, inside Register:'', [],
      [CHR 0x09] @ stub_Camel stub @ '' := controllers.New'' @ stub_Pascal stub @ ''(a)'']
     @ (if \<not> resource then [route_line stub (''Get'', [slash] @ stub_KebabPlural stub, ''Index'', ''index'')]
        else map (route_line stub) (resource_routes stub))"

definition makeController :: "make_world \<Rightarrow> Manifest \<Rightarrow> Stub \<Rightarrow> string \<Rightarrow> bool \<Rightarrow> bool \<Rightarrow> dest_fs \<Rightarrow> make_result" where
  "makeController mk p stub name resource force fs =
     then_print (printRouteHint stub resource)
       (render_one mk (if resource then ''make/controller_resource.go.tmpl'' else ''make/controller.go.tmpl'')
          (in_dir ''app/controllers'' (naming_Snake name @ ''.go'')) stub force fs)"

definition migration_path :: "Stub \<Rightarrow> string" where
  "migration_path stub = in_dir ''database/migrations'' (stub_ID stub @ ''.go'')"

definition makeModel :: "make_world \<Rightarrow> Manifest \<Rightarrow> Stub \<Rightarrow> string \<Rightarrow> bool \<Rightarrow> bool \<Rightarrow> dest_fs \<Rightarrow> make_result" where
  "makeModel mk p stub name skipMigration force fs =
     (case render_one mk (if isDocumentStore p then ''make/model_mongo.go.tmpl'' else ''make/model.go.tmpl'')
             (in_dir ''app/models'' (naming_Snake name @ ''.go'')) stub force fs of
        (Some e, fs1, out1) \<Rightarrow> (Some e, fs1, out1)
      | (None, fs1, out1) \<Rightarrow>
          if isDocumentStore p then (None, fs1, out1 @ [[], ''Add your fields, then run: ry migrate''])
          else if skipMigration then (None, fs1, out1)
          else let migration = WithMigration (mk_version mk) (''create_'' @ naming_Table name) stub in
            (case render_one mk ''make/migration_create.go.tmpl'' (migration_path migration) migration force fs1 of
               (e, fs2, out2) \<Rightarrow> then_print [[], ''Add your columns to both files, then run: ry migrate''] (e, fs2, out1 @ out2)))"

definition makeMigration :: "make_world \<Rightarrow> Manifest \<Rightarrow> Stub \<Rightarrow> string \<Rightarrow> bool \<Rightarrow> dest_fs \<Rightarrow> make_result" where
  "makeMigration mk p stub name force fs =
     (if isDocumentStore p then (Some Err_NoSchema, fs, [])
      else let migration = WithMigration (mk_version mk) name stub
           in render_one mk ''make/migration.go.tmpl'' (migration_path migration) migration force fs)"

definition makeMiddleware :: "make_world \<Rightarrow> Manifest \<Rightarrow> Stub \<Rightarrow> string \<Rightarrow> bool \<Rightarrow> dest_fs \<Rightarrow> make_result" where
  "makeMiddleware mk p stub name force fs =
     render_one mk ''make/middleware.go.tmpl'' (in_dir ''app/middleware'' (naming_Snake name @ ''.go'')) stub force fs"

definition makeSeeder :: "make_world \<Rightarrow> Manifest \<Rightarrow> Stub \<Rightarrow> string \<Rightarrow> bool \<Rightarrow> dest_fs \<Rightarrow> make_result" where
  "makeSeeder mk p stub name force fs =
     then_print [[], ''Add seed'' @ stub_Pascal stub @ '' to the list in database/seeders/seeders.go.'']
       (render_one mk (if isDocumentStore p then ''make/seeder_mongo.go.tmpl'' else ''make/seeder.go.tmpl'')
          (in_dir ''database/seeders'' (naming_Snake name @ ''.go'')) stub force fs)"

text \<open>The scaffolds of authentication and of the second factor: overlays, then a migration unless the
  project stores documents.\<close>

definition twofactor_Overlays :: "string \<Rightarrow> string \<Rightarrow> (make_error, string list) result" where
  "twofactor_Overlays web database =
     (case (if web = ''mvc'' then Some ''templates/mvc''
            else if web \<in> {''api'', ''react'', ''svelte''} then Some ''templates/json'' else None) of
        None \<Rightarrow> Inl (Err_MakeWeb web)
      | Some w \<Rightarrow> Inr [''templates/shared'', w, if database = ''mongo'' then ''templates/mongo'' else ''templates/sql''])"

definition scaffold_feature :: "make_world \<Rightarrow> Manifest \<Rightarrow> string list \<Rightarrow> string \<Rightarrow> string \<Rightarrow> bool \<Rightarrow> dest_fs \<Rightarrow> make_result" where
  "scaffold_feature mk p overlays description tmpl force fs =
     (let stub = NewStub (mf_Module p) ''User'' in
      case generator_Run (mk_execute mk) (mk_writable mk) (mk_templates mk) stub
             \<lparr>gen_Overlays = overlays, gen_Force = force, gen_DryRun = False\<rparr> fs of
        (Inl e, fs1) \<Rightarrow> (Some (Err_MakeFile e), fs1, [])
      | (Inr files, fs1) \<Rightarrow>
          if isDocumentStore p then (None, fs1, map reportCreated files)
          else let migration = WithMigration (mk_version mk) description stub in
            (case render_one mk tmpl (migration_path migration) migration force fs1 of
               (e, fs2, out2) \<Rightarrow> (e, fs2, map reportCreated files @ out2)))"

definition makeAuth :: "make_world \<Rightarrow> Manifest \<Rightarrow> bool \<Rightarrow> dest_fs \<Rightarrow> make_result" where
  "makeAuth mk p force fs =
     (case AuthOverlays (mf_Web p) (mf_Database p) of
        Inl e \<Rightarrow> (Some (Err_MakeProject e), fs, [])
      | Inr overlays \<Rightarrow> scaffold_feature mk p overlays ''create_users'' ''make/migration_users.go.tmpl'' force fs)"

definition MigrationPath :: string where
  "MigrationPath = ''templates/migration/add_two_factor_to_users.go.tmpl''"

definition makeTwoFactor :: "make_world \<Rightarrow> Manifest \<Rightarrow> bool \<Rightarrow> dest_fs \<Rightarrow> make_result" where
  "makeTwoFactor mk p force fs =
     (case twofactor_Overlays (mf_Web p) (mf_Database p) of
        Inl e \<Rightarrow> (Some e, fs, [])
      | Inr overlays \<Rightarrow> scaffold_feature mk p overlays ''add_two_factor_to_users'' MigrationPath force fs)"

text \<open>\<^verbatim>\<open>makeCmds\<close>: the commands with their flags.\<close>

datatype make_command =
    Make_Controller string bool | Make_Model string bool | Make_Migration string | Make_Middleware string
  | Make_Seeder string | Make_Request string | Make_Auth | Make_2FA | Make_Job string | Make_Test string

definition named ::
  "(project_error, Manifest) result \<Rightarrow> string \<Rightarrow> (Manifest \<Rightarrow> Stub \<Rightarrow> dest_fs \<Rightarrow> make_result) \<Rightarrow> dest_fs \<Rightarrow> make_result" where
  "named cp name run fs =
     (case makeContext cp name of Inl e \<Rightarrow> (Some e, fs, []) | Inr (p, stub) \<Rightarrow> run p stub fs)"

fun run_make :: "make_world \<Rightarrow> (project_error, Manifest) result \<Rightarrow> bool \<Rightarrow> make_command \<Rightarrow> dest_fs \<Rightarrow> make_result" where
  "run_make mk cp force (Make_Controller name resource) fs = named cp name (\<lambda>p st. makeController mk p st name resource force) fs"
| "run_make mk cp force (Make_Model name skip) fs = named cp name (\<lambda>p st. makeModel mk p st name skip force) fs"
| "run_make mk cp force (Make_Migration name) fs = named cp name (\<lambda>p st. makeMigration mk p st name force) fs"
| "run_make mk cp force (Make_Middleware name) fs = named cp name (\<lambda>p st. makeMiddleware mk p st name force) fs"
| "run_make mk cp force (Make_Seeder name) fs = named cp name (\<lambda>p st. makeSeeder mk p st name force) fs"
| "run_make mk cp force (Make_Request name) fs = named cp name (\<lambda>p st. makeRequest mk p st name force) fs"
| "run_make mk cp force (Make_Job name) fs = named cp name (\<lambda>p st. makeJob mk p st name force) fs"
| "run_make mk cp force (Make_Test name) fs = named cp name (\<lambda>p st. makeTest mk p st name force) fs"
| "run_make mk cp force Make_Auth fs = (case cp of Inl e \<Rightarrow> (Some (Err_MakeProject e), fs, []) | Inr p \<Rightarrow> makeAuth mk p force fs)"
| "run_make mk cp force Make_2FA fs = (case cp of Inl e \<Rightarrow> (Some (Err_MakeProject e), fs, []) | Inr p \<Rightarrow> makeTwoFactor mk p force fs)"

section \<open>Nothing existing is changed\<close>

definition unchanged :: "dest_fs \<Rightarrow> dest_fs \<Rightarrow> bool" where
  "unchanged fs fs' = (\<forall>p c. fmlookup fs p = Some c \<longrightarrow> fmlookup fs' p = Some c)"

lemma unchanged_refl [simp]: "unchanged fs fs"
  by (simp add: unchanged_def)

lemma unchanged_trans: "unchanged a b \<Longrightarrow> unchanged b c \<Longrightarrow> unchanged a c"
  by (auto simp: unchanged_def)

lemma RenderTo_unchanged: "RenderTo ex wr tfs src dest data False fs = (e, fs') \<Longrightarrow> unchanged fs fs'"
  by (auto simp: RenderTo_def writeFile_def unchanged_def dest_exists_def split: if_splits sum.splits dest: fmdomI)

lemma render_one_unchanged: "render_one mk tmpl dest stub False fs = (e, fs', out) \<Longrightarrow> unchanged fs fs'"
  by (auto simp: render_one_def dest: RenderTo_unchanged split: prod.splits option.splits)

lemma then_print_eq: "then_print ls r = (e, fs', out) \<Longrightarrow> \<exists>out'. r = (e, fs', out')"
  by (auto simp: then_print_def split: prod.splits option.splits)

lemma write_loop_unchanged:
  "write_loop ex wr tfs files data dry rels fs = (e, fs') \<Longrightarrow> \<forall>r \<in> set rels. \<not> dest_exists fs r \<Longrightarrow> unchanged fs fs'"
  unfolding unchanged_def using write_loop_frame by (metis dest_exists_def fBexI fmdomI)

lemma generator_unchanged:
  assumes "generator_Run ex wr tfs data \<lparr>gen_Overlays = os, gen_Force = False, gen_DryRun = False\<rparr> fs = (r, fs')"
  shows "unchanged fs fs'"
proof (cases "scaffold_plan tfs os")
  case (Inl e)
  then show ?thesis using assms by (simp add: generator_Run_def)
next
  case (Inr files)
  let ?rels = "sorted_list_of_fset (fmdom files)"
  show ?thesis
  proof (cases "checkCollisions fs ?rels")
    case (Some e)
    then show ?thesis using assms Inr by (simp add: generator_Run_def Let_def)
  next
    case None
    then have "\<forall>r \<in> set ?rels. \<not> dest_exists fs r" by (auto simp: checkCollisions_def Let_def filter_empty_conv split: if_splits)
    then show ?thesis using assms Inr None
      by (auto simp: generator_Run_def Let_def intro: write_loop_unchanged split: prod.splits option.splits)
  qed
qed

lemma scaffold_feature_unchanged:
  assumes "scaffold_feature mk p os d t False fs = (e, fs', out)"
  shows "unchanged fs fs'"
proof -
  obtain r fs1 where g: "generator_Run (mk_execute mk) (mk_writable mk) (mk_templates mk) (NewStub (mf_Module p) ''User'')
      \<lparr>gen_Overlays = os, gen_Force = False, gen_DryRun = False\<rparr> fs = (r, fs1)" by fastforce
  note g1 = generator_unchanged [OF g]
  have "unchanged fs1 fs'"
    using assms g by (auto simp: scaffold_feature_def Let_def dest: render_one_unchanged split: sum.splits if_splits prod.splits)
  with g1 show ?thesis by (rule unchanged_trans)
qed

lemma makeModel_unchanged:
  assumes "makeModel mk p st name skip False fs = (e, fs', out)"
  shows "unchanged fs fs'"
proof -
  let ?t = "if isDocumentStore p then ''make/model_mongo.go.tmpl'' else ''make/model.go.tmpl''"
  obtain e1 fs1 out1 where r: "render_one mk ?t (in_dir ''app/models'' (naming_Snake name @ ''.go'')) st False fs = (e1, fs1, out1)"
    by (metis prod_cases3)
  have "unchanged fs1 fs'"
    using assms r by (auto simp: makeModel_def Let_def dest!: then_print_eq dest: render_one_unchanged split: option.splits if_splits prod.splits)
  with render_one_unchanged [OF r] show ?thesis by (rule unchanged_trans)
qed
lemma set_join: "set (join sep xs) \<subseteq> set sep \<union> (\<Union>x \<in> set xs. set x)"
  by (induction sep xs rule: join.induct) auto

lemma naming_Snake_flat: "slash \<notin> set (naming_Snake s)"
proof
  assume "slash \<in> set (naming_Snake s)"
  then obtain w where "w \<in> set (naming_Words s)" "slash \<in> set w"
    using set_join [of "''_''" "naming_Words s"] by (auto simp: naming_Snake_def slash_def)
  then show False using naming_Words_ok [of s] by (auto simp: list_all_iff word_ok_def is_separator_def slash_def)
qed

text \<open>The directories a generator of one file writes to.\<close>

fun make_dirs :: "make_command \<Rightarrow> string list" where
  "make_dirs (Make_Controller _ _) = [''app/controllers'']"
| "make_dirs (Make_Model _ _) = [''app/models'', ''database/migrations'']"
| "make_dirs (Make_Migration _) = [''database/migrations'']"
| "make_dirs (Make_Middleware _) = [''app/middleware'']"
| "make_dirs (Make_Seeder _) = [''database/seeders'']"
| "make_dirs (Make_Request _) = [''app/requests'']"
| "make_dirs (Make_Job _) = [''app/jobs'']"
| "make_dirs (Make_Test _) = [''tests'']"
| "make_dirs Make_Auth = []"
| "make_dirs Make_2FA = []"

definition flat :: "string \<Rightarrow> bool" where "flat b = (slash \<notin> set b)"

definition inside :: "string list \<Rightarrow> dest_fs \<Rightarrow> dest_fs \<Rightarrow> bool" where
  "inside dirs fs fs' = (\<forall>p. fmlookup fs' p \<noteq> fmlookup fs p \<longrightarrow> (\<exists>d \<in> set dirs. \<exists>b. p = in_dir d b \<and> flat b))"

lemma inside_refl [simp]: "inside dirs fs fs"
  by (simp add: inside_def)

lemma inside_trans: "inside dirs a b \<Longrightarrow> inside dirs b c \<Longrightarrow> inside dirs a c"
  unfolding inside_def by metis

lemma inside_mono: "inside dirs a b \<Longrightarrow> set dirs \<subseteq> set dirs' \<Longrightarrow> inside dirs' a b"
  unfolding inside_def by blast

lemma render_one_shape:
  "render_one mk tmpl dest stub force fs = (e, fs', out) \<Longrightarrow> fs' = fs \<or> (\<exists>c. fs' = fmupd dest c fs)"
  by (auto simp: render_one_def RenderTo_def writeFile_def split: if_splits sum.splits prod.splits option.splits)

lemma render_one_inside: "render_one mk tmpl (in_dir d b) stub force fs = (e, fs', out) \<Longrightarrow> flat b \<Longrightarrow> inside [d] fs fs'"
  by (drule render_one_shape) (auto simp: inside_def split: if_splits)

lemma flat_files:
  "flat (naming_Snake s @ ''.go'')" "flat (naming_Snake s @ ''_test.go'')"
  "flat v \<Longrightarrow> flat (stub_ID (WithMigration v d stub) @ ''.go'')"
  using naming_Snake_flat by (auto simp: WithMigration_def slash_def flat_def)

lemmas go_file_inside = render_one_inside [OF _ flat_files(1)]
lemmas test_file_inside = render_one_inside [OF _ flat_files(2)]

lemma migration_inside:
  "render_one mk tmpl (migration_path (WithMigration v d st)) stub force fs = (e, fs', out) \<Longrightarrow> flat v \<Longrightarrow>
   inside [''database/migrations''] fs fs'"
  unfolding migration_path_def by (erule render_one_inside) (rule flat_files(3))

lemma makeModel_inside:
  assumes "makeModel mk p st name skip force fs = (e, fs', out)" "flat (mk_version mk)"
  shows "inside [''app/models'', ''database/migrations''] fs fs'"
proof -
  let ?t = "if isDocumentStore p then ''make/model_mongo.go.tmpl'' else ''make/model.go.tmpl''"
  let ?st = "WithMigration (mk_version mk) (''create_'' @ naming_Table name) st"
  obtain e1 fs1 out1 where r: "render_one mk ?t (in_dir ''app/models'' (naming_Snake name @ ''.go'')) st force fs = (e1, fs1, out1)"
    by (metis prod_cases3)
  obtain e2 fs2 out2 where q: "render_one mk ''make/migration_create.go.tmpl'' (migration_path ?st) ?st force fs1 = (e2, fs2, out2)"
    by (metis prod_cases3)
  have "fs' = fs1 \<or> fs' = fs2"
    using assms(1) r q unfolding makeModel_def Let_def by (auto dest!: then_print_eq split: option.splits if_splits)
  moreover have "inside [''app/models''] fs fs1" by (rule go_file_inside [OF r])
  moreover have "inside [''database/migrations''] fs1 fs2" by (rule migration_inside [OF q assms(2)])
  ultimately have "inside [''app/models'', ''database/migrations''] fs fs1" "inside [''app/models'', ''database/migrations''] fs1 fs'"
    by (auto elim: inside_mono)
  then show ?thesis by (rule inside_trans)
qed

lemma named_cases:
  "named cp name run fs = (e, fs', out) \<Longrightarrow> fs' = fs \<or> (\<exists>p st. run p st fs = (e, fs', out))"
  by (auto simp: named_def split: sum.splits prod.splits)

lemma single_inside:
  "makeController mk p st name resource force fs = (e, fs', out) \<Longrightarrow> inside [''app/controllers''] fs fs'"
  "makeMiddleware mk p st name force fs = (e, fs', out) \<Longrightarrow> inside [''app/middleware''] fs fs'"
  "makeSeeder mk p st name force fs = (e, fs', out) \<Longrightarrow> inside [''database/seeders''] fs fs'"
  "makeRequest mk p st name force fs = (e, fs', out) \<Longrightarrow> inside [''app/requests''] fs fs'"
  "makeJob mk p st name force fs = (e, fs', out) \<Longrightarrow> inside [''app/jobs''] fs fs'"
  "makeTest mk p st name force fs = (e, fs', out) \<Longrightarrow> inside [''tests''] fs fs'"
  unfolding makeController_def makeMiddleware_def makeSeeder_def makeRequest_def makeJob_def makeTest_def
  by (drule then_print_eq, blast dest: go_file_inside | blast dest: go_file_inside test_file_inside)+

lemma makeMigration_inside:
  "makeMigration mk p st name force fs = (e, fs', out) \<Longrightarrow> flat (mk_version mk) \<Longrightarrow> inside [''database/migrations''] fs fs'"
  unfolding makeMigration_def Let_def by (auto dest: migration_inside split: if_splits)

lemma single_unchanged:
  "makeController mk p st name resource False fs = (e, fs', out) \<Longrightarrow> unchanged fs fs'"
  "makeMiddleware mk p st name False fs = (e, fs', out) \<Longrightarrow> unchanged fs fs'"
  "makeSeeder mk p st name False fs = (e, fs', out) \<Longrightarrow> unchanged fs fs'"
  "makeRequest mk p st name False fs = (e, fs', out) \<Longrightarrow> unchanged fs fs'"
  "makeJob mk p st name False fs = (e, fs', out) \<Longrightarrow> unchanged fs fs'"
  "makeTest mk p st name False fs = (e, fs', out) \<Longrightarrow> unchanged fs fs'"
  unfolding makeController_def makeMiddleware_def makeSeeder_def makeRequest_def makeJob_def makeTest_def
  by (drule then_print_eq, blast dest: render_one_unchanged | blast dest: render_one_unchanged)+

lemma makeMigration_unchanged: "makeMigration mk p st name False fs = (e, fs', out) \<Longrightarrow> unchanged fs fs'"
  unfolding makeMigration_def Let_def by (auto dest: render_one_unchanged split: if_splits)

lemma run_make_unchanged: "run_make mk cp False c fs = (e, fs', out) \<Longrightarrow> unchanged fs fs'"
  by (cases c; simp only: run_make.simps)
     (auto simp: makeAuth_def makeTwoFactor_def dest!: named_cases
        dest: single_unchanged makeMigration_unchanged makeModel_unchanged scaffold_feature_unchanged split: sum.splits)

lemma run_make_inside:
  assumes "run_make mk cp force c fs = (e, fs', out)" "make_dirs c \<noteq> []" "flat (mk_version mk)"
  shows "inside (make_dirs c) fs fs'"
  using assms
  by (cases c; simp only: run_make.simps make_dirs.simps)
     (auto dest!: named_cases dest: single_inside makeMigration_inside makeModel_inside)

section \<open>Properties\<close>

text \<open>C33. No generator changes a file that exists, unless it is told to by force: whatever the command, whether
  it succeeds or fails on the way, every file keeps its content.  The generators of single files write
  only directly into their own directories, whatever name they are given, with force or without.\<close>

theorem make_leaves_existing:
  assumes "run_make mk cp force c fs = (e, fs', out)"
  shows "(\<not> force \<longrightarrow> unchanged fs fs')
    \<and> (make_dirs c \<noteq> [] \<and> flat (mk_version mk) \<longrightarrow> inside (make_dirs c) fs fs')"
  using assms run_make_unchanged [where mk = mk and cp = cp and c = c and fs = fs and e = e and fs' = fs' and out = out]
    run_make_inside [OF assms] by auto

definition sample_make :: make_world where
  "sample_make = \<lparr>mk_execute = (\<lambda>raw _. Some raw), mk_writable = (\<lambda>_. True), mk_templates = [(''make/job.go.tmpl'', ''J'')],
     mk_version = ''20260101000000''\<rparr>"

theorem make_leaves_existing_witness:
  "\<exists>fs' out. run_make sample_make (Inr (sample_manifest ''sqlite'')) False (Make_Job ''../../etc/passwd'') (fmupd ''main.go'' ''M'' fmempty)
       = (None, fs', out)
     \<and> fmlookup fs' ''main.go'' = Some ''M'' \<and> inside [''app/jobs''] (fmupd ''main.go'' ''M'' fmempty) fs'"
proof -
  let ?fs = "fmupd ''main.go'' ''M'' fmempty :: dest_fs"
  let ?run = "run_make sample_make (Inr (sample_manifest ''sqlite'')) False (Make_Job ''../../etc/passwd'') ?fs"
  have "fst ?run = None" by code_simp
  then obtain fs' out where r: "?run = (None, fs', out)" by (metis prod.collapse)
  have "flat (mk_version sample_make)" by code_simp
  then have "unchanged ?fs fs' \<and> inside [''app/jobs''] ?fs fs'" using make_leaves_existing [OF r] by simp
  then show ?thesis using r by (auto simp: unchanged_def)
qed

text \<open>The routes that are suggested for a resource are distinct: no two share method and path, and no
  two share a name.\<close>

lemma resource_routes_distinct:
  "distinct (map (\<lambda>(m, p, h, n). (m, p)) (resource_routes stub))" "distinct (map (\<lambda>(m, p, h, n). n) (resource_routes stub))"
  by (simp_all add: resource_routes_def Let_def)

text \<open>The two scaffolds choose their overlays alike, so they accept the same projects.\<close>

lemma feature_overlays_agree:
  "(\<exists>os. AuthOverlays web db = Inr os) \<longleftrightarrow> (\<exists>os. twofactor_Overlays web db = Inr os)"
  by (auto simp: AuthOverlays_def twofactor_Overlays_def)

end
