(* ===== verification/Frontend.thy ===== *)
theory Frontend
  imports Toolchain Log
begin

text \<open>
  The frontend of a project that uses Vite, \<^verbatim>\<open>cmd/ry/internal/frontend/frontend.go\<close>: its
  dependencies, its build, the development server and the writer that tags its output.

  The files are those of the frontend directory.  Whether Node and npm are installed, the processes and
  the ports that can be bound are arguments.
\<close>

section \<open>Dependencies\<close>

definition DevURLEnv :: string where "DevURLEnv = ''RYLA_VITE_URL''"
definition DistDir :: string where "DistDir = ''dist''"
definition keepName :: string where "keepName = ''.gitkeep''"
definition viteEntry :: string where "viteEntry = ''node_modules/vite/bin/vite.js''"
definition defaultDevPort :: nat where "defaultDevPort = 5173"
definition devHost :: string where "devHost = ''127.0.0.1''"
definition devPortScanLimit :: nat where "devPortScanLimit = 20"

datatype frontend_error =
    Err_NoPackageJSON string | Err_NodeMissing | Err_NPMMissing | Err_NPMInstall string | Err_NoVite string
  | Err_TypeCheck | Err_ViteBuild string | Err_KeepFile string | Err_NoPort nat nat | Err_ViteStart string

definition frontend_Enabled :: "Manifest option \<Rightarrow> bool" where
  "frontend_Enabled p = (case p of None \<Rightarrow> False | Some m \<Rightarrow> mf_Vite m)"

record frontend_world =
  fe_node :: "string option"
  fe_npm :: "string option"
  fe_proc :: "dest_fs process"
  fe_mkdir :: "string option"
  fe_write :: "string option"

type_synonym frontend_result = "frontend_error option \<times> dest_fs \<times> string list \<times> string list list"

text \<open>A step that runs one command, printing a line first.\<close>

definition fe_run :: "frontend_world \<Rightarrow> string list \<Rightarrow> string list \<Rightarrow> dest_fs \<Rightarrow> string option \<times> dest_fs" where
  "fe_run fe dir argv fs = (case fe_proc fe dir argv fs of ((_, err), fs') \<Rightarrow> (err, fs'))"

definition runNPM :: "frontend_world \<Rightarrow> string list \<Rightarrow> string \<Rightarrow> dest_fs \<Rightarrow> frontend_error option \<times> dest_fs" where
  "runNPM fe dir npm fs = (case fe_run fe dir [npm, ''install''] fs of (err, fs') \<Rightarrow> (map_option Err_NPMInstall err, fs'))"

text \<open>The last check of \<^verbatim>\<open>Ensure\<close>.\<close>

definition has_vite :: "string \<Rightarrow> dest_fs \<Rightarrow> frontend_error option" where
  "has_vite shown fs = (if dest_exists fs viteEntry then None else Some (Err_NoVite shown))"

definition Ensure :: "frontend_world \<Rightarrow> string list \<Rightarrow> string \<Rightarrow> dest_fs \<Rightarrow> frontend_result" where
  "Ensure fe dir shown fs =
     (if \<not> dest_exists fs ''package.json'' then (Some (Err_NoPackageJSON shown), fs, [], [])
      else case fe_node fe of
        None \<Rightarrow> (Some Err_NodeMissing, fs, [], [])
      | Some _ \<Rightarrow>
          if dest_exists fs ''node_modules'' then (has_vite shown fs, fs, [], [])
          else (case fe_npm fe of
                  None \<Rightarrow> (Some Err_NPMMissing, fs, [], [])
                | Some npm \<Rightarrow>
                    let out = [''Installing frontend dependencies in '' @ shown @ '' (npm install)...''] in
                    (case runNPM fe dir npm fs of
                       (Some e, fs') \<Rightarrow> (Some e, fs', out, [[npm, ''install'']])
                     | (None, fs') \<Rightarrow> (has_vite shown fs', fs', out, [[npm, ''install'']]))))"

section \<open>The build\<close>

definition checkers :: "(string \<times> string list) list" where
  "checkers =
     [(''node_modules/svelte-check/bin/svelte-check'', [''--tsconfig'', ''./tsconfig.json'', ''--output'', ''human'']),
      (''node_modules/typescript/bin/tsc'', [''--noEmit''])]"

definition typeCheck :: "frontend_world \<Rightarrow> string list \<Rightarrow> string \<Rightarrow> dest_fs \<Rightarrow> frontend_result" where
  "typeCheck fe dir node fs =
     (if \<not> dest_exists fs ''tsconfig.json'' then (None, fs, [], [])
      else case find (\<lambda>c. dest_exists fs (fst c)) checkers of
        None \<Rightarrow> (None, fs, [], [])
      | Some (entry, args) \<Rightarrow>
          (case fe_run fe dir (node # entry # args) fs of
             (err, fs') \<Rightarrow> (map_option (\<lambda>_. Err_TypeCheck) err, fs', [''Checking types...''], [node # entry # args])))"

definition keep_path :: string where "keep_path = DistDir @ [slash] @ keepName"

definition writeKeepFile :: "frontend_world \<Rightarrow> dest_fs \<Rightarrow> frontend_error option \<times> dest_fs" where
  "writeKeepFile fe fs =
     (if dest_exists fs keep_path then (None, fs)
      else case (fe_mkdir fe, fe_write fe) of
        (Some e, _) \<Rightarrow> (Some (Err_KeepFile e), fs)
      | (None, Some e) \<Rightarrow> (Some (Err_KeepFile e), fs)
      | (None, None) \<Rightarrow> (None, fmupd keep_path [] fs))"

definition vite_build :: "frontend_world \<Rightarrow> string list \<Rightarrow> string \<Rightarrow> dest_fs \<Rightarrow> frontend_result" where
  "vite_build fe dir node fs =
     (let argv = [node, viteEntry, ''build''] in
      case fe_run fe dir argv fs of
        (Some e, fs') \<Rightarrow> (Some (Err_ViteBuild e), fs', [], [argv])
      | (None, fs') \<Rightarrow> (case writeKeepFile fe fs' of (e, fs'') \<Rightarrow> (e, fs'', [], [argv])))"

text \<open>One part after another: the first error ends it.\<close>

definition fe_then :: "frontend_result \<Rightarrow> (dest_fs \<Rightarrow> frontend_result) \<Rightarrow> frontend_result" where
  "fe_then r k =
     (case r of
        (Some e, fs, out, cmds) \<Rightarrow> (Some e, fs, out, cmds)
      | (None, fs, out, cmds) \<Rightarrow> (case k fs of (e, fs', out', cmds') \<Rightarrow> (e, fs', out @ out', cmds @ cmds')))"

definition frontend_Build :: "frontend_world \<Rightarrow> string list \<Rightarrow> string \<Rightarrow> dest_fs \<Rightarrow> frontend_result" where
  "frontend_Build fe dir shown fs =
     fe_then (Ensure fe dir shown fs)
       (\<lambda>fs1. case fe_node fe of
          None \<Rightarrow> (Some Err_NodeMissing, fs1, [], [])
        | Some node \<Rightarrow> fe_then (typeCheck fe dir node fs1) (vite_build fe dir node))"

section \<open>The development server\<close>

fun scan_free :: "(nat \<Rightarrow> bool) \<Rightarrow> nat list \<Rightarrow> nat option" where
  "scan_free bindable [] = None"
| "scan_free bindable (p # ps) = (if bindable p then Some p else scan_free bindable ps)"

definition freePort :: "(nat \<Rightarrow> bool) \<Rightarrow> nat \<Rightarrow> (frontend_error, nat) result" where
  "freePort bindable start =
     (case scan_free bindable (filter (\<lambda>p. p \<le> 65535) [start..<start + devPortScanLimit]) of
        None \<Rightarrow> Inl (Err_NoPort start (start + devPortScanLimit - 1))
      | Some p \<Rightarrow> Inr p)"

record Dev =
  dev_URL :: string
  dev_cmd :: "string list"
  dev_done :: bool

definition dev_args :: "string \<Rightarrow> nat \<Rightarrow> string list" where
  "dev_args node port = [node, viteEntry, ''--host'', devHost, ''--port'', format_nat port, ''--strictPort'']"

definition StartDev ::
  "frontend_world \<Rightarrow> (nat \<Rightarrow> bool) \<Rightarrow> string option \<Rightarrow> string list \<Rightarrow> string \<Rightarrow> dest_fs \<Rightarrow> (frontend_error, Dev) result \<times> dest_fs" where
  "StartDev fe bindable startErr dir shown fs =
     (case Ensure fe dir shown fs of
        (Some e, fs', _, _) \<Rightarrow> (Inl e, fs')
      | (None, fs', _, _) \<Rightarrow>
          (case fe_node fe of
             None \<Rightarrow> (Inl Err_NodeMissing, fs')
           | Some node \<Rightarrow>
               (case freePort bindable defaultDevPort of
                  Inl e \<Rightarrow> (Inl e, fs')
                | Inr port \<Rightarrow>
                    (case startErr of
                       Some e \<Rightarrow> (Inl (Err_ViteStart e), fs')
                     | None \<Rightarrow> (Inr \<lparr>dev_URL = ''http://'' @ devHost @ '':'' @ format_nat port, dev_cmd = dev_args node port,
                                    dev_done = False\<rparr>, fs')))))"

text \<open>\<^verbatim>\<open>Stop\<close>, and whether the process is killed.\<close>

definition dev_Stop :: "Dev \<Rightarrow> Dev \<times> bool" where
  "dev_Stop d = (if dev_done d \<or> dev_cmd d = [] then (d, False) else (d\<lparr>dev_done := True\<rparr>, True))"

section \<open>The tagged output\<close>

record prefixWriter =
  pw_out :: string
  pw_prefix :: string
  pw_buf :: string

definition vertical_bar :: string where "vertical_bar = [CHR 0xE2, CHR 0x94, CHR 0x82]"
definition escape_char :: char where "escape_char = CHR 0x1B"

definition newPrefixWriter :: "bool \<Rightarrow> string \<Rightarrow> prefixWriter" where
  "newPrefixWriter colour label =
     (let p = ''  '' @ label @ '' '' @ vertical_bar @ '' ''
      in \<lparr>pw_out = [], pw_prefix = (if colour then escape_char # ''[2m'' @ p @ escape_char # ''[0m'' else p), pw_buf = []\<rparr>)"

definition pw_line :: "string \<Rightarrow> string \<Rightarrow> string" where
  "pw_line prefix line = (if trim_space line = [] then [newline] else prefix @ line @ [newline])"

definition trim_right :: "(char \<Rightarrow> bool) \<Rightarrow> string \<Rightarrow> string" where
  "trim_right P s = rev (dropWhile P (rev s))"

definition is_cr :: "char \<Rightarrow> bool" where "is_cr c = (c = CHR 0x0D)"
definition is_crlf :: "char \<Rightarrow> bool" where "is_crlf c = (c = CHR 0x0D \<or> c = newline)"

function pw_loop :: "string \<Rightarrow> string \<Rightarrow> string \<Rightarrow> string \<times> string" where
  "pw_loop prefix buf out =
     (case cut newline buf of
        (line, rest, True) \<Rightarrow> pw_loop prefix rest (out @ pw_line prefix (trim_right is_cr line))
      | (_, _, False) \<Rightarrow> (buf, out))"
  by pat_completeness auto
termination
  by (relation "measure (\<lambda>(_, buf, _). length buf)") (auto dest!: sym [of _ "cut _ _"] cut_foundD)

declare pw_loop.simps [simp del]

definition pw_Write :: "string \<Rightarrow> prefixWriter \<Rightarrow> prefixWriter" where
  "pw_Write b p = (case pw_loop (pw_prefix p) (pw_buf p @ b) (pw_out p) of (buf, out) \<Rightarrow> p\<lparr>pw_buf := buf, pw_out := out\<rparr>)"

definition pw_flush :: "prefixWriter \<Rightarrow> prefixWriter" where
  "pw_flush p =
     (if pw_buf p = [] then p
      else p\<lparr>pw_buf := [], pw_out := pw_out p @ pw_line (pw_prefix p) (trim_right is_crlf (pw_buf p))\<rparr>)"

section \<open>Properties\<close>

lemma split_on_append2: "split_on c (s @ t) = butlast (split_on c s) @ split_on c (last (split_on c s) @ t)"
proof (induction s)
  case (Cons x xs)
  then show ?case
    by (cases "split_on c xs") (auto split: list.splits)
qed simp

definition tagged :: "string \<Rightarrow> string list \<Rightarrow> string" where
  "tagged prefix ls = concat (map (\<lambda>l. pw_line prefix (trim_right is_cr l)) ls)"

lemma pw_loop_split:
  "pw_loop prefix buf out = (last (split_on newline buf), out @ tagged prefix (butlast (split_on newline buf)))"
proof (induction "length buf" arbitrary: buf out rule: less_induct)
  case less
  obtain line rest f where c: "cut newline buf = (line, rest, f)" by (metis prod_cases3)
  show ?case
  proof (cases f)
    case True
    then have b: "buf = line @ newline # rest" "newline \<notin> set line" using cut_foundD c by auto
    then have "split_on newline buf = line # split_on newline rest" by (simp add: split_on_append)
    then show ?thesis
      using less [of rest "out @ pw_line prefix (trim_right is_cr line)"] b c True
      by (subst pw_loop.simps) (simp add: tagged_def)
  next
    case False
    then have "newline \<notin> set buf" using c cut_found_iff [of newline buf] by simp
    then show ?thesis using c False by (subst pw_loop.simps) (simp add: split_on_id tagged_def)
  qed
qed

lemma last_split_on_free: "newline \<notin> set (last (split_on newline s))"
  using split_on_notin [of "last (split_on newline s)" newline s] by simp

definition pw_state :: "string \<Rightarrow> string \<Rightarrow> prefixWriter" where
  "pw_state prefix s =
     \<lparr>pw_out = tagged prefix (butlast (split_on newline s)), pw_prefix = prefix, pw_buf = last (split_on newline s)\<rparr>"

lemma pw_Write_state: "pw_Write b (pw_state prefix s) = pw_state prefix (s @ b)"
  unfolding split_on_append2 [of newline s b] pw_state_def pw_Write_def
  by (simp add: pw_loop_split tagged_def split_on_append2 [of newline s b] butlast_append)

text \<open>The tagging of the output does not depend on how it arrives.  However the process splits what it
  prints into writes, the terminal shows the same: each complete line tagged once, with the carriage
  returns at its end removed, and after the end of the process the unfinished line too.\<close>

theorem prefix_writer_chunks:
  "foldl (\<lambda>p b. pw_Write b p) (newPrefixWriter colour label) chunks
     = pw_state (pw_prefix (newPrefixWriter colour label)) (concat chunks)
   \<and> pw_out (pw_flush (foldl (\<lambda>p b. pw_Write b p) (newPrefixWriter colour label) chunks))
     = tagged (pw_prefix (newPrefixWriter colour label)) (butlast (split_on newline (concat chunks)))
       @ (let l = last (split_on newline (concat chunks))
          in if l = [] then [] else pw_line (pw_prefix (newPrefixWriter colour label)) (trim_right is_crlf l))"
proof -
  let ?p = "pw_prefix (newPrefixWriter colour label)"
  have "newPrefixWriter colour label = pw_state ?p []" by (simp add: newPrefixWriter_def pw_state_def tagged_def Let_def)
  moreover have "foldl (\<lambda>p b. pw_Write b p) (pw_state ?p s) chunks = pw_state ?p (s @ concat chunks)" for s
    by (induction chunks arbitrary: s) (simp_all add: pw_Write_state)
  ultimately have eq: "foldl (\<lambda>p b. pw_Write b p) (newPrefixWriter colour label) chunks = pw_state ?p (concat chunks)"
    by (metis append_Nil)
  show ?thesis unfolding eq by (simp add: pw_flush_def pw_state_def Let_def)
qed

lemma scan_free_Some:
  "scan_free b ps = Some p \<Longrightarrow> sorted_wrt (<) ps \<Longrightarrow> p \<in> set ps \<and> b p \<and> (\<forall>q \<in> set ps. q < p \<longrightarrow> \<not> b q)"
  by (induction ps) (auto split: if_splits)

lemma scan_free_None: "scan_free b ps = None \<longleftrightarrow> list_all (\<lambda>q. \<not> b q) ps"
  by (induction ps) auto

lemma freePort_spec:
  assumes "start + devPortScanLimit \<le> 65536"
  shows "freePort b start = Inr p \<Longrightarrow> start \<le> p \<and> p < start + devPortScanLimit \<and> b p \<and> (\<forall>q. start \<le> q \<and> q < p \<longrightarrow> \<not> b q)"
    and "freePort b start = Inl e \<Longrightarrow> start \<le> q \<Longrightarrow> q < start + devPortScanLimit \<Longrightarrow> \<not> b q"
proof -
  have ps: "filter (\<lambda>p. p \<le> 65535) [start..<start + devPortScanLimit] = [start..<start + devPortScanLimit]"
    using assms by (intro filter_id_set) simp
  have srt: "sorted_wrt (<) [start..<start + devPortScanLimit]" by (rule sorted_wrt_upt)
  show "freePort b start = Inr p \<Longrightarrow> start \<le> p \<and> p < start + devPortScanLimit \<and> b p \<and> (\<forall>q. start \<le> q \<and> q < p \<longrightarrow> \<not> b q)"
    using scan_free_Some [OF _ srt, of b p] unfolding freePort_def ps by (fastforce split: option.splits)
  show "freePort b start = Inl e \<Longrightarrow> start \<le> q \<Longrightarrow> q < start + devPortScanLimit \<Longrightarrow> \<not> b q"
    unfolding freePort_def ps by (auto simp: scan_free_None list_all_iff split: option.splits)
qed

lemma Ensure_ok:
  assumes "Ensure fe dir shown fs = (None, fs', out, cmds)"
  shows "dest_exists fs' viteEntry \<and> fe_node fe \<noteq> None \<and> set cmds \<subseteq> {[npm, ''install''] | npm. fe_npm fe = Some npm}"
  using assms by (auto simp: Ensure_def has_vite_def Let_def split: if_splits option.splits prod.splits)

lemma writeKeepFile_ok: "writeKeepFile fe fs = (None, fs') \<Longrightarrow> dest_exists fs' keep_path"
  by (auto simp: writeKeepFile_def dest_exists_def split: if_splits option.splits prod.splits)

lemma vite_build_ok:
  "vite_build fe dir node fs = (e, fs', out, cmds) \<Longrightarrow> cmds = [[node, viteEntry, ''build'']] \<and> (e = None \<longrightarrow> dest_exists fs' keep_path)"
  by (auto simp: vite_build_def Let_def dest: writeKeepFile_ok split: prod.splits option.splits)

lemma typeCheck_cmds:
  "typeCheck fe dir node fs = (e, fs', out, cmds) \<Longrightarrow>
   cmds = [] \<or> (\<exists>c \<in> set checkers. cmds = [node # fst c # snd c])"
  using find_Some_set [of "\<lambda>c. dest_exists fs (fst c)" checkers]
  by (cases "find (\<lambda>c. dest_exists fs (fst c)) checkers") (force simp: typeCheck_def split: if_splits prod.splits)+

lemma fe_then_ok:
  "fe_then r k = (None, fs', out, cmds) \<Longrightarrow>
   \<exists>fs1 out1 cmds1 out2 cmds2. r = (None, fs1, out1, cmds1) \<and> k fs1 = (None, fs', out2, cmds2) \<and> cmds = cmds1 @ cmds2"
  by (auto simp: fe_then_def split: prod.splits option.splits)

lemma Ensure_error: "Ensure fe dir shown fs = (e, fs', out, cmds) \<Longrightarrow> e \<noteq> Some Err_TypeCheck"
  by (auto simp: Ensure_def has_vite_def runNPM_def Let_def split: if_splits option.splits prod.splits)

lemma typeCheck_not_vite:
  "typeCheck fe dir node fs = (e, fs', out, cmds) \<Longrightarrow> [n, viteEntry, ''build''] \<notin> set cmds"
proof -
  assume "typeCheck fe dir node fs = (e, fs', out, cmds)"
  then have "cmds = [] \<or> (\<exists>c \<in> set checkers. cmds = [node # fst c # snd c])" by (rule typeCheck_cmds)
  moreover have "\<forall>c \<in> set checkers. fst c \<noteq> viteEntry" by code_simp
  ultimately show ?thesis by fastforce
qed

text \<open>The build leaves the directory that the Go build embeds in place: a frontend build that succeeds has
  Vite installed, has run the type checker, if there is one, and Vite last, and the placeholder is in the
  output directory afterwards.  Vite is not run when the types do not check.\<close>

theorem frontend_build_embeds:
  assumes "frontend_Build fe dir shown fs = (e, fs', out, cmds)"
  shows "(e = None \<longrightarrow> (\<exists>node. fe_node fe = Some node \<and> last cmds = [node, viteEntry, ''build'']) \<and> dest_exists fs' keep_path)
    \<and> (e = Some Err_TypeCheck \<longrightarrow> (\<forall>node. [node, viteEntry, ''build''] \<notin> set cmds))"
proof (intro conjI impI)
  assume "e = None"
  obtain fs1 o1 c1 o2 c2 where a: "Ensure fe dir shown fs = (None, fs1, o1, c1)"
      "(case fe_node fe of None \<Rightarrow> (Some Err_NodeMissing, fs1, [], [])
        | Some node \<Rightarrow> fe_then (typeCheck fe dir node fs1) (vite_build fe dir node)) = (None, fs', o2, c2)" "cmds = c1 @ c2"
    using fe_then_ok [OF assms [unfolded frontend_Build_def \<open>e = None\<close>]] by blast
  then obtain node where n: "fe_node fe = Some node" "fe_then (typeCheck fe dir node fs1) (vite_build fe dir node) = (None, fs', o2, c2)"
    by (auto split: option.splits)
  from fe_then_ok [OF n(2)] obtain fs2 o3 c3 c4 where v: "vite_build fe dir node fs2 = (None, fs', o3, c4)" "c2 = c3 @ c4" by blast
  show "\<exists>node. fe_node fe = Some node \<and> last cmds = [node, viteEntry, ''build'']" "dest_exists fs' keep_path"
    using vite_build_ok [OF v(1)] v(2) n(1) a(3) by auto
next
  assume te: "e = Some Err_TypeCheck"
  obtain e1 fs1 o1 c1 where en: "Ensure fe dir shown fs = (e1, fs1, o1, c1)" by (metis prod_cases4)
  have e1: "e1 = None" using assms te en Ensure_error [OF en] by (auto simp: frontend_Build_def fe_then_def split: option.splits)
  then obtain node where n: "fe_node fe = Some node" using Ensure_ok en by blast
  obtain e2 fs2 o2 c2 where tc: "typeCheck fe dir node fs1 = (e2, fs2, o2, c2)" by (metis prod_cases4)
  obtain e3 fs3 o3 c3 where vb: "vite_build fe dir node fs2 = (e3, fs3, o3, c3)" by (metis prod_cases4)
  have "e3 \<noteq> Some Err_TypeCheck" using vb by (auto simp: vite_build_def writeKeepFile_def Let_def split: prod.splits option.splits if_splits)
  then have "cmds = c1 @ c2"
    using assms te en e1 n tc vb by (cases e2) (auto simp: frontend_Build_def fe_then_def)
  then show "\<forall>node. [node, viteEntry, ''build''] \<notin> set cmds"
    using Ensure_ok [OF en [unfolded e1]] typeCheck_not_vite [OF tc] by auto
qed

definition sample_frontend :: frontend_world where
  "sample_frontend = \<lparr>fe_node = Some ''node'', fe_npm = Some ''npm'', fe_proc = (\<lambda>_ _ w. (([], None), w)), fe_mkdir = None, fe_write = None\<rparr>"

definition sample_files :: dest_fs where
  "sample_files = fmap_of_list [(''package.json'', []), (''tsconfig.json'', []), (''node_modules/typescript/bin/tsc'', []),
     (''node_modules/vite/bin/vite.js'', [])]"

theorem frontend_build_embeds_witness:
  "\<exists>fs' out cmds. frontend_Build sample_frontend [] ''resources/frontend'' sample_files = (None, fs', out, cmds)
     \<and> last cmds = [''node'', viteEntry, ''build''] \<and> dest_exists fs' keep_path"
proof -
  let ?run = "frontend_Build sample_frontend [] ''resources/frontend'' sample_files"
  have "fst ?run = None" by code_simp
  then obtain fs' out cmds where r: "?run = (None, fs', out, cmds)" by (metis prod.collapse)
  from frontend_build_embeds [OF r] r show ?thesis by (auto simp: sample_frontend_def)
qed

text \<open>The development server listens where the application is told to look: the port in the address is the
  one Vite is started with, it is the first one that can be bound from the default on, and starting fails
  exactly when none of the ports that are tried can be bound.  Stopping twice kills once.\<close>

theorem vite_port_agrees:
  assumes "Ensure fe dir shown fs = (None, fs', out, cmds)"
  shows "(case fst (StartDev fe bindable None dir shown fs) of
       Inr d \<Rightarrow> (\<exists>port node. fe_node fe = Some node \<and> dev_cmd d = dev_args node port \<and> dev_URL d = ''http://127.0.0.1:'' @ format_nat port
           \<and> bindable port \<and> 5173 \<le> port \<and> port < 5193 \<and> (\<forall>q. 5173 \<le> q \<and> q < port \<longrightarrow> \<not> bindable q))
         \<and> (\<forall>d' k. dev_Stop d = (d', k) \<longrightarrow> k \<and> snd (dev_Stop d') = False)
     | Inl _ \<Rightarrow> \<forall>q. 5173 \<le> q \<and> q < 5193 \<longrightarrow> \<not> bindable q)"
proof -
  obtain node where n: "fe_node fe = Some node" using Ensure_ok [OF assms] by blast
  have lim: "defaultDevPort + devPortScanLimit = 5193" "defaultDevPort = 5173" by (simp_all add: defaultDevPort_def devPortScanLimit_def)
  have "defaultDevPort + devPortScanLimit \<le> 65536" by (simp add: defaultDevPort_def devPortScanLimit_def)
  note spec = freePort_spec [OF this, where b = bindable, unfolded lim]
  show ?thesis
  proof (cases "freePort bindable 5173")
    case (Inl e)
    then show ?thesis using assms n spec(2) by (simp add: StartDev_def lim devPortScanLimit_def)
  next
    case (Inr port)
    then show ?thesis using assms n spec(1) [OF Inr] by (auto simp: StartDev_def lim devHost_def dev_Stop_def dev_args_def devPortScanLimit_def intro!: exI [of _ port])
  qed
qed

theorem vite_port_agrees_witness:
  "\<exists>d. fst (StartDev sample_frontend (\<lambda>p. p \<noteq> 5173) None [] ''resources/frontend'' sample_files) = Inr d \<and> dev_URL d = ''http://127.0.0.1:'' @ format_nat 5174"
proof -
  let ?ens = "Ensure sample_frontend [] ''resources/frontend'' sample_files"
  let ?run = "fst (StartDev sample_frontend (\<lambda>p. p \<noteq> 5173) None [] ''resources/frontend'' sample_files)"
  have "fst ?ens = None" by code_simp
  then obtain fs' out cmds where e: "?ens = (None, fs', out, cmds)" by (metis prod.collapse)
  note t = vite_port_agrees [OF e, where bindable = "\<lambda>p. p \<noteq> 5173"]
  obtain d port where d: "?run = Inr d" "dev_URL d = ''http://127.0.0.1:'' @ format_nat port" "port \<noteq> 5173" "5173 \<le> port"
      "\<forall>q. 5173 \<le> q \<and> q < port \<longrightarrow> q = 5173"
  proof (cases ?run)
    case (Inl x)
    then have "\<forall>q. 5173 \<le> q \<and> q < 5193 \<longrightarrow> q = (5173 :: nat)" using t by simp
    then have "(5174 :: nat) = 5173" by (rule allE [of _ 5174]) simp
    then show ?thesis by simp
  next
    case (Inr d)
    then show ?thesis using t that by auto
  qed
  have "\<not> 5174 < port" using d(5) [rule_format, of 5174] by auto
  with d have "port = 5174" by simp
  then show ?thesis using d(1,2) by simp
qed

end
