(* ===== verification/RunCmds.thy ===== *)
theory RunCmds
  imports UpdateCmd Frontend Config
begin

text \<open>
  Running a project, \<^verbatim>\<open>cmd/ry/internal/commands/run.go\<close>: the development server, the build, starting
  the binary and passing commands on to it; and the terminal output of the watcher,
  \<^verbatim>\<open>cmd/ry/internal/watcher/ui.go\<close>.

  The files the processes work on are those of the frontend directory, the part of the project that the Go
  build embeds.  The outcome of running the application's binary is an argument.
\<close>

section \<open>The build\<close>

definition onlyFull :: "string list \<Rightarrow> string option" where
  "onlyFull args = (if args = [] \<or> args = [''full''] then None else Some (hd args))"

text \<open>\<^verbatim>\<open>withHint\<close>: the error and what is added to it.\<close>

definition withHint :: "frontend_error \<Rightarrow> string \<Rightarrow> frontend_error \<times> string" where
  "withHint e hint = (e, if e = Err_NodeMissing then hint else [])"

datatype run_error =
    Err_RunProject project_error | Err_RunServices services_error | Err_RunAddr addr_error | Err_RunFrontend "frontend_error \<times> string"
  | Err_RunTool string | Err_RunAbs string | Err_RunArgument string | Err_NoBinary string | Err_RunBinary string

definition build_hint :: string where
  "build_hint = ''The frontend has to be compiled before it can be embedded, so there is no way around it for a release build.''"

definition dev_hint :: string where
  "dev_hint = ''To work on the Go side alone, run `ry dev --no-vite`. The app then serves the last frontend build.''"

record build_run =
  br_error :: "run_error option"
  br_out :: "string list"
  br_cmds :: "string list list"
  br_fs :: dest_fs

definition path_string :: "string list \<Rightarrow> string" where
  "path_string p = [slash] @ join [slash] p"

text \<open>A step of a build: an error option, the files, what is printed and the commands run.\<close>

type_synonym build_step = "dest_fs \<Rightarrow> run_error option \<times> dest_fs \<times> string list \<times> string list list"

fun run_build :: "build_step list \<Rightarrow> dest_fs \<Rightarrow> build_run" where
  "run_build [] fs = \<lparr>br_error = None, br_out = [], br_cmds = [], br_fs = fs\<rparr>"
| "run_build (st # sts) fs =
     (case st fs of
        (Some e, fs', out, cmds) \<Rightarrow> \<lparr>br_error = Some e, br_out = out, br_cmds = cmds, br_fs = fs'\<rparr>
      | (None, fs', out, cmds) \<Rightarrow>
          (let r = run_build sts fs' in r\<lparr>br_out := out @ br_out r, br_cmds := cmds @ br_cmds r\<rparr>))"

definition step_frontend :: "frontend_world \<Rightarrow> string list \<times> Manifest \<Rightarrow> build_step" where
  "step_frontend fe p fs =
     (if \<not> frontend_Enabled (Some (snd p)) then (None, fs, [], [])
      else case frontend_Build fe (fst p @ [mf_Frontend (snd p)]) (mf_Frontend (snd p)) fs of
        (e, fs', out, cmds) \<Rightarrow> (map_option (\<lambda>e. Err_RunFrontend (withHint e build_hint)) e, fs', ''Building the frontend...'' # out, cmds))"

definition templ_args :: "string list" where "templ_args = [''go'', ''tool'', ''templ'', ''generate'']"

definition step_templ :: "dest_fs process \<Rightarrow> string list \<times> Manifest \<Rightarrow> build_step" where
  "step_templ proc p fs =
     (if \<not> mf_Templ (snd p) then (None, fs, [], [])
      else case tool_Templ proc p fs of (e, fs') \<Rightarrow> (map_option Err_RunTool e, fs', [''Generating views...''], [templ_args]))"

definition step_compile :: "dest_fs process \<Rightarrow> string option \<Rightarrow> string list \<times> Manifest \<Rightarrow> BuildOptions \<Rightarrow> build_step" where
  "step_compile proc mkdir p opts fs =
     (case tool_Build proc mkdir p opts fs of
        (e, fs') \<Rightarrow> (map_option Err_RunTool e, fs', [''Building...''],
          if mkdir = None then [''go'' # build_args (snd p) opts] else []))"

text \<open>\<^verbatim>\<open>ry build\<close>; \<open>absolute\<close> is \<^verbatim>\<open>filepath.Abs\<close>.  The size in the last line is left out.\<close>

definition build_cmd ::
  "frontend_world \<Rightarrow> dest_fs process \<Rightarrow> string option \<Rightarrow> bool \<Rightarrow> (string \<Rightarrow> (string, string) result) \<Rightarrow> string option
     \<Rightarrow> (project_error, string list \<times> Manifest) result \<Rightarrow> string \<Rightarrow> bool \<Rightarrow> dest_fs \<Rightarrow> build_run" where
  "build_cmd fe proc mkdir windows absolute wd currentProject output debug fs =
     (case currentProject of
        Inl e \<Rightarrow> \<lparr>br_error = Some (Err_RunProject e), br_out = [], br_cmds = [], br_fs = fs\<rparr>
      | Inr p \<Rightarrow>
          (case (if output = [] then Inr (path_string (BinaryPath windows (fst p) (snd p))) else absolute output) of
             Inl e \<Rightarrow> \<lparr>br_error = Some (Err_RunAbs e), br_out = [], br_cmds = [], br_fs = fs\<rparr>
           | Inr dest \<Rightarrow>
               (let r = run_build [step_frontend fe p, step_templ proc p,
                          step_compile proc mkdir p \<lparr>bo_Output = dest, bo_Release = \<not> debug, bo_Tags = []\<rparr>] fs
                in if br_error r = None then r\<lparr>br_out := br_out r @ [''Built '' @ relativeToWD wd dest]\<rparr> else r)))"

section \<open>Running the binary\<close>

datatype binary_outcome = Exited nat | Not_Started string

text \<open>\<^verbatim>\<open>runBinary\<close> and the exit status of the command: an exit code other than zero is that of the process,
  any other error is reported and the status is one.\<close>

definition binary_status :: "binary_outcome \<Rightarrow> nat" where
  "binary_status b = (case b of Exited n \<Rightarrow> n | Not_Started _ \<Rightarrow> 1)"

record binary_run =
  xr_status :: nat
  xr_error :: "run_error option"
  xr_ran :: "(string \<times> string list) option"

definition runBinary :: "(string \<Rightarrow> string list \<Rightarrow> binary_outcome) \<Rightarrow> string \<Rightarrow> string list \<Rightarrow> binary_run" where
  "runBinary binary bin args =
     \<lparr>xr_status = binary_status (binary bin args),
      xr_error = (case binary bin args of Exited _ \<Rightarrow> None | Not_Started e \<Rightarrow> Some (Err_RunBinary e)),
      xr_ran = Some (bin, args)\<rparr>"

definition refuse :: "run_error \<Rightarrow> binary_run" where
  "refuse e = \<lparr>xr_status = 1, xr_error = Some e, xr_ran = None\<rparr>"

text \<open>\<^verbatim>\<open>ry start\<close>.\<close>

definition start_cmd ::
  "machine \<Rightarrow> bool \<Rightarrow> string option \<Rightarrow> (string \<Rightarrow> string list \<Rightarrow> binary_outcome) \<Rightarrow> (project_error, string list \<times> Manifest) result
     \<Rightarrow> string \<Rightarrow> binary_run" where
  "start_cmd m windows wd binary currentProject addr =
     (case currentProject of
        Inl e \<Rightarrow> refuse (Err_RunProject e)
      | Inr p \<Rightarrow>
          let bin = path_string (BinaryPath windows (fst p) (snd p)) in
          if \<not> dest_exists (m_fs m) bin then refuse (Err_NoBinary (relativeToWD wd bin))
          else case sv_error (ensureServices m p False) of
            Some e \<Rightarrow> refuse (Err_RunServices e)
          | None \<Rightarrow> runBinary binary bin (''serve'' # (if addr \<noteq> [] then [''-addr'', addr] else [])))"

definition forwarded :: "string list" where
  "forwarded =
     [''migrate'', ''migrate:rollback'', ''migrate:status'', ''migrate:refresh'', ''db:seed'', ''routes'', ''queue:work'', ''queue:failed'',
      ''queue:retry'', ''schedule:run'', ''schedule:list'']"

text \<open>\<^verbatim>\<open>forward\<close>: the services, the views, the build and then the command of the application.\<close>

definition forward ::
  "machine \<Rightarrow> bool \<Rightarrow> dest_fs process \<Rightarrow> string option \<Rightarrow> (string \<Rightarrow> string list \<Rightarrow> binary_outcome)
     \<Rightarrow> (project_error, string list \<times> Manifest) result \<Rightarrow> string \<Rightarrow> string list \<Rightarrow> dest_fs \<Rightarrow> binary_run" where
  "forward m windows proc mkdir binary currentProject name args fs =
     (case currentProject of
        Inl e \<Rightarrow> refuse (Err_RunProject e)
      | Inr p \<Rightarrow>
          (case sv_error (ensureServices m p False) of
             Some e \<Rightarrow> refuse (Err_RunServices e)
           | None \<Rightarrow>
               (case tool_Templ proc p fs of
                  (Some e, _) \<Rightarrow> refuse (Err_RunTool e)
                | (None, fs1) \<Rightarrow>
                    let bin = path_string (DevBinaryPath windows (fst p) (snd p)) in
                    (case tool_Build proc mkdir p \<lparr>bo_Output = bin, bo_Release = False, bo_Tags = []\<rparr> fs1 of
                       (Some e, _) \<Rightarrow> refuse (Err_RunTool e)
                     | (None, _) \<Rightarrow> runBinary binary bin (name # args)))))"

section \<open>The development server\<close>

record Runner =
  rn_Args :: "string list"
  rn_Addr :: string
  rn_Debounce :: duration
  rn_Version :: string
  rn_NoColor :: bool
  rn_Env :: "string list"
  rn_Notice :: string

record dev_flags =
  df_addr :: string
  df_debounce :: duration
  df_strictPort :: bool
  df_noVite :: bool
  df_full :: bool
  df_noColor :: bool

text \<open>\<^verbatim>\<open>ry dev\<close> up to the start of the watcher: the runner, and the Vite server when there is one.\<close>

definition dev_cmd ::
  "machine \<Rightarrow> frontend_world \<Rightarrow> (nat \<Rightarrow> bool) \<Rightarrow> string option \<Rightarrow> (string \<Rightarrow> probe) \<Rightarrow> string \<Rightarrow> bool \<Rightarrow> string \<Rightarrow> UpdateStatus
     \<Rightarrow> dev_flags \<Rightarrow> (project_error, string list \<times> Manifest) result \<Rightarrow> string list \<Rightarrow> dest_fs
     \<Rightarrow> (run_error, Runner \<times> Dev option) result" where
  "dev_cmd m fe bindable viteErr probe fromEnv colour version status df currentProject args fs =
     (case onlyFull args of Some a \<Rightarrow> Inl (Err_RunArgument a) | None \<Rightarrow>
      case currentProject of Inl e \<Rightarrow> Inl (Err_RunProject e) | Inr p \<Rightarrow>
      case sv_error (ensureServices m p (df_full df \<or> length args = 1)) of Some e \<Rightarrow> Inl (Err_RunServices e) | None \<Rightarrow>
      case resolveDevAddr probe fromEnv (df_addr df) (df_strictPort df) of Inl e \<Rightarrow> Inl (Err_RunAddr e) | Inr addr \<Rightarrow>
      let env = [''LOG_FORMAT=console'', ''RYLA_DEV=1''] @ (if \<not> df_noColor df \<and> colour then [''FORCE_COLOR=1''] else []);
          runner = (\<lambda>e. \<lparr>rn_Args = [''serve'', ''-addr'', addr], rn_Addr = addr, rn_Debounce = df_debounce df,
             rn_Version = DisplayVersion version, rn_NoColor = df_noColor df, rn_Env = e, rn_Notice = updateNotice status\<rparr>)
      in if frontend_Enabled (Some (snd p)) \<and> \<not> df_noVite df
         then (case fst (StartDev fe bindable viteErr (fst p @ [mf_Frontend (snd p)]) (mf_Frontend (snd p)) fs) of
                 Inl e \<Rightarrow> Inl (Err_RunFrontend (withHint e dev_hint))
               | Inr dev \<Rightarrow> Inr (runner (env @ [DevURLEnv @ ''='' @ dev_URL dev]), Some dev))
         else Inr (runner env, None))"

section \<open>The terminal\<close>

definition ui_reset :: string where "ui_reset = escape_char # ''[0m''"

definition ui_paint :: "bool \<Rightarrow> string \<Rightarrow> string \<Rightarrow> string" where
  "ui_paint colour code s = (if \<not> colour \<or> s = [] then s else escape_char # code @ s @ ui_reset)"

definition ui_dim where "ui_dim colour s = ui_paint colour ''[2m'' s"
definition ui_bold where "ui_bold colour s = ui_paint colour ''[1m'' s"
definition ui_green where "ui_green colour s = ui_paint colour ''[32m'' s"
definition ui_cyan where "ui_cyan colour s = ui_paint colour ''[36m'' s"
definition ui_yellow where "ui_yellow colour s = ui_paint colour ''[33m'' s"
definition ui_red where "ui_red colour s = ui_paint colour ''[31m'' s"

text \<open>An interface: whether it is up, whether it is the loopback, and its addresses, each with the address
  in dotted form if it has four bytes, whether it is loopback and whether it is link-local; or none if
  they cannot be read.\<close>

type_synonym iface = "bool \<times> bool \<times> (string option \<times> bool \<times> bool) list option"

fun first_ip4 :: "(string option \<times> bool \<times> bool) list \<Rightarrow> string" where
  "first_ip4 [] = []"
| "first_ip4 ((ip, lo, ll) # as) = (case ip of Some i \<Rightarrow> if \<not> lo \<and> \<not> ll then i else first_ip4 as | None \<Rightarrow> first_ip4 as)"

fun outbound_loop :: "iface list \<Rightarrow> string" where
  "outbound_loop [] = []"
| "outbound_loop ((up, lo, addrs) # is) =
     (if \<not> up \<or> lo then outbound_loop is
      else case addrs of
        None \<Rightarrow> outbound_loop is
      | Some as \<Rightarrow> if first_ip4 as \<noteq> [] then first_ip4 as else outbound_loop is)"

definition outboundIP :: "iface list option \<Rightarrow> string" where
  "outboundIP ifaces = (case ifaces of None \<Rightarrow> [] | Some is \<Rightarrow> outbound_loop is)"

definition join_host_port :: "string \<Rightarrow> string \<Rightarrow> string" where
  "join_host_port host port = (if CHR '':'' \<in> set host \<or> CHR ''%'' \<in> set host then ''['' @ host @ '']:'' @ port else host @ '':'' @ port)"

definition browsableURLs :: "iface list option \<Rightarrow> string \<Rightarrow> string \<times> string" where
  "browsableURLs ifaces addr =
     (case split_addr addr of
        None \<Rightarrow> (''http://'' @ addr, [])
      | Some (host, port) \<Rightarrow>
          if host \<in> {'''', ''0.0.0.0'', ''::'', ''[::]''}
          then (''http://localhost:'' @ port, if outboundIP ifaces \<noteq> [] then ''http://'' @ outboundIP ifaces @ '':'' @ port else [])
          else (''http://'' @ join_host_port host port, []))"

definition ui_arrow :: string where "ui_arrow = [CHR 0xE2, CHR 0x9E, CHR 0x9C]"
definition ui_reload :: string where "ui_reload = [CHR 0xE2, CHR 0x9F, CHR 0xB3]"
definition ui_cross :: string where "ui_cross = [CHR 0xE2, CHR 0x9C, CHR 0x97]"
definition ui_up :: string where "ui_up = [CHR 0xE2, CHR 0x86, CHR 0x91]"

text \<open>The lines; \<open>took\<close> is the formatted duration.\<close>

definition ui_banner :: "bool \<Rightarrow> iface list option \<Rightarrow> string \<Rightarrow> string \<Rightarrow> nat \<Rightarrow> string \<Rightarrow> string list" where
  "ui_banner colour ifaces version addr watched took =
     (case browsableURLs ifaces addr of (loc, net) \<Rightarrow>
        [[], ''  '' @ ui_bold colour (ui_green colour ''RYLA'') @ '' '' @ ui_dim colour version @ ''  '' @ ui_dim colour (''ready in '' @ took), [],
         ''  '' @ ui_green colour ui_arrow @ ''  '' @ ui_bold colour ''Local:'' @ ''   '' @ ui_cyan colour loc]
        @ (if net \<noteq> [] then [''  '' @ ui_green colour ui_arrow @ ''  '' @ ui_bold colour ''Network:'' @ '' '' @ ui_cyan colour net] else [])
        @ [''  '' @ ui_dim colour ui_arrow @ ''  '' @ ui_dim colour ''Watching:'' @ '' ''
            @ ui_dim colour (format_nat watched @ '' files '' @ middle_dot @ '' ctrl-c to stop''), []])"

definition ui_reloaded :: "bool \<Rightarrow> string \<Rightarrow> string \<Rightarrow> string" where
  "ui_reloaded colour took trigger =
     ''  '' @ ui_green colour ui_reload @ ''  reloaded in '' @ took
       @ (if trigger \<noteq> [] then ui_dim colour (''  ('' @ trigger @ '')'') else [])"

definition ui_buildFailed :: "bool \<Rightarrow> string \<Rightarrow> string" where
  "ui_buildFailed colour trigger =
     ''  '' @ ui_red colour ui_cross @ ''  build failed''
       @ (if trigger \<noteq> [] then ui_dim colour (''  ('' @ trigger @ '')'') else [])
       @ ui_dim colour (''  '' @ em_dash @ '' fix and save to retry'')"

definition ui_notice :: "bool \<Rightarrow> string \<Rightarrow> string list" where
  "ui_notice colour msg = [''  '' @ ui_yellow colour ui_up @ ''  '' @ ui_dim colour msg, []]"

definition ui_warn :: "bool \<Rightarrow> string \<Rightarrow> string" where
  "ui_warn colour msg = ''  '' @ ui_yellow colour ''!'' @ ''  '' @ msg"

definition ui_info :: "bool \<Rightarrow> string \<Rightarrow> string" where
  "ui_info colour msg = ''  '' @ ui_dim colour middle_dot @ ''  '' @ ui_dim colour msg"

section \<open>Properties\<close>

text \<open>A build that succeeds ran everything in the order the embedding needs: the whole frontend build, when
  the project has one, then the generation of the views, and last the Go compiler, which embeds what the
  frontend build left.  The compiler is run with the flags of a release unless debugging was asked for.\<close>

theorem build_order:
  assumes "build_cmd fe proc mkdir windows absolute wd (Inr p) output debug fs = r" "br_error r = None"
  shows "\<exists>dest cF. br_cmds r = cF @ (if mf_Templ (snd p) then [templ_args] else [])
      @ [''go'' # build_args (snd p) \<lparr>bo_Output = dest, bo_Release = \<not> debug, bo_Tags = []\<rparr>]
    \<and> (if mf_Vite (snd p)
       then \<exists>fs1 out. frontend_Build fe (fst p @ [mf_Frontend (snd p)]) (mf_Frontend (snd p)) fs = (None, fs1, out, cF) else cF = [])"
proof -
  obtain dest where r: "br_error (run_build [step_frontend fe p, step_templ proc p,
        step_compile proc mkdir p \<lparr>bo_Output = dest, bo_Release = \<not> debug, bo_Tags = []\<rparr>] fs) = None"
      "br_cmds r = br_cmds (run_build [step_frontend fe p, step_templ proc p,
        step_compile proc mkdir p \<lparr>bo_Output = dest, bo_Release = \<not> debug, bo_Tags = []\<rparr>] fs)"
    using assms by (auto simp: build_cmd_def Let_def split: sum.splits if_splits)
  obtain e1 fs1 o1 c1 where s1: "step_frontend fe p fs = (e1, fs1, o1, c1)" by (metis prod_cases4)
  obtain e2 fs2 o2 c2 where s2: "step_templ proc p fs1 = (e2, fs2, o2, c2)" by (metis prod_cases4)
  obtain e3 fs3 o3 c3 where s3: "step_compile proc mkdir p \<lparr>bo_Output = dest, bo_Release = \<not> debug, bo_Tags = []\<rparr> fs2 = (e3, fs3, o3, c3)"
    by (metis prod_cases4)
  have ok: "e1 = None" "e2 = None" "e3 = None" using r(1) s1 s2 s3 by (auto simp: Let_def split: option.splits)
  then have "br_cmds r = c1 @ c2 @ c3" using r(2) s1 s2 s3 by (simp add: Let_def)
  moreover have "c2 = (if mf_Templ (snd p) then [templ_args] else [])"
    using s2 by (auto simp: step_templ_def split: if_splits prod.splits)
  moreover have "c3 = [''go'' # build_args (snd p) \<lparr>bo_Output = dest, bo_Release = \<not> debug, bo_Tags = []\<rparr>]"
    using s3 ok by (auto simp: step_compile_def tool_Build_def split: option.splits prod.splits)
  moreover have "if mf_Vite (snd p)
       then \<exists>fs1 out. frontend_Build fe (fst p @ [mf_Frontend (snd p)]) (mf_Frontend (snd p)) fs = (None, fs1, out, c1) else c1 = []"
    using s1 ok by (auto simp: step_frontend_def frontend_Enabled_def split: if_splits prod.splits)
  ultimately show ?thesis by blast
qed

theorem build_order_witness:
  "\<exists>dest. br_cmds (build_cmd sample_frontend (\<lambda>_ _ w. (([], None), w)) None False (\<lambda>_. Inl []) None (Inr ([''blog''], sample_manifest ''sqlite'')) [] False fmempty)
     = [''go'' # build_args (sample_manifest ''sqlite'') \<lparr>bo_Output = dest, bo_Release = True, bo_Tags = []\<rparr>]"
proof -
  let ?r = "build_cmd sample_frontend (\<lambda>_ _ w. (([], None), w)) None False (\<lambda>_. Inl []) None (Inr ([''blog''], sample_manifest ''sqlite'')) [] False fmempty"
  have "br_error ?r = None"
    by (simp add: build_cmd_def Let_def step_frontend_def step_templ_def step_compile_def frontend_Enabled_def sample_manifest_def tool_Build_def tool_Run_def)
  from build_order [OF refl this] show ?thesis by (auto simp: sample_manifest_def)
qed

text \<open>A command that is passed on to the application reports the application's own exit status.  The
  binary is run only after the services it connects to were started without an error and the build
  succeeded, with exactly the arguments that were given; when it is not run the status is a failure.\<close>

theorem forward_status:
  assumes "forward m windows proc mkdir binary cp name args fs = r"
  shows "case xr_ran r of
      None \<Rightarrow> xr_status r = 1 \<and> xr_error r \<noteq> None
    | Some (bin, argv) \<Rightarrow>
        argv = name # args \<and> xr_status r = binary_status (binary bin argv)
        \<and> (\<exists>p. cp = Inr p \<and> sv_error (ensureServices m p False) = None \<and> bin = path_string (DevBinaryPath windows (fst p) (snd p)))"
  using assms by (auto simp: forward_def runBinary_def refuse_def Let_def split: sum.splits option.splits prod.splits)

theorem forward_status_witness:
  "xr_status (forward (sample_machine\<lparr>m_docker := False\<rparr>) False (\<lambda>_ _ w. (([], None), w)) None (\<lambda>_ _. Exited 3)
     (Inr ([''blog''], sample_manifest ''postgres'')) ''migrate'' [] fmempty) = 3"
proof -
  let ?m = "sample_machine\<lparr>m_docker := False\<rparr>"
  let ?r = "forward ?m False (\<lambda>_ _ w. (([], None), w)) None (\<lambda>_ _. Exited 3) (Inr ([''blog''], sample_manifest ''postgres'')) ''migrate'' [] fmempty"
  have "sv_error (ensureServices ?m ([''blog''], sample_manifest ''postgres'') False) = None"
    by (simp add: ensureServices_def split: option.split)
  then have "xr_ran ?r \<noteq> None"
    by (simp add: forward_def runBinary_def tool_Templ_def tool_Build_def tool_Run_def sample_manifest_def Let_def)
  then show ?thesis using forward_status [OF refl, where m = ?m and windows = False and proc = "\<lambda>_ _ w. (([], None), w)" and mkdir = None
      and binary = "\<lambda>_ _. Exited 3" and cp = "Inr ([''blog''], sample_manifest ''postgres'')" and name = "''migrate''" and args = "[]" and fs = fmempty]
    by (auto simp: binary_status_def split: option.splits prod.splits)
qed

text \<open>The development server is put together consistently: the application is told to listen on the
  address that was resolved and shown, it knows that it is watched, and it is told the address of Vite
  exactly when Vite was started for it, which is when the project has a frontend and it was not declined.
  None of this happens when the services could not be started.\<close>

theorem dev_cmd_consistent:
  assumes "dev_cmd m fe bindable viteErr probe fromEnv colour version status df cp args fs = Inr (r, vite)"
  shows "\<exists>p. cp = Inr p \<and> sv_error (ensureServices m p (df_full df \<or> args = [''full''])) = None
    \<and> resolveDevAddr probe fromEnv (df_addr df) (df_strictPort df) = Inr (rn_Addr r)
    \<and> rn_Args r = [''serve'', ''-addr'', rn_Addr r] \<and> ''RYLA_DEV=1'' \<in> set (rn_Env r)
    \<and> (vite \<noteq> None \<longleftrightarrow> mf_Vite (snd p) \<and> \<not> df_noVite df)
    \<and> (\<forall>u. DevURLEnv @ ''='' @ u \<in> set (rn_Env r) \<longleftrightarrow> (\<exists>d. vite = Some d \<and> dev_URL d = u))"
proof -
  have args: "onlyFull args = None" using assms by (auto simp: dev_cmd_def split: option.splits)
  then have "length args = 1 \<longleftrightarrow> args = [''full'']" by (auto simp: onlyFull_def split: if_splits)
  moreover have "DevURLEnv @ ''='' @ u \<noteq> ''LOG_FORMAT=console''" "DevURLEnv @ ''='' @ u \<noteq> ''RYLA_DEV=1''"
    "DevURLEnv @ ''='' @ u \<noteq> ''FORCE_COLOR=1''" for u
    by (simp_all add: DevURLEnv_def)
  ultimately show ?thesis
    using assms args
    by (auto simp: dev_cmd_def Let_def frontend_Enabled_def split: option.splits sum.splits if_splits)
qed

theorem dev_cmd_consistent_witness:
  "\<exists>r. dev_cmd (sample_machine\<lparr>m_docker := False\<rparr>) sample_frontend (\<lambda>_. True) None (\<lambda>_. Free) [] False ''v1'' \<lparr>us_CLI = [], us_Latest = [], us_Framework = [], us_Project = [],
        us_CLIOutdated = False, us_FrameworkOutdated = False, us_Development = False\<rparr>
      \<lparr>df_addr = [], df_debounce = 0, df_strictPort = False, df_noVite = False, df_full = False, df_noColor = False\<rparr>
      (Inr ([''blog''], sample_manifest ''sqlite'')) [] fmempty = Inr (r, None)
    \<and> rn_Args r = [''serve'', ''-addr'', '':8080'']"
proof -
  let ?m = "sample_machine\<lparr>m_docker := False\<rparr>"
  let ?s = "\<lparr>us_CLI = [], us_Latest = [], us_Framework = [], us_Project = [],
        us_CLIOutdated = False, us_FrameworkOutdated = False, us_Development = False\<rparr>"
  let ?df = "\<lparr>df_addr = [], df_debounce = 0, df_strictPort = False, df_noVite = False, df_full = False, df_noColor = False\<rparr>"
  let ?run = "dev_cmd ?m sample_frontend (\<lambda>_. True) None (\<lambda>_. Free) [] False ''v1'' ?s ?df (Inr ([''blog''], sample_manifest ''sqlite'')) [] fmempty"
  have addr: "resolveDevAddr (\<lambda>_. Free) [] [] False = Inr '':8080''" by code_simp
  have sv: "sv_error (ensureServices ?m ([''blog''], sample_manifest ''sqlite'') False) = None"
    by (simp add: ensureServices_def split: option.split)
  obtain r where r: "?run = Inr (r, None)"
    using addr sv by (simp add: dev_cmd_def onlyFull_def frontend_Enabled_def sample_manifest_def Let_def)
  from dev_cmd_consistent [OF r] addr r show ?thesis by auto
qed

text \<open>An address that listens everywhere is shown as one that can be opened.\<close>

lemma browsable_wildcard:
  "split_addr addr = Some (host, port) \<Longrightarrow> host \<in> {'''', ''0.0.0.0'', ''::''} \<Longrightarrow> fst (browsableURLs ifaces addr) = ''http://localhost:'' @ port"
  by (auto simp: browsableURLs_def)

lemma outbound_not_loopback:
  "outbound_loop ifs \<noteq> [] \<Longrightarrow> \<exists>ads. (True, False, Some ads) \<in> set ifs \<and> (Some (outbound_loop ifs), False, False) \<in> set ads"
proof (induction ifs rule: outbound_loop.induct)
  case (2 up lo addrs ifs)
  have "(Some (first_ip4 ads), False, False) \<in> set ads" if "first_ip4 ads \<noteq> []" for ads
    using that by (induction ads rule: first_ip4.induct) (auto split: option.splits if_splits)
  then show ?case using 2 by (auto split: option.splits if_splits)
qed simp

end
