(* ===== verification/App.thy ===== *)
theory App
  imports Prelude
begin

text \<open>
  The package \<^verbatim>\<open>app\<close>: the commands of an application's binary (\<^verbatim>\<open>command.go\<close>) and the server
  that shuts down gracefully (\<^verbatim>\<open>server.go\<close>).

  The server is a step relation.  Its environment accepts and finishes requests, cancels the context,
  lets time pass and may make serving fail.  The context of every request is derived from the one the
  server was started with, so it is cancelled together with it.
\<close>

section \<open>Commands\<close>

record 'w Command =
  cmd_Name :: string
  cmd_Usage :: string
  cmd_Run :: "string list \<Rightarrow> 'w \<Rightarrow> string option \<times> 'w"

text \<open>The base name of the program: what follows the last slash or backslash.\<close>

definition baseName :: "string \<Rightarrow> string" where
  "baseName p = rev (takeWhile (\<lambda>c. c \<noteq> CHR ''/'' \<and> c \<noteq> CHR 0x5C) (rev p))"

text \<open>Two columns of the library's \<^verbatim>\<open>tabwriter\<close>: the cells of the first are padded to the widest and three
  blanks more.\<close>

definition column_width :: "(string \<times> string) list \<Rightarrow> nat" where
  "column_width rows = Max (insert 0 (set (map (\<lambda>r. length (fst r)) rows))) + 3"

definition tab_table :: "(string \<times> string) list \<Rightarrow> string list" where
  "tab_table rows =
     map (\<lambda>r. fst r @ replicate (column_width rows - length (fst r)) (CHR '' '') @ snd r) rows"

definition program_name :: "string list \<Rightarrow> string" where
  "program_name argv = (case argv of [] \<Rightarrow> ''app'' | a # _ \<Rightarrow> trim_suffix (baseName a) ''.exe'')"

definition printUsage :: "'w Command list \<Rightarrow> string list \<Rightarrow> string list" where
  "printUsage cs argv =
     [''Usage: '' @ program_name argv @ '' <command> [flags]'', [], ''Commands:'']
       @ tab_table (map (\<lambda>c. (''  '' @ cmd_Name c, cmd_Usage c)) (sort_key cmd_Name cs) @ [(''  help'', ''Show this message'')])"

datatype command_error = Err_UnknownCommand string | Err_Command string

text \<open>\<^verbatim>\<open>Execute\<close>: the error, what is printed on the standard output and on the standard error.\<close>

definition commands_Execute ::
  "'w Command list \<Rightarrow> string list \<Rightarrow> 'w \<Rightarrow> (command_error option \<times> string list \<times> string list) \<times> 'w" where
  "commands_Execute cs argv w =
     (case tl argv of
        [] \<Rightarrow> ((None, printUsage cs argv, []), w)
      | name # args \<Rightarrow>
          if name \<in> {''help'', ''-h'', ''--help''} then ((None, printUsage cs argv, []), w)
          else (case find (\<lambda>c. cmd_Name c = name) cs of
                  None \<Rightarrow> ((Some (Err_UnknownCommand name), [], printUsage cs argv), w)
                | Some c \<Rightarrow> (case cmd_Run c args w of (e, w') \<Rightarrow> ((map_option Err_Command e, [], []), w'))))"

text \<open>\<^verbatim>\<open>Run\<close>: the exit status.\<close>

definition commands_Run :: "'w Command list \<Rightarrow> string list \<Rightarrow> 'w \<Rightarrow> nat \<times> 'w" where
  "commands_Run cs argv w = (case commands_Execute cs argv w of ((e, _, _), w') \<Rightarrow> (if e = None then 0 else 1, w'))"

section \<open>The server\<close>

record Server =
  srv_Addr :: string
  srv_ReadHeaderTimeout :: duration
  srv_ReadTimeout :: duration
  srv_WriteTimeout :: duration
  srv_IdleTimeout :: duration
  srv_ShutdownTimeout :: duration

definition orDefault :: "duration \<Rightarrow> duration \<Rightarrow> duration" where
  "orDefault d def = (if d \<le> 0 then def else d)"

definition shutdown_timeout :: "Server \<Rightarrow> duration" where
  "shutdown_timeout s = orDefault (srv_ShutdownTimeout s) (15 * Second)"

text \<open>The limits of the library's server.\<close>

definition http_limits :: "Server \<Rightarrow> duration \<times> duration \<times> duration \<times> duration" where
  "http_limits s =
     (orDefault (srv_ReadHeaderTimeout s) (10 * Second), orDefault (srv_ReadTimeout s) (30 * Second),
      orDefault (srv_WriteTimeout s) (30 * Second), orDefault (srv_IdleTimeout s) (120 * Second))"

datatype phase = Serving | Draining time | Returned "string option"

record server_state =
  ss_phase :: phase
  ss_cancelled :: bool
  ss_now :: time
  ss_since :: time
  ss_inflight :: "nat list"
  ss_finished :: "nat list"
  ss_cut :: "nat list"
  ss_log :: "string list"

text \<open>Starting: binding the address comes before the line that announces it.\<close>

definition server_start :: "Server \<Rightarrow> string option \<Rightarrow> time \<Rightarrow> (string, server_state) result" where
  "server_start s bind_error now =
     (case bind_error of
        Some e \<Rightarrow> Inl (''listen on '' @ srv_Addr s @ '': '' @ e)
      | None \<Rightarrow> Inr \<lparr>ss_phase = Serving, ss_cancelled = False, ss_now = now, ss_since = now, ss_inflight = [], ss_finished = [],
                     ss_cut = [], ss_log = [''server listening'']\<rparr>)"

text \<open>A request sees a cancelled context as soon as the context of the server is.\<close>

definition request_cancelled :: "server_state \<Rightarrow> bool" where
  "request_cancelled st = ss_cancelled st"

inductive server_step :: "Server \<Rightarrow> server_state \<Rightarrow> server_state \<Rightarrow> bool" for s :: Server where
  accept: "ss_phase st = Serving \<Longrightarrow> r \<notin> set (ss_inflight st @ ss_finished st @ ss_cut st) \<Longrightarrow>
     server_step s st (st\<lparr>ss_inflight := ss_inflight st @ [r]\<rparr>)"
| finish: "r \<in> set (ss_inflight st) \<Longrightarrow>
     server_step s st (st\<lparr>ss_inflight := removeAll r (ss_inflight st), ss_finished := ss_finished st @ [r]\<rparr>)"
| cancel: "\<not> ss_cancelled st \<Longrightarrow> server_step s st (st\<lparr>ss_cancelled := True\<rparr>)"
| serve_error: "ss_phase st = Serving \<Longrightarrow> server_step s st (st\<lparr>ss_phase := Returned (Some e)\<rparr>)"
| shut_down: "ss_phase st = Serving \<Longrightarrow> ss_cancelled st \<Longrightarrow>
     server_step s st (st\<lparr>ss_phase := Draining (ss_now st + shutdown_timeout s), ss_since := ss_now st,
       ss_log := ss_log st @ [''server shutting down'']\<rparr>)"
| drained: "ss_phase st = Draining d \<Longrightarrow> ss_inflight st = [] \<Longrightarrow>
     server_step s st (st\<lparr>ss_phase := Returned None, ss_log := ss_log st @ [''server stopped'']\<rparr>)"
| timed_out: "ss_phase st = Draining d \<Longrightarrow> ss_now st = d \<Longrightarrow> ss_inflight st \<noteq> [] \<Longrightarrow>
     server_step s st (st\<lparr>ss_phase := Returned e, ss_inflight := [], ss_cut := ss_inflight st,
       ss_log := ss_log st @ [''graceful shutdown timed out, forcing close'']\<rparr>)"
| tick: "t > ss_now st \<Longrightarrow> (\<forall>d. ss_phase st = Draining d \<longrightarrow> t \<le> d) \<Longrightarrow> \<not> (\<exists>e. ss_phase st = Returned e) \<Longrightarrow>
     server_step s st (st\<lparr>ss_now := t\<rparr>)"

inductive server_reach :: "Server \<Rightarrow> server_state \<Rightarrow> bool" for s :: Server where
  start: "server_start s None now = Inr st \<Longrightarrow> server_reach s st"
| step: "server_reach s st \<Longrightarrow> server_step s st st' \<Longrightarrow> server_reach s st'"

inductive_cases server_stepE: "server_step s st st'"

section \<open>Properties\<close>

lemma shutdown_timeout_pos: "shutdown_timeout s > 0"
  by (simp add: shutdown_timeout_def orDefault_def Second_def)

definition server_inv :: "Server \<Rightarrow> server_state \<Rightarrow> bool" where
  "server_inv s st =
     ((\<forall>d. ss_phase st = Draining d \<longrightarrow> ss_cancelled st \<and> d = ss_since st + shutdown_timeout s \<and> ss_since st \<le> ss_now st \<and> ss_now st \<le> d)
      \<and> (ss_cut st \<noteq> [] \<longrightarrow> (\<exists>e. ss_phase st = Returned e) \<and> ss_now st = ss_since st + shutdown_timeout s)
      \<and> distinct (ss_inflight st @ ss_finished st @ ss_cut st))"

lemma server_inv_start: "server_start s None now = Inr st \<Longrightarrow> server_inv s st"
  by (auto simp: server_start_def server_inv_def)

lemma server_inv_step: "server_step s st st' \<Longrightarrow> server_inv s st \<Longrightarrow> server_inv s st'"
proof (induction rule: server_step.induct)
  case (finish r st)
  then show ?case by (auto simp: server_inv_def distinct_removeAll)
next
  case (shut_down st)
  then show ?case using shutdown_timeout_pos [of s] by (auto simp: server_inv_def)
qed (auto simp: server_inv_def)

lemma server_reach_inv: "server_reach s st \<Longrightarrow> server_inv s st"
  by (induction rule: server_reach.induct) (auto intro: server_inv_start server_inv_step)


text \<open>What the comments promise to the requests is not what they get: every request that is in flight when
  the server starts to drain has a cancelled context from then on, as the base context of the server is
  the one whose cancellation starts the shutdown.\<close>

theorem server_cancels_inflight:
  assumes "server_reach s st" "ss_phase st = Draining d"
  shows "request_cancelled st"
  using server_reach_inv [OF assms(1)] assms(2) by (auto simp: server_inv_def request_cancelled_def)

definition sample_server :: Server where
  "sample_server = \<lparr>srv_Addr = '':8080'', srv_ReadHeaderTimeout = 0, srv_ReadTimeout = 0, srv_WriteTimeout = 0, srv_IdleTimeout = 0,
     srv_ShutdownTimeout = 0\<rparr>"

definition sample_drain :: server_state where
  "sample_drain = \<lparr>ss_phase = Draining (15 * Second), ss_cancelled = True, ss_now = 0, ss_since = 0, ss_inflight = [1], ss_finished = [],
     ss_cut = [], ss_log = [''server listening'', ''server shutting down'']\<rparr>"

lemma sample_drain_reach: "server_reach sample_server sample_drain"
proof -
  let ?a = "\<lparr>ss_phase = Serving, ss_cancelled = False, ss_now = 0, ss_since = 0, ss_inflight = [], ss_finished = [],
     ss_cut = [], ss_log = [''server listening'']\<rparr>"
  let ?b = "?a\<lparr>ss_inflight := [1]\<rparr>"
  let ?c = "?b\<lparr>ss_cancelled := True\<rparr>"
  have "server_reach sample_server ?a" by (rule server_reach.start [of _ 0]) (simp add: server_start_def)
  moreover have "server_step sample_server ?a ?b" using accept [of ?a 1 sample_server] by simp
  moreover have "server_step sample_server ?b ?c" using cancel [of ?b sample_server] by simp
  moreover have "server_step sample_server ?c sample_drain"
    using shut_down [of ?c sample_server] by (simp add: sample_drain_def sample_server_def shutdown_timeout_def orDefault_def)
  ultimately show ?thesis by (meson server_reach.step)
qed


theorem server_cancels_inflight_witness: "ss_inflight sample_drain = [1] \<and> request_cancelled sample_drain"
  using server_cancels_inflight [OF sample_drain_reach, of "15 * Second"] by (simp add: sample_drain_def)

lemma column_width_gt:
  assumes "r \<in> set rows"
  shows "length (fst r) < column_width rows"
proof -
  have "length (fst r) \<le> Max (insert 0 (set (map (\<lambda>r. length (fst r)) rows)))"
    by (rule Max_ge) (use assms in auto)
  then show ?thesis unfolding column_width_def by linarith
qed

lemma tab_table_aligned:
  assumes "(name, usage) \<in> set rows"
  shows "\<exists>pad. length (name @ pad) = column_width rows \<and> name @ pad @ usage \<in> set (tab_table rows)"
  using column_width_gt [OF assms] assms
  by (intro exI [of _ "replicate (column_width rows - length name) (CHR '' '')"]) (force simp: tab_table_def)

text \<open>The binary runs the command that was asked for: with distinct names that is the one of that name with
  the remaining arguments, its failure is the exit status, and an unknown name fails without running
  anything.  The list of commands shows every command, its description behind a column that is as wide
  for all of them.\<close>

theorem commands_dispatch:
  assumes "distinct (map cmd_Name cs)" "name \<notin> {''help'', ''-h'', ''--help''}"
  shows "(\<forall>c \<in> set cs. cmd_Name c = name \<longrightarrow>
        commands_Run cs (prog # name # args) w = (if fst (cmd_Run c args w) = None then 0 else 1, snd (cmd_Run c args w)))
    \<and> (name \<notin> cmd_Name ` set cs \<longrightarrow> commands_Run cs (prog # name # args) w = (1, w))
    \<and> (\<exists>w. \<forall>c \<in> set cs. \<exists>pad. length (''  '' @ cmd_Name c @ pad) = w
         \<and> ''  '' @ cmd_Name c @ pad @ cmd_Usage c \<in> set (printUsage cs (prog # name # args)))"
proof (intro conjI ballI impI)
  fix c assume c: "c \<in> set cs" "cmd_Name c = name"
  have "find (\<lambda>c. cmd_Name c = name) cs = Some c"
    using assms(1) c by (induction cs) (auto simp: image_iff)
  then show "commands_Run cs (prog # name # args) w = (if fst (cmd_Run c args w) = None then 0 else 1, snd (cmd_Run c args w))"
    using assms(2) by (auto simp: commands_Run_def commands_Execute_def split: prod.splits)
next
  assume "name \<notin> cmd_Name ` set cs"
  then have "find (\<lambda>c. cmd_Name c = name) cs = None" by (auto simp: find_None_iff)
  then show "commands_Run cs (prog # name # args) w = (1, w)"
    using assms(2) by (auto simp: commands_Run_def commands_Execute_def)
next
  let ?rows = "map (\<lambda>c. (''  '' @ cmd_Name c, cmd_Usage c)) (sort_key cmd_Name cs) @ [(''  help'', ''Show this message'')]"
  have "\<exists>pad. length (''  '' @ cmd_Name c @ pad) = column_width ?rows
      \<and> ''  '' @ cmd_Name c @ pad @ cmd_Usage c \<in> set (printUsage cs (prog # name # args))" if "c \<in> set cs" for c
  proof -
    have "(''  '' @ cmd_Name c, cmd_Usage c) \<in> set ?rows" using that by simp
    from tab_table_aligned [OF this] obtain pad where p: "length ((''  '' @ cmd_Name c) @ pad) = column_width ?rows"
        "(''  '' @ cmd_Name c) @ pad @ cmd_Usage c \<in> set (tab_table ?rows)" by blast
    have "(''  '' @ cmd_Name c) @ pad @ cmd_Usage c \<in> set (printUsage cs (prog # name # args))"
      unfolding printUsage_def set_append using p(2) by (rule UnI2)
    then show ?thesis using p(1) by (intro exI [of _ pad]) simp
  qed
  then show "\<exists>w. \<forall>c \<in> set cs. \<exists>pad. length (''  '' @ cmd_Name c @ pad) = w
      \<and> ''  '' @ cmd_Name c @ pad @ cmd_Usage c \<in> set (printUsage cs (prog # name # args))" by blast
qed

theorem commands_dispatch_witness:
  "commands_Run [\<lparr>cmd_Name = ''serve'', cmd_Usage = ''Start'', cmd_Run = (\<lambda>args w. (None, w @ args))\<rparr>] [''app'', ''serve'', ''x''] [] = (0, [''x''])"
proof -
  let ?c = "\<lparr>cmd_Name = ''serve'', cmd_Usage = ''Start'', cmd_Run = (\<lambda>args w. (None, w @ args))\<rparr> :: string list Command"
  have "''serve'' \<notin> {''help'', ''-h'', ''--help''}" by simp
  from commands_dispatch [OF _ this, of "[?c]" "''app''" "[''x'']" "[]"] show ?thesis by simp
qed

end
