(* ===== verification/Mongo.thy ===== *)
theory Mongo
  imports Services "HOL-Library.Product_Lexorder"
begin

text \<open>
  The package \<^verbatim>\<open>mongo\<close>: declared indexes and their application (\<^verbatim>\<open>index.go\<close>), typed collections
  (\<^verbatim>\<open>collection.go\<close>) and opening a connection (\<^verbatim>\<open>mongo.go\<close>).

  The server is third-party code.  For the indexes it is an argument, the creation of indexes on one
  collection, which may fail.  A collection is the list of its documents in natural order, an operation
  works on the documents that match a filter, and every operation may fail with the driver's error.
\<close>

section \<open>Indexes\<close>

record 'f Index =
  ix_Collection :: string
  ix_Keys :: "(string \<times> string) list"
  ix_Name :: string
  ix_Unique :: bool
  ix_Sparse :: bool
  ix_TTL :: duration
  ix_Partial :: "'f option"

datatype mongo_panic = No_Collection | No_Keys string

text \<open>\<^verbatim>\<open>Register\<close> panics at the first bad index, after the ones before it were registered.\<close>

fun mongo_Register :: "'f Index list \<Rightarrow> 'f Index list \<Rightarrow> mongo_panic option \<times> 'f Index list" where
  "mongo_Register [] reg = (None, reg)"
| "mongo_Register (i # ixs) reg =
     (if ix_Collection i = [] then (Some No_Collection, reg)
      else if ix_Keys i = [] then (Some (No_Keys (ix_Collection i)), reg)
      else mongo_Register ixs (reg @ [i]))"

fun describe_keys :: "(string \<times> string) list \<Rightarrow> string \<Rightarrow> string" where
  "describe_keys [] out = out"
| "describe_keys ((k, v) # ks) out = describe_keys ks ((if out \<noteq> [] then out @ '','' else out) @ k @ '':'' @ v)"

definition ix_describe :: "'f Index \<Rightarrow> string" where
  "ix_describe i = (if ix_Name i \<noteq> [] then ix_Name i else describe_keys (ix_Keys i) [])"

definition mongo_Registered :: "'f Index list \<Rightarrow> 'f Index list" where
  "mongo_Registered reg = sort_key (\<lambda>i. (ix_Collection i, ix_describe i)) reg"

record 'f IndexModel =
  im_Keys :: "(string \<times> string) list"
  im_Name :: "string option"
  im_Unique :: bool
  im_Sparse :: bool
  im_ExpireAfterSeconds :: "int option"
  im_Partial :: "'f option"

text \<open>The seconds of a duration are a floating-point number in the code; whole seconds, the case that matters, are
  exact.  A conversion to 32 bits: what it yields outside the range depends on the implementation and is an
  argument.\<close>

definition to_int32 :: "(int \<Rightarrow> int) \<Rightarrow> int \<Rightarrow> int" where
  "to_int32 out_of_range x = (if - (2 ^ 31) \<le> x \<and> x < 2 ^ 31 then x else out_of_range x)"

definition ix_model :: "(int \<Rightarrow> int) \<Rightarrow> 'f Index \<Rightarrow> 'f IndexModel" where
  "ix_model conv i =
     \<lparr>im_Keys = ix_Keys i, im_Name = (if ix_Name i \<noteq> [] then Some (ix_Name i) else None), im_Unique = ix_Unique i,
      im_Sparse = ix_Sparse i,
      im_ExpireAfterSeconds = (if ix_TTL i > 0 then Some (to_int32 conv (ix_TTL i div Second)) else None),
      im_Partial = ix_Partial i\<rparr>"

section \<open>Applying them\<close>

text \<open>The models of each collection, and the collections in order.\<close>

definition models_of :: "(int \<Rightarrow> int) \<Rightarrow> 'f Index list \<Rightarrow> string \<Rightarrow> 'f IndexModel list" where
  "models_of conv reg c = map (ix_model conv) (filter (\<lambda>i. ix_Collection i = c) (mongo_Registered reg))"

definition collections_of :: "'f Index list \<Rightarrow> string list" where
  "collections_of reg = sort (remdups (map ix_Collection (mongo_Registered reg)))"

fun sync_loop ::
  "(string \<Rightarrow> 'f IndexModel list \<Rightarrow> 'c \<Rightarrow> (string, 'c) result) \<Rightarrow> (string \<Rightarrow> 'f IndexModel list) \<Rightarrow> string list \<Rightarrow> (string \<Rightarrow> 'c)
     \<Rightarrow> (string \<times> string) option \<times> (string \<Rightarrow> 'c)" where
  "sync_loop create models [] db = (None, db)"
| "sync_loop create models (c # cs) db =
     (case create c (models c) (db c) of
        Inl e \<Rightarrow> (Some (c, e), db)
      | Inr x \<Rightarrow> sync_loop create models cs (db(c := x)))"

definition syncer_Sync ::
  "(int \<Rightarrow> int) \<Rightarrow> (string \<Rightarrow> 'f IndexModel list \<Rightarrow> 'c \<Rightarrow> (string, 'c) result) \<Rightarrow> 'f Index list \<Rightarrow> (string \<Rightarrow> 'c)
     \<Rightarrow> (string \<times> string) option \<times> (string \<Rightarrow> 'c)" where
  "syncer_Sync conv create reg db =
     (if mongo_Registered reg = [] then (None, db) else sync_loop create (models_of conv reg) (collections_of reg) db)"

record IndexStatus =
  is_Collection :: string
  is_Name :: string
  is_Keys :: string
  is_Declared :: bool

text \<open>\<^verbatim>\<open>Status\<close>: the names of the collections of the server, or the failure to list them, and the name and the
  keys of the indexes of each, or the failure to read them.\<close>

definition status_of :: "(string \<Rightarrow> bool) \<Rightarrow> string \<Rightarrow> string \<times> string \<Rightarrow> IndexStatus" where
  "status_of declared c spec =
     (case spec of (n, k) \<Rightarrow>
        \<lparr>is_Collection = c, is_Name = n, is_Keys = k, is_Declared = (n = ''_id_'' \<or> declared (c @ ''/'' @ n))\<rparr>)"

fun status_loop ::
  "(string \<Rightarrow> bool) \<Rightarrow> (string \<Rightarrow> (string, (string \<times> string) list) result) \<Rightarrow> string list \<Rightarrow> (string, IndexStatus list) result" where
  "status_loop declared indexes [] = Inr []"
| "status_loop declared indexes (c # cs) =
     (case indexes c of
        Inl e \<Rightarrow> Inl e
      | Inr specs \<Rightarrow>
          (case status_loop declared indexes cs of
             Inl e \<Rightarrow> Inl e
           | Inr out \<Rightarrow> Inr (map (status_of declared c) specs @ out)))"

definition syncer_Status ::
  "'f Index list \<Rightarrow> (string, string list) result \<Rightarrow> (string \<Rightarrow> (string, (string \<times> string) list) result)
     \<Rightarrow> (string, IndexStatus list) result" where
  "syncer_Status reg collections indexes =
     (let declared = (\<lambda>s. s \<in> set (map (\<lambda>i. ix_Collection i @ ''/'' @ ix_describe i) (mongo_Registered reg)))
      in case collections of Inl e \<Rightarrow> Inl e | Inr cs \<Rightarrow> status_loop declared indexes (sort cs))"

section \<open>Collections\<close>

text \<open>Errors of the driver: the codes of the rejected writes, and errors that wrap others.\<close>

datatype driver_error = WriteException "int list" | BulkWriteException "int list" | Wrapped string driver_error | Other_Error string

datatype mongo_error = ErrNotFound | Err_Driver driver_error

text \<open>The driver may fail before it does anything.\<close>

definition guarded :: "driver_error option \<Rightarrow> 'a \<Rightarrow> (mongo_error, 'a) result" where
  "guarded fault a = (case fault of Some e \<Rightarrow> Inl (Err_Driver e) | None \<Rightarrow> Inr a)"

type_synonym ('i, 'd) docs = "('i \<times> 'd) list"

text \<open>\<^verbatim>\<open>Insert\<close>: the id the server gives the document, or one of the document that is no object id, for
  which the zero id is returned; \<open>dup\<close> is the rejection by a unique index.\<close>

definition mc_Insert ::
  "driver_error option \<Rightarrow> (('i, 'd) docs \<Rightarrow> 'i \<times> 'd \<Rightarrow> driver_error option) \<Rightarrow> 'i \<times> bool \<Rightarrow> 'i \<Rightarrow> 'd \<Rightarrow> ('i, 'd) docs
     \<Rightarrow> (mongo_error, 'i) result \<times> ('i, 'd) docs" where
  "mc_Insert fault dup newid nil_id d xs =
     (case fault of
        Some e \<Rightarrow> (Inl (Err_Driver e), xs)
      | None \<Rightarrow>
          (case dup xs (fst newid, d) of
             Some e \<Rightarrow> (Inl (Err_Driver e), xs)
           | None \<Rightarrow> (Inr (if snd newid then fst newid else nil_id), xs @ [(fst newid, d)])))"

fun insert_docs :: "(('i, 'd) docs \<Rightarrow> 'i \<times> 'd \<Rightarrow> driver_error option) \<Rightarrow> ('i \<times> 'd) list \<Rightarrow> ('i, 'd) docs \<Rightarrow> mongo_error option \<times> ('i, 'd) docs" where
  "insert_docs dup [] xs = (None, xs)"
| "insert_docs dup (x # new) xs =
     (case dup xs x of Some e \<Rightarrow> (Some (Err_Driver e), xs) | None \<Rightarrow> insert_docs dup new (xs @ [x]))"

definition mc_InsertMany ::
  "driver_error option \<Rightarrow> (('i, 'd) docs \<Rightarrow> 'i \<times> 'd \<Rightarrow> driver_error option) \<Rightarrow> ('i \<times> 'd) list \<Rightarrow> ('i, 'd) docs \<Rightarrow> mongo_error option \<times> ('i, 'd) docs" where
  "mc_InsertMany fault dup new xs =
     (if new = [] then (None, xs)
      else case fault of Some e \<Rightarrow> (Some (Err_Driver e), xs) | None \<Rightarrow> insert_docs dup new xs)"

definition result_flatten :: "('e, ('e, 'a) result) result \<Rightarrow> ('e, 'a) result" where
  "result_flatten r = (case r of Inl e \<Rightarrow> Inl e | Inr x \<Rightarrow> x)"

definition mc_FindOne :: "driver_error option \<Rightarrow> ('i \<times> 'd \<Rightarrow> bool) \<Rightarrow> ('i, 'd) docs \<Rightarrow> (mongo_error, 'd) result" where
  "mc_FindOne fault filt xs =
     result_flatten (guarded fault (case find filt xs of None \<Rightarrow> Inl ErrNotFound | Some x \<Rightarrow> Inr (snd x)))"

definition mc_FindByID :: "driver_error option \<Rightarrow> 'i \<Rightarrow> ('i, 'd) docs \<Rightarrow> (mongo_error, 'd) result" where
  "mc_FindByID fault i xs = mc_FindOne fault (\<lambda>x. fst x = i) xs"

text \<open>A query of many documents: the sort, a limit and an offset, each left out when it says nothing, and the
  projection, a function on documents.\<close>

record ('i, 'd) Query =
  q_Sort :: "(('i \<times> 'd) list \<Rightarrow> ('i \<times> 'd) list) option"
  q_Limit :: int
  q_Skip :: int
  q_Projection :: "('d \<Rightarrow> 'd) option"

definition apply_query :: "('i, 'd) Query \<Rightarrow> ('i, 'd) docs \<Rightarrow> 'd list" where
  "apply_query q xs =
     (let sorted = (case q_Sort q of None \<Rightarrow> xs | Some s \<Rightarrow> s xs);
          skipped = (if q_Skip q > 0 then drop (nat (q_Skip q)) sorted else sorted);
          limited = (if q_Limit q > 0 then take (nat (q_Limit q)) skipped else skipped)
      in map (case q_Projection q of None \<Rightarrow> snd | Some p \<Rightarrow> p \<circ> snd) limited)"

definition mc_Find ::
  "driver_error option \<Rightarrow> ('i \<times> 'd \<Rightarrow> bool) \<Rightarrow> ('i, 'd) Query list \<Rightarrow> ('i, 'd) docs \<Rightarrow> (mongo_error, 'd list) result" where
  "mc_Find fault filt qs xs =
     guarded fault (case qs of [] \<Rightarrow> map snd (filter filt xs) | q # _ \<Rightarrow> apply_query q (filter filt xs))"

definition mc_Count :: "driver_error option \<Rightarrow> ('i \<times> 'd \<Rightarrow> bool) \<Rightarrow> ('i, 'd) docs \<Rightarrow> (mongo_error, nat) result" where
  "mc_Count fault filt xs = guarded fault (length (filter filt xs))"

definition mc_Exists :: "driver_error option \<Rightarrow> ('i \<times> 'd \<Rightarrow> bool) \<Rightarrow> ('i, 'd) docs \<Rightarrow> (mongo_error, bool) result" where
  "mc_Exists fault filt xs = guarded fault (find filt xs \<noteq> None)"

text \<open>The driver's single update: the first document that matches, with the number of matched documents.  What an
  update document does to a document is an argument; the identity of a document cannot be changed by one.\<close>

primrec update_first :: "('i \<times> 'd \<Rightarrow> bool) \<Rightarrow> ('d \<Rightarrow> 'd) \<Rightarrow> ('i, 'd) docs \<Rightarrow> nat \<times> ('i, 'd) docs" where
  "update_first filt f [] = (0, [])"
| "update_first filt f (x # xs) =
     (if filt x then (1, (fst x, f (snd x)) # xs) else map_prod id ((#) x) (update_first filt f xs))"

definition mc_Update ::
  "driver_error option \<Rightarrow> ('i \<times> 'd \<Rightarrow> bool) \<Rightarrow> ('d \<Rightarrow> 'd) \<Rightarrow> ('i, 'd) docs \<Rightarrow> (mongo_error, bool) result \<times> ('i, 'd) docs" where
  "mc_Update fault filt f xs =
     (case fault of
        Some e \<Rightarrow> (Inl (Err_Driver e), xs)
      | None \<Rightarrow> (case update_first filt f xs of (matched, ys) \<Rightarrow> (Inr (matched > 0), ys)))"

definition mc_UpdateByID ::
  "driver_error option \<Rightarrow> 'i \<Rightarrow> ('d \<Rightarrow> 'd) \<Rightarrow> ('i, 'd) docs \<Rightarrow> (mongo_error, bool) result \<times> ('i, 'd) docs" where
  "mc_UpdateByID fault i f xs = mc_Update fault (\<lambda>x. fst x = i) f xs"

text \<open>\<^verbatim>\<open>Set\<close> passes an update document with the fields under \<^verbatim>\<open>$set\<close>; \<open>run\<close> is the server's reading of update
  documents.\<close>

definition mc_Set ::
  "(string \<Rightarrow> 'v \<Rightarrow> 'd \<Rightarrow> 'd) \<Rightarrow> driver_error option \<Rightarrow> ('i \<times> 'd \<Rightarrow> bool) \<Rightarrow> 'v \<Rightarrow> ('i, 'd) docs
     \<Rightarrow> (mongo_error, bool) result \<times> ('i, 'd) docs" where
  "mc_Set run fault filt fs xs = mc_Update fault filt (run ''$set'' fs) xs"

text \<open>Operations on many documents may fail on the way, with the documents before that point already done: a
  failure carries how many of the collection's documents were visited.\<close>

definition many_point :: "(driver_error \<times> nat) option \<Rightarrow> 'a list \<Rightarrow> nat" where
  "many_point fault xs = (case fault of None \<Rightarrow> length xs | Some (_, n) \<Rightarrow> n)"

definition mc_UpdateMany ::
  "(driver_error \<times> nat) option \<Rightarrow> ('i \<times> 'd \<Rightarrow> bool) \<Rightarrow> ('d \<Rightarrow> 'd) \<Rightarrow> ('i, 'd) docs
     \<Rightarrow> (mongo_error, nat) result \<times> ('i, 'd) docs" where
  "mc_UpdateMany fault filt f xs =
     (let n = many_point fault xs;
          ys = map (\<lambda>x. if filt x then (fst x, f (snd x)) else x) (take n xs) @ drop n xs
      in (case fault of
            Some (e, _) \<Rightarrow> Inl (Err_Driver e)
          | None \<Rightarrow> Inr (length (filter (\<lambda>x. filt x \<and> f (snd x) \<noteq> snd x) xs)), ys))"

definition mc_Upsert ::
  "driver_error option \<Rightarrow> ('i \<times> 'd \<Rightarrow> bool) \<Rightarrow> ('d \<Rightarrow> 'd) \<Rightarrow> 'i \<times> 'd \<Rightarrow> ('i, 'd) docs \<Rightarrow> mongo_error option \<times> ('i, 'd) docs" where
  "mc_Upsert fault filt f fresh xs =
     (case fault of
        Some e \<Rightarrow> (Some (Err_Driver e), xs)
      | None \<Rightarrow> (case update_first filt f xs of (matched, ys) \<Rightarrow> (None, if matched > 0 then ys else xs @ [fresh])))"

primrec delete_first :: "('i \<times> 'd \<Rightarrow> bool) \<Rightarrow> ('i, 'd) docs \<Rightarrow> nat \<times> ('i, 'd) docs" where
  "delete_first filt [] = (0, [])"
| "delete_first filt (x # xs) = (if filt x then (1, xs) else map_prod id ((#) x) (delete_first filt xs))"

definition mc_Delete ::
  "driver_error option \<Rightarrow> ('i \<times> 'd \<Rightarrow> bool) \<Rightarrow> ('i, 'd) docs \<Rightarrow> (mongo_error, bool) result \<times> ('i, 'd) docs" where
  "mc_Delete fault filt xs =
     (case fault of
        Some e \<Rightarrow> (Inl (Err_Driver e), xs)
      | None \<Rightarrow> (case delete_first filt xs of (deleted, ys) \<Rightarrow> (Inr (deleted > 0), ys)))"

definition mc_DeleteByID ::
  "driver_error option \<Rightarrow> 'i \<Rightarrow> ('i, 'd) docs \<Rightarrow> (mongo_error, bool) result \<times> ('i, 'd) docs" where
  "mc_DeleteByID fault i xs = mc_Delete fault (\<lambda>x. fst x = i) xs"

definition mc_DeleteMany ::
  "(driver_error \<times> nat) option \<Rightarrow> ('i \<times> 'd \<Rightarrow> bool) \<Rightarrow> ('i, 'd) docs \<Rightarrow> (mongo_error, nat) result \<times> ('i, 'd) docs" where
  "mc_DeleteMany fault filt xs =
     (let n = many_point fault xs
      in (case fault of Some (e, _) \<Rightarrow> Inl (Err_Driver e) | None \<Rightarrow> Inr (length (filter filt xs)),
          filter (\<lambda>x. \<not> filt x) (take n xs) @ drop n xs))"

text \<open>\<^verbatim>\<open>errors.As\<close> finds the first error of the type in the chain.\<close>

fun as_WriteException :: "driver_error \<Rightarrow> int list option" where
  "as_WriteException (WriteException cs) = Some cs"
| "as_WriteException (Wrapped _ e) = as_WriteException e"
| "as_WriteException _ = None"

fun as_BulkWriteException :: "driver_error \<Rightarrow> int list option" where
  "as_BulkWriteException (BulkWriteException cs) = Some cs"
| "as_BulkWriteException (Wrapped _ e) = as_BulkWriteException e"
| "as_BulkWriteException _ = None"

definition mongo_IsDuplicate :: "driver_error \<Rightarrow> bool" where
  "mongo_IsDuplicate e =
     (let dup = (\<lambda>r. case r of None \<Rightarrow> False | Some cs \<Rightarrow> list_ex (\<lambda>c. c = 11000) cs)
      in dup (as_WriteException e) \<or> dup (as_BulkWriteException e))"

text \<open>Times of a document: \<open>None\<close> is the zero time.\<close>

record 't Timestamps =
  ts_CreatedAt :: "'t option"
  ts_UpdatedAt :: "'t option"

definition ts_Touch :: "'t \<Rightarrow> 't Timestamps \<Rightarrow> 't Timestamps" where
  "ts_Touch now t =
     (let t' = (if ts_CreatedAt t = None then t\<lparr>ts_CreatedAt := Some now\<rparr> else t) in t'\<lparr>ts_UpdatedAt := Some now\<rparr>)"

text \<open>\<^verbatim>\<open>NowUpdate\<close> writes into the map of its caller: the update document and the caller's map after the call
  (a nil map stays nil).\<close>

definition mongo_NowUpdate ::
  "'v \<Rightarrow> (string \<Rightarrow> 'v option) option \<Rightarrow> (string \<times> (string \<Rightarrow> 'v option)) \<times> (string \<Rightarrow> 'v option) option" where
  "mongo_NowUpdate now fs =
     (let m = (case fs of None \<Rightarrow> Map.empty | Some m \<Rightarrow> m)(''updated_at'' \<mapsto> now)
      in ((''$set'', m), case fs of None \<Rightarrow> None | Some _ \<Rightarrow> Some m))"

section \<open>The connection\<close>

record MongoConfig =
  mcf_URI :: string
  mcf_Database :: string
  mcf_Timeout :: duration
  mcf_MaxPoolSize :: nat

record mongo_options =
  mo_URI :: string
  mo_Timeout :: duration
  mo_MaxPoolSize :: "nat option"

datatype mongo_open_error = Mongo_NoURI | Mongo_Connect string | Mongo_Ping string | Mongo_NoDatabase | Mongo_NilDatabase

definition databaseFromURI :: "(string \<Rightarrow> bool) \<Rightarrow> string \<Rightarrow> string" where
  "databaseFromURI ip6 uri =
     (case url_Parse ip6 uri of None \<Rightarrow> [] | Some (_, path) \<Rightarrow> if has_prefix path ''/'' then tl path else path)"

definition mongo_options_of :: "MongoConfig \<Rightarrow> mongo_options" where
  "mongo_options_of cfg =
     \<lparr>mo_URI = mcf_URI cfg, mo_Timeout = (if mcf_Timeout cfg \<le> 0 then 10 * Second else mcf_Timeout cfg),
      mo_MaxPoolSize = (if mcf_MaxPoolSize cfg > 0 then Some (mcf_MaxPoolSize cfg) else None)\<rparr>"

text \<open>\<^verbatim>\<open>Open\<close> with the driver's connect and the ping within the timeout as arguments; the second component counts the
  clients that are connected afterwards.\<close>

definition mongo_Open ::
  "(string \<Rightarrow> bool) \<Rightarrow> (mongo_options \<Rightarrow> (string, 'c) result) \<Rightarrow> ('c \<Rightarrow> duration \<Rightarrow> string option) \<Rightarrow> MongoConfig
     \<Rightarrow> (mongo_open_error, 'c \<times> string) result \<times> nat" where
  "mongo_Open ip6 connect ping cfg =
     (if mcf_URI cfg = [] then (Inl Mongo_NoURI, 0)
      else case connect (mongo_options_of cfg) of
        Inl e \<Rightarrow> (Inl (Mongo_Connect e), 0)
      | Inr client \<Rightarrow>
          (case ping client (mo_Timeout (mongo_options_of cfg)) of
             Some e \<Rightarrow> (Inl (Mongo_Ping e), 0)
           | None \<Rightarrow>
               (let name = (if mcf_Database cfg = [] then databaseFromURI ip6 (mcf_URI cfg) else mcf_Database cfg)
                in if name = [] then (Inl Mongo_NoDatabase, 1) else (Inr (client, name), 1))))"

definition mongo_Ping :: "('c \<Rightarrow> string option) \<Rightarrow> 'c option \<Rightarrow> mongo_open_error option" where
  "mongo_Ping ping db = (case db of None \<Rightarrow> Some Mongo_NilDatabase | Some c \<Rightarrow> map_option Mongo_Ping (ping c))"

section \<open>What the declared indexes become\<close>

lemma sync_loop_frame: "sync_loop create models cs db = (e, db') \<Longrightarrow> c \<notin> set cs \<Longrightarrow> db' c = db c"
  by (induction cs arbitrary: db) (auto split: sum.splits)

lemma sync_loop_exact:
  "sync_loop create models cs db = (None, db') \<Longrightarrow> distinct cs \<Longrightarrow> c \<in> set cs \<Longrightarrow> create c (models c) (db c) = Inr (db' c)"
proof (induction cs arbitrary: db)
  case (Cons a cs)
  from Cons.prems(1) obtain x where x: "create a (models a) (db a) = Inr x" "sync_loop create models cs (db(a := x)) = (None, db')"
    by (auto split: sum.splits)
  show ?case
  proof (cases "c = a")
    case True
    have "db' a = x" using sync_loop_frame [OF x(2), of a] Cons.prems(2) by simp
    then show ?thesis using x(1) True by simp
  next
    case False
    then show ?thesis using Cons.IH [OF x(2)] Cons.prems(2,3) by simp
  qed
qed simp

lemma sync_loop_fixed:
  "(\<And>c. c \<in> set cs \<Longrightarrow> create c (models c) (db c) = Inr (db c)) \<Longrightarrow> sync_loop create models cs db = (None, db)"
  by (induction cs) auto

lemma set_mongo_Registered [simp]: "set (mongo_Registered reg) = set reg"
  by (simp add: mongo_Registered_def)

lemma collections_of_props [simp]: "distinct (collections_of reg)" "set (collections_of reg) = ix_Collection ` set reg"
  by (simp_all add: collections_of_def)

lemma mongo_Registered_Nil [simp]: "mongo_Registered reg = [] \<longleftrightarrow> reg = []"
  by (metis set_empty2 set_mongo_Registered)

lemma syncer_Sync_alt: "syncer_Sync conv create reg db = sync_loop create (models_of conv reg) (collections_of reg) db"
  by (cases "reg = []") (simp_all add: syncer_Sync_def collections_of_def mongo_Registered_def)



text \<open>The status report does not recognise an index declared without a name: the server names such an index after
  its keys, with underscores, and the report looks for a description with colons, so an index the application
  declared and \<^verbatim>\<open>Sync\<close> created is listed as not declared.\<close>

theorem mongo_status_unnamed_undeclared:
  "syncer_Status [\<lparr>ix_Collection = c, ix_Keys = [(k, ''1'')], ix_Name = [], ix_Unique = u, ix_Sparse = sp, ix_TTL = ttl, ix_Partial = pf\<rparr>]
     (Inr [c]) (\<lambda>_. Inr [(''_id_'', ik), (k @ ''_1'', kk)])
   = Inr [\<lparr>is_Collection = c, is_Name = ''_id_'', is_Keys = ik, is_Declared = True\<rparr>,
      \<lparr>is_Collection = c, is_Name = k @ ''_1'', is_Keys = kk, is_Declared = False\<rparr>]"
proof -
  have "last (k @ ''_1'') \<noteq> last ''_id_''" by simp
  then have "k @ ''_1'' \<noteq> ''_id_''" by metis
  then show ?thesis by (simp add: syncer_Status_def status_of_def mongo_Registered_def ix_describe_def)
qed

section \<open>What the collections do\<close>

lemma find_None_filter: "find P xs = None \<longleftrightarrow> filter P xs = []"
  by (auto simp: find_None_iff filter_empty_conv)

lemma find_Some_filter: "find P xs = (if filter P xs = [] then None else Some (hd (filter P xs)))"
  by (induction xs) auto

lemma update_first_matched: "fst (update_first filt f xs) = (if filter filt xs = [] then 0 else 1)"
  by (induction xs) auto

lemma delete_first_deleted: "fst (delete_first filt xs) = (if filter filt xs = [] then 0 else 1)"
  by (induction xs) auto

lemma update_first_split:
  "filter filt xs \<noteq> [] \<Longrightarrow>
   \<exists>p x q. xs = p @ x # q \<and> filter filt p = [] \<and> filt x \<and> snd (update_first filt f xs) = p @ (fst x, f (snd x)) # q
         \<and> snd (delete_first filt xs) = p @ q"
proof (induction xs)
  case (Cons a xs)
  show ?case
  proof (cases "filt a")
    case True
    then show ?thesis by (intro exI [of _ "[]"]) auto
  next
    case False
    then obtain p x q where "xs = p @ x # q" "filter filt p = []" "filt x" "snd (update_first filt f xs) = p @ (fst x, f (snd x)) # q"
      "snd (delete_first filt xs) = p @ q" using Cons by auto
    then show ?thesis using False by (intro exI [of _ "a # p"] exI [of _ x] exI [of _ q]) auto
  qed
qed simp

lemma update_first_none: "filter filt xs = [] \<Longrightarrow> snd (update_first filt f xs) = xs \<and> snd (delete_first filt xs) = xs"
  by (induction xs) (auto split: if_splits)

text \<open>The operations of a collection agree on what a filter matches.  When the server answers, a document is found
  exactly when the filter matches one, it is the first of those \<^verbatim>\<open>Find\<close> lists, \<^verbatim>\<open>Exists\<close> says so, \<^verbatim>\<open>Count\<close> is positive,
  and an update or a deletion reports the same; an update changes that first document and no other and a deletion
  removes exactly it.  Without a match the collection stays as it is.\<close>

theorem mongo_collection_agrees:
  "mc_Find None filt [] xs = Inr (map snd (filter filt xs))
   \<and> mc_Count None filt xs = Inr (length (filter filt xs))
   \<and> mc_Exists None filt xs = Inr (filter filt xs \<noteq> [])
   \<and> mc_FindOne None filt xs = (case map snd (filter filt xs) of [] \<Rightarrow> Inl ErrNotFound | d # _ \<Rightarrow> Inr d)
   \<and> fst (mc_Update None filt f xs) = Inr (filter filt xs \<noteq> [])
   \<and> fst (mc_Delete None filt xs) = Inr (filter filt xs \<noteq> [])
   \<and> (if filter filt xs = [] then snd (mc_Update None filt f xs) = xs \<and> snd (mc_Delete None filt xs) = xs
      else \<exists>p x q. xs = p @ x # q \<and> filter filt p = [] \<and> filt x
             \<and> snd (mc_Update None filt f xs) = p @ (fst x, f (snd x)) # q \<and> snd (mc_Delete None filt xs) = p @ q)"
proof -
  have u: "mc_Update None filt f xs = (Inr (filter filt xs \<noteq> []), snd (update_first filt f xs))"
    using update_first_matched [of filt f xs] by (auto simp: mc_Update_def split: prod.split if_splits)
  have d: "mc_Delete None filt xs = (Inr (filter filt xs \<noteq> []), snd (delete_first filt xs))"
    using delete_first_deleted [of filt xs] by (auto simp: mc_Delete_def split: prod.split if_splits)
  have o1: "mc_FindOne None filt xs = (case map snd (filter filt xs) of [] \<Rightarrow> Inl ErrNotFound | d # _ \<Rightarrow> Inr d)"
    by (cases "filter filt xs") (simp_all add: mc_FindOne_def result_flatten_def guarded_def find_Some_filter)
  show ?thesis unfolding u d o1 fst_conv snd_conv
    using update_first_split [of filt xs f] update_first_none [of filt xs f]
    by (simp add: mc_Find_def mc_Count_def mc_Exists_def guarded_def find_None_filter del: not_None_eq)
qed

text \<open>A document that was inserted is found under the id \<^verbatim>\<open>Insert\<close> returned, until it is deleted under it; an
  upsert that matches nothing inserts exactly one document.\<close>

theorem mongo_insert_find_delete:
  assumes "mc_Insert fault dup (i, True) nil_id d xs = (Inr j, ys)" and "i \<notin> fst ` set xs"
  shows "j = i \<and> mc_FindByID None j ys = Inr d \<and> mc_DeleteByID None j ys = (Inr True, xs)
         \<and> mc_FindByID None j xs = Inl ErrNotFound"
proof -
  have y: "j = i" "ys = xs @ [(i, d)]" using assms(1) by (auto simp: mc_Insert_def split: option.splits)
  have n: "filter (\<lambda>x. fst x = i) xs = []" using assms(2) by (force simp: filter_empty_conv)
  have "delete_first (\<lambda>x. fst x = i) (xs @ [(i, d)]) = (1, xs)" using assms(2) by (induction xs) auto
  then show ?thesis using n
    by (simp add: y mc_FindByID_def mc_FindOne_def mc_DeleteByID_def mc_Delete_def result_flatten_def guarded_def find_Some_filter)
qed

theorem mongo_insert_find_delete_witness:
  "mc_Insert None (\<lambda>_ _. None) (2 :: nat, True) 0 ''b'' [(1, ''a'')] = (Inr 2, [(1, ''a''), (2, ''b'')])
   \<and> mc_FindByID None 2 [(1 :: nat, ''a''), (2, ''b'')] = Inr ''b''
   \<and> mc_DeleteByID None 2 [(1 :: nat, ''a''), (2, ''b'')] = (Inr True, [(1, ''a'')])"
proof -
  have i: "mc_Insert None (\<lambda>_ _. None) (2 :: nat, True) 0 ''b'' [(1, ''a'')] = (Inr 2, [(1, ''a''), (2, ''b'')])"
    by (simp add: mc_Insert_def)
  show ?thesis using mongo_insert_find_delete [OF i] i by simp
qed

text \<open>Opening a connection, on every path.  It succeeds exactly when the server is reached, answers the ping within the
  timeout, and a database is named; a client stays connected after it in that case and, left behind, in the case in
  which everything succeeded and only the name of the database is missing.\<close>

theorem mongo_open_clients:
  "mongo_Open ip6 connect ping cfg = (r, n) \<Longrightarrow>
   (n = 1) = (mcf_URI cfg \<noteq> [] \<and> (\<exists>c. connect (mongo_options_of cfg) = Inr c \<and> ping c (mo_Timeout (mongo_options_of cfg)) = None))
   \<and> (n = 1 \<longleftrightarrow> r = Inl Mongo_NoDatabase \<or> (\<exists>x. r = Inr x)) \<and> n \<le> 1
   \<and> (r = Inl Mongo_NoDatabase \<longleftrightarrow> n = 1 \<and> mcf_Database cfg = [] \<and> databaseFromURI ip6 (mcf_URI cfg) = [])
   \<and> 0 < mo_Timeout (mongo_options_of cfg)"
  by (auto simp: mongo_Open_def Let_def mongo_options_of_def Second_def split: if_splits sum.splits option.splits)

theorem mongo_open_clients_witness:
  "mongo_Open (\<lambda>_. False) (\<lambda>_. Inr ()) (\<lambda>_ _. None) \<lparr>mcf_URI = ''mongodb://h'', mcf_Database = [], mcf_Timeout = 0, mcf_MaxPoolSize = 0\<rparr>
   = (Inl Mongo_NoDatabase, 1) \<and> databaseFromURI (\<lambda>_. False) ''mongodb://h'' = []"
proof -
  define cfg where "cfg = \<lparr>mcf_URI = ''mongodb://h'', mcf_Database = [], mcf_Timeout = 0, mcf_MaxPoolSize = 0\<rparr>"
  have "databaseFromURI (\<lambda>_. False) ''mongodb://h'' = []" by code_simp
  then have o1: "mongo_Open (\<lambda>_. False) (\<lambda>_. Inr ()) (\<lambda>_ _. None) cfg = (Inl Mongo_NoDatabase, 1)"
    by (simp add: mongo_Open_def cfg_def)
  show ?thesis using mongo_open_clients [OF o1] o1 by (simp add: cfg_def)
qed

end
