(* ===== verification/MongoStores.thy ===== *)
theory MongoStores
  imports Mongo "HOL-Library.Multiset"
begin

text \<open>
  The indexes the MongoDB stores of the framework declare when their packages are imported:
  \<^verbatim>\<open>cache/mongo\<close>, \<^verbatim>\<open>session/mongo\<close> and \<^verbatim>\<open>queue/mongo\<close>.  The filter of a partial index is a type variable,
  as in the theory of the client; none of these indexes has one.
\<close>

definition CacheCollection :: string where "CacheCollection = ''cache''"
definition SessionsCollection :: string where "SessionsCollection = ''sessions''"
definition JobsCollection :: string where "JobsCollection = ''jobs''"
definition FailedCollection :: string where "FailedCollection = ''failed_jobs''"

abbreviation plain_index :: "string \<Rightarrow> (string \<times> string) list \<Rightarrow> string \<Rightarrow> 'f Index" where
  "plain_index c ks n \<equiv> \<lparr>ix_Collection = c, ix_Keys = ks, ix_Name = n, ix_Unique = False, ix_Sparse = False, ix_TTL = 0, ix_Partial = None\<rparr>"

definition cache_indexes :: "'f Index list" where
  "cache_indexes =
     [(plain_index CacheCollection [(''key'', ''1'')] ''cache_key'')\<lparr>ix_Unique := True\<rparr>,
      (plain_index CacheCollection [(''expires_at'', ''1'')] ''cache_ttl'')\<lparr>ix_TTL := Second\<rparr>]"

definition session_indexes :: "'f Index list" where
  "session_indexes =
     [(plain_index SessionsCollection [(''expires_at'', ''1'')] ''sessions_expires_at_ttl'')\<lparr>ix_TTL := Second\<rparr>,
      (plain_index SessionsCollection [(''user_id'', ''1'')] ''sessions_user_id'')\<lparr>ix_Sparse := True\<rparr>]"

definition queue_indexes :: "'f Index list" where
  "queue_indexes =
     [plain_index JobsCollection [(''queue'', ''1''), (''available_at'', ''1''), (''reserved_at'', ''1'')] ''jobs_claim'',
      plain_index FailedCollection [(''failed_at'', ''-1'')] [],
      plain_index FailedCollection [(''queue'', ''1'')] []]"

text \<open>The \<^verbatim>\<open>init\<close> functions of the packages that are imported, in the order of their imports.\<close>

fun register_all :: "'f Index list list \<Rightarrow> 'f Index list \<Rightarrow> mongo_panic option \<times> 'f Index list" where
  "register_all [] reg = (None, reg)"
| "register_all (p # pkgs) reg = (case mongo_Register p reg of (Some e, r) \<Rightarrow> (Some e, r) | (None, r) \<Rightarrow> register_all pkgs r)"

lemmas framework_indexes = cache_indexes_def session_indexes_def queue_indexes_def
  CacheCollection_def SessionsCollection_def JobsCollection_def FailedCollection_def

section \<open>The order of the imports does not matter\<close>

lemma mongo_Register_ok:
  "(\<And>i. i \<in> set ixs \<Longrightarrow> ix_Collection i \<noteq> [] \<and> ix_Keys i \<noteq> []) \<Longrightarrow> mongo_Register ixs reg = (None, reg @ ixs)"
  by (induction ixs arbitrary: reg) auto

lemma register_all_ok:
  assumes "\<And>p i. p \<in> set pkgs \<Longrightarrow> i \<in> set p \<Longrightarrow> ix_Collection i \<noteq> [] \<and> ix_Keys i \<noteq> []"
  shows "register_all pkgs reg = (None, reg @ concat pkgs)"
  using assms
proof (induction pkgs arbitrary: reg)
  case (Cons p pkgs)
  have "mongo_Register p reg = (None, reg @ p)" by (rule mongo_Register_ok) (use Cons.prems in auto)
  moreover have "register_all pkgs (reg @ p) = (None, (reg @ p) @ concat pkgs)" by (rule Cons.IH) (use Cons.prems in auto)
  ultimately show ?case by simp
qed simp

text \<open>Two registries with the same indexes, no two of which have the same collection and description, are listed alike.\<close>

lemma mongo_Registered_mset:
  assumes "mset xs = mset ys" and "distinct (map (\<lambda>i. (ix_Collection i, ix_describe i)) xs)"
  shows "mongo_Registered xs = mongo_Registered ys"
proof -
  let ?f = "\<lambda>i. (ix_Collection i, ix_describe i)"
  have "set xs = set ys" using assms(1) by (rule mset_eq_setD)
  moreover have "distinct (map ?f ys)"
    using assms by (metis mset_map mset_eq_imp_distinct_iff)
  ultimately show ?thesis
    unfolding mongo_Registered_def using assms(2)
    by (intro map_sorted_distinct_set_unique [where f = ?f]) (auto simp: distinct_map)
qed

definition framework_models :: "string \<Rightarrow> 'f IndexModel list" where
  "framework_models c =
     (let m = (\<lambda>ks n. \<lparr>im_Keys = ks, im_Name = n, im_Unique = False, im_Sparse = False, im_ExpireAfterSeconds = None, im_Partial = None\<rparr>) in
      if c = ''cache'' then [(m [(''key'', ''1'')] (Some ''cache_key''))\<lparr>im_Unique := True\<rparr>,
        (m [(''expires_at'', ''1'')] (Some ''cache_ttl''))\<lparr>im_ExpireAfterSeconds := Some 1\<rparr>]
      else if c = ''sessions'' then [(m [(''expires_at'', ''1'')] (Some ''sessions_expires_at_ttl''))\<lparr>im_ExpireAfterSeconds := Some 1\<rparr>,
        (m [(''user_id'', ''1'')] (Some ''sessions_user_id''))\<lparr>im_Sparse := True\<rparr>]
      else if c = ''jobs'' then [m [(''queue'', ''1''), (''available_at'', ''1''), (''reserved_at'', ''1'')] (Some ''jobs_claim'')]
      else if c = ''failed_jobs'' then [m [(''failed_at'', ''-1'')] None, m [(''queue'', ''1'')] None]
      else [])"

lemma framework_Registered:
  "mongo_Registered (cache_indexes @ session_indexes @ queue_indexes :: 'f Index list)
   = cache_indexes @ tl queue_indexes @ [hd queue_indexes] @ session_indexes"
  by (simp add: mongo_Registered_def framework_indexes ix_describe_def)

lemma framework_distinct:
  "distinct (map (\<lambda>i. (ix_Collection i, ix_describe i)) (cache_indexes @ session_indexes @ queue_indexes))"
  by (simp add: framework_indexes ix_describe_def)

lemma framework_pkgs: "mset pkgs = {#x, y, z#} \<Longrightarrow> set pkgs = {x, y, z}"
  using set_mset_mset [of pkgs] by simp

lemma framework_wf:
  "p \<in> {cache_indexes, session_indexes, queue_indexes} \<Longrightarrow> i \<in> set p \<Longrightarrow> ix_Collection i \<noteq> [] \<and> ix_Keys i \<noteq> []"
  by (auto simp: framework_indexes)

lemma framework_models_of:
  assumes "mset pkgs = {#cache_indexes, session_indexes, queue_indexes :: 'f Index list#}"
  shows "models_of conv (concat pkgs) c = framework_models c"
    and "ix_Collection ` set (concat pkgs) = {''cache'', ''sessions'', ''jobs'', ''failed_jobs''}"
proof -
  have "mset (concat pkgs) = mset (cache_indexes @ session_indexes @ queue_indexes)"
    using assms by (simp add: mset_concat sum_mset_sum_list [symmetric])
  note r = mongo_Registered_mset [OF this [symmetric] framework_distinct]
  show "models_of conv (concat pkgs) c = framework_models c"
    unfolding models_of_def r [symmetric] framework_Registered
    by (simp add: framework_indexes framework_models_def ix_model_def to_int32_def Second_def)
  show "ix_Collection ` set (concat pkgs) = {''cache'', ''sessions'', ''jobs'', ''failed_jobs''}"
    unfolding set_concat framework_pkgs [OF assms] by (simp add: framework_indexes insert_commute)
qed

text \<open>The stores of the framework get the indexes they rely on, in whatever order their packages are imported.
  Importing them registers without a panic, and a \<^verbatim>\<open>Sync\<close> that succeeds has created the unique index of the cache key and
  the index of the claim query, has the entries of the cache and the sessions removed one second after their date and not
  at once or never, and has left every other collection alone.\<close>

theorem framework_indexes_synced:
  assumes "mset pkgs = {#cache_indexes, session_indexes, queue_indexes :: 'f Index list#}"
  shows "\<exists>reg. register_all pkgs [] = (None, reg)
    \<and> (\<forall>create db db'. syncer_Sync conv create reg db = (None, db') \<longrightarrow>
         (\<forall>c. if c \<in> {''cache'', ''sessions'', ''jobs'', ''failed_jobs''} then create c (framework_models c) (db c) = Inr (db' c)
              else db' c = db c))"
proof -
  have "register_all pkgs [] = (None, [] @ concat pkgs)"
    by (rule register_all_ok, rule framework_wf) (simp_all add: framework_pkgs [OF assms])
  then have "register_all pkgs [] = (None, concat pkgs)" by simp
  moreover have "if c \<in> {''cache'', ''sessions'', ''jobs'', ''failed_jobs''} then create c (framework_models c) (db c) = Inr (db' c)
              else db' c = db c" if "syncer_Sync conv create (concat pkgs) db = (None, db')" for create db db' c
  proof -
    have l: "sync_loop create (models_of conv (concat pkgs)) (collections_of (concat pkgs)) db = (None, db')"
      using that by (simp add: syncer_Sync_alt)
    have s: "set (collections_of (concat pkgs)) = {''cache'', ''sessions'', ''jobs'', ''failed_jobs''}"
      unfolding collections_of_props(2) by (rule framework_models_of(2) [OF assms])
    show ?thesis
      using sync_loop_exact [OF l collections_of_props(1), of c] sync_loop_frame [OF l, of c]
      unfolding s framework_models_of(1) [OF assms] by simp
  qed
  ultimately show ?thesis by blast
qed

theorem framework_indexes_synced_witness:
  "\<exists>db'. syncer_Sync id (\<lambda>c ms x. Inr (ms @ x) :: (string, unit IndexModel list) result)
       (snd (register_all [queue_indexes, cache_indexes, session_indexes] [])) (\<lambda>_. []) = (None, db')
     \<and> map im_ExpireAfterSeconds (db' ''sessions'') = [Some 1, None] \<and> db' ''users'' = []"
proof -
  let ?create = "\<lambda>(c :: string) ms x. Inr (ms @ x) :: (string, unit IndexModel list) result"
  have m: "mset [queue_indexes, cache_indexes, session_indexes :: unit Index list] = {#cache_indexes, session_indexes, queue_indexes#}"
    by simp
  let ?synced = "\<lambda>reg :: unit Index list. register_all [queue_indexes, cache_indexes, session_indexes] [] = (None, reg)
    \<and> (\<forall>create db db'. syncer_Sync id create reg db = (None, db') \<longrightarrow>
         (\<forall>c. if c \<in> {''cache'', ''sessions'', ''jobs'', ''failed_jobs''} then create c (framework_models c) (db c) = Inr (db' c :: unit IndexModel list)
              else db' c = db c))"
  have "\<exists>reg. ?synced reg" by (rule framework_indexes_synced [OF m])
  then obtain reg where r: "?synced reg" ..
  note reg = conjunct1 [OF r] and all = conjunct2 [OF r]
  have "\<exists>db'. sync_loop ?create ms cs db = (None, db')" for ms cs and db :: "string \<Rightarrow> unit IndexModel list"
    by (induction cs arbitrary: db) auto
  then obtain db' where s: "syncer_Sync id ?create reg (\<lambda>_. []) = (None, db')" unfolding syncer_Sync_alt by blast
  have "db' ''sessions'' = framework_models ''sessions''" "db' ''users'' = []"
    using all [rule_format, OF s, of "''sessions''"] all [rule_format, OF s, of "''users''"] by simp_all
  then have "map im_ExpireAfterSeconds (db' ''sessions'') = [Some 1, None]" "db' ''users'' = []"
    by (simp_all add: framework_models_def Let_def)
  then show ?thesis using s reg by (intro exI [of _ db']) simp
qed

text \<open>Two of these indexes have no name, so the status report lists them as not declared although \<^verbatim>\<open>Sync\<close> created them.\<close>

theorem failed_jobs_reported_undeclared:
  "\<exists>out. syncer_Status (queue_indexes :: 'f Index list) (Inr [''failed_jobs'']) (\<lambda>_. Inr [(''failed_at_-1'', fk), (''queue_1'', qk)]) = Inr out
     \<and> map is_Declared out = [False, False]"
  by (simp add: syncer_Status_def status_of_def mongo_Registered_def ix_describe_def framework_indexes)

end
