(* ===== verification/CacheFlight.thy ===== *)
theory CacheFlight
  imports CacheProps
begin

text \<open>
  \<^verbatim>\<open>cache.Remember\<close> called by several goroutines at once for one key.  The calls that miss meet in
  the group of \<^verbatim>\<open>singleflight\<close>, which is a variable of the package: there is one group for every store and
  every type.

  A caller has its store, the type it asks for, its time to live and what its callback returns.  The group
  is an argument that runs the functions of the callers in flight together on the state and gives each its result;
  what is relied on of it is the predicate \<open>single_flight\<close>.  The state is that of every store, and the number of callbacks
  that ran.
\<close>

record ('v, 't) caller =
  cl_Store :: nat
  cl_Type :: 't
  cl_TTL :: duration
  cl_compute :: "(string, 'v) result"

datatype flight_error = Flight_Compute string | Flight_Type string

type_synonym 's flight_state = "(nat \<Rightarrow> 's) \<times> nat"

text \<open>The first lookup of every caller, one after the other.\<close>

definition caller_lookup ::
  "('t \<Rightarrow> bytes \<Rightarrow> 'v option) \<Rightarrow> (nat \<Rightarrow> 's Store) \<Rightarrow> time \<Rightarrow> string \<Rightarrow> ('v, 't) caller \<Rightarrow> (nat \<Rightarrow> 's) \<Rightarrow> 'v option \<times> (nat \<Rightarrow> 's)" where
  "caller_lookup unmarshal S now key c st =
     (case GetJSON (unmarshal (cl_Type c)) (S (cl_Store c)) now key (st (cl_Store c)) of
        (r, s) \<Rightarrow> (case r of Inr (Some v) \<Rightarrow> Some v | _ \<Rightarrow> None, st(cl_Store c := s)))"

fun lookups ::
  "('t \<Rightarrow> bytes \<Rightarrow> 'v option) \<Rightarrow> (nat \<Rightarrow> 's Store) \<Rightarrow> time \<Rightarrow> string \<Rightarrow> ('v, 't) caller list \<Rightarrow> (nat \<Rightarrow> 's)
     \<Rightarrow> 'v option list \<times> (nat \<Rightarrow> 's)" where
  "lookups unmarshal S now key [] st = ([], st)"
| "lookups unmarshal S now key (c # cs) st =
     (case caller_lookup unmarshal S now key c st of
        (h, st1) \<Rightarrow> (case lookups unmarshal S now key cs st1 of (hs, st2) \<Rightarrow> (h # hs, st2)))"

text \<open>The function a caller hands to the group.\<close>

definition flight_body ::
  "('v \<Rightarrow> bytes option) \<Rightarrow> ('t \<Rightarrow> bytes \<Rightarrow> 'v option) \<Rightarrow> (nat \<Rightarrow> 's Store) \<Rightarrow> time \<Rightarrow> string \<Rightarrow> ('v, 't) caller
     \<Rightarrow> 's flight_state \<Rightarrow> (string, 'v) result \<times> 's flight_state" where
  "flight_body marshal unmarshal S now key c st =
     (case caller_lookup unmarshal S now key c (fst st) of
        (Some v, st1) \<Rightarrow> (Inr v, st1, snd st)
      | (None, st1) \<Rightarrow>
          (case cl_compute c of
             Inl e \<Rightarrow> (Inl e, st1, Suc (snd st))
           | Inr v \<Rightarrow> (Inr v, st1(cl_Store c := snd (SetJSON marshal (S (cl_Store c)) now key v (cl_TTL c) (st1 (cl_Store c)))),
                       Suc (snd st))))"

text \<open>What a caller makes of the result of the group: the assertion on its type.\<close>

definition flight_result :: "('v \<Rightarrow> 't) \<Rightarrow> string \<Rightarrow> ('v, 't) caller \<Rightarrow> (string, 'v) result \<Rightarrow> (flight_error, 'v) result" where
  "flight_result type_of key c r =
     (case r of Inl e \<Rightarrow> Inl (Flight_Compute e) | Inr v \<Rightarrow> if type_of v = cl_Type c then Inr v else Inl (Flight_Type key))"

fun merge_results :: "'v option list \<Rightarrow> (flight_error, 'v) result list \<Rightarrow> (flight_error, 'v) result list" where
  "merge_results (Some v # hs) rs = Inr v # merge_results hs rs"
| "merge_results (None # hs) (r # rs) = r # merge_results hs rs"
| "merge_results _ _ = []"

definition missed :: "('v, 't) caller list \<Rightarrow> 'v option list \<Rightarrow> ('v, 't) caller list" where
  "missed cs hs = map fst (filter (\<lambda>(c, h). h = None) (zip cs hs))"

definition Remember_together ::
  "((('s flight_state \<Rightarrow> (string, 'v) result \<times> 's flight_state) list) \<Rightarrow> 's flight_state \<Rightarrow> (string, 'v) result list \<times> 's flight_state)
     \<Rightarrow> ('v \<Rightarrow> 't) \<Rightarrow> ('v \<Rightarrow> bytes option) \<Rightarrow> ('t \<Rightarrow> bytes \<Rightarrow> 'v option) \<Rightarrow> (nat \<Rightarrow> 's Store) \<Rightarrow> time \<Rightarrow> string
     \<Rightarrow> ('v, 't) caller list \<Rightarrow> (nat \<Rightarrow> 's) \<Rightarrow> (flight_error, 'v) result list \<times> 's flight_state" where
  "Remember_together group_Do type_of marshal unmarshal S now key cs st =
     (case lookups unmarshal S now key cs st of
        (hs, st1) \<Rightarrow>
          (let ms = missed cs hs in
           if ms = [] then (merge_results hs [], st1, 0)
           else case group_Do (map (flight_body marshal unmarshal S now key) ms) (st1, 0) of
             (rs, st2) \<Rightarrow> (merge_results hs (map2 (flight_result type_of key) ms rs), st2)))"

text \<open>The documented behaviour of the group: of the functions handed in together one is executed, and its result is
  that of every caller.\<close>

definition single_flight ::
  "((('a \<Rightarrow> 'r \<times> 'a) list) \<Rightarrow> 'a \<Rightarrow> 'r list \<times> 'a) \<Rightarrow> bool" where
  "single_flight group_Do =
     (\<forall>fs st. fs \<noteq> [] \<longrightarrow> (\<exists>f \<in> set fs. group_Do fs st = (replicate (length fs) (fst (f st)), snd (f st))))"

section \<open>One flight for all\<close>

lemma single_flightE:
  assumes "single_flight group_Do" "fs \<noteq> []"
  obtains f where "f \<in> set fs" "group_Do fs st = (replicate (length fs) (fst (f st)), snd (f st))"
  using assms unfolding single_flight_def by blast

lemma lookups_length: "lookups unmarshal S now key cs st = (hs, st1) \<Longrightarrow> length hs = length cs"
  by (induction cs arbitrary: st hs st1) (auto split: prod.splits)

lemma missed_all: "missed cs (replicate (length cs) None) = cs"
  by (induction cs) (simp_all add: missed_def)

lemma merge_all: "merge_results (replicate (length rs) None) rs = rs"
  by (induction rs) simp_all

lemma map2_replicate: "map2 g xs (replicate (length xs) r) = map (\<lambda>d. g d r) xs"
  by (induction xs) simp_all

lemma flight_count: "snd (snd (flight_body marshal unmarshal S now key c st)) \<le> Suc (snd st)"
  by (simp add: flight_body_def split: prod.split option.split sum.split)

lemma flight_frame:
  "k \<noteq> cl_Store c \<Longrightarrow> fst (snd (flight_body marshal unmarshal S now key c st)) k = fst st k"
  by (simp add: flight_body_def caller_lookup_def split: prod.split option.split sum.split)

text \<open>When every caller missed, all of them get what one of them obtained.\<close>

lemma Remember_together_missed:
  assumes "single_flight group_Do" "cs \<noteq> []" "lookups unmarshal S now key cs st = (replicate (length cs) None, st1)"
  obtains c where "c \<in> set cs" "Remember_together group_Do type_of marshal unmarshal S now key cs st
    = (map (\<lambda>d. flight_result type_of key d (fst (flight_body marshal unmarshal S now key c (st1, 0)))) cs,
       snd (flight_body marshal unmarshal S now key c (st1, 0)))"
proof -
  let ?fs = "map (flight_body marshal unmarshal S now key) cs"
  obtain f where f: "f \<in> set ?fs" "group_Do ?fs (st1, 0) = (replicate (length ?fs) (fst (f (st1, 0))), snd (f (st1, 0)))"
    using assms(2) by (rule_tac single_flightE [OF assms(1), of ?fs "(st1, 0)"]) simp_all
  from f(1) obtain c where c: "c \<in> set cs" "f = flight_body marshal unmarshal S now key c" by auto
  have "Remember_together group_Do type_of marshal unmarshal S now key cs st
    = (map (\<lambda>d. flight_result type_of key d (fst (f (st1, 0)))) cs, snd (f (st1, 0)))"
    using f(2) assms(2) merge_all [of "map (\<lambda>d. flight_result type_of key d (fst (f (st1, 0)))) cs"]
    by (simp add: Remember_together_def assms(3) missed_all map2_replicate Let_def)
  then show thesis using that c by simp
qed


section \<open>A group that runs the function of the first caller\<close>

definition first_flight :: "(('a \<Rightarrow> 'r \<times> 'a) list) \<Rightarrow> 'a \<Rightarrow> 'r list \<times> 'a" where
  "first_flight fs st = (case fs of [] \<Rightarrow> ([], st) | f # _ \<Rightarrow> (replicate (length fs) (fst (f st)), snd (f st)))"

lemma single_flight_first: "single_flight first_flight"
  unfolding single_flight_def
proof (intro allI impI)
  fix fs :: "('a \<Rightarrow> 'b \<times> 'a) list" and st assume "fs \<noteq> []"
  then show "\<exists>f \<in> set fs. first_flight fs st = (replicate (length fs) (fst (f st)), snd (f st))"
    by (cases fs) (simp_all add: first_flight_def)
qed

text \<open>A store that never fails and forgets nothing, as a map.\<close>

definition map_store :: "(string \<rightharpoonup> bytes) Store" where
  "map_store = \<lparr>cs_Get = (\<lambda>now k s. (Inr (s k), s)), cs_Set = (\<lambda>now k v ttl s. (None, s(k \<mapsto> v))),
     cs_Delete = (\<lambda>k s. (None, s(k := None))), cs_Clear = (\<lambda>s. (None, Map.empty))\<rparr>"

abbreviation string_caller :: "nat \<Rightarrow> string \<Rightarrow> (string, unit) caller" where
  "string_caller k v \<equiv> \<lparr>cl_Store = k, cl_Type = (), cl_TTL = 0, cl_compute = Inr v\<rparr>"

lemma map_store_lookup:
  "caller_lookup (\<lambda>_. Some) (\<lambda>_. map_store) now key c st = (st (cl_Store c) key, st)"
  by (simp add: caller_lookup_def GetJSON_def map_store_def split: option.split)


section \<open>One group for every store\<close>

text \<open>The group is shared by all stores and keyed by the key alone.  Two callers that miss the same key at the same time in
  two different stores are one flight: one of them gets the value the other computed for its own store, or an error when it
  asked for another type, and its store is left without a value.\<close>

theorem remember_crosses_stores:
  assumes "single_flight group_Do" and "cl_Store a \<noteq> cl_Store b"
    and "cl_compute a = Inr x" "cl_compute b = Inr y" "type_of x = cl_Type a" "type_of y = cl_Type b"
    and "lookups unmarshal S now key [a, b] st = ([None, None], st1)"
    and "\<forall>c \<in> {a, b}. caller_lookup unmarshal S now key c st1 = (None, st1)"
    and "Remember_together group_Do type_of marshal unmarshal S now key [a, b] st = (rs, st2, n)"
  shows "(rs = [Inr x, if cl_Type a = cl_Type b then Inr x else Inl (Flight_Type key)] \<and> st2 (cl_Store b) = st1 (cl_Store b))
       \<or> (rs = [if cl_Type a = cl_Type b then Inr y else Inl (Flight_Type key), Inr y] \<and> st2 (cl_Store a) = st1 (cl_Store a))"
proof -
  have l: "lookups unmarshal S now key [a, b] st = (replicate (length [a, b]) None, st1)" using assms(7) by (simp add: numeral_2_eq_2)
  obtain c where c: "c \<in> set [a, b]" "Remember_together group_Do type_of marshal unmarshal S now key [a, b] st
    = (map (\<lambda>d. flight_result type_of key d (fst (flight_body marshal unmarshal S now key c (st1, 0)))) [a, b],
       snd (flight_body marshal unmarshal S now key c (st1, 0)))"
    by (rule Remember_together_missed [OF assms(1) _ l, of type_of marshal]) auto
  note c = c(1) c(2) [unfolded assms(9)]
  have val: "fst (flight_body marshal unmarshal S now key d (st1, 0)) = cl_compute d" if "d \<in> {a, b}" for d
    using bspec [OF assms(8) that] by (simp add: flight_body_def split: sum.split)
  have st2: "st2 = fst (snd (flight_body marshal unmarshal S now key c (st1, 0)))" using c(2) by (metis fst_conv snd_conv)
  have frame: "k \<noteq> cl_Store c \<Longrightarrow> st2 k = st1 k" for k using flight_frame [of k c marshal unmarshal S now key "(st1, 0)"] st2 by simp
  have rs: "rs = map (\<lambda>d. flight_result type_of key d (cl_compute c)) [a, b]" using c val [of c] by simp
  consider "c = a" | "c = b" using c(1) by auto
  then show ?thesis
  proof cases
    case 1
    then show ?thesis using rs frame [of "cl_Store b"] assms(2-6) by (simp add: flight_result_def)
  next
    case 2
    then show ?thesis using rs frame [of "cl_Store a"] assms(2-6) by (simp add: flight_result_def)
  qed
qed

theorem remember_crosses_stores_witness:
  "\<exists>rs st2 n. Remember_together first_flight (\<lambda>_. ()) Some (\<lambda>_. Some) (\<lambda>_. map_store) 0 ''home'' [string_caller 0 ''a'', string_caller 1 ''b''] (\<lambda>_. Map.empty)
       = (rs, st2, n)
     \<and> (rs = [Inr ''a'', Inr ''a''] \<and> st2 1 = Map.empty \<or> rs = [Inr ''b'', Inr ''b''] \<and> st2 0 = Map.empty)"
proof -
  let ?a = "string_caller 0 ''a''" and ?b = "string_caller 1 ''b''"
  obtain rs st2 n where r: "Remember_together first_flight (\<lambda>_. ()) Some (\<lambda>_. Some) (\<lambda>_. map_store) 0 ''home'' [?a, ?b] (\<lambda>_. Map.empty) = (rs, st2, n)"
    by (metis prod.exhaust)
  have l: "lookups (\<lambda>_. Some) (\<lambda>_. map_store) 0 ''home'' [?a, ?b] (\<lambda>_. Map.empty) = ([None, None], \<lambda>_. Map.empty)"
    by (simp add: map_store_lookup)
  have m: "\<forall>c \<in> {?a, ?b}. caller_lookup (\<lambda>_. Some) (\<lambda>_. map_store) 0 ''home'' c (\<lambda>_. Map.empty) = (None, \<lambda>_. Map.empty)"
    by (simp add: map_store_lookup)
  show ?thesis
    using remember_crosses_stores [OF single_flight_first _ _ _ _ _ l m r, of "''a''" "''b''"] r by simp
qed

section \<open>One caller alone\<close>

text \<open>A caller that is alone does what \<^verbatim>\<open>Remember\<close> does for one caller.\<close>

lemma remember_alone:
  assumes "single_flight group_Do" "\<forall>raw v. unmarshal (cl_Type c) raw = Some v \<longrightarrow> type_of v = cl_Type c"
    and "\<forall>v. cl_compute c = Inr v \<longrightarrow> type_of v = cl_Type c"
    and "Remember_together group_Do type_of marshal unmarshal S now key [c] st = (rs, st2, n)"
    and "Remember marshal (unmarshal (cl_Type c)) (S (cl_Store c)) now key (cl_TTL c) (cl_compute c) (st (cl_Store c)) = (r, s, called)"
  shows "rs = [map_sum Flight_Compute id r] \<and> st2 = st(cl_Store c := s) \<and> n = (if called then 1 else 0)"
proof -
  let ?G = "GetJSON (unmarshal (cl_Type c)) (S (cl_Store c)) now key"
  have typed: "fst (?G s0) = Inr (Some v) \<Longrightarrow> type_of v = cl_Type c" for s0 v
    using assms(2) by (auto simp: GetJSON_def split: prod.splits sum.splits option.splits)
  have one: "group_Do [f] st0 = ([fst (f st0)], snd (f st0))" for f st0
    using single_flightE [OF assms(1), of "[f]" st0] by force
  obtain r1 s1 where g1: "?G (st (cl_Store c)) = (r1, s1)" by (metis prod.exhaust)
  obtain r2 s2 where g2: "?G s1 = (r2, s2)" by (metis prod.exhaust)
  note t = typed [of "st (cl_Store c)"] typed [of s1]
  show ?thesis
    using assms(3-5) t
    by (auto simp: Remember_together_def Remember_def caller_lookup_def flight_body_def flight_result_def missed_def g1 g2 one Let_def
        split: sum.splits option.splits if_splits)
      (metis map_sum.simps id_apply)+
qed

end
