(* ===== verification/Clients.thy ===== *)
theory Clients
  imports Duration
begin

text \<open>
  The packages \<^verbatim>\<open>redis\<close> (\<^verbatim>\<open>redis/redis.go\<close>) and \<^verbatim>\<open>db\<close> (\<^verbatim>\<open>db/db.go\<close>), which open the application's connections.

  The clients are third-party code and arguments of the definitions: parsing a connection string, creating a
  client, its ping, and opening a database with a dialect.  The number of connections a call leaves behind is part
  of its result.
\<close>

section \<open>Redis\<close>

record RedisConfig =
  rcf_URL :: string
  rcf_Addr :: string
  rcf_Username :: string
  rcf_Password :: string
  rcf_DB :: int
  rcf_PoolSize :: int
  rcf_Prefix :: string
  rcf_DialTimeout :: duration
  rcf_ReadTimeout :: duration
  rcf_WriteTimeout :: duration

record redis_options =
  ro_Addr :: string
  ro_Username :: string
  ro_Password :: string
  ro_DB :: int
  ro_PoolSize :: int
  ro_DialTimeout :: duration
  ro_ReadTimeout :: duration
  ro_WriteTimeout :: duration

datatype redis_error = Redis_ParseURL string | Redis_Connect string string

text \<open>Options of the fields, when there is no connection string.\<close>

definition redis_base :: "RedisConfig \<Rightarrow> redis_options" where
  "redis_base cfg =
     \<lparr>ro_Addr = (if rcf_Addr cfg = [] then ''localhost:6379'' else rcf_Addr cfg), ro_Username = rcf_Username cfg,
      ro_Password = rcf_Password cfg, ro_DB = rcf_DB cfg, ro_PoolSize = 0, ro_DialTimeout = 0, ro_ReadTimeout = 0,
      ro_WriteTimeout = 0\<rparr>"

definition redis_limits :: "RedisConfig \<Rightarrow> redis_options \<Rightarrow> redis_options" where
  "redis_limits cfg o0 =
     (let o1 = (if rcf_PoolSize cfg > 0 then o0\<lparr>ro_PoolSize := rcf_PoolSize cfg\<rparr> else o0);
          o2 = (if rcf_DialTimeout cfg > 0 then o1\<lparr>ro_DialTimeout := rcf_DialTimeout cfg\<rparr> else o1);
          o3 = (if rcf_ReadTimeout cfg > 0 then o2\<lparr>ro_ReadTimeout := rcf_ReadTimeout cfg\<rparr> else o2)
      in if rcf_WriteTimeout cfg > 0 then o3\<lparr>ro_WriteTimeout := rcf_WriteTimeout cfg\<rparr> else o3)"

definition redis_Open ::
  "(string \<Rightarrow> (string, redis_options) result) \<Rightarrow> (redis_options \<Rightarrow> 'c) \<Rightarrow> ('c \<Rightarrow> duration \<Rightarrow> string option) \<Rightarrow> RedisConfig
     \<Rightarrow> (redis_error, 'c) result \<times> nat" where
  "redis_Open parseURL newClient ping cfg =
     (case (if rcf_URL cfg \<noteq> [] then parseURL (rcf_URL cfg) else Inr (redis_base cfg)) of
        Inl e \<Rightarrow> (Inl (Redis_ParseURL e), 0)
      | Inr o0 \<Rightarrow>
          (let opts = redis_limits cfg o0; client = newClient opts
           in case ping client (5 * Second) of
                Some e \<Rightarrow> (Inl (Redis_Connect (ro_Addr opts) e), 0)
              | None \<Rightarrow> (Inr client, 1)))"

definition redis_Key :: "string \<Rightarrow> string list \<Rightarrow> string" where
  "redis_Key prefix parts = foldl (\<lambda>out p. (if out \<noteq> [] then out @ '':'' else out) @ p) prefix parts"

section \<open>The SQL database\<close>

record DBConfig =
  dcf_Driver :: string
  dcf_DSN :: string
  dcf_MaxOpenConns :: int
  dcf_MaxIdleConns :: int
  dcf_ConnMaxLifetime :: duration
  dcf_SlowThreshold :: duration
  dcf_LogQueries :: bool

datatype gorm_level = Gorm_Warn | Gorm_Info

record gorm_logger =
  gl_SlowThreshold :: duration
  gl_LogLevel :: gorm_level
  gl_IgnoreRecordNotFoundError :: bool
  gl_Colorful :: bool

record gorm_config =
  gc_Logger :: gorm_logger
  gc_SkipDefaultTransaction :: bool
  gc_TranslateError :: bool

record pool =
  po_MaxOpenConns :: "int option"
  po_MaxIdleConns :: "int option"
  po_ConnMaxLifetime :: "duration option"

datatype db_error = DB_UnknownDriver string "string set" | DB_Open string string | DB_Pool string

type_synonym 'd dialectors = "string \<Rightarrow> (string \<Rightarrow> 'd) option"

definition db_Register :: "string \<Rightarrow> (string \<Rightarrow> 'd) \<Rightarrow> 'd dialectors \<Rightarrow> 'd dialectors" where
  "db_Register driver d ds = ds(driver \<mapsto> d)"

text \<open>\<^verbatim>\<open>Drivers\<close> in the unspecified order of a map.\<close>

definition db_Drivers :: "'d dialectors \<Rightarrow> string set" where
  "db_Drivers ds = dom ds"

definition db_newLogger :: "DBConfig \<Rightarrow> gorm_logger" where
  "db_newLogger cfg =
     \<lparr>gl_SlowThreshold = dcf_SlowThreshold cfg, gl_LogLevel = (if dcf_LogQueries cfg then Gorm_Info else Gorm_Warn),
      gl_IgnoreRecordNotFoundError = True, gl_Colorful = False\<rparr>"

definition pool_settings :: "DBConfig \<Rightarrow> pool" where
  "pool_settings cfg =
     \<lparr>po_MaxOpenConns = (if dcf_MaxOpenConns cfg > 0 then Some (dcf_MaxOpenConns cfg) else None),
      po_MaxIdleConns = (if dcf_MaxIdleConns cfg > 0 then Some (dcf_MaxIdleConns cfg) else None),
      po_ConnMaxLifetime = (if dcf_ConnMaxLifetime cfg > 0 then Some (dcf_ConnMaxLifetime cfg) else None)\<rparr>"

definition db_Open ::
  "'d dialectors \<Rightarrow> ('d \<Rightarrow> gorm_config \<Rightarrow> (string, 'g) result) \<Rightarrow> ('g \<Rightarrow> string option) \<Rightarrow> DBConfig
     \<Rightarrow> (db_error, 'g \<times> pool) result" where
  "db_Open ds gorm_open gorm_pool cfg =
     (case ds (dcf_Driver cfg) of
        None \<Rightarrow> Inl (DB_UnknownDriver (dcf_Driver cfg) (db_Drivers ds))
      | Some dialector \<Rightarrow>
          (case gorm_open (dialector (dcf_DSN cfg))
                  \<lparr>gc_Logger = db_newLogger cfg, gc_SkipDefaultTransaction = True, gc_TranslateError = True\<rparr> of
             Inl e \<Rightarrow> Inl (DB_Open (dcf_Driver cfg) e)
           | Inr g \<Rightarrow> (case gorm_pool g of Some e \<Rightarrow> Inl (DB_Pool e) | None \<Rightarrow> Inr (g, pool_settings cfg))))"

definition db_Close :: "('g \<Rightarrow> string option) \<Rightarrow> ('g \<Rightarrow> string option) \<Rightarrow> 'g \<Rightarrow> string option" where
  "db_Close gorm_pool pool_close g = (case gorm_pool g of Some e \<Rightarrow> Some e | None \<Rightarrow> pool_close g)"

text \<open>\<^verbatim>\<open>Transaction\<close> hands over to the library's transaction.\<close>

definition db_Transaction :: "('g \<Rightarrow> ('g \<Rightarrow> string option) \<Rightarrow> string option) \<Rightarrow> 'g \<Rightarrow> ('g \<Rightarrow> string option) \<Rightarrow> string option" where
  "db_Transaction gorm_transaction g fn = gorm_transaction g fn"

text \<open>The library's messages go to the given log, or to the default one.\<close>

definition slogWriter_Printf :: "'l option \<Rightarrow> 'l \<Rightarrow> ('l \<Rightarrow> string \<Rightarrow> 'l) \<Rightarrow> string \<Rightarrow> 'l" where
  "slogWriter_Printf lg dflt info msg = info (case lg of None \<Rightarrow> dflt | Some l \<Rightarrow> l) msg"

section \<open>What they promise\<close>

lemma redis_Key_alt: "prefix \<noteq> [] \<Longrightarrow> redis_Key prefix ps = prefix @ concat (map (\<lambda>q. '':'' @ q) ps)"
  by (induction ps arbitrary: prefix) (simp_all add: redis_Key_def)

lemma append_sep_eq:
  assumes "x \<notin> set xs" and "x \<notin> set ys" and "xs @ x # us = ys @ x # vs"
  shows "xs = ys \<and> us = vs"
  using assms
proof (induction xs arbitrary: ys)
  case Nil
  then show ?case by (cases ys) auto
next
  case (Cons a xs)
  then show ?case by (cases ys) auto
qed

text \<open>Keys of different prefixes never meet, which is what lets several applications share one server: with
  prefixes that hold no colon, two keys are equal only when their prefixes are.\<close>

theorem redis_keys_separate:
  assumes "p \<noteq> []" and "q \<noteq> []" and "CHR '':'' \<notin> set p" and "CHR '':'' \<notin> set q"
    and "redis_Key p (a # as) = redis_Key q (b # bs)"
  shows "p = q"
proof -
  have "p @ CHR '':'' # a @ concat (map (\<lambda>q. '':'' @ q) as) = q @ CHR '':'' # b @ concat (map (\<lambda>q. '':'' @ q) bs)"
    using assms(5) redis_Key_alt [OF assms(1)] redis_Key_alt [OF assms(2)] by simp
  then show ?thesis by (rule append_sep_eq [THEN conjunct1, OF assms(3,4)])
qed

theorem redis_keys_separate_witness:
  "redis_Key ''shop'' [''cache'', ''a''] = ''shop:cache:a''
   \<and> redis_Key ''shop'' [''cache'', ''a''] \<noteq> redis_Key ''blog'' [''cache'', ''a'']"
proof -
  have k: "redis_Key ''shop'' [''cache'', ''a''] = ''shop:cache:a''" by (simp add: redis_Key_def)
  have "\<not> redis_Key ''shop'' [''cache'', ''a''] = redis_Key ''blog'' [''cache'', ''a'']"
    by (rule notI, drule redis_keys_separate [rotated 4]) simp_all
  then show ?thesis using k by blast
qed

text \<open>Opening Redis verifies the connection and leaves nothing behind: the call succeeds exactly when the connection
  string, if there is one, is understood and the ping answers within five seconds, a client remains exactly then, and
  a connection string that is given decides the address, whatever the other fields say.\<close>

theorem redis_open_verifies:
  "redis_Open parseURL newClient ping cfg = (r, n) \<Longrightarrow>
   n = (if \<exists>c. r = Inr c then 1 else 0)
   \<and> ((\<exists>c. r = Inr c) \<longleftrightarrow>
        (\<exists>o0. (if rcf_URL cfg = [] then o0 = redis_base cfg else parseURL (rcf_URL cfg) = Inr o0)
              \<and> ping (newClient (redis_limits cfg o0)) (5 * Second) = None \<and> r = Inr (newClient (redis_limits cfg o0))
              \<and> ro_Addr (redis_limits cfg o0) = ro_Addr o0))"
  by (auto simp: redis_Open_def redis_limits_def Let_def split: if_splits sum.splits option.splits)

theorem redis_open_verifies_witness:
  "redis_Open (\<lambda>_. Inl ''bad'') ro_Addr (\<lambda>c d. if c = ''localhost:6379'' \<and> d = 5 * Second then None else Some ''refused'')
     \<lparr>rcf_URL = [], rcf_Addr = [], rcf_Username = [], rcf_Password = [], rcf_DB = 0, rcf_PoolSize = 0, rcf_Prefix = [],
      rcf_DialTimeout = 0, rcf_ReadTimeout = 0, rcf_WriteTimeout = 0\<rparr>
   = (Inr ''localhost:6379'', 1)"
proof -
  define cfg where "cfg = \<lparr>rcf_URL = [], rcf_Addr = [], rcf_Username = [], rcf_Password = [], rcf_DB = 0, rcf_PoolSize = 0, rcf_Prefix = [],
      rcf_DialTimeout = 0, rcf_ReadTimeout = 0, rcf_WriteTimeout = 0\<rparr>"
  define ping where "ping = (\<lambda>(c :: string) d. if c = ''localhost:6379'' \<and> d = 5 * Second then None else Some ''refused'')"
  obtain r n where rn: "redis_Open (\<lambda>_. Inl ''bad'') ro_Addr ping cfg = (r, n)" by fastforce
  have b: "ro_Addr (redis_limits cfg (redis_base cfg)) = ''localhost:6379''"
    by (simp add: cfg_def redis_limits_def redis_base_def)
  have "rcf_URL cfg = []" "ping ''localhost:6379'' (5 * Second) = None" by (simp_all add: cfg_def ping_def)
  then have "r = Inr ''localhost:6379'' \<and> n = 1"
    using conjunct1 [OF redis_open_verifies [OF rn]] rn b by (simp add: redis_Open_def Let_def)
  then show ?thesis using rn unfolding cfg_def ping_def by (simp only:)
qed

end
