(* ===== verification/SiteViews.thy ===== *)
theory SiteViews
  imports Http
begin

text \<open>
  The pages of the web site as content: \<^verbatim>\<open>doc.go\<close>, \<^verbatim>\<open>inline.go\<close>, \<^verbatim>\<open>meta.go\<close>, \<^verbatim>\<open>seo.go\<close> and the links and
  the lookup of \<^verbatim>\<open>content.go\<close> in \<^verbatim>\<open>site/resources/views\<close>.

  A page is written once and rendered twice, as markdown and, line by line, as HTML.  The prose itself is data of
  the pages and not repeated here: the written pages are an argument where an operation goes over them.  The structured
  data is a tree whose encoding as JSON is an argument.
\<close>

section \<open>One line as HTML\<close>

text \<open>\<^verbatim>\<open>html.EscapeString\<close>.\<close>

fun escape_char_html :: "char \<Rightarrow> string" where
  "escape_char_html c =
     (if c = CHR ''&'' then ''&amp;'' else if c = CHR 0x27 then ''&#39;'' else if c = CHR ''<'' then ''&lt;''
      else if c = CHR ''>'' then ''&gt;'' else if c = CHR 0x22 then ''&#34;'' else [c])"

declare escape_char_html.simps [simp del]

definition html_escape :: "string \<Rightarrow> string" where
  "html_escape s = concat (map escape_char_html s)"

text \<open>\<^verbatim>\<open>strings.Index\<close>, as what comes before the first occurrence and what starts with it.\<close>

fun find_str :: "string \<Rightarrow> string \<Rightarrow> (string \<times> string) option" where
  "find_str p [] = (if p = [] then Some ([], []) else None)"
| "find_str p (c # cs) =
     (if has_prefix (c # cs) p then Some ([], c # cs) else map_option (\<lambda>(a, b). (c # a, b)) (find_str p cs))"

definition find_url :: "string \<Rightarrow> (string \<times> string) option" where
  "find_url s = (case find_str ''https://'' s of Some r \<Rightarrow> Some r | None \<Rightarrow> find_str ''http://'' s)"

definition url_char :: "char \<Rightarrow> bool" where
  "url_char c = (c \<notin> {CHR '' '', CHR 0x09, CHR 0x22, CHR ''<'', CHR '')''})"

definition sentence_end :: "char \<Rightarrow> bool" where
  "sentence_end c = (c \<in> {CHR ''.'', CHR '','', CHR '';'', CHR '':''})"

definition quote_mark :: string where "quote_mark = [CHR 0x22]"

definition anchor :: "string \<Rightarrow> string" where
  "anchor u = ''<a href='' @ quote_mark @ u @ quote_mark @ '' rel='' @ quote_mark @ ''noopener'' @ quote_mark @ ''>'' @ u @ ''</a>''"

lemma find_str_append: "find_str p s = Some (a, b) \<Longrightarrow> s = a @ b \<and> has_prefix b p"
  by (induction s arbitrary: a) (auto simp: has_prefix_def split: if_splits)

lemma find_url_append:
  "find_url s = Some (a, b) \<Longrightarrow> s = a @ b \<and> (has_prefix b ''https://'' \<or> has_prefix b ''http://'')"
  by (auto simp: find_url_def split: option.splits dest: find_str_append)

function linkify :: "string \<Rightarrow> string" where
  "linkify rest =
     (case find_url rest of
        None \<Rightarrow> rest
      | Some (pre, u) \<Rightarrow>
          (let url = takeWhile url_char u;
               trimmed = rev (dropWhile sentence_end (rev url));
               tail = drop (length trimmed) url
           in pre @ anchor trimmed @ tail @ linkify (dropWhile url_char u)))"
  by pat_completeness auto

lemma url_start: "has_prefix b ''https://'' \<or> has_prefix b ''http://'' \<Longrightarrow> \<exists>t. b = CHR ''h'' # t"
  by (cases b) (auto simp: has_prefix_def)

lemma dropWhile_url_shorter:
  assumes "find_url r = Some (pre, u)"
  shows "length (dropWhile url_char u) < length r"
proof -
  obtain t where "r = pre @ u" "u = CHR ''h'' # t" using find_url_append [OF assms] url_start by blast
  then show ?thesis using length_dropWhile_le [of url_char t] by (simp add: url_char_def)
qed

termination linkify
  by (relation "measure length") (auto dest: dropWhile_url_shorter)

declare linkify.simps [simp del]

fun inline_parts :: "bool \<Rightarrow> string list \<Rightarrow> string" where
  "inline_parts code [] = []"
| "inline_parts code [p] = linkify (html_escape p)"
| "inline_parts code (p # q # ps) =
     (if code then ''<code>'' @ html_escape p @ ''</code>'' else linkify (html_escape p)) @ inline_parts (\<not> code) (q # ps)"

definition backtick :: char where "backtick = CHR 0x60"

definition inlineHTML :: "string \<Rightarrow> string" where
  "inlineHTML s = inline_parts False (split_on backtick s)"

section \<open>The head of a page\<close>

definition Origin :: string where "Origin = ''https://ryla.io''"
definition Repository :: string where "Repository = ''https://github.com/Dshonored/ryla''"
definition Maintainer :: string where "Maintainer = ''Dshonored''"
definition MaintainerURL :: string where "MaintainerURL = ''https://github.com/Dshonored''"

text \<open>The bytes of the em dash with its spaces.\<close>

definition dash :: string where "dash = [CHR '' '', CHR 0xE2, CHR 0x80, CHR 0x94, CHR '' '']"

definition nl :: string where "nl = [CHR 0x0A]"

record Meta =
  meta_Title :: string
  meta_Description :: string
  meta_Path :: string
  meta_NoIndex :: bool
  meta_JSONLD :: string

definition meta_Canonical :: "Meta \<Rightarrow> string" where
  "meta_Canonical m = (if meta_Path m = [] then Origin @ ''/'' else Origin @ meta_Path m)"

definition markdown_path :: "string \<Rightarrow> string" where
  "markdown_path p = (if p = [] \<or> p = ''/'' then ''/index.md'' else trim_suffix p ''/'' @ ''.md'')"

definition meta_MarkdownPath :: "Meta \<Rightarrow> string" where
  "meta_MarkdownPath m = markdown_path (meta_Path m)"

definition meta_MarkdownURL :: "Meta \<Rightarrow> string" where
  "meta_MarkdownURL m = Origin @ meta_MarkdownPath m"

section \<open>Pages\<close>

record Point =
  pt_Term :: string
  pt_Detail :: string

record Section =
  se_Heading :: string
  se_Body :: "string list"
  se_Points :: "Point list"

record Link =
  ln_Label :: string
  ln_URL :: string
  ln_Note :: string

record Doc =
  doc_Slug :: string
  doc_Eyebrow :: string
  doc_Title :: string
  doc_Summary :: string
  doc_Sections :: "Section list"
  doc_Links :: "Link list"
  doc_Unaddressed :: bool

definition doc_Path :: "Doc \<Rightarrow> string" where
  "doc_Path d = ''/'' @ doc_Slug d"

definition doc_MarkdownPath :: "Doc \<Rightarrow> string" where
  "doc_MarkdownPath d = markdown_path (doc_Path d)"

definition section_markdown :: "Section \<Rightarrow> string" where
  "section_markdown s =
     (if se_Heading s \<noteq> [] then ''## '' @ se_Heading s @ nl @ nl else [])
     @ concat (map (\<lambda>p. p @ nl @ nl) (se_Body s))
     @ concat (map (\<lambda>p. ''- **'' @ pt_Term p @ ''**'' @ dash @ pt_Detail p @ nl) (se_Points s))
     @ (if se_Points s \<noteq> [] then nl else [])"

definition link_markdown :: "Link \<Rightarrow> string" where
  "link_markdown l =
     ''- ['' @ ln_Label l @ '']('' @ ln_URL l @ '')'' @ (if ln_Note l \<noteq> [] then dash @ ln_Note l else []) @ nl"

definition doc_Markdown :: "Doc \<Rightarrow> string" where
  "doc_Markdown d =
     ''# '' @ doc_Title d @ nl @ nl
     @ (if doc_Summary d \<noteq> [] then ''> '' @ doc_Summary d @ nl @ nl else [])
     @ concat (map section_markdown (doc_Sections d))
     @ (if doc_Links d \<noteq> []
        then ''## Elsewhere on this site'' @ nl @ nl @ concat (map link_markdown (doc_Links d)) @ nl else [])
     @ (if \<not> doc_Unaddressed d then ''Canonical URL: '' @ Origin @ doc_Path d @ nl else [])"

text \<open>The closing links.\<close>

definition all_links :: "Link list" where
  "all_links =
     map (\<lambda>(l, u, n). \<lparr>ln_Label = l, ln_URL = u, ln_Note = n\<rparr>)
       [(''Home'', Origin @ ''/'', ''what Ryla is, in one page''),
        (''About'', Origin @ ''/about'', ''the project, its scope and who maintains it''),
        (''Contact'', Origin @ ''/contact'', ''how to reach the maintainer''),
        (''Privacy'', Origin @ ''/privacy'', ''what this site stores, and what it does not''),
        (''llms.txt'', Origin @ ''/llms.txt'', ''the facts, and when an agent should reach for Ryla''),
        (''Agent instructions'', Origin @ ''/agents.md'', ''how an agent should use this site and the CLI''),
        (''Sitemap'', Origin @ ''/sitemap.xml'', ''every indexable page''),
        (''Source'', Repository, ''the code, the issues and the releases'')]"

definition siteLinks :: "string \<Rightarrow> Link list" where
  "siteLinks except = filter (\<lambda>l. ln_Label l \<noteq> except) all_links"

definition HomeLinks :: "Link list" where
  "HomeLinks = siteLinks ''Home''"

definition DocBySlug :: "Doc list \<Rightarrow> string \<Rightarrow> Doc option" where
  "DocBySlug docs slug = find (\<lambda>d. doc_Slug d = slug) docs"

section \<open>Structured data\<close>

datatype json = J_String string | J_List "json list" | J_Object "(string \<times> json) list"

definition j_id :: "string \<Rightarrow> json" where
  "j_id i = J_Object [(''@id'', J_String i)]"

definition idSource :: string where "idSource = Origin @ ''/#ryla''"
definition idCLI :: string where "idCLI = Origin @ ''/#ry''"
definition idSite :: string where "idSite = Origin @ ''/#website''"
definition idAuthor :: string where "idAuthor = MaintainerURL @ ''#me''"
definition licenseMI :: string where "licenseMI = ''https://opensource.org/licenses/MIT''"

definition jsonLD :: "(json \<Rightarrow> string option) \<Rightarrow> json \<Rightarrow> string" where
  "jsonLD marshal doc =
     (case marshal doc of
        None \<Rightarrow> []
      | Some raw \<Rightarrow> ''<script type='' @ quote_mark @ ''application/ld+json'' @ quote_mark @ ''>'' @ raw @ ''</script>'')"

definition page_type :: "string \<Rightarrow> string" where
  "page_type slug = (if slug = ''about'' then ''AboutPage'' else if slug = ''contact'' then ''ContactPage'' else ''WebPage'')"

definition publisher :: json where
  "publisher =
     J_Object [(''@type'', J_String ''Person''), (''@id'', J_String idAuthor), (''name'', J_String Maintainer),
       (''url'', J_String MaintainerURL), (''jobTitle'', J_String ''Software developer''),
       (''sameAs'', J_List [J_String MaintainerURL, J_String Repository])]"

definition pageStructuredData :: "(json \<Rightarrow> string option) \<Rightarrow> Doc \<Rightarrow> string" where
  "pageStructuredData marshal d =
     jsonLD marshal (J_Object
       [(''@context'', J_String ''https://schema.org''), (''@type'', J_String (page_type (doc_Slug d))),
        (''name'', J_String (doc_Title d)), (''headline'', J_String (doc_Title d)), (''description'', J_String (doc_Summary d)),
        (''url'', J_String (Origin @ doc_Path d)), (''inLanguage'', J_String ''en''), (''isPartOf'', j_id idSite),
        (''about'', j_id idSource), (''publisher'', publisher), (''license'', J_String licenseMI)])"

definition doc_Meta :: "(json \<Rightarrow> string option) \<Rightarrow> Doc \<Rightarrow> Meta" where
  "doc_Meta marshal d =
     \<lparr>meta_Title = (if contains_str (doc_Title d) ''Ryla'' then doc_Title d else doc_Title d @ dash @ ''Ryla''),
      meta_Description = doc_Summary d, meta_Path = doc_Path d, meta_NoIndex = False,
      meta_JSONLD = pageStructuredData marshal d\<rparr>"

text \<open>The graph of the landing page: four nodes, of which the first two carry the version of a release.\<close>

record Site =
  site_Version :: string
  site_Repo :: string

definition site_URL :: "Site \<Rightarrow> string" where
  "site_URL s = ''https://github.com/'' @ site_Repo s"

definition j_fields :: "(string \<times> string) list \<Rightarrow> (string \<times> json) list" where
  "j_fields = map (\<lambda>(k, v). (k, J_String v))"

definition j_author :: json where
  "j_author =
     J_Object (j_fields [(''@type'', ''Person''), (''@id'', idAuthor), (''name'', Maintainer), (''url'', MaintainerURL),
         (''jobTitle'', ''Software developer''),
         (''description'', ''Author and maintainer of Ryla, a batteries-included web framework for Go.'')]
       @ [(''sameAs'', J_List [J_String MaintainerURL, J_String Repository])])"

definition version_field :: "Site \<Rightarrow> (string \<times> json) list" where
  "version_field s =
     (if site_Version s \<noteq> [] \<and> site_Version s \<noteq> ''dev'' then [(''softwareVersion'', J_String (site_Version s))] else [])"


definition Description :: string where
  "Description = ''A batteries-included web framework for Go. Routing, ORM, migrations, '' @
     ''auth, queues, mail, cache and a scheduler already wired together, and a CLI that writes '' @
     ''the boilerplate as real Go files you can read and delete.''"

definition j_source :: "Site \<Rightarrow> json" where
  "j_source s =
     J_Object (j_fields [(''@type'', ''SoftwareSourceCode''), (''@id'', idSource), (''name'', ''Ryla''), (''alternateName'', ''Ryla for Go''),
         (''description'', Description), (''url'', Origin @ ''/''), (''codeRepository'', site_URL s), (''license'', licenseMI)]
       @ [(''sameAs'', J_List [J_String (site_URL s), J_String ''https://pkg.go.dev/github.com/Dshonored/ryla'']),
          (''programmingLanguage'', J_Object (j_fields [(''@type'', ''ComputerLanguage''), (''name'', ''Go'')])),
          (''runtimePlatform'', J_String ''Go''),
          (''keywords'', J_String ''go, golang, web framework, laravel, orm, migrations, cli, scaffolding''),
          (''author'', j_author), (''maintainer'', j_id idAuthor), (''targetProduct'', j_id idCLI)]
       @ version_field s)"

definition j_cli :: "Site \<Rightarrow> json" where
  "j_cli s =
     J_Object (j_fields [(''@type'', ''SoftwareApplication''), (''@id'', idCLI), (''name'', ''ry''), (''alternateName'', ''Ryla CLI''),
         (''description'', ''The Ryla command-line tool. Scaffolds a Go project, runs it with live reload, applies migrations, '' @
            ''generates controllers, models, jobs and tests, and compiles the whole application into one static binary.''),
         (''url'', Origin @ ''/''), (''downloadUrl'', Origin @ ''/install.sh''), (''installUrl'', Origin @ ''/install.sh''),
         (''applicationCategory'', ''DeveloperApplication''), (''operatingSystem'', ''macOS, Linux, Windows''), (''license'', licenseMI)]
       @ [(''sameAs'', J_List [J_String (site_URL s)]), (''author'', j_id idAuthor), (''isBasedOn'', j_id idSource),
          (''offers'', J_Object (j_fields [(''@type'', ''Offer''), (''price'', ''0''), (''priceCurrency'', ''USD''),
             (''availability'', ''https://schema.org/InStock''), (''url'', Origin @ ''/'')]))]
       @ version_field s)"

definition j_site :: json where
  "j_site =
     J_Object (j_fields [(''@type'', ''WebSite''), (''@id'', idSite), (''name'', ''Ryla'')]
       @ [(''alternateName'', J_List [J_String ''ryla.io'', J_String ''Ryla framework''])]
       @ j_fields [(''description'', Description), (''url'', Origin @ ''/''), (''inLanguage'', ''en'')]
       @ [(''about'', j_id idSource), (''publisher'', j_id idAuthor)])"

definition structuredData :: "(json \<Rightarrow> string option) \<Rightarrow> Site \<Rightarrow> string" where
  "structuredData marshal s =
     jsonLD marshal (J_Object [(''@context'', J_String ''https://schema.org''),
       (''@graph'', J_List [j_source s, j_cli s, j_site, j_author])])"

text \<open>\<^verbatim>\<open>AriaInvalid\<close> of a field, given whether the error bag has it.\<close>

definition AriaInvalid :: "bool \<Rightarrow> string" where
  "AriaInvalid has = (if has then ''true'' else ''false'')"

section \<open>Nothing in a page becomes markup\<close>

datatype html_item = I_Text string | I_Code string | I_Link string

primrec render_item :: "html_item \<Rightarrow> string" where
  "render_item (I_Text t) = t"
| "render_item (I_Code t) = ''<code>'' @ t @ ''</code>''"
| "render_item (I_Link u) = anchor u"

primrec item_text :: "html_item \<Rightarrow> string" where
  "item_text (I_Text t) = t"
| "item_text (I_Code t) = t"
| "item_text (I_Link u) = u"

definition inert :: "string \<Rightarrow> bool" where
  "inert t = (set t \<inter> {CHR ''<'', CHR ''>'', CHR 0x22, CHR 0x27} = {})"

definition safe_item :: "html_item \<Rightarrow> bool" where
  "safe_item i = (inert (item_text i)
     \<and> (case i of I_Link u \<Rightarrow> has_prefix u ''https://'' \<or> has_prefix u ''http://'' | _ \<Rightarrow> True))"

lemma inert_append [simp]: "inert (a @ b) \<longleftrightarrow> inert a \<and> inert b"
  by (auto simp: inert_def)

lemma inert_Nil [simp]: "inert []"
  by (simp add: inert_def)

lemma inert_subset: "inert s \<Longrightarrow> set t \<subseteq> set s \<Longrightarrow> inert t"
  by (auto simp: inert_def)

lemma escape_char_inert: "inert (escape_char_html c)"
  by (simp add: escape_char_html.simps inert_def)

lemma html_escape_inert: "inert (html_escape s)"
  by (induction s) (auto simp: html_escape_def escape_char_inert)

lemma html_escape_append [simp]: "html_escape (a @ b) = html_escape a @ html_escape b"
  by (simp add: html_escape_def)

lemma html_escape_Nil [simp]: "html_escape [] = []"
  by (simp add: html_escape_def)

lemma rev_dropWhile_take: "\<exists>n. rev (dropWhile P (rev s)) = take n s"
  by (metis dropWhile_eq_drop drop_rev rev_rev_ident)

lemma trim_keeps_prefix:
  assumes "has_prefix u p" and "p \<noteq> []" and "\<not> P (last p)"
  shows "has_prefix (rev (dropWhile P (rev u))) p"
proof -
  obtain t where u: "u = p @ t" using assms(1) by (metis append_take_drop_id has_prefix_def)
  have "dropWhile P (rev p) = rev p" using assms(2,3) by (cases "rev p") (auto simp: last_rev [of "rev p", simplified])
  then have "\<exists>t'. rev (dropWhile P (rev u)) = p @ t'"
    by (cases "\<forall>x \<in> set t. P x") (auto simp: u dropWhile_append)
  then show ?thesis by (auto simp: has_prefix_def)
qed

lemma url_takeWhile:
  assumes "has_prefix u p" and "\<forall>c \<in> set p. url_char c"
  shows "has_prefix (takeWhile url_char u) p"
proof -
  obtain t where "u = p @ t" using assms(1) by (metis append_take_drop_id has_prefix_def)
  then show ?thesis using assms(2) by (simp add: has_prefix_def)
qed

definition rendering :: "html_item list \<Rightarrow> string \<Rightarrow> string \<Rightarrow> bool" where
  "rendering items out plain = (out = concat (map render_item items) \<and> list_all safe_item items \<and> concat (map item_text items) = plain)"

lemma linkify_rendering: "inert s \<Longrightarrow> \<exists>items. rendering items (linkify s) s"
proof (induction s rule: linkify.induct)
  case (1 s)
  show ?case
  proof (cases "find_url s")
    case None
    then show ?thesis using "1.prems" by (intro exI [of _ "[I_Text s]"]) (simp add: rendering_def linkify.simps safe_item_def)
  next
    case (Some r)
    obtain pre u where r: "r = (pre, u)" by (cases r)
    let ?url = "takeWhile url_char u"
    let ?tr = "rev (dropWhile sentence_end (rev ?url))"
    let ?tail = "drop (length ?tr) ?url"
    have s: "s = pre @ u" and pr: "has_prefix u ''https://'' \<or> has_prefix u ''http://''"
      using find_url_append [of s pre u] Some r by auto
    have u: "u = ?url @ dropWhile url_char u" by simp
    obtain n where n: "?tr = take n ?url" using rev_dropWhile_take by blast
    have url: "?url = ?tr @ ?tail" unfolding n by (simp add: min_def)
    have i: "inert pre" "inert ?tr" "inert ?tail" "inert (dropWhile url_char u)"
      using "1.prems" s u url by (metis inert_append)+
    obtain items where it: "rendering items (linkify (dropWhile url_char u)) (dropWhile url_char u)"
      using "1.IH" [OF Some r [symmetric] refl refl refl] i(4) by auto
    have "has_prefix ?tr ''https://'' \<or> has_prefix ?tr ''http://''"
      using pr by (auto intro!: trim_keeps_prefix url_takeWhile simp: url_char_def sentence_end_def)
    then have safe: "safe_item (I_Link ?tr)" using i(2) by (simp add: safe_item_def)
    have l: "linkify s = pre @ anchor ?tr @ ?tail @ linkify (dropWhile url_char u)"
      using Some r by (simp add: linkify.simps [of s] Let_def)
    have whole: "pre @ ?tr @ ?tail @ dropWhile url_char u = s" using s u url by (metis append.assoc)
    show ?thesis
      by (rule exI [of _ "[I_Text pre, I_Link ?tr, I_Text ?tail] @ items"])
         (use it i safe l whole in \<open>simp add: rendering_def safe_item_def [of "I_Text _"]\<close>)
  qed
qed


lemma rendering_append: "rendering is a s \<Longrightarrow> rendering js b t \<Longrightarrow> rendering (is @ js) (a @ b) (s @ t)"
  by (simp add: rendering_def)

lemma code_rendering: "rendering [I_Code (html_escape p)] (''<code>'' @ html_escape p @ ''</code>'') (html_escape p)"
  by (simp add: rendering_def safe_item_def html_escape_inert)

lemma inline_parts_rendering: "\<exists>items. rendering items (inline_parts code ps) (html_escape (concat ps))"
proof (induction code ps rule: inline_parts.induct)
  case (1 code)
  then show ?case by (intro exI [of _ "[]"]) (simp add: rendering_def)
next
  case (2 code p)
  then show ?case using linkify_rendering [OF html_escape_inert, of p] by simp
next
  case (3 code p q ps)
  then obtain items where rest: "rendering items (inline_parts (\<not> code) (q # ps)) (html_escape (concat (q # ps)))" by blast
  let ?out = "if code then ''<code>'' @ html_escape p @ ''</code>'' else linkify (html_escape p)"
  have "\<exists>js. rendering js ?out (html_escape p)"
    using linkify_rendering [OF html_escape_inert, of p] code_rendering [of p] by (simp only: split: if_split) blast
  then obtain js where "rendering js ?out (html_escape p)" ..
  from rendering_append [OF this rest] have "rendering (js @ items) (inline_parts code (p # q # ps)) (html_escape (concat (p # q # ps)))"
    by (simp only: inline_parts.simps concat.simps html_escape_append)
  then show ?case ..
qed

lemma concat_split_on: "concat (split_on c s) = filter (\<lambda>x. x \<noteq> c) s"
  by (induction s) (auto split: list.split simp: split_on_not_Nil)

text \<open>C39. A line of a page cannot inject markup.  The HTML of any line is a sequence of text, code elements and links, in
  which the text, the code and the addresses hold no angle bracket and no quote, every address starts with
  \<^verbatim>\<open>https://\<close> or \<^verbatim>\<open>http://\<close>, and what the reader sees is exactly the escaped line without its backticks.\<close>

theorem inline_html_inert:
  "\<exists>items. inlineHTML s = concat (map render_item items) \<and> list_all safe_item items
         \<and> concat (map item_text items) = html_escape (filter (\<lambda>c. c \<noteq> backtick) s)"
  using inline_parts_rendering [of False "split_on backtick s"]
  by (simp add: inlineHTML_def rendering_def concat_split_on)

text \<open>Two ways in which the links come out wrong.  The search for the end of an address looks for quotes and angle brackets in
  text that was escaped before and holds none: an address in quotes takes the escaped quote into the link, cut off
  at its semicolon.  And an address with \<^verbatim>\<open>http://\<close> that stands before one with \<^verbatim>\<open>https://\<close> is not linked at all.\<close>

theorem inline_html_broken_links:
  "inlineHTML (quote_mark @ ''https://x.io'' @ quote_mark) = ''&#34;'' @ anchor ''https://x.io&#34'' @ '';''
   \<and> inlineHTML ''http://a.io https://b.io'' = ''http://a.io '' @ anchor ''https://b.io''"
  by code_simp

end
