(* ===== verification/SiteHttp.thy ===== *)
theory SiteHttp
  imports SiteViews Router
begin

text \<open>
  How the web site answers: the controllers (\<^verbatim>\<open>site/app/controllers\<close>), the redirect to https
  (\<^verbatim>\<open>site/app/middleware/https.go\<close>), the routes (\<^verbatim>\<open>site/routes/web.go\<close>) and the rendering of views
  (\<^verbatim>\<open>view/view.go\<close>).

  A handler takes a request and the response so far to the response after it.  Components of templ, the JSON
  decoder and the parser of floating-point numbers are arguments; a component renders to a text or fails.
\<close>

section \<open>Rendering\<close>

type_synonym component = "(string, string) result"
type_synonym site_handler = "request \<Rightarrow> response \<Rightarrow> response"

definition resp_header :: "string \<Rightarrow> response \<Rightarrow> string" where
  "resp_header k w = (case map_of (resp_Header w) k of None \<Rightarrow> [] | Some v \<Rightarrow> v)"

definition header_Add :: "string \<Rightarrow> string \<Rightarrow> response \<Rightarrow> response" where
  "header_Add k v w = w\<lparr>resp_Header := resp_Header w @ [(k, v)]\<rparr>"

definition HTMLType :: string where "HTMLType = ''text/html; charset=utf-8''"
definition MarkdownType :: string where "MarkdownType = ''text/markdown; charset=utf-8''"
definition varyAccept :: string where "varyAccept = ''Accept, Accept-Encoding''"

text \<open>\<^verbatim>\<open>view.RenderStatus\<close> renders into a buffer, so that a failure leaves the response untouched.\<close>

definition view_RenderStatus :: "nat \<Rightarrow> component \<Rightarrow> response \<Rightarrow> string option \<times> response" where
  "view_RenderStatus status c w =
     (case c of
        Inl e \<Rightarrow> (Some e, w)
      | Inr page \<Rightarrow>
          (let w1 = (if resp_header ''Content-Type'' w = [] then header_Set ''Content-Type'' HTMLType w else w)
           in (None, write_body page (write_header status w1))))"

definition view_Render :: "component \<Rightarrow> response \<Rightarrow> string option \<times> response" where
  "view_Render = view_RenderStatus 200"

text \<open>The helpers of every controller; a failure to render is logged and answered with 500.\<close>

definition base_RenderStatus :: "nat \<Rightarrow> component \<Rightarrow> response \<Rightarrow> response" where
  "base_RenderStatus status c w =
     (case view_RenderStatus status c w of (None, w') \<Rightarrow> w' | (Some _, w') \<Rightarrow> http_Error ''Internal Server Error'' 500 w')"

definition base_Render :: "component \<Rightarrow> response \<Rightarrow> response" where
  "base_Render = base_RenderStatus 200"

definition base_Redirect :: "string \<Rightarrow> response \<Rightarrow> response" where
  "base_Redirect url w = http_Redirect url 303 w"

definition base_JSON :: "nat \<Rightarrow> string option \<Rightarrow> response \<Rightarrow> response" where
  "base_JSON status encoded w =
     (let w1 = write_header status (header_Set ''Content-Type'' ''application/json; charset=utf-8'' w)
      in case encoded of None \<Rightarrow> w1 | Some b \<Rightarrow> write_body (b @ nl) w1)"

section \<open>Negotiation\<close>

text \<open>Quality values as the parser of floating-point numbers gives them: a number, or the value that compares with
  nothing.  Infinities are outside the interval and treated as such by the code.\<close>

datatype quality = QNaN | Q rat

fun q_gt :: "quality \<Rightarrow> quality \<Rightarrow> bool" where
  "q_gt (Q a) (Q b) = (a > b)"
| "q_gt _ _ = False"

fun q_eq :: "quality \<Rightarrow> quality \<Rightarrow> bool" where
  "q_eq (Q a) (Q b) = (a = b)"
| "q_eq _ _ = False"

definition slash_char :: char where "slash_char = CHR ''/''"

fun quality_params :: "(string \<Rightarrow> quality option) \<Rightarrow> string list \<Rightarrow> quality" where
  "quality_params parse [] = Q 1"
| "quality_params parse (p # ps) =
     (case cut (CHR ''='') p of (name, v, ok) \<Rightarrow>
        if \<not> ok \<or> to_lower (trim_space name) \<noteq> ''q'' then quality_params parse ps
        else case parse (trim_space v) of
               None \<Rightarrow> Q 1
             | Some q \<Rightarrow> if q_gt (Q 0) q then Q 1 else if q_gt q (Q 1) then Q 1 else q)"

definition quality1 :: "(string \<Rightarrow> quality option) \<Rightarrow> string \<Rightarrow> quality" where
  "quality1 parse params = quality_params parse (split_on (CHR '';'') params)"

text \<open>One media range against a type: how specifically it names it and with which quality.\<close>

definition range_spec :: "string \<Rightarrow> string \<Rightarrow> string \<Rightarrow> string \<Rightarrow> nat option" where
  "range_spec rt rs typ sub =
     (if rt = typ \<and> rs = sub then Some 2 else if rt = typ \<and> rs = ''*'' then Some 1
      else if rt = ''*'' \<and> rs = ''*'' then Some 0 else None)"

definition media_range :: "(string \<Rightarrow> quality option) \<Rightarrow> string \<Rightarrow> string \<Rightarrow> string \<Rightarrow> (nat \<times> quality) option" where
  "media_range parse typ sub entry =
     (case cut (CHR '';'') (trim_space entry) of (rangeSpec, params, _) \<Rightarrow>
        (case cut slash_char (trim_space rangeSpec) of (rt, rs, ok) \<Rightarrow>
           if \<not> ok then None
           else map_option (\<lambda>spec. (spec, quality1 parse params))
                  (range_spec (to_lower (trim_space rt)) (to_lower (trim_space rs)) typ sub)))"

fun acceptable_step :: "quality \<times> nat \<Rightarrow> nat \<times> quality \<Rightarrow> quality \<times> nat" where
  "acceptable_step (q0, s0) (s, q) = (if s > s0 \<or> (s = s0 \<and> q_gt q q0) then (q, s) else (q0, s0))"

definition acceptable :: "(string \<Rightarrow> quality option) \<Rightarrow> string \<Rightarrow> string \<Rightarrow> string \<Rightarrow> quality \<times> nat" where
  "acceptable parse accept typ sub =
     foldl acceptable_step (Q 0, 0) (List.map_filter (media_range parse typ sub) (split_on (CHR '','') accept))"

definition prefersMarkdown :: "(string \<Rightarrow> quality option) \<Rightarrow> request \<Rightarrow> bool" where
  "prefersMarkdown parse r =
     (let accept = header_Get r ''Accept'' in
      if accept = [] then False
      else (case (acceptable parse accept ''text'' ''markdown'', acceptable parse accept ''text'' ''x-markdown'') of
              ((q1, s1), (q2, s2)) \<Rightarrow>
                (case (if q_gt q2 q1 \<or> (q_eq q2 q1 \<and> s2 > s1) then (q2, s2) else (q1, s1)) of
                   (mdQ, mdSpec) \<Rightarrow>
                     if q_eq mdQ (Q 0) then False
                     else (case acceptable parse accept ''text'' ''html'' of
                             (htmlQ, htmlSpec) \<Rightarrow> if \<not> q_eq mdQ htmlQ then q_gt mdQ htmlQ else mdSpec > htmlSpec))))"

definition negotiable :: "Meta \<Rightarrow> response \<Rightarrow> response" where
  "negotiable m w =
     header_Add ''Link'' (''<'' @ meta_MarkdownURL m @ ''>; rel='' @ quote_mark @ ''alternate'' @ quote_mark @ ''; type='' @ quote_mark
        @ ''text/markdown'' @ quote_mark) (header_Set ''Vary'' varyAccept w)"

definition writeMarkdown :: "nat \<Rightarrow> string \<Rightarrow> response \<Rightarrow> response" where
  "writeMarkdown status body w =
     write_body body (write_header status (header_Set ''Vary'' varyAccept
       (header_Set ''X-Content-Type-Options'' ''nosniff'' (header_Set ''Content-Type'' MarkdownType w))))"

definition writeMarkdownAlias :: "string \<Rightarrow> string \<Rightarrow> response \<Rightarrow> response" where
  "writeMarkdownAlias canonical body w =
     writeMarkdown 200 body (header_Add ''Link'' (''<'' @ canonical @ ''>; rel='' @ quote_mark @ ''canonical'' @ quote_mark)
       (header_Set ''X-Robots-Tag'' ''noindex, nofollow'' w))"

text \<open>\<^verbatim>\<open>echoPath\<close> goes over the runes of a text, each given by its width in the text and its encoding; an invalid byte has
  width one and is written as the replacement rune.\<close>

definition unwanted :: "string \<Rightarrow> bool" where
  "unwanted r = (case r of [c] \<Rightarrow> (of_char c :: nat) < 0x20 \<or> c = CHR 0x7F \<or> c \<in> {CHR 0x60, CHR ''<'', CHR ''>''} | _ \<Rightarrow> False)"

fun echo_loop :: "nat \<Rightarrow> (nat \<times> string) list \<Rightarrow> string" where
  "echo_loop i [] = []"
| "echo_loop i ((n, r) # rs) =
     (if i \<ge> 80 then [CHR 0xE2, CHR 0x80, CHR 0xA6]
      else (if unwanted r then ''?'' else r) @ echo_loop (i + n) rs)"

definition echoPath :: "(string \<Rightarrow> (nat \<times> string) list) \<Rightarrow> string \<Rightarrow> string" where
  "echoPath runes p = echo_loop 0 (runes p)"


section \<open>The redirect to https\<close>

text \<open>The scheme the browser used, as a proxy in front of the process reports it.  The first argument reads the scheme of
  the JSON text of a header, if it is one.\<close>

definition visitorScheme :: "(string \<Rightarrow> string option) \<Rightarrow> request \<Rightarrow> string option" where
  "visitorScheme unmarshal r =
     (let raw = header_Get r ''CF-Visitor'';
          visitor = (if raw \<noteq> [] then (case unmarshal raw of Some s \<Rightarrow> if s \<noteq> [] then Some s else None | None \<Rightarrow> None) else None)
      in case visitor of
           Some s \<Rightarrow> Some s
         | None \<Rightarrow>
             (let first = trim_space (fst (cut (CHR '','') (header_Get r ''X-Forwarded-Proto'')))
              in if first \<noteq> [] then Some first else None))"

definition HSTS :: string where "HSTS = ''max-age=63072000''"

definition ForceHTTPS :: "(string \<Rightarrow> string option) \<Rightarrow> string \<Rightarrow> bool \<Rightarrow> site_handler \<Rightarrow> site_handler" where
  "ForceHTTPS unmarshal host tls inner r w =
     (case visitorScheme unmarshal r of
        None \<Rightarrow> inner r w
      | Some proto \<Rightarrow>
          if \<not> equal_fold proto ''https'' \<and> \<not> tls then http_Redirect (''https://'' @ host @ req_URI r) 308 w
          else inner r (header_Set ''Strict-Transport-Security'' HSTS w))"

section \<open>The controllers\<close>

text \<open>The written pages, with the component each renders to.\<close>

definition pages_Show :: "(string \<Rightarrow> quality option) \<Rightarrow> (json \<Rightarrow> string option) \<Rightarrow> (Doc \<Rightarrow> component) \<Rightarrow> Doc \<Rightarrow> site_handler" where
  "pages_Show parse marshal prose d r w =
     (if prefersMarkdown parse r then writeMarkdown 200 (doc_Markdown d) w
      else base_Render (prose d) (negotiable (doc_Meta marshal d) w))"

definition pages_Markdown :: "Doc \<Rightarrow> site_handler" where
  "pages_Markdown d r w = writeMarkdownAlias (Origin @ doc_Path d) (doc_Markdown d) w"

definition pages_NotFound :: "(string \<Rightarrow> quality option) \<Rightarrow> Doc \<Rightarrow> (Doc \<Rightarrow> component) \<Rightarrow> site_handler" where
  "pages_NotFound parse notFound page r w =
     (if prefersMarkdown parse r then writeMarkdown 404 (doc_Markdown notFound) w
      else base_RenderStatus 404 (page notFound) (header_Set ''Vary'' varyAccept w))"

definition method_body :: "(string \<Rightarrow> (nat \<times> string) list) \<Rightarrow> request \<Rightarrow> string" where
  "method_body runes r =
     ''# Method not allowed'' @ nl @ nl @ ''> '' @ [backtick] @ echoPath runes (req_Method r @ '' '' @ req_Path r) @ [backtick]
     @ '' is not something this site answers. Every address here is a GET.'' @ nl @ nl
     @ ''- [Home]('' @ Origin @ ''/)'' @ nl
     @ ''- [llms.txt]('' @ Origin @ ''/llms.txt)'' @ dash @ ''what Ryla is, and when to reach for it'' @ nl
     @ ''- [Sitemap]('' @ Origin @ ''/sitemap.xml)'' @ dash @ ''every indexable page'' @ nl"

definition pages_MethodNotAllowed :: "(string \<Rightarrow> (nat \<times> string) list) \<Rightarrow> site_handler" where
  "pages_MethodNotAllowed runes r w = writeMarkdown 405 (method_body runes r) (header_Set ''Allow'' ''GET, HEAD'' w)"

text \<open>The landing page, from the features, the figures and the states the page shows.\<close>

record Battery =
  bat_Name :: string
  bat_Cmd :: string
  bat_Body :: string

record Stat =
  stat_Label :: string
  stat_Value :: string
  stat_Unit :: string

record site_status =
  sst_State :: string
  sst_Tone :: string
  sst_What :: string

definition battery_points :: "Battery list \<Rightarrow> Point list" where
  "battery_points bs = map (\<lambda>b. \<lparr>pt_Term = bat_Name b @ '' ('' @ [backtick] @ bat_Cmd b @ [backtick] @ '')'', pt_Detail = bat_Body b\<rparr>) bs"

definition status_points :: "site_status list \<Rightarrow> Point list" where
  "status_points sts = map (\<lambda>st. \<lparr>pt_Term = sst_State st, pt_Detail = sst_What st\<rparr>) sts"

definition measurements :: "Stat list \<Rightarrow> string list" where
  "measurements ss = map (\<lambda>st. stat_Label st @ '': '' @ stat_Value st @ '' '' @ stat_Unit st) ss"

text \<open>The sections of the landing page carry prose of their own, given for a version; the lists and the line of figures
  are put into them.\<close>

record landing_prose =
  lp_install :: "string \<Rightarrow> Section"
  lp_command :: Section
  lp_batteries :: "string list"
  lp_container :: Section
  lp_deploy :: string
  lp_status :: "string list"

definition landing_title :: string where
  "landing_title = ''Ryla'' @ dash @ ''a batteries-included web framework for Go''"

definition landingDoc :: "landing_prose \<Rightarrow> Battery list \<Rightarrow> Stat list \<Rightarrow> site_status list \<Rightarrow> Site \<Rightarrow> Doc" where
  "landingDoc lp bs ss sts s =
     (let version = (if site_Version s = [] then ''dev'' else site_Version s) in
      \<lparr>doc_Slug = [], doc_Eyebrow = ''Ryla'', doc_Title = landing_title, doc_Summary = Description,
       doc_Sections =
         [lp_install lp version, lp_command lp,
          \<lparr>se_Heading = ''Batteries'', se_Body = lp_batteries lp, se_Points = battery_points bs\<rparr>,
          lp_container lp,
          \<lparr>se_Heading = ''Deploy'', se_Body = [lp_deploy lp, join ''. '' (measurements ss) @ ''.''], se_Points = []\<rparr>,
          \<lparr>se_Heading = ''Status'', se_Body = lp_status lp, se_Points = status_points sts\<rparr>],
       doc_Links = HomeLinks, doc_Unaddressed = False\<rparr>)"

definition LandingMeta :: "(json \<Rightarrow> string option) \<Rightarrow> Site \<Rightarrow> Meta" where
  "LandingMeta marshal s =
     \<lparr>meta_Title = landing_title, meta_Description = Description, meta_Path = ''/'', meta_NoIndex = False,
      meta_JSONLD = structuredData marshal s\<rparr>"

definition home_Index ::
  "(string \<Rightarrow> quality option) \<Rightarrow> (json \<Rightarrow> string option) \<Rightarrow> Site \<Rightarrow> Doc \<Rightarrow> component \<Rightarrow> site_handler" where
  "home_Index parse marshal s landing page r w =
     (if prefersMarkdown parse r then writeMarkdown 200 (doc_Markdown landing) w
      else base_Render page (negotiable (LandingMeta marshal s) w))"

definition home_Markdown :: "Doc \<Rightarrow> site_handler" where
  "home_Markdown landing r w = writeMarkdownAlias (Origin @ ''/'') (doc_Markdown landing) w"

section \<open>Addresses read by programs\<close>

definition InstallScript :: "string \<Rightarrow> string option" where
  "InstallScript embedded = (if embedded = [] then None else Some embedded)"

definition wk_Install :: "string \<Rightarrow> site_handler" where
  "wk_Install embedded r w =
     (case InstallScript embedded of
        None \<Rightarrow> http_Error ''install script unavailable'' 500 w
      | Some body \<Rightarrow>
          write_body body (header_Set ''Cache-Control'' ''public, max-age=300''
            (header_Set ''Content-Type'' ''text/plain; charset=utf-8'' w)))"

definition robots_txt :: string where
  "robots_txt =
     join nl [''# ryla.io'' @ dash @ ''a batteries-included web framework for Go.'',
       ''# Facts and when to reach for it: '' @ Origin @ ''/llms.txt'',
       ''# How to drive the CLI:         '' @ Origin @ ''/agents.md'',
       ''# Any page here also answers Accept: text/markdown, and is served at'',
       ''# the same address with .md appended.'', [], ''User-agent: *'', ''Allow: /'', [],
       ''Sitemap: '' @ Origin @ ''/sitemap.xml'', []]"

definition wk_Robots :: site_handler where
  "wk_Robots r w = write_body robots_txt (header_Set ''Content-Type'' ''text/plain; charset=utf-8'' w)"

definition tab :: string where "tab = [CHR 0x09]"

definition sitemap_entry :: "string \<Rightarrow> string \<Rightarrow> string \<Rightarrow> string" where
  "sitemap_entry loc changefreq priority =
     tab @ ''<url>'' @ nl @ tab @ tab @ ''<loc>'' @ loc @ ''</loc>'' @ nl
     @ tab @ tab @ ''<changefreq>'' @ changefreq @ ''</changefreq>'' @ nl
     @ tab @ tab @ ''<priority>'' @ priority @ ''</priority>'' @ nl @ tab @ ''</url>'' @ nl"

definition sitemap_locs :: "Doc list \<Rightarrow> string list" where
  "sitemap_locs docs = (Origin @ ''/'') # map (\<lambda>d. Origin @ doc_Path d) docs"

definition sitemap_xml :: "Doc list \<Rightarrow> string" where
  "sitemap_xml docs =
     ''<?xml version='' @ quote_mark @ ''1.0'' @ quote_mark @ '' encoding='' @ quote_mark @ ''UTF-8'' @ quote_mark @ ''?>'' @ nl
     @ ''<urlset xmlns='' @ quote_mark @ ''http://www.sitemaps.org/schemas/sitemap/0.9'' @ quote_mark @ ''>'' @ nl
     @ sitemap_entry (Origin @ ''/'') ''weekly'' ''1.0''
     @ concat (map (\<lambda>d. sitemap_entry (Origin @ doc_Path d) ''monthly'' ''0.5'') docs)
     @ ''</urlset>'' @ nl"

definition wk_Sitemap :: "Doc list \<Rightarrow> site_handler" where
  "wk_Sitemap docs r w = write_body (sitemap_xml docs) (header_Set ''Content-Type'' ''application/xml; charset=utf-8'' w)"

definition wk_Agents :: "Doc \<Rightarrow> site_handler" where
  "wk_Agents instructions r w =
     write_body (doc_Markdown instructions) (header_Set ''Cache-Control'' ''public, max-age=300''
       (header_Set ''Content-Type'' MarkdownType w))"

text \<open>The text of \<^verbatim>\<open>llms.txt\<close> is prose and an argument.\<close>

definition wk_LLMs :: "(string \<Rightarrow> string) \<Rightarrow> string \<Rightarrow> site_handler" where
  "wk_LLMs prose version r w =
     write_body (prose version) (header_Set ''Content-Type'' ''text/plain; charset=utf-8'' w)"

definition site_health :: site_handler where
  "site_health r w = write_body (''{'' @ quote_mark @ ''status'' @ quote_mark @ '':'' @ quote_mark @ ''ok'' @ quote_mark @ ''}'')
     (header_Set ''Content-Type'' ''application/json'' w)"

section \<open>The routes\<close>

datatype site_page =
    P_Static | P_Home | P_Health | P_Show string | P_HomeMarkdown | P_Markdown string | P_Install | P_Robots | P_Sitemap
  | P_LLMs | P_Agents | P_NotFound | P_MethodNotAllowed

definition site_routes :: "(site_page, 'm) decl list" where
  "site_routes =
     [D_Static ''/static'' P_Static,
      router_Get ''/'' P_Home (Some ''home''), router_Get ''/up'' P_Health (Some ''health''),
      router_Get ''/about'' (P_Show ''about'') (Some ''about''), router_Get ''/contact'' (P_Show ''contact'') (Some ''contact''),
      router_Get ''/privacy'' (P_Show ''privacy'') (Some ''privacy''),
      router_Get ''/index.md'' P_HomeMarkdown (Some ''home.md''),
      router_Get ''/about.md'' (P_Markdown ''about'') (Some ''about.md''),
      router_Get ''/contact.md'' (P_Markdown ''contact'') (Some ''contact.md''),
      router_Get ''/privacy.md'' (P_Markdown ''privacy'') (Some ''privacy.md''),
      router_Get ''/install.sh'' P_Install (Some ''install''), router_Get ''/robots.txt'' P_Robots (Some ''robots''),
      router_Get ''/sitemap.xml'' P_Sitemap (Some ''sitemap''), router_Get ''/llms.txt'' P_LLMs (Some ''llms''),
      router_Get ''/agents.md'' P_Agents (Some ''agents''),
      D_NotFound P_NotFound, D_MethodNotAllowed P_MethodNotAllowed]"


section \<open>Negotiation follows the standard\<close>

definition matching :: "(string \<Rightarrow> quality option) \<Rightarrow> string \<Rightarrow> string \<Rightarrow> string \<Rightarrow> (nat \<times> quality) list" where
  "matching parse accept typ sub = List.map_filter (media_range parse typ sub) (split_on (CHR '','') accept)"

text \<open>The best of a list of ranges: the most specific ones, and among them the greatest quality.\<close>

definition best_range :: "(nat \<times> quality) list \<Rightarrow> nat \<Rightarrow> rat \<Rightarrow> bool" where
  "best_range ms s q = ((s, Q q) \<in> set ms \<and> (\<forall>s' q'. (s', Q q') \<in> set ms \<longrightarrow> s' < s \<or> (s' = s \<and> q' \<le> q)))"

definition numeric :: "(nat \<times> quality) list \<Rightarrow> bool" where
  "numeric ms = (\<forall>(s, q) \<in> set ms. \<exists>x \<ge> 0. q = Q x)"

lemma best_range_extend:
  assumes "best_range (x # ms) s q" and "x = (s0, Q q0)" and "s1 < s0 \<or> (s1 = s0 \<and> q1 \<le> q0)"
  shows "best_range (x # (s1, Q q1) # ms) s q" "best_range ((s1, Q q1) # x # ms) s q"
proof -
  have b: "s0 < s \<or> (s0 = s \<and> q0 \<le> q)" using assms(1,2) by (simp add: best_range_def)
  have "s1 < s \<or> (s1 = s \<and> q1 \<le> q)" using b assms(3) by (meson le_less_trans less_trans linorder_le_less_linear order.trans)
  then show "best_range (x # (s1, Q q1) # ms) s q" "best_range ((s1, Q q1) # x # ms) s q"
    using assms(1,2) unfolding best_range_def by auto
qed

lemma acceptable_fold:
  "numeric ms \<Longrightarrow> \<exists>q s. foldl acceptable_step (Q q0, s0) ms = (Q q, s) \<and> best_range ((s0, Q q0) # ms) s q"
proof (induction ms arbitrary: q0 s0)
  case Nil
  then show ?case by (auto simp: best_range_def)
next
  case (Cons m ms)
  obtain s1 q1 where m: "m = (s1, Q q1)" using Cons.prems by (cases m) (auto simp: numeric_def)
  have n: "numeric ms" using Cons.prems by (simp add: numeric_def)
  let ?better = "s1 > s0 \<or> (s1 = s0 \<and> q1 > q0)"
  have step: "foldl acceptable_step (Q q0, s0) (m # ms) = foldl acceptable_step (if ?better then (Q q1, s1) else (Q q0, s0)) ms"
    by (simp add: m)
  show ?case
  proof (cases ?better)
    case True
    obtain q s where "foldl acceptable_step (Q q1, s1) ms = (Q q, s)" "best_range ((s1, Q q1) # ms) s q"
      using Cons.IH [OF n] by blast
    moreover from this(2) have "best_range ((s0, Q q0) # m # ms) s q"
      unfolding m by (rule best_range_extend(2)) (use True in auto)
    ultimately show ?thesis using True step by auto
  next
    case False
    obtain q s where "foldl acceptable_step (Q q0, s0) ms = (Q q, s)" "best_range ((s0, Q q0) # ms) s q"
      using Cons.IH [OF n] by blast
    moreover from this(2) have "best_range ((s0, Q q0) # m # ms) s q"
      unfolding m by (rule best_range_extend(1)) (use False in auto)
    ultimately show ?thesis using False step by auto
  qed
qed

lemma quality_params_numeric:
  assumes "\<And>v. parse v \<noteq> Some QNaN"
  shows "\<exists>x. quality_params parse ps = Q x \<and> 0 \<le> x \<and> x \<le> 1"
proof (induction ps)
  case (Cons p ps)
  obtain n v ok where c: "cut (CHR ''='') p = (n, v, ok)" by (metis prod_cases3)
  have "\<exists>x. (case parse u of None \<Rightarrow> Q 1 | Some q \<Rightarrow> if q_gt (Q 0) q then Q 1 else if q_gt q (Q 1) then Q 1 else q) = Q x
          \<and> 0 \<le> x \<and> x \<le> 1" for u
    using assms [of u] by (auto split: option.split) (metis q_gt.simps(1) quality.exhaust linorder_not_less)
  then show ?case using Cons by (simp add: c)
qed simp

lemma matching_numeric:
  assumes "\<And>v. parse v \<noteq> Some QNaN"
  shows "numeric (matching parse accept typ sub)"
proof -
  have "\<exists>x \<ge> 0. q = Q x" if "media_range parse typ sub e = Some (s, q)" for s q e
    using that quality_params_numeric [of parse, OF assms]
    by (auto simp: media_range_def quality1_def split: prod.splits if_splits)
  then show ?thesis by (auto simp: numeric_def matching_def List.map_filter_def)
qed

lemma acceptable_alt: "acceptable parse accept typ sub = foldl acceptable_step (Q 0, 0) (matching parse accept typ sub)"
  by (simp add: acceptable_def matching_def)

lemma acceptable_best:
  assumes "\<And>v. parse v \<noteq> Some QNaN"
  shows "if matching parse a t n = [] then acceptable parse a t n = (Q 0, 0)
         else \<exists>s q. acceptable parse a t n = (Q q, s) \<and> best_range (matching parse a t n) s q \<and> 0 \<le> q"
proof (cases "matching parse a t n")
  case (Cons m ms)
  let ?ms = "matching parse a t n"
  have num: "numeric ?ms" using assms by (rule matching_numeric)
  obtain q s where f: "acceptable parse a t n = (Q q, s)" "best_range ((0, Q 0) # ?ms) s q"
    using acceptable_fold [OF num, where ?q0.0 = 0 and ?s0.0 = 0] unfolding acceptable_alt by blast
  obtain s1 q1 where m: "m = (s1, Q q1)" "0 \<le> q1" using num Cons by (cases m) (auto simp: numeric_def)
  have b: "best_range ?ms s q" using f(2) Cons m unfolding best_range_def by fastforce
  then have "0 \<le> q" using num by (fastforce simp: best_range_def numeric_def)
  then show ?thesis using f(1) b Cons by auto
qed (simp add: acceptable_alt)

lemma acceptable_shape:
  assumes "\<And>v. parse v \<noteq> Some QNaN"
  obtains q s where "acceptable parse a t n = (Q q, s)" "0 \<le> q" "q \<noteq> 0 \<longrightarrow> best_range (matching parse a t n) s q"
  using acceptable_best [of parse a t n, OF assms] by (auto split: if_splits)


definition sample_float :: "string \<Rightarrow> quality option" where
  "sample_float v = (if v = ''0.5'' then Some (Q (1/2)) else if v = ''1'' then Some (Q 1) else None)"

definition accepting :: "string \<Rightarrow> request" where
  "accepting a = get_request\<lparr>req_Header := [(''Accept'', a)]\<rparr>"


section \<open>One page, two representations\<close>

lemma resp_header_Set [simp]: "resp_header k (header_Set k' v w) = (if k = k' then v else resp_header k w)"
proof -
  have "map_of (filter (\<lambda>(k2, _). k2 \<noteq> k') xs @ [(k', v)]) k = (if k = k' then Some v else map_of xs k)" for xs :: "(string \<times> string) list"
    by (induction xs) auto
  then show ?thesis by (simp add: resp_header_def header_Set_def)
qed

lemma resp_header_write [simp]:
  "resp_header k (write_header st w) = resp_header k w" "resp_header k (write_body b w) = resp_header k w"
  by (simp_all add: resp_header_def write_header_def write_body_def Let_def split: option.split)

lemma resp_header_Add:
  "resp_header k (header_Add k' v w) = (case map_of (resp_Header w) k of None \<Rightarrow> if k = k' then v else [] | Some u \<Rightarrow> u)"
  by (simp add: resp_header_def header_Add_def map_add_def split: option.split)


lemma written_simps [simp]:
  "resp_Status (header_Set k v w) = resp_Status w" "resp_Body (header_Set k v w) = resp_Body w"
  "resp_Status (header_Add k v w) = resp_Status w" "resp_Body (header_Add k v w) = resp_Body w"
  "resp_Status (write_header st w) = Some (case resp_Status w of None \<Rightarrow> st | Some s \<Rightarrow> s)" "resp_Body (write_header st w) = resp_Body w"
  "resp_Status (write_body b w) = Some (case resp_Status w of None \<Rightarrow> 200 | Some s \<Rightarrow> s)" "resp_Body (write_body b w) = resp_Body w @ b"
  by (simp_all add: header_Set_def header_Add_def write_header_def write_body_def Let_def split: option.split)

lemma Markdown_written:
  "resp_header ''Vary'' (writeMarkdown st b w) = varyAccept"
  "resp_header ''Content-Type'' (writeMarkdown st b w) = MarkdownType"
  "resp_header ''X-Robots-Tag'' (writeMarkdown st b w) = resp_header ''X-Robots-Tag'' w"
  "resp_Status w = None \<Longrightarrow> resp_Status (writeMarkdown st b w) = Some st"
  "resp_Body (writeMarkdown st b w) = resp_Body w @ b"
  by (simp_all add: writeMarkdown_def)

lemma Render_written:
  assumes "resp_Status w = None" and "resp_header ''Content-Type'' w = []"
  shows "k \<noteq> ''Content-Type'' \<Longrightarrow> resp_header k (base_RenderStatus st c w) = resp_header k w"
    "resp_Status (base_RenderStatus st c w) = Some (case c of Inl _ \<Rightarrow> 500 | Inr _ \<Rightarrow> st)"
    "c = Inr page \<Longrightarrow> resp_Body (base_RenderStatus st c w) = resp_Body w @ page
       \<and> resp_header ''Content-Type'' (base_RenderStatus st c w) = HTMLType"
  using assms by (cases c; simp add: base_RenderStatus_def view_RenderStatus_def http_Error_def Let_def)+

lemma empty_response_simps [simp]:
  "resp_header k empty_response = []" "resp_Status empty_response = None" "resp_Body empty_response = []" "resp_Header empty_response = []"
  by (simp_all add: resp_header_def empty_response_def)

lemma negotiable_written:
  "resp_header ''Vary'' (negotiable m empty_response) = varyAccept"
  "resp_header ''Content-Type'' (negotiable m empty_response) = []"
  "resp_header ''Link'' (negotiable m empty_response) = ''<'' @ meta_MarkdownURL m @ ''>; rel='' @ quote_mark @ ''alternate'' @ quote_mark
     @ ''; type='' @ quote_mark @ ''text/markdown'' @ quote_mark"
  "resp_Status (negotiable m empty_response) = None" "resp_Body (negotiable m empty_response) = []"
  by (simp_all add: negotiable_def resp_header_Add) (simp_all add: header_Set_def resp_header_def)

text \<open>A page and its markdown copy cannot drift apart.  A written page answers with one of its two representations, says
  in either case that the answer depends on the \<^verbatim>\<open>Accept\<close> header, and names in the HTML the address of the markdown;
  and the markdown of the negotiated answer is, byte for byte, what that other address serves.  An address that is not
  served is answered with status 404 in both representations.\<close>

theorem site_pages_agree:
  assumes "prose d = Inr page" and "missing n = Inr lost"
  shows "(let w = pages_Show parse marshal prose d r empty_response;
              alias = pages_Markdown d r' empty_response;
              nf = pages_NotFound parse n missing r empty_response
          in resp_Status w = Some 200 \<and> resp_header ''Vary'' w = varyAccept
           \<and> resp_Status alias = Some 200 \<and> resp_header ''X-Robots-Tag'' alias = ''noindex, nofollow''
           \<and> (if prefersMarkdown parse r
              then resp_Body w = resp_Body alias \<and> resp_header ''Content-Type'' w = resp_header ''Content-Type'' alias
              else resp_Body w = page \<and> resp_header ''Content-Type'' w = HTMLType
                 \<and> resp_header ''Link'' w = ''<'' @ Origin @ doc_MarkdownPath d @ ''>; rel='' @ quote_mark @ ''alternate'' @ quote_mark
                     @ ''; type='' @ quote_mark @ ''text/markdown'' @ quote_mark)
           \<and> resp_Status nf = Some 404 \<and> resp_header ''Vary'' nf = varyAccept)"
proof -
  have al: "resp_Status (pages_Markdown d r' empty_response) = Some 200"
    "resp_Body (pages_Markdown d r' empty_response) = doc_Markdown d"
    "resp_header ''Content-Type'' (pages_Markdown d r' empty_response) = MarkdownType"
    "resp_header ''X-Robots-Tag'' (pages_Markdown d r' empty_response) = ''noindex, nofollow''"
    by (simp_all add: pages_Markdown_def writeMarkdownAlias_def Markdown_written resp_header_Add) (simp add: header_Set_def)
  have url: "meta_MarkdownURL (doc_Meta marshal d) = Origin @ doc_MarkdownPath d"
    by (simp add: meta_MarkdownURL_def meta_MarkdownPath_def doc_Meta_def doc_MarkdownPath_def)
  have nf: "resp_Status (header_Set ''Vary'' varyAccept empty_response) = None" by simp
  have ct: "resp_header ''Content-Type'' (header_Set ''Vary'' varyAccept empty_response) = []" by simp
  show ?thesis
    using al
    by (simp add: Let_def pages_Show_def pages_NotFound_def base_Render_def Markdown_written assms url
        Render_written [OF negotiable_written(4,2)] negotiable_written Render_written [OF nf ct])
qed

theorem site_pages_agree_witness:
  "\<exists>d. resp_Body (pages_Show sample_float (\<lambda>_. None) (\<lambda>_. Inr ''<p>'') d (accepting ''text/markdown'') empty_response)
       = resp_Body (pages_Markdown d get_request empty_response)
     \<and> doc_MarkdownPath d = ''/about.md''
     \<and> resp_Body (pages_Show sample_float (\<lambda>_. None) (\<lambda>_. Inr ''<p>'') d (accepting ''text/html'') empty_response) = ''<p>''"
proof -
  define d where "d = \<lparr>doc_Slug = ''about'', doc_Eyebrow = [], doc_Title = ''About'', doc_Summary = [], doc_Sections = [],
     doc_Links = siteLinks ''About'', doc_Unaddressed = False\<rparr>"
  have p: "prefersMarkdown sample_float (accepting ''text/markdown'')" "\<not> prefersMarkdown sample_float (accepting ''text/html'')"
    by code_simp+
  have m: "doc_MarkdownPath d = ''/about.md''" unfolding d_def by code_simp
  note a = site_pages_agree [where prose = "\<lambda>_. Inr ''<p>''" and d = d and page = "''<p>''" and missing = "\<lambda>_. Inr ''<p>''" and n = d
      and lost = "''<p>''" and parse = sample_float and marshal = "\<lambda>_. None" and r' = get_request, OF refl refl]
  show ?thesis using a [where r = "accepting ''text/markdown''"] a [where r = "accepting ''text/html''"] p m
    by (intro exI [of _ d]) (simp add: Let_def)
qed


section \<open>Every address the site gives out is served\<close>

definition served :: "route_registry \<Rightarrow> string \<Rightarrow> bool" where
  "served reg url = list_ex (\<lambda>n. nr_Method n = ''GET'' \<and> url = Origin @ nr_Pattern n) (router_Routes reg)"

definition site_registry :: route_registry where
  "site_registry = (case build_mux (site_routes :: (site_page, unit) decl list) of Inl _ \<Rightarrow> fmempty | Inr (_, reg) \<Rightarrow> reg)"

text \<open>The declared routes are accepted, no name being used twice, and every address that the site gives out is one of
  them: the closing links of every page, the entries of the sitemap, the markdown address of every one of these
  pages, and the addresses in \<^verbatim>\<open>robots.txt\<close>.\<close>

theorem site_links_served:
  assumes "\<forall>d \<in> set docs. doc_Slug d \<in> {''about'', ''contact'', ''privacy''}"
  shows "(\<exists>calls. build_mux (site_routes :: (site_page, unit) decl list) = Inr (calls, site_registry))
    \<and> (\<forall>l \<in> set (siteLinks except). served site_registry (ln_URL l) \<or> ln_URL l = Repository)
    \<and> (\<forall>u \<in> set (sitemap_locs docs). served site_registry u)
    \<and> (\<forall>d \<in> set docs. served site_registry (Origin @ doc_MarkdownPath d))
    \<and> served site_registry (Origin @ markdown_path ''/'')
    \<and> (\<forall>p \<in> {''/llms.txt'', ''/agents.md'', ''/sitemap.xml'', ''/install.sh''}. served site_registry (Origin @ p))"
proof -
  have m: "case build_mux (site_routes :: (site_page, unit) decl list) of Inl _ \<Rightarrow> False | Inr _ \<Rightarrow> True" by code_simp
  have l: "list_all (\<lambda>l. served site_registry (ln_URL l) \<or> ln_URL l = Repository) all_links" by code_simp
  have p: "list_all (\<lambda>s. served site_registry (Origin @ (''/'' @ s)) \<and> served site_registry (Origin @ markdown_path (''/'' @ s)))
      [''about'', ''contact'', ''privacy'']" by code_simp
  have h: "served site_registry (Origin @ ''/'')" "served site_registry (Origin @ markdown_path ''/'')" by code_simp+
  have w: "list_all (\<lambda>p. served site_registry (Origin @ p)) [''/llms.txt'', ''/agents.md'', ''/sitemap.xml'', ''/install.sh'']" by code_simp
  have docs: "served site_registry (Origin @ doc_Path d) \<and> served site_registry (Origin @ doc_MarkdownPath d)" if "d \<in> set docs" for d
    using assms that p unfolding doc_Path_def doc_MarkdownPath_def list_all_iff by fastforce
  show ?thesis
  proof (intro conjI)
    show "\<exists>calls. build_mux (site_routes :: (site_page, unit) decl list) = Inr (calls, site_registry)"
      using m by (auto simp: site_registry_def split: sum.splits)
    show "\<forall>l \<in> set (siteLinks except). served site_registry (ln_URL l) \<or> ln_URL l = Repository"
      using l by (auto simp: siteLinks_def list_all_iff)
    show "\<forall>u \<in> set (sitemap_locs docs). served site_registry u" using h docs by (auto simp: sitemap_locs_def)
    show "\<forall>d \<in> set docs. served site_registry (Origin @ doc_MarkdownPath d)" using docs by blast
    show "served site_registry (Origin @ markdown_path ''/'')" by (rule h)
    show "\<forall>p \<in> {''/llms.txt'', ''/agents.md'', ''/sitemap.xml'', ''/install.sh''}. served site_registry (Origin @ p)"
      using w unfolding list_all_iff list.set .
  qed
qed

theorem site_links_served_witness:
  "served site_registry ''https://ryla.io/about'' \<and> \<not> served site_registry ''https://ryla.io/nope''
   \<and> (\<forall>u \<in> set (sitemap_locs []). served site_registry u)"
proof -
  have "served site_registry ''https://ryla.io/about''" "\<not> served site_registry ''https://ryla.io/nope''" by code_simp+
  then show ?thesis using site_links_served [where docs = "[]"] by simp
qed

section \<open>The redirect protects\<close>

text \<open>A request that a proxy reports as plaintext is answered by a permanent redirect to the same address under https, and
  nothing behind the redirect runs; with a report of https the handler runs, its response carrying the header that keeps
  the browser on https; and without a report the middleware is not there.  The report of the edge, if it can be read, wins over
  the one of the proxy.\<close>

theorem force_https_cases:
  "(visitorScheme unmarshal r = None \<longrightarrow> ForceHTTPS unmarshal host tls inner r w = inner r w)
   \<and> (\<forall>proto. visitorScheme unmarshal r = Some proto \<longrightarrow>
        proto \<noteq> []
        \<and> (if equal_fold proto ''https'' \<or> tls
           then ForceHTTPS unmarshal host tls inner r w = inner r (header_Set ''Strict-Transport-Security'' HSTS w)
           else (\<forall>inner'. ForceHTTPS unmarshal host tls inner' r w = ForceHTTPS unmarshal host tls inner r w)
              \<and> resp_header ''Location'' (ForceHTTPS unmarshal host tls inner r w) = ''https://'' @ host @ req_URI r
              \<and> resp_Cookies (ForceHTTPS unmarshal host tls inner r w) = resp_Cookies w
              \<and> (resp_Status w = None \<longrightarrow> resp_Status (ForceHTTPS unmarshal host tls inner r w) = Some 308)))
   \<and> (\<forall>s. header_Get r ''CF-Visitor'' \<noteq> [] \<longrightarrow> unmarshal (header_Get r ''CF-Visitor'') = Some s \<longrightarrow> s \<noteq> [] \<longrightarrow> visitorScheme unmarshal r = Some s)"
proof -
  have ne: "visitorScheme unmarshal r = Some proto \<Longrightarrow> proto \<noteq> []" for proto
    by (auto simp: visitorScheme_def Let_def split: if_splits option.splits)
  have ck: "resp_Cookies (http_Redirect u 308 w) = resp_Cookies w" for u
    by (simp add: http_Redirect_def write_header_def header_Set_def split: option.split)
  show ?thesis using ne by (auto simp: ForceHTTPS_def ck) (auto simp: http_Redirect_def visitorScheme_def Let_def)
qed

lemma high_byte_wanted: "(of_char c :: nat) \<ge> 128 \<Longrightarrow> \<not> unwanted [c]"
  by (auto simp: unwanted_def)

lemma echo_loop_clean:
  assumes "\<And>n r. (n, r) \<in> set rs \<Longrightarrow> (\<exists>c. r = [c]) \<or> (\<forall>c \<in> set r. (of_char c :: nat) \<ge> 128)"
  shows "\<forall>c \<in> set (echo_loop i rs). \<not> unwanted [c]"
  using assms
proof (induction i rs rule: echo_loop.induct)
  case (2 i n r rs)
  have r: "\<forall>c \<in> set (if unwanted r then ''?'' else r). \<not> unwanted [c]"
  proof (cases "\<exists>c. r = [c]")
    case True
    then show ?thesis by (auto simp: unwanted_def)
  next
    case False
    then have "\<forall>c \<in> set r. (of_char c :: nat) \<ge> 128" using "2.prems" [of n r] by simp
    then have "\<forall>c \<in> set r. \<not> unwanted [c]" using high_byte_wanted by blast
    then show ?thesis by (auto simp: unwanted_def)
  qed
  show ?case
  proof (cases "i \<ge> 80")
    case True
    then show ?thesis by (auto simp: unwanted_def)
  next
    case False
    have "\<forall>c \<in> set (echo_loop (i + n) rs). \<not> unwanted [c]" by (rule "2.IH" [OF False]) (meson "2.prems" list.set_intros(2))
    then show ?thesis using False r by (auto split del: if_split simp: if_distrib [of set])
  qed
qed simp

end
