(* ===== verification/SiteSchema.thy ===== *)
theory SiteSchema
  imports MigrateProps
begin

text \<open>
  The migrations of the application \<^verbatim>\<open>site\<close> (\<^verbatim>\<open>site/database/migrations\<close>) and the structs of the
  framework whose tables they create: \<^verbatim>\<open>session.Record\<close>, \<^verbatim>\<open>queue.Record\<close>,
  \<^verbatim>\<open>queue.FailedRecord\<close> and \<^verbatim>\<open>cache.Record\<close>.

  A struct is the list of its fields, each with its name, its Go type and the settings of its
  \<^verbatim>\<open>gorm\<close> tag.  The migrator of gorm is a record of functions on the schema: creating a table,
  dropping it, and the tables there are; so is its naming of columns.  What is relied on of them is
  the predicate \<open>gorm_laws\<close> and the table \<open>column_names\<close>.
\<close>

record Field =
  fd_Name :: string
  fd_Type :: string
  fd_Tag :: "(string \<times> string) list"

abbreviation field :: "string \<Rightarrow> string \<Rightarrow> (string \<times> string) list \<Rightarrow> Field" where
  "field n t tag \<equiv> \<lparr>fd_Name = n, fd_Type = t, fd_Tag = tag\<rparr>"

section \<open>The structs of the framework\<close>

definition session_Record_fields :: "Field list" where
  "session_Record_fields =
     [field ''ID'' ''string'' [(''column'', ''id''), (''primaryKey'', ''''), (''size'', ''64'')],
      field ''Data'' ''string'' [(''column'', ''data''), (''type'', ''text'')],
      field ''UserID'' ''string'' [(''column'', ''user_id''), (''index'', ''''), (''size'', ''64'')],
      field ''IP'' ''string'' [(''column'', ''ip''), (''size'', ''45'')],
      field ''UserAgent'' ''string'' [(''column'', ''user_agent''), (''size'', ''255'')],
      field ''ExpiresAt'' ''time.Time'' [(''column'', ''expires_at''), (''index'', '''')],
      field ''UpdatedAt'' ''time.Time'' [(''column'', ''updated_at'')]]"

definition queue_Record_fields :: "Field list" where
  "queue_Record_fields =
     [field ''ID'' ''uint'' [(''primaryKey'', '''')],
      field ''Queue'' ''string'' [(''size'', ''64''), (''index'', ''idx_jobs_claim,priority:1''), (''not null'', '''')],
      field ''Name'' ''string'' [(''size'', ''128''), (''not null'', '''')],
      field ''Payload'' ''string'' [(''type'', ''text'')],
      field ''Attempts'' ''int'' [(''not null'', '''')],
      field ''MaxAttempts'' ''int'' [(''not null'', '''')],
      field ''AvailableAt'' ''time.Time'' [(''index'', ''idx_jobs_claim,priority:2''), (''not null'', '''')],
      field ''ReservedAt'' ''*time.Time'' [(''index'', '''')],
      field ''LastError'' ''string'' [(''type'', ''text'')],
      field ''CreatedAt'' ''time.Time'' []]"

definition queue_FailedRecord_fields :: "Field list" where
  "queue_FailedRecord_fields =
     [field ''ID'' ''uint'' [(''primaryKey'', '''')],
      field ''Queue'' ''string'' [(''size'', ''64''), (''index'', '''')],
      field ''Name'' ''string'' [(''size'', ''128'')],
      field ''Payload'' ''string'' [(''type'', ''text'')],
      field ''Attempts'' ''int'' [(''not null'', '''')],
      field ''LastError'' ''string'' [(''type'', ''text'')],
      field ''FailedAt'' ''time.Time'' [(''index'', '''')]]"

definition cache_Record_fields :: "Field list" where
  "cache_Record_fields =
     [field ''Key'' ''string'' [(''column'', ''key''), (''primaryKey'', ''''), (''size'', ''255'')],
      field ''Value'' ''[]byte'' [(''column'', ''value'')],
      field ''ExpiresAt'' ''*time.Time'' [(''column'', ''expires_at''), (''index'', '''')]]"

text \<open>The tables of the database drivers, by the names their structs give.\<close>

definition driver_tables :: "(string \<times> Field list) list" where
  "driver_tables = [(''sessions'', session_Record_fields), (''jobs'', queue_Record_fields), (''failed_jobs'', queue_FailedRecord_fields), (''cache'', cache_Record_fields)]"

section \<open>The snapshots of the migrations\<close>

definition session20260101000000 :: "Field list" where
  "session20260101000000 =
     [field ''ID'' ''string'' [(''primaryKey'', ''''), (''size'', ''64'')],
      field ''Data'' ''string'' [(''type'', ''text'')],
      field ''UserID'' ''string'' [(''index'', ''''), (''size'', ''64'')],
      field ''IP'' ''string'' [(''size'', ''45'')],
      field ''UserAgent'' ''string'' [(''size'', ''255'')],
      field ''ExpiresAt'' ''time.Time'' [(''index'', '''')],
      field ''UpdatedAt'' ''time.Time'' []]"

definition job20260101000001 :: "Field list" where
  "job20260101000001 =
     [field ''ID'' ''uint'' [(''primaryKey'', '''')],
      field ''Queue'' ''string'' [(''size'', ''64''), (''index'', ''idx_jobs_claim,priority:1''), (''not null'', '''')],
      field ''Name'' ''string'' [(''size'', ''128''), (''not null'', '''')],
      field ''Payload'' ''string'' [(''type'', ''text'')],
      field ''Attempts'' ''int'' [(''not null'', '''')],
      field ''MaxAttempts'' ''int'' [(''not null'', '''')],
      field ''AvailableAt'' ''time.Time'' [(''index'', ''idx_jobs_claim,priority:2''), (''not null'', '''')],
      field ''ReservedAt'' ''*time.Time'' [(''index'', '''')],
      field ''LastError'' ''string'' [(''type'', ''text'')],
      field ''CreatedAt'' ''time.Time'' []]"

definition failedJob20260101000001 :: "Field list" where
  "failedJob20260101000001 =
     [field ''ID'' ''uint'' [(''primaryKey'', '''')],
      field ''Queue'' ''string'' [(''size'', ''64''), (''index'', '''')],
      field ''Name'' ''string'' [(''size'', ''128'')],
      field ''Payload'' ''string'' [(''type'', ''text'')],
      field ''Attempts'' ''int'' [(''not null'', '''')],
      field ''LastError'' ''string'' [(''type'', ''text'')],
      field ''FailedAt'' ''time.Time'' [(''index'', '''')]]"

definition cache20260101000002 :: "Field list" where
  "cache20260101000002 =
     [field ''Key'' ''string'' [(''primaryKey'', ''''), (''size'', ''255'')],
      field ''Value'' ''[]byte'' [],
      field ''ExpiresAt'' ''*time.Time'' [(''index'', '''')]]"

section \<open>The migrations\<close>

record 's gorm =
  gm_CreateTable :: "string \<Rightarrow> Field list \<Rightarrow> 's \<Rightarrow> 's option"
  gm_DropTable :: "string \<Rightarrow> 's \<Rightarrow> 's option"
  gm_tables :: "'s \<Rightarrow> string \<rightharpoonup> Field list"

definition up20260101000000 :: "'s gorm \<Rightarrow> 's Func" where
  "up20260101000000 g = gm_CreateTable g ''sessions'' session20260101000000"

definition down20260101000000 :: "'s gorm \<Rightarrow> 's Func" where
  "down20260101000000 g = gm_DropTable g ''sessions''"

definition up20260101000001 :: "'s gorm \<Rightarrow> 's Func" where
  "up20260101000001 g s =
     (case gm_CreateTable g ''jobs'' job20260101000001 s of
        None \<Rightarrow> None
      | Some s' \<Rightarrow> gm_CreateTable g ''failed_jobs'' failedJob20260101000001 s')"

definition down20260101000001 :: "'s gorm \<Rightarrow> 's Func" where
  "down20260101000001 g s =
     (case gm_DropTable g ''failed_jobs'' s of
        None \<Rightarrow> None
      | Some s' \<Rightarrow> gm_DropTable g ''jobs'' s')"

definition up20260101000002 :: "'s gorm \<Rightarrow> 's Func" where
  "up20260101000002 g = gm_CreateTable g ''cache'' cache20260101000002"

definition down20260101000002 :: "'s gorm \<Rightarrow> 's Func" where
  "down20260101000002 g = gm_DropTable g ''cache''"

text \<open>The three \<^verbatim>\<open>init\<close> functions, run by Go in the order of the file names; a panic of one ends the program.\<close>

definition site_migrations :: "'s gorm \<Rightarrow> (mig_panic, 's mig_registry) result" where
  "site_migrations g =
     (case mig_Register ''20260101000000_create_sessions'' (Some (up20260101000000 g)) (Some (down20260101000000 g)) fmempty of
        Inl p \<Rightarrow> Inl p
      | Inr r \<Rightarrow>
          (case mig_Register ''20260101000001_create_jobs'' (Some (up20260101000001 g)) (Some (down20260101000001 g)) r of
             Inl p \<Rightarrow> Inl p
           | Inr r' \<Rightarrow> mig_Register ''20260101000002_create_cache'' (Some (up20260101000002 g)) (Some (down20260101000002 g)) r'))"

section \<open>What is relied on of gorm\<close>

text \<open>Creating a table succeeds exactly where there is none of the name, and then it is there beside the others;
  dropping the table that was created last gives the schema before.\<close>

definition gorm_laws :: "'s gorm \<Rightarrow> bool" where
  "gorm_laws g =
     ((\<forall>n fs s. gm_CreateTable g n fs s \<noteq> None \<longleftrightarrow> gm_tables g s n = None)
      \<and> (\<forall>n fs s s'. gm_CreateTable g n fs s = Some s' \<longrightarrow> gm_tables g s' = (gm_tables g s)(n \<mapsto> fs) \<and> gm_DropTable g n s' = Some s))"

text \<open>The column of a field: the name in its tag, or else the one of gorm's naming, with the type and the other
  settings.\<close>

definition column :: "(string \<Rightarrow> string) \<Rightarrow> Field \<Rightarrow> string \<times> string \<times> (string \<times> string) list" where
  "column naming f =
     (case map_of (fd_Tag f) ''column'' of None \<Rightarrow> naming (fd_Name f) | Some c \<Rightarrow> c,
      fd_Type f, filter (\<lambda>(k, _). k \<noteq> ''column'') (fd_Tag f))"

text \<open>The names gorm documents for the fields whose columns the framework spells out.\<close>

definition column_names :: "(string \<times> string) list" where
  "column_names =
     [(''ID'', ''id''), (''Data'', ''data''), (''UserID'', ''user_id''), (''IP'', ''ip''), (''UserAgent'', ''user_agent''),
      (''ExpiresAt'', ''expires_at''), (''UpdatedAt'', ''updated_at''), (''Key'', ''key''), (''Value'', ''value'')]"

section \<open>The migrations give the drivers their tables\<close>

definition site_migration_list :: "'s gorm \<Rightarrow> 's Migration list" where
  "site_migration_list g =
     [\<lparr>mig_ID = ''20260101000000_create_sessions'', mig_Up = up20260101000000 g, mig_Down = Some (down20260101000000 g)\<rparr>,
      \<lparr>mig_ID = ''20260101000001_create_jobs'', mig_Up = up20260101000001 g, mig_Down = Some (down20260101000001 g)\<rparr>,
      \<lparr>mig_ID = ''20260101000002_create_cache'', mig_Up = up20260101000002 g, mig_Down = Some (down20260101000002 g)\<rparr>]"

lemma site_migrations_registered:
  obtains reg where "site_migrations g = Inr reg" "reg_wf reg" "mig_Registered reg = site_migration_list g"
proof -
  let ?l = "site_migration_list g"
  let ?reg = "fmupd (mig_ID (?l ! 2)) (?l ! 2) (fmupd (mig_ID (?l ! 1)) (?l ! 1) (fmupd (mig_ID (?l ! 0)) (?l ! 0) fmempty))"
  have "site_migrations g = Inr ?reg" by (simp add: site_migrations_def mig_Register_def site_migration_list_def)
  moreover have "reg_wf ?reg" by (auto simp: reg_wf_def)
  moreover have "mig_Registered ?reg = ?l"
    by (simp add: mig_Registered_def sorted_list_of_fmap_def sorted_list_of_fset.rep_eq site_migration_list_def)
  ultimately show thesis by (rule that)
qed

lemma site_migrations_reversible:
  assumes "gorm_laws g" "m \<in> set (site_migration_list g)"
  shows "reversible m"
  using assms unfolding gorm_laws_def
  by (fastforce simp: site_migration_list_def reversible_def up20260101000000_def down20260101000000_def
      up20260101000001_def down20260101000001_def up20260101000002_def down20260101000002_def split: option.splits)

lemma site_ups_tables:
  assumes "gorm_laws g" "ups (site_migration_list g) s = Some s'"
  shows "gm_tables g s' = (gm_tables g s)(''sessions'' \<mapsto> session20260101000000, ''jobs'' \<mapsto> job20260101000001,
     ''failed_jobs'' \<mapsto> failedJob20260101000001, ''cache'' \<mapsto> cache20260101000002)"
  using assms unfolding gorm_laws_def
  by (auto simp: site_migration_list_def up20260101000000_def up20260101000001_def up20260101000002_def split: bind_splits option.splits)

lemma snapshots_columns:
  assumes "\<And>f c. (f, c) \<in> set column_names \<Longrightarrow> naming f = c"
  shows "map (column naming) session20260101000000 = map (column naming) session_Record_fields"
    "map (column naming) job20260101000001 = map (column naming) queue_Record_fields"
    "map (column naming) failedJob20260101000001 = map (column naming) queue_FailedRecord_fields"
    "map (column naming) cache20260101000002 = map (column naming) cache_Record_fields"
proof -
  have n: "naming ''ID'' = ''id''" "naming ''Data'' = ''data''" "naming ''UserID'' = ''user_id''" "naming ''IP'' = ''ip''"
    "naming ''UserAgent'' = ''user_agent''" "naming ''ExpiresAt'' = ''expires_at''" "naming ''UpdatedAt'' = ''updated_at''"
    "naming ''Key'' = ''key''" "naming ''Value'' = ''value''"
    by (rule assms, simp add: column_names_def)+
  show "map (column naming) session20260101000000 = map (column naming) session_Record_fields"
    by (simp add: session20260101000000_def session_Record_fields_def column_def n)
  show "map (column naming) job20260101000001 = map (column naming) queue_Record_fields"
    by (simp add: job20260101000001_def queue_Record_fields_def column_def)
  show "map (column naming) failedJob20260101000001 = map (column naming) queue_FailedRecord_fields"
    by (simp add: failedJob20260101000001_def queue_FailedRecord_fields_def column_def)
  show "map (column naming) cache20260101000002 = map (column naming) cache_Record_fields"
    by (simp add: cache20260101000002_def cache_Record_fields_def column_def n)
qed

text \<open>C38. The migrations of the application give the drivers of the framework their tables.  They register without a
  panic; run on a database where none was applied, each table a driver reads and writes is there with exactly the columns,
  the types, the sizes and the indexes of the driver's struct, and any other table is untouched; and a rollback undoes them.\<close>

theorem site_schema_serves_drivers:
  assumes "gorm_laws g" "\<And>f c. (f, c) \<in> set column_names \<Longrightarrow> naming f = c"
  shows "\<exists>reg. site_migrations g = Inr reg \<and>
    (\<forall>f db db'. md_rows db = [] \<and> mig_Up_run reg f 0 db = (None, db') \<longrightarrow>
       (\<forall>(n, fs) \<in> set driver_tables. map_option (map (column naming)) (gm_tables g (md_schema db') n) = Some (map (column naming) fs))
       \<and> (\<forall>n. n \<notin> fst ` set driver_tables \<longrightarrow> gm_tables g (md_schema db') n = gm_tables g (md_schema db) n)
       \<and> (\<forall>f'. quiet f' \<longrightarrow> mig_Rollback reg f' 1 db' = (None, db)))"
proof -
  obtain reg where reg: "site_migrations g = Inr reg" "reg_wf reg" "mig_Registered reg = site_migration_list g"
    by (rule site_migrations_registered)
  have run: "(\<forall>(n, fs) \<in> set driver_tables. map_option (map (column naming)) (gm_tables g (md_schema db') n) = Some (map (column naming) fs))
       \<and> (\<forall>n. n \<notin> fst ` set driver_tables \<longrightarrow> gm_tables g (md_schema db') n = gm_tables g (md_schema db) n)
       \<and> (\<forall>f'. quiet f' \<longrightarrow> mig_Rollback reg f' 1 db' = (None, db))"
    if db: "md_rows db = []" and up: "mig_Up_run reg f 0 db = (None, db')" for f db db'
  proof -
    have wf: "rows_wf db" using db by (simp add: rows_wf_def)
    have p: "pending_list reg db = site_migration_list g" using db by (simp add: pending_list_def reg(3))
    have ok: "\<not> fl_table f" "\<not> fl_read f"
      using up by (auto simp: mig_Up_run_def ensureTable_def applied_def split: if_splits)
    obtain k where k: "ups (take k (pending_list reg db)) (md_schema db) = Some (md_schema db')"
        "k = step_bound 0 (length (pending_list reg db))"
      using mig_Up_run_prefix [OF wf up] ok by auto
    then have "ups (site_migration_list g) (md_schema db) = Some (md_schema db')" by (simp add: step_bound_def p)
    note t = site_ups_tables [OF assms(1) this]
    have "mig_Rollback reg f' 1 db' = (None, db)" if "quiet f'" for f'
      by (rule mig_rollback_undoes_up [OF reg(2) wf up _ _ that])
         (use site_migrations_reversible [OF assms(1)] in \<open>simp_all add: p\<close>, simp add: site_migration_list_def)
    then show ?thesis by (simp add: t driver_tables_def snapshots_columns [OF assms(2)])
  qed
  show ?thesis using reg(1) run by blast
qed

definition map_gorm :: "(string \<rightharpoonup> Field list) gorm" where
  "map_gorm = \<lparr>gm_CreateTable = (\<lambda>n fs s. if s n = None then Some (s(n \<mapsto> fs)) else None), gm_DropTable = (\<lambda>n s. Some (s(n := None))),
     gm_tables = (\<lambda>s. s)\<rparr>"

lemma map_gorm_laws: "gorm_laws map_gorm"
  by (auto simp: gorm_laws_def map_gorm_def fun_upd_idem_iff split: if_splits)

theorem site_schema_serves_drivers_witness:
  "\<exists>reg db'. site_migrations map_gorm = Inr reg \<and> mig_Up_run reg calm 0 \<lparr>md_schema = Map.empty, md_rows = []\<rparr> = (None, db')
     \<and> md_schema db' ''jobs'' \<noteq> None \<and> mig_Rollback reg calm 1 db' = (None, \<lparr>md_schema = Map.empty, md_rows = []\<rparr>)"
proof -
  let ?db = "\<lparr>md_schema = Map.empty, md_rows = []\<rparr> :: (string \<rightharpoonup> Field list) mig_db"
  define naming where "naming f = the (map_of column_names f)" for f
  have "naming f = c" if "(f, c) \<in> set column_names" for f c using that by (auto simp: column_names_def naming_def)
  from site_schema_serves_drivers [of map_gorm naming, OF map_gorm_laws this] obtain reg where
    reg: "site_migrations map_gorm = Inr reg" and all: "\<forall>f db db'. md_rows db = [] \<and> mig_Up_run reg f 0 db = (None, db') \<longrightarrow>
       (\<forall>(n, fs) \<in> set driver_tables. map_option (map (column naming)) (gm_tables map_gorm (md_schema db') n) = Some (map (column naming) fs))
       \<and> (\<forall>n. n \<notin> fst ` set driver_tables \<longrightarrow> gm_tables map_gorm (md_schema db') n = gm_tables map_gorm (md_schema db) n)
       \<and> (\<forall>f'. quiet f' \<longrightarrow> mig_Rollback reg f' 1 db' = (None, db))"
    by blast
  have l: "mig_Registered reg = site_migration_list map_gorm"
    using reg by (rule_tac site_migrations_registered [of map_gorm]) auto
  obtain db' where up: "mig_Up_run reg calm 0 ?db = (None, db')"
    by (simp add: mig_Up_run_def ensureTable_def applied_def calm_def mig_pending_def l max_batch_def Let_def site_migration_list_def
        up20260101000000_def up20260101000001_def up20260101000002_def map_gorm_def)
  have "md_rows ?db = [] \<and> mig_Up_run reg calm 0 ?db = (None, db')" using up by simp
  note all [rule_format, OF this]
  then have "md_schema db' ''jobs'' \<noteq> None" "mig_Rollback reg calm 1 db' = (None, ?db)"
    by (simp_all add: driver_tables_def map_gorm_def quiet_def calm_def) auto
  then show ?thesis using reg up by blast
qed

end
