(* ===== verification/SiteApp.thy ===== *)
theory SiteApp
  imports SiteHttp Auth Config Clients Log Mail App Worker Migrate Schedule RunCmds SiteSchema
begin

text \<open>
  The web site as an application of the framework: its configuration (\<^verbatim>\<open>site/config/config.go\<close>), the construction of
  its parts (\<^verbatim>\<open>site/app/app.go\<close>), the commands of its binary (\<^verbatim>\<open>site/app/commands.go\<close>), its scheduled tasks
  (\<^verbatim>\<open>site/app/schedule/schedule.go\<close>) and its main function.

  Stores and drivers are named by the constructor that builds them, with the Redis client they were given, if any.
  Connecting to the database and to Redis are the models of those packages with the drivers as arguments.
\<close>

section \<open>Configuration\<close>

record site_Redis =
  rd_URL :: string
  rd_Addr :: string
  rd_Username :: string
  rd_Password :: string
  rd_DB :: int
  rd_Prefix :: string

record site_Mail =
  ml_Driver :: string
  ml_Host :: string
  ml_Port :: int
  ml_Username :: string
  ml_Password :: string
  ml_Encryption :: string
  ml_FromName :: string
  ml_FromAddress :: string
  ml_Queue :: bool

record site_Log =
  lg_Level :: string
  lg_Format :: string
  lg_Source :: bool
  lg_NoColor :: bool

record site_Config =
  cf_Core :: Core
  cf_DB :: DBConfig
  cf_Log :: site_Log
  cf_Session_Driver :: string
  cf_Session_Lifetime :: duration
  cf_Mail :: site_Mail
  cf_Cache_Driver :: string
  cf_Cache_TTL :: duration
  cf_Redis :: site_Redis
  cf_Queue_Driver :: string

definition database_Driver :: string where "database_Driver = ''sqlite''"
definition DefaultDSN :: string where
  "DefaultDSN = ''storage/ryla-site.db?_pragma=foreign_keys(1)&_pragma=busy_timeout(5000)&_pragma=journal_mode(WAL)''"

definition defaultMailDriver :: "string \<Rightarrow> string" where
  "defaultMailDriver env = (if env = EnvProduction then ''smtp'' else ''log'')"

definition site_LoadEnv :: "(string \<Rightarrow> dotenv) \<Rightarrow> string list \<Rightarrow> environment \<Rightarrow> string option \<times> environment" where
  "site_LoadEnv files paths env = config_Load files paths env"

definition site_Load :: "(rat \<Rightarrow> rat) \<Rightarrow> environment \<Rightarrow> site_Config" where
  "site_Load fl e =
     (let S = config_String e; env = S ''APP_ENV'' EnvLocal in
      \<lparr>cf_Core = \<lparr>core_Name = S ''APP_NAME'' ''ryla-site'', core_Env = env, core_Debug = config_Bool e ''APP_DEBUG'' (env \<noteq> EnvProduction),
          core_URL = S ''APP_URL'' ''http://localhost:8080'', core_Addr = S ''APP_ADDR'' '':8080'', core_Key = S ''APP_KEY'' []\<rparr>,
       cf_DB = \<lparr>dcf_Driver = S ''DB_DRIVER'' database_Driver, dcf_DSN = S ''DB_DSN'' DefaultDSN,
          dcf_MaxOpenConns = config_Int e ''DB_MAX_OPEN_CONNS'' 4, dcf_MaxIdleConns = config_Int e ''DB_MAX_IDLE_CONNS'' 2,
          dcf_ConnMaxLifetime = config_Duration fl e ''DB_CONN_MAX_LIFETIME'' Hour,
          dcf_SlowThreshold = config_Duration fl e ''DB_SLOW_THRESHOLD'' (200 * Millisecond),
          dcf_LogQueries = config_Bool e ''DB_LOG_QUERIES'' False\<rparr>,
       cf_Log = \<lparr>lg_Level = S ''LOG_LEVEL'' ''info'', lg_Format = S ''LOG_FORMAT'' ''auto'', lg_Source = config_Bool e ''LOG_SOURCE'' False,
          lg_NoColor = config_Bool e ''NO_COLOR'' False\<rparr>,
       cf_Session_Driver = S ''SESSION_DRIVER'' ''db'', cf_Session_Lifetime = config_Duration fl e ''SESSION_LIFETIME'' (14 * 24 * Hour),
       cf_Mail = \<lparr>ml_Driver = S ''MAIL_DRIVER'' (defaultMailDriver env), ml_Host = S ''MAIL_HOST'' ''localhost'',
          ml_Port = config_Int e ''MAIL_PORT'' 1025, ml_Username = S ''MAIL_USERNAME'' [], ml_Password = S ''MAIL_PASSWORD'' [],
          ml_Encryption = S ''MAIL_ENCRYPTION'' ''starttls'', ml_FromName = S ''MAIL_FROM_NAME'' (S ''APP_NAME'' ''ryla-site''),
          ml_FromAddress = S ''MAIL_FROM_ADDRESS'' ''hello@example.com'', ml_Queue = config_Bool e ''MAIL_QUEUE'' True\<rparr>,
       cf_Cache_Driver = S ''CACHE_DRIVER'' ''memory'', cf_Cache_TTL = config_Duration fl e ''CACHE_TTL'' Hour,
       cf_Redis = \<lparr>rd_URL = S ''REDIS_URL'' [], rd_Addr = S ''REDIS_ADDR'' ''localhost:6379'', rd_Username = S ''REDIS_USERNAME'' [],
          rd_Password = S ''REDIS_PASSWORD'' [], rd_DB = config_Int e ''REDIS_DB'' 0, rd_Prefix = S ''REDIS_PREFIX'' ''ryla-site''\<rparr>,
       cf_Queue_Driver = S ''QUEUE_DRIVER'' ''db''\<rparr>)"

definition UsesRedis :: "site_Config \<Rightarrow> bool" where
  "UsesRedis c = (cf_Cache_Driver c = ''redis'' \<or> cf_Session_Driver c = ''redis'' \<or> cf_Queue_Driver c = ''redis'')"

section \<open>Construction\<close>

definition devKey :: string where "devKey = ''ryla-insecure-development-key''"

datatype site_error = Site_LoadEnv string | Site_NoKey | Site_DB db_error | Site_Redis redis_error

text \<open>The key, and whether the warning about the published one is logged.\<close>

definition signingKey :: "site_Config \<Rightarrow> (site_error, string \<times> bool) result" where
  "signingKey cfg =
     (if core_Key (cf_Core cfg) \<noteq> [] then Inr (core_Key (cf_Core cfg), False)
      else if IsProduction (cf_Core cfg) then Inl Site_NoKey
      else Inr (devKey, True))"

datatype 'c session_choice = Sess_Redis "'c option" string | Sess_Cookie | Sess_DB
datatype 'c cache_choice = Cache_Redis "'c option" string | Cache_DB | Cache_Memory
datatype 'c queue_choice = Queue_Redis "'c option" string | Queue_DB
datatype mailer_choice = Mailer_Log | Mailer_SMTP SMTPConfig

definition buildCache :: "site_Config \<Rightarrow> 'c option \<Rightarrow> 'c cache_choice" where
  "buildCache cfg rdb =
     (if cf_Cache_Driver cfg = ''redis'' then Cache_Redis rdb (rd_Prefix (cf_Redis cfg) @ '':cache'')
      else if cf_Cache_Driver cfg = ''db'' then Cache_DB else Cache_Memory)"

definition buildSessions :: "site_Config \<Rightarrow> 'c option \<Rightarrow> 'c session_choice" where
  "buildSessions cfg rdb =
     (if cf_Session_Driver cfg = ''redis'' then Sess_Redis rdb (rd_Prefix (cf_Redis cfg) @ '':session'')
      else if cf_Session_Driver cfg = ''cookie'' then Sess_Cookie else Sess_DB)"

definition buildQueueDriver :: "site_Config \<Rightarrow> 'c option \<Rightarrow> 'c queue_choice" where
  "buildQueueDriver cfg rdb =
     (if cf_Queue_Driver cfg = ''redis'' then Queue_Redis rdb (rd_Prefix (cf_Redis cfg) @ '':queue'') else Queue_DB)"

definition buildMailer :: "site_Config \<Rightarrow> mailer_choice" where
  "buildMailer cfg =
     (if ml_Driver (cf_Mail cfg) \<noteq> ''smtp'' then Mailer_Log
      else Mailer_SMTP (NewSMTP \<lparr>smtp_Host = ml_Host (cf_Mail cfg), smtp_Port = ml_Port (cf_Mail cfg),
             smtp_Username = ml_Username (cf_Mail cfg), smtp_Password = ml_Password (cf_Mail cfg),
             smtp_Encryption = ParseEncryption (ml_Encryption (cf_Mail cfg)), smtp_Timeout = 0, smtp_InsecureSkipVerify = False\<rparr>))"

text \<open>The middleware in the order it is added.\<close>

datatype site_mw = MW_RequestID | MW_WithLogger | MW_Logger | MW_Recover bool | MW_ForceHTTPS | MW_Session | MW_CSRF

definition site_middleware :: "site_Config \<Rightarrow> site_mw list" where
  "site_middleware cfg =
     [MW_RequestID, MW_WithLogger, MW_Logger, MW_Recover (core_Debug (cf_Core cfg)), MW_ForceHTTPS, MW_Session, MW_CSRF]"

definition csrf_skip :: "request \<Rightarrow> bool" where
  "csrf_skip r = has_prefix (req_Path r) ''/api/''"

record ('g, 'c) site_App =
  ap_Config :: site_Config
  ap_DB :: "'g \<times> pool"
  ap_Router :: "(site_page, site_mw) Router"
  ap_Cookies :: Jar
  ap_Session :: "'c session_choice"
  ap_Signer :: Signer
  ap_Cache :: "'c cache_choice"
  ap_Queue :: "'c queue_choice"
  ap_QueueDriver :: "'c queue_choice"
  ap_delivery :: mailer_choice
  ap_queued :: bool
  ap_Scheduler :: Scheduler
  ap_Redis :: "'c option"

definition redis_config :: "site_Redis \<Rightarrow> RedisConfig" where
  "redis_config r =
     \<lparr>rcf_URL = rd_URL r, rcf_Addr = rd_Addr r, rcf_Username = rd_Username r, rcf_Password = rd_Password r, rcf_DB = rd_DB r,
      rcf_PoolSize = 0, rcf_Prefix = [], rcf_DialTimeout = 0, rcf_ReadTimeout = 0, rcf_WriteTimeout = 0\<rparr>"

definition app_assemble :: "site_Config \<Rightarrow> string \<Rightarrow> 'g \<times> pool \<Rightarrow> 'c option \<Rightarrow> ('g, 'c) site_App" where
  "app_assemble cfg key gdb rdb =
     \<lparr>ap_Config = cfg, ap_DB = gdb, ap_Router = router_Use (site_middleware cfg) router_New,
      ap_Cookies = cookie_New key (has_prefix (core_URL (cf_Core cfg)) ''https://''),
      ap_Session = buildSessions cfg rdb, ap_Signer = NewSigner key, ap_Cache = buildCache cfg rdb,
      ap_Queue = buildQueueDriver cfg rdb, ap_QueueDriver = buildQueueDriver cfg rdb,
      ap_delivery = buildMailer cfg, ap_queued = ml_Queue (cf_Mail cfg), ap_Scheduler = [], ap_Redis = rdb\<rparr>"

definition app_New ::
  "(string \<Rightarrow> dotenv) \<Rightarrow> environment \<Rightarrow> (rat \<Rightarrow> rat) \<Rightarrow> (DBConfig \<Rightarrow> (db_error, 'g \<times> pool) result)
     \<Rightarrow> (RedisConfig \<Rightarrow> (redis_error, 'c) result) \<Rightarrow> (site_error, ('g, 'c) site_App) result" where
  "app_New files env0 fl openDB openRedis =
     (case site_LoadEnv files [] env0 of
        (Some p, _) \<Rightarrow> Inl (Site_LoadEnv p)
      | (None, env) \<Rightarrow>
          (let cfg = site_Load fl env in
           case signingKey cfg of
             Inl e \<Rightarrow> Inl e
           | Inr (key, _) \<Rightarrow>
               (case openDB (cf_DB cfg) of
                  Inl e \<Rightarrow> Inl (Site_DB e)
                | Inr gdb \<Rightarrow>
                    (case (if UsesRedis cfg then map_sum id Some (openRedis (redis_config (cf_Redis cfg))) else Inr None) of
                       Inl e \<Rightarrow> Inl (Site_Redis e)
                     | Inr rdb \<Rightarrow>
                         Inr (app_assemble cfg key gdb rdb)))))"

definition app_From :: "('g, 'c) site_App \<Rightarrow> Address" where
  "app_From a = \<lparr>ad_Name = ml_FromName (cf_Mail (ap_Config a)), ad_Email = ml_FromAddress (cf_Mail (ap_Config a))\<rparr>"

text \<open>\<^verbatim>\<open>Close\<close>, on an application that \<^verbatim>\<open>New\<close> returned, which has a database.\<close>

definition app_Close :: "('g \<Rightarrow> string option) \<Rightarrow> ('g \<Rightarrow> string option) \<Rightarrow> ('g, 'c) site_App \<Rightarrow> string option" where
  "app_Close gorm_pool pool_close a = db_Close gorm_pool pool_close (fst (ap_DB a))"


section \<open>The flags of a command\<close>

text \<open>The \<^verbatim>\<open>flag\<close> package: flags before the first argument that is none, with one or two dashes, a value after an
  equals sign or, for flags that are not boolean, in the next argument.  The error is the message; \<open>valid\<close> says which
  values the type of a flag takes.\<close>

datatype flag_kind = F_String | F_Int | F_Duration | F_Bool

datatype flag_error = Bad_Syntax string | Not_Defined string | Needs_Argument string | Invalid_Value string string | Help

type_synonym flag_values = "(string \<times> string) list"

fun flag_loop ::
  "(flag_kind \<Rightarrow> string \<Rightarrow> bool) \<Rightarrow> (string \<rightharpoonup> flag_kind) \<Rightarrow> flag_values \<Rightarrow> string list \<Rightarrow> (flag_error, flag_values \<times> string list) result" where
  "flag_loop valid defs vals [] = Inr (vals, [])"
| "flag_loop valid defs vals (s # args) =
     (if length s < 2 \<or> hd s \<noteq> CHR ''-'' then Inr (vals, s # args)
      else if s = ''--'' then Inr (vals, args)
      else let body = (if s ! 1 = CHR ''-'' then drop 2 s else drop 1 s) in
        if body = [] \<or> hd body = CHR ''-'' \<or> hd body = CHR ''='' then Inl (Bad_Syntax s)
        else (case cut (CHR ''='') body of (name, v, hasValue) \<Rightarrow>
          (case defs name of
             None \<Rightarrow> Inl (if name \<in> {''help'', ''h''} then Help else Not_Defined name)
           | Some F_Bool \<Rightarrow>
               (let b = (if hasValue then v else ''true'')
                in if valid F_Bool b then flag_loop valid defs (vals @ [(name, b)]) args else Inl (Invalid_Value name b))
           | Some k \<Rightarrow>
               if hasValue
               then (if valid k v then flag_loop valid defs (vals @ [(name, v)]) args else Inl (Invalid_Value name v))
               else (case args of
                       [] \<Rightarrow> Inl (Needs_Argument name)
                     | a # rest \<Rightarrow> if valid k a then flag_loop valid defs (vals @ [(name, a)]) rest else Inl (Invalid_Value name a)))))"

definition flag_value :: "flag_values \<Rightarrow> string \<Rightarrow> string option" where
  "flag_value vals name = map_of (rev vals) name"

text \<open>The readers of the types: for integers and durations the parsers of the library.\<close>

record flag_readers =
  fr_int :: "string \<Rightarrow> int option"
  fr_duration :: "string \<Rightarrow> duration option"
  fr_bool :: "string \<Rightarrow> bool option"

definition flag_valid :: "flag_readers \<Rightarrow> flag_kind \<Rightarrow> string \<Rightarrow> bool" where
  "flag_valid rd k v =
     (case k of F_String \<Rightarrow> True | F_Int \<Rightarrow> fr_int rd v \<noteq> None | F_Duration \<Rightarrow> fr_duration rd v \<noteq> None | F_Bool \<Rightarrow> fr_bool rd v \<noteq> None)"

definition flag_Parse ::
  "flag_readers \<Rightarrow> (string \<times> flag_kind) list \<Rightarrow> string list \<Rightarrow> (flag_error, flag_values \<times> string list) result" where
  "flag_Parse rd defs args = flag_loop (flag_valid rd) (map_of defs) [] args"

definition flag_int :: "flag_readers \<Rightarrow> flag_values \<Rightarrow> string \<Rightarrow> int \<Rightarrow> int" where
  "flag_int rd vals name d = (case flag_value vals name of None \<Rightarrow> d | Some v \<Rightarrow> the (fr_int rd v))"

definition flag_duration :: "flag_readers \<Rightarrow> flag_values \<Rightarrow> string \<Rightarrow> duration \<Rightarrow> duration" where
  "flag_duration rd vals name d = (case flag_value vals name of None \<Rightarrow> d | Some v \<Rightarrow> the (fr_duration rd v))"

definition flag_string :: "flag_values \<Rightarrow> string \<Rightarrow> string \<Rightarrow> string" where
  "flag_string vals name d = (case flag_value vals name of None \<Rightarrow> d | Some v \<Rightarrow> v)"

definition flag_bool :: "flag_readers \<Rightarrow> flag_values \<Rightarrow> string \<Rightarrow> bool" where
  "flag_bool rd vals name = (case flag_value vals name of None \<Rightarrow> False | Some v \<Rightarrow> the (fr_bool rd v))"

section \<open>The commands\<close>

definition app_serve :: "flag_readers \<Rightarrow> site_Config \<Rightarrow> string list \<Rightarrow> (flag_error, Server) result" where
  "app_serve rd cfg args =
     (case flag_Parse rd [(''addr'', F_String)] args of
        Inl e \<Rightarrow> Inl e
      | Inr (vals, _) \<Rightarrow>
          Inr \<lparr>srv_Addr = flag_string vals ''addr'' (core_Addr (cf_Core cfg)), srv_ReadHeaderTimeout = 0, srv_ReadTimeout = 0,
               srv_WriteTimeout = 0, srv_IdleTimeout = 0, srv_ShutdownTimeout = 15 * Second\<rparr>)"

definition app_migrate ::
  "flag_readers \<Rightarrow> 's mig_registry \<Rightarrow> mig_faults \<Rightarrow> string list \<Rightarrow> 's mig_db \<Rightarrow> (flag_error, mig_error option) result \<times> 's mig_db" where
  "app_migrate rd reg f args db =
     (case flag_Parse rd [(''steps'', F_Int)] args of
        Inl e \<Rightarrow> (Inl e, db)
      | Inr (vals, _) \<Rightarrow> (case mig_Up_run reg f (flag_int rd vals ''steps'' 0) db of (e, db') \<Rightarrow> (Inr e, db')))"

definition app_migrateRollback ::
  "flag_readers \<Rightarrow> 's mig_registry \<Rightarrow> mig_faults \<Rightarrow> string list \<Rightarrow> 's mig_db \<Rightarrow> (flag_error, mig_error option) result \<times> 's mig_db" where
  "app_migrateRollback rd reg f args db =
     (case flag_Parse rd [(''batches'', F_Int)] args of
        Inl e \<Rightarrow> (Inl e, db)
      | Inr (vals, _) \<Rightarrow> (case mig_Rollback reg f (flag_int rd vals ''batches'' 1) db of (e, db') \<Rightarrow> (Inr e, db')))"

definition app_migrateRefresh ::
  "'s mig_registry \<Rightarrow> mig_faults \<Rightarrow> mig_faults \<Rightarrow> 's mig_db \<Rightarrow> mig_error option \<times> 's mig_db" where
  "app_migrateRefresh reg f f' db = mig_Refresh reg f f' db"

text \<open>Tables of the library's \<^verbatim>\<open>tabwriter\<close>: every cell but the last of a row is padded to the widest of its column and
  three blanks more.\<close>

definition column_cell_width :: "string list list \<Rightarrow> nat \<Rightarrow> nat" where
  "column_cell_width rows j = Max (insert 0 (set (map (\<lambda>r. length (r ! j)) rows))) + 3"

definition table_row :: "string list list \<Rightarrow> string list \<Rightarrow> string" where
  "table_row rows r =
     concat (map (\<lambda>j. r ! j @ replicate (column_cell_width rows j - length (r ! j)) (CHR '' '')) [0..<length r - 1]) @ last r"

definition table_lines :: "string list list \<Rightarrow> string list" where
  "table_lines rows = map (table_row rows) rows"

definition status_row :: "Status \<Rightarrow> string list" where
  "status_row s =
     (if st_Missing s then [''missing'', format_int (st_Batch s), st_ID s]
      else if st_Applied s then [''applied'', format_int (st_Batch s), st_ID s]
      else [''pending'', ''-'', st_ID s])"

definition app_migrateStatus :: "(mig_error, Status list) result \<Rightarrow> (mig_error, string list) result" where
  "app_migrateStatus statuses =
     (case statuses of
        Inl e \<Rightarrow> Inl e
      | Inr [] \<Rightarrow> Inr [''No migrations found.'']
      | Inr ss \<Rightarrow> Inr (table_lines ([''STATUS'', ''BATCH'', ''MIGRATION''] # map status_row ss)))"

definition app_routes :: "route_registry \<Rightarrow> string list" where
  "app_routes reg =
     (case router_Routes reg of
        [] \<Rightarrow> [''No named routes. Name a route with .Name('' @ quote_mark @ ''...'' @ quote_mark @ '') to see it here.'']
      | rs \<Rightarrow> table_lines ([''METHOD'', ''PATTERN'', ''NAME''] # map (\<lambda>r. [nr_Method r, nr_Pattern r, nr_Name r]) rs))"

definition app_queueWork :: "flag_readers \<Rightarrow> string list \<Rightarrow> (flag_error, Worker) result" where
  "app_queueWork rd args =
     (case flag_Parse rd [(''queue'', F_String), (''concurrency'', F_Int), (''poll'', F_Duration)] args of
        Inl e \<Rightarrow> Inl e
      | Inr (vals, _) \<Rightarrow>
          Inr \<lparr>wk_Queue = flag_string vals ''queue'' queue_Default, wk_Concurrency = flag_int rd vals ''concurrency'' 1,
               wk_PollInterval = flag_duration rd vals ''poll'' Second, wk_ShutdownTimeout = 0\<rparr>)"

definition firstLine :: "string \<Rightarrow> string" where
  "firstLine s = fst (cut (CHR 0x0A) s)"

datatype queue_cmd_error = QC_Flag flag_error | QC_Unsupported | QC_Usage | QC_NotAnID string | QC_Driver queue_error

definition failed_row :: "(time \<Rightarrow> string) \<Rightarrow> FailedRecord \<Rightarrow> string list" where
  "failed_row rfc3339 f =
     [format_nat (fr_ID f), fr_Queue f, fr_Name f, format_int (fr_Attempts f), rfc3339 (fr_FailedAt f), firstLine (fr_LastError f)]"

text \<open>\<^verbatim>\<open>queue:failed\<close> on a driver that lists failed jobs, or one that does not.\<close>

definition app_queueFailed ::
  "flag_readers \<Rightarrow> (time \<Rightarrow> string) \<Rightarrow> (int \<Rightarrow> (queue_error, FailedRecord list) result) option \<Rightarrow> string list
     \<Rightarrow> (queue_cmd_error, string list) result" where
  "app_queueFailed rd rfc3339 lister args =
     (case flag_Parse rd [(''limit'', F_Int)] args of
        Inl e \<Rightarrow> Inl (QC_Flag e)
      | Inr (vals, _) \<Rightarrow>
          (case lister of
             None \<Rightarrow> Inl QC_Unsupported
           | Some failed \<Rightarrow>
               (case failed (flag_int rd vals ''limit'' 25) of
                  Inl e \<Rightarrow> Inl (QC_Driver e)
                | Inr [] \<Rightarrow> Inr [''No failed jobs.'']
                | Inr fs \<Rightarrow>
                    Inr (table_lines ([''ID'', ''QUEUE'', ''JOB'', ''ATTEMPTS'', ''FAILED AT'', ''ERROR''] # map (failed_row rfc3339) fs)))))"

fun retry_loop :: "(nat \<Rightarrow> 'q \<Rightarrow> queue_error option \<times> 'q) \<Rightarrow> string list \<Rightarrow> 'q \<Rightarrow> (queue_cmd_error option \<times> string list) \<times> 'q" where
  "retry_loop retry [] q = ((None, []), q)"
| "retry_loop retry (raw # rest) q =
     (case parse_uint raw 64 of
        None \<Rightarrow> ((Some (QC_NotAnID raw), []), q)
      | Some i \<Rightarrow>
          (case retry i q of
             (Some e, q') \<Rightarrow> ((Some (QC_Driver e), []), q')
           | (None, q') \<Rightarrow>
               (case retry_loop retry rest q' of
                  ((e, out), q'') \<Rightarrow> ((e, (''Job '' @ format_nat i @ '' is back on its queue.'') # out), q''))))"

definition app_queueRetry ::
  "(nat \<Rightarrow> 'q \<Rightarrow> queue_error option \<times> 'q) option \<Rightarrow> string list \<Rightarrow> 'q \<Rightarrow> (queue_cmd_error option \<times> string list) \<times> 'q" where
  "app_queueRetry retrier args q =
     (if args = [] then ((Some QC_Usage, []), q)
      else case retrier of None \<Rightarrow> ((Some QC_Unsupported, []), q) | Some retry \<Rightarrow> retry_loop retry args q)"

datatype schedule_mode = Run_Once | Run_Every duration

definition app_scheduleRun :: "flag_readers \<Rightarrow> string list \<Rightarrow> (flag_error, schedule_mode) result" where
  "app_scheduleRun rd args =
     (case flag_Parse rd [(''once'', F_Bool), (''tick'', F_Duration)] args of
        Inl e \<Rightarrow> Inl e
      | Inr (vals, _) \<Rightarrow> Inr (if flag_bool rd vals ''once'' then Run_Once else Run_Every (flag_duration rd vals ''tick'' (30 * Second))))"

definition app_scheduleList :: "(duration \<Rightarrow> string) \<Rightarrow> Scheduler \<Rightarrow> string list" where
  "app_scheduleList durText s =
     (case sched_Tasks s of
        [] \<Rightarrow> [''No scheduled tasks.'']
      | ts \<Rightarrow>
          table_lines ([''TASK'', ''EVERY'', ''AT'', ''OVERLAP'']
            # map (\<lambda>t. [ta_Name t, durText (ta_Every t), if ta_At t = [] then ''-'' else ta_At t, if ta_AllowOverlap t then ''yes'' else ''no'']) ts))"

definition command_table :: "(string \<times> string) list" where
  "command_table =
     [(''serve'', ''Start the HTTP server''), (''migrate'', ''Run pending database migrations''),
      (''migrate:rollback'', ''Roll back the last batch of migrations''), (''migrate:status'', ''Show the status of every migration''),
      (''migrate:refresh'', ''Roll everything back, then migrate again''), (''db:seed'', ''Run the database seeders''),
      (''routes'', ''List the application's named routes''), (''queue:work'', ''Run background jobs until interrupted''),
      (''queue:failed'', ''List jobs that exhausted their attempts''), (''queue:retry'', ''Put a failed job back on its queue''),
      (''schedule:run'', ''Run scheduled tasks until interrupted''), (''schedule:list'', ''List the scheduled tasks'')]"

definition app_Commands :: "(string \<Rightarrow> string list \<Rightarrow> 'w \<Rightarrow> string option \<times> 'w) \<Rightarrow> 'w Command list" where
  "app_Commands run = map (\<lambda>(n, u). \<lparr>cmd_Name = n, cmd_Usage = u, cmd_Run = run n\<rparr>) command_table"

text \<open>The seeders in order, none of which the site has.\<close>

fun seeders_Run :: "('d \<Rightarrow> string option \<times> 'd) list \<Rightarrow> 'd \<Rightarrow> string option \<times> 'd" where
  "seeders_Run [] db = (None, db)"
| "seeders_Run (s # ss) db = (case s db of (Some e, db') \<Rightarrow> (Some e, db') | (None, db') \<Rightarrow> seeders_Run ss db')"

section \<open>Scheduled tasks and the main function\<close>

text \<open>The bodies of the two tasks: pruning the sessions and the cache, when the store at hand can.\<close>

definition site_schedule :: "(time \<Rightarrow> body) \<Rightarrow> (time \<Rightarrow> body) \<Rightarrow> Scheduler \<Rightarrow> (sched_panic, Scheduler) result" where
  "site_schedule pruneSessions pruneCache s =
     (case sched_Every Hour ''prune-sessions'' (Some pruneSessions) s of
        Inl p \<Rightarrow> Inl p
      | Inr s' \<Rightarrow> sched_Every Hour ''prune-cache'' (Some pruneCache) s')"

definition prune_sessions :: "'c session_choice \<Rightarrow> (unit \<Rightarrow> string option) \<Rightarrow> body" where
  "prune_sessions st prune = (case st of Sess_DB \<Rightarrow> Returns (prune ()) | _ \<Rightarrow> Returns None)"

definition prune_cache :: "'c cache_choice \<Rightarrow> (unit \<Rightarrow> string option) \<Rightarrow> body" where
  "prune_cache st prune = (case st of Cache_DB \<Rightarrow> Returns (prune ()) | _ \<Rightarrow> Returns None)"

text \<open>\<^verbatim>\<open>run\<close>: the exit status.\<close>

definition main_run :: "(site_error, 'a) result \<Rightarrow> ('a \<Rightarrow> command_error option) \<Rightarrow> nat" where
  "main_run new execute = (case new of Inl _ \<Rightarrow> 1 | Inr a \<Rightarrow> if execute a = None then 0 else 1)"


section \<open>The application is put together safely\<close>

definition has_client :: "('g, 'c) site_App \<Rightarrow> bool" where
  "has_client a =
     ((case ap_Session a of Sess_Redis c _ \<Rightarrow> c \<noteq> None | _ \<Rightarrow> True) \<and> (case ap_Cache a of Cache_Redis c _ \<Rightarrow> c \<noteq> None | _ \<Rightarrow> True)
      \<and> (case ap_Queue a of Queue_Redis c _ \<Rightarrow> c \<noteq> None | _ \<Rightarrow> True))"

lemma app_New_InrE:
  assumes "app_New files env0 fl openDB openRedis = Inr a"
  obtains env key warned gdb rdb where
    "site_LoadEnv files [] env0 = (None, env)" "signingKey (site_Load fl env) = Inr (key, warned)"
    "rdb \<noteq> None \<longleftrightarrow> UsesRedis (site_Load fl env)" "a = app_assemble (site_Load fl env) key gdb rdb"
proof -
  obtain p env where l: "site_LoadEnv files [] env0 = (p, env)" by fastforce
  with assms have p: "p = None" by (auto simp: app_New_def split: option.splits)
  let ?cfg = "site_Load fl env"
  obtain key warned where k: "signingKey ?cfg = Inr (key, warned)"
    using assms l p by (cases "signingKey ?cfg") (auto simp: app_New_def Let_def)
  obtain gdb where g: "openDB (cf_DB ?cfg) = Inr gdb"
    using assms l p k by (cases "openDB (cf_DB ?cfg)") (auto simp: app_New_def Let_def)
  obtain rdb where "(if UsesRedis ?cfg then map_sum id Some (openRedis (redis_config (cf_Redis ?cfg))) else Inr None) = Inr rdb"
      and a: "a = app_assemble ?cfg key gdb rdb"
    using assms l p k g by (auto simp: app_New_def Let_def split: sum.splits)
  then have "rdb \<noteq> None \<longleftrightarrow> UsesRedis ?cfg" by (cases "openRedis (redis_config (cf_Redis ?cfg))") (auto split: if_splits)
  then show thesis using that l p k a by blast
qed

text \<open>C36. An application that starts is put together safely.  In production its cookies and its tokens are signed with the
  configured key, which is not empty; elsewhere with that key or the published one.  Its cookies are marked secure
  exactly when its address is under https.  Whatever store or driver was configured for Redis has a connected client,
  and Redis is not touched when none was; jobs are dispatched to the driver the worker drains; and the redirect to
  https stands before the session and the CSRF token.\<close>

theorem site_starts_safely:
  assumes "app_New files env0 fl openDB openRedis = Inr a"
  shows "(IsProduction (cf_Core (ap_Config a)) \<longrightarrow> jar_key (ap_Cookies a) = core_Key (cf_Core (ap_Config a)) \<and> jar_key (ap_Cookies a) \<noteq> [])
    \<and> jar_key (ap_Cookies a) \<in> {core_Key (cf_Core (ap_Config a)), devKey} - {[]}
    \<and> signer_key (ap_Signer a) = jar_key (ap_Cookies a)
    \<and> (jar_Secure (ap_Cookies a) \<longleftrightarrow> has_prefix (core_URL (cf_Core (ap_Config a))) ''https://'')
    \<and> has_client a \<and> (ap_Redis a \<noteq> None \<longleftrightarrow> UsesRedis (ap_Config a))
    \<and> ap_Queue a = ap_QueueDriver a
    \<and> (\<exists>before after. ro_middleware (ap_Router a) = before @ MW_ForceHTTPS # after \<and> MW_Session \<in> set after \<and> MW_CSRF \<in> set after
         \<and> MW_Session \<notin> set before \<and> MW_CSRF \<notin> set before)"
proof -
  obtain env key warned gdb rdb where "site_LoadEnv files [] env0 = (None, env)"
      and n: "signingKey (site_Load fl env) = Inr (key, warned)"
      "rdb \<noteq> None \<longleftrightarrow> UsesRedis (site_Load fl env)" "a = app_assemble (site_Load fl env) key gdb rdb"
    by (rule app_New_InrE [OF assms])
  define cfg where "cfg = site_Load fl env"
  note n = n [folded cfg_def]
  have key: "key \<in> {core_Key (cf_Core cfg), devKey} - {[]}" "IsProduction (cf_Core cfg) \<longrightarrow> key = core_Key (cf_Core cfg)"
    using n(1) by (auto simp: signingKey_def devKey_def split: if_splits)
  have client: "has_client a"
  proof -
    have "cf_Session_Driver cfg = ''redis'' \<Longrightarrow> rdb \<noteq> None" "cf_Cache_Driver cfg = ''redis'' \<Longrightarrow> rdb \<noteq> None"
      "cf_Queue_Driver cfg = ''redis'' \<Longrightarrow> rdb \<noteq> None" using n(2) unfolding UsesRedis_def by blast+
    then show ?thesis
      unfolding n(3) has_client_def app_assemble_def buildSessions_def buildCache_def buildQueueDriver_def
      by (simp split: if_split del: not_None_eq)
  qed
  have mw: "ro_middleware (ap_Router a) = [MW_RequestID, MW_WithLogger, MW_Logger, MW_Recover (core_Debug (cf_Core cfg))] @ MW_ForceHTTPS
      # [MW_Session, MW_CSRF]"
    by (simp add: n(3) app_assemble_def router_Use_def router_New_def site_middleware_def)
  have order: "\<exists>before after. ro_middleware (ap_Router a) = before @ MW_ForceHTTPS # after \<and> MW_Session \<in> set after \<and> MW_CSRF \<in> set after
         \<and> MW_Session \<notin> set before \<and> MW_CSRF \<notin> set before"
    unfolding mw by (rule exI, rule exI, rule conjI, rule refl) simp
  have parts: "ap_Config a = cfg" "jar_key (ap_Cookies a) = key" "signer_key (ap_Signer a) = key" "ap_Redis a = rdb"
      "jar_Secure (ap_Cookies a) \<longleftrightarrow> has_prefix (core_URL (cf_Core cfg)) ''https://''" "ap_Queue a = ap_QueueDriver a"
    by (simp_all add: n(3) app_assemble_def cookie_New_def NewSigner_def)
  show ?thesis unfolding parts(1-4) using key client n(2) order parts(5,6) by (intro conjI) auto
qed

definition sample_env :: environment where
  "sample_env = fmap_of_list [(''APP_ENV'', ''production''), (''APP_KEY'', ''k''), (''CACHE_DRIVER'', ''redis'')]"

theorem site_starts_safely_witness:
  "\<exists>a. app_New (\<lambda>_. Missing) sample_env id (\<lambda>_. Inr ((), pool_settings undefined)) (\<lambda>c. Inr (rcf_Addr c)) = Inr a
     \<and> jar_key (ap_Cookies a) = ''k'' \<and> has_client a \<and> ap_Redis a \<noteq> None"
proof -
  let ?new = "app_New (\<lambda>_. Missing) sample_env id (\<lambda>_. Inr ((), pool_settings undefined)) (\<lambda>c. Inr (rcf_Addr c))"
  have l: "site_LoadEnv (\<lambda>_. Missing) [] sample_env = (None, sample_env)" by (simp add: site_LoadEnv_def config_Load_def)
  let ?cfg = "site_Load id sample_env"
  have c: "core_Env (cf_Core ?cfg) = ''production''" "core_Key (cf_Core ?cfg) = ''k''" "cf_Cache_Driver ?cfg = ''redis''"
    by (simp_all add: site_Load_def Let_def sample_env_def config_String_def config_lookup_def fmlookup_of_list)
  have k: "signingKey ?cfg = Inr (''k'', False)" "UsesRedis ?cfg" using c by (simp_all add: signingKey_def UsesRedis_def)
  obtain a where a: "?new = Inr a" using l k by (simp add: app_New_def Let_def)
  have "ap_Config a = ?cfg" using a l k by (simp add: app_New_def Let_def) (auto simp: app_assemble_def)
  then have "jar_key (ap_Cookies a) = ''k''" "has_client a" "ap_Redis a \<noteq> None"
    using site_starts_safely [OF a] c k by (auto simp: IsProduction_def EnvProduction_def)
  then show ?thesis using a by blast
qed

section \<open>The command line and the application\<close>

lemma app_serve_addr:
  "app_serve rd cfg [] = Inr \<lparr>srv_Addr = core_Addr (cf_Core cfg), srv_ReadHeaderTimeout = 0, srv_ReadTimeout = 0,
     srv_WriteTimeout = 0, srv_IdleTimeout = 0, srv_ShutdownTimeout = 15 * Second\<rparr>"
  "app_serve rd cfg [''-addr'', a] = Inr \<lparr>srv_Addr = a, srv_ReadHeaderTimeout = 0, srv_ReadTimeout = 0,
     srv_WriteTimeout = 0, srv_IdleTimeout = 0, srv_ShutdownTimeout = 15 * Second\<rparr>"
  by (simp_all add: app_serve_def flag_Parse_def flag_valid_def flag_string_def flag_value_def)

lemma command_names: "map cmd_Name (app_Commands run) = ''serve'' # forwarded \<and> distinct (map cmd_Name (app_Commands run))"
  by (simp add: app_Commands_def command_table_def forwarded_def)

lemma app_Commands_find:
  assumes "name \<in> set (''serve'' # forwarded)"
  shows "\<exists>u. find (\<lambda>c. cmd_Name c = name) (app_Commands run) = Some \<lparr>cmd_Name = name, cmd_Usage = u, cmd_Run = run name\<rparr>"
  using assms unfolding forwarded_def app_Commands_def command_table_def by auto

lemma app_Commands_Execute:
  assumes "name \<in> set (''serve'' # forwarded)"
  shows "commands_Execute (app_Commands run) (prog # name # args) w
     = (case run name args w of (e, w') \<Rightarrow> ((map_option Err_Command e, [], []), w'))"
proof -
  from app_Commands_find [OF assms] obtain u where
    "find (\<lambda>c. cmd_Name c = name) (app_Commands run) = Some \<lparr>cmd_Name = name, cmd_Usage = u, cmd_Run = run name\<rparr>" by blast
  moreover have "name \<notin> {''help'', ''-h'', ''--help''}" using assms by (auto simp: forwarded_def)
  ultimately show ?thesis by (simp add: commands_Execute_def)
qed



end
