(* ===== verification/Spec2Isabelle.thy ===== *)
theory Spec2Isabelle
  imports Auth SessionStores Csrf Flash Ratelimit Worker QueueRedis QueueMongo CacheProps
    BearerProps TwofactorProps MigrateProps ScheduleProps RouterProps MailProps
    ValidateProps WatcherProps NewProject Middleware Password Release Config
    LogProps DevReload TestClientProps NewCmd MakeCmds RunCmds App MongoStores CacheFlight Clients SiteApp
begin

text \<open>
  \<^bold>\<open>Ryla\<close> is a web framework for Go: a set of packages an application is put together from, and the
  command \<^verbatim>\<open>ry\<close> that creates, generates and runs such applications.  This library models the
  packages that carry the framework's own logic and the parts of the command that decide something, and
  proves what they promise.

  \<^bold>\<open>The parts and how they interact.\<close>  A request passes the router to a chain of middleware:
  request ids, the request log and the recovery from panics, the session middleware, the guard of
  \<^verbatim>\<open>auth\<close>, the double-submit check of \<^verbatim>\<open>csrf\<close>, the rate limiter, bearer tokens for an API.
  Sessions live in a signed cookie or in a store behind it; \<^verbatim>\<open>auth\<close>, \<^verbatim>\<open>twofactor\<close> and \<^verbatim>\<open>flash\<close> keep their
  state in the session or in signed cookies of their own.  Handlers bind and check their input with
  \<^verbatim>\<open>validate\<close>, dispatch jobs to \<^verbatim>\<open>queue\<close>, send \<^verbatim>\<open>mail\<close> through it and read and write the
  \<^verbatim>\<open>cache\<close>.  A worker process claims jobs, a scheduler starts tasks, a migration runner moves the schema.
  The binary of an application dispatches its commands and runs the server (\<^verbatim>\<open>app\<close>); \<^verbatim>\<open>ry\<close> creates a project, generates
  code into it, builds it, and runs it under a watcher with the services it needs.  The documentation site (\<^verbatim>\<open>site\<close>) is
  such an application, put together from all of these.

  \<^bold>\<open>Theories and sources\<close> (paths below \<^verbatim>\<open>src/\<close>).
  \<^item> \<open>Prelude\<close>, \<open>Strconv\<close>, \<open>Duration\<close>, \<open>Base64\<close>, \<open>Http\<close>: results, time, strings, the conversions of
    \<^verbatim>\<open>strconv\<close> and \<^verbatim>\<open>time.ParseDuration\<close>, base64 with its inverse, requests, responses and cookies.
  \<^item> \<open>Cookie\<close> (\<^verbatim>\<open>cookie/cookie.go\<close>): signing and verifying; a verified cookie was signed for that name.
  \<^item> \<open>Session\<close>, \<open>SessionProps\<close>, \<open>SessionStores\<close> (\<^verbatim>\<open>session/\<close>): session values, the cookie, database,
    Redis and MongoDB stores and the middleware.  The locale \<open>session_store\<close> states what a store
    promises, and all four stores interpret it.
  \<^item> \<open>Auth\<close>, \<open>Password\<close> (\<^verbatim>\<open>auth/\<close>): login, guards, signed tokens, password hashes.
  \<^item> \<open>Csrf\<close>, \<open>Flash\<close>, \<open>Ratelimit\<close>, \<open>Bearer\<close>, \<open>BearerProps\<close>, \<open>Twofactor\<close>, \<open>TwofactorProps\<close>: the packages of those names.
  \<^item> \<open>Queue\<close> (\<^verbatim>\<open>queue/queue.go\<close>, \<^verbatim>\<open>driver.go\<close>), \<open>QueueDB\<close>, \<open>QueueRedis\<close>, \<open>QueueMongo\<close>, \<open>Worker\<close>: the
    locale \<open>queue_driver\<close> has the contract of a driver, \<open>draining_driver\<close> extends it with progress; the
    three drivers interpret them.
  \<^item> \<open>Cache\<close>, \<open>CacheProps\<close> (\<^verbatim>\<open>cache/\<close>): the locales \<open>cache_store\<close> and \<open>lossless_store\<close> relate a store to
    a map with expiry; the memory, database, Redis and MongoDB stores interpret them.  \<open>CacheFlight\<close> has
    \<^verbatim>\<open>Remember\<close> for callers that miss at the same time.
  \<^item> \<open>Migrate\<close>, \<open>Schedule\<close>, \<open>Router\<close>, \<open>Mail\<close>, \<open>Validate\<close>, each with its \<open>Props\<close> theory, \<open>Middleware\<close>,
    \<open>Config\<close>: the packages of those names.
  \<^item> \<open>Log\<close>, \<open>LogProps\<close> (\<^verbatim>\<open>log/\<close>), \<open>DevReload\<close> (\<^verbatim>\<open>devreload/\<close>), \<open>TestClient\<close>, \<open>TestClientProps\<close> (\<^verbatim>\<open>testing/\<close>), \<open>App\<close>
    (\<^verbatim>\<open>app/\<close>), \<open>Mongo\<close> (\<^verbatim>\<open>mongo/\<close>), \<open>MongoStores\<close> (the indexes declared by \<^verbatim>\<open>cache/mongo\<close>, \<^verbatim>\<open>session/mongo\<close> and \<^verbatim>\<open>queue/mongo\<close>) and
    \<open>Clients\<close> (\<^verbatim>\<open>redis/redis.go\<close>, \<^verbatim>\<open>db/db.go\<close>).
  \<^item> \<open>Naming\<close>, \<open>Scaffold\<close>, \<open>NewProject\<close>, \<open>Watcher\<close>, \<open>WatcherProps\<close>, \<open>Release\<close> and the second half of
    \<open>Config\<close>: the packages of \<^verbatim>\<open>cmd/ry/internal\<close>; \<open>Toolchain\<close> and \<open>Frontend\<close>: its packages that drive the Go tool and npm.
  \<^item> \<open>EnvFile\<close>, \<open>Services\<close>, \<open>UpdateCmd\<close>, \<open>NewCmd\<close>, \<open>MakeCmds\<close>, \<open>RunCmds\<close>: the commands of \<^verbatim>\<open>cmd/ry/internal/commands\<close>, of which
    \<open>UpdateCmd\<close> also has the version of the framework (\<^verbatim>\<open>ryla.go\<close>).
  \<^item> \<open>SiteViews\<close> (\<^verbatim>\<open>site/resources/views\<close>), \<open>SiteHttp\<close> (\<^verbatim>\<open>site/app/controllers\<close>, \<^verbatim>\<open>site/app/middleware\<close>, \<^verbatim>\<open>site/routes\<close>,
    \<^verbatim>\<open>view/\<close>), \<open>SiteSchema\<close> (\<^verbatim>\<open>site/database/migrations\<close>), \<open>SiteApp\<close> (\<^verbatim>\<open>site/config\<close>, \<^verbatim>\<open>site/app\<close>, \<^verbatim>\<open>site/cmd\<close>): the site.

  A struct is a record with a prefix for its fields, a method is a definition over the record with
  the package or type in its name, an error is a value of a sum type, a panic a value of its own.  A database table or
  a collection is a list of rows, a Redis key space a record of maps.  The clock, the random source,
  cryptography (HMAC, SHA-256, argon2, AES-GCM), JSON, templates and other third-party code are
  arguments; what a theorem relies on is a hypothesis, met by a concrete function in its witness.

  \<^bold>\<open>What is shown.\<close>
  \<^item> Queue: a job is with one worker at a time, racing claims have one winner, draining hands out every
    due job, a job is retried up to its limit; and the state in which a stale SELECT skips a backoff.
  \<^item> Sessions and login: values survive a redirect, a login defeats fixation, logout everywhere ends
    every session of a user, tokens verify until they expire.
  \<^item> Protection: CSRF, rate limits, bearer tokens, guesses at second factors, single use of recovery
    codes, no header injection in mail, passwords verify against their own hash only.
  \<^item> Data: the memory cache is sound and the database cache refines the abstract map, migrations
    resume where they stopped, the form binder keeps fields within their types and sets exactly
    what was submitted.  Callers that miss a cache key together compute it once.  The declared MongoDB indexes are
    created exactly and once, also those of the framework's own stores.
  \<^item> Processes: bounded concurrency of the worker, no overlap of scheduled tasks and shutdown that
    ends, the watcher rebuilds after every quiet period and runs one server, the server drains its
    requests or gives up at its timeout, and the reload script changes nothing else of a response.
  \<^item> The command line: generating never overwrites without being told to, table names are stable for
    both numbers of regular words, a new project is one that \<^verbatim>\<open>ry dev\<close> can run, and generating a key
    loses none.
  \<^item> The site: no text of a page can inject markup, negotiation is that of the standard, a page and its Markdown agree,
    every link of the site is served, the application refuses to start in production without a key and wires every
    store it was configured for, its migrations create the tables the drivers use, and what \<^verbatim>\<open>ry\<close> asks of an
    application reaches its commands.

  \<^bold>\<open>Step relations.\<close>  The racing transactions of a claim, the loop of the worker, the scheduler, the server and
  the watcher are inductive relations; invariants are by rule induction over their runs, and
  where a run must end there is a measure or an explicit continuation.  No definition
  uses fuel: loops are structural or have a termination proof.

  \<^bold>\<open>Bounds and idealisations.\<close>  Times and durations are integers of nanoseconds; where the code can
  overflow (the backoff, the parser of durations, parsed numbers) the width is written out.  Strings
  are byte lists; case conversion is that of ASCII.  The rate limiter computes over rationals with an
  explicit rounding argument.  The time zone of the scheduler is a fixed offset.

  \<^bold>\<open>Not modelled.\<close>  The prose of the site's pages and of \<^verbatim>\<open>llms.txt\<close>, which is an argument where code works on it, and its
  compiled templates.  The texts of menus and hints that \<^verbatim>\<open>ry\<close> prints after \<^verbatim>\<open>make:auth\<close> and \<^verbatim>\<open>make:2fa\<close>, its JSON output and the
  command tree of its library.  Chi's matching of requests, gorm, the clients of Redis and MongoDB and the TOTP library,
  which are third-party code.  The packages that only register a dialect, the switches of a terminal and of a process of the
  operating system.  Log output, except where a theory says otherwise.
\<close>

end
